(* ===== verification/Recall_Prelude.thy ===== *)
theory Recall_Prelude
  imports Main
begin

text \<open>
  Shared vocabulary of the development: the Python exceptions the sources raise, the datetime
  values they check, computations over a mutable object that may raise (a state and exception
  monad, so that the mutations made before a \<open>raise\<close> stay visible, as they do in Python), the
  weakest-precondition calculus used to reason about them, the counting dictionaries that the
  capture gate and the credit ledger both keep, and two interface locales: invariants of a step
  relation and epochs that never go back.
\<close>

section \<open>Exceptions and time values\<close>

text \<open>
  One constructor per exception class of the sources; the argument is the message (a fixed
  string or a reason code) that the code passes to it.
\<close>

datatype exn =
    ValueError string
  | RuntimeError string
  | PermissionError string
  | CaptureGateClosed string
  | StaleCaptureGeneration string
  | CaptureGateOwnershipError string
  | PipelineProtocolError string
  | NoRouteError string
  | EgressDeniedError string
  | ScopeBudgetExceeded string
  | StorageError string
  | ActorError string
  | RedactionFailure string
  | AnsweringFailure string
  | IndexFailure string
  | IndexModelMismatch string
  | TimelineRebuildFailure string
  | KeyProviderFailure string
  | IpcProtocolError string
  | OSError string
  | ActivityStoreFailure string
  | ActivityFeatureFailure string
  | ActivitySummaryFailure string
  | ActivitySummaryUnavailable string
  | EncryptionFailure string
  | RestoreFailure string

text \<open>
  A datetime is an instant (microseconds) that is either timezone-aware or naive; the domain
  constructors refuse the naive ones.
\<close>

datatype datetime = Aware (instant: int) | Naive (instant: int)

fun is_aware :: "datetime \<Rightarrow> bool" where
  "is_aware (Aware _) = True"
| "is_aware (Naive _) = False"

section \<open>Computations over a mutable object\<close>

type_synonym ('s, 'a) comp = "'s \<Rightarrow> (exn + 'a) \<times> 's"

definition ret :: "'a \<Rightarrow> ('s, 'a) comp" where
  "ret x = (\<lambda>s. (Inr x, s))"

definition raise :: "exn \<Rightarrow> ('s, 'a) comp" where
  "raise e = (\<lambda>s. (Inl e, s))"

definition bindE :: "('s, 'a) comp \<Rightarrow> ('a \<Rightarrow> ('s, 'b) comp) \<Rightarrow> ('s, 'b) comp" where
  "bindE m f = (\<lambda>s. case m s of (Inl e, s') \<Rightarrow> (Inl e, s') | (Inr x, s') \<Rightarrow> f x s')"

definition seqE :: "('s, 'a) comp \<Rightarrow> ('s, 'b) comp \<Rightarrow> ('s, 'b) comp" where
  "seqE m n = bindE m (\<lambda>_. n)"

definition reads :: "('s \<Rightarrow> 'a) \<Rightarrow> ('s, 'a) comp" where
  "reads f = (\<lambda>s. (Inr (f s), s))"

definition modifies :: "('s \<Rightarrow> 's) \<Rightarrow> ('s, unit) comp" where
  "modifies f = (\<lambda>s. (Inr (), f s))"

definition require :: "bool \<Rightarrow> exn \<Rightarrow> ('s, unit) comp" where
  "require b e = (if b then ret () else raise e)"

text \<open>Calling a method of a component object: run it on the field that holds the object.\<close>

definition on_field :: "('s \<Rightarrow> 't) \<Rightarrow> ('t \<Rightarrow> 's \<Rightarrow> 's) \<Rightarrow> ('t, 'a) comp \<Rightarrow> ('s, 'a) comp" where
  "on_field get put m = (\<lambda>s. case m (get s) of (r, t) \<Rightarrow> (r, put t s))"

text \<open>A \<open>try\<close> block with a \<open>finally\<close> clause: the clause runs on both exits.\<close>

definition finallyE :: "('s, 'a) comp \<Rightarrow> ('s, unit) comp \<Rightarrow> ('s, 'a) comp" where
  "finallyE m f = (\<lambda>s. case m s of (r, s') \<Rightarrow>
     (case f s' of (Inl e, s'') \<Rightarrow> (Inl e, s'') | (Inr _, s'') \<Rightarrow> (r, s'')))"

text \<open>Pure fallible code: a sum of an exception and a value, and its use inside a computation.\<close>

definition bindS :: "exn + 'a \<Rightarrow> ('a \<Rightarrow> exn + 'b) \<Rightarrow> exn + 'b" where
  "bindS m f = (case m of Inl e \<Rightarrow> Inl e | Inr x \<Rightarrow> f x)"

definition ensure :: "bool \<Rightarrow> exn \<Rightarrow> exn + unit" where
  "ensure b e = (if b then Inr () else Inl e)"

definition lift :: "exn + 'a \<Rightarrow> ('s, 'a) comp" where
  "lift r = (\<lambda>s. (r, s))"

text \<open>A \<open>try\<close> block whose \<open>except\<close> clause handles every exception.\<close>

definition catchE :: "('s, 'a) comp \<Rightarrow> (exn \<Rightarrow> ('s, 'a) comp) \<Rightarrow> ('s, 'a) comp" where
  "catchE m h = (\<lambda>s. case m s of (Inl e, s') \<Rightarrow> h e s' | (Inr x, s') \<Rightarrow> (Inr x, s'))"

lemma bindS_simps [simp]: "bindS (Inl e) f = Inl e" "bindS (Inr x) f = f x"
  by (simp_all add: bindS_def)

lemma bindS_Inr: "bindS m f = Inr y \<longleftrightarrow> (\<exists>x. m = Inr x \<and> f x = Inr y)"
  by (cases m) simp_all

lemma ensure_simps [simp]: "ensure True e = Inr ()" "ensure False e = Inl e"
  by (simp_all add: ensure_def)

lemma ensure_Inr: "ensure b e = Inr u \<longleftrightarrow> b"
  by (simp add: ensure_def)

lemmas comp_defs = ret_def raise_def bindE_def seqE_def reads_def modifies_def require_def
  on_field_def finallyE_def lift_def catchE_def

section \<open>Weakest preconditions\<close>

text \<open>
  \<open>wp m Q E s\<close>: run from \<open>s\<close>, \<open>m\<close> either returns a value and a state satisfying \<open>Q\<close> or raises
  an exception in a state satisfying \<open>E\<close>. The rules below compute it by simplification; the
  collection \<open>wp_rules\<close> grows with the operations of each component.
\<close>

named_theorems wp_rules \<open>weakest-precondition equations\<close>

definition wp :: "('s, 'a) comp \<Rightarrow> ('a \<Rightarrow> 's \<Rightarrow> bool) \<Rightarrow> (exn \<Rightarrow> 's \<Rightarrow> bool) \<Rightarrow> 's \<Rightarrow> bool" where
  "wp m Q E s = (case m s of (Inr x, s') \<Rightarrow> Q x s' | (Inl e, s') \<Rightarrow> E e s')"

lemma wp_ret [wp_rules]: "wp (ret x) Q E = Q x"
  by (rule ext) (simp add: wp_def ret_def)

lemma wp_raise [wp_rules]: "wp (raise e) Q E = E e"
  by (rule ext) (simp add: wp_def raise_def)

lemma wp_bindE [wp_rules]: "wp (bindE m f) Q E = wp m (\<lambda>x. wp (f x) Q E) E"
  by (rule ext) (simp add: wp_def bindE_def split: prod.split sum.split)

lemma wp_seqE [wp_rules]: "wp (seqE m n) Q E = wp m (\<lambda>_. wp n Q E) E"
  by (simp add: seqE_def wp_bindE)

lemma wp_reads [wp_rules]: "wp (reads f) Q E = (\<lambda>s. Q (f s) s)"
  by (rule ext) (simp add: wp_def reads_def)

lemma wp_modifies [wp_rules]: "wp (modifies f) Q E = (\<lambda>s. Q () (f s))"
  by (rule ext) (simp add: wp_def modifies_def)

lemma wp_require [wp_rules]: "wp (require b e) Q E = (\<lambda>s. if b then Q () s else E e s)"
  by (rule ext) (simp add: require_def wp_ret wp_raise)

lemma wp_on_field [wp_rules]:
  "wp (on_field get put m) Q E =
    (\<lambda>s. wp m (\<lambda>x t. Q x (put t s)) (\<lambda>e t. E e (put t s)) (get s))"
  by (rule ext) (simp add: wp_def on_field_def split: prod.split sum.split)

lemma wp_finallyE [wp_rules]:
  "wp (finallyE m f) Q E = wp m (\<lambda>x. wp f (\<lambda>_. Q x) E) (\<lambda>e. wp f (\<lambda>_. E e) E)"
  by (rule ext) (simp add: wp_def finallyE_def split: prod.split sum.split)

lemma wp_lift [wp_rules]: "wp (lift r) Q E = (case r of Inl e \<Rightarrow> E e | Inr x \<Rightarrow> Q x)"
  by (rule ext) (simp add: wp_def lift_def split: sum.split)

lemma wp_catchE [wp_rules]: "wp (catchE m h) Q E = wp m Q (\<lambda>e. wp (h e) Q E)"
  by (rule ext) (simp add: wp_def catchE_def split: prod.split sum.split)

lemma wp_if [wp_rules]:
  "wp (if b then m else n) Q E = (\<lambda>s. if b then wp m Q E s else wp n Q E s)"
  by simp

lemma wp_case_option [wp_rules]:
  "wp (case x of None \<Rightarrow> m | Some y \<Rightarrow> f y) Q E =
    (\<lambda>s. case x of None \<Rightarrow> wp m Q E s | Some y \<Rightarrow> wp (f y) Q E s)"
  by (simp split: option.split)

lemma wp_case_prod [wp_rules]:
  "wp (case p of (x, y) \<Rightarrow> f x y) Q E = (case p of (x, y) \<Rightarrow> wp (f x y) Q E)"
  by (simp split: prod.split)

lemma wp_mono:
  assumes "wp m Q E s"
    and "\<And>x s'. Q x s' \<Longrightarrow> Q' x s'"
    and "\<And>e s'. E e s' \<Longrightarrow> E' e s'"
  shows "wp m Q' E' s"
  using assms by (auto simp: wp_def split: prod.splits sum.splits)

lemma wp_conj:
  "wp m Q E s \<Longrightarrow> wp m Q' E' s \<Longrightarrow> wp m (\<lambda>x s. Q x s \<and> Q' x s) (\<lambda>e s. E e s \<and> E' e s) s"
  by (auto simp: wp_def split: prod.splits sum.splits)

lemma wp_returned: "m s = (Inr x, s') \<Longrightarrow> wp m Q E s \<Longrightarrow> Q x s'"
  by (simp add: wp_def)

lemma wp_raised: "m s = (Inl e, s') \<Longrightarrow> wp m Q E s \<Longrightarrow> E e s'"
  by (simp add: wp_def)

text \<open>A property of the object alone, on every exit.\<close>

lemma wp_any_exit: "wp m (\<lambda>_. P) (\<lambda>_. P) s \<longleftrightarrow> P (snd (m s))"
  by (simp add: wp_def split: prod.split sum.split)

lemma wp_total: "wp m Q (\<lambda>_ _. False) s \<longleftrightarrow> (\<exists>x s'. m s = (Inr x, s') \<and> Q x s')"
  by (auto simp: wp_def split: prod.splits sum.splits)

section \<open>Framing\<close>

text \<open>\<open>leaves f m\<close>: on every exit, \<open>m\<close> leaves the part \<open>f\<close> of the object as it was.\<close>

definition leaves :: "('s \<Rightarrow> 'p) \<Rightarrow> ('s, 'a) comp \<Rightarrow> bool" where
  "leaves f m \<longleftrightarrow> (\<forall>s. f (snd (m s)) = f s)"

lemma leaves_bindE [intro]: "leaves f m \<Longrightarrow> (\<And>x. leaves f (g x)) \<Longrightarrow> leaves f (bindE m g)"
  unfolding leaves_def bindE_def by (auto split: prod.splits sum.splits) (metis snd_conv)+

lemma leaves_seqE [intro]: "leaves f m \<Longrightarrow> leaves f n \<Longrightarrow> leaves f (seqE m n)"
  unfolding seqE_def by (intro leaves_bindE)

lemma leaves_catchE [intro]: "leaves f m \<Longrightarrow> (\<And>e. leaves f (h e)) \<Longrightarrow> leaves f (catchE m h)"
  unfolding leaves_def catchE_def by (auto split: prod.splits sum.splits) (metis snd_conv)+

lemma leaves_basic [intro]: "leaves f (ret x)" "leaves f (raise e)" "leaves f (reads g)" "leaves f (lift r)"
  by (simp_all add: leaves_def comp_defs)

lemma leaves_modifies [intro]: "(\<And>s. f (g s) = f s) \<Longrightarrow> leaves f (modifies g)"
  by (simp add: leaves_def comp_defs)

lemma leaves_on_field [intro]: "(\<And>t s. f (put t s) = f s) \<Longrightarrow> leaves f (on_field get put m)"
  by (simp add: leaves_def comp_defs split: prod.split)

lemma leaves_if [intro]: "leaves f m \<Longrightarrow> leaves f n \<Longrightarrow> leaves f (if b then m else n)"
  by simp

lemma leaves_option [intro]:
  "leaves f m \<Longrightarrow> (\<And>x. leaves f (g x)) \<Longrightarrow> leaves f (case y of None \<Rightarrow> m | Some x \<Rightarrow> g x)"
  by (simp split: option.split)

lemma leaves_bool [intro]:
  "leaves f m \<Longrightarrow> leaves f n \<Longrightarrow> leaves f (case b of True \<Rightarrow> m | False \<Rightarrow> n)"
  by (simp split: bool.split)

lemma leaves_prod [intro]: "(\<And>x y. leaves f (g x y)) \<Longrightarrow> leaves f (case p of (x, y) \<Rightarrow> g x y)"
  by (simp split: prod.split)

lemma leaves_exit: "leaves f m \<Longrightarrow> f (snd (m s)) = f s"
  by (simp add: leaves_def)

lemma wp_leaves: "leaves f m \<Longrightarrow> wp m (\<lambda>_ t. f t = f s) (\<lambda>_ t. f t = f s) s"
  by (simp add: wp_any_exit [of m "\<lambda>t. f t = f s"] leaves_def)

section \<open>Counting dictionaries\<close>

text \<open>
  \<open>d.get(k, 0)\<close> on a dictionary of counters, the increment and the decrement that drops the key
  at zero. The capture gate keeps its operations in flight this way and the credit ledger its
  credits.
\<close>

type_synonym counts = "int \<rightharpoonup> int"

definition get0 :: "counts \<Rightarrow> int \<Rightarrow> int" where
  "get0 d k = (case d k of None \<Rightarrow> 0 | Some n \<Rightarrow> n)"

definition count_up :: "counts \<Rightarrow> int \<Rightarrow> counts" where
  "count_up d k = d(k \<mapsto> get0 d k + 1)"

definition count_down :: "counts \<Rightarrow> int \<Rightarrow> counts" where
  "count_down d k = (if get0 d k \<le> 1 then d(k := None) else d(k \<mapsto> get0 d k - 1))"

definition positive_counts :: "counts \<Rightarrow> bool" where
  "positive_counts d \<longleftrightarrow> (\<forall>k n. d k = Some n \<longrightarrow> 0 < n)"

lemma positive_counts_empty [simp]: "positive_counts (\<lambda>_. None)"
  by (simp add: positive_counts_def)

lemma get0_empty [simp]: "get0 (\<lambda>_. None) k = 0"
  by (simp add: get0_def)

lemma get0_nonneg: "positive_counts d \<Longrightarrow> 0 \<le> get0 d k"
  by (auto simp: positive_counts_def get0_def less_imp_le split: option.split)

lemma get0_count_up: "get0 (count_up d k) j = get0 d j + (if j = k then 1 else 0)"
  by (simp add: count_up_def get0_def)

lemma get0_count_down:
  "positive_counts d \<Longrightarrow>
    get0 (count_down d k) j = (if j = k then max 0 (get0 d k - 1) else get0 d j)"
  by (auto simp: count_down_def get0_def positive_counts_def split: option.splits)

lemma positive_counts_up: "positive_counts d \<Longrightarrow> positive_counts (count_up d k)"
  using get0_nonneg [of d k] by (auto simp: positive_counts_def count_up_def)

lemma positive_counts_down: "positive_counts d \<Longrightarrow> positive_counts (count_down d k)"
  by (auto simp: positive_counts_def count_down_def)

lemma dom_count_up [simp]: "dom (count_up d k) = insert k (dom d)"
  by (simp add: count_up_def)

lemma dom_count_down: "dom (count_down d k) \<subseteq> insert k (dom d)"
  by (auto simp: count_down_def split: if_splits)

lemmas count_rules = get0_count_up get0_count_down positive_counts_up positive_counts_down

section \<open>Selection by a key\<close>

text \<open>Python's \<open>min(xs, key=...)\<close> on a nonempty list: the first element with the least key.\<close>

fun min_by :: "('a \<Rightarrow> 'k::linorder) \<Rightarrow> 'a \<Rightarrow> 'a list \<Rightarrow> 'a" where
  "min_by key best [] = best"
| "min_by key best (x # xs) = min_by key (if key x < key best then x else best) xs"

lemma min_by_in: "min_by key best xs \<in> insert best (set xs)"
  by (induction key best xs rule: min_by.induct) (auto split: if_splits)

lemma min_by_least: "y \<in> insert best (set xs) \<Longrightarrow> key (min_by key best xs) \<le> key y"
proof (induction key best xs arbitrary: y rule: min_by.induct)
  case (2 key best x xs)
  then show ?case by (cases "key x < key best") (force intro: order_trans dest: less_imp_le simp: not_less)+
qed simp

lemma min_by_unique:
  assumes "inj_on key (insert best (set xs))" and "y \<in> insert best (set xs)"
    and "\<And>z. z \<in> insert best (set xs) \<Longrightarrow> key y \<le> key z"
  shows "min_by key best xs = y"
proof (rule inj_onD [OF assms(1) _ min_by_in assms(2)])
  show "key (min_by key best xs) = key y"
    using assms(3) [OF min_by_in [of key]] min_by_least [OF assms(2), of key] by (simp add: antisym)
qed

section \<open>Interfaces\<close>

subsection \<open>Invariants of a step relation\<close>

text \<open>
  A component whose operations are taken one at a time by several threads or callers is a step
  relation. Its provider promises that its invariant holds at the start and that no step breaks
  it; a client may then rely on it in every reachable state.
\<close>

inductive run :: "('s \<Rightarrow> 's \<Rightarrow> bool) \<Rightarrow> 's \<Rightarrow> 's \<Rightarrow> bool" for step where
  run_refl: "run step s s"
| run_step: "run step s t \<Longrightarrow> step t u \<Longrightarrow> run step s u"

lemma run_trans: "run step t u \<Longrightarrow> run step s t \<Longrightarrow> run step s u"
  by (induction rule: run.induct) (auto intro: run.intros)

lemma run_one: "step s t \<Longrightarrow> run step s t"
  by (blast intro: run.intros)

locale invariant_system =
  fixes step :: "'s \<Rightarrow> 's \<Rightarrow> bool"
    and start :: 's
    and inv :: "'s \<Rightarrow> bool"
  assumes inv_start: "inv start"
    and inv_step: "step s t \<Longrightarrow> inv s \<Longrightarrow> inv t"
begin

lemma inv_run: "run step s t \<Longrightarrow> inv s \<Longrightarrow> inv t"
  by (induction rule: run.induct) (auto intro: inv_step)

lemma inv_reachable: "run step start t \<Longrightarrow> inv t"
  by (rule inv_run [OF _ inv_start])

end

subsection \<open>Epochs\<close>

text \<open>
  The gate numbers its capture generations and the policy engine its revisions of the policy
  with a counter that only grows; authority granted under a number is looked up by equality. The
  contract: the counter never decreases, the number in force is never above it, and a step that
  puts a new number in force takes it from above the old counter. A number that has lost its
  authority can then never get it back.
\<close>

locale epoch_authority = invariant_system step start inv
  for step :: "'s \<Rightarrow> 's \<Rightarrow> bool" and start :: 's and inv :: "'s \<Rightarrow> bool" +
  fixes epoch :: "'s \<Rightarrow> int"
    and in_force :: "'s \<Rightarrow> int \<Rightarrow> bool"
  assumes epoch_mono: "step s t \<Longrightarrow> inv s \<Longrightarrow> epoch s \<le> epoch t"
    and force_bound: "inv s \<Longrightarrow> in_force s n \<Longrightarrow> n \<le> epoch s"
    and force_fresh: "step s t \<Longrightarrow> inv s \<Longrightarrow> in_force t n \<Longrightarrow> in_force s n \<or> epoch s < n"
begin

lemma epoch_run_mono: "run step s t \<Longrightarrow> inv s \<Longrightarrow> epoch s \<le> epoch t"
proof (induction rule: run.induct)
  case run_refl
  then show ?case by simp
next
  case (run_step s t u)
  then have "inv t" by (blast intro: inv_run)
  with run_step show ?case using epoch_mono [of t u] by force
qed

lemma revoked_forever:
  assumes "run step s t" and "inv s" and "n \<le> epoch s" and "\<not> in_force s n"
  shows "\<not> in_force t n"
  using assms
proof (induction rule: run.induct)
  case run_refl
  then show ?case by simp
next
  case (run_step s t u)
  have t: "inv t" "epoch s \<le> epoch t"
    using run_step.hyps(1) run_step.prems(1) by (auto intro: inv_run epoch_run_mono)
  have "\<not> in_force t n" using run_step by blast
  moreover have "n \<le> epoch t" using t(2) run_step.prems(2) by simp
  ultimately show ?case using force_fresh [OF run_step.hyps(2) t(1)] by force
qed

end

end
