(* ===== verification/Lifecycle_Domain.thy ===== *)
theory Lifecycle_Domain
  imports Recall_Prelude
begin

text \<open>
  The lifecycle values of \<^verbatim>\<open>src/local_recall/domain/lifecycle.py\<close>: capture states and the
  transitions allowed between them, transition reasons, capture generations, and the validating
  constructors of transitions and snapshots. The random \<^verbatim>\<open>event_id\<close> of a transition, which no code
  reads, is left out.
\<close>

section \<open>States, reasons, generations\<close>

datatype capture_state = OFF | STARTING | RECORDING | PAUSED | PRIVACY | STOPPING | FAULTED

fun capture_state_value :: "capture_state \<Rightarrow> string" where
  "capture_state_value OFF = ''off''"
| "capture_state_value STARTING = ''starting''"
| "capture_state_value RECORDING = ''recording''"
| "capture_state_value PAUSED = ''paused''"
| "capture_state_value PRIVACY = ''privacy''"
| "capture_state_value STOPPING = ''stopping''"
| "capture_state_value FAULTED = ''faulted''"

datatype transition_reason =
    USER_START | STARTUP_OPT_IN | USER_STOP | USER_PAUSE | USER_RESUME
  | PRIVACY_ENABLED | PRIVACY_DISABLED | SESSION_LOCKED | SESSION_UNLOCKED
  | IDLE | ACTIVE | CRITICAL_FAULT | STARTUP_SAFE_DEFAULT | SHUTDOWN

datatype capture_generation = CaptureGeneration (gen_value: int)

definition mk_CaptureGeneration :: "int \<Rightarrow> ('s, capture_generation) comp" where
  "mk_CaptureGeneration v =
    seqE (require (0 < v) (ValueError ''capture generation must be positive''))
      (ret (CaptureGeneration v))"

section \<open>Allowed transitions\<close>

fun ALLOWED_TRANSITIONS :: "capture_state \<Rightarrow> capture_state list" where
  "ALLOWED_TRANSITIONS OFF = [STARTING, FAULTED]"
| "ALLOWED_TRANSITIONS STARTING = [RECORDING, PAUSED, STOPPING, OFF, FAULTED]"
| "ALLOWED_TRANSITIONS RECORDING = [PAUSED, PRIVACY, STOPPING, FAULTED]"
| "ALLOWED_TRANSITIONS PAUSED = [RECORDING, PAUSED, PRIVACY, STOPPING, FAULTED]"
| "ALLOWED_TRANSITIONS PRIVACY = [RECORDING, PAUSED, STOPPING, FAULTED]"
| "ALLOWED_TRANSITIONS STOPPING = [OFF, FAULTED]"
| "ALLOWED_TRANSITIONS FAULTED = [OFF]"

definition allowed :: "capture_state \<Rightarrow> capture_state \<Rightarrow> bool" where
  "allowed previous current \<longleftrightarrow> current \<in> set (ALLOWED_TRANSITIONS previous)"

record capture_state_transition =
  tr_previous :: capture_state
  tr_current :: capture_state
  tr_generation :: capture_generation
  tr_reason :: transition_reason
  tr_occurred_at :: datetime

definition mk_CaptureStateTransition ::
    "capture_state \<Rightarrow> capture_state \<Rightarrow> capture_generation \<Rightarrow> transition_reason \<Rightarrow> datetime \<Rightarrow>
     ('s, capture_state_transition) comp" where
  "mk_CaptureStateTransition previous current generation reason occurred_at =
    seqE (require (is_aware occurred_at) (ValueError ''occurred_at must be timezone-aware''))
    (seqE (require (allowed previous current)
        (ValueError (''invalid capture transition: '' @ capture_state_value previous @ '' -> '' @
           capture_state_value current)))
      (ret \<lparr>tr_previous = previous, tr_current = current, tr_generation = generation,
            tr_reason = reason, tr_occurred_at = occurred_at\<rparr>))"

record capture_state_snapshot =
  sn_state :: capture_state
  sn_generation :: "capture_generation option"
  sn_observed_at :: datetime
  sn_privacy_mode :: bool
  sn_critical_dependencies_healthy :: bool

abbreviation active_states :: "capture_state set" where
  "active_states \<equiv> {STARTING, RECORDING, PAUSED}"

definition mk_CaptureStateSnapshot ::
    "capture_state \<Rightarrow> capture_generation option \<Rightarrow> datetime \<Rightarrow> bool \<Rightarrow> bool \<Rightarrow>
     ('s, capture_state_snapshot) comp" where
  "mk_CaptureStateSnapshot state generation observed_at privacy_mode healthy =
    seqE (require (is_aware observed_at) (ValueError ''observed_at must be timezone-aware''))
    (seqE (require (\<not> (state \<in> active_states \<and> generation = None))
        (ValueError ''active capture states require a generation''))
      (ret \<lparr>sn_state = state, sn_generation = generation, sn_observed_at = observed_at,
            sn_privacy_mode = privacy_mode, sn_critical_dependencies_healthy = healthy\<rparr>))"

section \<open>Facts about the domain values\<close>

lemma gen_value_eq [simp]: "gen_value a = gen_value b \<longleftrightarrow> a = b"
  by (cases a; cases b) simp

lemma wp_mk_CaptureGeneration [wp_rules]:
  "wp (mk_CaptureGeneration v) Q E s =
    (if 0 < v then Q (CaptureGeneration v) s
     else E (ValueError ''capture generation must be positive'') s)"
  by (simp add: mk_CaptureGeneration_def wp_rules)

lemma wp_mk_CaptureStateTransition [wp_rules]:
  "wp (mk_CaptureStateTransition p c g r t) Q E s =
    (if \<not> is_aware t then E (ValueError ''occurred_at must be timezone-aware'') s
     else if \<not> allowed p c
       then E (ValueError (''invalid capture transition: '' @ capture_state_value p @ '' -> '' @
              capture_state_value c)) s
     else Q \<lparr>tr_previous = p, tr_current = c, tr_generation = g, tr_reason = r,
             tr_occurred_at = t\<rparr> s)"
  by (simp add: mk_CaptureStateTransition_def wp_rules)

lemma wp_mk_CaptureStateSnapshot [wp_rules]:
  "wp (mk_CaptureStateSnapshot st g t pm h) Q E s =
    (if \<not> is_aware t then E (ValueError ''observed_at must be timezone-aware'') s
     else if st \<in> active_states \<and> g = None
       then E (ValueError ''active capture states require a generation'') s
     else Q \<lparr>sn_state = st, sn_generation = g, sn_observed_at = t, sn_privacy_mode = pm,
             sn_critical_dependencies_healthy = h\<rparr> s)"
  by (simp add: mk_CaptureStateSnapshot_def wp_rules)

text \<open>
  Two structural facts the gate relies on: recording is never entered from a terminal state, and
  the only way out of \<^const>\<open>FAULTED\<close> is \<^const>\<open>OFF\<close>.
\<close>

lemma allowed_to_recording: "allowed s RECORDING \<longleftrightarrow> s \<in> {STARTING, PAUSED, PRIVACY}"
  by (cases s) (simp_all add: allowed_def)

lemma allowed_from_faulted: "allowed FAULTED s \<longleftrightarrow> s = OFF"
  by (simp add: allowed_def)

lemma allowed_to_faulted: "allowed s FAULTED \<longleftrightarrow> s \<noteq> FAULTED"
  by (cases s) (simp_all add: allowed_def)

lemma allowed_to_stopping: "allowed s STOPPING \<longleftrightarrow> s \<in> {STARTING, RECORDING, PAUSED, PRIVACY}"
  by (cases s) (simp_all add: allowed_def)

lemma allowed_to_off: "allowed s OFF \<longleftrightarrow> s \<in> {STARTING, STOPPING, FAULTED}"
  by (cases s) (simp_all add: allowed_def)

lemma allowed_to_paused: "allowed s PAUSED \<longleftrightarrow> s \<in> {STARTING, RECORDING, PAUSED, PRIVACY}"
  by (cases s) (simp_all add: allowed_def)

lemma allowed_to_starting: "allowed s STARTING \<longleftrightarrow> s = OFF"
  by (cases s) (simp_all add: allowed_def)

lemmas allowed_simps = allowed_to_recording allowed_from_faulted allowed_to_faulted
  allowed_to_stopping allowed_to_off allowed_to_paused allowed_to_starting

end
