(* ===== verification/Capture_Gate.thy ===== *)
theory Capture_Gate
  imports Lifecycle_Domain
begin

text \<open>
  The capture gate of \<^verbatim>\<open>src/local_recall/lifecycle/gate.py\<close>: the object that workers ask for
  permits and that only its owner thread may change. Every method is one computation over the
  gate, run under its lock; the \<^verbatim>\<open>threading.Event\<close> objects that permits share with the gate live in
  an explicit heap, so that cancelling an event is seen through every permit that holds it. The
  second half interleaves the owner with the workers: a step relation over the gate, the permits
  in use and the commit lock.
\<close>

section \<open>State\<close>

record gate =
  owner_thread_id :: "int option"
  state :: capture_state
  active_generation :: "capture_generation option"
  draining_generation :: "capture_generation option"
  generation_epoch :: int
  configuration_revision :: "string option"
  critical_dependencies_healthy :: bool
  cancel_events :: "int \<rightharpoonup> nat"
  in_flight :: counts
  event_heap :: "bool list"

definition new_gate :: gate where
  "new_gate = \<lparr>owner_thread_id = None, state = OFF, active_generation = None,
     draining_generation = None, generation_epoch = 0, configuration_revision = None,
     critical_dependencies_healthy = True, cancel_events = (\<lambda>_. None), in_flight = (\<lambda>_. None),
     event_heap = []\<rparr>"

record capture_work_permit =
  permit_generation :: capture_generation
  permit_configuration_revision :: string
  permit_cancel_event :: nat

text \<open>\<open>threading.Event()\<close>, \<open>is_set\<close> and \<open>set\<close>.\<close>

definition new_event :: "(gate, nat) comp" where
  "new_event = bindE (reads (\<lambda>g. length (event_heap g))) (\<lambda>e.
     seqE (modifies (\<lambda>g. g\<lparr>event_heap := event_heap g @ [False]\<rparr>)) (ret e))"

definition event_is_set :: "nat \<Rightarrow> gate \<Rightarrow> bool" where
  "event_is_set e g = (e < length (event_heap g) \<and> event_heap g ! e)"

definition event_set :: "nat \<Rightarrow> (gate, unit) comp" where
  "event_set e = modifies (\<lambda>g. g\<lparr>event_heap := (event_heap g)[e := True]\<rparr>)"

definition permit_cancelled :: "capture_work_permit \<Rightarrow> gate \<Rightarrow> bool" where
  "permit_cancelled p g = event_is_set (permit_cancel_event p) g"

section \<open>Operations\<close>

subsection \<open>Internal helpers\<close>

definition assert_owner :: "int \<Rightarrow> (gate, unit) comp" where
  "assert_owner tid = bindE (reads owner_thread_id) (\<lambda>own.
     require (own = Some tid)
       (CaptureGateOwnershipError ''capture lifecycle transitions are owned by LifecycleActor''))"

definition require_active_locked :: "capture_generation \<Rightarrow> capture_state \<Rightarrow> (gate, unit) comp" where
  "require_active_locked generation st = bindE (reads id) (\<lambda>g.
     require (state g = st \<and> active_generation g = Some generation)
       (StaleCaptureGeneration ''capture generation or state is stale''))"

definition require_generation_locked :: "capture_state \<Rightarrow> (gate, capture_generation) comp" where
  "require_generation_locked st = bindE (reads id) (\<lambda>g.
     if state g \<noteq> st then raise (ValueError (''capture state must be '' @ capture_state_value st))
     else (case active_generation g of
       None \<Rightarrow> raise (ValueError (''capture state must be '' @ capture_state_value st))
     | Some generation \<Rightarrow> ret generation))"

definition next_generation_locked :: "(gate, capture_generation) comp" where
  "next_generation_locked =
     seqE (modifies (\<lambda>g. g\<lparr>generation_epoch := generation_epoch g + 1\<rparr>))
       (bindE (reads generation_epoch) mk_CaptureGeneration)"

definition current_epoch_generation_locked :: "(gate, capture_generation) comp" where
  "current_epoch_generation_locked = bindE (reads generation_epoch) (\<lambda>n.
     if n = 0 then next_generation_locked else mk_CaptureGeneration n)"

definition cancel_active_locked :: "(gate, unit) comp" where
  "cancel_active_locked = bindE (reads id) (\<lambda>g.
     case active_generation g of
       None \<Rightarrow> ret ()
     | Some generation \<Rightarrow>
         (case cancel_events g (gen_value generation) of
            None \<Rightarrow> ret ()
          | Some e \<Rightarrow> event_set e))"

definition transition_locked ::
    "datetime \<Rightarrow> capture_state \<Rightarrow> capture_generation \<Rightarrow> transition_reason \<Rightarrow>
     (gate, capture_state_transition) comp" where
  "transition_locked now current generation reason =
     bindE (reads state) (\<lambda>previous.
     bindE (mk_CaptureStateTransition previous current generation reason now) (\<lambda>transition.
     seqE (modifies (\<lambda>g. g\<lparr>state := current\<rparr>)) (ret transition)))"

subsection \<open>Reading the gate\<close>

definition snapshot :: "datetime \<Rightarrow> (gate, capture_state_snapshot) comp" where
  "snapshot now = bindE (reads id) (\<lambda>g.
     mk_CaptureStateSnapshot (state g) (active_generation g) now (state g = PRIVACY)
       (critical_dependencies_healthy g))"

definition require_current_generation :: "capture_generation \<Rightarrow> (gate, unit) comp" where
  "require_current_generation generation = bindE (reads id) (\<lambda>g.
     seqE (require (active_generation g = Some generation)
        (StaleCaptureGeneration ''capture generation is stale''))
      (require (state g \<in> {RECORDING, PAUSED})
        (CaptureGateClosed (''capture gate is '' @ capture_state_value (state g)))))"

subsection \<open>Permits\<close>

definition register_operation_locked :: "capture_generation \<Rightarrow> (gate, capture_work_permit) comp" where
  "register_operation_locked generation = bindE (reads id) (\<lambda>g.
     case cancel_events g (gen_value generation) of
       None \<Rightarrow> raise (StaleCaptureGeneration ''capture generation is stale'')
     | Some e \<Rightarrow>
         if event_is_set e g then raise (StaleCaptureGeneration ''capture generation is stale'')
         else (case configuration_revision g of
           None \<Rightarrow> raise (RuntimeError ''active capture has no configuration revision'')
         | Some revision \<Rightarrow>
             seqE (modifies (\<lambda>g. g\<lparr>in_flight := count_up (in_flight g) (gen_value generation)\<rparr>))
               (ret \<lparr>permit_generation = generation, permit_configuration_revision = revision,
                     permit_cancel_event = e\<rparr>)))"

definition acquire_preflight_operation ::
    "capture_generation \<Rightarrow> (gate, capture_work_permit) comp" where
  "acquire_preflight_operation generation =
     seqE (require_active_locked generation STARTING) (register_operation_locked generation)"

definition acquire_capture_operation :: "(gate, capture_work_permit) comp" where
  "acquire_capture_operation = bindE (reads state) (\<lambda>st.
     if st \<noteq> RECORDING
     then raise (CaptureGateClosed (''capture gate is '' @ capture_state_value st))
     else bindE (require_generation_locked RECORDING) register_operation_locked)"

definition acquire_persistence_operation ::
    "capture_generation \<Rightarrow> (gate, capture_work_permit) comp" where
  "acquire_persistence_operation generation = bindE (reads id) (\<lambda>g.
     if state g \<notin> {RECORDING, PAUSED}
     then raise (CaptureGateClosed (''persistence gate is '' @ capture_state_value (state g)))
     else if active_generation g \<noteq> Some generation
     then raise (StaleCaptureGeneration ''persistence generation is stale'')
     else register_operation_locked generation)"

definition release_operation :: "capture_generation \<Rightarrow> (gate, unit) comp" where
  "release_operation generation = bindE (reads id) (\<lambda>g.
     let v = gen_value generation; current = get0 (in_flight g) v in
     if current \<le> 1 then
       seqE (modifies (\<lambda>g. g\<lparr>in_flight := (in_flight g)(v := None)\<rparr>))
         (if active_generation g \<noteq> Some generation
          then modifies (\<lambda>g. g\<lparr>cancel_events := (cancel_events g)(v := None)\<rparr>)
          else ret ())
     else modifies (\<lambda>g. g\<lparr>in_flight := (in_flight g)(v \<mapsto> current - 1)\<rparr>))"

text \<open>
  The three guarded runs. The operation is any computation on the gate: whatever other threads do
  to the gate while the operation runs is part of it.
\<close>

definition run_preflight ::
    "capture_generation \<Rightarrow> (capture_work_permit \<Rightarrow> (gate, 'a) comp) \<Rightarrow> (gate, 'a) comp" where
  "run_preflight generation operation =
     bindE (acquire_preflight_operation generation) (\<lambda>permit.
       finallyE (operation permit) (release_operation (permit_generation permit)))"

definition run_capture :: "(capture_work_permit \<Rightarrow> (gate, 'a) comp) \<Rightarrow> (gate, 'a) comp" where
  "run_capture operation =
     bindE acquire_capture_operation (\<lambda>permit.
       finallyE (operation permit) (release_operation (permit_generation permit)))"

definition run_persistence ::
    "capture_generation \<Rightarrow> (capture_work_permit \<Rightarrow> (gate, 'a) comp) \<Rightarrow> (gate, 'a) comp" where
  "run_persistence generation operation =
     bindE (acquire_persistence_operation generation) (\<lambda>permit.
       finallyE (operation permit) (release_operation (permit_generation permit)))"

text \<open>
  \<open>wait_for_operations\<close> sleeps on the condition variable. Its schedule lists the wake-ups: the time
  left when the deadline is read, and the operations other threads release before the next check;
  at the end of the schedule the deadline has passed.
\<close>

fun wait_for_operations_loop ::
    "capture_generation \<Rightarrow> (int \<times> capture_generation list) list \<Rightarrow> (gate, bool) comp" where
  "wait_for_operations_loop generation [] =
     bindE (reads in_flight) (\<lambda>d. ret (\<not> 0 < get0 d (gen_value generation)))"
| "wait_for_operations_loop generation ((remaining, released) # wakeups) =
     bindE (reads in_flight) (\<lambda>d.
       if \<not> 0 < get0 d (gen_value generation) then ret True
       else if remaining \<le> 0 then ret False
       else seqE (foldr (\<lambda>r m. seqE (release_operation r) m) released (ret ()))
              (wait_for_operations_loop generation wakeups))"

definition wait_for_operations ::
    "capture_generation \<Rightarrow> int \<Rightarrow> (int \<times> capture_generation list) list \<Rightarrow> (gate, bool) comp" where
  "wait_for_operations generation timeout wakeups =
     seqE (require (0 < timeout) (ValueError ''timeout_seconds must be positive''))
       (wait_for_operations_loop generation wakeups)"

subsection \<open>Ownership\<close>

definition bind_owner :: "int \<Rightarrow> (gate, unit) comp" where
  "bind_owner tid = bindE (reads owner_thread_id) (\<lambda>own.
     case own of
       None \<Rightarrow> modifies (\<lambda>g. g\<lparr>owner_thread_id := Some tid\<rparr>)
     | Some t \<Rightarrow> require (t = tid)
         (CaptureGateOwnershipError ''capture gate already has a different owner''))"

definition release_owner :: "int \<Rightarrow> (gate, unit) comp" where
  "release_owner tid = seqE (assert_owner tid) (modifies (\<lambda>g. g\<lparr>owner_thread_id := None\<rparr>))"

subsection \<open>Transitions\<close>

definition begin_start ::
    "int \<Rightarrow> datetime \<Rightarrow> transition_reason \<Rightarrow> string \<Rightarrow>
     (gate, capture_generation \<times> capture_state_transition) comp" where
  "begin_start tid now reason revision =
     seqE (assert_owner tid)
     (bindE (reads state) (\<lambda>st.
     seqE (require (st = OFF) (ValueError ''capture can start only from off''))
     (bindE next_generation_locked (\<lambda>generation.
     seqE (modifies (\<lambda>g. g\<lparr>active_generation := Some generation, draining_generation := None,
         configuration_revision := Some revision, critical_dependencies_healthy := True\<rparr>))
     (bindE new_event (\<lambda>e.
     seqE (modifies (\<lambda>g. g\<lparr>cancel_events := (cancel_events g)(gen_value generation \<mapsto> e)\<rparr>))
     (bindE (transition_locked now STARTING generation reason) (\<lambda>transition.
     ret (generation, transition)))))))))"

definition mark_recording ::
    "int \<Rightarrow> datetime \<Rightarrow> capture_generation \<Rightarrow> transition_reason \<Rightarrow>
     (gate, capture_state_transition) comp" where
  "mark_recording tid now generation reason =
     seqE (assert_owner tid)
     (seqE (require_active_locked generation STARTING)
       (transition_locked now RECORDING generation reason))"

definition pause ::
    "int \<Rightarrow> datetime \<Rightarrow> transition_reason \<Rightarrow> (gate, capture_state_transition) comp" where
  "pause tid now reason =
     seqE (assert_owner tid)
     (bindE (require_generation_locked RECORDING) (\<lambda>generation.
       transition_locked now PAUSED generation reason))"

definition resume ::
    "int \<Rightarrow> datetime \<Rightarrow> transition_reason \<Rightarrow> (gate, capture_state_transition) comp" where
  "resume tid now reason =
     seqE (assert_owner tid)
     (bindE (require_generation_locked PAUSED) (\<lambda>generation.
       transition_locked now RECORDING generation reason))"

definition invalidate_and_pause ::
    "int \<Rightarrow> datetime \<Rightarrow> transition_reason \<Rightarrow>
     (gate, capture_generation option \<times> capture_state_transition) comp" where
  "invalidate_and_pause tid now reason =
     seqE (assert_owner tid)
     (bindE (reads state) (\<lambda>st.
     seqE (require (st \<in> active_states)
        (ValueError ''automatic pause requires an active capture state''))
     (bindE (reads active_generation) (\<lambda>previous_generation.
     seqE cancel_active_locked
     (bindE next_generation_locked (\<lambda>invalidation_generation.
     seqE (modifies (\<lambda>g. g\<lparr>active_generation := Some invalidation_generation,
         draining_generation := previous_generation\<rparr>))
     (bindE new_event (\<lambda>e.
     seqE (modifies (\<lambda>g. g\<lparr>cancel_events :=
         (cancel_events g)(gen_value invalidation_generation \<mapsto> e)\<rparr>))
     (bindE (transition_locked now PAUSED invalidation_generation reason) (\<lambda>transition.
     ret (previous_generation, transition)))))))))))"

definition begin_stopping ::
    "int \<Rightarrow> datetime \<Rightarrow> transition_reason \<Rightarrow>
     (gate, capture_generation option \<times> capture_state_transition) comp" where
  "begin_stopping tid now reason =
     seqE (assert_owner tid)
     (bindE (reads active_generation) (\<lambda>previous_generation.
     seqE cancel_active_locked
     (seqE (if previous_generation \<noteq> None
            then modifies (\<lambda>g. g\<lparr>draining_generation := previous_generation\<rparr>) else ret ())
     (bindE next_generation_locked (\<lambda>invalidation_generation.
     seqE (modifies (\<lambda>g. g\<lparr>active_generation := None\<rparr>))
     (bindE (transition_locked now STOPPING invalidation_generation reason) (\<lambda>transition.
     ret (previous_generation, transition))))))))"

definition drop_stale_events :: "gate \<Rightarrow> gate" where
  "drop_stale_events g = g\<lparr>cancel_events := (\<lambda>v. case cancel_events g v of
       None \<Rightarrow> None
     | Some e \<Rightarrow> if event_is_set e g \<and> get0 (in_flight g) v = 0 then None else Some e)\<rparr>"

definition finish_off ::
    "int \<Rightarrow> datetime \<Rightarrow> transition_reason \<Rightarrow> (gate, capture_state_transition) comp" where
  "finish_off tid now reason =
     seqE (assert_owner tid)
     (bindE current_epoch_generation_locked (\<lambda>generation.
     bindE (transition_locked now OFF generation reason) (\<lambda>transition.
     seqE (modifies (\<lambda>g. g\<lparr>active_generation := None, draining_generation := None,
         configuration_revision := None, critical_dependencies_healthy := True\<rparr>))
     (seqE (modifies drop_stale_events)
     (ret transition)))))"

definition fault ::
    "int \<Rightarrow> datetime \<Rightarrow> transition_reason \<Rightarrow>
     (gate, capture_generation option \<times> capture_state_transition) comp" where
  "fault tid now reason =
     seqE (assert_owner tid)
     (bindE (reads (\<lambda>g. if active_generation g \<noteq> None then active_generation g
                        else draining_generation g)) (\<lambda>previous_generation.
     seqE cancel_active_locked
     (bindE (reads active_generation) (\<lambda>active.
     seqE (if active \<noteq> None then modifies (\<lambda>g. g\<lparr>draining_generation := active\<rparr>) else ret ())
     (bindE next_generation_locked (\<lambda>invalidation_generation.
     seqE (modifies (\<lambda>g. g\<lparr>active_generation := None, critical_dependencies_healthy := False\<rparr>))
     (bindE (transition_locked now FAULTED invalidation_generation reason) (\<lambda>transition.
     ret (previous_generation, transition)))))))))"

section \<open>Rules for the helpers\<close>

lemma wp_new_event [wp_rules]:
  "wp new_event Q E g = Q (length (event_heap g)) (g\<lparr>event_heap := event_heap g @ [False]\<rparr>)"
  by (simp add: new_event_def wp_rules)

lemma wp_event_set [wp_rules]:
  "wp (event_set e) Q E g = Q () (g\<lparr>event_heap := (event_heap g)[e := True]\<rparr>)"
  by (simp add: event_set_def wp_rules)

lemma wp_assert_owner [wp_rules]:
  "wp (assert_owner tid) Q E g =
    (if owner_thread_id g = Some tid then Q () g
     else E (CaptureGateOwnershipError ''capture lifecycle transitions are owned by LifecycleActor'') g)"
  by (simp add: assert_owner_def wp_rules)

lemma wp_require_active [wp_rules]:
  "wp (require_active_locked gen st) Q E g =
    (if state g = st \<and> active_generation g = Some gen then Q () g
     else E (StaleCaptureGeneration ''capture generation or state is stale'') g)"
  by (simp add: require_active_locked_def wp_rules)

lemma wp_require_generation [wp_rules]:
  "wp (require_generation_locked st) Q E g =
    (case active_generation g of
       Some gen \<Rightarrow> if state g = st then Q gen g
                  else E (ValueError (''capture state must be '' @ capture_state_value st)) g
     | None \<Rightarrow> E (ValueError (''capture state must be '' @ capture_state_value st)) g)"
  by (simp add: require_generation_locked_def wp_rules split: option.split)

lemma wp_next_generation [wp_rules]:
  "wp next_generation_locked Q E g =
    (if 0 \<le> generation_epoch g
     then Q (CaptureGeneration (generation_epoch g + 1))
            (g\<lparr>generation_epoch := generation_epoch g + 1\<rparr>)
     else E (ValueError ''capture generation must be positive'')
            (g\<lparr>generation_epoch := generation_epoch g + 1\<rparr>))"
  by (simp add: next_generation_locked_def wp_rules)

lemma wp_current_epoch [wp_rules]:
  "wp current_epoch_generation_locked Q E g =
    (if generation_epoch g = 0
     then Q (CaptureGeneration 1) (g\<lparr>generation_epoch := 1\<rparr>)
     else if 0 < generation_epoch g then Q (CaptureGeneration (generation_epoch g)) g
     else E (ValueError ''capture generation must be positive'') g)"
  by (simp add: current_epoch_generation_locked_def wp_rules)

lemma wp_transition [wp_rules]:
  "wp (transition_locked now st gen r) Q E g =
    (if \<not> is_aware now then E (ValueError ''occurred_at must be timezone-aware'') g
     else if \<not> allowed (state g) st
       then E (ValueError (''invalid capture transition: '' @ capture_state_value (state g) @
              '' -> '' @ capture_state_value st)) g
     else Q \<lparr>tr_previous = state g, tr_current = st, tr_generation = gen, tr_reason = r,
             tr_occurred_at = now\<rparr> (g\<lparr>state := st\<rparr>))"
  by (simp add: transition_locked_def wp_rules)

text \<open>Cancelling the active generation sets its event in the heap and touches nothing else.\<close>

definition cancelled_active :: "gate \<Rightarrow> gate" where
  "cancelled_active g =
    (case active_generation g of
       None \<Rightarrow> g
     | Some gen \<Rightarrow> (case cancel_events g (gen_value gen) of
         None \<Rightarrow> g | Some e \<Rightarrow> g\<lparr>event_heap := (event_heap g)[e := True]\<rparr>))"

lemma wp_cancel_active [wp_rules]: "wp cancel_active_locked Q E g = Q () (cancelled_active g)"
  by (simp add: cancel_active_locked_def cancelled_active_def wp_rules split: option.split)

lemma cancelled_active_frame [simp]:
  "owner_thread_id (cancelled_active g) = owner_thread_id g"
  "state (cancelled_active g) = state g"
  "active_generation (cancelled_active g) = active_generation g"
  "draining_generation (cancelled_active g) = draining_generation g"
  "generation_epoch (cancelled_active g) = generation_epoch g"
  "configuration_revision (cancelled_active g) = configuration_revision g"
  "critical_dependencies_healthy (cancelled_active g) = critical_dependencies_healthy g"
  "cancel_events (cancelled_active g) = cancel_events g"
  "in_flight (cancelled_active g) = in_flight g"
  "length (event_heap (cancelled_active g)) = length (event_heap g)"
  by (simp_all add: cancelled_active_def split: option.split)

lemma cancelled_active_heap:
  "active_generation g = Some gen \<Longrightarrow> cancel_events g (gen_value gen) = Some e \<Longrightarrow>
    event_heap (cancelled_active g) = (event_heap g)[e := True]"
  by (simp add: cancelled_active_def)

section \<open>The gate invariant\<close>

text \<open>
  The active generation exists exactly in the active states, is one the epoch has issued, has a
  configuration revision and an event of its own that is not set; privacy is never entered by the
  gate's own methods.
\<close>

definition events_ok :: "gate \<Rightarrow> bool" where
  "events_ok g \<longleftrightarrow>
    (\<forall>v e. cancel_events g v = Some e \<longrightarrow> e < length (event_heap g) \<and> v \<le> generation_epoch g) \<and>
    (\<forall>v w e. cancel_events g v = Some e \<longrightarrow> cancel_events g w = Some e \<longrightarrow> v = w)"

definition active_ok :: "gate \<Rightarrow> bool" where
  "active_ok g \<longleftrightarrow>
    (\<forall>gen. active_generation g = Some gen \<longrightarrow>
      0 < gen_value gen \<and> gen_value gen \<le> generation_epoch g \<and>
      configuration_revision g \<noteq> None \<and>
      (\<exists>e. cancel_events g (gen_value gen) = Some e \<and> \<not> event_heap g ! e))"

definition gate_inv :: "gate \<Rightarrow> bool" where
  "gate_inv g \<longleftrightarrow> 0 \<le> generation_epoch g \<and>
    (state g \<noteq> OFF \<longrightarrow> 0 < generation_epoch g) \<and> state g \<noteq> PRIVACY \<and>
    (active_generation g \<noteq> None \<longleftrightarrow> state g \<in> active_states) \<and>
    events_ok g \<and> active_ok g"

lemmas gate_inv_defs = gate_inv_def events_ok_def active_ok_def

lemma gate_inv_new: "gate_inv new_gate"
  by (simp add: gate_inv_defs new_gate_def)

lemma gate_inv_epoch: "gate_inv g \<Longrightarrow> 0 \<le> generation_epoch g"
  by (simp add: gate_inv_def)

lemma gate_inv_inactive:
  "gate_inv g \<Longrightarrow> state g \<in> {OFF, STOPPING, FAULTED} \<Longrightarrow> active_generation g = None"
  by (auto simp: gate_inv_def)

lemma gate_inv_active:
  "gate_inv g \<Longrightarrow> state g \<in> active_states \<Longrightarrow> \<exists>gen. active_generation g = Some gen"
  by (auto simp: gate_inv_def)

lemma events_ok_bound: "events_ok g \<Longrightarrow> cancel_events g v = Some e \<Longrightarrow> e < length (event_heap g)"
  by (simp add: events_ok_def)

lemma events_ok_fresh: "events_ok g \<Longrightarrow> generation_epoch g < v \<Longrightarrow> cancel_events g v = None"
  by (cases "cancel_events g v") (force simp: events_ok_def)+

text \<open>Issuing a generation with a fresh event, whatever else the step changes.\<close>

lemma fresh_generation_ok:
  assumes "events_ok g" and "0 \<le> generation_epoch g"
    and "generation_epoch h = generation_epoch g + 1"
    and "cancel_events h = (cancel_events g)(generation_epoch g + 1 \<mapsto> length (event_heap k))"
    and "event_heap h = event_heap k @ [False]"
    and "length (event_heap k) = length (event_heap g)"
    and "active_generation h = Some (CaptureGeneration (generation_epoch g + 1))"
    and "configuration_revision h \<noteq> None"
  shows "events_ok h \<and> active_ok h"
proof -
  have "v \<le> generation_epoch g" "e < length (event_heap g)"
    if "cancel_events g v = Some e" for v e
    using assms(1) that by (auto simp: events_ok_def)
  note bounds = this
  have "events_ok h"
    unfolding events_ok_def
  proof (intro conjI allI impI)
    fix v e
    assume "cancel_events h v = Some e"
    then show "e < length (event_heap h)" "v \<le> generation_epoch h"
      using assms bounds [of v e] by (auto split: if_splits)
  next
    fix v w e
    assume "cancel_events h v = Some e" "cancel_events h w = Some e"
    then show "v = w"
      using assms bounds [of v e] bounds [of w e] by (auto simp: events_ok_def split: if_splits)
  qed
  moreover have "active_ok h"
    using assms by (auto simp: active_ok_def nth_append)
  ultimately show ?thesis by simp
qed

lemma events_ok_cancelled: "events_ok g \<Longrightarrow> events_ok (cancelled_active g)"
  by (simp add: events_ok_def)

lemma events_ok_cong:
  "events_ok g \<Longrightarrow> cancel_events h = cancel_events g \<Longrightarrow>
    length (event_heap h) = length (event_heap g) \<Longrightarrow>
    generation_epoch g \<le> generation_epoch h \<Longrightarrow> events_ok h"
  by (fastforce simp: events_ok_def)

lemma active_ok_none: "active_generation g = None \<Longrightarrow> active_ok g"
  by (simp add: active_ok_def)

lemmas fresh_events_ok = fresh_generation_ok [THEN conjunct1]
  and fresh_active_ok = fresh_generation_ok [THEN conjunct2]

section \<open>What each transition does\<close>

text \<open>
  The common part of every successful transition: the invariant, the owner, the state entered,
  the transition record returned, and how far the epoch moved.
\<close>

definition moved ::
    "gate \<Rightarrow> capture_state \<Rightarrow> transition_reason \<Rightarrow> datetime \<Rightarrow> int \<Rightarrow> capture_state_transition \<Rightarrow>
     gate \<Rightarrow> bool" where
  "moved g st r now d tr h \<longleftrightarrow> gate_inv h \<and> owner_thread_id h = owner_thread_id g \<and> state h = st \<and>
    in_flight h = in_flight g \<and> generation_epoch h = generation_epoch g + d \<and>
    tr = \<lparr>tr_previous = state g, tr_current = st,
      tr_generation = (case active_generation h of Some gen \<Rightarrow> gen
         | None \<Rightarrow> CaptureGeneration (generation_epoch h)),
      tr_reason = r, tr_occurred_at = now\<rparr>"

text \<open>What the owner may assume before a call: the invariant, its own ownership, a working clock.\<close>

definition owner_ready :: "int \<Rightarrow> datetime \<Rightarrow> gate \<Rightarrow> bool" where
  "owner_ready tid now g \<longleftrightarrow> gate_inv g \<and> owner_thread_id g = Some tid \<and> is_aware now"

lemmas gate_spec_simps = wp_rules moved_def owner_ready_def gate_inv_def allowed_simps

lemma begin_start_spec:
  assumes "owner_ready tid now g" and "state g = OFF"
  shows "wp (begin_start tid now r revsn)
    (\<lambda>(gen, tr) h. moved g STARTING r now 1 tr h \<and> active_generation h = Some gen \<and>
       gen = CaptureGeneration (generation_epoch g + 1) \<and> configuration_revision h = Some revsn)
    (\<lambda>_ _. False) g"
  using assms
  by (auto simp: begin_start_def gate_spec_simps
      intro: fresh_events_ok [of g _ g] fresh_active_ok [of g _ g])

lemma invalidate_and_pause_spec:
  assumes "owner_ready tid now g" and "state g \<in> active_states"
  shows "wp (invalidate_and_pause tid now r)
    (\<lambda>(old, tr) h. moved g PAUSED r now 1 tr h \<and> old = active_generation g \<and>
       active_generation h = Some (CaptureGeneration (generation_epoch g + 1)) \<and>
       draining_generation h = active_generation g)
    (\<lambda>_ _. False) g"
  using assms
  by (auto simp: invalidate_and_pause_def gate_spec_simps active_ok_def nth_append
      intro!: fresh_events_ok [of g _ "cancelled_active g"])

lemma mark_recording_spec:
  assumes "owner_ready tid now g" and "state g = STARTING" and "active_generation g = Some gen"
  shows "wp (mark_recording tid now gen r)
    (\<lambda>tr h. moved g RECORDING r now 0 tr h \<and> h = g\<lparr>state := RECORDING\<rparr>) (\<lambda>_ _. False) g"
  using assms by (auto simp: mark_recording_def gate_spec_simps events_ok_def active_ok_def)

lemma pause_spec:
  assumes "owner_ready tid now g" and "state g = RECORDING"
  shows "wp (pause tid now r)
    (\<lambda>tr h. moved g PAUSED r now 0 tr h \<and> h = g\<lparr>state := PAUSED\<rparr>) (\<lambda>_ _. False) g"
  using assms by (auto simp: pause_def gate_spec_simps events_ok_def active_ok_def)

lemma resume_spec:
  assumes "owner_ready tid now g" and "state g = PAUSED"
  shows "wp (resume tid now r)
    (\<lambda>tr h. moved g RECORDING r now 0 tr h \<and> h = g\<lparr>state := RECORDING\<rparr>) (\<lambda>_ _. False) g"
  using assms by (auto simp: resume_def gate_spec_simps events_ok_def active_ok_def)

lemma begin_stopping_spec:
  assumes "owner_ready tid now g" and "state g \<in> active_states"
  shows "wp (begin_stopping tid now r)
    (\<lambda>(old, tr) h. moved g STOPPING r now 1 tr h \<and> old = active_generation g \<and>
       active_generation h = None \<and> draining_generation h = active_generation g)
    (\<lambda>_ _. False) g"
  using assms
  by (auto simp: begin_stopping_def gate_spec_simps
      intro!: active_ok_none events_ok_cong [of g])

lemma fault_spec:
  assumes "owner_ready tid now g" and "state g \<noteq> FAULTED"
  shows "wp (fault tid now r)
    (\<lambda>(old, tr) h. moved g FAULTED r now 1 tr h \<and> active_generation h = None \<and>
       old = (if active_generation g \<noteq> None then active_generation g else draining_generation g) \<and>
       \<not> critical_dependencies_healthy h)
    (\<lambda>_ _. False) g"
  using assms
  by (auto simp: fault_def gate_spec_simps intro!: active_ok_none events_ok_cong [of g])

lemma events_ok_dropped:
  "events_ok g \<Longrightarrow> generation_epoch g \<le> generation_epoch h \<Longrightarrow> event_heap h = event_heap g \<Longrightarrow>
    (\<And>v e. cancel_events h v = Some e \<Longrightarrow> cancel_events g v = Some e) \<Longrightarrow> events_ok h"
  unfolding events_ok_def by (metis order_trans)

lemma finish_off_spec:
  assumes "owner_ready tid now g" and "state g \<in> {STOPPING, FAULTED}"
  shows "wp (finish_off tid now r)
    (\<lambda>tr h. moved g OFF r now 0 tr h \<and> active_generation h = None \<and>
       draining_generation h = None \<and> configuration_revision h = None)
    (\<lambda>_ _. False) g"
  using assms
  by (auto simp: finish_off_def gate_spec_simps drop_stale_events_def
      intro!: active_ok_none events_ok_dropped [of g] split: option.splits if_splits)

section \<open>The owner and the workers, interleaved\<close>

text \<open>
  A lifecycle call made by some thread, and the gate it leaves behind, whether it returns or
  raises. The three invalidating calls hold the commit lock.
\<close>

datatype gate_call =
    BindOwner | ReleaseOwner
  | BeginStart transition_reason string
  | MarkRecording capture_generation transition_reason
  | Pause transition_reason
  | Resume transition_reason
  | InvalidateAndPause transition_reason
  | BeginStopping transition_reason
  | FinishOff transition_reason
  | Fault transition_reason

fun exec_call :: "int \<Rightarrow> datetime \<Rightarrow> gate_call \<Rightarrow> gate \<Rightarrow> gate" where
  "exec_call tid now BindOwner g = snd (bind_owner tid g)"
| "exec_call tid now ReleaseOwner g = snd (release_owner tid g)"
| "exec_call tid now (BeginStart r revision) g = snd (begin_start tid now r revision g)"
| "exec_call tid now (MarkRecording gen r) g = snd (mark_recording tid now gen r g)"
| "exec_call tid now (Pause r) g = snd (pause tid now r g)"
| "exec_call tid now (Resume r) g = snd (resume tid now r g)"
| "exec_call tid now (InvalidateAndPause r) g = snd (invalidate_and_pause tid now r g)"
| "exec_call tid now (BeginStopping r) g = snd (begin_stopping tid now r g)"
| "exec_call tid now (FinishOff r) g = snd (finish_off tid now r g)"
| "exec_call tid now (Fault r) g = snd (fault tid now r g)"

fun takes_commit_lock :: "gate_call \<Rightarrow> bool" where
  "takes_commit_lock (InvalidateAndPause _) = True"
| "takes_commit_lock (BeginStopping _) = True"
| "takes_commit_lock (Fault _) = True"
| "takes_commit_lock _ = False"

lemma cancelled_inactive: "active_generation g = None \<Longrightarrow> cancelled_active g = g"
  by (simp add: cancelled_active_def)

text \<open>A call on which the specification above does not apply raises and keeps the invariant.\<close>

lemma gate_inv_refused:
  assumes "gate_inv g" and "is_aware now"
  shows "\<not> (owner_ready tid now g \<and> state g = OFF) \<Longrightarrow> gate_inv (snd (begin_start tid now r revision g))"
    and "\<not> (owner_ready tid now g \<and> state g = STARTING \<and> active_generation g = Some gen) \<Longrightarrow>
      gate_inv (snd (mark_recording tid now gen r g))"
    and "\<not> (owner_ready tid now g \<and> state g = RECORDING) \<Longrightarrow> gate_inv (snd (pause tid now r g))"
    and "\<not> (owner_ready tid now g \<and> state g = PAUSED) \<Longrightarrow> gate_inv (snd (resume tid now r g))"
    and "\<not> (owner_ready tid now g \<and> state g \<in> active_states) \<Longrightarrow>
      gate_inv (snd (invalidate_and_pause tid now r g))"
    and "\<not> (owner_ready tid now g \<and> state g \<in> active_states) \<Longrightarrow>
      gate_inv (snd (begin_stopping tid now r g))"
    and "\<not> (owner_ready tid now g \<and> state g \<noteq> FAULTED) \<Longrightarrow> gate_inv (snd (fault tid now r g))"
  using assms
  by (auto simp flip: wp_any_exit
      simp: begin_start_def mark_recording_def pause_def resume_def invalidate_and_pause_def
        begin_stopping_def fault_def wp_rules owner_ready_def allowed_simps cancelled_inactive
        gate_inv_def intro!: active_ok_none events_ok_cong [of g] split: option.splits)

lemma finish_off_inv:
  "gate_inv g \<Longrightarrow> is_aware now \<Longrightarrow> gate_inv (snd (finish_off tid now r g))"
  by (auto simp flip: wp_any_exit
      simp: finish_off_def gate_spec_simps drop_stale_events_def
      intro!: active_ok_none events_ok_dropped [of g] split: option.splits if_splits)

lemma ownership_inv:
  "gate_inv g \<Longrightarrow> gate_inv (snd (bind_owner tid g))"
  "gate_inv g \<Longrightarrow> gate_inv (snd (release_owner tid g))"
  by (auto simp flip: wp_any_exit simp: bind_owner_def release_owner_def wp_rules gate_inv_defs
      split: option.splits)

lemma spec_inv:
  assumes "wp m (\<lambda>x h. gate_inv h \<and> R x h) (\<lambda>_ _. False) g"
  shows "gate_inv (snd (m g))"
proof -
  from assms have "wp m (\<lambda>_. gate_inv) (\<lambda>_. gate_inv) g"
    by (rule wp_mono) auto
  then show ?thesis by (simp add: wp_any_exit)
qed

lemma moved_inv:
  assumes "wp m (\<lambda>x h. \<exists>tr. moved g st r now d tr h) (\<lambda>_ _. False) g"
  shows "gate_inv (snd (m g))"
  by (rule spec_inv [where R = "\<lambda>_ _. True"], rule wp_mono [OF assms]) (auto simp: moved_def)

theorem exec_call_inv:
  assumes "gate_inv g" and "is_aware now"
  shows "gate_inv (exec_call tid now c g)"
proof -
  have ready: "owner_ready tid now g" if "owner_thread_id g = Some tid"
    using that assms by (simp add: owner_ready_def)
  note refused = gate_inv_refused [OF assms]
  show ?thesis
  proof (cases c)
    case (BeginStart r revision)
    then show ?thesis
      using refused(1) by (cases "owner_ready tid now g \<and> state g = OFF")
        (auto intro!: moved_inv intro: wp_mono [OF begin_start_spec])
  next
    case (MarkRecording gen r)
    then show ?thesis
      using refused(2) [of tid gen] by (cases "owner_ready tid now g \<and> state g = STARTING \<and>
          active_generation g = Some gen")
        (auto intro!: moved_inv intro: wp_mono [OF mark_recording_spec])
  next
    case (Pause r)
    then show ?thesis
      using refused(3) by (cases "owner_ready tid now g \<and> state g = RECORDING")
        (auto intro!: moved_inv intro: wp_mono [OF pause_spec])
  next
    case (Resume r)
    then show ?thesis
      using refused(4) by (cases "owner_ready tid now g \<and> state g = PAUSED")
        (auto intro!: moved_inv intro: wp_mono [OF resume_spec])
  next
    case (InvalidateAndPause r)
    then show ?thesis
      using refused(5) by (cases "owner_ready tid now g \<and> state g \<in> active_states")
        (auto simp del: insert_iff intro!: moved_inv intro: wp_mono [OF invalidate_and_pause_spec])
  next
    case (BeginStopping r)
    then show ?thesis
      using refused(6) by (cases "owner_ready tid now g \<and> state g \<in> active_states")
        (auto simp del: insert_iff intro!: moved_inv intro: wp_mono [OF begin_stopping_spec])
  next
    case (Fault r)
    then show ?thesis
      using refused(7) by (cases "owner_ready tid now g \<and> state g \<noteq> FAULTED")
        (auto intro!: moved_inv intro: wp_mono [OF fault_spec])
  qed (use assms finish_off_inv ownership_inv in auto)
qed

lemmas gate_call_defs = bind_owner_def release_owner_def begin_start_def mark_recording_def
  pause_def resume_def invalidate_and_pause_def begin_stopping_def finish_off_def fault_def

text \<open>A property of the gate after a call, as a weakest precondition of the method called.\<close>

lemma exec_call_wp:
  "P (exec_call tid now c g) \<longleftrightarrow>
    (case c of
       BindOwner \<Rightarrow> wp (bind_owner tid) (\<lambda>_. P) (\<lambda>_. P) g
     | ReleaseOwner \<Rightarrow> wp (release_owner tid) (\<lambda>_. P) (\<lambda>_. P) g
     | BeginStart r revision \<Rightarrow> wp (begin_start tid now r revision) (\<lambda>_. P) (\<lambda>_. P) g
     | MarkRecording gen r \<Rightarrow> wp (mark_recording tid now gen r) (\<lambda>_. P) (\<lambda>_. P) g
     | Pause r \<Rightarrow> wp (pause tid now r) (\<lambda>_. P) (\<lambda>_. P) g
     | Resume r \<Rightarrow> wp (resume tid now r) (\<lambda>_. P) (\<lambda>_. P) g
     | InvalidateAndPause r \<Rightarrow> wp (invalidate_and_pause tid now r) (\<lambda>_. P) (\<lambda>_. P) g
     | BeginStopping r \<Rightarrow> wp (begin_stopping tid now r) (\<lambda>_. P) (\<lambda>_. P) g
     | FinishOff r \<Rightarrow> wp (finish_off tid now r) (\<lambda>_. P) (\<lambda>_. P) g
     | Fault r \<Rightarrow> wp (fault tid now r) (\<lambda>_. P) (\<lambda>_. P) g)"
  by (cases c) (simp_all add: wp_any_exit)

lemmas exec_call_simps = gate_call_defs wp_rules drop_stale_events_def allowed_simps

text \<open>No lifecycle call touches the operations in flight.\<close>

lemma exec_call_in_flight: "in_flight (exec_call tid now c g) = in_flight g"
  by (subst exec_call_wp [where P = "\<lambda>h. in_flight h = in_flight g"])
    (auto simp: exec_call_simps split: gate_call.split option.splits)

text \<open>The event of a generation with operations in flight is kept.\<close>

lemma exec_call_keeps_event:
  assumes "events_ok g" and "cancel_events g v = Some e" and "get0 (in_flight g) v \<noteq> 0"
  shows "cancel_events (exec_call tid now c g) v = Some e"
proof -
  have "v \<noteq> generation_epoch g + 1"
    using events_ok_fresh [OF assms(1), of v] assms(2) by auto
  then show ?thesis
    using assms
    by (subst exec_call_wp [where P = "\<lambda>h. cancel_events h v = Some e"])
      (auto simp: exec_call_simps split: gate_call.split option.splits)
qed

text \<open>
  A call that does not hold the commit lock cannot take the authority to persist away from a
  generation that has it.
\<close>

definition may_persist :: "gate \<Rightarrow> capture_generation \<Rightarrow> bool" where
  "may_persist g gen \<longleftrightarrow> active_generation g = Some gen \<and> state g \<in> {RECORDING, PAUSED}"

lemma may_persist_in_flight [simp]: "may_persist (g\<lparr>in_flight := d\<rparr>) gen = may_persist g gen"
  by (simp add: may_persist_def)

lemma exec_call_keeps_authority:
  assumes "may_persist g gen" and "\<not> takes_commit_lock c"
  shows "may_persist (exec_call tid now c g) gen"
  using assms
  by (subst exec_call_wp [where P = "\<lambda>h. may_persist h gen"])
    (auto simp: exec_call_simps may_persist_def split: gate_call.split option.splits)

lemma exec_call_epoch_mono: "generation_epoch g \<le> generation_epoch (exec_call tid now c g)"
  by (subst exec_call_wp [where P = "\<lambda>h. generation_epoch g \<le> generation_epoch h"])
    (auto simp: exec_call_simps split: gate_call.split option.splits)

lemma exec_call_active_fresh:
  assumes "active_generation (exec_call tid now c g) = Some gen"
  shows "active_generation g = Some gen \<or> generation_epoch g < gen_value gen"
proof -
  let ?P = "\<lambda>h. active_generation h = Some gen \<longrightarrow>
     active_generation g = Some gen \<or> generation_epoch g < gen_value gen"
  have "?P (exec_call tid now c g)"
    by (subst exec_call_wp [where P = ?P])
      (auto simp: exec_call_simps split: gate_call.split option.splits)
  with assms show ?thesis by simp
qed

section \<open>Permits\<close>

lemma register_spec:
  "wp (register_operation_locked gen)
    (\<lambda>p h. h = g\<lparr>in_flight := count_up (in_flight g) (gen_value gen)\<rparr> \<and> permit_generation p = gen \<and>
       cancel_events g (gen_value gen) = Some (permit_cancel_event p) \<and>
       configuration_revision g = Some (permit_configuration_revision p) \<and>
       \<not> event_is_set (permit_cancel_event p) g)
    (\<lambda>_ h. h = g) g"
  by (auto simp: register_operation_locked_def wp_rules split: option.split)

lemma acquire_preflight_spec:
  "wp (acquire_preflight_operation gen)
    (\<lambda>p h. h = g\<lparr>in_flight := count_up (in_flight g) (gen_value (permit_generation p))\<rparr> \<and>
       permit_generation p = gen \<and> state g = STARTING \<and>
       active_generation g = Some (permit_generation p) \<and>
       cancel_events g (gen_value (permit_generation p)) = Some (permit_cancel_event p))
    (\<lambda>_ h. h = g) g"
  by (auto simp: acquire_preflight_operation_def wp_rules intro: wp_mono [OF register_spec])

lemma acquire_capture_spec:
  "wp acquire_capture_operation
    (\<lambda>p h. h = g\<lparr>in_flight := count_up (in_flight g) (gen_value (permit_generation p))\<rparr> \<and>
       state g = RECORDING \<and> active_generation g = Some (permit_generation p) \<and>
       cancel_events g (gen_value (permit_generation p)) = Some (permit_cancel_event p))
    (\<lambda>_ h. h = g) g"
  by (auto simp: acquire_capture_operation_def wp_rules intro: wp_mono [OF register_spec]
      split: option.split)

lemma acquire_persistence_spec:
  "wp (acquire_persistence_operation gen)
    (\<lambda>p h. h = g\<lparr>in_flight := count_up (in_flight g) (gen_value (permit_generation p))\<rparr> \<and>
       permit_generation p = gen \<and> may_persist g gen \<and>
       cancel_events g (gen_value (permit_generation p)) = Some (permit_cancel_event p))
    (\<lambda>_ h. h = g) g"
  by (auto simp: acquire_persistence_operation_def wp_rules may_persist_def
      intro: wp_mono [OF register_spec])

text \<open>Releasing counts the operation down and forgets the event of a finished stale generation.\<close>

definition released :: "capture_generation \<Rightarrow> gate \<Rightarrow> gate" where
  "released gen g = g\<lparr>in_flight := count_down (in_flight g) (gen_value gen),
     cancel_events := (if get0 (in_flight g) (gen_value gen) \<le> 1 \<and> active_generation g \<noteq> Some gen
       then (cancel_events g)(gen_value gen := None) else cancel_events g)\<rparr>"

lemma release_operation_eq: "release_operation gen g = (Inr (), released gen g)"
  by (simp add: release_operation_def released_def comp_defs count_down_def Let_def)

lemma wp_release_operation [wp_rules]: "wp (release_operation gen) Q E g = Q () (released gen g)"
  by (simp add: wp_def release_operation_eq)

lemma released_frame [simp]:
  "owner_thread_id (released gen g) = owner_thread_id g"
  "state (released gen g) = state g"
  "active_generation (released gen g) = active_generation g"
  "draining_generation (released gen g) = draining_generation g"
  "generation_epoch (released gen g) = generation_epoch g"
  "configuration_revision (released gen g) = configuration_revision g"
  "event_heap (released gen g) = event_heap g"
  "in_flight (released gen g) = count_down (in_flight g) (gen_value gen)"
  by (simp_all add: released_def)

lemma released_cancel_events:
  "cancel_events (released gen g) v =
    (if v = gen_value gen \<and> get0 (in_flight g) v \<le> 1 \<and> active_generation g \<noteq> Some gen then None
     else cancel_events g v)"
  by (auto simp: released_def)

lemma gate_inv_released: "gate_inv g \<Longrightarrow> gate_inv (released gen g)"
  by (auto simp: gate_inv_defs released_cancel_events)

lemma gate_inv_in_flight [simp]: "gate_inv (g\<lparr>in_flight := d\<rparr>) = gate_inv g"
  by (simp add: gate_inv_defs)

end
