(* ===== verification/Gate_Concurrency.thy ===== *)
theory Gate_Concurrency
  imports Capture_Gate "HOL-Library.Multiset"
begin

text \<open>
  The capture gate under concurrency. A system state is the gate, the permits held by preflight
  and capture workers, the worker inside \<^verbatim>\<open>run_persistence\<close> (it holds the commit lock) and a log of
  the commits made. Every gate method is one atomic step, as its lock makes it; the methods that
  invalidate a generation wait for the commit lock. The invariant ties the counters of operations
  in flight to the permits really held, and gives the two guarantees the storage side needs: a
  commit only ever happens under the generation that is active at that moment, and a generation
  that was invalidated never becomes active again.
\<close>

section \<open>System states and steps\<close>

record gate_sys =
  sys_gate :: gate
  sys_permits :: "capture_work_permit list"
  sys_committing :: "capture_work_permit option"
  sys_commits :: "(capture_generation \<times> gate) list"

definition new_gate_sys :: gate_sys where
  "new_gate_sys = \<lparr>sys_gate = new_gate, sys_permits = [], sys_committing = None, sys_commits = []\<rparr>"

inductive gate_step :: "gate_sys \<Rightarrow> gate_sys \<Rightarrow> bool" where
  lifecycle: "is_aware now \<Longrightarrow> (takes_commit_lock c \<Longrightarrow> sys_committing s = None) \<Longrightarrow>
    gate_step s (s\<lparr>sys_gate := exec_call tid now c (sys_gate s)\<rparr>)"
| preflight_begin: "acquire_preflight_operation gen (sys_gate s) = (Inr p, g) \<Longrightarrow>
    gate_step s (s\<lparr>sys_gate := g, sys_permits := p # sys_permits s\<rparr>)"
| capture_begin: "acquire_capture_operation (sys_gate s) = (Inr p, g) \<Longrightarrow>
    gate_step s (s\<lparr>sys_gate := g, sys_permits := p # sys_permits s\<rparr>)"
| operation_end: "p \<in> set (sys_permits s) \<Longrightarrow>
    release_operation (permit_generation p) (sys_gate s) = (Inr (), g) \<Longrightarrow>
    gate_step s (s\<lparr>sys_gate := g, sys_permits := remove1 p (sys_permits s)\<rparr>)"
| persistence_begin: "sys_committing s = None \<Longrightarrow>
    acquire_persistence_operation gen (sys_gate s) = (Inr p, g) \<Longrightarrow>
    gate_step s (s\<lparr>sys_gate := g, sys_committing := Some p\<rparr>)"
| persistence_commit: "sys_committing s = Some p \<Longrightarrow>
    gate_step s (s\<lparr>sys_commits := (permit_generation p, sys_gate s) # sys_commits s\<rparr>)"
| persistence_end: "sys_committing s = Some p \<Longrightarrow>
    release_operation (permit_generation p) (sys_gate s) = (Inr (), g) \<Longrightarrow>
    gate_step s (s\<lparr>sys_gate := g, sys_committing := None\<rparr>)"

section \<open>The invariant\<close>

definition held :: "gate_sys \<Rightarrow> capture_work_permit list" where
  "held s = (case sys_committing s of None \<Rightarrow> [] | Some p \<Rightarrow> [p]) @ sys_permits s"

abbreviation permit_value :: "capture_work_permit \<Rightarrow> int" where
  "permit_value p \<equiv> gen_value (permit_generation p)"

text \<open>The counter of each generation is the number of permits held for it.\<close>

definition counters_ok :: "gate \<Rightarrow> capture_work_permit list \<Rightarrow> bool" where
  "counters_ok g ps \<longleftrightarrow> positive_counts (in_flight g) \<and>
    (\<forall>v. get0 (in_flight g) v = int (count (image_mset permit_value (mset ps)) v))"

text \<open>Every permit held still shares its generation's event with the gate.\<close>

definition permits_ok :: "gate \<Rightarrow> capture_work_permit list \<Rightarrow> bool" where
  "permits_ok g ps \<longleftrightarrow>
    (\<forall>p \<in> set ps. cancel_events g (permit_value p) = Some (permit_cancel_event p))"

definition accounts_ok :: "gate \<Rightarrow> capture_work_permit list \<Rightarrow> bool" where
  "accounts_ok g ps \<longleftrightarrow> gate_inv g \<and> counters_ok g ps \<and> permits_ok g ps"

definition gate_sys_inv :: "gate_sys \<Rightarrow> bool" where
  "gate_sys_inv s \<longleftrightarrow> accounts_ok (sys_gate s) (held s) \<and>
    (\<forall>p. sys_committing s = Some p \<longrightarrow> may_persist (sys_gate s) (permit_generation p)) \<and>
    (\<forall>(gen, g) \<in> set (sys_commits s). may_persist g gen)"

lemma gate_sys_inv_new: "gate_sys_inv new_gate_sys"
  using gate_inv_new
  by (auto simp: gate_sys_inv_def accounts_ok_def new_gate_sys_def held_def counters_ok_def permits_ok_def
      new_gate_def)

lemma counters_ok_acquire:
  "counters_ok g ps \<Longrightarrow>
    counters_ok (g\<lparr>in_flight := count_up (in_flight g) (permit_value p)\<rparr>) (p # ps)"
  by (auto simp: counters_ok_def count_rules)

lemma count_permits_pos: "p \<in> set ps \<Longrightarrow> 0 < count (image_mset permit_value (mset ps)) (permit_value p)"
  by (induction ps) auto

lemma count_remove1:
  "p \<in> set ps \<Longrightarrow>
    count (image_mset f (mset ps)) v =
      (if v = f p then 1 else 0) + count (image_mset f (mset (remove1 p ps))) v"
  by (induction ps) (auto simp del: mset_remove1)

lemma counters_ok_release:
  assumes "counters_ok g ps" and "p \<in> set ps"
  shows "counters_ok (released (permit_generation p) g) (remove1 p ps)"
  using assms(1) count_remove1 [OF assms(2), of permit_value]
  by (auto simp: counters_ok_def count_rules simp del: mset_remove1)

text \<open>
  A permit that stays held keeps its event: the release that forgets the event of a generation is
  the last one.
\<close>

lemma permits_ok_release:
  assumes "counters_ok g ps" and "permits_ok g ps" and "p \<in> set ps"
  shows "permits_ok (released (permit_generation p) g) (remove1 p ps)"
proof -
  have "cancel_events (released (permit_generation p) g) (permit_value q) =
      Some (permit_cancel_event q)" if q: "q \<in> set (remove1 p ps)" for q
  proof -
    have "counters_ok (released (permit_generation p) g) (remove1 p ps)"
      using assms(1,3) by (rule counters_ok_release)
    then have "0 < get0 (count_down (in_flight g) (permit_value p)) (permit_value q)"
      using count_permits_pos [OF q] by (simp add: counters_ok_def)
    then have "permit_value q = permit_value p \<Longrightarrow> 1 < get0 (in_flight g) (permit_value p)"
      using assms(1) by (auto simp: counters_ok_def get0_count_down)
    moreover have "cancel_events g (permit_value q) = Some (permit_cancel_event q)"
      using assms(2) q set_remove1_subset [of p ps] by (auto simp: permits_ok_def)
    ultimately show ?thesis by (auto simp: released_cancel_events)
  qed
  then show ?thesis by (simp add: permits_ok_def)
qed

lemma held_counted:
  "counters_ok g ps \<Longrightarrow> p \<in> set ps \<Longrightarrow> get0 (in_flight g) (permit_value p) \<noteq> 0"
  using count_permits_pos [of p ps] by (auto simp: counters_ok_def)

lemma permits_ok_call:
  assumes "gate_inv g" and "counters_ok g ps" and "permits_ok g ps"
  shows "permits_ok (exec_call tid now c g) ps"
  using assms held_counted [OF assms(2)]
  by (auto simp: permits_ok_def gate_inv_def intro!: exec_call_keeps_event)

lemma may_persist_released [simp]: "may_persist (released q g) gen = may_persist g gen"
  by (simp add: may_persist_def)

lemma permits_ok_in_flight [simp]: "permits_ok (g\<lparr>in_flight := d\<rparr>) ps = permits_ok g ps"
  by (simp add: permits_ok_def)

lemma permits_ok_Cons [simp]:
  "permits_ok g (p # ps) \<longleftrightarrow>
    cancel_events g (permit_value p) = Some (permit_cancel_event p) \<and> permits_ok g ps"
  by (simp add: permits_ok_def)

lemma accounts_ok_mset: "accounts_ok g ps \<Longrightarrow> mset ps = mset qs \<Longrightarrow> accounts_ok g qs"
  using mset_eq_setD [of ps qs] by (simp add: accounts_ok_def counters_ok_def permits_ok_def)

lemma accounts_ok_acquire:
  assumes "accounts_ok g ps"
    and "h = g\<lparr>in_flight := count_up (in_flight g) (permit_value p)\<rparr>"
    and "cancel_events g (permit_value p) = Some (permit_cancel_event p)"
  shows "accounts_ok h (p # ps)"
  using assms counters_ok_acquire [of g ps p] by (simp add: accounts_ok_def)

lemma accounts_ok_release:
  "accounts_ok g ps \<Longrightarrow> p \<in> set ps \<Longrightarrow>
    accounts_ok (released (permit_generation p) g) (remove1 p ps)"
  by (simp add: accounts_ok_def gate_inv_released counters_ok_release permits_ok_release)

lemma accounts_ok_call:
  "accounts_ok g ps \<Longrightarrow> is_aware now \<Longrightarrow> accounts_ok (exec_call tid now c g) ps"
  using exec_call_inv [of g now tid c] permits_ok_call [of g ps tid now c]
  by (simp add: accounts_ok_def counters_ok_def exec_call_in_flight)

section \<open>Every step keeps the invariant\<close>

text \<open>Two lemmas for the two kinds of worker step, on the permits outside the commit lock.\<close>

lemma gate_sys_inv_begin:
  assumes "gate_sys_inv s"
    and "g = sys_gate s\<lparr>in_flight := count_up (in_flight (sys_gate s)) (permit_value p)\<rparr>"
    and "cancel_events (sys_gate s) (permit_value p) = Some (permit_cancel_event p)"
  shows "gate_sys_inv (s\<lparr>sys_gate := g, sys_permits := p # sys_permits s\<rparr>)"
proof -
  have "accounts_ok g (p # held s)"
    using assms by (intro accounts_ok_acquire [of "sys_gate s"]) (simp_all add: gate_sys_inv_def)
  then have "accounts_ok g (held (s\<lparr>sys_gate := g, sys_permits := p # sys_permits s\<rparr>))"
    by (rule accounts_ok_mset) (simp add: held_def)
  with assms show ?thesis by (simp add: gate_sys_inv_def)
qed

lemma gate_sys_inv_end:
  assumes "gate_sys_inv s" and "p \<in> set (sys_permits s)"
    and "g = released (permit_generation p) (sys_gate s)"
  shows "gate_sys_inv (s\<lparr>sys_gate := g, sys_permits := remove1 p (sys_permits s)\<rparr>)"
proof -
  have "accounts_ok g (remove1 p (held s))"
    using assms by (simp add: gate_sys_inv_def accounts_ok_release held_def)
  then have "accounts_ok g (held (s\<lparr>sys_gate := g, sys_permits := remove1 p (sys_permits s)\<rparr>))"
    by (rule accounts_ok_mset) (use assms(2) in \<open>auto simp: held_def split: option.split\<close>)
  with assms show ?thesis by (simp add: gate_sys_inv_def)
qed

lemma gate_step_inv: "gate_step s t \<Longrightarrow> gate_sys_inv s \<Longrightarrow> gate_sys_inv t"
proof (induction rule: gate_step.induct)
  case (lifecycle now c s tid)
  have "held (s\<lparr>sys_gate := exec_call tid now c (sys_gate s)\<rparr>) = held s"
    by (simp add: held_def)
  with lifecycle show ?case
    by (auto simp: gate_sys_inv_def intro: accounts_ok_call exec_call_keeps_authority)
next
  case (preflight_begin gen s p g)
  then show ?case
    using wp_returned [OF preflight_begin.hyps acquire_preflight_spec]
    by (intro gate_sys_inv_begin) auto
next
  case (capture_begin s p g)
  then show ?case
    using wp_returned [OF capture_begin.hyps acquire_capture_spec]
    by (intro gate_sys_inv_begin) simp_all
next
  case (operation_end p s g)
  then show ?case by (intro gate_sys_inv_end) (simp_all add: release_operation_eq)
next
  case (persistence_begin s gen p g)
  note acq = wp_returned [OF persistence_begin.hyps(2) acquire_persistence_spec]
  have "accounts_ok g (p # held s)"
    using acq persistence_begin.prems
    by (intro accounts_ok_acquire [of "sys_gate s"]) (auto simp: gate_sys_inv_def)
  with acq persistence_begin show ?case by (simp add: gate_sys_inv_def held_def)
next
  case (persistence_commit s p)
  then show ?case by (auto simp: gate_sys_inv_def held_def)
next
  case (persistence_end s p g)
  have "p \<in> set (held s)" and "remove1 p (held s) = sys_permits s"
    using persistence_end.hyps(1) by (simp_all add: held_def)
  then have "accounts_ok (released (permit_generation p) (sys_gate s)) (sys_permits s)"
    using accounts_ok_release persistence_end.prems unfolding gate_sys_inv_def by metis
  with persistence_end show ?case
    by (simp add: gate_sys_inv_def release_operation_eq held_def)
qed

text \<open>The gate as a provider of the two interfaces: an invariant, and epochs that never go back.\<close>

definition generation_in_force :: "gate_sys \<Rightarrow> int \<Rightarrow> bool" where
  "generation_in_force s v \<longleftrightarrow> active_generation (sys_gate s) = Some (CaptureGeneration v)"

interpretation gate_sys: invariant_system gate_step new_gate_sys gate_sys_inv
  by unfold_locales (rule gate_sys_inv_new, rule gate_step_inv)

lemma gate_step_epoch:
  assumes "gate_step s t"
  shows "generation_epoch (sys_gate s) \<le> generation_epoch (sys_gate t)"
    and "active_generation (sys_gate t) = Some gen \<Longrightarrow>
      active_generation (sys_gate s) = Some gen \<or> generation_epoch (sys_gate s) < gen_value gen"
  using assms
  by (auto elim!: gate_step.cases simp: exec_call_epoch_mono release_operation_eq
      dest: exec_call_active_fresh wp_returned [OF _ acquire_preflight_spec]
        wp_returned [OF _ acquire_capture_spec] wp_returned [OF _ acquire_persistence_spec])

interpretation gate_epochs: epoch_authority gate_step new_gate_sys gate_sys_inv
  "\<lambda>s. generation_epoch (sys_gate s)" generation_in_force
proof unfold_locales
  fix s t n
  assume "gate_step s t"
  then show "generation_epoch (sys_gate s) \<le> generation_epoch (sys_gate t)"
    by (rule gate_step_epoch(1))
  assume "generation_in_force t n"
  with \<open>gate_step s t\<close> show "generation_in_force s n \<or> generation_epoch (sys_gate s) < n"
    by (auto simp: generation_in_force_def dest: gate_step_epoch(2))
next
  fix s n
  assume "gate_sys_inv s" "generation_in_force s n"
  then show "n \<le> generation_epoch (sys_gate s)"
    by (auto simp: gate_sys_inv_def accounts_ok_def gate_inv_defs generation_in_force_def)
qed

section \<open>What the invariant gives\<close>

lemma held_permit_shares_event:
  "gate_sys_inv s \<Longrightarrow> p \<in> set (held s) \<Longrightarrow>
    cancel_events (sys_gate s) (permit_value p) = Some (permit_cancel_event p)"
  by (simp add: gate_sys_inv_def accounts_ok_def permits_ok_def)

lemma event_is_set_cancelled:
  "active_generation g = Some gen \<Longrightarrow> cancel_events g (gen_value gen) = Some e \<Longrightarrow>
    e < length (event_heap g) \<Longrightarrow> event_heap (cancelled_active g) ! e"
  by (simp add: cancelled_active_heap)

lemma exec_call_cancels:
  assumes "gate_inv g" and "owner_thread_id g = Some tid" and "is_aware now"
    and "takes_commit_lock c" and "active_generation g = Some gen"
    and "cancel_events g (gen_value gen) = Some e"
  shows "event_is_set e (exec_call tid now c g)"
proof -
  have "e < length (event_heap g)" and "state g \<in> active_states" and "0 \<le> generation_epoch g"
    using assms by (auto simp: gate_inv_defs)
  then show ?thesis
    using assms event_is_set_cancelled [of g gen e]
    by (subst exec_call_wp [where P = "event_is_set e"])
      (auto simp: exec_call_simps event_is_set_def nth_append split: gate_call.split)
qed

lemma quiescent_count:
  "gate_sys_inv s \<Longrightarrow>
    (\<not> 0 < get0 (in_flight (sys_gate s)) v) \<longleftrightarrow> (\<forall>p \<in> set (held s). permit_value p \<noteq> v)"
  by (auto simp: gate_sys_inv_def accounts_ok_def counters_ok_def)

text \<open>
  The waiting loop: its answer is the check it made last, and once the operations of the
  generation have been released while time was left it does answer \<open>True\<close>.
\<close>

definition release_all :: "capture_generation list \<Rightarrow> gate \<Rightarrow> gate" where
  "release_all gens g = fold released gens g"

lemma wp_release_many [wp_rules]:
  "wp (foldr (\<lambda>r m. seqE (release_operation r) m) gens (ret ())) Q E g = Q () (release_all gens g)"
  by (induction gens arbitrary: g) (simp_all add: wp_rules release_all_def)

lemma wait_true_quiescent:
  "wp (wait_for_operations_loop gen ws)
     (\<lambda>b h. b = (\<not> 0 < get0 (in_flight h) (gen_value gen))) (\<lambda>_ _. False) g"
  by (induction gen ws arbitrary: g rule: wait_for_operations_loop.induct) (auto simp: wp_rules)

lemma get0_release_all:
  "positive_counts (in_flight g) \<Longrightarrow>
    get0 (in_flight (release_all gens g)) (gen_value gen) =
      max 0 (get0 (in_flight g) (gen_value gen) - int (count_list gens gen)) \<and>
    positive_counts (in_flight (release_all gens g))"
proof (induction gens arbitrary: g)
  case Nil
  then show ?case using get0_nonneg by (fastforce simp: release_all_def)
next
  case (Cons a gens)
  have "release_all (a # gens) g = release_all gens (released a g)"
    by (simp add: release_all_def)
  then show ?case
    using Cons.IH [of "released a g"] Cons.prems get0_nonneg [OF Cons.prems, of "gen_value gen"]
    by (auto simp: count_rules)
qed

lemma wait_returns_true:
  assumes "positive_counts (in_flight g)" and "\<forall>(t, _) \<in> set ws. 0 < t"
    and "get0 (in_flight g) (gen_value gen) \<le> int (count_list (concat (map snd ws)) gen)"
  shows "wp (wait_for_operations_loop gen ws) (\<lambda>b _. b) (\<lambda>_ _. False) g"
  using assms
proof (induction ws arbitrary: g)
  case Nil
  then show ?case by (simp add: wp_rules)
next
  case (Cons w ws)
  obtain t rs where w: "w = (t, rs)" by (cases w)
  have "wp (wait_for_operations_loop gen ws) (\<lambda>b _. b) (\<lambda>_ _. False) (release_all rs g)"
    using Cons.prems get0_release_all [OF Cons.prems(1), of rs gen]
    by (intro Cons.IH) (auto simp: w)
  with Cons.prems show ?case by (simp add: w wp_rules)
qed

section \<open>Properties\<close>

text \<open>
  A concrete run for the witnesses: the owner binds itself, starts generation 1 and marks it as
  recording; then a worker persists.
\<close>

definition recording_gate :: gate where
  "recording_gate =
    exec_call 7 (Aware 0) (MarkRecording (CaptureGeneration 1) USER_START)
      (exec_call 7 (Aware 0) (BeginStart USER_START ''r1'')
        (exec_call 7 (Aware 0) BindOwner new_gate))"

definition recording_sys :: gate_sys where
  "recording_sys = new_gate_sys\<lparr>sys_gate := recording_gate\<rparr>"

lemma recording_gate_eq:
  "recording_gate = \<lparr>owner_thread_id = Some 7, state = RECORDING,
     active_generation = Some (CaptureGeneration 1), draining_generation = None,
     generation_epoch = 1, configuration_revision = Some ''r1'',
     critical_dependencies_healthy = True, cancel_events = (\<lambda>_. None)(1 \<mapsto> 0),
     in_flight = (\<lambda>_. None), event_heap = [False]\<rparr>"
  by (simp add: recording_gate_def new_gate_def gate_call_defs comp_defs assert_owner_def
      next_generation_locked_def mk_CaptureGeneration_def new_event_def transition_locked_def
      mk_CaptureStateTransition_def require_active_locked_def allowed_def)

lemma quiet_step:
  "gate_step (new_gate_sys\<lparr>sys_gate := g\<rparr>) (new_gate_sys\<lparr>sys_gate := exec_call 7 (Aware 0) c g\<rparr>)"
  using gate_step.lifecycle [of "Aware 0" c "new_gate_sys\<lparr>sys_gate := g\<rparr>" 7]
  by (simp add: new_gate_sys_def)

lemma quiet_run:
  "run gate_step s (new_gate_sys\<lparr>sys_gate := g\<rparr>) \<Longrightarrow>
    run gate_step s (new_gate_sys\<lparr>sys_gate := exec_call 7 (Aware 0) c g\<rparr>)"
  by (rule run_step, assumption, rule quiet_step)

lemma recording_sys_reachable: "run gate_step new_gate_sys recording_sys"
proof -
  have "run gate_step new_gate_sys (new_gate_sys\<lparr>sys_gate := new_gate\<rparr>)"
    by (simp add: new_gate_sys_def run_refl)
  then show ?thesis
    unfolding recording_sys_def recording_gate_def by (intro quiet_run)
qed

definition persisting_permit :: capture_work_permit where
  "persisting_permit = \<lparr>permit_generation = CaptureGeneration 1,
     permit_configuration_revision = ''r1'', permit_cancel_event = 0\<rparr>"

definition persisted_sys :: gate_sys where
  "persisted_sys = recording_sys\<lparr>
     sys_gate := recording_gate\<lparr>in_flight := (\<lambda>_. None)(1 \<mapsto> 1)\<rparr>,
     sys_committing := Some persisting_permit,
     sys_commits := [(CaptureGeneration 1, recording_gate\<lparr>in_flight := (\<lambda>_. None)(1 \<mapsto> 1)\<rparr>)]\<rparr>"

lemma persisted_sys_reachable: "run gate_step new_gate_sys persisted_sys"
proof -
  let ?g = "recording_gate\<lparr>in_flight := (\<lambda>_. None)(1 \<mapsto> 1)\<rparr>"
  let ?s = "recording_sys\<lparr>sys_gate := ?g, sys_committing := Some persisting_permit\<rparr>"
  have "acquire_persistence_operation (CaptureGeneration 1) (sys_gate recording_sys) =
      (Inr persisting_permit, ?g)"
    by (simp add: recording_sys_def acquire_persistence_operation_def register_operation_locked_def
        comp_defs recording_gate_eq event_is_set_def count_up_def get0_def persisting_permit_def)
  then have "gate_step recording_sys ?s"
    by (intro gate_step.persistence_begin) (simp_all add: recording_sys_def new_gate_sys_def)
  moreover have "gate_step ?s persisted_sys"
    using gate_step.persistence_commit [of ?s persisting_permit]
    by (simp add: persisted_sys_def recording_sys_def new_gate_sys_def persisting_permit_def)
  ultimately show ?thesis
    by (blast intro: run_step recording_sys_reachable)
qed

definition stopping_sys :: gate_sys where
  "stopping_sys = new_gate_sys\<lparr>sys_gate :=
     exec_call 7 (Aware 0) (BeginStopping USER_STOP) recording_gate\<rparr>"

definition off_sys :: gate_sys where
  "off_sys = new_gate_sys\<lparr>sys_gate :=
     exec_call 7 (Aware 0) (FinishOff USER_STOP)
       (exec_call 7 (Aware 0) (BeginStopping USER_STOP) recording_gate)\<rparr>"

lemma stopping_gate_eq:
  "exec_call 7 (Aware 0) (BeginStopping USER_STOP) recording_gate =
    recording_gate\<lparr>state := STOPPING, active_generation := None,
      draining_generation := Some (CaptureGeneration 1), generation_epoch := 2,
      event_heap := [True]\<rparr>"
  by (simp add: recording_gate_eq gate_call_defs comp_defs assert_owner_def event_set_def
      next_generation_locked_def mk_CaptureGeneration_def transition_locked_def
      mk_CaptureStateTransition_def cancel_active_locked_def allowed_def)

lemma stopping_sys_reachable: "run gate_step new_gate_sys stopping_sys"
  using recording_sys_reachable unfolding recording_sys_def stopping_sys_def by (rule quiet_run)

lemma off_sys_follows: "run gate_step stopping_sys off_sys"
  unfolding stopping_sys_def off_sys_def by (rule run_one, rule quiet_step)

text \<open>
  C1. However the lifecycle owner, the capture workers and the persisting workers interleave, a
  commit recorded for a generation was made while that generation was the active one and the gate
  was recording or paused: an invalidation can never fall between the final generation check and
  the commit.
\<close>

theorem commit_under_active_generation:
  assumes "run gate_step new_gate_sys s" and "(gen, g) \<in> set (sys_commits s)"
  shows "active_generation g = Some gen \<and> state g \<in> {RECORDING, PAUSED}"
  using gate_sys.inv_reachable [OF assms(1)] assms(2)
  by (auto simp: gate_sys_inv_def may_persist_def)

theorem commit_under_active_generation_witness:
  "active_generation (recording_gate\<lparr>in_flight := (\<lambda>_. None)(1 \<mapsto> 1)\<rparr>) = Some (CaptureGeneration 1) \<and>
   state (recording_gate\<lparr>in_flight := (\<lambda>_. None)(1 \<mapsto> 1)\<rparr>) \<in> {RECORDING, PAUSED}"
  by (rule commit_under_active_generation [OF persisted_sys_reachable])
    (simp add: persisted_sys_def)

text \<open>
  C2. A generation that has been issued and is not active any more (it was stopped, paused by the
  session guard, or faulted) never becomes active again, and from then on every attempt to persist
  under it is refused and leaves the gate unchanged.
\<close>

theorem invalidated_generation_stays_dead:
  assumes "run gate_step new_gate_sys s" and "gen_value gen \<le> generation_epoch (sys_gate s)"
    and "active_generation (sys_gate s) \<noteq> Some gen" and "run gate_step s t"
  shows "active_generation (sys_gate t) \<noteq> Some gen \<and>
    (\<exists>e. acquire_persistence_operation gen (sys_gate t) = (Inl e, sys_gate t))"
proof -
  have "\<not> generation_in_force t (gen_value gen)"
    using assms gate_epochs.revoked_forever [of s t "gen_value gen"]
      gate_sys.inv_reachable [OF assms(1)]
    by (simp add: generation_in_force_def)
  then have dead: "active_generation (sys_gate t) \<noteq> Some gen"
    by (simp add: generation_in_force_def)
  then show ?thesis
    by (auto simp: acquire_persistence_operation_def comp_defs)
qed

theorem invalidated_generation_stays_dead_witness:
  "active_generation (sys_gate off_sys) \<noteq> Some (CaptureGeneration 1) \<and>
   (\<exists>e. acquire_persistence_operation (CaptureGeneration 1) (sys_gate off_sys) =
     (Inl e, sys_gate off_sys))"
  by (rule invalidated_generation_stays_dead [OF stopping_sys_reachable _ _ off_sys_follows];
      unfold stopping_sys_def stopping_gate_eq; simp)

text \<open>
  The quiescence check is exact and live: in every reachable state the counter that
  \<^verbatim>\<open>wait_for_operations\<close> reads is zero precisely when no worker holds a permit of the generation,
  and when the permits of the generation are released while time is left the wait answers True
  (it never blocks for ever, and never answers True while a permit is still out).
\<close>

theorem wait_for_operations_exact:
  assumes "run gate_step new_gate_sys s" and "0 < timeout"
  shows "((\<not> 0 < get0 (in_flight (sys_gate s)) (gen_value gen)) \<longleftrightarrow>
      (\<forall>p \<in> set (held s). permit_generation p \<noteq> gen)) \<and>
    ((\<forall>(t, _) \<in> set ws. 0 < t) \<longrightarrow>
      length (filter (\<lambda>p. permit_generation p = gen) (held s)) \<le>
        count_list (concat (map snd ws)) gen \<longrightarrow>
      (\<exists>h. wait_for_operations gen timeout ws (sys_gate s) = (Inr True, h) \<and>
        \<not> 0 < get0 (in_flight h) (gen_value gen)))"
proof (intro conjI impI)
  have inv: "gate_sys_inv s" using assms(1) by (rule gate_sys.inv_reachable)
  show "(\<not> 0 < get0 (in_flight (sys_gate s)) (gen_value gen)) \<longleftrightarrow>
      (\<forall>p \<in> set (held s). permit_generation p \<noteq> gen)"
    using quiescent_count [OF inv, of "gen_value gen"] by simp
  have count: "count (image_mset permit_value (mset ps)) (gen_value gen) =
      length (filter (\<lambda>p. permit_generation p = gen) ps)" for ps
    by (induction ps) auto
  assume "\<forall>(t, _) \<in> set ws. 0 < t"
    and "length (filter (\<lambda>p. permit_generation p = gen) (held s)) \<le>
      count_list (concat (map snd ws)) gen"
  then have "wp (wait_for_operations_loop gen ws) (\<lambda>b _. b) (\<lambda>_ _. False) (sys_gate s)"
    using inv by (intro wait_returns_true)
      (simp_all add: gate_sys_inv_def accounts_ok_def counters_ok_def count)
  from wp_conj [OF this wait_true_quiescent] assms(2)
  show "\<exists>h. wait_for_operations gen timeout ws (sys_gate s) = (Inr True, h) \<and>
        \<not> 0 < get0 (in_flight h) (gen_value gen)"
    by (auto simp: wait_for_operations_def comp_defs wp_def split: prod.splits sum.splits)
qed

theorem wait_for_operations_exact_witness:
  "\<exists>h. wait_for_operations (CaptureGeneration 1) 5 [(3, [CaptureGeneration 1])]
      (sys_gate persisted_sys) = (Inr True, h) \<and> \<not> 0 < get0 (in_flight h) 1"
  using wait_for_operations_exact [OF persisted_sys_reachable, of 5 "CaptureGeneration 1"
      "[(3, [CaptureGeneration 1])]"]
  by (simp add: persisted_sys_def held_def persisting_permit_def recording_sys_def new_gate_sys_def)

text \<open>
  C3. Cancellation reaches every worker: when the owner stops, faults or pauses-and-invalidates
  while a worker holds a permit of the active generation, the worker's own permit reads as
  cancelled afterwards, through the event object it shares with the gate.
\<close>

theorem invalidation_cancels_permits:
  assumes "run gate_step new_gate_sys s" and "p \<in> set (held s)"
    and "active_generation (sys_gate s) = Some (permit_generation p)"
    and "owner_thread_id (sys_gate s) = Some tid" and "is_aware now" and "takes_commit_lock c"
  shows "permit_cancelled p (exec_call tid now c (sys_gate s)) \<and>
    active_generation (exec_call tid now c (sys_gate s)) \<noteq> Some (permit_generation p)"
proof
  have inv: "gate_sys_inv s" using assms(1) by (rule gate_sys.inv_reachable)
  then have ev: "cancel_events (sys_gate s) (permit_value p) = Some (permit_cancel_event p)"
    using assms(2) by (rule held_permit_shares_event)
  have g: "gate_inv (sys_gate s)" using inv by (simp add: gate_sys_inv_def accounts_ok_def)
  show set: "permit_cancelled p (exec_call tid now c (sys_gate s))"
    unfolding permit_cancelled_def
    using g assms(4,5,6,3) ev by (rule exec_call_cancels)
  show "active_generation (exec_call tid now c (sys_gate s)) \<noteq> Some (permit_generation p)"
  proof
    assume act: "active_generation (exec_call tid now c (sys_gate s)) = Some (permit_generation p)"
    have "cancel_events (exec_call tid now c (sys_gate s)) (permit_value p) =
        Some (permit_cancel_event p)"
      using g ev inv assms(2)
      by (intro exec_call_keeps_event)
        (auto simp: gate_inv_def gate_sys_inv_def accounts_ok_def held_counted)
    with act exec_call_inv [OF g assms(5), of tid c] set show False
      by (auto simp: gate_inv_defs permit_cancelled_def event_is_set_def)
  qed
qed

theorem invalidation_cancels_permits_witness:
  "permit_cancelled persisting_permit
     (exec_call 7 (Aware 1) (BeginStopping USER_STOP) (sys_gate persisted_sys)) \<and>
   active_generation (exec_call 7 (Aware 1) (BeginStopping USER_STOP) (sys_gate persisted_sys)) \<noteq>
     Some (permit_generation persisting_permit)"
  by (rule invalidation_cancels_permits [OF persisted_sys_reachable])
    (simp_all add: persisted_sys_def held_def persisting_permit_def recording_gate_eq)

text \<open>
  While the gate is recording, asking for a capture permit always succeeds: the worker gets a
  permit of the active generation, with its configuration revision, not cancelled, and it is
  counted as in flight; in every other state the request is refused and changes nothing.
\<close>

theorem capture_permit_exactly_when_recording:
  assumes "run gate_step new_gate_sys s"
  shows "if state (sys_gate s) = RECORDING
    then \<exists>p h. acquire_capture_operation (sys_gate s) = (Inr p, h) \<and>
      active_generation (sys_gate s) = Some (permit_generation p) \<and>
      configuration_revision (sys_gate s) = Some (permit_configuration_revision p) \<and>
      \<not> permit_cancelled p h \<and>
      get0 (in_flight h) (permit_value p) = get0 (in_flight (sys_gate s)) (permit_value p) + 1
    else acquire_capture_operation (sys_gate s) =
      (Inl (CaptureGateClosed (''capture gate is '' @ capture_state_value (state (sys_gate s)))),
       sys_gate s)"
proof -
  have "gate_inv (sys_gate s)"
    using gate_sys.inv_reachable [OF assms] by (simp add: gate_sys_inv_def accounts_ok_def)
  then show ?thesis
    by (auto simp: gate_inv_defs acquire_capture_operation_def register_operation_locked_def
        require_generation_locked_def comp_defs event_is_set_def permit_cancelled_def get0_count_up)
qed

theorem capture_permit_exactly_when_recording_witness:
  "\<exists>p h. acquire_capture_operation (sys_gate recording_sys) = (Inr p, h) \<and>
    permit_generation p = CaptureGeneration 1"
  using capture_permit_exactly_when_recording [OF recording_sys_reachable]
  by (auto simp: recording_sys_def recording_gate_eq)

end
