(* ===== verification/Lifecycle_Actor.thy ===== *)
theory Lifecycle_Actor
  imports Capture_Gate
begin

text \<open>
  The lifecycle actor of \<^verbatim>\<open>src/local_recall/lifecycle/actor.py\<close> with the messages of
  \<^verbatim>\<open>lifecycle/messages.py\<close>: the sole owner of the capture gate. Each handler is a computation over
  the actor's state. Everything the actor reaches through a port (configuration source, preflight
  actor, work coordinator, audit sink, clocks) is an environment that answers each call as a
  function of the calls made so far; the calls and their outcomes are recorded in a trace, newest
  first. The properties hold for every environment whose wall clock is timezone-aware.
\<close>

section \<open>Messages\<close>

datatype fault_code =
    UNSUPPORTED_SESSION | ENCRYPTION_UNAVAILABLE | POLICY_FAILURE | PREFLIGHT_FAILURE
  | PREFLIGHT_TIMEOUT | CANCELLATION_FAILURE | QUIESCENCE_TIMEOUT | BUFFER_CLEAR_FAILURE
  | AUDIT_FAILURE | ACTOR_FAILURE | SHUTDOWN_FAILURE

record preflight_result =
  ready :: bool
  result_fault_code :: "fault_code option"
  start_paused_reason :: "transition_reason option"

definition preflight_result_ok :: "preflight_result \<Rightarrow> bool" where
  "preflight_result_ok r \<longleftrightarrow>
    \<not> (ready r \<and> result_fault_code r \<noteq> None) \<and>
    \<not> (\<not> ready r \<and> result_fault_code r = None) \<and>
    \<not> (\<not> ready r \<and> start_paused_reason r \<noteq> None) \<and>
    start_paused_reason r \<in> {None, Some SESSION_LOCKED, Some IDLE}"

definition preflight_success :: "transition_reason option \<Rightarrow> preflight_result" where
  "preflight_success why = \<lparr>ready = True, result_fault_code = None, start_paused_reason = why\<rparr>"

definition preflight_failure :: "fault_code \<Rightarrow> preflight_result" where
  "preflight_failure fc = \<lparr>ready = False, result_fault_code = Some fc, start_paused_reason = None\<rparr>"

record configuration_snapshot =
  capture_permitted :: bool
  revision :: string

record preflight_request =
  request_configuration :: configuration_snapshot
  request_generation :: capture_generation
  request_deadline_ns :: int
  request_cancellation :: capture_work_permit

definition mk_LifecyclePreflightRequest ::
    "configuration_snapshot \<Rightarrow> capture_generation \<Rightarrow> int \<Rightarrow> capture_work_permit \<Rightarrow>
     ('s, preflight_request) comp" where
  "mk_LifecyclePreflightRequest configuration generation deadline permit =
    seqE (require (0 < deadline) (ValueError ''preflight deadline must be positive''))
    (seqE (require (permit_generation permit = generation)
        (ValueError ''preflight cancellation token generation mismatch''))
      (ret \<lparr>request_configuration = configuration, request_generation = generation,
            request_deadline_ns = deadline, request_cancellation = permit\<rparr>))"

record run_preflight_message =
  rp_configuration :: configuration_snapshot
  rp_generation :: capture_generation
  rp_deadline_ns :: int
  rp_reason :: transition_reason

datatype lifecycle_message =
    GetLifecycleSnapshot
  | StartCapture transition_reason
  | PauseCapture transition_reason
  | ResumeCapture transition_reason
  | SetAutomaticCaptureBlock bool transition_reason
  | StopCapture transition_reason
  | FaultCapture fault_code transition_reason
  | CompleteLifecyclePreflight capture_generation preflight_result transition_reason
  | OtherMessage

text \<open>What the validating constructors of the message classes guarantee.\<close>

fun message_ok :: "lifecycle_message \<Rightarrow> bool" where
  "message_ok (SetAutomaticCaptureBlock blocked why) =
    (why \<in> (if blocked then {SESSION_LOCKED, IDLE} else {SESSION_UNLOCKED, ACTIVE}))"
| "message_ok (CompleteLifecyclePreflight _ res _) = preflight_result_ok res"
| "message_ok _ = True"

record command_result =
  accepted :: bool
  changed :: bool
  result_snapshot :: capture_state_snapshot
  reason_code :: string
  command_fault_code :: "fault_code option"

datatype reply = SnapshotReply capture_state_snapshot | ResultReply command_result

record audit_event =
  ev_previous :: capture_state
  ev_current :: capture_state
  ev_reason :: transition_reason
  ev_generation :: int
  ev_configuration_revision :: "string option"
  ev_occurred_at :: datetime
  ev_fault_code :: "fault_code option"

section \<open>Ports\<close>

datatype port_call =
    ConfigurationSnapshot
  | StartPreflightActor
  | PreflightAlive
  | TellPreflight run_preflight_message
  | EmitAudit audit_event
  | CancelQueued capture_generation
  | CancelInFlight capture_generation
  | WaitForQuiescence capture_generation int
  | ClearVolatileBuffers "capture_generation option"
  | StopPreflightActor

type_synonym port_trace = "(port_call \<times> bool) list"

text \<open>
  \<open>port_returns\<close> is True when the call returns normally (for the liveness query and the pipeline's
  quiescence wait, when it returns True); the calls of the actor library that may raise
  (\<^verbatim>\<open>start\<close>, \<^verbatim>\<open>tell\<close> to a dead actor, a \<^verbatim>\<open>stop\<close> that times out) do so when it is False; \<open>port_configuration\<close> is \<open>None\<close> when the source raises.
\<close>

record lifecycle_env =
  port_now :: "port_trace \<Rightarrow> datetime"
  port_monotonic_ns :: "port_trace \<Rightarrow> int"
  port_remaining :: "port_trace \<Rightarrow> int"
  port_wakeups :: "port_trace \<Rightarrow> (int \<times> capture_generation list) list"
  port_configuration :: "port_trace \<Rightarrow> configuration_snapshot option"
  port_returns :: "port_trace \<Rightarrow> port_call \<Rightarrow> bool"
  preflight_timeout_ns :: int

record lifecycle =
  lc_gate :: gate
  lc_thread :: int
  preflight_ref :: bool
  manual_pause :: bool
  automatic_pause_reason :: "transition_reason option"
  lc_trace :: port_trace

definition new_lifecycle :: "int \<Rightarrow> lifecycle" where
  "new_lifecycle tid = \<lparr>lc_gate = new_gate, lc_thread = tid, preflight_ref = False,
     manual_pause = False, automatic_pause_reason = None, lc_trace = []\<rparr>"

definition call_port :: "lifecycle_env \<Rightarrow> port_call \<Rightarrow> (lifecycle, bool) comp" where
  "call_port env c = bindE (reads (\<lambda>a. port_returns env (lc_trace a) c)) (\<lambda>b.
     seqE (modifies (\<lambda>a. a\<lparr>lc_trace := (c, b) # lc_trace a\<rparr>)) (ret b))"

text \<open>A gate method called from the actor's own thread, at the time the clock shows.\<close>

definition on_gate ::
    "lifecycle_env \<Rightarrow> (int \<Rightarrow> datetime \<Rightarrow> (gate, 'a) comp) \<Rightarrow> (lifecycle, 'a) comp" where
  "on_gate env m = bindE (reads (\<lambda>a. m (lc_thread a) (port_now env (lc_trace a)))) (\<lambda>op.
     on_field lc_gate (\<lambda>g a. a\<lparr>lc_gate := g\<rparr>) op)"

definition set_manual_pause :: "bool \<Rightarrow> (lifecycle, unit) comp" where
  "set_manual_pause b = modifies (\<lambda>a. a\<lparr>manual_pause := b\<rparr>)"

definition set_automatic_pause_reason :: "transition_reason option \<Rightarrow> (lifecycle, unit) comp" where
  "set_automatic_pause_reason r = modifies (\<lambda>a. a\<lparr>automatic_pause_reason := r\<rparr>)"

section \<open>Helpers of the actor\<close>

definition result ::
    "lifecycle_env \<Rightarrow> bool \<Rightarrow> bool \<Rightarrow> string \<Rightarrow> fault_code option \<Rightarrow> (lifecycle, command_result) comp" where
  "result env acc chg code fc = bindE (on_gate env (\<lambda>_. snapshot)) (\<lambda>sn.
     ret \<lparr>accepted = acc, changed = chg, result_snapshot = sn, reason_code = code,
          command_fault_code = fc\<rparr>)"

definition emit_audit ::
    "lifecycle_env \<Rightarrow> capture_state_transition \<Rightarrow> fault_code option \<Rightarrow> (lifecycle, bool) comp" where
  "emit_audit env tr fc = bindE (reads (\<lambda>a. configuration_revision (lc_gate a))) (\<lambda>revsn.
     call_port env (EmitAudit \<lparr>ev_previous = tr_previous tr, ev_current = tr_current tr,
       ev_reason = tr_reason tr, ev_generation = gen_value (tr_generation tr),
       ev_configuration_revision = revsn, ev_occurred_at = tr_occurred_at tr,
       ev_fault_code = fc\<rparr>))"

definition clear_buffers ::
    "lifecycle_env \<Rightarrow> capture_generation option \<Rightarrow> (lifecycle, fault_code option) comp" where
  "clear_buffers env gen = bindE (call_port env (ClearVolatileBuffers gen)) (\<lambda>okay.
     ret (if okay then None else Some BUFFER_CLEAR_FAILURE))"

text \<open>Python's \<open>a or b\<close> on optional fault codes.\<close>

definition or_else :: "'a option \<Rightarrow> 'a option \<Rightarrow> 'a option" where
  "or_else a b = (if a \<noteq> None then a else b)"

definition drain_generation ::
    "lifecycle_env \<Rightarrow> capture_generation option \<Rightarrow> (lifecycle, fault_code option) comp" where
  "drain_generation env gen = (case gen of
     None \<Rightarrow> clear_buffers env None
   | Some generation \<Rightarrow>
       bindE (call_port env (CancelQueued generation)) (\<lambda>queued.
       bindE (call_port env (CancelInFlight generation)) (\<lambda>flight.
       bindE (reads (\<lambda>a. port_remaining env (lc_trace a))) (\<lambda>remaining.
       bindE (if 0 < remaining
              then bindE (reads (\<lambda>a. port_wakeups env (lc_trace a))) (\<lambda>ws.
                on_gate env (\<lambda>_ _. wait_for_operations generation remaining ws))
              else ret False) (\<lambda>gate_quiescent.
       bindE (reads (\<lambda>a. port_remaining env (lc_trace a))) (\<lambda>remaining.
       bindE (if 0 < remaining then call_port env (WaitForQuiescence generation remaining)
              else ret False) (\<lambda>pipeline_quiescent.
       bindE (clear_buffers env (Some generation)) (\<lambda>clear_failure.
       let fc = (if \<not> queued then Some CANCELLATION_FAILURE else None);
           fc = (if \<not> flight then or_else fc (Some CANCELLATION_FAILURE) else fc);
           fc = (if \<not> gate_quiescent \<or> \<not> pipeline_quiescent
                 then or_else fc (Some QUIESCENCE_TIMEOUT) else fc)
       in ret (or_else fc clear_failure)))))))))"

definition enter_fault ::
    "lifecycle_env \<Rightarrow> fault_code \<Rightarrow> transition_reason \<Rightarrow> bool \<Rightarrow> (lifecycle, command_result) comp" where
  "enter_fault env fc why drain =
     bindE (on_gate env (\<lambda>_. snapshot)) (\<lambda>current.
     if sn_state current = FAULTED then result env False False ''faulted'' (Some fc)
     else
       bindE (on_gate env (\<lambda>tid now. fault tid now why)) (\<lambda>(generation, transition).
       seqE (emit_audit env transition (Some fc))
       (seqE (if drain then bindE (drain_generation env generation) (\<lambda>_. ret ()) else ret ())
         (result env False True ''faulted'' (Some fc)))))"

definition emit_transition ::
    "lifecycle_env \<Rightarrow> capture_state_transition \<Rightarrow> (lifecycle, bool) comp" where
  "emit_transition env transition =
     bindE (emit_audit env transition None) (\<lambda>okay.
     if okay then ret True
     else
       bindE (on_gate env (\<lambda>_. snapshot)) (\<lambda>current.
       seqE (if sn_state current \<noteq> FAULTED
             then bindE (enter_fault env AUDIT_FAILURE CRITICAL_FAULT True) (\<lambda>_. ret ())
             else ret ())
         (ret False)))"

text \<open>The early return every handler makes when a transition could not be audited.\<close>

definition audited ::
    "lifecycle_env \<Rightarrow> capture_state_transition \<Rightarrow> (lifecycle, command_result) comp \<Rightarrow>
     (lifecycle, command_result) comp" where
  "audited env transition continue =
     bindE (emit_transition env transition) (\<lambda>okay.
     if okay then continue else result env False True ''audit_failure'' (Some AUDIT_FAILURE))"

definition stop_preflight_actor :: "lifecycle_env \<Rightarrow> (lifecycle, unit) comp" where
  "stop_preflight_actor env = bindE (reads preflight_ref) (\<lambda>ref.
     seqE (modifies (\<lambda>a. a\<lparr>preflight_ref := False\<rparr>))
     (if \<not> ref then ret ()
      else bindE (call_port env PreflightAlive) (\<lambda>alive.
        if \<not> alive then ret ()
        else bindE (call_port env StopPreflightActor) (\<lambda>stopped.
          require stopped (ActorError ''timeout'')))))"

section \<open>Handlers\<close>

text \<open>The last part of a start: hand the preflight to its actor, or fault when that actor is gone.\<close>

definition launch_preflight ::
    "lifecycle_env \<Rightarrow> configuration_snapshot \<Rightarrow> transition_reason \<Rightarrow> capture_generation \<Rightarrow>
     (lifecycle, command_result) comp" where
  "launch_preflight env conf why generation =
     bindE (reads preflight_ref) (\<lambda>ref.
     bindE (if ref then call_port env PreflightAlive else ret False) (\<lambda>alive.
     if \<not> ref \<or> \<not> alive then enter_fault env PREFLIGHT_FAILURE CRITICAL_FAULT True
     else
       bindE (reads (\<lambda>a. port_monotonic_ns env (lc_trace a))) (\<lambda>t.
       bindE (call_port env (TellPreflight \<lparr>rp_configuration = conf,
          rp_generation = generation, rp_deadline_ns = t + preflight_timeout_ns env,
          rp_reason = why\<rparr>)) (\<lambda>told.
       if \<not> told then raise (ActorError ''actor dead'')
       else result env True True ''starting'' None))))"

definition handle_start ::
    "lifecycle_env \<Rightarrow> transition_reason \<Rightarrow> (lifecycle, command_result) comp" where
  "handle_start env why =
     bindE (on_gate env (\<lambda>_. snapshot)) (\<lambda>current.
     if sn_state current \<in> {RECORDING, STARTING} then result env True False ''already_started'' None
     else if sn_state current = PAUSED then result env False False ''capture_paused'' None
     else if sn_state current \<noteq> OFF then result env False False ''invalid_start_state'' None
     else
       bindE (reads (\<lambda>a. port_configuration env (lc_trace a))) (\<lambda>configuration.
       seqE (modifies (\<lambda>a. a\<lparr>lc_trace := (ConfigurationSnapshot, configuration \<noteq> None) # lc_trace a\<rparr>))
       (case configuration of
         None \<Rightarrow> enter_fault env PREFLIGHT_FAILURE CRITICAL_FAULT True
       | Some conf \<Rightarrow>
           if \<not> capture_permitted conf
           then result env False False ''capture_disabled_by_configuration'' None
           else
             bindE (on_gate env (\<lambda>tid now. begin_start tid now why (revision conf)))
               (\<lambda>(generation, transition).
             audited env transition (launch_preflight env conf why generation)))))"

definition handle_preflight_complete ::
    "lifecycle_env \<Rightarrow> capture_generation \<Rightarrow> preflight_result \<Rightarrow> transition_reason \<Rightarrow>
     (lifecycle, command_result) comp" where
  "handle_preflight_complete env generation res why =
     bindE (on_gate env (\<lambda>_. snapshot)) (\<lambda>current.
     if sn_state current \<noteq> STARTING \<or> sn_generation current \<noteq> Some generation
     then result env False False ''stale_preflight_ignored'' None
     else if \<not> ready res
     then enter_fault env (case result_fault_code res of Some fc \<Rightarrow> fc | None \<Rightarrow> PREFLIGHT_FAILURE)
            CRITICAL_FAULT True
     else
       bindE (reads (\<lambda>a. or_else (start_paused_reason res) (automatic_pause_reason a)))
         (\<lambda>pause_reason.
       case pause_reason of
         Some p \<Rightarrow>
           bindE (on_gate env (\<lambda>tid now. invalidate_and_pause tid now p))
             (\<lambda>(old, transition).
           seqE (set_automatic_pause_reason (Some p))
           (audited env transition
             (bindE (drain_generation env old) (\<lambda>fc.
             case fc of
               Some c \<Rightarrow> enter_fault env c CRITICAL_FAULT False
             | None \<Rightarrow> result env True True ''session_safety_paused'' None))))
       | None \<Rightarrow>
           bindE (on_gate env (\<lambda>tid now. mark_recording tid now generation why)) (\<lambda>transition.
           audited env transition (result env True True ''recording'' None))))"

definition handle_pause ::
    "lifecycle_env \<Rightarrow> transition_reason \<Rightarrow> (lifecycle, command_result) comp" where
  "handle_pause env why =
     bindE (on_gate env (\<lambda>_. snapshot)) (\<lambda>current.
     if sn_state current = PAUSED
     then seqE (set_manual_pause True) (result env True False ''already_paused'' None)
     else if sn_state current \<noteq> RECORDING then result env False False ''invalid_pause_state'' None
     else
       seqE (set_manual_pause True)
       (bindE (on_gate env (\<lambda>tid now. pause tid now why)) (\<lambda>transition.
        audited env transition (result env True True ''paused'' None))))"

definition handle_resume ::
    "lifecycle_env \<Rightarrow> transition_reason \<Rightarrow> (lifecycle, command_result) comp" where
  "handle_resume env why =
     bindE (on_gate env (\<lambda>_. snapshot)) (\<lambda>current.
     bindE (reads automatic_pause_reason) (\<lambda>auto_reason.
     if auto_reason \<noteq> None then result env False False ''session_safety_blocked'' None
     else if sn_state current = RECORDING
     then seqE (set_manual_pause False) (result env True False ''already_recording'' None)
     else if sn_state current \<noteq> PAUSED then result env False False ''invalid_resume_state'' None
     else
       bindE (on_gate env (\<lambda>tid now. resume tid now why)) (\<lambda>transition.
       seqE (set_manual_pause False)
       (audited env transition (result env True True ''recording'' None)))))"

definition handle_automatic_block ::
    "lifecycle_env \<Rightarrow> bool \<Rightarrow> transition_reason \<Rightarrow> (lifecycle, command_result) comp" where
  "handle_automatic_block env blocked why =
     bindE (on_gate env (\<lambda>_. snapshot)) (\<lambda>current.
     bindE (reads automatic_pause_reason) (\<lambda>auto_reason.
     if blocked then
       if auto_reason = Some SESSION_LOCKED \<and> why = IDLE
       then result env True False ''stronger_safety_block_active'' None
       else if auto_reason = Some why \<and> sn_state current = PAUSED
       then result env True False ''session_safety_already_blocked'' None
       else
         seqE (set_automatic_pause_reason (Some why))
         (if sn_state current \<in> {OFF, STOPPING, FAULTED}
          then result env True False ''session_safety_latched'' None
          else
            bindE (on_gate env (\<lambda>tid now. invalidate_and_pause tid now why))
              (\<lambda>(old, transition).
            audited env transition
              (bindE (drain_generation env old) (\<lambda>fc.
              case fc of
                Some c \<Rightarrow> enter_fault env c CRITICAL_FAULT False
              | None \<Rightarrow> result env True True ''session_safety_paused'' None))))
     else
       let expected_release = (if auto_reason = Some SESSION_LOCKED then SESSION_UNLOCKED else ACTIVE)
       in if auto_reason = None then result env True False ''session_safety_already_clear'' None
       else if why \<noteq> expected_release
       then result env False False ''session_safety_release_mismatch'' None
       else
         seqE (set_automatic_pause_reason None)
         (bindE (reads manual_pause) (\<lambda>manual.
          if sn_state current \<noteq> PAUSED \<or> manual
          then result env True False ''manual_pause_retained'' None
          else
            bindE (on_gate env (\<lambda>tid now. resume tid now why)) (\<lambda>transition.
            audited env transition (result env True True ''recording'' None))))))"

definition handle_stop ::
    "lifecycle_env \<Rightarrow> transition_reason \<Rightarrow> (lifecycle, command_result) comp" where
  "handle_stop env why =
     seqE (set_manual_pause False)
     (bindE (on_gate env (\<lambda>_. snapshot)) (\<lambda>current.
      if sn_state current = OFF then result env True False ''already_off'' None
      else if sn_state current = FAULTED then
        bindE (clear_buffers env None) (\<lambda>fc.
        if fc \<noteq> None then result env False False ''buffer_clear_failure'' fc
        else
          bindE (on_gate env (\<lambda>tid now. finish_off tid now why)) (\<lambda>transition.
          audited env transition (result env True True ''off'' None)))
      else
        bindE (on_gate env (\<lambda>tid now. begin_stopping tid now why)) (\<lambda>(generation, transition).
        audited env transition
          (bindE (drain_generation env generation) (\<lambda>fc.
           case fc of
             Some c \<Rightarrow> enter_fault env c CRITICAL_FAULT False
           | None \<Rightarrow>
               bindE (on_gate env (\<lambda>tid now. finish_off tid now why)) (\<lambda>transition.
               audited env transition (result env True True ''off'' None)))))))"

definition handle_fault ::
    "lifecycle_env \<Rightarrow> fault_code \<Rightarrow> transition_reason \<Rightarrow> (lifecycle, command_result) comp" where
  "handle_fault env fc why =
     bindE (on_gate env (\<lambda>_. snapshot)) (\<lambda>current.
     if sn_state current = FAULTED then result env True False ''already_faulted'' (Some fc)
     else enter_fault env fc why True)"

definition as_reply :: "(lifecycle, command_result) comp \<Rightarrow> (lifecycle, reply) comp" where
  "as_reply m = bindE m (\<lambda>r. ret (ResultReply r))"

fun on_receive :: "lifecycle_env \<Rightarrow> lifecycle_message \<Rightarrow> (lifecycle, reply) comp" where
  "on_receive env GetLifecycleSnapshot =
     bindE (on_gate env (\<lambda>_. snapshot)) (\<lambda>sn. ret (SnapshotReply sn))"
| "on_receive env (StartCapture why) = as_reply (handle_start env why)"
| "on_receive env (PauseCapture why) = as_reply (handle_pause env why)"
| "on_receive env (ResumeCapture why) = as_reply (handle_resume env why)"
| "on_receive env (SetAutomaticCaptureBlock blocked why) =
     as_reply (handle_automatic_block env blocked why)"
| "on_receive env (StopCapture why) = as_reply (handle_stop env why)"
| "on_receive env (FaultCapture fc why) = as_reply (handle_fault env fc why)"
| "on_receive env (CompleteLifecyclePreflight gen res why) =
     as_reply (handle_preflight_complete env gen res why)"
| "on_receive env OtherMessage =
     as_reply (enter_fault env ACTOR_FAILURE CRITICAL_FAULT True)"

definition on_start :: "lifecycle_env \<Rightarrow> (lifecycle, unit) comp" where
  "on_start env =
     seqE (on_gate env (\<lambda>tid _. bind_owner tid))
     (bindE (call_port env StartPreflightActor) (\<lambda>started.
      seqE (require started (ActorError ''start''))
     (seqE (modifies (\<lambda>a. a\<lparr>preflight_ref := True\<rparr>))
     (bindE (reads (\<lambda>a. port_configuration env (lc_trace a))) (\<lambda>configuration.
      seqE (modifies (\<lambda>a. a\<lparr>lc_trace := (ConfigurationSnapshot, configuration \<noteq> None) # lc_trace a\<rparr>))
      (case configuration of
        None \<Rightarrow> bindE (enter_fault env PREFLIGHT_FAILURE CRITICAL_FAULT True) (\<lambda>_. ret ())
      | Some conf \<Rightarrow>
          if capture_permitted conf
          then bindE (handle_start env STARTUP_OPT_IN) (\<lambda>_. ret ()) else ret ()))))))"

definition on_stop :: "lifecycle_env \<Rightarrow> (lifecycle, unit) comp" where
  "on_stop env = finallyE
     (bindE (on_gate env (\<lambda>_. snapshot)) (\<lambda>current.
      if sn_state current = OFF then ret ()
      else bindE (handle_stop env SHUTDOWN) (\<lambda>r.
        if sn_state (result_snapshot r) \<notin> {OFF, FAULTED}
        then bindE (enter_fault env SHUTDOWN_FAILURE CRITICAL_FAULT True) (\<lambda>_. ret ())
        else ret ())))
     (seqE (stop_preflight_actor env) (on_gate env (\<lambda>tid _. release_owner tid)))"

definition on_failure :: "lifecycle_env \<Rightarrow> (lifecycle, unit) comp" where
  "on_failure env =
     bindE (enter_fault env ACTOR_FAILURE CRITICAL_FAULT True) (\<lambda>_.
     seqE (stop_preflight_actor env) (on_gate env (\<lambda>tid _. release_owner tid)))"

text \<open>
  The preflight actor runs the check under a preflight permit and reports back, unless the
  generation has gone stale meanwhile; a late answer counts as a timeout.
\<close>

definition preflight_on_receive ::
    "(preflight_request \<Rightarrow> (gate, preflight_result) comp) \<Rightarrow> (gate \<Rightarrow> int) \<Rightarrow> run_preflight_message \<Rightarrow>
     gate \<Rightarrow> lifecycle_message option \<times> gate" where
  "preflight_on_receive check monotonic_ns msg g =
    (let (outcome, g') = run_preflight (rp_generation msg) (\<lambda>permit.
           bindE (mk_LifecyclePreflightRequest (rp_configuration msg) (rp_generation msg)
             (rp_deadline_ns msg) permit) check) g;
         report = (\<lambda>res. let res' = (if monotonic_ns g' > rp_deadline_ns msg
             then preflight_failure PREFLIGHT_TIMEOUT else res)
           in Some (CompleteLifecyclePreflight (rp_generation msg) res' (rp_reason msg)))
     in (case outcome of
           Inl (CaptureGateClosed _) \<Rightarrow> None
         | Inl (StaleCaptureGeneration _) \<Rightarrow> None
         | Inl _ \<Rightarrow> report (preflight_failure PREFLIGHT_FAILURE)
         | Inr res \<Rightarrow> report res, g'))"

section \<open>Rules for the helpers\<close>

lemma wp_on_gate [wp_rules]:
  "wp (on_gate env m) Q E = (\<lambda>a.
    wp (m (lc_thread a) (port_now env (lc_trace a)))
      (\<lambda>x g. Q x (a\<lparr>lc_gate := g\<rparr>)) (\<lambda>e g. E e (a\<lparr>lc_gate := g\<rparr>)) (lc_gate a))"
  by (simp add: on_gate_def wp_rules)

lemma wp_call_port [wp_rules]:
  "wp (call_port env c) Q E = (\<lambda>a.
    Q (port_returns env (lc_trace a) c)
      (a\<lparr>lc_trace := (c, port_returns env (lc_trace a) c) # lc_trace a\<rparr>))"
  by (simp add: call_port_def wp_rules)

lemma wp_set_manual [wp_rules]: "wp (set_manual_pause b) Q E = (\<lambda>a. Q () (a\<lparr>manual_pause := b\<rparr>))"
  by (simp add: set_manual_pause_def wp_rules)

lemma wp_set_auto [wp_rules]:
  "wp (set_automatic_pause_reason r) Q E = (\<lambda>a. Q () (a\<lparr>automatic_pause_reason := r\<rparr>))"
  by (simp add: set_automatic_pause_reason_def wp_rules)

text \<open>The environment's clock is timezone-aware, as \<^verbatim>\<open>datetime.now(UTC)\<close> is.\<close>

definition clock_ok :: "lifecycle_env \<Rightarrow> bool" where
  "clock_ok env \<longleftrightarrow> (\<forall>t. is_aware (port_now env t))"

definition owns_gate :: "lifecycle \<Rightarrow> bool" where
  "owns_gate a \<longleftrightarrow> gate_inv (lc_gate a) \<and> owner_thread_id (lc_gate a) = Some (lc_thread a)"

abbreviation lc_state :: "lifecycle \<Rightarrow> capture_state" where
  "lc_state a \<equiv> state (lc_gate a)"

lemma owns_gate_ready:
  "clock_ok env \<Longrightarrow> owns_gate a \<Longrightarrow> owner_ready (lc_thread a) (port_now env t) (lc_gate a)"
  by (simp add: clock_ok_def owns_gate_def owner_ready_def)

lemma owns_gate_frame [simp]:
  "owns_gate (a\<lparr>lc_trace := t\<rparr>) = owns_gate a"
  "owns_gate (a\<lparr>manual_pause := b\<rparr>) = owns_gate a"
  "owns_gate (a\<lparr>automatic_pause_reason := r\<rparr>) = owns_gate a"
  "owns_gate (a\<lparr>preflight_ref := p\<rparr>) = owns_gate a"
  by (simp_all add: owns_gate_def)

lemma owns_gate_moved:
  "owns_gate a \<Longrightarrow> moved (lc_gate a) st r now d tr h \<Longrightarrow> owns_gate (a\<lparr>lc_gate := h\<rparr>)"
  by (simp add: owns_gate_def moved_def)

text \<open>Taking a snapshot of a gate that satisfies its invariant never raises.\<close>

definition snapshot_of :: "datetime \<Rightarrow> gate \<Rightarrow> capture_state_snapshot" where
  "snapshot_of now g = \<lparr>sn_state = state g, sn_generation = active_generation g,
     sn_observed_at = now, sn_privacy_mode = (state g = PRIVACY),
     sn_critical_dependencies_healthy = critical_dependencies_healthy g\<rparr>"

lemma snapshot_of_simps [simp]:
  "sn_state (snapshot_of now g) = state g"
  "sn_generation (snapshot_of now g) = active_generation g"
  by (simp_all add: snapshot_of_def)

lemma wp_snapshot:
  "gate_inv g \<Longrightarrow> is_aware now \<Longrightarrow> wp (snapshot now) Q E g = Q (snapshot_of now g) g"
  by (auto simp: snapshot_def wp_rules snapshot_of_def gate_inv_def)

lemma wp_snapshot_on_gate:
  "clock_ok env \<Longrightarrow> owns_gate a \<Longrightarrow>
    wp (on_gate env (\<lambda>_. snapshot)) Q E a = Q (snapshot_of (port_now env (lc_trace a)) (lc_gate a)) a"
  by (simp add: wp_on_gate wp_snapshot clock_ok_def owns_gate_def)

lemma wp_result:
  "clock_ok env \<Longrightarrow> owns_gate a \<Longrightarrow>
    wp (result env acc chg code fc) Q E a =
      Q \<lparr>accepted = acc, changed = chg,
         result_snapshot = snapshot_of (port_now env (lc_trace a)) (lc_gate a),
         reason_code = code, command_fault_code = fc\<rparr> a"
  by (simp add: result_def wp_bindE wp_snapshot_on_gate wp_ret)

text \<open>
  Gate methods as the handlers call them: the precondition is the state the handler has checked,
  and the rest of the handler may rely on the new gate having \<^const>\<open>moved\<close>.
\<close>

lemma wp_begin_start:
  assumes "owner_ready tid now g" and "state g = OFF"
    and "\<And>tr h. moved g STARTING r now 1 tr h \<Longrightarrow> Q (CaptureGeneration (generation_epoch g + 1), tr) h"
  shows "wp (begin_start tid now r revsn) Q E g"
  by (rule wp_mono [OF begin_start_spec [OF assms(1,2)]]) (auto intro: assms(3))

lemma wp_mark_recording:
  assumes "owner_ready tid now g" and "state g = STARTING" and "active_generation g = Some gen"
    and "\<And>tr h. moved g RECORDING r now 0 tr h \<Longrightarrow> Q tr h"
  shows "wp (mark_recording tid now gen r) Q E g"
  by (rule wp_mono [OF mark_recording_spec [OF assms(1-3)]]) (auto intro: assms(4))

lemma wp_pause:
  assumes "owner_ready tid now g" and "state g = RECORDING"
    and "\<And>tr h. moved g PAUSED r now 0 tr h \<Longrightarrow> Q tr h"
  shows "wp (pause tid now r) Q E g"
  by (rule wp_mono [OF pause_spec [OF assms(1,2)]]) (auto intro: assms(3))

lemma wp_resume:
  assumes "owner_ready tid now g" and "state g = PAUSED"
    and "\<And>tr h. moved g RECORDING r now 0 tr h \<Longrightarrow> Q tr h"
  shows "wp (resume tid now r) Q E g"
  by (rule wp_mono [OF resume_spec [OF assms(1,2)]]) (auto intro: assms(3))

lemma wp_invalidate_and_pause:
  assumes "owner_ready tid now g" and "state g \<in> active_states"
    and "\<And>tr h. moved g PAUSED r now 1 tr h \<Longrightarrow> Q (active_generation g, tr) h"
  shows "wp (invalidate_and_pause tid now r) Q E g"
  by (rule wp_mono [OF invalidate_and_pause_spec [OF assms(1,2)]]) (auto intro: assms(3))

lemma wp_begin_stopping:
  assumes "owner_ready tid now g" and "state g \<in> active_states"
    and "\<And>tr h. moved g STOPPING r now 1 tr h \<Longrightarrow> Q (active_generation g, tr) h"
  shows "wp (begin_stopping tid now r) Q E g"
  by (rule wp_mono [OF begin_stopping_spec [OF assms(1,2)]]) (auto intro: assms(3))

lemma wp_finish_off:
  assumes "owner_ready tid now g" and "state g \<in> {STOPPING, FAULTED}"
    and "\<And>tr h. moved g OFF r now 0 tr h \<Longrightarrow> Q tr h"
  shows "wp (finish_off tid now r) Q E g"
  by (rule wp_mono [OF finish_off_spec [OF assms(1,2)]]) (auto intro: assms(3))

lemma wp_fault:
  assumes "owner_ready tid now g" and "state g \<noteq> FAULTED"
    and "\<And>old tr h. moved g FAULTED r now 1 tr h \<Longrightarrow> Q (old, tr) h"
  shows "wp (fault tid now r) Q E g"
  by (rule wp_mono [OF fault_spec [OF assms(1,2)]]) (auto intro: assms(3))

end
