(* ===== verification/Lifecycle_Safety.thy ===== *)
theory Lifecycle_Safety
  imports Lifecycle_Actor
begin

text \<open>
  What the lifecycle actor guarantees, whatever its ports do: the audit trail it emits is a path of
  allowed transitions that ends in the gate's state; a transition that could not be audited ends in
  the faulted state; a session-safety block keeps the gate out of recording until it is released;
  stopping always reaches off or faulted; and no handler raises, save for a dead preflight actor.
\<close>

section \<open>The audit trail\<close>

fun audits :: "port_trace \<Rightarrow> (audit_event \<times> bool) list" where
  "audits [] = []"
| "audits ((EmitAudit e, b) # t) = (e, b) # audits t"
| "audits ((_, b) # t) = audits t"

text \<open>
  Newest first: each event enters the state that the next newer one leaves, by an allowed
  transition, and the oldest one leaves the initial off state.
\<close>

fun audit_chain :: "(audit_event \<times> bool) list \<Rightarrow> capture_state \<Rightarrow> bool" where
  "audit_chain [] st = (st = OFF)"
| "audit_chain ((e, b) # t) st =
    (ev_current e = st \<and> allowed (ev_previous e) st \<and> audit_chain t (ev_previous e))"

fun last_accepted :: "(audit_event \<times> bool) list \<Rightarrow> bool" where
  "last_accepted [] = True"
| "last_accepted ((e, b) # t) = b"

section \<open>Invariants\<close>

definition trail_ok :: "lifecycle \<Rightarrow> bool" where
  "trail_ok a \<longleftrightarrow> owns_gate a \<and> audit_chain (audits (lc_trace a)) (lc_state a)"

definition life_inv :: "lifecycle \<Rightarrow> bool" where
  "life_inv a \<longleftrightarrow> trail_ok a \<and> lc_state a \<noteq> STOPPING \<and>
    automatic_pause_reason a \<in> {None, Some SESSION_LOCKED, Some IDLE} \<and>
    (automatic_pause_reason a \<noteq> None \<longrightarrow> lc_state a \<noteq> RECORDING) \<and>
    (lc_state a \<noteq> FAULTED \<longrightarrow> last_accepted (audits (lc_trace a)))"

text \<open>
  The fields of the actor itself that a helper leaves alone, and the stronger relation for helpers
  that make no transition: the gate may only lose operations in flight.
\<close>

definition kept :: "lifecycle \<Rightarrow> lifecycle \<Rightarrow> bool" where
  "kept a b \<longleftrightarrow> lc_thread b = lc_thread a \<and> manual_pause b = manual_pause a \<and>
    automatic_pause_reason b = automatic_pause_reason a \<and> preflight_ref b = preflight_ref a"

definition quiet :: "lifecycle \<Rightarrow> lifecycle \<Rightarrow> bool" where
  "quiet a b \<longleftrightarrow> kept a b \<and> owns_gate b \<and> lc_state b = lc_state a \<and>
    active_generation (lc_gate b) = active_generation (lc_gate a) \<and>
    generation_epoch (lc_gate b) = generation_epoch (lc_gate a) \<and>
    audits (lc_trace b) = audits (lc_trace a)"

lemma kept_refl [simp]: "kept a a"
  by (simp add: kept_def)

lemma kept_trans: "kept a b \<Longrightarrow> kept b c \<Longrightarrow> kept a c"
  by (simp add: kept_def)

lemma kept_gate [simp]: "kept a (b\<lparr>lc_gate := g\<rparr>) = kept a b" "kept (a\<lparr>lc_gate := g\<rparr>) b = kept a b"
  by (simp_all add: kept_def)

lemma kept_trace [simp]: "kept a (b\<lparr>lc_trace := t\<rparr>) = kept a b" "kept (a\<lparr>lc_trace := t\<rparr>) b = kept a b"
  by (simp_all add: kept_def)

lemma quiet_refl: "owns_gate a \<Longrightarrow> quiet a a"
  by (simp add: quiet_def)

lemma quiet_trans: "quiet a b \<Longrightarrow> quiet b c \<Longrightarrow> quiet a c"
  by (auto simp: quiet_def intro: kept_trans)

lemma quiet_trail: "quiet a b \<Longrightarrow> trail_ok a \<Longrightarrow> trail_ok b"
  by (simp add: quiet_def trail_ok_def)

section \<open>Helpers\<close>

subsection \<open>Draining\<close>

text \<open>
  A helper is quiet when, run on a gate the actor owns, it returns and changes nothing but the
  operations in flight and the trace of port calls other than audits.
\<close>

definition quietly :: "(lifecycle, 'a) comp \<Rightarrow> bool" where
  "quietly m \<longleftrightarrow> (\<forall>a. owns_gate a \<longrightarrow> wp m (\<lambda>_. quiet a) (\<lambda>_ _. False) a)"

lemma quietlyD: "quietly m \<Longrightarrow> owns_gate a \<Longrightarrow> wp m (\<lambda>_. quiet a) (\<lambda>_ _. False) a"
  by (simp add: quietly_def)

lemma quietly_bindE [intro]:
  assumes "quietly m" and "\<And>x. quietly (f x)"
  shows "quietly (bindE m f)"
  unfolding quietly_def wp_bindE
proof (intro allI impI)
  fix a
  assume "owns_gate a"
  with assms(1) have "wp m (\<lambda>_. quiet a) (\<lambda>_ _. False) a" by (rule quietlyD)
  then show "wp m (\<lambda>x. wp (f x) (\<lambda>_. quiet a) (\<lambda>_ _. False)) (\<lambda>_ _. False) a"
  proof (rule wp_mono)
    fix x b
    assume b: "quiet a b"
    then have "wp (f x) (\<lambda>_. quiet b) (\<lambda>_ _. False) b"
      using assms(2) by (intro quietlyD) (simp_all add: quiet_def)
    then show "wp (f x) (\<lambda>_. quiet a) (\<lambda>_ _. False) b"
      by (rule wp_mono) (auto intro: quiet_trans [OF b])
  qed simp
qed

lemma quietly_basic [intro]:
  "quietly (ret x)" "quietly (reads f)"
  by (simp_all add: quietly_def wp_rules quiet_refl)

lemma quietly_if [intro]: "quietly m \<Longrightarrow> quietly n \<Longrightarrow> quietly (if b then m else n)"
  by simp

lemma quietly_call_port [intro]:
  "(\<And>e. c \<noteq> EmitAudit e) \<Longrightarrow> quietly (call_port env c)"
  by (cases c) (auto simp: quietly_def wp_rules quiet_def)

lemma release_all_inv:
  "gate_inv g \<Longrightarrow>
    wp (foldr (\<lambda>r m. seqE (release_operation r) m) gens (ret ()))
      (\<lambda>_ h. gate_inv h \<and> owner_thread_id h = owner_thread_id g \<and> state h = state g \<and>
         active_generation h = active_generation g \<and> generation_epoch h = generation_epoch g)
      (\<lambda>_ _. False) g"
proof (induction gens arbitrary: g)
  case Nil
  then show ?case by (simp add: wp_rules)
next
  case (Cons r gens)
  show ?case
    using Cons.IH [of "released r g"] Cons.prems by (simp add: wp_rules gate_inv_released)
qed

lemma wait_loop_inv:
  "gate_inv g \<Longrightarrow>
    wp (wait_for_operations_loop gen ws)
      (\<lambda>_ h. gate_inv h \<and> owner_thread_id h = owner_thread_id g \<and> state h = state g \<and>
         active_generation h = active_generation g \<and> generation_epoch h = generation_epoch g)
      (\<lambda>_ _. False) g"
proof (induction ws arbitrary: g)
  case Nil
  then show ?case by (simp add: wp_rules)
next
  case (Cons w ws)
  obtain t gens where w: "w = (t, gens)" by (cases w)
  let ?Q = "\<lambda>_ h. gate_inv h \<and> owner_thread_id h = owner_thread_id g \<and> state h = state g \<and>
         active_generation h = active_generation g \<and> generation_epoch h = generation_epoch g"
  have "wp (foldr (\<lambda>r m. seqE (release_operation r) m) gens (ret ()))
      (\<lambda>_. wp (wait_for_operations_loop gen ws) ?Q (\<lambda>_ _. False)) (\<lambda>_ _. False) g"
  proof (rule wp_mono [OF release_all_inv [OF Cons.prems]])
    fix x h
    assume h: "?Q x h"
    then have "gate_inv h" by simp
    from Cons.IH [OF this] show "wp (wait_for_operations_loop gen ws) ?Q (\<lambda>_ _. False) h"
      by (rule wp_mono) (use h in auto)
  qed simp
  with Cons.prems show ?case by (simp add: w wp_rules)
qed

lemma quietly_wait [intro]:
  assumes "0 < t"
  shows "quietly (on_gate env (\<lambda>_ _. wait_for_operations gen t ws))"
  using assms unfolding quietly_def
  by (auto simp: wp_rules wait_for_operations_def owns_gate_def quiet_def
      intro!: wp_mono [OF wait_loop_inv])

lemma quietly_clear [intro]: "quietly (clear_buffers env gen)"
  unfolding clear_buffers_def by (intro quietly_bindE quietly_call_port quietly_basic) simp

lemma quietly_wait_if [intro]:
  "quietly (if 0 < t then bindE (reads f) (\<lambda>ws. on_gate env (\<lambda>_ _. wait_for_operations gen t ws))
     else ret False)"
  by (cases "0 < t") (auto intro: quietly_bindE)

lemma quietly_drain: "quietly (drain_generation env gen)"
proof (cases gen)
  case None
  then show ?thesis by (simp add: drain_generation_def quietly_clear)
next
  case (Some g)
  then show ?thesis
    unfolding drain_generation_def Let_def option.case
    by (simp only: option.case)
      (intro quietly_bindE quietly_call_port quietly_basic quietly_wait_if quietly_clear quietly_if;
       simp)
qed

subsection \<open>Auditing and faulting\<close>

definition audit_of ::
    "lifecycle \<Rightarrow> capture_state_transition \<Rightarrow> fault_code option \<Rightarrow> audit_event" where
  "audit_of a tr fc = \<lparr>ev_previous = tr_previous tr, ev_current = tr_current tr,
     ev_reason = tr_reason tr, ev_generation = gen_value (tr_generation tr),
     ev_configuration_revision = configuration_revision (lc_gate a),
     ev_occurred_at = tr_occurred_at tr, ev_fault_code = fc\<rparr>"

lemma audit_of_simps [simp]:
  "ev_previous (audit_of a tr fc) = tr_previous tr" "ev_current (audit_of a tr fc) = tr_current tr"
  by (simp_all add: audit_of_def)

lemma wp_emit_audit [wp_rules]:
  "wp (emit_audit env tr fc) Q E = (\<lambda>a.
    Q (port_returns env (lc_trace a) (EmitAudit (audit_of a tr fc)))
      (a\<lparr>lc_trace := (EmitAudit (audit_of a tr fc),
           port_returns env (lc_trace a) (EmitAudit (audit_of a tr fc))) # lc_trace a\<rparr>))"
  by (simp add: emit_audit_def audit_of_def wp_rules)

text \<open>A transition the gate has made and the trail has not recorded yet.\<close>

definition pending :: "capture_state_transition \<Rightarrow> lifecycle \<Rightarrow> bool" where
  "pending tr a \<longleftrightarrow> owns_gate a \<and> tr_current tr = lc_state a \<and>
    allowed (tr_previous tr) (tr_current tr) \<and> audit_chain (audits (lc_trace a)) (tr_previous tr)"

lemma pending_moved:
  "trail_ok a \<Longrightarrow> moved (lc_gate a) st r now d tr h \<Longrightarrow> allowed (lc_state a) st \<Longrightarrow>
    pending tr (a\<lparr>lc_gate := h\<rparr>)"
  by (auto simp: pending_def trail_ok_def moved_def owns_gate_def)

lemma pending_frame [simp]:
  "pending tr (a\<lparr>manual_pause := b\<rparr>) = pending tr a"
  "pending tr (a\<lparr>automatic_pause_reason := r\<rparr>) = pending tr a"
  by (simp_all add: pending_def)

lemma trail_ok_frame [simp]:
  "trail_ok (a\<lparr>manual_pause := b\<rparr>) = trail_ok a"
  "trail_ok (a\<lparr>automatic_pause_reason := r\<rparr>) = trail_ok a"
  "trail_ok (a\<lparr>preflight_ref := p\<rparr>) = trail_ok a"
  by (simp_all add: trail_ok_def)

lemma trail_ok_recorded:
  "pending tr a \<Longrightarrow> trail_ok (a\<lparr>lc_trace := (EmitAudit (audit_of a tr fc), b) # lc_trace a\<rparr>)"
  by (auto simp: pending_def trail_ok_def)

text \<open>
  Entering the fault state always succeeds: the gate is faulted, the trail records it, and the
  actor's own fields are untouched.
\<close>

definition faulted_from :: "lifecycle \<Rightarrow> lifecycle \<Rightarrow> bool" where
  "faulted_from a b \<longleftrightarrow> trail_ok b \<and> lc_state b = FAULTED \<and> kept a b"

lemma enter_fault_spec:
  assumes env: "clock_ok env" and trail: "trail_ok a"
  shows "wp (enter_fault env fc why drain)
    (\<lambda>r b. faulted_from a b \<and> sn_state (result_snapshot r) = FAULTED \<and> \<not> accepted r)
    (\<lambda>_ _. False) a"
proof (cases "lc_state a = FAULTED")
  case True
  with assms show ?thesis
    by (auto simp: enter_fault_def wp_rules wp_snapshot_on_gate wp_result trail_ok_def
        faulted_from_def simp flip: wp_on_gate)
next
  case False
  have own: "owns_gate a" using trail by (simp add: trail_ok_def)
  have finish: "wp (seqE (if drain then bindE (drain_generation env old) (\<lambda>_. ret ()) else ret ())
        (result env False True ''faulted'' (Some fc)))
      (\<lambda>r b. faulted_from a b \<and> sn_state (result_snapshot r) = FAULTED \<and> \<not> accepted r)
      (\<lambda>_ _. False) c" if c: "faulted_from a c" for c old
  proof -
    have "quietly (if drain then bindE (drain_generation env old) (\<lambda>_. ret ()) else ret ())"
      by (auto intro: quietly_drain)
    with c have "wp (if drain then bindE (drain_generation env old) (\<lambda>_. ret ()) else ret ())
        (\<lambda>_. quiet c) (\<lambda>_ _. False) c"
      by (intro quietlyD) (simp_all add: faulted_from_def trail_ok_def)
    then show ?thesis
      unfolding wp_seqE
    proof (rule wp_mono)
      fix x b
      assume "quiet c b"
      with c have "faulted_from a b" "owns_gate b"
        by (auto simp: faulted_from_def quiet_def trail_ok_def intro: kept_trans)
      then show "wp (result env False True ''faulted'' (Some fc))
          (\<lambda>r b. faulted_from a b \<and> sn_state (result_snapshot r) = FAULTED \<and> \<not> accepted r)
          (\<lambda>_ _. False) b"
        using env by (simp add: wp_result faulted_from_def)
    qed simp
  qed
  have rec: "faulted_from a (a\<lparr>lc_gate := h,
        lc_trace := (EmitAudit (audit_of (a\<lparr>lc_gate := h\<rparr>) tr (Some fc)), ok) # lc_trace a\<rparr>)"
    if "moved (lc_gate a) FAULTED why now 1 tr h" for now tr h ok
    using trail_ok_recorded [OF pending_moved [OF trail that], of "Some fc" ok] False that
    by (simp add: faulted_from_def allowed_simps moved_def)
  have "wp (on_gate env (\<lambda>tid now. fault tid now why))
      (\<lambda>(old, tr). wp (seqE (emit_audit env tr (Some fc))
         (seqE (if drain then bindE (drain_generation env old) (\<lambda>_. ret ()) else ret ())
           (result env False True ''faulted'' (Some fc))))
         (\<lambda>r b. faulted_from a b \<and> sn_state (result_snapshot r) = FAULTED \<and> \<not> accepted r)
         (\<lambda>_ _. False)) (\<lambda>_ _. False) a"
    unfolding wp_on_gate
  proof (rule wp_fault [OF owns_gate_ready [OF env own] False], unfold prod.case)
    fix old tr h
    assume "moved (lc_gate a) FAULTED why (port_now env (lc_trace a)) 1 tr h"
    then show "wp (seqE (emit_audit env tr (Some fc))
         (seqE (if drain then bindE (drain_generation env old) (\<lambda>_. ret ()) else ret ())
           (result env False True ''faulted'' (Some fc))))
         (\<lambda>r b. faulted_from a b \<and> sn_state (result_snapshot r) = FAULTED \<and> \<not> accepted r)
         (\<lambda>_ _. False) (a\<lparr>lc_gate := h\<rparr>)"
      by (subst wp_seqE) (simp add: wp_emit_audit finish rec)
  qed
  then show ?thesis
    using False by (simp add: enter_fault_def wp_bindE wp_snapshot_on_gate [OF env own] wp_case_prod)
qed

text \<open>
  A transition is audited, or the actor ends up faulted. The rule takes the continuation of the
  handler for the first case and the audit-failure result for the second.
\<close>

lemma wp_audited:
  assumes env: "clock_ok env" and pend: "pending tr a"
    and go: "\<And>b. trail_ok b \<Longrightarrow> kept a b \<Longrightarrow> lc_gate b = lc_gate a \<Longrightarrow>
      last_accepted (audits (lc_trace b)) \<Longrightarrow> wp k Q E b"
    and fail: "\<And>r b. faulted_from a b \<Longrightarrow> sn_state (result_snapshot r) = FAULTED \<Longrightarrow>
      \<not> accepted r \<Longrightarrow> changed r \<Longrightarrow> reason_code r = ''audit_failure'' \<Longrightarrow> Q r b"
  shows "wp (audited env tr k) Q E a"
proof -
  let ?b = "\<lambda>okay. a\<lparr>lc_trace := (EmitAudit (audit_of a tr None), okay) # lc_trace a\<rparr>"
  let ?okay = "port_returns env (lc_trace a) (EmitAudit (audit_of a tr None))"
  have trail: "trail_ok (?b okay)" for okay
    using pend by (rule trail_ok_recorded)
  have failed: "wp (result env False True ''audit_failure'' (Some AUDIT_FAILURE)) Q E b"
    if "faulted_from a b" for b
    using that env fail by (auto simp: wp_result faulted_from_def trail_ok_def)
  have fault: "wp (enter_fault env AUDIT_FAILURE CRITICAL_FAULT True)
      (\<lambda>_. wp (result env False True ''audit_failure'' (Some AUDIT_FAILURE)) Q E) E (?b False)"
    by (rule wp_mono [OF enter_fault_spec [OF env trail]]) (auto intro!: failed simp: faulted_from_def)
  show ?thesis
  proof (cases ?okay)
    case True
    then show ?thesis
      using go [OF trail] by (simp add: audited_def emit_transition_def wp_rules)
  next
    case False
    have "owns_gate (?b False)" using trail by (simp add: trail_ok_def)
    then show ?thesis
      using False fault failed [of "?b False"] trail
      by (simp add: audited_def emit_transition_def wp_bindE wp_seqE wp_emit_audit wp_ret wp_if
          wp_snapshot_on_gate [OF env] faulted_from_def)
  qed
qed

section \<open>Every handler keeps the invariant\<close>

text \<open>The exit condition of a handler: the invariant, and a result that shows the state reached.\<close>

definition handled :: "lifecycle \<Rightarrow> command_result \<Rightarrow> lifecycle \<Rightarrow> bool" where
  "handled a r b \<longleftrightarrow> life_inv b \<and> lc_thread b = lc_thread a \<and>
    sn_state (result_snapshot r) = lc_state b \<and>
    (reason_code r = ''audit_failure'' \<longrightarrow> lc_state b = FAULTED)"

lemma life_inv_owns: "life_inv a \<Longrightarrow> owns_gate a"
  by (simp add: life_inv_def trail_ok_def)

lemma life_inv_trail: "life_inv a \<Longrightarrow> trail_ok a"
  by (simp add: life_inv_def)

lemma life_inv_faulted:
  "trail_ok b \<Longrightarrow> lc_state b = FAULTED \<Longrightarrow>
    automatic_pause_reason b \<in> {None, Some SESSION_LOCKED, Some IDLE} \<Longrightarrow> life_inv b"
  by (simp add: life_inv_def)

lemma faulted_handled:
  "faulted_from a b \<Longrightarrow> automatic_pause_reason a \<in> {None, Some SESSION_LOCKED, Some IDLE} \<Longrightarrow>
    sn_state (result_snapshot r) = FAULTED \<Longrightarrow> handled a r b"
  by (simp add: handled_def faulted_from_def life_inv_def kept_def)

lemma wp_enter_fault:
  assumes "clock_ok env" and "trail_ok a"
    and "\<And>r b. faulted_from a b \<Longrightarrow> sn_state (result_snapshot r) = FAULTED \<Longrightarrow> \<not> accepted r \<Longrightarrow> Q r b"
  shows "wp (enter_fault env fc why drain) Q E a"
  by (rule wp_mono [OF enter_fault_spec [OF assms(1,2)]]) (auto intro: assms(3))

lemma wp_drain:
  assumes "owns_gate a" and "\<And>fc b. quiet a b \<Longrightarrow> Q fc b"
  shows "wp (drain_generation env gen) Q E a"
  by (rule wp_mono [OF quietlyD [OF quietly_drain assms(1)]]) (auto intro: assms(2))

text \<open>Answering without a transition.\<close>

lemma wp_answer:
  assumes "clock_ok env" and "life_inv b" and "lc_thread b = lc_thread a"
    and "code \<noteq> ''audit_failure''"
  shows "wp (result env acc chg code fc) (handled a) E b"
  using assms by (simp add: wp_result life_inv_owns handled_def)

text \<open>
  The shape shared by most handlers: the gate makes one allowed transition, the actor's fields may
  be adjusted, the transition is audited, and the rest of the handler runs.
\<close>

lemma wp_transition_audited:
  assumes moved: "moved (lc_gate a) st r now d tr h" and allowed: "allowed (lc_state a) st"
    and env: "clock_ok env" and trail: "trail_ok a"
    and c: "lc_gate c = h" "lc_trace c = lc_trace a" "lc_thread c = lc_thread a"
    and auto_ok: "automatic_pause_reason c \<in> {None, Some SESSION_LOCKED, Some IDLE}"
    and go: "\<And>b. trail_ok b \<Longrightarrow> kept c b \<Longrightarrow> lc_gate b = h \<Longrightarrow> state h = st \<Longrightarrow>
      last_accepted (audits (lc_trace b)) \<Longrightarrow> wp k (handled a) E b"
  shows "wp (audited env tr k) (handled a) E c"
proof (rule wp_audited [OF env])
  have "pending tr (a\<lparr>lc_gate := h\<rparr>)" using pending_moved [OF trail moved allowed] .
  then show "pending tr c" using c by (auto simp: pending_def owns_gate_def)
  show "wp k (handled a) E b"
    if "trail_ok b" "kept c b" "lc_gate b = lc_gate c" "last_accepted (audits (lc_trace b))" for b
    using that go moved c by (simp add: moved_def)
  show "handled a r b"
    if "faulted_from c b" "sn_state (result_snapshot r) = FAULTED" for r b
    using faulted_handled [OF that(1) auto_ok that(2)] c by (simp add: handled_def)
qed

text \<open>The gate methods as seen from the actor.\<close>

lemma wp_gate_ops:
  assumes env: "clock_ok env" and own: "owns_gate a"
  shows "lc_state a = OFF \<Longrightarrow>
      (\<And>tr h. moved (lc_gate a) STARTING why (port_now env (lc_trace a)) 1 tr h \<Longrightarrow>
        Q1 (CaptureGeneration (generation_epoch (lc_gate a) + 1), tr) (a\<lparr>lc_gate := h\<rparr>)) \<Longrightarrow>
      wp (on_gate env (\<lambda>tid now. begin_start tid now why revsn)) Q1 E a"
    and "lc_state a = STARTING \<Longrightarrow> active_generation (lc_gate a) = Some gen \<Longrightarrow>
      (\<And>tr h. moved (lc_gate a) RECORDING why (port_now env (lc_trace a)) 0 tr h \<Longrightarrow>
        Q2 tr (a\<lparr>lc_gate := h\<rparr>)) \<Longrightarrow>
      wp (on_gate env (\<lambda>tid now. mark_recording tid now gen why)) Q2 E a"
    and "lc_state a = RECORDING \<Longrightarrow>
      (\<And>tr h. moved (lc_gate a) PAUSED why (port_now env (lc_trace a)) 0 tr h \<Longrightarrow>
        Q2 tr (a\<lparr>lc_gate := h\<rparr>)) \<Longrightarrow>
      wp (on_gate env (\<lambda>tid now. pause tid now why)) Q2 E a"
    and "lc_state a = PAUSED \<Longrightarrow>
      (\<And>tr h. moved (lc_gate a) RECORDING why (port_now env (lc_trace a)) 0 tr h \<Longrightarrow>
        Q2 tr (a\<lparr>lc_gate := h\<rparr>)) \<Longrightarrow>
      wp (on_gate env (\<lambda>tid now. resume tid now why)) Q2 E a"
    and "lc_state a \<in> active_states \<Longrightarrow>
      (\<And>tr h. moved (lc_gate a) PAUSED why (port_now env (lc_trace a)) 1 tr h \<Longrightarrow>
        Q3 (active_generation (lc_gate a), tr) (a\<lparr>lc_gate := h\<rparr>)) \<Longrightarrow>
      wp (on_gate env (\<lambda>tid now. invalidate_and_pause tid now why)) Q3 E a"
    and "lc_state a \<in> active_states \<Longrightarrow>
      (\<And>tr h. moved (lc_gate a) STOPPING why (port_now env (lc_trace a)) 1 tr h \<Longrightarrow>
        Q3 (active_generation (lc_gate a), tr) (a\<lparr>lc_gate := h\<rparr>)) \<Longrightarrow>
      wp (on_gate env (\<lambda>tid now. begin_stopping tid now why)) Q3 E a"
    and "lc_state a \<in> {STOPPING, FAULTED} \<Longrightarrow>
      (\<And>tr h. moved (lc_gate a) OFF why (port_now env (lc_trace a)) 0 tr h \<Longrightarrow>
        Q2 tr (a\<lparr>lc_gate := h\<rparr>)) \<Longrightarrow>
      wp (on_gate env (\<lambda>tid now. finish_off tid now why)) Q2 E a"
  unfolding wp_on_gate using owns_gate_ready [OF env own]
  by (blast intro: wp_begin_start wp_mark_recording wp_pause wp_resume wp_invalidate_and_pause
      wp_begin_stopping wp_finish_off)+

lemma life_invI:
  "trail_ok b \<Longrightarrow> lc_state b \<noteq> STOPPING \<Longrightarrow>
    automatic_pause_reason b \<in> {None, Some SESSION_LOCKED, Some IDLE} \<Longrightarrow>
    (automatic_pause_reason b \<noteq> None \<Longrightarrow> lc_state b \<noteq> RECORDING) \<Longrightarrow>
    last_accepted (audits (lc_trace b)) \<Longrightarrow> life_inv b"
  by (simp add: life_inv_def)

lemma wp_answer_reached:
  assumes "clock_ok env" and "trail_ok b" and "lc_thread b = lc_thread a"
    and "lc_state b \<noteq> STOPPING" and "automatic_pause_reason b \<in> {None, Some SESSION_LOCKED, Some IDLE}"
    and "automatic_pause_reason b \<noteq> None \<Longrightarrow> lc_state b \<noteq> RECORDING"
    and "last_accepted (audits (lc_trace b))" and "code \<noteq> ''audit_failure''"
  shows "wp (result env acc chg code fc) (handled a) E b"
  using assms by (intro wp_answer life_invI) auto

lemma handle_pause_inv:
  assumes env: "clock_ok env" and inv: "life_inv a"
  shows "wp (handle_pause env why) (handled a) (\<lambda>_ _. False) a"
proof -
  have own: "owns_gate (a\<lparr>manual_pause := b\<rparr>)" for b
    using life_inv_owns [OF inv] by simp
  have "wp (on_gate env (\<lambda>tid now. pause tid now why))
      (\<lambda>tr. wp (audited env tr (result env True True ''paused'' None)) (handled a) (\<lambda>_ _. False))
      (\<lambda>_ _. False) (a\<lparr>manual_pause := True\<rparr>)"
    if "lc_state a = RECORDING"
    using env inv that
    by (intro wp_gate_ops(3) [OF env own] wp_transition_audited [where st = PAUSED])
      (auto simp: allowed_simps life_inv_def kept_def intro!: wp_answer_reached)
  then show ?thesis
    using env inv
    by (auto simp: handle_pause_def wp_bindE wp_seqE wp_if wp_set_manual
        wp_snapshot_on_gate [OF env life_inv_owns [OF inv]] life_inv_def intro!: wp_answer)
qed

lemmas handler_rules = wp_bindE wp_seqE wp_if wp_ret wp_raise wp_reads wp_modifies wp_set_manual
  wp_set_auto wp_call_port wp_case_option wp_case_prod

text \<open>The ends of the handlers that pause, drain the old generation and fault if that fails.\<close>

lemma wp_drain_then:
  assumes env: "clock_ok env" and trail: "trail_ok b" and thread: "lc_thread b = lc_thread a"
    and auto_ok: "automatic_pause_reason b \<in> {None, Some SESSION_LOCKED, Some IDLE}"
    and go: "\<And>c. quiet b c \<Longrightarrow> trail_ok c \<Longrightarrow> wp k (handled a) E c"
  shows "wp (bindE (drain_generation env old) (\<lambda>fc. case fc of
      Some c \<Rightarrow> enter_fault env c CRITICAL_FAULT False | None \<Rightarrow> k)) (handled a) E b"
  unfolding wp_bindE
proof (rule wp_drain)
  show "owns_gate b" using trail by (simp add: trail_ok_def)
next
  fix fc c
  assume c: "quiet b c"
  then have trail_c: "trail_ok c" using trail by (rule quiet_trail)
  have kept: "lc_thread c = lc_thread b" "automatic_pause_reason c = automatic_pause_reason b"
    using c by (simp_all add: quiet_def kept_def)
  have "wp (enter_fault env f CRITICAL_FAULT False) (handled a) E c" for f
  proof (rule wp_enter_fault [OF env trail_c])
    fix r :: command_result and d
    assume "faulted_from c d" "sn_state (result_snapshot r) = FAULTED"
    then have "handled c r d" using auto_ok kept by (intro faulted_handled) auto
    then show "handled a r d" using kept thread by (simp add: handled_def)
  qed
  then show "wp (case fc of Some c \<Rightarrow> enter_fault env c CRITICAL_FAULT False | None \<Rightarrow> k)
      (handled a) E c"
    using go [OF c trail_c] by (simp split: option.split)
qed

lemma handle_resume_inv:
  assumes env: "clock_ok env" and inv: "life_inv a"
  shows "wp (handle_resume env why) (handled a) (\<lambda>_ _. False) a"
proof -
  note own = life_inv_owns [OF inv]
  have "wp (on_gate env (\<lambda>tid now. resume tid now why))
      (\<lambda>tr. wp (seqE (set_manual_pause False)
        (audited env tr (result env True True ''recording'' None))) (handled a) (\<lambda>_ _. False))
      (\<lambda>_ _. False) a"
    if "lc_state a = PAUSED" "automatic_pause_reason a = None"
    using env inv that unfolding wp_seqE wp_set_manual
    by (intro wp_gate_ops(4) [OF env own] wp_transition_audited [where st = RECORDING])
      (auto simp: allowed_simps life_inv_def kept_def intro!: wp_answer_reached)
  then show ?thesis
    using env inv
    by (auto simp: handle_resume_def wp_bindE wp_seqE wp_if wp_set_manual wp_reads
        wp_snapshot_on_gate [OF env own] life_inv_def intro!: wp_answer)
qed

lemma pause_and_drain:
  assumes env: "clock_ok env" and inv: "life_inv a" and st: "lc_state a \<in> active_states"
    and why: "why \<in> {SESSION_LOCKED, IDLE}"
    and c: "lc_gate c = lc_gate a" "lc_trace c = lc_trace a" "lc_thread c = lc_thread a"
    and d: "\<And>h. lc_gate (f (c\<lparr>lc_gate := h\<rparr>)) = h" "\<And>h. lc_trace (f (c\<lparr>lc_gate := h\<rparr>)) = lc_trace a"
      "\<And>h. lc_thread (f (c\<lparr>lc_gate := h\<rparr>)) = lc_thread a"
      "\<And>h. automatic_pause_reason (f (c\<lparr>lc_gate := h\<rparr>)) = Some why"
  shows "wp (on_gate env (\<lambda>tid now. invalidate_and_pause tid now why))
      (\<lambda>(old, tr) b. wp (audited env tr
        (bindE (drain_generation env old) (\<lambda>fc. case fc of
           Some c \<Rightarrow> enter_fault env c CRITICAL_FAULT False
         | None \<Rightarrow> result env True True ''session_safety_paused'' None)))
        (handled a) (\<lambda>_ _. False) (f b)) (\<lambda>_ _. False) c"
proof -
  have own: "owns_gate c"
    using life_inv_owns [OF inv] c by (simp add: owns_gate_def)
  show ?thesis
  proof (rule wp_gate_ops(5) [OF env own], unfold prod.case)
    show "lc_state c \<in> active_states" using st c by simp
    fix tr h
    assume "moved (lc_gate c) PAUSED why (port_now env (lc_trace c)) 1 tr h"
    then have m: "moved (lc_gate a) PAUSED why (port_now env (lc_trace c)) 1 tr h" using c by simp
    show "wp (audited env tr
        (bindE (drain_generation env (active_generation (lc_gate c))) (\<lambda>fc. case fc of
           Some c \<Rightarrow> enter_fault env c CRITICAL_FAULT False
         | None \<Rightarrow> result env True True ''session_safety_paused'' None)))
        (handled a) (\<lambda>_ _. False) (f (c\<lparr>lc_gate := h\<rparr>))"
      using why st
      by (intro wp_transition_audited [OF m _ env life_inv_trail [OF inv] d(1,2,3)] wp_drain_then)
        (auto simp: allowed_simps d env kept_def quiet_def intro!: wp_answer_reached)
  qed
qed

lemma handle_automatic_block_inv:
  assumes env: "clock_ok env" and inv: "life_inv a"
    and msg: "message_ok (SetAutomaticCaptureBlock blocked why)"
  shows "wp (handle_automatic_block env blocked why) (handled a) (\<lambda>_ _. False) a"
proof -
  note own = life_inv_owns [OF inv]
  have release: "wp (on_gate env (\<lambda>tid now. resume tid now why))
      (\<lambda>tr. wp (audited env tr (result env True True ''recording'' None)) (handled a) (\<lambda>_ _. False))
      (\<lambda>_ _. False) (a\<lparr>automatic_pause_reason := None\<rparr>)"
    if "lc_state a = PAUSED"
    using env inv own that
    by (intro wp_gate_ops(4) [OF env] wp_transition_audited [where st = RECORDING])
      (auto simp: allowed_simps life_inv_def kept_def intro!: wp_answer_reached)
  have block: "wp (on_gate env (\<lambda>tid now. invalidate_and_pause tid now why))
      (\<lambda>(old, tr). wp (audited env tr
        (bindE (drain_generation env old) (\<lambda>fc. case fc of
           Some c \<Rightarrow> enter_fault env c CRITICAL_FAULT False
         | None \<Rightarrow> result env True True ''session_safety_paused'' None)))
        (handled a) (\<lambda>_ _. False)) (\<lambda>_ _. False) (a\<lparr>automatic_pause_reason := Some why\<rparr>)"
    if "lc_state a \<in> active_states" "why \<in> {SESSION_LOCKED, IDLE}"
    using pause_and_drain [OF env inv that, where f = "\<lambda>b. b" and c = "a\<lparr>automatic_pause_reason := Some why\<rparr>"]
    by (simp add: case_prod_beta)
  have st: "lc_state a \<noteq> PRIVACY" using own by (simp add: owns_gate_def gate_inv_def)
  show ?thesis
    using env inv msg st release block
    by (cases "lc_state a")
      (auto simp: handle_automatic_block_def wp_bindE wp_seqE wp_if wp_reads wp_set_auto wp_case_prod
        wp_snapshot_on_gate [OF env own] Let_def life_inv_def intro!: wp_answer)
qed

lemma handle_preflight_complete_inv:
  assumes env: "clock_ok env" and inv: "life_inv a" and res: "preflight_result_ok res"
  shows "wp (handle_preflight_complete env gen res why) (handled a) (\<lambda>_ _. False) a"
proof (cases "lc_state a = STARTING \<and> active_generation (lc_gate a) = Some gen \<and> ready res")
  case False
  have "wp (enter_fault env fc CRITICAL_FAULT True) (handled a) (\<lambda>_ _. False) a" for fc
    using inv by (intro wp_enter_fault [OF env life_inv_trail [OF inv]] faulted_handled)
      (auto simp: life_inv_def)
  with False env inv show ?thesis
    by (auto simp: handle_preflight_complete_def wp_bindE wp_if
        wp_snapshot_on_gate [OF env life_inv_owns [OF inv]] intro!: wp_answer)
next
  case True
  note own = life_inv_owns [OF inv]
  let ?p = "or_else (start_paused_reason res) (automatic_pause_reason a)"
  have "wp (on_gate env (\<lambda>tid now. mark_recording tid now gen why))
      (\<lambda>tr. wp (audited env tr (result env True True ''recording'' None)) (handled a) (\<lambda>_ _. False))
      (\<lambda>_ _. False) a" if "automatic_pause_reason a = None"
    using env inv that True
    by (intro wp_gate_ops(2) [OF env own] wp_transition_audited [where st = RECORDING])
      (auto simp: allowed_simps life_inv_def kept_def intro!: wp_answer_reached)
  moreover have "wp (on_gate env (\<lambda>tid now. invalidate_and_pause tid now p))
      (\<lambda>(old, tr). wp (seqE (set_automatic_pause_reason (Some p)) (audited env tr
        (bindE (drain_generation env old) (\<lambda>fc. case fc of
           Some c \<Rightarrow> enter_fault env c CRITICAL_FAULT False
         | None \<Rightarrow> result env True True ''session_safety_paused'' None))))
        (handled a) (\<lambda>_ _. False)) (\<lambda>_ _. False) a"
    if "p \<in> {SESSION_LOCKED, IDLE}" for p
    using pause_and_drain [OF env inv _ that, where c = a and
        f = "\<lambda>b. b\<lparr>automatic_pause_reason := Some p\<rparr>"] True
    by (simp add: case_prod_beta wp_seqE wp_set_auto)
  moreover have "?p = None \<and> automatic_pause_reason a = None \<or> ?p \<in> {Some SESSION_LOCKED, Some IDLE}"
    using res inv by (auto simp: or_else_def preflight_result_ok_def life_inv_def)
  ultimately show ?thesis
    using True
    by (auto simp: handle_preflight_complete_def wp_bindE wp_if wp_reads wp_case_prod
        wp_snapshot_on_gate [OF env own])
qed

lemma life_inv_trace [simp]:
  "audits t = audits (lc_trace a) \<Longrightarrow> life_inv (a\<lparr>lc_trace := t\<rparr>) = life_inv a"
  by (simp add: life_inv_def trail_ok_def)

text \<open>The only exception a handler can let through.\<close>

definition preflight_dead :: "exn \<Rightarrow> lifecycle \<Rightarrow> bool" where
  "preflight_dead e b \<longleftrightarrow> e = ActorError ''actor dead'' \<and> life_inv b \<and> lc_state b = STARTING"

lemma fault_handled:
  assumes env: "clock_ok env" and b: "life_inv b" and thread: "lc_thread b = lc_thread a"
  shows "wp (enter_fault env fc why drain) (handled a) E b"
proof (rule wp_enter_fault [OF env life_inv_trail [OF b]])
  fix r :: command_result and c
  assume "faulted_from b c" "sn_state (result_snapshot r) = FAULTED"
  then have "handled b r c" using b by (intro faulted_handled) (auto simp: life_inv_def)
  then show "handled a r c" using thread by (simp add: handled_def)
qed

lemma launch_preflight_inv:
  assumes "clock_ok env" and "life_inv b" and "lc_thread b = lc_thread a" and "lc_state b = STARTING"
  shows "wp (launch_preflight env conf why gen) (handled a) preflight_dead b"
  using assms
  by (auto simp: launch_preflight_def wp_bindE wp_reads wp_if wp_ret wp_raise wp_call_port
      preflight_dead_def intro!: wp_answer fault_handled)

lemma handle_start_inv:
  assumes env: "clock_ok env" and inv: "life_inv a"
  shows "wp (handle_start env why) (handled a) preflight_dead a"
proof -
  note own = life_inv_owns [OF inv]
  have start: "wp (on_gate env (\<lambda>tid now. begin_start tid now why (revision conf)))
      (\<lambda>(gen, tr). wp (audited env tr (launch_preflight env conf why gen)) (handled a) preflight_dead)
      preflight_dead (a\<lparr>lc_trace := (ConfigurationSnapshot, True) # lc_trace a\<rparr>)"
    if "lc_state a = OFF" for conf
  proof -
    let ?b = "a\<lparr>lc_trace := (ConfigurationSnapshot, True) # lc_trace a\<rparr>"
    have b: "life_inv ?b" "lc_state ?b = OFF" using inv that by simp_all
    have "handled a = handled ?b" by (intro ext) (simp add: handled_def)
    then show ?thesis
      by (simp only:)
        (intro wp_gate_ops(1) [OF env life_inv_owns [OF b(1)] b(2)], unfold prod.case,
         intro wp_transition_audited [where st = STARTING] launch_preflight_inv,
         use env b in \<open>auto simp: allowed_simps kept_def life_inv_def intro!: life_invI\<close>)
  qed
  show ?thesis
    using start env inv
    by (auto simp: handle_start_def wp_bindE wp_if wp_reads wp_seqE wp_modifies wp_case_option
        wp_case_prod wp_snapshot_on_gate [OF env own] intro!: wp_answer fault_handled
        split: option.split)
qed

text \<open>Stopping reaches off or faulted whatever the ports do.\<close>

definition stopped :: "lifecycle \<Rightarrow> command_result \<Rightarrow> lifecycle \<Rightarrow> bool" where
  "stopped a r b \<longleftrightarrow> handled a r b \<and> lc_state b \<in> {OFF, FAULTED}"

lemma stopped_faulted:
  "faulted_from c b \<Longrightarrow> automatic_pause_reason c \<in> {None, Some SESSION_LOCKED, Some IDLE} \<Longrightarrow>
    lc_thread c = lc_thread a \<Longrightarrow> sn_state (result_snapshot r) = FAULTED \<Longrightarrow> stopped a r b"
  using faulted_handled [of c b r] by (simp add: stopped_def handled_def faulted_from_def)

lemma finish_and_answer:
  assumes env: "clock_ok env" and trail: "trail_ok b" and st: "lc_state b \<in> {STOPPING, FAULTED}"
    and b: "lc_thread b = lc_thread a"
      "automatic_pause_reason b \<in> {None, Some SESSION_LOCKED, Some IDLE}"
  shows "wp (bindE (on_gate env (\<lambda>tid now. finish_off tid now why)) (\<lambda>tr.
      audited env tr (result env True True ''off'' None))) (stopped a) (\<lambda>_ _. False) b"
  unfolding wp_bindE
proof (rule wp_gate_ops(7) [OF env _ st])
  show "owns_gate b" using trail by (simp add: trail_ok_def)
  fix tr h
  assume m: "moved (lc_gate b) OFF why (port_now env (lc_trace b)) 0 tr h"
  show "wp (audited env tr (result env True True ''off'' None)) (stopped a) (\<lambda>_ _. False)
      (b\<lparr>lc_gate := h\<rparr>)"
  proof (rule wp_audited [OF env pending_moved [OF trail m]])
    show "allowed (lc_state b) OFF" using st by (auto simp: allowed_simps)
    show "wp (result env True True ''off'' None) (stopped a) (\<lambda>_ _. False) c"
      if "trail_ok c" "kept (b\<lparr>lc_gate := h\<rparr>) c" "lc_gate c = lc_gate (b\<lparr>lc_gate := h\<rparr>)"
        "last_accepted (audits (lc_trace c))" for c
      using that b m env
      by (auto simp: wp_result trail_ok_def stopped_def handled_def life_inv_def kept_def moved_def)
    show "stopped a r c"
      if "faulted_from (b\<lparr>lc_gate := h\<rparr>) c" "sn_state (result_snapshot r) = FAULTED" for r c
      by (rule stopped_faulted [OF that(1) _ _ that(2)]) (use b in simp_all)
  qed
qed

lemma drain_and_finish:
  assumes env: "clock_ok env" and trail: "trail_ok b" and st: "lc_state b = STOPPING"
    and b: "lc_thread b = lc_thread a"
      "automatic_pause_reason b \<in> {None, Some SESSION_LOCKED, Some IDLE}"
  shows "wp (bindE (drain_generation env gen) (\<lambda>fc. case fc of
      Some c \<Rightarrow> enter_fault env c CRITICAL_FAULT False
    | None \<Rightarrow> bindE (on_gate env (\<lambda>tid now. finish_off tid now why)) (\<lambda>tr.
        audited env tr (result env True True ''off'' None)))) (stopped a) (\<lambda>_ _. False) b"
  unfolding wp_bindE [of "drain_generation env gen"]
proof (rule wp_drain)
  show "owns_gate b" using trail by (simp add: trail_ok_def)
  fix fc c
  assume "quiet b c"
  then have c: "trail_ok c" "lc_state c \<in> {STOPPING, FAULTED}" "lc_thread c = lc_thread a"
    "automatic_pause_reason c \<in> {None, Some SESSION_LOCKED, Some IDLE}"
    using b st quiet_trail [OF \<open>quiet b c\<close> trail] by (auto simp: quiet_def kept_def)
  have "wp (enter_fault env f CRITICAL_FAULT False) (stopped a) (\<lambda>_ _. False) c" for f
    using c by (intro wp_enter_fault [OF env]) (auto intro!: stopped_faulted)
  then show "wp (case fc of Some c \<Rightarrow> enter_fault env c CRITICAL_FAULT False
    | None \<Rightarrow> bindE (on_gate env (\<lambda>tid now. finish_off tid now why)) (\<lambda>tr.
        audited env tr (result env True True ''off'' None))) (stopped a) (\<lambda>_ _. False) c"
    using finish_and_answer [OF env c(1,2,3,4)] by (simp split: option.split)
qed

lemma stop_active:
  assumes env: "clock_ok env" and trail: "trail_ok c" and st: "lc_state c \<in> active_states"
    and c: "lc_thread c = lc_thread a"
      "automatic_pause_reason c \<in> {None, Some SESSION_LOCKED, Some IDLE}"
    and k: "\<And>gen b. trail_ok b \<Longrightarrow> lc_state b = STOPPING \<Longrightarrow> kept c b \<Longrightarrow>
      wp (k gen) (stopped a) (\<lambda>_ _. False) b"
  shows "wp (on_gate env (\<lambda>tid now. begin_stopping tid now why))
      (\<lambda>(gen, tr). wp (audited env tr (k gen)) (stopped a) (\<lambda>_ _. False)) (\<lambda>_ _. False) c"
proof (rule wp_gate_ops(6) [OF env _ st], unfold prod.case)
  show "owns_gate c" using trail by (simp add: trail_ok_def)
  fix tr h
  assume m: "moved (lc_gate c) STOPPING why (port_now env (lc_trace c)) 1 tr h"
  have al: "allowed (lc_state c) STOPPING" using st by (auto simp: allowed_simps)
  show "wp (audited env tr (k (active_generation (lc_gate c)))) (stopped a) (\<lambda>_ _. False)
      (c\<lparr>lc_gate := h\<rparr>)"
    by (rule wp_audited [OF env pending_moved [OF trail m al]])
      (use m c in \<open>auto simp: moved_def intro!: k stopped_faulted [of "c\<lparr>lc_gate := h\<rparr>"]\<close>)
qed

lemma handle_stop_inv:
  assumes env: "clock_ok env" and inv: "life_inv a"
  shows "wp (handle_stop env why) (stopped a) (\<lambda>_ _. False) a"
proof -
  let ?a = "a\<lparr>manual_pause := False\<rparr>"
  have own: "owns_gate ?a" and trail: "trail_ok ?a"
    and auto_ok: "automatic_pause_reason ?a \<in> {None, Some SESSION_LOCKED, Some IDLE}"
    using inv by (auto simp: life_inv_def trail_ok_def)
  have stop: "wp (on_gate env (\<lambda>tid now. begin_stopping tid now why))
      (\<lambda>(gen, tr). wp (audited env tr (bindE (drain_generation env gen) (\<lambda>fc. case fc of
           Some c \<Rightarrow> enter_fault env c CRITICAL_FAULT False
         | None \<Rightarrow> bindE (on_gate env (\<lambda>tid now. finish_off tid now why)) (\<lambda>tr.
             audited env tr (result env True True ''off'' None)))))
        (stopped a) (\<lambda>_ _. False)) (\<lambda>_ _. False) ?a"
    if "lc_state a \<in> active_states"
    using that auto_ok
    by (intro stop_active [OF env trail] drain_and_finish [OF env]) (auto simp: kept_def)
  have finish: "wp (bindE (on_gate env (\<lambda>tid now. finish_off tid now why)) (\<lambda>tr.
      audited env tr (result env True True ''off'' None))) (stopped a) (\<lambda>_ _. False)
      (?a\<lparr>lc_trace := (ClearVolatileBuffers None, True) # lc_trace a\<rparr>)"
    if "lc_state a = FAULTED"
    using that trail auto_ok by (intro finish_and_answer [OF env]) (auto simp: trail_ok_def)
  have "lc_state a \<in> {OFF, FAULTED} \<union> active_states"
    using inv own by (cases "lc_state a") (auto simp: life_inv_def owns_gate_def gate_inv_def)
  then show ?thesis
    using stop finish inv own trail
    by (auto simp: handle_stop_def wp_bindE wp_seqE wp_if wp_set_manual wp_case_prod wp_call_port
        clear_buffers_def wp_ret wp_snapshot_on_gate [OF env own] wp_result [OF env] stopped_def
        handled_def trail_ok_def life_inv_def)
qed

lemma handle_fault_inv:
  assumes env: "clock_ok env" and inv: "life_inv a"
  shows "wp (handle_fault env fc why) (handled a) (\<lambda>_ _. False) a"
  using env inv
  by (auto simp: handle_fault_def wp_bindE wp_if wp_snapshot_on_gate [OF env life_inv_owns [OF inv]]
      intro!: wp_answer fault_handled)

section \<open>Messages and reachable states\<close>

text \<open>The reply shows the state reached.\<close>

fun replied :: "lifecycle \<Rightarrow> reply \<Rightarrow> lifecycle \<Rightarrow> bool" where
  "replied a (SnapshotReply sn) b = (b = a \<and> sn_state sn = lc_state a)"
| "replied a (ResultReply r) b = handled a r b"

lemma wp_as_reply:
  "wp m (handled a) E s \<Longrightarrow> wp (as_reply m) (replied a) E s"
  by (simp add: as_reply_def wp_bindE wp_ret)

lemma on_receive_inv:
  assumes env: "clock_ok env" and inv: "life_inv a" and msg: "message_ok m"
  shows "wp (on_receive env m) (replied a) preflight_dead a"
proof -
  have weaken: "wp n (handled a) preflight_dead a" if "wp n (handled a) (\<lambda>_ _. False) a" for n
    using that by (rule wp_mono) auto
  have stop: "wp (handle_stop env why) (handled a) (\<lambda>_ _. False) a" for why
    by (rule wp_mono [OF handle_stop_inv [OF env inv]]) (auto simp: stopped_def)
  have block: "wp (handle_automatic_block env blocked why) (handled a) (\<lambda>_ _. False) a"
    if "m = SetAutomaticCaptureBlock blocked why" for blocked why
    using handle_automatic_block_inv [OF env inv, of blocked why] msg that by simp
  show ?thesis
    using msg inv env
    by (cases m)
      (auto simp: wp_bindE wp_ret wp_snapshot_on_gate [OF env life_inv_owns [OF inv]]
        intro!: wp_as_reply fault_handled handle_start_inv
        intro: weaken stop handle_pause_inv handle_resume_inv block [THEN weaken]
          handle_fault_inv handle_preflight_complete_inv)
qed

text \<open>Starting the actor establishes the invariant; ending it leaves a gate that is off or faulted.\<close>

lemma life_inv_bound:
  "audits t = [] \<Longrightarrow> life_inv \<lparr>lc_gate = new_gate\<lparr>owner_thread_id := Some tid\<rparr>, lc_thread = tid,
     preflight_ref = p, manual_pause = False, automatic_pause_reason = None, lc_trace = t\<rparr>"
  using gate_inv_new
  by (simp add: life_inv_def trail_ok_def owns_gate_def gate_inv_defs new_gate_def)

definition aborted :: "exn \<Rightarrow> lifecycle \<Rightarrow> bool" where
  "aborted e b \<longleftrightarrow> gate_inv (lc_gate b) \<and> lc_state b \<in> {OFF, STARTING}"

lemma aborted_start: "preflight_dead e b \<Longrightarrow> aborted e b"
  by (auto simp: preflight_dead_def aborted_def owns_gate_def dest: life_inv_owns)

lemma on_start_inv:
  assumes env: "clock_ok env"
  shows "wp (on_start env) (\<lambda>_ b. life_inv b) aborted (new_lifecycle tid)"
proof -
  let ?b = "\<lambda>t. \<lparr>lc_gate = new_gate\<lparr>owner_thread_id := Some tid\<rparr>, lc_thread = tid,
     preflight_ref = True, manual_pause = False, automatic_pause_reason = None, lc_trace = t\<rparr>"
  have inv: "life_inv (?b t)" if "audits t = []" for t using that by (rule life_inv_bound)
  have start: "wp (handle_start env r) (\<lambda>_ b. life_inv b) aborted (?b t)" if "audits t = []" for r t
    by (rule wp_mono [OF handle_start_inv [OF env inv [OF that]]])
      (auto simp: handled_def aborted_start)
  have fault: "wp (enter_fault env c r d) (\<lambda>_ b. life_inv b) aborted (?b t)"
    if "audits t = []" for c r d t
    by (rule wp_mono [OF fault_handled [OF env inv [OF that] refl]]) (auto simp: handled_def)
  have new: "owner_thread_id new_gate = None" "state new_gate = OFF"
    "gate_inv (new_gate\<lparr>owner_thread_id := Some tid\<rparr>)"
    using gate_inv_new by (simp_all add: new_gate_def gate_inv_defs)
  show ?thesis
    using start fault inv
    by (simp add: on_start_def bind_owner_def wp_rules new_lifecycle_def new aborted_def
        split: option.split)
qed

lemma cleanup_state:
  "wp (seqE (stop_preflight_actor env) (on_gate env (\<lambda>tid _. release_owner tid)))
    (\<lambda>_ b. lc_state b = lc_state a \<and> (gate_inv (lc_gate a) \<longrightarrow> gate_inv (lc_gate b)))
    (\<lambda>_ b. lc_state b = lc_state a \<and> (gate_inv (lc_gate a) \<longrightarrow> gate_inv (lc_gate b))) a"
  by (auto simp: stop_preflight_actor_def release_owner_def wp_rules gate_inv_defs)

definition ended :: "lifecycle \<Rightarrow> bool" where
  "ended b \<longleftrightarrow> gate_inv (lc_gate b) \<and> lc_state b \<in> {OFF, FAULTED}"

lemma wp_cleanup:
  "ended a \<Longrightarrow> wp (seqE (stop_preflight_actor env) (on_gate env (\<lambda>tid _. release_owner tid)))
    (\<lambda>_. ended) (\<lambda>_. ended) a"
  by (rule wp_mono [OF cleanup_state]) (auto simp: ended_def)

lemma life_inv_ended: "life_inv b \<Longrightarrow> lc_state b \<in> {OFF, FAULTED} \<Longrightarrow> ended b"
  by (auto simp: ended_def owns_gate_def dest: life_inv_owns)

lemma on_stop_inv:
  assumes env: "clock_ok env" and inv: "life_inv a"
  shows "wp (on_stop env) (\<lambda>_. ended) (\<lambda>_. ended) a"
proof -
  have "wp (handle_stop env SHUTDOWN) (\<lambda>r b. sn_state (result_snapshot r) \<in> {OFF, FAULTED} \<and> ended b)
      (\<lambda>_ _. False) a"
    by (rule wp_mono [OF handle_stop_inv [OF env inv]])
      (auto simp: stopped_def handled_def intro: life_inv_ended)
  then have "wp (handle_stop env SHUTDOWN) (\<lambda>r. wp
      (if sn_state (result_snapshot r) \<notin> {OFF, FAULTED}
       then bindE (enter_fault env SHUTDOWN_FAILURE CRITICAL_FAULT True) (\<lambda>_. ret ()) else ret ())
      (\<lambda>_. ended) (\<lambda>_. ended)) (\<lambda>_. ended) a"
    by (rule wp_mono) (auto simp: wp_ret)
  then have "wp (bindE (on_gate env (\<lambda>_. snapshot)) (\<lambda>current.
      if sn_state current = OFF then ret ()
      else bindE (handle_stop env SHUTDOWN) (\<lambda>r.
        if sn_state (result_snapshot r) \<notin> {OFF, FAULTED}
        then bindE (enter_fault env SHUTDOWN_FAILURE CRITICAL_FAULT True) (\<lambda>_. ret ())
        else ret ()))) (\<lambda>_. ended) (\<lambda>_. ended) a"
    using inv by (simp add: wp_bindE wp_snapshot_on_gate [OF env life_inv_owns [OF inv]] wp_ret
        life_inv_ended)
  then show ?thesis
    unfolding on_stop_def wp_finallyE by (rule wp_mono) (rule wp_cleanup, assumption)+
qed

lemma on_failure_inv:
  assumes env: "clock_ok env" and inv: "life_inv a"
  shows "wp (on_failure env) (\<lambda>_. ended) (\<lambda>_. ended) a"
  unfolding on_failure_def wp_bindE [of "enter_fault env ACTOR_FAILURE CRITICAL_FAULT True"]
  by (rule wp_mono [OF enter_fault_spec [OF env life_inv_trail [OF inv]]])
    (auto simp: faulted_from_def trail_ok_def owns_gate_def ended_def intro!: wp_cleanup)

section \<open>The actor as a state machine\<close>

text \<open>
  The actor library calls \<open>on_start\<close> once, then handles one message at a time; an exception out of
  a handler goes back to a caller that waits for the answer, and otherwise ends the actor through
  \<open>on_failure\<close>. Between two messages workers may take and give back permits of the gate.
\<close>

datatype actor_sys = Created | Running lifecycle | Aborted lifecycle | Ended lifecycle

inductive actor_step :: "actor_sys \<Rightarrow> actor_sys \<Rightarrow> bool" where
  boot: "clock_ok env \<Longrightarrow> on_start env (new_lifecycle tid) = (Inr (), a) \<Longrightarrow>
    actor_step Created (Running a)"
| boot_raised: "clock_ok env \<Longrightarrow> on_start env (new_lifecycle tid) = (Inl e, a) \<Longrightarrow>
    actor_step Created (Aborted a)"
| receive: "clock_ok env \<Longrightarrow> message_ok m \<Longrightarrow> on_receive env m a = (Inr r, b) \<Longrightarrow>
    actor_step (Running a) (Running b)"
| receive_raised: "clock_ok env \<Longrightarrow> message_ok m \<Longrightarrow> on_receive env m a = (Inl e, b) \<Longrightarrow>
    actor_step (Running a) (Running b)"
| receive_failed: "clock_ok env \<Longrightarrow> message_ok m \<Longrightarrow> on_receive env m a = (Inl e, b) \<Longrightarrow>
    on_failure env b = (r, c) \<Longrightarrow> actor_step (Running a) (Ended c)"
| shutdown: "clock_ok env \<Longrightarrow> on_stop env a = (r, b) \<Longrightarrow> actor_step (Running a) (Ended b)"
| worker_capture: "acquire_capture_operation (lc_gate a) = (Inr p, g) \<Longrightarrow>
    actor_step (Running a) (Running (a\<lparr>lc_gate := g\<rparr>))"
| worker_preflight: "acquire_preflight_operation gen (lc_gate a) = (Inr p, g) \<Longrightarrow>
    actor_step (Running a) (Running (a\<lparr>lc_gate := g\<rparr>))"
| worker_persist: "acquire_persistence_operation gen (lc_gate a) = (Inr p, g) \<Longrightarrow>
    actor_step (Running a) (Running (a\<lparr>lc_gate := g\<rparr>))"
| worker_done: "actor_step (Running a) (Running (a\<lparr>lc_gate := released gen (lc_gate a)\<rparr>))"

fun actor_inv :: "actor_sys \<Rightarrow> bool" where
  "actor_inv Created = True"
| "actor_inv (Running a) = life_inv a"
| "actor_inv (Aborted a) = (gate_inv (lc_gate a) \<and> lc_state a \<in> {OFF, STARTING})"
| "actor_inv (Ended a) = ended a"

lemma life_inv_worker [simp]:
  "life_inv (a\<lparr>lc_gate := (lc_gate a)\<lparr>in_flight := d\<rparr>\<rparr>) = life_inv a"
  by (simp add: life_inv_def trail_ok_def owns_gate_def)

lemma life_inv_done: "life_inv a \<Longrightarrow> life_inv (a\<lparr>lc_gate := released gen (lc_gate a)\<rparr>)"
  by (simp add: life_inv_def trail_ok_def owns_gate_def gate_inv_released)

lemma on_receive_exits:
  assumes "clock_ok env" "life_inv a" "message_ok m" "on_receive env m a = (r, b)"
  shows "life_inv b"
proof -
  have "wp (on_receive env m) (\<lambda>_. life_inv) (\<lambda>_. life_inv) a"
  proof (rule wp_mono [OF on_receive_inv [OF assms(1-3)]])
    show "life_inv c" if "replied a x c" for x c
      using that assms(2) by (cases x) (auto simp: handled_def)
  qed (simp add: preflight_dead_def)
  then show ?thesis using assms(4) by (simp add: wp_any_exit)
qed

lemma actor_step_inv: "actor_step s t \<Longrightarrow> actor_inv s \<Longrightarrow> actor_inv t"
proof (induction rule: actor_step.induct)
  case (boot env tid a)
  then show ?case using wp_returned [OF _ on_start_inv] by fastforce
next
  case (boot_raised env tid e a)
  then show ?case using wp_raised [OF _ on_start_inv] by (fastforce simp: aborted_def)
next
  case (receive_failed env m a e b r c)
  then have "life_inv b" by (auto intro: on_receive_exits)
  with receive_failed show ?case using on_failure_inv [of env b] by (simp add: wp_any_exit)
next
  case (shutdown env a r b)
  then show ?case using on_stop_inv [of env a] by (simp add: wp_any_exit)
next
  case (worker_capture a p g)
  then show ?case using wp_returned [OF _ acquire_capture_spec] by fastforce
next
  case (worker_preflight gen a p g)
  then show ?case using wp_returned [OF _ acquire_preflight_spec] by fastforce
next
  case (worker_persist gen a p g)
  then show ?case using wp_returned [OF _ acquire_persistence_spec] by fastforce
qed (auto intro: on_receive_exits life_inv_done)

interpretation actor: invariant_system actor_step Created actor_inv
  by unfold_locales (auto intro: actor_step_inv)


section \<open>A concrete actor\<close>

text \<open>
  An environment in which every port answers: used to run the actor in the witnesses, and as the
  base of environments in which one port fails.
\<close>

definition calm_env :: lifecycle_env where
  "calm_env = \<lparr>port_now = (\<lambda>_. Aware 0), port_monotonic_ns = (\<lambda>_. 1), port_remaining = (\<lambda>_. 5),
     port_wakeups = (\<lambda>_. []),
     port_configuration = (\<lambda>_. Some \<lparr>capture_permitted = True, revision = ''r1''\<rparr>),
     port_returns = (\<lambda>_ _. True), preflight_timeout_ns = 10\<rparr>"

definition idle_env :: lifecycle_env where
  "idle_env = calm_env\<lparr>port_configuration := (\<lambda>_. Some \<lparr>capture_permitted = False, revision = ''r1''\<rparr>)\<rparr>"

definition deaf_env :: lifecycle_env where
  "deaf_env = calm_env\<lparr>port_returns := (\<lambda>_ c. case c of EmitAudit _ \<Rightarrow> False | _ \<Rightarrow> True)\<rparr>"

lemma clock_ok_envs: "clock_ok calm_env" "clock_ok idle_env" "clock_ok deaf_env"
  by (simp_all add: clock_ok_def calm_env_def idle_env_def deaf_env_def)

lemmas env_defs = calm_env_def idle_env_def deaf_env_def

definition idle_actor :: lifecycle where
  "idle_actor = snd (on_start idle_env (new_lifecycle 7))"

definition after :: "lifecycle_env \<Rightarrow> lifecycle_message \<Rightarrow> lifecycle \<Rightarrow> lifecycle" where
  "after env m a = snd (on_receive env m a)"

lemmas actor_eval = comp_defs on_start_def new_lifecycle_def new_gate_def bind_owner_def on_gate_def
  call_port_def snapshot_def mk_CaptureStateSnapshot_def

lemma idle_actor_eq:
  "idle_actor = \<lparr>lc_gate = new_gate\<lparr>owner_thread_id := Some 7\<rparr>, lc_thread = 7, preflight_ref = True,
     manual_pause = False, automatic_pause_reason = None,
     lc_trace = [(ConfigurationSnapshot, True), (StartPreflightActor, True)]\<rparr>"
  by (simp add: idle_actor_def actor_eval env_defs)

lemma idle_actor_reachable: "run actor_step Created (Running idle_actor)"
proof (rule run_one, rule actor_step.boot [OF clock_ok_envs(2)])
  show "on_start idle_env (new_lifecycle 7) = (Inr (), idle_actor)"
    by (simp add: idle_actor_def actor_eval env_defs)
qed

lemma after_reachable:
  assumes "clock_ok env" and "message_ok m" and "run actor_step Created (Running a)"
  shows "run actor_step Created (Running (after env m a))"
  using assms unfolding after_def
  by (cases "on_receive env m a"; cases "fst (on_receive env m a)")
    (auto intro: run_step actor_step.receive actor_step.receive_raised)


definition recording_actor :: lifecycle where
  "recording_actor = after calm_env
     (CompleteLifecyclePreflight (CaptureGeneration 1) (preflight_success None) USER_START)
     (after calm_env (StartCapture USER_START) idle_actor)"

definition locked_actor :: lifecycle where
  "locked_actor = after calm_env (SetAutomaticCaptureBlock True SESSION_LOCKED) recording_actor"

lemmas handler_eval = comp_defs after_def as_reply_def on_gate_def call_port_def snapshot_def
  mk_CaptureStateSnapshot_def handle_start_def handle_preflight_complete_def handle_pause_def
  handle_resume_def handle_automatic_block_def handle_stop_def handle_fault_def result_def
  audited_def emit_transition_def emit_audit_def launch_preflight_def drain_generation_def
  clear_buffers_def enter_fault_def wait_for_operations_def set_manual_pause_def
  set_automatic_pause_reason_def or_else_def preflight_success_def
  begin_start_def mark_recording_def pause_def resume_def invalidate_and_pause_def
  begin_stopping_def finish_off_def fault_def assert_owner_def next_generation_locked_def
  mk_CaptureGeneration_def new_event_def transition_locked_def mk_CaptureStateTransition_def
  require_active_locked_def require_generation_locked_def cancel_active_locked_def event_set_def
  current_epoch_generation_locked_def drop_stale_events_def allowed_def get0_def new_gate_def Let_def

lemma recording_actor_state: "lc_state recording_actor = RECORDING"
  by (simp add: recording_actor_def idle_actor_eq env_defs handler_eval)

lemma locked_actor_state:
  "lc_state locked_actor = PAUSED" "automatic_pause_reason locked_actor = Some SESSION_LOCKED"
  by (simp_all add: locked_actor_def recording_actor_def idle_actor_eq env_defs handler_eval)

lemma recording_actor_reachable: "run actor_step Created (Running recording_actor)"
  unfolding recording_actor_def
  by (intro after_reachable idle_actor_reachable clock_ok_envs)
    (simp_all add: preflight_success_def preflight_result_ok_def)

lemma locked_actor_reachable: "run actor_step Created (Running locked_actor)"
  unfolding locked_actor_def
  by (intro after_reachable recording_actor_reachable clock_ok_envs) simp

section \<open>Properties\<close>

lemma reachable_life_inv: "run actor_step Created (Running a) \<Longrightarrow> life_inv a"
  using actor.inv_reachable by fastforce

lemma capture_closed:
  "state g \<noteq> RECORDING \<Longrightarrow> \<exists>msg. acquire_capture_operation g = (Inl (CaptureGateClosed msg), g)"
  by (simp add: acquire_capture_operation_def require_generation_locked_def comp_defs)

text \<open>
  C4. The session-safety latch. In every state the actor can reach, for every behaviour of its
  ports and every interleaving with workers, an automatic block that has not been released keeps
  the gate out of the recording state, and a worker that asks for a capture permit is refused.
\<close>

theorem safety_block_excludes_capture:
  assumes "run actor_step Created (Running a)" and "automatic_pause_reason a \<noteq> None"
  shows "lc_state a \<noteq> RECORDING \<and>
    (\<exists>msg. acquire_capture_operation (lc_gate a) = (Inl (CaptureGateClosed msg), lc_gate a))"
  using reachable_life_inv [OF assms(1)] assms(2)
  by (intro conjI capture_closed) (simp_all add: life_inv_def)

theorem safety_block_excludes_capture_witness:
  "run actor_step Created (Running locked_actor) \<and> automatic_pause_reason locked_actor \<noteq> None \<and>
    lc_state locked_actor \<noteq> RECORDING \<and>
    (\<exists>msg. acquire_capture_operation (lc_gate locked_actor) =
       (Inl (CaptureGateClosed msg), lc_gate locked_actor))"
  using safety_block_excludes_capture [OF locked_actor_reachable] locked_actor_state
    locked_actor_reachable by simp

text \<open>
  C5. The audit trail accounts for every state change. The events the actor has handed to its
  audit sink, in order, form a path of allowed transitions from off to the present state; and
  unless the actor has faulted, the sink accepted the newest of them, so that no unaudited
  transition is ever followed by anything but a fault.
\<close>

theorem audit_trail_accounts_for_state:
  assumes "run actor_step Created (Running a)"
  shows "audit_chain (audits (lc_trace a)) (lc_state a) \<and>
    (lc_state a \<noteq> FAULTED \<longrightarrow> last_accepted (audits (lc_trace a)))"
  using reachable_life_inv [OF assms] by (simp add: life_inv_def trail_ok_def)

theorem audit_trail_accounts_for_state_witness:
  "audit_chain (audits (lc_trace locked_actor)) PAUSED \<and>
    last_accepted (audits (lc_trace locked_actor)) \<and> length (audits (lc_trace locked_actor)) = 3"
proof -
  have "length (audits (lc_trace locked_actor)) = 3"
    by (simp add: locked_actor_def recording_actor_def idle_actor_eq env_defs handler_eval)
  then show ?thesis
    using audit_trail_accounts_for_state [OF locked_actor_reachable] locked_actor_state by simp
qed

text \<open>
  C6. Stopping always succeeds or fails closed. From every reachable state and whatever the ports
  do, a stop command is answered, the gate is off or faulted afterwards, no generation is active,
  and the answer reports the state reached.
\<close>

theorem stop_always_ends_closed:
  assumes "run actor_step Created (Running a)" and "clock_ok env"
  shows "\<exists>r b. on_receive env (StopCapture why) a = (Inr (ResultReply r), b) \<and>
    lc_state b \<in> {OFF, FAULTED} \<and> active_generation (lc_gate b) = None \<and>
    sn_state (result_snapshot r) = lc_state b"
proof -
  obtain r b where "handle_stop env why a = (Inr r, b)" "stopped a r b"
    using handle_stop_inv [OF assms(2) reachable_life_inv [OF assms(1)], of why]
    by (auto simp: wp_total)
  moreover from this have "gate_inv (lc_gate b)"
    by (auto simp: stopped_def handled_def owns_gate_def dest: life_inv_owns)
  ultimately show ?thesis
    by (auto simp: as_reply_def bindE_def ret_def stopped_def handled_def intro: gate_inv_inactive)
qed

theorem stop_always_ends_closed_witness:
  "\<exists>r b. on_receive deaf_env (StopCapture USER_STOP) recording_actor = (Inr (ResultReply r), b) \<and>
    lc_state b \<in> {OFF, FAULTED} \<and> active_generation (lc_gate b) = None \<and>
    sn_state (result_snapshot r) = lc_state b"
  by (rule stop_always_ends_closed [OF recording_actor_reachable clock_ok_envs(3)])

text \<open>
  C7. Every message is answered. In a reachable state a handler returns, except that a start
  raises when the preflight actor dies between the liveness test and the tell; even then the gate
  is left in the starting state, in which nothing can be captured. A command's answer reports the
  state reached, and one that reports an audit failure leaves the actor faulted.
\<close>

theorem messages_are_answered:
  assumes "run actor_step Created (Running a)" and "clock_ok env" and "message_ok m"
  shows "(\<exists>r b. on_receive env m a = (Inr r, b) \<and>
      (case r of SnapshotReply sn \<Rightarrow> b = a \<and> sn_state sn = lc_state a
       | ResultReply c \<Rightarrow> sn_state (result_snapshot c) = lc_state b \<and>
           (reason_code c = ''audit_failure'' \<longrightarrow> lc_state b = FAULTED))) \<or>
    (\<exists>b. on_receive env m a = (Inl (ActorError ''actor dead''), b) \<and> lc_state b = STARTING)"
proof -
  have "wp (on_receive env m) (replied a) preflight_dead a"
    using assms by (intro on_receive_inv reachable_life_inv)
  then show ?thesis
    by (cases "on_receive env m a"; cases "fst (on_receive env m a)")
      (auto simp: wp_def preflight_dead_def handled_def split: reply.split)
qed

theorem messages_are_answered_witness:
  "(\<exists>r b. on_receive deaf_env (PauseCapture USER_PAUSE) recording_actor = (Inr r, b) \<and>
      (case r of SnapshotReply sn \<Rightarrow> b = recording_actor \<and> sn_state sn = lc_state recording_actor
       | ResultReply c \<Rightarrow> sn_state (result_snapshot c) = lc_state b \<and>
           (reason_code c = ''audit_failure'' \<longrightarrow> lc_state b = FAULTED))) \<or>
    (\<exists>b. on_receive deaf_env (PauseCapture USER_PAUSE) recording_actor =
       (Inl (ActorError ''actor dead''), b) \<and> lc_state b = STARTING)"
  by (rule messages_are_answered [OF recording_actor_reachable clock_ok_envs(3)]) simp


text \<open>
  The end of the actor closes the gate. Whether it is shut down or fails, with or without a
  preflight actor that can be stopped, the gate it leaves behind is off or faulted; an actor whose
  start raised leaves it off or starting. No capture permit can be obtained from either.
\<close>

theorem ended_actor_leaves_gate_closed:
  assumes "run actor_step Created s" and "s = Ended a \<or> s = Aborted a"
  shows "lc_state a \<in> (if s = Ended a then {OFF, FAULTED} else {OFF, STARTING}) \<and>
    (\<exists>msg. acquire_capture_operation (lc_gate a) = (Inl (CaptureGateClosed msg), lc_gate a))"
  using actor.inv_reachable [OF assms(1)] assms(2)
  by (auto simp: ended_def intro: capture_closed)

theorem ended_actor_leaves_gate_closed_witness:
  "lc_state (snd (on_stop deaf_env locked_actor)) \<in> {OFF, FAULTED}"
proof -
  let ?b = "snd (on_stop deaf_env locked_actor)"
  have "actor_step (Running locked_actor) (Ended ?b)"
    by (rule actor_step.shutdown [OF clock_ok_envs(3)]) (rule prod.collapse [symmetric])
  with locked_actor_reachable have "run actor_step Created (Ended ?b)" by (rule run_step)
  from ended_actor_leaves_gate_closed [OF this, of ?b] show ?thesis by simp
qed

text \<open>
  Releasing the session-safety block does not undo the user's pause. When the block that is in
  force is released by its matching signal while the user's own pause is set, or while the gate is
  not paused, the only change is that the block is cleared; a release by the other signal is
  refused and changes nothing.
\<close>

theorem release_respects_manual_pause:
  assumes "run actor_step Created (Running a)" and "clock_ok env"
    and "automatic_pause_reason a = Some block" and "manual_pause a \<or> lc_state a \<noteq> PAUSED"
    and "why \<in> {SESSION_UNLOCKED, ACTIVE}"
  shows "\<exists>r. on_receive env (SetAutomaticCaptureBlock False why) a = (Inr (ResultReply r),
      if (why = SESSION_UNLOCKED) = (block = SESSION_LOCKED)
      then a\<lparr>automatic_pause_reason := None\<rparr> else a) \<and>
    accepted r = ((why = SESSION_UNLOCKED) = (block = SESSION_LOCKED)) \<and> \<not> changed r"
proof -
  have own: "owns_gate a" using reachable_life_inv [OF assms(1)] by (rule life_inv_owns)
  have "wp (handle_automatic_block env False why) (\<lambda>r b.
      b = (if (why = SESSION_UNLOCKED) = (block = SESSION_LOCKED)
        then a\<lparr>automatic_pause_reason := None\<rparr> else a) \<and>
      accepted r = ((why = SESSION_UNLOCKED) = (block = SESSION_LOCKED)) \<and> \<not> changed r)
      (\<lambda>_ _. False) a"
    using assms(2-) own
    by (auto simp: handle_automatic_block_def handler_rules wp_snapshot_on_gate wp_result Let_def)
  then show ?thesis
    by (auto simp: wp_total as_reply_def bindE_def ret_def)
qed

theorem release_respects_manual_pause_witness:
  "\<exists>r. on_receive calm_env (SetAutomaticCaptureBlock False SESSION_UNLOCKED)
      (after calm_env (PauseCapture USER_PAUSE) locked_actor) = (Inr (ResultReply r),
      (after calm_env (PauseCapture USER_PAUSE) locked_actor)\<lparr>automatic_pause_reason := None\<rparr>) \<and>
    accepted r \<and> \<not> changed r"
proof -
  let ?a = "after calm_env (PauseCapture USER_PAUSE) locked_actor"
  have "run actor_step Created (Running ?a)"
    by (intro after_reachable locked_actor_reachable clock_ok_envs) simp
  moreover have "automatic_pause_reason ?a = Some SESSION_LOCKED" "manual_pause ?a"
    by (simp_all add: locked_actor_def recording_actor_def idle_actor_eq env_defs handler_eval)
  ultimately show ?thesis
    using release_respects_manual_pause [of ?a calm_env SESSION_LOCKED SESSION_UNLOCKED]
      clock_ok_envs by simp
qed

text \<open>
  A late preflight answer has no effect: unless the gate is still starting the very generation
  the preflight was run for, the completion is answered as stale and the actor is unchanged.
\<close>

theorem stale_preflight_is_ignored:
  assumes "run actor_step Created (Running a)" and "clock_ok env"
    and "lc_state a \<noteq> STARTING \<or> active_generation (lc_gate a) \<noteq> Some gen"
  shows "\<exists>r. on_receive env (CompleteLifecyclePreflight gen res why) a = (Inr (ResultReply r), a) \<and>
    \<not> accepted r \<and> reason_code r = ''stale_preflight_ignored''"
proof -
  have own: "owns_gate a" using reachable_life_inv [OF assms(1)] by (rule life_inv_owns)
  have "wp (handle_preflight_complete env gen res why) (\<lambda>r b. b = a \<and> \<not> accepted r \<and>
      reason_code r = ''stale_preflight_ignored'') (\<lambda>_ _. False) a"
    using assms(2,3) own
    by (auto simp: handle_preflight_complete_def wp_bindE wp_if wp_snapshot_on_gate wp_result)
  then show ?thesis
    by (auto simp: wp_total as_reply_def bindE_def ret_def)
qed

theorem stale_preflight_is_ignored_witness:
  "\<exists>r. on_receive calm_env (CompleteLifecyclePreflight (CaptureGeneration 1) (preflight_success None)
      USER_START) locked_actor = (Inr (ResultReply r), locked_actor) \<and>
    \<not> accepted r \<and> reason_code r = ''stale_preflight_ignored''"
  by (rule stale_preflight_is_ignored [OF locked_actor_reachable clock_ok_envs(1)])
    (simp add: locked_actor_state)

end
