(* ===== verification/Pipeline_Framing.thy ===== *)
theory Pipeline_Framing
  imports Lifecycle_Domain Complex_Main "HOL-Library.Word" "HOL-Library.Countable"
begin

text \<open>
  The transport format of the capture pipeline: \<^verbatim>\<open>src/local_recall/pipeline/models.py\<close> (stages,
  limits, stage items) and \<^verbatim>\<open>pipeline/framing.py\<close> (the JSON header, encoding and decoding of
  multipart messages). The JSON library and the validation of the header model belong to other
  packages: they are the fields of a codec record, and \<open>codec_ok\<close> states what the code relies on.
\<close>

section \<open>Stages, limits and items\<close>

type_synonym byte = "8 word"
type_synonym uuid = int

datatype pipeline_stage = RAW | ANALYZED | REDACTED | ENCRYPTED

datatype overload_policy = DROP_NEWEST | COALESCE_LATEST

record pipeline_limits =
  raw_queue_items :: int
  stage_queue_items :: int
  overload_policy :: overload_policy
  max_header_bytes :: int
  max_frames :: int
  max_payload_bytes :: int
  receive_timeout_ms :: int
  send_timeout_ms :: int
  control_timeout_ms :: int

definition default_limits :: pipeline_limits where
  "default_limits = \<lparr>raw_queue_items = 1, stage_queue_items = 32, overload_policy = DROP_NEWEST,
     max_header_bytes = 16 * 1024, max_frames = 8, max_payload_bytes = 64 * 1024 * 1024,
     receive_timeout_ms = 20, send_timeout_ms = 10, control_timeout_ms = 1000\<rparr>"

definition mk_PipelineLimits :: "pipeline_limits \<Rightarrow> exn + pipeline_limits" where
  "mk_PipelineLimits l =
    bindS (ensure (1 \<le> raw_queue_items l \<and> raw_queue_items l \<le> 256)
      (ValueError ''raw_queue_items must be between 1 and 256'')) (\<lambda>_.
    bindS (ensure (1 \<le> stage_queue_items l \<and> stage_queue_items l \<le> 256)
      (ValueError ''stage_queue_items must be between 1 and 256'')) (\<lambda>_.
    bindS (ensure (0 < max_header_bytes l) (ValueError ''max_header_bytes must be positive'')) (\<lambda>_.
    bindS (ensure (0 < max_frames l) (ValueError ''max_frames must be positive'')) (\<lambda>_.
    bindS (ensure (0 < max_payload_bytes l) (ValueError ''max_payload_bytes must be positive'')) (\<lambda>_.
    bindS (ensure (0 < receive_timeout_ms l \<and> 0 \<le> send_timeout_ms l)
      (ValueError ''socket timeouts are invalid'')) (\<lambda>_.
    bindS (ensure (0 < control_timeout_ms l)
      (ValueError ''control_timeout_seconds must be positive'')) (\<lambda>_.
    Inr l)))))))"

text \<open>
  The four item classes differ only in their stage; the payload is the content of their frames
  at the time it is read.
\<close>

record pipeline_item =
  item_stage :: pipeline_stage
  item_record_id :: uuid
  item_generation :: capture_generation
  item_revision :: string
  item_deadline_ns :: int
  item_frames :: "byte list list"

section \<open>Header and codec\<close>

datatype json =
    JNull | JBool bool | JInt int | JNum rat | JStr string | JArr "json list" | JObj "(string \<times> json) list"

record transport_header =
  protocol_version :: int
  hd_record_id :: uuid
  hd_generation :: int
  hd_revision :: string
  hd_stage :: pipeline_stage
  hd_deadline_ns :: int
  frame_count :: int
  frame_sizes :: "int list"

definition PROTOCOL_VERSION :: int where
  "PROTOCOL_VERSION = 1"

text \<open>The field constraints of the header model, checked when it is built or parsed.\<close>

definition header_fields_ok :: "transport_header \<Rightarrow> bool" where
  "header_fields_ok h \<longleftrightarrow> 0 < protocol_version h \<and> 0 < hd_generation h \<and>
    1 \<le> length (hd_revision h) \<and> length (hd_revision h) \<le> 256 \<and> 0 < hd_deadline_ns h \<and>
    1 \<le> frame_count h"

definition mk_TransportHeader :: "transport_header \<Rightarrow> exn + transport_header" where
  "mk_TransportHeader h = bindS (ensure (header_fields_ok h) (ValueError ''ValidationError'')) (\<lambda>_. Inr h)"

record header_codec =
  json_dumps :: "json \<Rightarrow> byte list"
  json_loads :: "byte list \<Rightarrow> json option"
  model_dump :: "transport_header \<Rightarrow> (string \<times> json) list"
  model_validate :: "(string \<times> json) list \<Rightarrow> transport_header option"
  uuid_of :: "json option \<Rightarrow> uuid option"

text \<open>
  What the code relies on: JSON text is read back as the value it was written from, a header
  dumped by the model is validated to the same header, only headers that satisfy the field
  constraints validate, and the dump has the generation under its own key.
\<close>

definition codec_ok :: "header_codec \<Rightarrow> bool" where
  "codec_ok c \<longleftrightarrow>
    (\<forall>j. json_loads c (json_dumps c j) = Some j) \<and>
    (\<forall>h. header_fields_ok h \<longrightarrow> model_validate c (model_dump c h) = Some h) \<and>
    (\<forall>d h. model_validate c d = Some h \<longrightarrow> header_fields_ok h) \<and>
    (\<forall>h. map_of (model_dump c h) ''generation'' = Some (JInt (hd_generation h)))"

definition validate_declared_frames :: "transport_header \<Rightarrow> exn + unit" where
  "validate_declared_frames h =
    bindS (ensure (protocol_version h = PROTOCOL_VERSION)
      (PipelineProtocolError ''unsupported protocol version'')) (\<lambda>_.
    bindS (ensure (frame_count h = int (length (frame_sizes h)))
      (PipelineProtocolError ''declared frame count is inconsistent'')) (\<lambda>_.
    ensure (\<not> (\<exists>size \<in> set (frame_sizes h). size < 0))
      (PipelineProtocolError ''declared frame size is invalid'')))"

definition validate_payload_limits :: "byte list list \<Rightarrow> pipeline_limits \<Rightarrow> exn + unit" where
  "validate_payload_limits frames limits =
    bindS (ensure (frames \<noteq> [])
      (PipelineProtocolError ''pipeline payload requires at least one frame'')) (\<lambda>_.
    bindS (ensure (int (length frames) \<le> max_frames limits)
      (PipelineProtocolError ''pipeline payload has too many frames'')) (\<lambda>_.
    ensure (int (sum_list (map length frames)) \<le> max_payload_bytes limits)
      (PipelineProtocolError ''pipeline payload exceeds configured limit'')))"

definition header_of :: "pipeline_item \<Rightarrow> transport_header" where
  "header_of item = \<lparr>protocol_version = PROTOCOL_VERSION, hd_record_id = item_record_id item,
     hd_generation = gen_value (item_generation item), hd_revision = item_revision item,
     hd_stage = item_stage item, hd_deadline_ns = item_deadline_ns item,
     frame_count = int (length (item_frames item)),
     frame_sizes = map (\<lambda>f. int (length f)) (item_frames item)\<rparr>"

definition encode_item :: "header_codec \<Rightarrow> pipeline_limits \<Rightarrow> pipeline_item \<Rightarrow> exn + byte list list" where
  "encode_item c limits item =
    bindS (validate_payload_limits (item_frames item) limits) (\<lambda>_.
    bindS (mk_TransportHeader (header_of item)) (\<lambda>header.
    let encoded_header = json_dumps c (JObj (model_dump c header)) in
    bindS (ensure (int (length encoded_header) \<le> max_header_bytes limits)
      (PipelineProtocolError ''transport header exceeds configured limit'')) (\<lambda>_.
    Inr (encoded_header # item_frames item))))"

section \<open>Decoding\<close>

definition extract_record_id :: "header_codec \<Rightarrow> (string \<times> json) list \<Rightarrow> uuid option" where
  "extract_record_id c raw_header = uuid_of c (map_of raw_header ''record_id'')"

definition mk_generation :: "int \<Rightarrow> exn + capture_generation" where
  "mk_generation v = bindS (ensure (0 < v) (ValueError ''capture generation must be positive''))
     (\<lambda>_. Inr (CaptureGeneration v))"

definition decode_payload ::
    "pipeline_limits \<Rightarrow> pipeline_stage \<Rightarrow> byte list list \<Rightarrow> transport_header \<Rightarrow> exn + pipeline_item" where
  "decode_payload limits expected_stage payload_frames header =
    bindS (validate_declared_frames header) (\<lambda>_.
    bindS (ensure (hd_stage header = expected_stage)
      (PipelineProtocolError ''message arrived at the wrong stage'')) (\<lambda>_.
    bindS (ensure (frame_count header = int (length payload_frames))
      (PipelineProtocolError ''multipart frame count mismatch'')) (\<lambda>_.
    bindS (ensure (map (\<lambda>f. int (length f)) payload_frames = frame_sizes header)
      (PipelineProtocolError ''multipart frame size mismatch'')) (\<lambda>_.
    bindS (validate_payload_limits payload_frames limits) (\<lambda>_.
    bindS (mk_generation (hd_generation header)) (\<lambda>generation.
    Inr \<lparr>item_stage = hd_stage header, item_record_id = hd_record_id header,
         item_generation = generation, item_revision = hd_revision header,
         item_deadline_ns = hd_deadline_ns header, item_frames = payload_frames\<rparr>))))))"

definition decode_item ::
    "header_codec \<Rightarrow> pipeline_limits \<Rightarrow> pipeline_stage \<Rightarrow> byte list list \<Rightarrow> exn + pipeline_item" where
  "decode_item c limits expected_stage parts = (case parts of
     [] \<Rightarrow> Inl (PipelineProtocolError ''multipart message is incomplete'')
   | [_] \<Rightarrow> Inl (PipelineProtocolError ''multipart message is incomplete'')
   | encoded_header # payload_frames \<Rightarrow>
       bindS (ensure (int (length payload_frames) \<le> max_frames limits)
         (PipelineProtocolError ''multipart message has too many frames'')) (\<lambda>_.
       bindS (ensure (int (length encoded_header) \<le> max_header_bytes limits)
         (PipelineProtocolError ''transport header exceeds configured limit'')) (\<lambda>_.
       case json_loads c encoded_header of
         None \<Rightarrow> Inl (PipelineProtocolError ''transport header is not valid JSON'')
       | Some (JObj raw_header) \<Rightarrow>
           (case model_validate c raw_header of
             None \<Rightarrow> Inl (PipelineProtocolError ''transport header failed validation'')
           | Some header \<Rightarrow> decode_payload limits expected_stage payload_frames header)
       | Some _ \<Rightarrow> Inl (PipelineProtocolError ''transport header must be an object''))))"

text \<open>Python's \<open>bool\<close> is an \<open>int\<close>: a JSON \<open>true\<close> counts as generation 1.\<close>

fun json_int :: "json option \<Rightarrow> int option" where
  "json_int (Some (JInt i)) = Some i"
| "json_int (Some (JBool b)) = Some (if b then 1 else 0)"
| "json_int _ = None"

definition peek_record_and_generation ::
    "header_codec \<Rightarrow> byte list list \<Rightarrow> uuid option \<times> capture_generation option" where
  "peek_record_and_generation c parts = (case parts of
     [] \<Rightarrow> (None, None)
   | encoded_header # _ \<Rightarrow>
       (case json_loads c encoded_header of
         Some (JObj raw_header) \<Rightarrow>
           (extract_record_id c raw_header,
            case json_int (map_of raw_header ''generation'') of
              Some v \<Rightarrow> if 0 < v then Some (CaptureGeneration v) else None
            | None \<Rightarrow> None)
       | _ \<Rightarrow> (None, None)))"

section \<open>What encoding and decoding guarantee\<close>

definition within_limits :: "pipeline_limits \<Rightarrow> byte list list \<Rightarrow> bool" where
  "within_limits limits frames \<longleftrightarrow> frames \<noteq> [] \<and> int (length frames) \<le> max_frames limits \<and>
    int (sum_list (map length frames)) \<le> max_payload_bytes limits"

lemma validate_payload_limits_Inr: "validate_payload_limits frames limits = Inr u \<longleftrightarrow> within_limits limits frames"
  by (auto simp: validate_payload_limits_def within_limits_def bindS_Inr ensure_Inr)

lemma validate_declared_frames_Inr:
  "validate_declared_frames h = Inr u \<longleftrightarrow> protocol_version h = PROTOCOL_VERSION \<and>
    frame_count h = int (length (frame_sizes h)) \<and> (\<forall>n \<in> set (frame_sizes h). 0 \<le> n)"
  by (auto simp: validate_declared_frames_def bindS_Inr ensure_Inr not_less)

lemma encode_item_Inr:
  "encode_item c limits item = Inr parts \<longleftrightarrow>
    within_limits limits (item_frames item) \<and> header_fields_ok (header_of item) \<and>
    int (length (json_dumps c (JObj (model_dump c (header_of item))))) \<le> max_header_bytes limits \<and>
    parts = json_dumps c (JObj (model_dump c (header_of item))) # item_frames item"
  by (auto simp: encode_item_def mk_TransportHeader_def bindS_Inr ensure_Inr validate_payload_limits_Inr
      Let_def)

lemma decode_item_Inr:
  "decode_item c limits st parts = Inr item \<longleftrightarrow>
    (\<exists>bs frames raw h. parts = bs # frames \<and> frames \<noteq> [] \<and>
       int (length bs) \<le> max_header_bytes limits \<and> json_loads c bs = Some (JObj raw) \<and>
       model_validate c raw = Some h \<and> protocol_version h = PROTOCOL_VERSION \<and> hd_stage h = st \<and>
       frame_count h = int (length frames) \<and> frame_sizes h = map (\<lambda>f. int (length f)) frames \<and>
       within_limits limits frames \<and> 0 < hd_generation h \<and>
       item = \<lparr>item_stage = st, item_record_id = hd_record_id h,
         item_generation = CaptureGeneration (hd_generation h), item_revision = hd_revision h,
         item_deadline_ns = hd_deadline_ns h, item_frames = frames\<rparr>)"
  (is "?l \<longleftrightarrow> ?r")
proof
  assume ?l
  then obtain bs f fs where parts: "parts = bs # f # fs"
    by (auto simp: decode_item_def split: list.splits)
  with \<open>?l\<close> obtain raw where raw: "json_loads c bs = Some (JObj raw)"
    by (auto simp: decode_item_def bindS_Inr ensure_Inr split: option.splits json.splits)
  with \<open>?l\<close> parts obtain h where h: "model_validate c raw = Some h"
    by (auto simp: decode_item_def bindS_Inr ensure_Inr split: option.splits)
  show ?r
    using \<open>?l\<close> parts raw h
    by (auto simp: decode_item_def decode_payload_def mk_generation_def bindS_Inr ensure_Inr
        validate_payload_limits_Inr validate_declared_frames_Inr)
next
  assume ?r
  then obtain bs frames raw h where r: "parts = bs # frames" "frames \<noteq> []"
    "int (length bs) \<le> max_header_bytes limits" "json_loads c bs = Some (JObj raw)"
    "model_validate c raw = Some h" "protocol_version h = PROTOCOL_VERSION" "hd_stage h = st"
    "frame_count h = int (length frames)" "frame_sizes h = map (\<lambda>f. int (length f)) frames"
    "within_limits limits frames" "0 < hd_generation h"
    "item = \<lparr>item_stage = st, item_record_id = hd_record_id h,
         item_generation = CaptureGeneration (hd_generation h), item_revision = hd_revision h,
         item_deadline_ns = hd_deadline_ns h, item_frames = frames\<rparr>"
    by blast
  then obtain f fs where frames: "frames = f # fs" by (cases frames) auto
  have "decode_payload limits st frames h = Inr item"
    using r by (auto simp: decode_payload_def mk_generation_def bindS_Inr ensure_Inr
        validate_payload_limits_Inr validate_declared_frames_Inr)
  then show ?l
    using r frames by (simp add: decode_item_def within_limits_def ensure_def)
qed

lemma decode_encode:
  assumes "codec_ok c" and "encode_item c limits item = Inr parts"
  shows "decode_item c limits st parts =
    (if item_stage item = st then Inr item
     else Inl (PipelineProtocolError ''message arrived at the wrong stage''))"
proof -
  from assms(2) have enc: "within_limits limits (item_frames item)" "header_fields_ok (header_of item)"
    "int (length (json_dumps c (JObj (model_dump c (header_of item))))) \<le> max_header_bytes limits"
    "parts = json_dumps c (JObj (model_dump c (header_of item))) # item_frames item"
    by (auto simp: encode_item_Inr)
  have codec: "json_loads c (json_dumps c j) = Some j"
    "model_validate c (model_dump c (header_of item)) = Some (header_of item)" for j
    using assms(1) enc(2) by (auto simp: codec_ok_def)
  obtain f fs where frames: "item_frames item = f # fs"
    using enc(1) by (cases "item_frames item") (auto simp: within_limits_def)
  have head: "validate_declared_frames (header_of item) = Inr ()"
    by (auto simp: validate_declared_frames_Inr header_of_def)
  have "decode_item c limits st parts = decode_payload limits st (item_frames item) (header_of item)"
    using enc codec frames by (simp add: decode_item_def within_limits_def)
  also have "\<dots> = (if item_stage item = st then Inr item
     else Inl (PipelineProtocolError ''message arrived at the wrong stage''))"
    using enc head validate_payload_limits_Inr [of "item_frames item" limits "()"]
    by (auto simp: decode_payload_def header_of_def mk_generation_def header_fields_ok_def)
  finally show ?thesis .
qed

lemma peek_encode:
  assumes "codec_ok c" and "encode_item c limits item = Inr parts"
  shows "snd (peek_record_and_generation c parts) = Some (item_generation item)"
  using assms
  by (auto simp: encode_item_Inr peek_record_and_generation_def codec_ok_def header_fields_ok_def)
    (simp_all add: header_of_def)


section \<open>A codec for concrete runs\<close>

text \<open>
  JSON values are countable, so a codec that writes a value as that many zero bytes satisfies the
  assumptions; the header is dumped field by field.
\<close>

instance json :: countable
  by countable_datatype

fun stage_value :: "pipeline_stage \<Rightarrow> string" where
  "stage_value RAW = ''raw''"
| "stage_value ANALYZED = ''analyzed''"
| "stage_value REDACTED = ''redacted''"
| "stage_value ENCRYPTED = ''encrypted''"

definition stage_of :: "string \<Rightarrow> pipeline_stage" where
  "stage_of s = (if s = ''raw'' then RAW else if s = ''analyzed'' then ANALYZED
     else if s = ''redacted'' then REDACTED else ENCRYPTED)"

definition dump_header :: "transport_header \<Rightarrow> (string \<times> json) list" where
  "dump_header h = [(''protocol_version'', JInt (protocol_version h)),
     (''record_id'', JInt (hd_record_id h)), (''generation'', JInt (hd_generation h)),
     (''configuration_revision'', JStr (hd_revision h)), (''stage'', JStr (stage_value (hd_stage h))),
     (''deadline_monotonic_ns'', JInt (hd_deadline_ns h)), (''frame_count'', JInt (frame_count h)),
     (''frame_sizes'', JArr (map JInt (frame_sizes h)))]"

fun int_of :: "json option \<Rightarrow> int" where
  "int_of (Some (JInt i)) = i"
| "int_of _ = 0"

fun str_of :: "json option \<Rightarrow> string" where
  "str_of (Some (JStr s)) = s"
| "str_of _ = []"

fun ints_of :: "json option \<Rightarrow> int list" where
  "ints_of (Some (JArr js)) = map (int_of o Some) js"
| "ints_of _ = []"

definition parse_header :: "(string \<times> json) list \<Rightarrow> transport_header option" where
  "parse_header d = (let h = \<lparr>protocol_version = int_of (map_of d ''protocol_version''),
       hd_record_id = int_of (map_of d ''record_id''), hd_generation = int_of (map_of d ''generation''),
       hd_revision = str_of (map_of d ''configuration_revision''),
       hd_stage = stage_of (str_of (map_of d ''stage'')),
       hd_deadline_ns = int_of (map_of d ''deadline_monotonic_ns''),
       frame_count = int_of (map_of d ''frame_count''),
       frame_sizes = ints_of (map_of d ''frame_sizes'')\<rparr>
     in if header_fields_ok h then Some h else None)"

definition plain_codec :: header_codec where
  "plain_codec = \<lparr>json_dumps = (\<lambda>j. replicate (to_nat j) 0), json_loads = (\<lambda>bs. Some (from_nat (length bs))),
     model_dump = dump_header, model_validate = parse_header,
     uuid_of = (\<lambda>j. case j of Some (JInt i) \<Rightarrow> Some i | _ \<Rightarrow> None)\<rparr>"

lemma parse_header_fields: "parse_header d = Some h \<Longrightarrow> header_fields_ok h"
  by (auto simp: parse_header_def Let_def split: if_splits)

lemma stage_of_value [simp]: "stage_of (stage_value st) = st"
  by (cases st) (simp_all add: stage_of_def)

lemma parse_dump: "header_fields_ok h \<Longrightarrow> parse_header (dump_header h) = Some h"
  by (cases h) (simp add: parse_header_def dump_header_def o_def Let_def)

lemma plain_codec_ok: "codec_ok plain_codec"
  by (auto simp: codec_ok_def plain_codec_def parse_dump dest: parse_header_fields)
    (simp add: dump_header_def)

definition sample_item :: pipeline_item where
  "sample_item = \<lparr>item_stage = REDACTED, item_record_id = 42, item_generation = CaptureGeneration 3,
     item_revision = ''r1'', item_deadline_ns = 900, item_frames = [[1, 2, 3], [], [255]]\<rparr>"

definition roomy_limits :: "json \<Rightarrow> pipeline_limits" where
  "roomy_limits j = default_limits\<lparr>max_header_bytes := int (to_nat j) + 1\<rparr>"

section \<open>Properties\<close>

text \<open>
  C8. Transport round trip. Whatever \<open>encode_item\<close> produces, the decoder of the stage it is meant
  for gives back the very item, for every codec that keeps the promises of the JSON and model
  libraries; any other stage refuses it as misrouted; and the generation read from the header
  without decoding is the item's own.
\<close>

theorem transport_roundtrip:
  assumes "codec_ok c" and "encode_item c limits item = Inr parts"
  shows "decode_item c limits st parts =
      (if item_stage item = st then Inr item
       else Inl (PipelineProtocolError ''message arrived at the wrong stage'')) \<and>
    snd (peek_record_and_generation c parts) = Some (item_generation item)"
  using decode_encode [OF assms] peek_encode [OF assms] by simp

theorem transport_roundtrip_witness:
  "\<exists>limits parts. encode_item plain_codec limits sample_item = Inr parts \<and>
    decode_item plain_codec limits REDACTED parts = Inr sample_item \<and>
    snd (peek_record_and_generation plain_codec parts) = Some (CaptureGeneration 3)"
proof -
  let ?j = "JObj (dump_header (header_of sample_item))"
  let ?l = "roomy_limits ?j"
  have "encode_item plain_codec ?l sample_item = Inr (replicate (to_nat ?j) 0 # item_frames sample_item)"
    by (simp add: encode_item_Inr plain_codec_def roomy_limits_def)
      (simp add: within_limits_def header_fields_ok_def header_of_def sample_item_def default_limits_def
        PROTOCOL_VERSION_def)
  from this transport_roundtrip [OF plain_codec_ok this, of REDACTED] show ?thesis
    by (intro exI conjI) (auto simp: sample_item_def)
qed

text \<open>
  C9. The decoder admits only well-formed messages: an item it returns has the expected stage, at
  least one and at most the configured number of frames, a payload within the configured size, a
  positive generation and deadline, a revision of 1 to 256 characters, and exactly the frames that
  were received; and encoding it again gives a message that decodes to it.
\<close>

theorem decoded_items_are_valid:
  assumes "codec_ok c" and "decode_item c limits st parts = Inr item"
  shows "item_stage item = st \<and> item_frames item = tl parts \<and> within_limits limits (item_frames item) \<and>
    0 < gen_value (item_generation item) \<and> 0 < item_deadline_ns item \<and>
    1 \<le> length (item_revision item) \<and> length (item_revision item) \<le> 256 \<and>
    (\<forall>again. encode_item c limits item = Inr again \<longrightarrow> decode_item c limits st again = Inr item)"
proof -
  from assms(2) obtain raw h where "model_validate c raw = Some h"
    "item_frames item = tl parts" "within_limits limits (item_frames item)" "item_stage item = st"
    "item_generation item = CaptureGeneration (hd_generation h)" "item_revision item = hd_revision h"
    "item_deadline_ns item = hd_deadline_ns h"
    by (auto simp: decode_item_Inr)
  moreover from this have "header_fields_ok h" using assms(1) by (auto simp: codec_ok_def)
  ultimately show ?thesis
    using decode_encode [OF assms(1), of limits item] by (auto simp: header_fields_ok_def)
qed

theorem decoded_items_are_valid_witness:
  "\<exists>limits parts item. decode_item plain_codec limits REDACTED parts = Inr item \<and>
    within_limits limits (item_frames item) \<and> 0 < gen_value (item_generation item)"
proof -
  let ?j = "JObj (dump_header (header_of sample_item))"
  let ?l = "roomy_limits ?j"
  let ?p = "replicate (to_nat ?j) 0 # item_frames sample_item"
  have "decode_item plain_codec ?l REDACTED ?p = Inr sample_item"
    using parse_dump [of "header_of sample_item"]
    by (simp add: decode_item_Inr plain_codec_def roomy_limits_def)
      (simp add: within_limits_def header_fields_ok_def header_of_def sample_item_def default_limits_def
        PROTOCOL_VERSION_def)
  from this decoded_items_are_valid [OF plain_codec_ok this] show ?thesis by blast
qed

end
