(* ===== verification/Credit_Ledger.thy ===== *)
theory Credit_Ledger
  imports Lifecycle_Domain "HOL-Library.Multiset" "HOL-Library.AList"
begin

text \<open>
  The credit ledger of \<^verbatim>\<open>src/local_recall/pipeline/credits.py\<close>: the capacity of one edge of the
  capture pipeline. Its dictionary of credits by generation is an association list. The contract
  the pipeline relies on is a locale over the multiset of generations that hold a credit, and the
  ledger is an instance of it.
\<close>

section \<open>The ledger\<close>

record ledger =
  ledger_capacity :: int
  in_use_by_generation :: "(int \<times> int) list"

definition mk_CreditLedger :: "int \<Rightarrow> exn + ledger" where
  "mk_CreditLedger capacity =
    bindS (ensure (0 < capacity) (ValueError ''capacity must be positive''))
      (\<lambda>_. Inr \<lparr>ledger_capacity = capacity, in_use_by_generation = []\<rparr>)"

definition in_use_for :: "capture_generation \<Rightarrow> ledger \<Rightarrow> int" where
  "in_use_for generation l =
    (case map_of (in_use_by_generation l) (gen_value generation) of None \<Rightarrow> 0 | Some n \<Rightarrow> n)"

definition in_use :: "ledger \<Rightarrow> int" where
  "in_use l = sum_list (map snd (in_use_by_generation l))"

definition try_acquire :: "capture_generation \<Rightarrow> ledger \<Rightarrow> bool \<times> ledger" where
  "try_acquire generation l =
    (if ledger_capacity l \<le> in_use l then (False, l)
     else (True, l\<lparr>in_use_by_generation := AList.update (gen_value generation)
       (in_use_for generation l + 1) (in_use_by_generation l)\<rparr>))"

text \<open>The common part of both releases, for a positive count.\<close>

definition give_back :: "capture_generation \<Rightarrow> ledger \<Rightarrow> ledger" where
  "give_back generation l =
    (let key = gen_value generation; current = in_use_for generation l
     in if current = 1 then l\<lparr>in_use_by_generation := AList.delete key (in_use_by_generation l)\<rparr>
        else l\<lparr>in_use_by_generation := AList.update key (current - 1) (in_use_by_generation l)\<rparr>)"

definition release :: "capture_generation \<Rightarrow> (ledger, unit) comp" where
  "release generation =
    bindE (reads (in_use_for generation)) (\<lambda>current.
    seqE (require (0 < current) (RuntimeError ''pipeline credit released without acquisition''))
      (modifies (give_back generation)))"

definition release_if_acquired :: "capture_generation \<Rightarrow> ledger \<Rightarrow> bool \<times> ledger" where
  "release_if_acquired generation l =
    (if in_use_for generation l \<le> 0 then (False, l) else (True, give_back generation l))"

text \<open>
  \<open>wait_for_zero\<close> sees, before each check of the count, the time left and the credits other
  threads have released since the last check.
\<close>

fun wait_for_zero :: "capture_generation \<Rightarrow> (int \<times> capture_generation list) list \<Rightarrow> ledger \<Rightarrow> bool \<times> ledger" where
  "wait_for_zero generation [] l = (\<not> 0 < in_use_for generation l, l)"
| "wait_for_zero generation ((remaining, released) # wakeups) l =
    (if \<not> 0 < in_use_for generation l then (True, l)
     else if remaining \<le> 0 then (False, l)
     else wait_for_zero generation wakeups
       (fold (\<lambda>g k. snd (release_if_acquired g k)) released l))"

section \<open>The contract of a bounded pool of credits\<close>

text \<open>
  A pool hands out at most \<open>capacity\<close> credits, each to a key, and takes back only credits that
  are held. A client that acquires before it queues a message and releases when the message has
  been dealt with then has, for each message, a credit of its own; the number of messages never
  exceeds the capacity.
\<close>

locale credit_pool =
  fixes acquire :: "'k \<Rightarrow> 'p \<Rightarrow> bool \<times> 'p"
    and give_up :: "'k \<Rightarrow> 'p \<Rightarrow> bool \<times> 'p"
    and holders :: "'p \<Rightarrow> 'k multiset"
    and capacity :: "'p \<Rightarrow> int"
    and pool_ok :: "'p \<Rightarrow> bool"
  assumes acquire_law: "pool_ok p \<Longrightarrow> acquire k p = (b, q) \<Longrightarrow> pool_ok q \<and> capacity q = capacity p \<and>
      b = (int (size (holders p)) < capacity p) \<and>
      holders q = (if b then add_mset k (holders p) else holders p)"
    and give_up_law: "pool_ok p \<Longrightarrow> give_up k p = (b, q) \<Longrightarrow> pool_ok q \<and> capacity q = capacity p \<and>
      b = (k \<in># holders p) \<and> holders q = holders p - {#k#}"
    and bounded: "pool_ok p \<Longrightarrow> int (size (holders p)) \<le> capacity p"
begin

definition backed :: "'p \<Rightarrow> 'k list \<Rightarrow> bool" where
  "backed p ks \<longleftrightarrow> pool_ok p \<and> mset ks \<subseteq># holders p"

lemma backed_bound: "backed p ks \<Longrightarrow> int (length ks) \<le> capacity p"
  using bounded [of p] size_mset_mono [of "mset ks" "holders p"] by (simp add: backed_def)

lemma backed_acquire:
  "backed p ks \<Longrightarrow> acquire k p = (True, q) \<Longrightarrow> backed q (k # ks) \<and> capacity q = capacity p"
  using acquire_law [of p k True q] by (simp add: backed_def)

lemma backed_refused: "backed p ks \<Longrightarrow> acquire k p = (False, q) \<Longrightarrow> backed q ks \<and> capacity q = capacity p"
  using acquire_law [of p k False q] by (simp add: backed_def)

lemma backed_give_up:
  assumes "backed p ks" and "k \<in> set ks" and "give_up k p = (b, q)"
  shows "backed q (remove1 k ks) \<and> capacity q = capacity p \<and> b"
proof -
  have "k \<in># holders p" using assms(1,2) by (auto simp: backed_def dest: mset_subset_eqD)
  then show ?thesis
    using give_up_law [of p k b q] assms by (auto simp: backed_def subseteq_mset_def diff_le_mono)
qed

lemma backed_perm: "backed p ks \<Longrightarrow> mset ls = mset ks \<Longrightarrow> backed p ls"
  by (simp add: backed_def)

lemma backed_drop: "backed p ks \<Longrightarrow> mset ls \<subseteq># mset ks \<Longrightarrow> backed p ls"
  by (auto simp: backed_def intro: subset_mset.order_trans)

end

section \<open>The ledger is such a pool\<close>

definition ledger_ok :: "ledger \<Rightarrow> bool" where
  "ledger_ok l \<longleftrightarrow> distinct (map fst (in_use_by_generation l)) \<and>
    (\<forall>n \<in> snd ` set (in_use_by_generation l). 0 < n) \<and> in_use l \<le> ledger_capacity l"

text \<open>The abstraction: the multiset of generations that hold a credit.\<close>

definition credits :: "ledger \<Rightarrow> capture_generation multiset" where
  "credits l = (\<Sum>(k, n) \<in># mset (in_use_by_generation l). replicate_mset (nat n) (CaptureGeneration k))"

text \<open>The dictionary on its own, by induction on its entries.\<close>

definition dict_credits :: "(int \<times> int) list \<Rightarrow> capture_generation multiset" where
  "dict_credits d = (\<Sum>(k, n) \<in># mset d. replicate_mset (nat n) (CaptureGeneration k))"

definition dict_ok :: "(int \<times> int) list \<Rightarrow> bool" where
  "dict_ok d \<longleftrightarrow> distinct (map fst d) \<and> (\<forall>n \<in> snd ` set d. 0 < n)"

definition dict_get :: "(int \<times> int) list \<Rightarrow> int \<Rightarrow> int" where
  "dict_get d k = (case map_of d k of None \<Rightarrow> 0 | Some n \<Rightarrow> n)"

lemma dict_credits_simps [simp]:
  "dict_credits [] = {#}"
  "dict_credits ((k, n) # d) = replicate_mset (nat n) (CaptureGeneration k) + dict_credits d"
  by (simp_all add: dict_credits_def)

lemma dict_get_simps [simp]:
  "dict_get [] k = 0"
  "dict_get ((j, n) # d) k = (if j = k then n else dict_get d k)"
  by (simp_all add: dict_get_def)

lemma dict_get_nonneg: "dict_ok d \<Longrightarrow> 0 \<le> dict_get d k"
  by (induction d) (auto simp: dict_ok_def)

lemma dict_get_absent: "k \<notin> fst ` set d \<Longrightarrow> dict_get d k = 0"
  by (induction d) auto

lemma dict_count: "dict_ok d \<Longrightarrow> int (count (dict_credits d) (CaptureGeneration k)) = dict_get d k"
proof (induction d)
  case (Cons e d)
  obtain j n where e: "e = (j, n)" by (cases e)
  with Cons have "int (count (dict_credits d) (CaptureGeneration k)) = dict_get d k" "0 < n"
    "j \<notin> fst ` set d"
    by (auto simp: dict_ok_def)
  then show ?case using dict_get_absent [of j d] by (auto simp: e)
qed simp

lemma dict_size: "dict_ok d \<Longrightarrow> int (size (dict_credits d)) = sum_list (map snd d)"
  by (induction d) (auto simp: dict_ok_def)

lemma dict_ok_update: "dict_ok d \<Longrightarrow> 0 < n \<Longrightarrow> dict_ok (AList.update k n d)"
proof -
  assume "dict_ok d" "0 < n"
  then have "\<forall>m \<in> snd ` set (AList.update k n d). 0 < m"
    by (induction d) (auto simp: dict_ok_def)
  with \<open>dict_ok d\<close> show ?thesis by (simp add: dict_ok_def distinct_update)
qed

lemma dict_ok_delete: "dict_ok d \<Longrightarrow> dict_ok (AList.delete k d)"
  by (auto simp: dict_ok_def AList.delete_eq distinct_map_filter)

lemma dict_get_update: "dict_get (AList.update k n d) j = (if j = k then n else dict_get d j)"
  by (simp add: dict_get_def update_conv)

lemma dict_get_delete: "dict_get (AList.delete k d) j = (if j = k then 0 else dict_get d j)"
  by (simp add: dict_get_def delete_conv)

lemma dict_credits_eqI:
  assumes "dict_ok d" and "dict_ok e"
    and "\<And>k. dict_get e k = dict_get d k + (if k = gen_value g then m else 0)" and "0 \<le> m"
  shows "dict_credits e = dict_credits d + replicate_mset (nat m) g"
proof (rule multiset_eqI)
  fix x
  have "int (count (dict_credits e) x) = int (count (dict_credits d) x) +
      (if gen_value x = gen_value g then m else 0)"
    using dict_count [OF assms(1), of "gen_value x"] dict_count [OF assms(2), of "gen_value x"] assms(3)
    by simp
  then show "count (dict_credits e) x = count (dict_credits d + replicate_mset (nat m) g) x"
    using assms(4) by (cases x; cases g) (auto split: if_splits)
qed

lemmas dict_rules = dict_ok_update dict_ok_delete dict_get_update dict_get_delete dict_get_nonneg

lemma ledger_dict:
  "credits l = dict_credits (in_use_by_generation l)"
  "in_use_for g l = dict_get (in_use_by_generation l) (gen_value g)"
  "ledger_ok l \<longleftrightarrow> dict_ok (in_use_by_generation l) \<and> in_use l \<le> ledger_capacity l"
  by (simp_all add: credits_def dict_credits_def in_use_for_def dict_get_def ledger_ok_def dict_ok_def)

lemma in_use_size: "ledger_ok l \<Longrightarrow> in_use l = int (size (credits l))"
  by (simp add: ledger_dict in_use_def dict_size)

lemma in_use_for_count: "ledger_ok l \<Longrightarrow> in_use_for g l = int (count (credits l) g)"
  using dict_count [of "in_use_by_generation l" "gen_value g"] by (simp add: ledger_dict)

lemma credits_acquire:
  assumes "dict_ok d"
  shows "dict_credits (AList.update (gen_value g) (dict_get d (gen_value g) + 1) d) =
    add_mset g (dict_credits d)"
proof -
  have "dict_credits (AList.update (gen_value g) (dict_get d (gen_value g) + 1) d) =
      dict_credits d + replicate_mset (nat 1) g"
    using assms dict_get_nonneg [OF assms, of "gen_value g"]
    by (intro dict_credits_eqI) (auto simp: dict_rules)
  then show ?thesis by simp
qed

lemma give_back_frame [simp]: "ledger_capacity (give_back g l) = ledger_capacity l"
  by (simp add: give_back_def Let_def)

lemma give_back_credits:
  assumes "ledger_ok l" and "0 < in_use_for g l"
  shows "dict_ok (in_use_by_generation (give_back g l)) \<and> credits (give_back g l) = credits l - {#g#}"
proof -
  let ?d = "in_use_by_generation l" and ?e = "in_use_by_generation (give_back g l)"
  have ok: "dict_ok ?d" using assms(1) by (simp add: ledger_dict)
  have e: "dict_ok ?e" using ok assms(2) by (auto simp: give_back_def Let_def dict_rules ledger_dict)
  have "dict_get ?d k = dict_get ?e k + (if k = gen_value g then 1 else 0)" for k
    by (auto simp: give_back_def Let_def dict_rules ledger_dict)
  from dict_credits_eqI [OF e ok this] have "credits l = add_mset g (credits (give_back g l))"
    by (simp add: ledger_dict)
  with e show ?thesis by simp
qed

lemma give_back_ok:
  assumes "ledger_ok l" and "0 < in_use_for g l"
  shows "ledger_ok (give_back g l)"
proof -
  note returned = give_back_credits [OF assms]
  have "in_use (give_back g l) = int (size (credits (give_back g l)))"
    using dict_size [of "in_use_by_generation (give_back g l)"] returned
    by (simp add: in_use_def ledger_dict(1))
  also have "\<dots> \<le> int (size (credits l))" using returned by (simp add: size_Diff_subset_Int)
  finally show ?thesis using returned assms(1) in_use_size [OF assms(1)] by (simp add: ledger_dict)
qed

interpretation edge: credit_pool try_acquire release_if_acquired credits ledger_capacity ledger_ok
proof unfold_locales
  fix l m :: ledger and g :: capture_generation and b
  assume ok: "ledger_ok l"
  show "ledger_ok m \<and> ledger_capacity m = ledger_capacity l \<and>
      b = (int (size (credits l)) < ledger_capacity l) \<and>
      credits m = (if b then add_mset g (credits l) else credits l)"
    if "try_acquire g l = (b, m)"
  proof (cases b)
    case True
    let ?d = "AList.update (gen_value g) (in_use_for g l + 1) (in_use_by_generation l)"
    from that True have m: "m = l\<lparr>in_use_by_generation := ?d\<rparr>" "in_use l < ledger_capacity l"
      by (auto simp: try_acquire_def split: if_splits)
    have d: "dict_ok ?d" "dict_credits ?d = add_mset g (credits l)"
      using ok dict_get_nonneg [of "in_use_by_generation l" "gen_value g"]
      by (simp_all add: ledger_dict dict_rules credits_acquire)
    then have "in_use m = in_use l + 1"
      using m in_use_size [OF ok] by (simp add: in_use_def dict_size [symmetric])
    then show ?thesis
      using ok m d True in_use_size [OF ok] by (simp add: ledger_dict)
  next
    case False
    then show ?thesis
      using that ok in_use_size [OF ok] by (auto simp: try_acquire_def split: if_splits)
  qed
  show "ledger_ok m \<and> ledger_capacity m = ledger_capacity l \<and> b = (g \<in># credits l) \<and>
      credits m = credits l - {#g#}"
    if "release_if_acquired g l = (b, m)"
  proof (cases b)
    case True
    with that have "0 < in_use_for g l" "m = give_back g l"
      by (auto simp: release_if_acquired_def split: if_splits)
    then show ?thesis
      using True give_back_ok [OF ok] give_back_credits [OF ok] in_use_for_count [OF ok, of g] by simp
  next
    case False
    with that have "in_use_for g l \<le> 0" "m = l"
      by (auto simp: release_if_acquired_def split: if_splits)
    then show ?thesis
      using False ok in_use_for_count [OF ok, of g] by (simp add: not_in_iff)
  qed
  show "int (size (credits l)) \<le> ledger_capacity l"
    using ok in_use_size [OF ok] by (simp add: ledger_dict)
qed

end
