(* ===== verification/Pipeline_Runtime.thy ===== *)
theory Pipeline_Runtime
  imports Pipeline_Framing Credit_Ledger Capture_Gate
begin

text \<open>
  The capture pipeline: cancellation registry (\<^verbatim>\<open>pipeline/cancellation.py\<close>), raw ingress
  (\<^verbatim>\<open>pipeline/ingress.py\<close>), stage actors (\<^verbatim>\<open>pipeline/actors.py\<close>) and the runtime that wires them
  (\<^verbatim>\<open>pipeline/runtime.py\<close>). The state holds the capture gate, one credit ledger and one in-process
  message queue per edge (named by the stage that reads from it), the stage actors' flags and
  counters, and the bytearrays that raw frames live in. Three fields record what happened: the raw
  items handed to the first edge, the calls of processors that returned, and the items given to the
  sink with the gate at that time. What a call meets outside the code (the message socket, the clock,
  the processors, the sinks) is an argument.
\<close>

section \<open>State\<close>

record registry =
  reg_events :: "int \<rightharpoonup> nat"
  reg_permits :: "int \<rightharpoonup> capture_work_permit"
  reg_heap :: "bool list"

record cancellation_token =
  tok_generation :: capture_generation
  tok_event :: nat
  tok_permit :: "capture_work_permit option"

record raw_item =
  raw_record_id :: uuid
  raw_generation :: capture_generation
  raw_revision :: string
  raw_deadline_ns :: int
  raw_frames :: "nat list"

record stage_metrics =
  processing :: bool
  received :: int
  completed :: int
  dropped :: int
  faults :: int

record stage_actor =
  st_faulted :: bool
  st_polling :: bool
  st_metrics :: stage_metrics

datatype submission_status = ACCEPTED | DROPPED | COALESCED

record submission_result =
  sub_record_id :: uuid
  sub_status :: submission_status
  replaced_record_id :: "uuid option"

datatype pipeline_fault_code =
  PROCESSOR_FAILURE | PROTOCOL_FAILURE | TRANSPORT_FAILURE | PERSISTENCE_FAILURE

record pipeline_fault_event =
  fe_record_id :: uuid
  fe_stage :: pipeline_stage
  fe_code :: pipeline_fault_code

record pipeline =
  pl_owner :: int
  pl_gate :: gate
  pl_limits :: pipeline_limits
  pl_registry :: registry
  pl_ledgers :: "pipeline_stage \<Rightarrow> ledger"
  pl_queues :: "pipeline_stage \<Rightarrow> byte list list list"
  pl_stages :: "pipeline_stage \<Rightarrow> stage_actor"
  pl_coalesced :: "raw_item option"
  pl_ingress_closed :: bool
  pl_closed :: bool
  pl_heap :: "byte list list"
  pl_submitted :: "pipeline_item list"
  pl_calls :: "(pipeline_item \<times> pipeline_item) list"
  pl_sunk :: "(pipeline_item \<times> gate) list"
  pl_fault_events :: "pipeline_fault_event list"

text \<open>What one call meets: the codec, the send, the clock, processors, sink and fault sink.\<close>

record pipeline_io =
  io_codec :: header_codec
  io_sent :: bool
  io_now_ns :: int
  io_process :: "pipeline_item \<Rightarrow> exn + pipeline_item"
  io_persist :: "pipeline_item \<Rightarrow> exn + unit"
  io_fault_emitted :: bool

fun edge_capacity :: "pipeline_limits \<Rightarrow> pipeline_stage \<Rightarrow> int" where
  "edge_capacity limits RAW = raw_queue_items limits"
| "edge_capacity limits _ = stage_queue_items limits"

definition new_stage :: stage_actor where
  "new_stage = \<lparr>st_faulted = False, st_polling = True, st_metrics = \<lparr>processing = False, received = 0,
     completed = 0, dropped = 0, faults = 0\<rparr>\<rparr>"

definition new_pipeline :: "int \<Rightarrow> gate \<Rightarrow> pipeline_limits \<Rightarrow> byte list list \<Rightarrow> pipeline" where
  "new_pipeline owner g limits heap = \<lparr>pl_owner = owner, pl_gate = g, pl_limits = limits,
     pl_registry = \<lparr>reg_events = (\<lambda>_. None), reg_permits = (\<lambda>_. None), reg_heap = []\<rparr>,
     pl_ledgers = (\<lambda>s. \<lparr>ledger_capacity = edge_capacity limits s, in_use_by_generation = []\<rparr>),
     pl_queues = (\<lambda>_. []), pl_stages = (\<lambda>_. new_stage), pl_coalesced = None,
     pl_ingress_closed = False, pl_closed = False, pl_heap = heap, pl_submitted = [], pl_calls = [],
     pl_sunk = [], pl_fault_events = []\<rparr>"

section \<open>Primitive effects\<close>

definition on_pl_gate :: "(gate, 'a) comp \<Rightarrow> (pipeline, 'a) comp" where
  "on_pl_gate m = on_field pl_gate (\<lambda>g p. p\<lparr>pl_gate := g\<rparr>) m"

definition take_credit :: "pipeline_stage \<Rightarrow> capture_generation \<Rightarrow> (pipeline, bool) comp" where
  "take_credit s gen = (\<lambda>p. case try_acquire gen (pl_ledgers p s) of (b, l) \<Rightarrow>
     (Inr b, p\<lparr>pl_ledgers := (pl_ledgers p)(s := l)\<rparr>))"

definition drop_credit :: "pipeline_stage \<Rightarrow> capture_generation \<Rightarrow> (pipeline, unit) comp" where
  "drop_credit s gen = modifies (\<lambda>p. p\<lparr>pl_ledgers :=
     (pl_ledgers p)(s := snd (release_if_acquired gen (pl_ledgers p s)))\<rparr>)"

definition enqueue :: "pipeline_stage \<Rightarrow> byte list list \<Rightarrow> (pipeline, unit) comp" where
  "enqueue s parts = modifies (\<lambda>p. p\<lparr>pl_queues := (pl_queues p)(s := pl_queues p s @ [parts])\<rparr>)"

definition update_stage :: "pipeline_stage \<Rightarrow> (stage_actor \<Rightarrow> stage_actor) \<Rightarrow> (pipeline, unit) comp" where
  "update_stage s f = modifies (\<lambda>p. p\<lparr>pl_stages := (pl_stages p)(s := f (pl_stages p s))\<rparr>)"

definition count_metric :: "pipeline_stage \<Rightarrow> (stage_metrics \<Rightarrow> stage_metrics) \<Rightarrow> (pipeline, unit) comp" where
  "count_metric s f = update_stage s (\<lambda>a. a\<lparr>st_metrics := f (st_metrics a)\<rparr>)"

definition metric_dropped :: "pipeline_stage \<Rightarrow> (pipeline, unit) comp" where
  "metric_dropped s = count_metric s (\<lambda>m. m\<lparr>dropped := dropped m + 1\<rparr>)"

definition metric_completed :: "pipeline_stage \<Rightarrow> (pipeline, unit) comp" where
  "metric_completed s = count_metric s (\<lambda>m. m\<lparr>completed := completed m + 1\<rparr>)"

definition set_processing :: "pipeline_stage \<Rightarrow> bool \<Rightarrow> (pipeline, unit) comp" where
  "set_processing s b = count_metric s (\<lambda>m. m\<lparr>processing := b\<rparr>)"

text \<open>Overwriting a bytearray in place, and the item as \<open>encode_item\<close> reads it.\<close>

fun zero_frames :: "nat list \<Rightarrow> byte list list \<Rightarrow> byte list list" where
  "zero_frames [] h = h"
| "zero_frames (a # as) h = zero_frames as (h[a := replicate (length (h ! a)) 0])"

definition destroy_frames :: "nat list \<Rightarrow> (pipeline, unit) comp" where
  "destroy_frames as = modifies (\<lambda>p. p\<lparr>pl_heap := zero_frames as (pl_heap p)\<rparr>)"

definition destroy :: "raw_item \<Rightarrow> (pipeline, unit) comp" where
  "destroy item = destroy_frames (raw_frames item)"

definition read_item :: "raw_item \<Rightarrow> pipeline \<Rightarrow> pipeline_item" where
  "read_item item p = \<lparr>item_stage = RAW, item_record_id = raw_record_id item,
     item_generation = raw_generation item, item_revision = raw_revision item,
     item_deadline_ns = raw_deadline_ns item,
     item_frames = map (\<lambda>a. pl_heap p ! a) (raw_frames item)\<rparr>"

section \<open>Cancellation\<close>

definition event_for :: "capture_generation \<Rightarrow> (pipeline, nat) comp" where
  "event_for gen = bindE (reads pl_registry) (\<lambda>r.
     case reg_events r (gen_value gen) of
       Some e \<Rightarrow> ret e
     | None \<Rightarrow>
         seqE (modifies (\<lambda>p. p\<lparr>pl_registry := r\<lparr>reg_events := (reg_events r)(gen_value gen \<mapsto> length (reg_heap r)),
             reg_heap := reg_heap r @ [False]\<rparr>\<rparr>))
           (ret (length (reg_heap r))))"

definition registry_attach :: "capture_work_permit \<Rightarrow> (pipeline, cancellation_token) comp" where
  "registry_attach permit = bindE (event_for (permit_generation permit)) (\<lambda>e.
     seqE (modifies (\<lambda>p. p\<lparr>pl_registry := (pl_registry p)\<lparr>reg_permits :=
         (reg_permits (pl_registry p))(gen_value (permit_generation permit) \<mapsto> permit)\<rparr>\<rparr>))
       (ret \<lparr>tok_generation = permit_generation permit, tok_event = e, tok_permit = Some permit\<rparr>))"

definition registry_token :: "capture_generation \<Rightarrow> (pipeline, cancellation_token) comp" where
  "registry_token gen = bindE (event_for gen) (\<lambda>e.
     bindE (reads (\<lambda>p. reg_permits (pl_registry p) (gen_value gen))) (\<lambda>permit.
     ret \<lparr>tok_generation = gen, tok_event = e, tok_permit = permit\<rparr>))"

definition registry_cancel :: "capture_generation \<Rightarrow> (pipeline, unit) comp" where
  "registry_cancel gen = bindE (event_for gen) (\<lambda>e.
     modifies (\<lambda>p. p\<lparr>pl_registry := (pl_registry p)\<lparr>reg_heap := (reg_heap (pl_registry p))[e := True]\<rparr>\<rparr>))"

definition registry_clear :: "capture_generation \<Rightarrow> (pipeline, unit) comp" where
  "registry_clear gen = modifies (\<lambda>p. p\<lparr>pl_registry := (pl_registry p)\<lparr>
     reg_events := (reg_events (pl_registry p))(gen_value gen := None),
     reg_permits := (reg_permits (pl_registry p))(gen_value gen := None)\<rparr>\<rparr>)"

definition token_cancelled :: "cancellation_token \<Rightarrow> pipeline \<Rightarrow> bool" where
  "token_cancelled t p \<longleftrightarrow> reg_heap (pl_registry p) ! tok_event t \<or>
     (case tok_permit t of None \<Rightarrow> False | Some permit \<Rightarrow> permit_cancelled permit (pl_gate p))"

section \<open>Ingress\<close>

definition assert_pipeline_owner :: "int \<Rightarrow> string \<Rightarrow> (pipeline, unit) comp" where
  "assert_pipeline_owner tid msg = bindE (reads pl_owner) (\<lambda>owner. require (tid = owner) (RuntimeError msg))"

definition handle_overload :: "raw_item \<Rightarrow> (pipeline, submission_result) comp" where
  "handle_overload item = bindE (reads (\<lambda>p. overload_policy (pl_limits p))) (\<lambda>policy.
     if policy = DROP_NEWEST then
       seqE (destroy item)
         (ret \<lparr>sub_record_id = raw_record_id item, sub_status = DROPPED, replaced_record_id = None\<rparr>)
     else
       bindE (reads pl_coalesced) (\<lambda>previous.
       seqE (modifies (\<lambda>p. p\<lparr>pl_coalesced := Some item\<rparr>))
       (seqE (case previous of None \<Rightarrow> ret () | Some q \<Rightarrow> destroy q)
         (ret \<lparr>sub_record_id = raw_record_id item, sub_status = COALESCED,
               replaced_record_id = map_option raw_record_id previous\<rparr>))))"

text \<open>
  The send inside the \<open>try\<close> block: an encoding error is not one of the exceptions it handles, so
  it propagates with the credit still held; a refused send gives the credit back.
\<close>

definition send_encoded :: "pipeline_io \<Rightarrow> pipeline_stage \<Rightarrow> pipeline_item \<Rightarrow> (pipeline, bool) comp" where
  "send_encoded io s item =
     bindE (reads (\<lambda>p. encode_item (io_codec io) (pl_limits p) item)) (\<lambda>encoded.
     bindE (lift encoded) (\<lambda>parts.
     if io_sent io then seqE (enqueue s parts) (ret True)
     else seqE (drop_credit s (item_generation item)) (ret False)))"

definition log_submitted :: "pipeline_item \<Rightarrow> (pipeline, unit) comp" where
  "log_submitted item = modifies (\<lambda>p. p\<lparr>pl_submitted := item # pl_submitted p\<rparr>)"

definition submit ::
    "pipeline_io \<Rightarrow> int \<Rightarrow> raw_item \<Rightarrow> capture_work_permit \<Rightarrow> (pipeline, submission_result) comp" where
  "submit io tid item permit =
     seqE (assert_pipeline_owner tid ''pipeline ingress used from a non-owner thread'')
     (bindE (reads pl_ingress_closed) (\<lambda>closed.
      if closed then seqE (destroy item) (raise (RuntimeError ''pipeline ingress is closed''))
      else
        bindE (registry_attach permit) (\<lambda>_.
        bindE (reads (\<lambda>p. permit_cancelled permit (pl_gate p))) (\<lambda>cancelled.
        if cancelled then
          seqE (destroy item)
            (ret \<lparr>sub_record_id = raw_record_id item, sub_status = DROPPED, replaced_record_id = None\<rparr>)
        else
          bindE (take_credit RAW (raw_generation item)) (\<lambda>granted.
          if \<not> granted then handle_overload item
          else
            bindE (reads (read_item item)) (\<lambda>contents.
            bindE (send_encoded io RAW contents) (\<lambda>sent.
            if \<not> sent then handle_overload item
            else
              seqE (log_submitted contents)
              (seqE (destroy item)
                (ret \<lparr>sub_record_id = raw_record_id item, sub_status = ACCEPTED,
                      replaced_record_id = None\<rparr>)))))))))"

definition ingress_flush_coalesced ::
    "pipeline_io \<Rightarrow> int \<Rightarrow> capture_work_permit \<Rightarrow> (pipeline, submission_result option) comp" where
  "ingress_flush_coalesced io tid permit =
     seqE (assert_pipeline_owner tid ''pipeline ingress used from a non-owner thread'')
     (bindE (reads pl_coalesced) (\<lambda>held.
      case held of
        None \<Rightarrow> ret None
      | Some item \<Rightarrow>
          bindE (reads (\<lambda>p. permit_cancelled permit (pl_gate p))) (\<lambda>cancelled.
          if raw_generation item \<noteq> permit_generation permit \<or> cancelled then
            seqE (modifies (\<lambda>p. p\<lparr>pl_coalesced := None\<rparr>))
            (seqE (destroy item)
              (ret (Some \<lparr>sub_record_id = raw_record_id item, sub_status = DROPPED,
                          replaced_record_id = None\<rparr>)))
          else
            bindE (take_credit RAW (raw_generation item)) (\<lambda>granted.
            if \<not> granted then
              ret (Some \<lparr>sub_record_id = raw_record_id item, sub_status = COALESCED,
                         replaced_record_id = None\<rparr>)
            else
              bindE (reads (read_item item)) (\<lambda>contents.
              bindE (send_encoded io RAW contents) (\<lambda>sent.
              if \<not> sent then
                ret (Some \<lparr>sub_record_id = raw_record_id item, sub_status = COALESCED,
                           replaced_record_id = None\<rparr>)
              else
                seqE (log_submitted contents)
                (seqE (modifies (\<lambda>p. p\<lparr>pl_coalesced := None\<rparr>))
                (seqE (destroy item)
                  (ret (Some \<lparr>sub_record_id = raw_record_id item, sub_status = ACCEPTED,
                              replaced_record_id = None\<rparr>))))))))))"

definition clear_coalesced :: "int option \<Rightarrow> (pipeline, unit) comp" where
  "clear_coalesced generation_value = bindE (reads pl_coalesced) (\<lambda>held.
     case held of
       None \<Rightarrow> ret ()
     | Some item \<Rightarrow>
         if generation_value \<noteq> None \<and> Some (gen_value (raw_generation item)) \<noteq> generation_value
         then ret ()
         else seqE (modifies (\<lambda>p. p\<lparr>pl_coalesced := None\<rparr>)) (destroy item))"

definition has_coalesced :: "int option \<Rightarrow> pipeline \<Rightarrow> bool" where
  "has_coalesced generation_value p = (case pl_coalesced p of
     None \<Rightarrow> False
   | Some item \<Rightarrow> generation_value = None \<or> generation_value = Some (gen_value (raw_generation item)))"

definition ingress_close :: "int \<Rightarrow> (pipeline, unit) comp" where
  "ingress_close tid =
     seqE (assert_pipeline_owner tid ''pipeline ingress used from a non-owner thread'')
     (bindE (reads pl_ingress_closed) (\<lambda>closed.
      if closed then ret ()
      else seqE (clear_coalesced None) (modifies (\<lambda>p. p\<lparr>pl_ingress_closed := True\<rparr>))))"

section \<open>Stage actors\<close>

definition emit_fault ::
    "pipeline_io \<Rightarrow> pipeline_stage \<Rightarrow> uuid \<Rightarrow> pipeline_fault_code \<Rightarrow> (pipeline, unit) comp" where
  "emit_fault io s record_id code =
     seqE (count_metric s (\<lambda>m. m\<lparr>faults := faults m + 1\<rparr>))
     (if io_fault_emitted io
      then modifies (\<lambda>p. p\<lparr>pl_fault_events :=
        \<lparr>fe_record_id = record_id, fe_stage = s, fe_code = code\<rparr> # pl_fault_events p\<rparr>)
      else update_stage s (\<lambda>a. a\<lparr>st_polling := False\<rparr>))"

fun next_stage :: "pipeline_stage \<Rightarrow> pipeline_stage option" where
  "next_stage RAW = Some ANALYZED"
| "next_stage ANALYZED = Some REDACTED"
| "next_stage REDACTED = Some ENCRYPTED"
| "next_stage ENCRYPTED = None"

definition validate_output ::
    "pipeline_stage \<Rightarrow> pipeline_item \<Rightarrow> pipeline_item \<Rightarrow> (pipeline, unit) comp" where
  "validate_output s src out =
     seqE (require (Some (item_stage out) = next_stage s)
       (PipelineProtocolError ''processor returned the wrong stage''))
     (seqE (require (item_record_id out = item_record_id src)
       (PipelineProtocolError ''processor changed the record identifier''))
     (seqE (require (item_generation out = item_generation src)
       (PipelineProtocolError ''processor changed the capture generation''))
     (require (item_revision out = item_revision src)
       (PipelineProtocolError ''processor changed the configuration revision''))))"

definition send_output ::
    "pipeline_io \<Rightarrow> pipeline_stage \<Rightarrow> pipeline_item \<Rightarrow> (pipeline, bool) comp" where
  "send_output io s out = (case next_stage s of
     None \<Rightarrow> raise (PipelineProtocolError ''pipeline stage has no output edge'')
   | Some next \<Rightarrow>
       bindE (take_credit next (item_generation out)) (\<lambda>granted.
       if \<not> granted then ret False else send_encoded io next out))"

definition run_processor :: "pipeline_io \<Rightarrow> pipeline_item \<Rightarrow> (pipeline, pipeline_item) comp" where
  "run_processor io item = bindE (lift (io_process io item)) (\<lambda>out.
     seqE (modifies (\<lambda>p. p\<lparr>pl_calls := (item, out) # pl_calls p\<rparr>)) (ret out))"

definition persist :: "pipeline_io \<Rightarrow> pipeline_item \<Rightarrow> (pipeline, unit) comp" where
  "persist io item =
     bindE (on_pl_gate (acquire_persistence_operation (item_generation item))) (\<lambda>permit.
     finallyE
       (bindE (lift (io_persist io item)) (\<lambda>_.
        modifies (\<lambda>p. p\<lparr>pl_sunk := (item, pl_gate p) # pl_sunk p\<rparr>)))
       (on_pl_gate (release_operation (permit_generation permit))))"

fun gate_refusal :: "exn \<Rightarrow> bool" where
  "gate_refusal (CaptureGateClosed _) = True"
| "gate_refusal (StaleCaptureGeneration _) = True"
| "gate_refusal _ = False"

fun protocol_error :: "exn \<Rightarrow> bool" where
  "protocol_error (PipelineProtocolError _) = True"
| "protocol_error _ = False"

text \<open>
  \<open>_handle_parts\<close> in two halves, up to the call of the processor or the sink and from there on, so
  that other threads may run in between. The first half says whether there is a second.
\<close>

definition admit ::
    "pipeline_io \<Rightarrow> pipeline_stage \<Rightarrow> byte list list \<Rightarrow>
     (pipeline, (pipeline_item \<times> cancellation_token) option) comp" where
  "admit io s parts =
     bindE (reads (\<lambda>p. decode_item (io_codec io) (pl_limits p) s parts)) (\<lambda>decoded.
     bindE (lift decoded) (\<lambda>item.
     bindE (registry_token (item_generation item)) (\<lambda>token.
     bindE (reads (\<lambda>p. st_faulted (pl_stages p s) \<or> token_cancelled token p \<or>
       io_now_ns io \<ge> item_deadline_ns item)) (\<lambda>discard.
     if discard then seqE (metric_dropped s) (ret None)
     else
       catchE
         (seqE (on_pl_gate (require_current_generation (item_generation item)))
         (seqE (set_processing s True) (ret (Some (item, token)))))
         (\<lambda>e. if gate_refusal e then seqE (metric_dropped s) (ret None) else raise e)))))"

definition advance ::
    "pipeline_io \<Rightarrow> pipeline_stage \<Rightarrow> pipeline_item \<Rightarrow> cancellation_token \<Rightarrow> (pipeline, unit) comp" where
  "advance io s item token =
     (if s = ENCRYPTED then seqE (persist io item) (metric_completed s)
      else
        bindE (run_processor io item) (\<lambda>out.
        bindE (reads (token_cancelled token)) (\<lambda>cancelled.
        if cancelled then metric_dropped s
        else
          seqE (on_pl_gate (require_current_generation (item_generation item)))
          (seqE (validate_output s item out)
          (bindE (send_output io s out) (\<lambda>sent.
           if \<not> sent then metric_dropped s else metric_completed s))))))"

definition on_exception :: "pipeline_io \<Rightarrow> pipeline_stage \<Rightarrow> uuid \<Rightarrow> exn \<Rightarrow> (pipeline, unit) comp" where
  "on_exception io s record_id e =
     (if gate_refusal e then metric_dropped s
      else seqE (update_stage s (\<lambda>a. a\<lparr>st_faulted := True\<rparr>))
        (emit_fault io s record_id
          (if protocol_error e then PROTOCOL_FAILURE
           else if s = ENCRYPTED then PERSISTENCE_FAILURE else PROCESSOR_FAILURE)))"

definition guarded ::
    "pipeline_io \<Rightarrow> pipeline_stage \<Rightarrow> byte list list \<Rightarrow> (pipeline, unit) comp \<Rightarrow> (pipeline, unit) comp" where
  "guarded io s parts body =
     bindE (reads (\<lambda>p. decode_item (io_codec io) (pl_limits p) s parts)) (\<lambda>decoded.
     let (peek_id, peek_gen) = peek_record_and_generation (io_codec io) parts;
         record_id = (case decoded of Inr item \<Rightarrow> item_record_id item
           | Inl _ \<Rightarrow> (case peek_id of Some i \<Rightarrow> i | None \<Rightarrow> 0));
         generation = (case decoded of Inr item \<Rightarrow> Some (item_generation item) | Inl _ \<Rightarrow> peek_gen)
     in finallyE
          (catchE body (on_exception io s record_id))
          (seqE (set_processing s False)
            (case generation of None \<Rightarrow> ret () | Some gen \<Rightarrow> drop_credit s gen)))"

definition handle_parts ::
    "pipeline_io \<Rightarrow> pipeline_stage \<Rightarrow> byte list list \<Rightarrow> (pipeline, unit) comp" where
  "handle_parts io s parts = guarded io s parts
     (bindE (admit io s parts) (\<lambda>r. case r of None \<Rightarrow> ret () | Some (item, token) \<Rightarrow>
        advance io s item token))"

definition metric_received :: "pipeline_stage \<Rightarrow> (pipeline, unit) comp" where
  "metric_received s = count_metric s (\<lambda>m. m\<lparr>received := received m + 1\<rparr>)"

text \<open>A poll whose receive fails; one that times out changes nothing.\<close>

definition poll_transport_failure :: "pipeline_io \<Rightarrow> pipeline_stage \<Rightarrow> (pipeline, unit) comp" where
  "poll_transport_failure io s =
     seqE (emit_fault io s 0 TRANSPORT_FAILURE) (update_stage s (\<lambda>a. a\<lparr>st_faulted := True\<rparr>))"

definition poll_once :: "pipeline_io \<Rightarrow> pipeline_stage \<Rightarrow> (pipeline, unit) comp" where
  "poll_once io s = bindE (reads (\<lambda>p. pl_queues p s)) (\<lambda>q. case q of
     [] \<Rightarrow> ret ()
   | parts # rest \<Rightarrow>
       seqE (modifies (\<lambda>p. p\<lparr>pl_queues := (pl_queues p)(s := rest)\<rparr>))
       (seqE (metric_received s) (handle_parts io s parts)))"

text \<open>Draining reads until the socket has no more messages.\<close>

fun drain_messages :: "header_codec \<Rightarrow> pipeline_stage \<Rightarrow> byte list list list \<Rightarrow> (pipeline, int) comp" where
  "drain_messages c s [] = ret 0"
| "drain_messages c s (parts # rest) =
     seqE (modifies (\<lambda>p. p\<lparr>pl_queues := (pl_queues p)(s := rest)\<rparr>))
     (seqE (case snd (peek_record_and_generation c parts) of None \<Rightarrow> ret () | Some gen \<Rightarrow> drop_credit s gen)
     (seqE (metric_dropped s)
     (bindE (drain_messages c s rest) (\<lambda>n. ret (n + 1)))))"

definition drain :: "header_codec \<Rightarrow> pipeline_stage \<Rightarrow> (pipeline, int) comp" where
  "drain c s = bindE (reads (\<lambda>p. pl_queues p s)) (drain_messages c s)"

section \<open>Runtime\<close>

text \<open>\<open>CaptureGate.run_capture\<close> around an operation on the whole pipeline.\<close>

definition run_capture_in ::
    "(capture_work_permit \<Rightarrow> (pipeline, 'a) comp) \<Rightarrow> (pipeline, 'a) comp" where
  "run_capture_in operation =
     bindE (on_pl_gate acquire_capture_operation) (\<lambda>permit.
       finallyE (operation permit) (on_pl_gate (release_operation (permit_generation permit))))"

definition submit_raw ::
    "pipeline_io \<Rightarrow> int \<Rightarrow> uuid \<Rightarrow> nat list \<Rightarrow> capture_generation \<Rightarrow> int option \<Rightarrow>
     (pipeline, submission_result) comp" where
  "submit_raw io tid record_id frames expected_generation deadline_ns =
     seqE (assert_pipeline_owner tid ''pipeline runtime used from a non-owner thread'')
     (let deadline = (case deadline_ns of
            Some d \<Rightarrow> if d \<noteq> 0 then d else io_now_ns io + 30000000000
          | None \<Rightarrow> io_now_ns io + 30000000000)
      in catchE
        (run_capture_in (\<lambda>permit.
          if permit_generation permit \<noteq> expected_generation
          then raise (StaleCaptureGeneration ''captured frame generation is stale'')
          else submit io tid \<lparr>raw_record_id = record_id, raw_generation = expected_generation,
            raw_revision = permit_configuration_revision permit, raw_deadline_ns = deadline,
            raw_frames = frames\<rparr> permit))
        (\<lambda>e. seqE (destroy_frames frames) (raise e)))"

definition flush_coalesced :: "pipeline_io \<Rightarrow> int \<Rightarrow> (pipeline, submission_result option) comp" where
  "flush_coalesced io tid =
     seqE (assert_pipeline_owner tid ''pipeline runtime used from a non-owner thread'')
       (run_capture_in (ingress_flush_coalesced io tid))"

definition cancel_queued :: "capture_generation \<Rightarrow> (pipeline, unit) comp" where
  "cancel_queued gen = seqE (registry_cancel gen) (clear_coalesced (Some (gen_value gen)))"

definition cancel_in_flight :: "capture_generation \<Rightarrow> (pipeline, unit) comp" where
  "cancel_in_flight gen = registry_cancel gen"

text \<open>
  The schedule gives, for each edge in turn, the time left when it is reached and the wake-ups of
  its waiting loop.
\<close>

fun wait_edges ::
    "capture_generation \<Rightarrow> (pipeline_stage \<times> int \<times> (int \<times> capture_generation list) list) list \<Rightarrow>
     (pipeline, bool) comp" where
  "wait_edges gen [] = reads (\<lambda>p. \<not> has_coalesced (Some (gen_value gen)) p)"
| "wait_edges gen ((s, remaining, wakeups) # rest) =
     (if remaining \<le> 0 then ret False
      else
        bindE (\<lambda>p. case wait_for_zero gen wakeups (pl_ledgers p s) of (b, l) \<Rightarrow>
          (Inr b, p\<lparr>pl_ledgers := (pl_ledgers p)(s := l)\<rparr>)) (\<lambda>zero.
        if \<not> zero then ret False else wait_edges gen rest))"

definition wait_for_quiescence ::
    "capture_generation \<Rightarrow> (pipeline_stage \<Rightarrow> int \<times> (int \<times> capture_generation list) list) \<Rightarrow>
     (pipeline, bool) comp" where
  "wait_for_quiescence gen schedule =
     wait_edges gen (map (\<lambda>s. (s, schedule s)) [RAW, ANALYZED, REDACTED, ENCRYPTED])"

definition clear_volatile_buffers ::
    "header_codec \<Rightarrow> (pipeline_stage \<Rightarrow> bool) \<Rightarrow> capture_generation option \<Rightarrow> (pipeline, unit) comp" where
  "clear_volatile_buffers c answers gen =
     seqE (clear_coalesced (map_option gen_value gen))
     (seqE (foldr (\<lambda>s rest. seqE (if answers s then bindE (drain c s) (\<lambda>_. ret ())
           else raise (ActorError ''timeout'')) rest) [ENCRYPTED, REDACTED, ANALYZED, RAW] (ret ()))
       (case gen of None \<Rightarrow> ret () | Some g \<Rightarrow> registry_clear g))"

definition pipeline_close :: "int \<Rightarrow> (pipeline, unit) comp" where
  "pipeline_close tid =
     seqE (assert_pipeline_owner tid ''pipeline runtime used from a non-owner thread'')
     (bindE (reads pl_closed) (\<lambda>closed.
      if closed then ret ()
      else seqE (ingress_close tid)
        (modifies (\<lambda>p. p\<lparr>pl_queues := (\<lambda>_. []), pl_closed := True\<rparr>))))"

end
