(* ===== verification/Pipeline_Safety.thy ===== *)
theory Pipeline_Safety
  imports Pipeline_Runtime
begin

text \<open>
  What the capture pipeline guarantees: every message on an edge is backed by a credit of that
  edge, so no queue grows beyond its capacity; every message is the encoding of an item that
  descends from an accepted raw frame through the processors of all stages before it; and what the
  sink is given has been through all of them, under a generation the gate still admits.
\<close>

section \<open>Lineage\<close>

definition follows :: "pipeline_item \<Rightarrow> pipeline_item \<Rightarrow> bool" where
  "follows x y \<longleftrightarrow> next_stage (item_stage x) = Some (item_stage y) \<and>
    item_record_id y = item_record_id x \<and> item_generation y = item_generation x \<and>
    item_revision y = item_revision x"

inductive lineage :: "pipeline_item set \<Rightarrow> (pipeline_item \<times> pipeline_item) set \<Rightarrow> pipeline_item \<Rightarrow> bool"
  for raws calls where
  offered: "x \<in> raws \<Longrightarrow> item_stage x = RAW \<Longrightarrow> lineage raws calls x"
| processed: "lineage raws calls x \<Longrightarrow> (x, y) \<in> calls \<Longrightarrow> follows x y \<Longrightarrow> lineage raws calls y"

lemma lineage_mono:
  "lineage raws calls x \<Longrightarrow> raws \<subseteq> raws' \<Longrightarrow> calls \<subseteq> calls' \<Longrightarrow> lineage raws' calls' x"
  by (induction rule: lineage.induct) (auto intro: lineage.intros)

inductive_cases lineageE: "lineage raws calls x"

definition lineages :: "pipeline \<Rightarrow> pipeline_item \<Rightarrow> bool" where
  "lineages p = lineage (set (pl_submitted p)) (set (pl_calls p))"

section \<open>One edge\<close>

text \<open>
  The items queued on an edge and the items its stage has in hand: all of the right stage and
  lineage, each backed by a credit of its generation.
\<close>

definition edge_ok ::
    "header_codec \<Rightarrow> pipeline_limits \<Rightarrow> (pipeline_item \<Rightarrow> bool) \<Rightarrow> pipeline_stage \<Rightarrow> ledger \<Rightarrow>
     byte list list list \<Rightarrow> pipeline_item list \<Rightarrow> bool" where
  "edge_ok c limits known s l q hand \<longleftrightarrow> ledger_capacity l = edge_capacity limits s \<and>
    (\<exists>items. list_all2 (\<lambda>it parts. encode_item c limits it = Inr parts) items q \<and>
       (\<forall>it \<in> set (hand @ items). known it \<and> item_stage it = s) \<and>
       edge.backed l (map item_generation (hand @ items)))"

lemma edge_ok_mono:
  "edge_ok c limits known s l q hand \<Longrightarrow> (\<And>x. known x \<Longrightarrow> known' x) \<Longrightarrow> edge_ok c limits known' s l q hand"
  unfolding edge_ok_def by blast

lemma edge_bound: "edge_ok c limits known s l q hand \<Longrightarrow> int (length hand + length q) \<le> edge_capacity limits s"
  unfolding edge_ok_def using edge.backed_bound by (fastforce dest: list_all2_lengthD)

lemma edge_refused:
  "edge_ok c limits known s l q hand \<Longrightarrow> try_acquire g l = (False, l') \<Longrightarrow>
    edge_ok c limits known s l' q hand"
  unfolding edge_ok_def using edge.backed_refused by fastforce

lemma edge_granted:
  assumes "edge_ok c limits known s l q hand" and "try_acquire g l = (True, l')"
  shows "edge_ok c limits known s l' q hand"
proof -
  from assms(1) obtain items where items: "list_all2 (\<lambda>it parts. encode_item c limits it = Inr parts) items q"
    "\<forall>it \<in> set (hand @ items). known it \<and> item_stage it = s"
    "edge.backed l (map item_generation (hand @ items))" "ledger_capacity l = edge_capacity limits s"
    by (auto simp: edge_ok_def)
  from edge.backed_acquire [OF items(3) assms(2)]
  have "edge.backed l' (map item_generation (hand @ items))" "ledger_capacity l' = ledger_capacity l"
    by (auto intro: edge.backed_drop)
  with items show ?thesis by (auto simp: edge_ok_def)
qed

lemma edge_push:
  assumes "edge_ok c limits known s l q hand" and "try_acquire (item_generation it) l = (True, l')"
    and "encode_item c limits it = Inr parts" and "known it" and "item_stage it = s"
  shows "edge_ok c limits known s l' (q @ [parts]) hand"
proof -
  from assms(1) obtain items where items: "list_all2 (\<lambda>it parts. encode_item c limits it = Inr parts) items q"
    "\<forall>it \<in> set (hand @ items). known it \<and> item_stage it = s"
    "edge.backed l (map item_generation (hand @ items))" "ledger_capacity l = edge_capacity limits s"
    by (auto simp: edge_ok_def)
  from edge.backed_acquire [OF items(3) assms(2)]
  have backed: "edge.backed l' (map item_generation (hand @ items @ [it]))"
    "ledger_capacity l' = ledger_capacity l"
    by (auto intro: edge.backed_perm)
  have "list_all2 (\<lambda>it parts. encode_item c limits it = Inr parts) (items @ [it]) (q @ [parts])"
    using items(1) assms(3) by (simp add: list_all2_appendI)
  with items backed assms(4,5) show ?thesis
    unfolding edge_ok_def by (intro conjI exI [of _ "items @ [it]"]) auto
qed

lemma edge_unsent:
  assumes "edge_ok c limits known s l q hand" and "try_acquire g l = (True, l')"
  shows "edge_ok c limits known s (snd (release_if_acquired g l')) q hand"
proof -
  from assms(1) obtain items where items: "list_all2 (\<lambda>it parts. encode_item c limits it = Inr parts) items q"
    "\<forall>it \<in> set (hand @ items). known it \<and> item_stage it = s"
    "edge.backed l (map item_generation (hand @ items))" "ledger_capacity l = edge_capacity limits s"
    by (auto simp: edge_ok_def)
  obtain b l'' where r: "release_if_acquired g l' = (b, l'')" by fastforce
  from edge.backed_acquire [OF items(3) assms(2)] edge.backed_give_up [OF _ _ r]
  have "edge.backed l'' (map item_generation (hand @ items))" "ledger_capacity l'' = ledger_capacity l"
    by force+
  with items r show ?thesis by (auto simp: edge_ok_def)
qed

lemma edge_pop:
  assumes "edge_ok c limits known s l (parts # q) hand"
  shows "\<exists>it. encode_item c limits it = Inr parts \<and> known it \<and> item_stage it = s \<and>
    edge_ok c limits known s l q (it # hand)"
proof -
  from assms obtain it items where items: "encode_item c limits it = Inr parts"
    "list_all2 (\<lambda>it parts. encode_item c limits it = Inr parts) items q"
    "\<forall>i \<in> set (hand @ it # items). known i \<and> item_stage i = s"
    "edge.backed l (map item_generation (hand @ it # items))" "ledger_capacity l = edge_capacity limits s"
    by (auto simp: edge_ok_def list_all2_Cons2)
  then have "edge.backed l (map item_generation ((it # hand) @ items))"
    by (auto intro: edge.backed_perm)
  with items show ?thesis by (auto simp: edge_ok_def)
qed

lemma edge_done:
  assumes "edge_ok c limits known s l q (it # hand)"
  shows "edge_ok c limits known s (snd (release_if_acquired (item_generation it) l)) q hand"
proof -
  from assms obtain items where items: "list_all2 (\<lambda>it parts. encode_item c limits it = Inr parts) items q"
    "\<forall>i \<in> set (hand @ items). known i \<and> item_stage i = s"
    "edge.backed l (item_generation it # map item_generation (hand @ items))"
    "ledger_capacity l = edge_capacity limits s"
    by (auto simp: edge_ok_def)
  obtain b l' where r: "release_if_acquired (item_generation it) l = (b, l')" by fastforce
  from edge.backed_give_up [OF items(3) _ r]
  have "edge.backed l' (map item_generation (hand @ items))" "ledger_capacity l' = ledger_capacity l"
    by auto
  with items r show ?thesis by (auto simp: edge_ok_def)
qed

lemma edge_emptied: "edge_ok c limits known s l q hand \<Longrightarrow> edge_ok c limits known s l [] hand"
  unfolding edge_ok_def by (fastforce elim: edge.backed_drop)

section \<open>The whole pipeline\<close>

definition flow_okL ::
    "header_codec \<Rightarrow> pipeline_limits \<Rightarrow> (pipeline_item \<Rightarrow> bool) \<Rightarrow>
     (pipeline_stage \<Rightarrow> pipeline_item list) \<Rightarrow> pipeline \<Rightarrow> bool" where
  "flow_okL c limits known hand p \<longleftrightarrow> pl_limits p = limits \<and>
    (\<forall>s. edge_ok c limits known s (pl_ledgers p s) (pl_queues p s) (hand s)) \<and>
    (\<forall>(it, g) \<in> set (pl_sunk p). known it \<and> item_stage it = ENCRYPTED \<and> may_persist g (item_generation it))"

definition flow_ok :: "header_codec \<Rightarrow> pipeline_limits \<Rightarrow> (pipeline_stage \<Rightarrow> pipeline_item list) \<Rightarrow> pipeline \<Rightarrow> bool" where
  "flow_ok c limits hand p \<longleftrightarrow> flow_okL c limits (lineages p) hand p"

lemma flow_okL_mono: "flow_okL c limits known hand p \<Longrightarrow> (\<And>x. known x \<Longrightarrow> known' x) \<Longrightarrow> flow_okL c limits known' hand p"
  using edge_ok_mono [of c limits known _ _ _ _ known'] unfolding flow_okL_def by fast

text \<open>Fields that the flow depends on; everything else may change freely.\<close>

definition same_flow :: "pipeline \<Rightarrow> pipeline \<Rightarrow> bool" where
  "same_flow p q \<longleftrightarrow> pl_limits q = pl_limits p \<and> pl_ledgers q = pl_ledgers p \<and> pl_queues q = pl_queues p \<and>
    pl_submitted q = pl_submitted p \<and> pl_calls q = pl_calls p \<and> pl_sunk q = pl_sunk p"

lemma same_flow_refl [simp]: "same_flow p p"
  by (simp add: same_flow_def)

lemma same_flow_trans: "same_flow p q \<Longrightarrow> same_flow q r \<Longrightarrow> same_flow p r"
  by (simp add: same_flow_def)

lemma flow_okL_same: "same_flow p q \<Longrightarrow> flow_okL c limits known hand q = flow_okL c limits known hand p"
  by (simp add: flow_okL_def same_flow_def)

lemma flow_ok_same: "same_flow p q \<Longrightarrow> flow_ok c limits hand q = flow_ok c limits hand p"
  by (simp add: flow_ok_def flow_okL_def lineages_def same_flow_def)

definition neutral :: "(pipeline, 'a) comp \<Rightarrow> bool" where
  "neutral m \<longleftrightarrow> (\<forall>p. wp m (\<lambda>_. same_flow p) (\<lambda>_. same_flow p) p)"

lemma neutralD: "neutral m \<Longrightarrow> wp m (\<lambda>_. same_flow p) (\<lambda>_. same_flow p) p"
  by (simp add: neutral_def)

lemma neutral_snd: "neutral m \<longleftrightarrow> (\<forall>p. same_flow p (snd (m p)))"
  by (simp add: neutral_def wp_any_exit)

lemma neutral_bindE [intro]: "neutral m \<Longrightarrow> (\<And>x. neutral (f x)) \<Longrightarrow> neutral (bindE m f)"
  unfolding neutral_snd bindE_def
  by (auto split: prod.splits sum.splits) (metis same_flow_trans snd_conv)+

lemma neutral_catchE [intro]: "neutral m \<Longrightarrow> (\<And>e. neutral (h e)) \<Longrightarrow> neutral (catchE m h)"
  unfolding neutral_snd catchE_def
  by (auto split: prod.splits sum.splits) (metis same_flow_trans snd_conv)+

lemma neutral_finallyE [intro]: "neutral m \<Longrightarrow> neutral f \<Longrightarrow> neutral (finallyE m f)"
  unfolding neutral_snd finallyE_def
  by (auto split: prod.splits sum.splits) (metis same_flow_trans snd_conv)+

lemma neutral_basic [intro]:
  "neutral (ret x)" "neutral (raise e)" "neutral (reads f)" "neutral (require b e)" "neutral (lift r)"
  by (auto simp: neutral_snd comp_defs)

lemma neutral_seqE [intro]: "neutral m \<Longrightarrow> neutral n \<Longrightarrow> neutral (seqE m n)"
  unfolding seqE_def by (intro neutral_bindE)

lemma neutral_if [intro]: "neutral m \<Longrightarrow> neutral n \<Longrightarrow> neutral (if b then m else n)"
  by simp

lemma neutral_option [intro]:
  "neutral m \<Longrightarrow> (\<And>x. neutral (f x)) \<Longrightarrow> neutral (case y of None \<Rightarrow> m | Some x \<Rightarrow> f x)"
  by (simp split: option.split)

lemma neutral_modifies: "(\<And>p. same_flow p (f p)) \<Longrightarrow> neutral (modifies f)"
  by (simp add: neutral_snd modifies_def)

lemma neutral_gate [intro]: "neutral (on_pl_gate m)"
  by (auto simp: neutral_snd on_pl_gate_def on_field_def same_flow_def split: prod.splits)

lemma neutral_effects [intro]:
  "neutral (update_stage s f)" "neutral (destroy_frames as)"
  "neutral (modifies (\<lambda>p. p\<lparr>pl_coalesced := x\<rparr>))"
  "neutral (modifies (\<lambda>p. p\<lparr>pl_ingress_closed := b\<rparr>))"
  "neutral (modifies (\<lambda>p. p\<lparr>pl_fault_events := h p\<rparr>))"
  "neutral (modifies (\<lambda>p. p\<lparr>pl_registry := r p\<rparr>))"
  by (auto simp: update_stage_def destroy_frames_def same_flow_def intro!: neutral_modifies)

lemma neutral_helpers [intro]:
  "neutral (count_metric s g)" "neutral (destroy item)"
  by (auto simp: count_metric_def destroy_def)

lemma neutral_metrics [intro]:
  "neutral (metric_dropped s)" "neutral (metric_completed s)" "neutral (set_processing s b)"
  "neutral (metric_received s)" "neutral (emit_fault io s i code)"
  by (auto simp: metric_dropped_def metric_completed_def set_processing_def metric_received_def
      emit_fault_def)

lemma neutral_event_for [intro]: "neutral (event_for g)"
  unfolding event_for_def by (intro neutral_bindE neutral_basic neutral_option neutral_seqE neutral_effects)

lemma neutral_registry [intro]:
  "neutral (registry_attach permit)" "neutral (registry_token g)" "neutral (registry_cancel g)"
  "neutral (registry_clear g)"
  unfolding registry_attach_def registry_token_def registry_cancel_def registry_clear_def
  by (intro neutral_bindE neutral_event_for neutral_seqE neutral_effects neutral_basic)+

lemma neutral_ingress [intro]:
  "neutral (assert_pipeline_owner tid msg)" "neutral (handle_overload item)"
  "neutral (clear_coalesced v)" "neutral (ingress_close tid)" "neutral (on_exception io s i e)"
  unfolding assert_pipeline_owner_def handle_overload_def clear_coalesced_def ingress_close_def on_exception_def
  by (intro neutral_bindE neutral_seqE neutral_if neutral_option neutral_effects neutral_basic
      neutral_helpers neutral_metrics)+

lemma neutral_admit [intro]: "neutral (admit io s parts)"
  unfolding admit_def
  by (intro neutral_bindE neutral_seqE neutral_if neutral_basic neutral_registry neutral_metrics
      neutral_catchE neutral_gate)


section \<open>Every operation keeps the flow\<close>

text \<open>A change at one edge.\<close>

lemma flow_ok_edge:
  assumes "flow_ok c limits hand p" and "pl_limits p' = pl_limits p" and "pl_sunk p' = pl_sunk p"
    and known: "\<And>x. lineages p x \<Longrightarrow> lineages p' x"
    and "\<And>t. t \<noteq> s \<Longrightarrow> pl_ledgers p' t = pl_ledgers p t \<and> pl_queues p' t = pl_queues p t \<and> hand' t = hand t"
    and "edge_ok c limits (lineages p') s (pl_ledgers p' s) (pl_queues p' s) (hand' s)"
  shows "flow_ok c limits hand' p'"
proof -
  have "flow_okL c limits (lineages p') hand p"
    using assms(1) flow_okL_mono [OF _ known] by (simp add: flow_ok_def)
  moreover have "edge_ok c limits (lineages p') t (pl_ledgers p' t) (pl_queues p' t) (hand' t)" for t
    using assms(2,5,6) \<open>flow_okL c limits (lineages p') hand p\<close> by (cases "t = s") (auto simp: flow_okL_def)
  ultimately show ?thesis
    using assms(2,3) by (simp add: flow_ok_def flow_okL_def)
qed

lemma flow_edge: "flow_ok c limits hand p \<Longrightarrow>
    edge_ok c limits (lineages p) s (pl_ledgers p s) (pl_queues p s) (hand s)"
  by (simp add: flow_ok_def flow_okL_def)

lemma lineages_frame [simp]:
  "lineages (p\<lparr>pl_ledgers := l\<rparr>) = lineages p" "lineages (p\<lparr>pl_queues := q\<rparr>) = lineages p"
  by (simp_all add: lineages_def)

lemma lineages_submitted: "lineages p x \<Longrightarrow> lineages (p\<lparr>pl_submitted := it # pl_submitted p\<rparr>) x"
  by (auto simp: lineages_def intro: lineage_mono)

lemma lineages_calls: "lineages p x \<Longrightarrow> lineages (p\<lparr>pl_calls := it # pl_calls p\<rparr>) x"
  by (auto simp: lineages_def intro: lineage_mono)

lemma wp_neutral:
  assumes "neutral m" and "\<And>x q. same_flow p q \<Longrightarrow> Q x q" and "\<And>e q. same_flow p q \<Longrightarrow> E e q"
  shows "wp m Q E p"
  by (rule wp_mono [OF neutralD [OF assms(1)]]) (auto intro: assms(2,3))

definition keeps ::
    "header_codec \<Rightarrow> pipeline_limits \<Rightarrow> (pipeline_stage \<Rightarrow> pipeline_item list) \<Rightarrow>
     (pipeline, 'a) comp \<Rightarrow> bool" where
  "keeps c limits hand m \<longleftrightarrow> (\<forall>p. flow_ok c limits hand p \<longrightarrow> wp m (\<lambda>_. flow_ok c limits hand) (\<lambda>_. flow_ok c limits hand) p)"

lemma keepsD: "keeps c limits hand m \<Longrightarrow> flow_ok c limits hand p \<Longrightarrow> wp m (\<lambda>_. flow_ok c limits hand) (\<lambda>_. flow_ok c limits hand) p"
  by (simp add: keeps_def)

lemma keeps_snd: "keeps c limits hand m \<Longrightarrow> flow_ok c limits hand p \<Longrightarrow> flow_ok c limits hand (snd (m p))"
  by (simp add: keeps_def wp_any_exit)

lemma keeps_neutral [intro]: "neutral m \<Longrightarrow> keeps c limits hand m"
  unfolding keeps_def using flow_ok_same by (blast intro: wp_neutral)

lemma keeps_bindE [intro]: "keeps c limits hand m \<Longrightarrow> (\<And>x. keeps c limits hand (f x)) \<Longrightarrow> keeps c limits hand (bindE m f)"
  unfolding keeps_def wp_bindE by (blast intro: wp_mono)

lemma keeps_seqE [intro]: "keeps c limits hand m \<Longrightarrow> keeps c limits hand n \<Longrightarrow> keeps c limits hand (seqE m n)"
  unfolding seqE_def by (intro keeps_bindE)

lemma keeps_if [intro]: "keeps c limits hand m \<Longrightarrow> keeps c limits hand n \<Longrightarrow> keeps c limits hand (if b then m else n)"
  by simp

lemma keeps_catchE [intro]: "keeps c limits hand m \<Longrightarrow> (\<And>e. keeps c limits hand (h e)) \<Longrightarrow> keeps c limits hand (catchE m h)"
  unfolding keeps_def wp_catchE by (blast intro: wp_mono)

lemma keeps_finallyE [intro]: "keeps c limits hand m \<Longrightarrow> keeps c limits hand f \<Longrightarrow> keeps c limits hand (finallyE m f)"
  unfolding keeps_def wp_finallyE by (blast intro: wp_mono)

lemma wp_take_credit [wp_rules]:
  "wp (take_credit s gen) Q E = (\<lambda>p. case try_acquire gen (pl_ledgers p s) of (b, l) \<Rightarrow>
     Q b (p\<lparr>pl_ledgers := (pl_ledgers p)(s := l)\<rparr>))"
  by (rule ext) (simp add: wp_def take_credit_def split: prod.split)

text \<open>
  The credit protocol of a send: without a grant nothing is queued, a refused send returns the
  credit, and an encoding error leaves at most a credit too many.
\<close>

lemma send_protocol:
  assumes ok: "flow_ok (io_codec io) limits hand p" and st: "item_stage it = s"
    and known: "lineages p it"
    and refused: "keeps (io_codec io) limits hand a"
    and sent: "\<And>b. keeps (io_codec io) limits hand (k b)"
  shows "wp (bindE (take_credit s (item_generation it)) (\<lambda>granted.
      if \<not> granted then a else bindE (send_encoded io s it) k))
    (\<lambda>_. flow_ok (io_codec io) limits hand) (\<lambda>_. flow_ok (io_codec io) limits hand) p"
proof -
  let ?c = "io_codec io"
  obtain b l where acq: "try_acquire (item_generation it) (pl_ledgers p s) = (b, l)" by fastforce
  let ?p = "p\<lparr>pl_ledgers := (pl_ledgers p)(s := l)\<rparr>"
  note e = flow_edge [OF ok, of s]
  have limits: "pl_limits p = limits" using ok by (simp add: flow_ok_def flow_okL_def)
  have granted: "flow_ok ?c limits hand ?p"
    using acq e by (intro flow_ok_edge [OF ok, where s = s]) (cases b; auto intro: edge_refused edge_granted)+
  have returned: "flow_ok ?c limits hand (p\<lparr>pl_ledgers := (pl_ledgers p)(s := snd (release_if_acquired (item_generation it) l))\<rparr>)"
    if b using acq e that by (intro flow_ok_edge [OF ok, where s = s]) (auto intro: edge_unsent)
  have queued: "flow_ok ?c limits hand (p\<lparr>pl_ledgers := (pl_ledgers p)(s := l),
      pl_queues := (pl_queues p)(s := pl_queues p s @ [parts])\<rparr>)"
    if b "encode_item ?c (pl_limits p) it = Inr parts" for parts
    using acq e that known st limits
    by (intro flow_ok_edge [OF ok, where s = s]) (auto intro: edge_push)
  show ?thesis
    using acq granted returned queued keepsD [OF refused] keepsD [OF sent]
    by (cases b; cases "encode_item ?c (pl_limits p) it")
      (auto simp: send_encoded_def wp_rules enqueue_def drop_credit_def)
qed

lemma offer_protocol:
  assumes ok: "flow_ok (io_codec io) limits hand p"
    and refused: "keeps (io_codec io) limits hand a" and unsent: "keeps (io_codec io) limits hand b"
    and accepted: "keeps (io_codec io) limits hand d"
  shows "wp (bindE (take_credit RAW (raw_generation item)) (\<lambda>granted.
      if \<not> granted then a
      else bindE (reads (read_item item)) (\<lambda>contents.
        bindE (send_encoded io RAW contents) (\<lambda>sent.
        if \<not> sent then b else seqE (log_submitted contents) d))))
    (\<lambda>_. flow_ok (io_codec io) limits hand) (\<lambda>_. flow_ok (io_codec io) limits hand) p"
proof -
  let ?c = "io_codec io" and ?it = "read_item item p"
  obtain g l where acq: "try_acquire (raw_generation item) (pl_ledgers p RAW) = (g, l)" by fastforce
  have it: "item_generation ?it = raw_generation item" "item_stage ?it = RAW"
    "read_item item (p\<lparr>pl_ledgers := x\<rparr>) = ?it" for x
    by (simp_all add: read_item_def)
  note e = flow_edge [OF ok, of RAW]
  have limits: "pl_limits p = limits" using ok by (simp add: flow_ok_def flow_okL_def)
  have granted: "flow_ok ?c limits hand (p\<lparr>pl_ledgers := (pl_ledgers p)(RAW := l)\<rparr>)"
    using acq e by (intro flow_ok_edge [OF ok, where s = RAW]) (cases g; auto intro: edge_refused edge_granted)+
  have returned: "flow_ok ?c limits hand (p\<lparr>pl_ledgers := (pl_ledgers p)(RAW := snd (release_if_acquired (raw_generation item) l))\<rparr>)"
    if g using acq e that by (intro flow_ok_edge [OF ok, where s = RAW]) (auto intro: edge_unsent)
  have queued: "flow_ok ?c limits hand (p\<lparr>pl_ledgers := (pl_ledgers p)(RAW := l),
      pl_queues := (pl_queues p)(RAW := pl_queues p RAW @ [parts]),
      pl_submitted := ?it # pl_submitted p\<rparr>)" (is "flow_ok _ _ _ ?q")
    if g "encode_item ?c (pl_limits p) ?it = Inr parts" for parts
  proof (intro flow_ok_edge [OF ok, where s = RAW])
    show mono: "lineages ?q x" if "lineages p x" for x
      using that lineages_submitted [of "p\<lparr>pl_ledgers := (pl_ledgers p)(RAW := l),
        pl_queues := (pl_queues p)(RAW := pl_queues p RAW @ [parts])\<rparr>"] by simp
    have "edge_ok ?c limits (lineages ?q) RAW (pl_ledgers p RAW) (pl_queues p RAW) (hand RAW)"
      by (rule edge_ok_mono [OF e mono])
    moreover have "lineages ?q ?it" using it by (simp add: lineages_def lineage.offered)
    ultimately show "edge_ok ?c limits (lineages ?q) RAW (pl_ledgers ?q RAW) (pl_queues ?q RAW) (hand RAW)"
      using that acq it limits by (auto intro: edge_push [where it = ?it])
  qed simp_all
  show ?thesis
    using acq granted returned queued keepsD [OF refused] keepsD [OF unsent] keepsD [OF accepted] it
    by (cases g; cases "encode_item ?c (pl_limits p) ?it"; cases "io_sent io")
      (auto simp: send_encoded_def wp_rules enqueue_def drop_credit_def log_submitted_def)
qed


lemma keeps_offer:
  assumes "neutral a" and "neutral b" and "neutral d"
  shows "keeps (io_codec io) limits hand (bindE (take_credit RAW (raw_generation item)) (\<lambda>granted.
      if \<not> granted then a
      else bindE (reads (read_item item)) (\<lambda>contents.
        bindE (send_encoded io RAW contents) (\<lambda>sent.
        if \<not> sent then b else seqE (log_submitted contents) d))))"
  unfolding keeps_def using assms by (intro allI impI offer_protocol) auto

lemma keeps_submit: "keeps (io_codec io) limits hand (submit io tid item permit)"
  unfolding submit_def
  by (intro keeps_offer keeps_seqE keeps_bindE keeps_if) auto

lemma keeps_option [intro]:
  "keeps c limits hand m \<Longrightarrow> (\<And>x. keeps c limits hand (f x)) \<Longrightarrow> keeps c limits hand (case y of None \<Rightarrow> m | Some x \<Rightarrow> f x)"
  by (simp split: option.split)

lemma keeps_flush: "keeps (io_codec io) limits hand (ingress_flush_coalesced io tid permit)"
  unfolding ingress_flush_coalesced_def
  by (intro keeps_offer keeps_seqE keeps_bindE keeps_if keeps_option) auto

lemma keeps_run_capture:
  assumes "\<And>permit. keeps c limits hand (m permit)"
  shows "keeps c limits hand (run_capture_in m)"
  unfolding run_capture_in_def
  by (intro keeps_bindE keeps_finallyE) (rule assms | rule keeps_neutral [OF neutral_gate])+

lemma keeps_submit_raw: "keeps (io_codec io) limits hand (submit_raw io tid i frames gen deadline)"
  unfolding submit_raw_def Let_def
  by (intro keeps_seqE keeps_catchE keeps_run_capture keeps_if keeps_submit) auto

lemma keeps_flush_coalesced: "keeps (io_codec io) limits hand (flush_coalesced io tid)"
  unfolding flush_coalesced_def by (intro keeps_seqE keeps_run_capture keeps_flush) auto

subsection \<open>Stages\<close>

lemma flow_hand: "flow_ok c limits hand p \<Longrightarrow> it \<in> set (hand s) \<Longrightarrow> lineages p it \<and> item_stage it = s"
  by (fastforce dest: flow_edge [of _ _ _ _ s] simp: edge_ok_def)

lemma persist_sunk:
  assumes "flow_ok c limits hand p" and "it \<in> set (hand ENCRYPTED)"
  shows "wp (persist io it) (\<lambda>_. flow_ok c limits hand) (\<lambda>_. flow_ok c limits hand) p"
proof -
  have it: "lineages p it" "item_stage it = ENCRYPTED" using flow_hand [OF assms] by simp_all
  have release: "wp (on_pl_gate (release_operation g)) (\<lambda>_. flow_ok c limits hand) (\<lambda>_. flow_ok c limits hand) q"
    if "flow_ok c limits hand q" for g q
    using that by (rule keepsD [OF keeps_neutral [OF neutral_gate]])
  have gate: "flow_ok c limits hand (p\<lparr>pl_gate := h\<rparr>)" for h
    using assms(1) flow_ok_same [of p "p\<lparr>pl_gate := h\<rparr>"] by (simp add: same_flow_def)
  have sunk: "flow_ok c limits hand (p\<lparr>pl_gate := h, pl_sunk := (it, h) # pl_sunk p\<rparr>)"
    if "may_persist h (item_generation it)" for h
    using assms(1) it that by (auto simp: flow_ok_def flow_okL_def lineages_def)
  show ?thesis
    unfolding persist_def wp_bindE on_pl_gate_def [of "acquire_persistence_operation (item_generation it)"]
      wp_on_field
    by (rule wp_mono [OF acquire_persistence_spec])
      (auto simp: wp_rules gate sunk assms(1) intro!: release split: sum.split)
qed

lemma processor_logged:
  assumes "flow_ok c limits hand p"
  shows "wp (run_processor io it) (\<lambda>out q. flow_ok c limits hand q \<and> (it, out) \<in> set (pl_calls q))
    (\<lambda>_. flow_ok c limits hand) p"
proof -
  have "flow_ok c limits hand (p\<lparr>pl_calls := (it, out) # pl_calls p\<rparr>)" for out
  proof (rule flow_ok_edge [OF assms, where s = RAW])
    show mono: "lineages (p\<lparr>pl_calls := (it, out) # pl_calls p\<rparr>) x" if "lineages p x" for x
      using that by (rule lineages_calls)
    show "edge_ok c limits (lineages (p\<lparr>pl_calls := (it, out) # pl_calls p\<rparr>)) RAW
        (pl_ledgers (p\<lparr>pl_calls := (it, out) # pl_calls p\<rparr>) RAW)
        (pl_queues (p\<lparr>pl_calls := (it, out) # pl_calls p\<rparr>) RAW) (hand RAW)"
      using edge_ok_mono [OF flow_edge [OF assms, of RAW] mono] by simp
  qed simp_all
  then show ?thesis
    using assms by (auto simp: run_processor_def wp_rules split: sum.split)
qed

lemma validated_follows:
  "item_stage it = s \<Longrightarrow> (follows it out \<Longrightarrow> Q () p) \<Longrightarrow> (\<And>e. E e p) \<Longrightarrow>
    wp (validate_output s it out) Q E p"
  by (auto simp: validate_output_def wp_rules follows_def)

lemma send_output_flow:
  assumes ok: "flow_ok (io_codec io) limits hand p" and "lineages p out" and "next_stage s = Some (item_stage out)"
    and k: "\<And>b. keeps (io_codec io) limits hand (k b)"
  shows "wp (bindE (send_output io s out) k) (\<lambda>_. flow_ok (io_codec io) limits hand) (\<lambda>_. flow_ok (io_codec io) limits hand) p"
proof -
  have "bindE (send_output io s out) k = bindE (take_credit (item_stage out) (item_generation out)) (\<lambda>granted.
      if \<not> granted then k False else bindE (send_encoded io (item_stage out) out) k)"
    by (rule ext) (simp add: send_output_def assms(3) comp_defs take_credit_def split: prod.split)
  then show ?thesis using send_protocol [OF ok refl assms(2) k k] by simp
qed

lemma keeps_require_current: "keeps c limits hand (on_pl_gate (require_current_generation g))"
  by auto

lemma advance_flow:
  assumes ok: "flow_ok (io_codec io) limits hand p" and hand: "it \<in> set (hand s)"
  shows "wp (advance io s it tok) (\<lambda>_. flow_ok (io_codec io) limits hand) (\<lambda>_. flow_ok (io_codec io) limits hand) p"
proof (cases "s = ENCRYPTED")
  case True
  have "wp (persist io it) (\<lambda>_. flow_ok (io_codec io) limits hand) (\<lambda>_. flow_ok (io_codec io) limits hand) p"
    using persist_sunk [OF ok] hand True by simp
  then show ?thesis
    unfolding advance_def using True
    by (simp add: wp_seqE) (rule wp_mono, assumption, auto intro: keepsD)
next
  case False
  let ?c = "io_codec io"
  have st: "item_stage it = s" using flow_hand [OF ok hand] by simp
  let ?ok = "\<lambda>_. flow_ok ?c limits hand"
  let ?send = "\<lambda>out. bindE (send_output io s out)
      (\<lambda>sent. if \<not> sent then metric_dropped s else metric_completed s)"
  have sent: "wp (?send out) ?ok ?ok r"
    if r: "flow_ok ?c limits hand r" "(it, out) \<in> set (pl_calls r)" "follows it out" for r out
  proof (rule send_output_flow [OF r(1)])
    have "lineages r it" using flow_hand [OF r(1) hand] by simp
    with r show "lineages r out" by (auto simp: lineages_def intro: lineage.processed)
    show "next_stage s = Some (item_stage out)" using r st by (simp add: follows_def)
    show "keeps ?c limits hand (if \<not> b then metric_dropped s else metric_completed s)" for b by auto
  qed
  have tail: "wp (seqE (on_pl_gate (require_current_generation (item_generation it)))
      (seqE (validate_output s it out) (?send out))) ?ok ?ok q"
    if q: "flow_ok ?c limits hand q" "(it, out) \<in> set (pl_calls q)" for q out
    unfolding wp_seqE
  proof (rule wp_neutral [OF neutral_gate])
    fix r
    assume r: "same_flow q r"
    show "flow_ok ?c limits hand r" using flow_ok_same [OF r] q(1) by simp
    moreover have "(it, out) \<in> set (pl_calls r)" using r q(2) by (simp add: same_flow_def)
    ultimately show "wp (validate_output s it out) (\<lambda>_. wp (?send out) ?ok ?ok) ?ok r"
      by (intro validated_follows [OF st] sent)
  qed
  have "wp (run_processor io it) (\<lambda>out. wp (bindE (reads (token_cancelled tok)) (\<lambda>cancelled.
      if cancelled then metric_dropped s
      else seqE (on_pl_gate (require_current_generation (item_generation it)))
        (seqE (validate_output s it out) (?send out)))) ?ok ?ok) ?ok p"
  proof (rule wp_mono [OF processor_logged [OF ok]])
    fix out q
    assume q: "flow_ok ?c limits hand q \<and> (it, out) \<in> set (pl_calls q)"
    then have "wp (metric_dropped s) ?ok ?ok q" by (auto intro: keepsD)
    with q tail show "wp (bindE (reads (token_cancelled tok)) (\<lambda>cancelled.
      if cancelled then metric_dropped s
      else seqE (on_pl_gate (require_current_generation (item_generation it)))
        (seqE (validate_output s it out) (?send out)))) ?ok ?ok q"
      by (simp add: wp_bindE [of "reads (token_cancelled tok)"] wp_reads)
  qed
  then show ?thesis
    unfolding advance_def using False by (simp add: wp_bindE [of "run_processor io it"])
qed


lemma flow_limits: "flow_ok c limits hand p \<Longrightarrow> pl_limits p = limits"
  by (simp add: flow_ok_def flow_okL_def)

lemma wp_effects:
  "wp (set_processing s b) Q E p = Q () (snd (set_processing s b p))"
  "wp (metric_dropped s) Q E p = Q () (snd (metric_dropped s p))"
  "wp (drop_credit s g) Q E p = Q () (snd (drop_credit s g p))"
  by (simp_all add: set_processing_def metric_dropped_def count_metric_def update_stage_def
      drop_credit_def wp_def modifies_def)

lemma release_hand:
  assumes "flow_ok c limits hand q" and "hand s = it # rest"
  shows "wp (drop_credit s (item_generation it)) (\<lambda>_. flow_ok c limits (hand(s := rest)))
    (\<lambda>_. flow_ok c limits (hand(s := rest))) q"
proof -
  have "edge_ok c limits (lineages q) s (pl_ledgers q s) (pl_queues q s) (it # rest)"
    using flow_edge [OF assms(1), of s] assms(2) by simp
  then have "flow_ok c limits (hand(s := rest)) (q\<lparr>pl_ledgers := (pl_ledgers q)(s :=
      snd (release_if_acquired (item_generation it) (pl_ledgers q s)))\<rparr>)"
    by (intro flow_ok_edge [OF assms(1), where s = s]) (auto intro: edge_done)
  then show ?thesis by (simp add: drop_credit_def wp_rules)
qed

lemma take_hand:
  assumes "flow_ok c limits hand p" and "pl_queues p s = parts # rest"
  shows "\<exists>it. encode_item c limits it = Inr parts \<and> item_stage it = s \<and>
    flow_ok c limits (hand(s := it # hand s)) (p\<lparr>pl_queues := (pl_queues p)(s := rest)\<rparr>)"
proof -
  have "edge_ok c limits (lineages p) s (pl_ledgers p s) (parts # rest) (hand s)"
    using flow_edge [OF assms(1), of s] assms(2) by simp
  from edge_pop [OF this] obtain it where it: "encode_item c limits it = Inr parts" "item_stage it = s"
    "edge_ok c limits (lineages p) s (pl_ledgers p s) rest (it # hand s)" by blast
  then show ?thesis by (intro exI [of _ it] conjI flow_ok_edge [OF assms(1), where s = s]) auto
qed

text \<open>Whatever happens to a message in hand, on every exit its credit is given back.\<close>

lemma guarded_flow:
  assumes codec: "codec_ok (io_codec io)" and ok: "flow_ok (io_codec io) limits hand p"
    and hand: "hand s = it # rest" and enc: "encode_item (io_codec io) limits it = Inr parts"
    and body: "wp body (\<lambda>_. flow_ok (io_codec io) limits hand) (\<lambda>_. flow_ok (io_codec io) limits hand) p"
  shows "wp (guarded io s parts body) (\<lambda>_. flow_ok (io_codec io) limits (hand(s := rest)))
    (\<lambda>_. flow_ok (io_codec io) limits (hand(s := rest))) p"
proof -
  let ?c = "io_codec io"
  let ?ok = "\<lambda>_. flow_ok ?c limits hand" and ?done = "\<lambda>_. flow_ok ?c limits (hand(s := rest))"
  have dec: "decode_item ?c (pl_limits p) s parts = Inr it"
    using decode_encode [OF codec enc, of s] flow_hand [OF ok, of it s] flow_limits [OF ok] hand by simp
  have final: "wp (seqE (set_processing s False) (drop_credit s (item_generation it))) ?done ?done q"
    if q: "flow_ok ?c limits hand q" for q
  proof -
    have "flow_ok ?c limits hand (snd (set_processing s False q))" using q by (auto intro: keeps_snd)
    from release_hand [of ?c limits hand _ s it rest, OF this hand] show ?thesis
      by (simp add: wp_seqE wp_effects(1))
  qed
  have caught: "wp (catchE body (on_exception io s i)) ?ok ?ok p" for i
    unfolding wp_catchE by (rule wp_mono [OF body]) (auto intro: keepsD)
  have "wp (finallyE (catchE body (on_exception io s i))
      (seqE (set_processing s False) (drop_credit s (item_generation it)))) ?done ?done p" for i
    unfolding wp_finallyE by (rule wp_mono [OF caught]) (rule final, assumption)+
  then show ?thesis
    by (simp add: guarded_def wp_bindE [of "reads _"] wp_reads dec case_prod_beta Let_def)
qed

lemma admit_item:
  "wp (admit io s parts) (\<lambda>r _. \<forall>i t. r = Some (i, t) \<longrightarrow> decode_item (io_codec io) (pl_limits p) s parts = Inr i)
    (\<lambda>_ _. True) p"
  by (cases "decode_item (io_codec io) (pl_limits p) s parts")
    (auto simp: admit_def wp_def comp_defs metric_dropped_def count_metric_def update_stage_def
      set_processing_def split: prod.split sum.split)

lemma admit_flow:
  assumes codec: "codec_ok (io_codec io)" and ok: "flow_ok (io_codec io) limits hand p"
    and it: "item_stage it = s" and enc: "encode_item (io_codec io) limits it = Inr parts"
  shows "wp (admit io s parts)
    (\<lambda>r q. flow_ok (io_codec io) limits hand q \<and> (\<forall>i t. r = Some (i, t) \<longrightarrow> i = it))
    (\<lambda>_. flow_ok (io_codec io) limits hand) p"
proof (rule wp_mono [OF wp_conj [OF keepsD [OF keeps_neutral [OF neutral_admit] ok] admit_item]])
  show "flow_ok (io_codec io) limits hand q \<and> (\<forall>i t. r = Some (i, t) \<longrightarrow> i = it)"
    if "flow_ok (io_codec io) limits hand q \<and>
      (\<forall>i t. r = Some (i, t) \<longrightarrow> decode_item (io_codec io) (pl_limits p) s parts = Inr i)" for r q
    using that decode_encode [OF codec enc, of s] flow_limits [OF ok] it by auto
qed simp

lemma handle_parts_flow:
  assumes codec: "codec_ok (io_codec io)" and ok: "flow_ok (io_codec io) limits hand p"
    and hand: "hand s = it # rest" and enc: "encode_item (io_codec io) limits it = Inr parts"
  shows "wp (handle_parts io s parts) (\<lambda>_. flow_ok (io_codec io) limits (hand(s := rest)))
    (\<lambda>_. flow_ok (io_codec io) limits (hand(s := rest))) p"
  unfolding handle_parts_def
proof (rule guarded_flow [OF codec ok hand enc])
  have st: "item_stage it = s" using flow_hand [OF ok, of it s] hand by simp
  let ?ok = "\<lambda>_. flow_ok (io_codec io) limits hand"
  show "wp (bindE (admit io s parts) (\<lambda>r. case r of None \<Rightarrow> ret () | Some (item, token) \<Rightarrow>
      advance io s item token)) ?ok ?ok p"
    unfolding wp_bindE
    by (rule wp_mono [OF admit_flow [OF codec ok st enc]])
      (use hand in \<open>auto simp: wp_ret intro: advance_flow split: option.split\<close>)
qed

lemma drain_flow:
  assumes codec: "codec_ok c"
  shows "flow_ok c limits hand p \<Longrightarrow> pl_queues p s = q \<Longrightarrow>
    wp (drain_messages c s q) (\<lambda>n r. flow_ok c limits hand r \<and> pl_queues r s = [] \<and> n = int (length q) \<and>
      (\<forall>t. t \<noteq> s \<longrightarrow> pl_queues r t = pl_queues p t)) (\<lambda>_ _. False) p"
proof (induction q arbitrary: p)
  case Nil
  then show ?case by (simp add: wp_ret)
next
  case (Cons parts q)
  let ?p = "p\<lparr>pl_queues := (pl_queues p)(s := q)\<rparr>"
  obtain it where it: "encode_item c limits it = Inr parts" "flow_ok c limits (hand(s := it # hand s)) ?p"
    using take_hand [OF Cons.prems] by blast
  let ?r = "snd (metric_dropped s (snd (drop_credit s (item_generation it) ?p)))"
  have "flow_ok c limits hand (snd (drop_credit s (item_generation it) ?p))"
    using release_hand [of c limits _ ?p s it "hand s", OF it(2)] by (simp add: wp_effects)
  then have r: "flow_ok c limits hand ?r" by (auto intro: keeps_snd)
  have queue: "pl_queues ?r = (pl_queues p)(s := q)"
    by (simp add: metric_dropped_def count_metric_def update_stage_def drop_credit_def modifies_def)
  have "wp (drain_messages c s (parts # q)) Q E p = wp (drain_messages c s q) (\<lambda>n. Q (n + 1)) E ?r" for Q E
    using peek_encode [OF codec it(1)] by (simp add: wp_rules wp_effects)
  moreover have "wp (drain_messages c s q) (\<lambda>n t. flow_ok c limits hand t \<and> pl_queues t s = [] \<and>
      n = int (length q) \<and> (\<forall>u. u \<noteq> s \<longrightarrow> pl_queues t u = pl_queues ?r u)) (\<lambda>_ _. False) ?r"
    by (rule Cons.IH [OF r]) (simp add: queue)
  ultimately show ?case
    by simp (rule wp_mono, assumption, auto simp: queue)
qed


section \<open>The pipeline as a step system\<close>

text \<open>
  Each stage actor handles one message at a time; the callers of the runtime, the lifecycle actor
  and the other stages run in between, also while a processor or the sink is at work. What the
  rest of the program does to the gate and to the memory that holds frames is left open.
\<close>

record pipe_sys =
  ps_pipe :: pipeline
  ps_hand :: "pipeline_stage \<Rightarrow> (byte list list \<times> pipeline_item \<times> cancellation_token) option"

definition pop_message :: "pipeline_stage \<Rightarrow> byte list list list \<Rightarrow> pipeline \<Rightarrow> pipeline" where
  "pop_message s rest p = snd (metric_received s (p\<lparr>pl_queues := (pl_queues p)(s := rest)\<rparr>))"

inductive pipe_step :: "header_codec \<Rightarrow> pipe_sys \<Rightarrow> pipe_sys \<Rightarrow> bool" for c where
  outside: "pipe_step c y (y\<lparr>ps_pipe := (ps_pipe y)\<lparr>pl_gate := g, pl_heap := h\<rparr>\<rparr>)"
| submits: "io_codec io = c \<Longrightarrow>
    pipe_step c y (y\<lparr>ps_pipe := snd (submit_raw io tid i frames gen deadline (ps_pipe y))\<rparr>)"
| flushes: "io_codec io = c \<Longrightarrow> pipe_step c y (y\<lparr>ps_pipe := snd (flush_coalesced io tid (ps_pipe y))\<rparr>)"
| handles: "io_codec io = c \<Longrightarrow> ps_hand y s = None \<Longrightarrow> pl_queues (ps_pipe y) s = parts # rest \<Longrightarrow>
    pipe_step c y (y\<lparr>ps_pipe := snd (handle_parts io s parts (pop_message s rest (ps_pipe y)))\<rparr>)"
| admits: "io_codec io = c \<Longrightarrow> ps_hand y s = None \<Longrightarrow> pl_queues (ps_pipe y) s = parts # rest \<Longrightarrow>
    admit io s parts (pop_message s rest (ps_pipe y)) = (Inr (Some (item, tok)), p) \<Longrightarrow>
    pipe_step c y (y\<lparr>ps_pipe := p, ps_hand := (ps_hand y)(s \<mapsto> (parts, item, tok))\<rparr>)"
| advances: "io_codec io = c \<Longrightarrow> ps_hand y s = Some (parts, item, tok) \<Longrightarrow>
    pipe_step c y (y\<lparr>ps_pipe := snd (guarded io s parts (advance io s item tok) (ps_pipe y)),
      ps_hand := (ps_hand y)(s := None)\<rparr>)"
| receive_fails: "io_codec io = c \<Longrightarrow>
    pipe_step c y (y\<lparr>ps_pipe := snd (poll_transport_failure io s (ps_pipe y))\<rparr>)"
| drains: "ps_hand y s = None \<Longrightarrow> pipe_step c y (y\<lparr>ps_pipe := snd (drain c s (ps_pipe y))\<rparr>)"
| cancels: "pipe_step c y (y\<lparr>ps_pipe := snd (cancel_queued gen (ps_pipe y))\<rparr>)"
| cancels_in_flight: "pipe_step c y (y\<lparr>ps_pipe := snd (cancel_in_flight gen (ps_pipe y))\<rparr>)"
| clears: "pipe_step c y (y\<lparr>ps_pipe := snd (clear_coalesced v (ps_pipe y))\<rparr>)"
| forgets: "pipe_step c y (y\<lparr>ps_pipe := snd (registry_clear gen (ps_pipe y))\<rparr>)"
| closes: "pipe_step c y (y\<lparr>ps_pipe := snd (pipeline_close tid (ps_pipe y))\<rparr>)"

definition new_pipe_sys :: "int \<Rightarrow> gate \<Rightarrow> pipeline_limits \<Rightarrow> byte list list \<Rightarrow> pipe_sys" where
  "new_pipe_sys owner g limits h = \<lparr>ps_pipe = new_pipeline owner g limits h, ps_hand = (\<lambda>_. None)\<rparr>"

definition in_hand :: "pipe_sys \<Rightarrow> pipeline_stage \<Rightarrow> pipeline_item list" where
  "in_hand y s = (case ps_hand y s of None \<Rightarrow> [] | Some (parts, item, tok) \<Rightarrow> [item])"

definition pipe_inv :: "header_codec \<Rightarrow> pipeline_limits \<Rightarrow> pipe_sys \<Rightarrow> bool" where
  "pipe_inv c limits y \<longleftrightarrow> flow_ok c limits (in_hand y) (ps_pipe y) \<and>
    (\<forall>s parts item tok. ps_hand y s = Some (parts, item, tok) \<longrightarrow> encode_item c limits item = Inr parts)"

lemma in_hand_frame [simp]: "in_hand (y\<lparr>ps_pipe := p\<rparr>) = in_hand y"
  by (rule ext) (simp add: in_hand_def)

lemma in_hand_update:
  "in_hand (y\<lparr>ps_pipe := p, ps_hand := (ps_hand y)(s := z)\<rparr>) =
    (in_hand y)(s := (case z of None \<Rightarrow> [] | Some (parts, item, tok) \<Rightarrow> [item]))"
  by (rule ext) (simp add: in_hand_def)

lemma pipe_inv_keeps:
  "pipe_inv c limits y \<Longrightarrow> keeps c limits (in_hand y) m \<Longrightarrow> pipe_inv c limits (y\<lparr>ps_pipe := snd (m (ps_pipe y))\<rparr>)"
  by (auto simp: pipe_inv_def intro: keeps_snd)

lemma pipe_inv_new:
  assumes "0 \<le> raw_queue_items limits" and "0 \<le> stage_queue_items limits"
  shows "pipe_inv c limits (new_pipe_sys owner g limits h)"
proof -
  have "edge.backed \<lparr>ledger_capacity = edge_capacity limits s, in_use_by_generation = []\<rparr> []" for s
    using assms by (cases s) (auto simp: edge.backed_def ledger_ok_def in_use_def)
  then show ?thesis
    by (auto simp: pipe_inv_def flow_ok_def flow_okL_def edge_ok_def new_pipe_sys_def new_pipeline_def
        in_hand_def)
qed

lemma popped:
  assumes inv: "pipe_inv c limits y" and "ps_hand y s = None" and "pl_queues (ps_pipe y) s = parts # rest"
  shows "\<exists>it. encode_item c limits it = Inr parts \<and> item_stage it = s \<and>
    flow_ok c limits ((in_hand y)(s := [it])) (pop_message s rest (ps_pipe y))"
proof -
  have "in_hand y s = []" using assms(2) by (simp add: in_hand_def)
  with take_hand [of c limits "in_hand y" "ps_pipe y" s parts rest] assms obtain it where
    it: "encode_item c limits it = Inr parts" "item_stage it = s" "flow_ok c limits ((in_hand y)(s := [it]))
      ((ps_pipe y)\<lparr>pl_queues := (pl_queues (ps_pipe y))(s := rest)\<rparr>)"
    by (auto simp: pipe_inv_def)
  from it(3) have "flow_ok c limits ((in_hand y)(s := [it])) (pop_message s rest (ps_pipe y))"
    unfolding pop_message_def by (intro keeps_snd keeps_neutral neutral_metrics)
  with it show ?thesis by blast
qed

lemma keeps_drain: "codec_ok c \<Longrightarrow> keeps c limits hand (drain c s)"
  unfolding keeps_def drain_def wp_bindE wp_reads
  by (intro allI impI wp_mono [OF drain_flow]) auto

lemma keeps_close: "keeps c limits hand (pipeline_close tid)"
proof -
  have "flow_ok c limits hand (p\<lparr>pl_queues := \<lambda>_. [], pl_closed := True\<rparr>)" if "flow_ok c limits hand p" for p
    using that by (auto simp: flow_ok_def flow_okL_def lineages_def intro: edge_emptied)
  then have "keeps c limits hand (modifies (\<lambda>p. p\<lparr>pl_queues := \<lambda>_. [], pl_closed := True\<rparr>))"
    by (simp add: keeps_def wp_modifies)
  then show ?thesis
    unfolding pipeline_close_def by (intro keeps_seqE keeps_bindE keeps_if) auto
qed

lemma neutral_runtime [intro]:
  "neutral (poll_transport_failure io s)" "neutral (cancel_queued g)" "neutral (cancel_in_flight g)"
  unfolding poll_transport_failure_def cancel_queued_def cancel_in_flight_def by auto

lemma pipe_step_inv:
  assumes codec: "codec_ok c"
  shows "pipe_step c y z \<Longrightarrow> pipe_inv c limits y \<Longrightarrow> pipe_inv c limits z"
proof (induction rule: pipe_step.induct)
  case (outside y h g)
  then show ?case
    using flow_ok_same [of "ps_pipe y" "(ps_pipe y)\<lparr>pl_gate := g, pl_heap := h\<rparr>"]
    by (auto simp: pipe_inv_def same_flow_def)
next
  case (handles io y s parts rest)
  obtain it where it: "encode_item c limits it = Inr parts"
    "flow_ok c limits ((in_hand y)(s := [it])) (pop_message s rest (ps_pipe y))"
    using popped [OF handles.prems handles.hyps(2,3)] by blast
  have "in_hand y s = []" using handles.hyps(2) by (simp add: in_hand_def)
  then have "(in_hand y)(s := []) = in_hand y" by auto
  with handle_parts_flow [of io limits _ _ s it "[]" parts, OF _ _ _ ] it codec handles
  show ?case by (fastforce simp: pipe_inv_def wp_any_exit)
next
  case (admits io y s parts rest item tok p)
  obtain it where it: "encode_item c limits it = Inr parts" "item_stage it = s"
    "flow_ok c limits ((in_hand y)(s := [it])) (pop_message s rest (ps_pipe y))"
    using popped [OF admits.prems admits.hyps(2,3)] by blast
  have "wp (admit io s parts) (\<lambda>r q. flow_ok c limits ((in_hand y)(s := [it])) q \<and> (\<forall>i t. r = Some (i, t) \<longrightarrow> i = it))
      (\<lambda>_. flow_ok c limits ((in_hand y)(s := [it]))) (pop_message s rest (ps_pipe y))"
    using admit_flow [of io limits _ _ it s parts] admits.hyps(1) codec it by simp
  from wp_returned [OF admits.hyps(4) this] it(1) admits.prems show ?case
    by (auto simp: pipe_inv_def in_hand_update split: if_splits)
next
  case (advances io y s parts item tok)
  have hand: "in_hand y s = [item]" and enc: "encode_item c limits item = Inr parts"
    and ok: "flow_ok c limits (in_hand y) (ps_pipe y)"
    using advances by (auto simp: in_hand_def pipe_inv_def)
  have "wp (guarded io s parts (advance io s item tok)) (\<lambda>_. flow_ok c limits ((in_hand y)(s := [])))
      (\<lambda>_. flow_ok c limits ((in_hand y)(s := []))) (ps_pipe y)"
    using guarded_flow [of io limits "in_hand y" "ps_pipe y" s item "[]" parts] advance_flow [of io limits "in_hand y"]
      codec hand enc ok advances.hyps(1) by simp
  then show ?case
    using advances.prems by (auto simp: pipe_inv_def in_hand_update wp_any_exit split: if_splits)
qed (auto intro!: pipe_inv_keeps keeps_submit_raw keeps_flush_coalesced keeps_drain keeps_close codec)


interpretation pipe: invariant_system "pipe_step c" "new_pipe_sys owner g limits h"
    "\<lambda>y. codec_ok c \<and> mk_PipelineLimits limits = Inr limits \<longrightarrow> pipe_inv c limits y" for c owner g limits h
proof unfold_locales
  show "codec_ok c \<and> mk_PipelineLimits limits = Inr limits \<longrightarrow> pipe_inv c limits (new_pipe_sys owner g limits h)"
    by (auto simp: mk_PipelineLimits_def bindS_Inr ensure_Inr intro: pipe_inv_new)
qed (auto intro: pipe_step_inv)

lemma reachable_pipe_inv:
  "run (pipe_step c) (new_pipe_sys owner g limits h) y \<Longrightarrow> codec_ok c \<Longrightarrow> mk_PipelineLimits limits = Inr limits \<Longrightarrow>
    pipe_inv c limits y"
  using pipe.inv_reachable by fast

section \<open>Consequences\<close>

lemma lineage_chain:
  assumes "lineage raws calls z" and "item_stage z = ENCRYPTED"
  shows "\<exists>w x y. w \<in> raws \<and> item_stage w = RAW \<and> (w, x) \<in> calls \<and> (x, y) \<in> calls \<and> (y, z) \<in> calls \<and>
    follows w x \<and> follows x y \<and> follows y z"
proof -
  from assms obtain y where y: "lineage raws calls y" "(y, z) \<in> calls" "follows y z" "item_stage y = REDACTED"
    by (cases rule: lineage.cases) (auto simp: follows_def elim: next_stage.elims)
  from y(1,4) obtain x where x: "lineage raws calls x" "(x, y) \<in> calls" "follows x y" "item_stage x = ANALYZED"
    by (cases rule: lineage.cases) (auto simp: follows_def elim: next_stage.elims)
  from x(1,4) obtain w where w: "lineage raws calls w" "(w, x) \<in> calls" "follows w x" "item_stage w = RAW"
    by (cases rule: lineage.cases) (auto simp: follows_def elim: next_stage.elims)
  from w(1,4) have "w \<in> raws"
    by (cases rule: lineage.cases) (auto simp: follows_def elim: next_stage.elims)
  with w x y show ?thesis by blast
qed

subsection \<open>Wiping of raw frames\<close>

definition wiped :: "nat list \<Rightarrow> byte list list \<Rightarrow> bool" where
  "wiped as h \<longleftrightarrow> (\<forall>a \<in> set as. a < length h \<longrightarrow> set (h ! a) \<subseteq> {0})"

lemma zero_frames_length [simp]: "length (zero_frames as h) = length h"
  by (induction as arbitrary: h) simp_all

lemma zero_frames_stays: "set (h ! a) \<subseteq> {0} \<Longrightarrow> a < length h \<Longrightarrow> set (zero_frames as h ! a) \<subseteq> {0}"
proof (induction as arbitrary: h)
  case (Cons b as)
  have "set (h[b := replicate (length (h ! b)) 0] ! a) \<subseteq> {0}"
    using Cons.prems by (cases "a = b") auto
  then show ?case using Cons.IH [of "h[b := replicate (length (h ! b)) 0]"] Cons.prems by simp
qed simp

lemma zero_frames_wiped: "wiped as (zero_frames as h)"
  unfolding wiped_def
proof (induction as arbitrary: h)
  case (Cons b as)
  have "set (h[b := replicate (length (h ! b)) 0] ! b) \<subseteq> {0}" if "b < length h"
    using that by (auto simp: nth_list_update)
  then show ?case
    using Cons [of "h[b := replicate (length (h ! b)) 0]"]
      zero_frames_stays [of "h[b := replicate (length (h ! b)) 0]" b as] by auto
qed simp

lemma wp_True [simp]: "wp m (\<lambda>_ _. True) (\<lambda>_ _. True) p"
  by (simp add: wp_any_exit)

lemma wp_destroy [wp_rules]:
  "wp (destroy_frames as) Q E = (\<lambda>p. Q () (p\<lparr>pl_heap := zero_frames as (pl_heap p)\<rparr>))"
  "wp (destroy item) Q E = (\<lambda>p. Q () (p\<lparr>pl_heap := zero_frames (raw_frames item) (pl_heap p)\<rparr>))"
  by (simp_all add: destroy_def destroy_frames_def wp_modifies)

text \<open>When only returning matters, what comes before the last action is irrelevant.\<close>

lemma wp_then:
  assumes "\<And>x q. wp (f x) Q (\<lambda>_ _. True) q"
  shows "wp (bindE m f) Q (\<lambda>_ _. True) p"
  unfolding wp_bindE using assms by (simp add: wp_def [of m] split: prod.split sum.split)

lemma wp_thenS: "(\<And>q. wp n Q (\<lambda>_ _. True) q) \<Longrightarrow> wp (seqE m n) Q (\<lambda>_ _. True) p"
  unfolding seqE_def by (rule wp_then)

lemma wp_ifI: "wp m Q E p \<Longrightarrow> wp n Q E p \<Longrightarrow> wp (if b then m else n) Q E p"
  by simp

definition frames_wiped :: "nat list \<Rightarrow> submission_result \<Rightarrow> pipeline \<Rightarrow> bool" where
  "frames_wiped as r q \<longleftrightarrow> sub_status r \<noteq> COALESCED \<longrightarrow> wiped as (pl_heap q)"

lemma overload_wipes: "wp (handle_overload item) (frames_wiped (raw_frames item)) (\<lambda>_ _. True) p"
  by (auto simp: frames_wiped_def handle_overload_def wp_rules zero_frames_wiped split: option.split)

lemma destroy_wipes:
  "wp (seqE (destroy item) (ret r)) (frames_wiped (raw_frames item)) E p"
  "wp (seqE (destroy item) (raise e)) Q (\<lambda>_ _. True) p"
  by (simp_all add: frames_wiped_def wp_rules zero_frames_wiped)

lemma submit_wipes:
  "wp (submit io tid item permit) (frames_wiped (raw_frames item)) (\<lambda>_ _. True) p"
  unfolding submit_def
  by (intro destroy_wipes overload_wipes wp_thenS wp_then wp_ifI)

lemma gate_keeps_heap: "wp (on_pl_gate m) (\<lambda>_ r. pl_heap r = pl_heap q) (\<lambda>_ r. pl_heap r = pl_heap q) q"
  by (simp add: wp_any_exit on_pl_gate_def on_field_def split: prod.split)

lemma submit_raw_wipes:
  "wp (submit_raw io (pl_owner p) i frames gen deadline) (frames_wiped frames)
    (\<lambda>_ q. wiped frames (pl_heap q)) p"
proof -
  let ?op = "\<lambda>d permit. if permit_generation permit \<noteq> gen
      then raise (StaleCaptureGeneration ''captured frame generation is stale'')
      else submit io (pl_owner p) \<lparr>raw_record_id = i, raw_generation = gen,
        raw_revision = permit_configuration_revision permit, raw_deadline_ns = d, raw_frames = frames\<rparr> permit"
  have op: "wp (?op d permit) (frames_wiped frames) (\<lambda>_ _. True) q" for d permit q
    using submit_wipes [of io "pl_owner p" "\<lparr>raw_record_id = i, raw_generation = gen,
        raw_revision = permit_configuration_revision permit, raw_deadline_ns = d, raw_frames = frames\<rparr>" permit q]
    by (auto simp: wp_raise intro: wp_ifI)
  have release: "wp (on_pl_gate (release_operation x)) (\<lambda>_. frames_wiped frames r) (\<lambda>_ _. True) q"
    if "frames_wiped frames r q" for r q x
    by (rule wp_mono [OF gate_keeps_heap]) (use that in \<open>auto simp: frames_wiped_def\<close>)
  have "wp (run_capture_in (?op d)) (frames_wiped frames) (\<lambda>_ _. True) p" for d
    unfolding run_capture_in_def
    by (intro wp_then) (simp only: wp_finallyE, rule wp_mono [OF op], auto intro: release)
  then have "wp (run_capture_in (?op d)) (frames_wiped frames)
      (\<lambda>e. wp (seqE (destroy_frames frames) (raise e)) (frames_wiped frames)
        (\<lambda>_ q. wiped frames (pl_heap q))) p" for d
    by (rule wp_mono) (auto simp: wp_rules zero_frames_wiped)
  then show ?thesis
    unfolding submit_raw_def Let_def wp_seqE wp_catchE
    by (simp add: assert_pipeline_owner_def wp_bindE [of "reads pl_owner"] wp_reads wp_require)
qed


subsection \<open>Quiescence\<close>

lemma wait_for_zero_still:
  "(\<forall>(t, rel) \<in> set ws. rel = []) \<Longrightarrow>
    wait_for_zero g ws l = (b, m) \<Longrightarrow> m = l \<and> (b \<longrightarrow> in_use_for g l \<le> 0)"
  by (induction g ws l rule: wait_for_zero.induct) (auto split: if_splits)

lemma wait_edges_still:
  assumes "\<forall>(s, t, ws) \<in> set es. \<forall>(t, rel) \<in> set ws. rel = []" and "wait_edges g es p = (Inr True, q)"
  shows "q = p \<and> (\<forall>s \<in> fst ` set es. in_use_for g (pl_ledgers p s) \<le> 0) \<and> \<not> has_coalesced (Some (gen_value g)) p"
  using assms
proof (induction g es arbitrary: p rule: wait_edges.induct)
  case (1 g)
  then show ?case by (auto simp: reads_def)
next
  case (2 g s t ws es)
  obtain b l where w: "wait_for_zero g ws (pl_ledgers p s) = (b, l)" by fastforce
  have l: "l = pl_ledgers p s" "b \<longrightarrow> in_use_for g (pl_ledgers p s) \<le> 0"
    using wait_for_zero_still [OF _ w] "2.prems"(1) by auto
  have "0 < t" b and e: "wait_edges g es p = (Inr True, q)"
    using "2.prems"(2) w l by (auto simp: comp_defs split: if_splits)
  with "2.IH" [of True p] "2.prems"(1) l show ?case by auto
qed

text \<open>No message of a generation without credits is queued or in hand.\<close>

lemma no_credit_no_message:
  assumes "codec_ok c" and "edge_ok c limits known s l q hand" and "in_use_for g l \<le> 0"
    and "encode_item c limits it \<in> Inr ` set q \<or> it \<in> set hand"
  shows "item_generation it \<noteq> g"
proof -
  from assms(2) obtain items where items: "list_all2 (\<lambda>it parts. encode_item c limits it = Inr parts) items q"
    "edge.backed l (map item_generation (hand @ items))"
    by (auto simp: edge_ok_def)
  then have ok: "ledger_ok l" and sub: "mset (map item_generation (hand @ items)) \<subseteq># credits l"
    by (simp_all add: edge.backed_def)
  have "count (credits l) g = 0" using in_use_for_count [OF ok, of g] assms(3) by simp
  then have g: "g \<notin> set (map item_generation (hand @ items))"
    using sub by (auto simp: count_eq_zero_iff dest!: mset_subset_eqD)
  have "item_generation it \<noteq> g" if parts: "parts \<in> set q" "encode_item c limits it = Inr parts" for parts
  proof -
    from parts(1) obtain n where "n < length q" "parts = q ! n" by (auto simp: in_set_conv_nth)
    with items(1) have i: "items ! n \<in> set items" "encode_item c limits (items ! n) = Inr parts"
      by (auto simp: list_all2_conv_all_nth)
    have "item_generation (items ! n) = item_generation it"
      using peek_encode [OF assms(1) i(2)] peek_encode [OF assms(1) parts(2)] by simp
    then have "item_generation it \<in> item_generation ` set items"
      using rev_image_eqI [OF i(1), of "item_generation it" item_generation] by simp
    with g show ?thesis by auto
  qed
  moreover have "item_generation it \<noteq> g" if "it \<in> set hand" using g that by auto
  ultimately show ?thesis using assms(4) by blast
qed

section \<open>A concrete run\<close>

definition open_gate :: gate where
  "open_gate = \<lparr>owner_thread_id = Some 7, state = RECORDING, active_generation = Some (CaptureGeneration 1),
     draining_generation = None, generation_epoch = 1, configuration_revision = Some ''r1'',
     critical_dependencies_healthy = True, cancel_events = (\<lambda>_. None)(1 \<mapsto> 0), in_flight = (\<lambda>_. None),
     event_heap = [False]\<rparr>"

definition demo_item :: "pipeline_stage \<Rightarrow> pipeline_item" where
  "demo_item s = \<lparr>item_stage = s, item_record_id = 42, item_generation = CaptureGeneration 1,
     item_revision = ''r1'', item_deadline_ns = 30000000001, item_frames = [[1, 2, 3]]\<rparr>"

definition demo_header :: "pipeline_stage \<Rightarrow> json" where
  "demo_header s = JObj (dump_header (header_of (demo_item s)))"

definition demo_limits :: pipeline_limits where
  "demo_limits = default_limits\<lparr>max_header_bytes := int (to_nat (demo_header RAW) + to_nat (demo_header ANALYZED) +
     to_nat (demo_header REDACTED) + to_nat (demo_header ENCRYPTED)) + 1\<rparr>"

definition demo_message :: "pipeline_stage \<Rightarrow> byte list list" where
  "demo_message s = [replicate (to_nat (demo_header s)) 0, [1, 2, 3]]"

definition demo_io :: pipeline_io where
  "demo_io = \<lparr>io_codec = plain_codec, io_sent = True, io_now_ns = 1,
     io_process = (\<lambda>it. case next_stage (item_stage it) of Some t \<Rightarrow> Inr (it\<lparr>item_stage := t\<rparr>)
       | None \<Rightarrow> Inl (ValueError ''none'')),
     io_persist = (\<lambda>_. Inr ()), io_fault_emitted = True\<rparr>"

lemma demo_simps [simp]:
  "io_codec demo_io = plain_codec" "io_sent demo_io" "io_now_ns demo_io = 1"
  "raw_queue_items demo_limits = 1" "stage_queue_items demo_limits = 32"
  "io_process demo_io it = (case next_stage (item_stage it) of Some t \<Rightarrow> Inr (it\<lparr>item_stage := t\<rparr>)
     | None \<Rightarrow> Inl (ValueError ''none''))"
  "io_persist demo_io it = Inr ()"
  by (simp_all add: demo_io_def demo_limits_def default_limits_def)

lemma demo_encode: "encode_item plain_codec demo_limits (demo_item s) = Inr (demo_message s)"
proof -
  have "json_dumps plain_codec (JObj (model_dump plain_codec (header_of (demo_item s)))) =
      replicate (to_nat (demo_header s)) 0"
    by (simp add: plain_codec_def demo_header_def)
  moreover have "within_limits demo_limits (item_frames (demo_item s))" "header_fields_ok (header_of (demo_item s))"
    by (simp_all add: within_limits_def header_fields_ok_def header_of_def demo_item_def demo_limits_def
        default_limits_def PROTOCOL_VERSION_def)
  moreover have "to_nat (demo_header s) \<le> to_nat (demo_header RAW) + to_nat (demo_header ANALYZED) +
     to_nat (demo_header REDACTED) + to_nat (demo_header ENCRYPTED)"
    by (cases s) simp_all
  ultimately show ?thesis
    by (simp add: encode_item_Inr demo_message_def demo_limits_def demo_item_def)
qed

lemma demo_decode: "decode_item plain_codec demo_limits s (demo_message s) = Inr (demo_item s)"
  using decode_encode [OF plain_codec_ok demo_encode, of s s] by (simp add: demo_item_def)

lemma demo_limits_ok: "mk_PipelineLimits demo_limits = Inr demo_limits"
  by (simp add: mk_PipelineLimits_def demo_limits_def default_limits_def)

lemma run_poll:
  assumes "run (pipe_step c) y z" and "ps_hand z s = None" and "io_codec io = c"
  shows "run (pipe_step c) y (z\<lparr>ps_pipe := snd (poll_once io s (ps_pipe z))\<rparr>)"
proof (cases "pl_queues (ps_pipe z) s")
  case Nil
  with assms show ?thesis by (simp add: poll_once_def comp_defs)
next
  case (Cons parts rest)
  have "snd (poll_once io s (ps_pipe z)) = snd (handle_parts io s parts (pop_message s rest (ps_pipe z)))"
    by (simp add: poll_once_def comp_defs Cons pop_message_def metric_received_def count_metric_def
        update_stage_def)
  with assms Cons pipe_step.handles [of io c z s parts rest] show ?thesis
    by (auto intro: run_step)
qed

definition demo_start :: pipe_sys where
  "demo_start = new_pipe_sys 7 open_gate demo_limits [[1, 2, 3]]"

definition demo_submitted :: pipe_sys where
  "demo_submitted = demo_start\<lparr>ps_pipe :=
     snd (submit_raw demo_io 7 42 [0] (CaptureGeneration 1) None (ps_pipe demo_start))\<rparr>"

fun demo_polls :: "pipeline_stage list \<Rightarrow> pipe_sys \<Rightarrow> pipe_sys" where
  "demo_polls [] y = y"
| "demo_polls (s # ss) y = demo_polls ss (y\<lparr>ps_pipe := snd (poll_once demo_io s (ps_pipe y))\<rparr>)"

lemma demo_submitted_reachable: "run (pipe_step plain_codec) demo_start demo_submitted"
  unfolding demo_submitted_def
  by (intro run_one pipe_step.submits) simp

lemma demo_polls_reachable:
  "run (pipe_step plain_codec) x y \<Longrightarrow> (\<And>s. ps_hand y s = None) \<Longrightarrow>
    run (pipe_step plain_codec) x (demo_polls ss y)"
proof (induction ss y rule: demo_polls.induct)
  case (2 s ss y)
  show ?case
    using "2.IH" [OF run_poll [OF "2.prems"(1), of s demo_io]] "2.prems"(2) by simp
qed simp


lemmas pipeline_eval = comp_defs submit_raw_def run_capture_in_def submit_def assert_pipeline_owner_def
  on_pl_gate_def acquire_capture_operation_def require_generation_locked_def register_operation_locked_def
  registry_attach_def event_for_def permit_cancelled_def event_is_set_def take_credit_def try_acquire_def
  in_use_def in_use_for_def read_item_def send_encoded_def enqueue_def log_submitted_def destroy_def
  destroy_frames_def release_operation_eq released_def

lemma demo_raw: "\<lparr>item_stage = RAW, item_record_id = 42, item_generation = CaptureGeneration 1,
     item_revision = ''r1'', item_deadline_ns = 30000000001, item_frames = [[1, 2, 3]]\<rparr> = demo_item RAW"
  by (simp add: demo_item_def)

lemmas stage_eval = poll_once_def metric_received_def count_metric_def update_stage_def handle_parts_def
  guarded_def admit_def registry_token_def token_cancelled_def require_current_generation_def set_processing_def
  advance_def run_processor_def validate_output_def send_output_def metric_completed_def metric_dropped_def
  persist_def acquire_persistence_operation_def drop_credit_def release_if_acquired_def give_back_def

lemma demo_stage [simp]: "item_stage (demo_item s) = s" "item_generation (demo_item s) = CaptureGeneration 1"
   "(demo_item s)\<lparr>item_stage := t\<rparr> = demo_item t" "item_deadline_ns (demo_item s) = 30000000001"
   "item_record_id (demo_item s) = 42" "item_revision (demo_item s) = ''r1''"
  by (simp_all add: demo_item_def)

definition demo_pipe ::
    "(pipeline_stage \<Rightarrow> (int \<times> int) list) \<Rightarrow> (pipeline_stage \<Rightarrow> byte list list list) \<Rightarrow>
     (pipeline_stage \<Rightarrow> stage_actor) \<Rightarrow> (pipeline_item \<times> pipeline_item) list \<Rightarrow> pipeline" where
  "demo_pipe l q a calls = \<lparr>pl_owner = 7, pl_gate = open_gate\<lparr>in_flight := (\<lambda>_. None)(1 := None)\<rparr>,
     pl_limits = demo_limits,
     pl_registry = \<lparr>reg_events = (\<lambda>_. None)(1 \<mapsto> 0), reg_permits = (\<lambda>_. None)(1 \<mapsto>
       \<lparr>permit_generation = CaptureGeneration 1, permit_configuration_revision = ''r1'', permit_cancel_event = 0\<rparr>),
       reg_heap = [False]\<rparr>,
     pl_ledgers = (\<lambda>s. \<lparr>ledger_capacity = edge_capacity demo_limits s, in_use_by_generation = l s\<rparr>),
     pl_queues = q, pl_stages = a, pl_coalesced = None, pl_ingress_closed = False, pl_closed = False,
     pl_heap = [[0, 0, 0]], pl_submitted = [demo_item RAW], pl_calls = calls, pl_sunk = [],
     pl_fault_events = []\<rparr>"

lemma demo_submitted_pipe:
  "ps_pipe demo_submitted = demo_pipe ((\<lambda>_. [])(RAW := [(1, 1)])) ((\<lambda>_. [])(RAW := [demo_message RAW]))
     (\<lambda>_. new_stage) []"
  by (simp add: demo_submitted_def demo_start_def new_pipe_sys_def new_pipeline_def pipeline_eval open_gate_def
    demo_encode demo_raw demo_pipe_def count_up_def count_down_def get0_def fun_eq_iff)

lemma demo_poll:
  assumes "next_stage s = Some t" and "l s = [(1, 1)]" and "l t = []" and "q s = [demo_message s]"
    and "q t = []" and "\<not> st_faulted (a s)"
  shows "\<exists>a'. snd (poll_once demo_io s (demo_pipe l q a calls)) = demo_pipe (l(s := [], t := [(1, 1)]))
      (q(s := [], t := [demo_message t])) a' ((demo_item s, demo_item t) # calls) \<and>
    (\<forall>u. st_faulted (a' u) = st_faulted (a u))"
proof -
  have "s \<noteq> t" "s \<noteq> ENCRYPTED" "0 < edge_capacity demo_limits t" using assms(1) by (cases s; simp)+
  with assms show ?thesis
    by (simp add: demo_pipe_def stage_eval pipeline_eval demo_decode demo_encode open_gate_def
        Let_def case_prod_beta fun_eq_iff)
      (rule exI [of _ "a(s := (a s)\<lparr>st_metrics := (st_metrics (a s))\<lparr>received := received (st_metrics (a s)) + 1,
         completed := completed (st_metrics (a s)) + 1, processing := False\<rparr>\<rparr>)"], simp)
qed

lemma demo_poll_sink:
  assumes "l ENCRYPTED = [(1, 1)]" and "q ENCRYPTED = [demo_message ENCRYPTED]" and "\<not> st_faulted (a ENCRYPTED)"
  shows "map fst (pl_sunk (snd (poll_once demo_io ENCRYPTED (demo_pipe l q a calls)))) = [demo_item ENCRYPTED]"
  using assms
  by (simp add: demo_pipe_def stage_eval pipeline_eval demo_decode demo_encode open_gate_def
      Let_def case_prod_beta)

definition demo_persisted :: pipe_sys where
  "demo_persisted = demo_polls [RAW, ANALYZED, REDACTED, ENCRYPTED] demo_submitted"

lemma demo_persisted_sunk: "map fst (pl_sunk (ps_pipe demo_persisted)) = [demo_item ENCRYPTED]"
proof -
  let ?l = "(\<lambda>_. [])(RAW := [(1, 1)])" and ?q = "(\<lambda>_. [])(RAW := [demo_message RAW])"
  obtain a1 where a1: "snd (poll_once demo_io RAW (ps_pipe demo_submitted)) =
      demo_pipe (?l(RAW := [], ANALYZED := [(1, 1)])) (?q(RAW := [], ANALYZED := [demo_message ANALYZED])) a1
        [(demo_item RAW, demo_item ANALYZED)]" "\<forall>u. \<not> st_faulted (a1 u)"
    using demo_poll [of RAW ANALYZED ?l ?q "\<lambda>_. new_stage" "[]"]
    by (auto simp: demo_submitted_pipe new_stage_def)
  let ?l1 = "?l(RAW := [], ANALYZED := [(1, 1)])" and ?q1 = "?q(RAW := [], ANALYZED := [demo_message ANALYZED])"
  obtain a2 where a2: "snd (poll_once demo_io ANALYZED (snd (poll_once demo_io RAW (ps_pipe demo_submitted)))) =
      demo_pipe (?l1(ANALYZED := [], REDACTED := [(1, 1)])) (?q1(ANALYZED := [], REDACTED := [demo_message REDACTED])) a2
        [(demo_item ANALYZED, demo_item REDACTED), (demo_item RAW, demo_item ANALYZED)]" "\<forall>u. \<not> st_faulted (a2 u)"
    using demo_poll [of ANALYZED REDACTED ?l1 ?q1 a1 "[(demo_item RAW, demo_item ANALYZED)]"] a1 by auto
  let ?l2 = "?l1(ANALYZED := [], REDACTED := [(1, 1)])"
  let ?q2 = "?q1(ANALYZED := [], REDACTED := [demo_message REDACTED])"
  obtain a3 c3 where a3: "snd (poll_once demo_io REDACTED (snd (poll_once demo_io ANALYZED
        (snd (poll_once demo_io RAW (ps_pipe demo_submitted)))))) =
      demo_pipe (?l2(REDACTED := [], ENCRYPTED := [(1, 1)])) (?q2(REDACTED := [], ENCRYPTED := [demo_message ENCRYPTED]))
        a3 c3" "\<forall>u. \<not> st_faulted (a3 u)"
    using demo_poll [of REDACTED ENCRYPTED ?l2 ?q2 a2
        "[(demo_item ANALYZED, demo_item REDACTED), (demo_item RAW, demo_item ANALYZED)]"] a2 by auto
  from demo_poll_sink [of "?l2(REDACTED := [], ENCRYPTED := [(1, 1)])"
      "?q2(REDACTED := [], ENCRYPTED := [demo_message ENCRYPTED])" a3 c3] a3
  show ?thesis by (simp add: demo_persisted_def)
qed

lemma demo_persisted_reachable:
  "run (pipe_step plain_codec) (new_pipe_sys 7 open_gate demo_limits [[1, 2, 3]]) demo_persisted"
proof -
  have "ps_hand demo_submitted s = None" for s
    by (simp add: demo_submitted_def demo_start_def new_pipe_sys_def)
  then show ?thesis
    using demo_polls_reachable [OF demo_submitted_reachable] by (simp add: demo_persisted_def demo_start_def del: demo_polls.simps)
qed


section \<open>Properties\<close>

text \<open>
  C10. Bounded memory. In every reachable state of the pipeline, for every interleaving of
  submissions, stage actors and lifecycle calls, the messages queued on an edge together with the
  one its stage has in hand never exceed the configured capacity of the edge, which is at most 256.
\<close>

theorem pipeline_edges_bounded:
  assumes "codec_ok c" and "mk_PipelineLimits limits = Inr limits"
    and "run (pipe_step c) (new_pipe_sys owner g limits h) y"
  shows "int (length (in_hand y s) + length (pl_queues (ps_pipe y) s)) \<le> edge_capacity limits s \<and>
    edge_capacity limits s \<le> 256"
proof -
  have "edge_ok c limits (lineages (ps_pipe y)) s (pl_ledgers (ps_pipe y) s) (pl_queues (ps_pipe y) s) (in_hand y s)"
    using reachable_pipe_inv [OF assms(3,1,2)] by (simp add: pipe_inv_def flow_edge)
  moreover have "edge_capacity limits s \<le> 256"
    using assms(2) by (cases s) (auto simp: mk_PipelineLimits_def bindS_Inr ensure_Inr)
  ultimately show ?thesis using edge_bound by simp
qed

theorem pipeline_edges_bounded_witness:
  "int (length (in_hand demo_persisted RAW) + length (pl_queues (ps_pipe demo_persisted) RAW)) \<le> 1"
  using pipeline_edges_bounded [OF plain_codec_ok demo_limits_ok demo_persisted_reachable, of RAW] by simp

text \<open>
  C11. Nothing reaches storage unprocessed. Every item the sink was given descends from a raw frame
  the pipeline accepted: the raw processor turned it into an analyzed item, the analysis processor
  that one into a redacted item, and the redaction processor that one into the encrypted item
  persisted, all with the same record identifier, generation and configuration revision; and the
  gate admitted the generation at the moment of the write.
\<close>

theorem persisted_items_passed_every_stage:
  assumes "codec_ok c" and "mk_PipelineLimits limits = Inr limits"
    and "run (pipe_step c) (new_pipe_sys owner g limits h) y" and "(item, gt) \<in> set (pl_sunk (ps_pipe y))"
  shows "\<exists>raw analyzed redacted. raw \<in> set (pl_submitted (ps_pipe y)) \<and> item_stage raw = RAW \<and>
    (raw, analyzed) \<in> set (pl_calls (ps_pipe y)) \<and> (analyzed, redacted) \<in> set (pl_calls (ps_pipe y)) \<and>
    (redacted, item) \<in> set (pl_calls (ps_pipe y)) \<and>
    item_stage analyzed = ANALYZED \<and> item_stage redacted = REDACTED \<and> item_stage item = ENCRYPTED \<and>
    item_record_id item = item_record_id raw \<and> item_generation item = item_generation raw \<and>
    item_revision item = item_revision raw \<and> may_persist gt (item_generation item)"
proof -
  have "lineages (ps_pipe y) item" "item_stage item = ENCRYPTED" "may_persist gt (item_generation item)"
    using reachable_pipe_inv [OF assms(3,1,2)] assms(4)
    by (auto simp: pipe_inv_def flow_ok_def flow_okL_def)
  with lineage_chain [of "set (pl_submitted (ps_pipe y))" "set (pl_calls (ps_pipe y))" item]
  show ?thesis by (fastforce simp: lineages_def follows_def)
qed

theorem persisted_items_passed_every_stage_witness:
  "\<exists>raw. raw \<in> set (pl_submitted (ps_pipe demo_persisted)) \<and> item_stage raw = RAW \<and>
    item_record_id (demo_item ENCRYPTED) = item_record_id raw"
proof -
  obtain gt where "(demo_item ENCRYPTED, gt) \<in> set (pl_sunk (ps_pipe demo_persisted))"
    using demo_persisted_sunk by (cases "pl_sunk (ps_pipe demo_persisted)") auto
  from persisted_items_passed_every_stage [OF plain_codec_ok demo_limits_ok demo_persisted_reachable this]
  show ?thesis by blast
qed





text \<open>
  An encoding failure leaks a credit. When the ingress has been granted a credit and the item
  then cannot be encoded (a payload over the limit, say), \<open>submit\<close> raises with the credit still
  held although nothing was queued: the \<open>try\<close> block handles transport errors only. With the
  default capacity of one the edge is full from then on.
\<close>

theorem encoding_failure_leaks_credit:
  assumes "tid = pl_owner p" and "\<not> pl_ingress_closed p" and "\<not> permit_cancelled permit (pl_gate p)"
    and "ledger_ok (pl_ledgers p RAW)" and "in_use (pl_ledgers p RAW) < ledger_capacity (pl_ledgers p RAW)"
    and "encode_item (io_codec io) (pl_limits p) (read_item item p) = Inl e"
  shows "\<exists>q. submit io tid item permit p = (Inl e, q) \<and> pl_queues q = pl_queues p \<and>
    credits (pl_ledgers q RAW) = add_mset (raw_generation item) (credits (pl_ledgers p RAW))"
proof -
  obtain l where acq: "try_acquire (raw_generation item) (pl_ledgers p RAW) = (True, l)"
    using assms(5) by (simp add: try_acquire_def)
  have l: "credits l = add_mset (raw_generation item) (credits (pl_ledgers p RAW))"
    using edge.acquire_law [OF assms(4) acq] by simp
  have "\<exists>t r. registry_attach permit p = (Inr t, p\<lparr>pl_registry := r\<rparr>)"
    by (cases "reg_events (pl_registry p) (gen_value (permit_generation permit))")
      (auto simp: registry_attach_def event_for_def comp_defs)
  then obtain t r where attach: "registry_attach permit p = (Inr t, p\<lparr>pl_registry := r\<rparr>)" by blast
  have "read_item item (p\<lparr>pl_registry := r, pl_ledgers := x\<rparr>) = read_item item p" for x
    by (simp add: read_item_def)
  then have "submit io tid item permit p = (Inl e, p\<lparr>pl_registry := r, pl_ledgers := (pl_ledgers p)(RAW := l)\<rparr>)"
    using assms attach acq
    by (simp add: submit_def assert_pipeline_owner_def comp_defs take_credit_def send_encoded_def)
  with l show ?thesis by simp
qed

theorem encoding_failure_leaks_credit_witness:
  "\<exists>q. submit demo_io 7 \<lparr>raw_record_id = 1, raw_generation = CaptureGeneration 1, raw_revision = ''r1'',
      raw_deadline_ns = 5, raw_frames = [0]\<rparr> \<lparr>permit_generation = CaptureGeneration 1,
      permit_configuration_revision = ''r1'', permit_cancel_event = 0\<rparr>
      (new_pipeline 7 open_gate (demo_limits\<lparr>max_payload_bytes := 2\<rparr>) [[1, 2, 3]]) =
      (Inl (PipelineProtocolError ''pipeline payload exceeds configured limit''), q) \<and>
    credits (pl_ledgers q RAW) = {#CaptureGeneration 1#}"
proof -
  let ?p = "new_pipeline 7 open_gate (demo_limits\<lparr>max_payload_bytes := 2\<rparr>) [[1, 2, 3]]"
  let ?item = "\<lparr>raw_record_id = 1, raw_generation = CaptureGeneration 1, raw_revision = ''r1'',
      raw_deadline_ns = 5, raw_frames = [0]\<rparr>"
  let ?permit = "\<lparr>permit_generation = CaptureGeneration 1, permit_configuration_revision = ''r1'',
      permit_cancel_event = 0\<rparr>"
  have "encode_item (io_codec demo_io) (pl_limits ?p) (read_item ?item ?p) =
      Inl (PipelineProtocolError ''pipeline payload exceeds configured limit'')"
    by (simp add: encode_item_def validate_payload_limits_def new_pipeline_def read_item_def demo_limits_def
        default_limits_def)
  from encoding_failure_leaks_credit [of 7 ?p ?permit, OF _ _ _ _ _ this] show ?thesis
    by (auto simp: new_pipeline_def permit_cancelled_def event_is_set_def open_gate_def ledger_ok_def in_use_def
        credits_def)
qed

end
