(* ===== verification/Config_Model.thy ===== *)
theory Config_Model
  imports Recall_Text
begin

text \<open>
  The configuration of \<^verbatim>\<open>src/local_recall/config/models.py\<close>: one record per settings model, one
  function per field or model validator. A validator that rewrites its value (stripping names)
  returns the rewritten value; a model is built by \<open>mk_\<close> functions that apply the field bounds,
  the field validators and the model validators. Regular expressions, URLs, network addresses and
  time zones are parsed by Python's library: the record \<open>pylib\<close> stands for it.
\<close>

section \<open>The parsers of the Python library\<close>

record url_parts =
  url_scheme :: string
  url_hostname :: "string option"
  url_username :: "string option"
  url_password :: "string option"
  url_path :: string
  url_query :: string
  url_fragment :: string
  url_port :: "int option"

text \<open>
  \<open>re_compile\<close> says whether a pattern compiles and \<open>re_search\<close> whether it matches somewhere;
  \<open>urlsplit\<close> gives \<open>None\<close> when the URL or its port is malformed; \<open>ip_address\<close> gives the compressed
  form of an address and \<open>None\<close> otherwise; \<open>zone_offset\<close> gives the offset of local time from UTC
  (microseconds) at an instant, for a known zone.
\<close>

record pylib =
  re_compile :: "string \<Rightarrow> bool"
  re_search :: "string \<Rightarrow> string \<Rightarrow> bool"
  urlsplit :: "string \<Rightarrow> url_parts option"
  ip_address :: "string \<Rightarrow> string option"
  zone_offset :: "string \<Rightarrow> (int \<Rightarrow> int) option"
  float_repr :: "rat \<Rightarrow> string"
  json_digest :: "string list \<Rightarrow> string"

definition len_between :: "nat \<Rightarrow> nat \<Rightarrow> 'a list \<Rightarrow> bool" where
  "len_between lo hi xs \<longleftrightarrow> lo \<le> length xs \<and> length xs \<le> hi"

definition opt_ok :: "('a \<Rightarrow> bool) \<Rightarrow> 'a option \<Rightarrow> bool" where
  "opt_ok p x = (case x of None \<Rightarrow> True | Some y \<Rightarrow> p y)"

lemma opt_ok_simps [simp]: "opt_ok p None" "opt_ok p (Some x) = p x"
  by (simp_all add: opt_ok_def)

section \<open>Capture rules\<close>

datatype policy_operation = SCREENSHOT | METADATA | OCR | INDEXING | SUMMARIZATION | REMOTE_PROVIDER

datatype privacy_profile = PRIVACY_STRICT | LOCAL_ONLY | LOCAL_FIRST

datatype rule_effect = ALLOW | DENY

record credential_reference =
  cred_provider :: string
  cred_reference :: string

definition credential_reference_ok :: "credential_reference \<Rightarrow> bool" where
  "credential_reference_ok c \<longleftrightarrow> len_between 1 128 (cred_provider c) \<and> len_between 1 512 (cred_reference c)"

text \<open>Wall-clock times are microseconds since midnight, with a flag for an attached timezone.\<close>

record policy_time_window =
  tw_start :: int
  tw_end :: int
  tw_zoned :: bool

definition time_of_day :: "int \<Rightarrow> bool" where
  "time_of_day t \<longleftrightarrow> 0 \<le> t \<and> t < 86400000000"

definition time_window_ok :: "policy_time_window \<Rightarrow> bool" where
  "time_window_ok w \<longleftrightarrow> time_of_day (tw_start w) \<and> time_of_day (tw_end w) \<and> tw_start w \<noteq> tw_end w \<and> \<not> tw_zoned w"

record capture_rule =
  cr_effect :: rule_effect
  cr_rule_id :: "string option"
  cr_enabled :: bool
  cr_priority :: int
  cr_operations :: "policy_operation list"
  cr_application :: "string option"
  cr_title_pattern :: "string option"
  cr_workspace :: "string option"
  cr_domain :: "string option"
  cr_include_subdomains :: bool
  cr_full_screen :: "bool option"
  cr_metadata_source :: "string option"
  cr_time_window :: "policy_time_window option"
  cr_reason_code :: string

definition rule_id_pattern :: "string \<Rightarrow> bool" where
  "rule_id_pattern s \<longleftrightarrow> s \<noteq> [] \<and> is_alnum (hd s) \<and>
    (\<forall>c \<in> set (tl s). is_alnum c \<or> c \<in> {CHR ''_'', CHR ''.'', CHR '':'', CHR ''-''})"

definition validate_operations :: "policy_operation list \<Rightarrow> bool" where
  "validate_operations ops \<longleftrightarrow> ops \<noteq> [] \<and> distinct ops"

definition repetition_char :: "char \<Rightarrow> bool" where
  "repetition_char c \<longleftrightarrow> c \<in> {CHR ''*'', CHR ''+''}"

text \<open>\<^verbatim>\<open>re.search(r"\\(?:[1-9]|g<)", body)\<close>\<close>

fun has_backreference :: "string \<Rightarrow> bool" where
  "has_backreference (a # b # s) \<longleftrightarrow>
    (char_code a = 92 \<and> (is_digit b \<and> b \<noteq> CHR ''0'' \<or> b = CHR ''g'' \<and> startswith s ''<'')) \<or> has_backreference (b # s)"
| "has_backreference _ \<longleftrightarrow> False"

text \<open>\<^verbatim>\<open>re.search(r"\([^)]*[*+][^)]*\)[*+]", body)\<close>\<close>

fun has_nested_repetition :: "string \<Rightarrow> bool" where
  "has_nested_repetition [] \<longleftrightarrow> False"
| "has_nested_repetition (c # s) \<longleftrightarrow>
    (c = CHR ''('' \<and> list_ex repetition_char (takeWhile (\<lambda>x. x \<noteq> CHR '')'') s) \<and>
      (case dropWhile (\<lambda>x. x \<noteq> CHR '')'') s of _ # d # _ \<Rightarrow> repetition_char d | _ \<Rightarrow> False)) \<or> has_nested_repetition s"

definition validate_title_pattern :: "pylib \<Rightarrow> string \<Rightarrow> bool" where
  "validate_title_pattern lib value \<longleftrightarrow> re_compile lib value \<and>
    (let body = (if startswith value ''(?i)'' then drop 4 value else value) in
     \<not> (contains body ''(?'' \<or> contains body ''|'' \<or> contains body ''{'') \<and> \<not> has_backreference body \<and>
     \<not> has_nested_repetition body \<and> length (filter repetition_char body) \<le> 4)"

definition remove_dot :: "string \<Rightarrow> string" where
  "remove_dot s = (if endswith s ''.'' then butlast s else s)"

definition label_ok :: "string \<Rightarrow> bool" where
  "label_ok l \<longleftrightarrow> len_between 1 63 l \<and> hd l \<noteq> CHR ''-'' \<and> last l \<noteq> CHR ''-'' \<and>
    (\<forall>c \<in> set l. is_alnum c \<or> c = CHR ''-'')"

definition domain_labels_ok :: "string \<Rightarrow> bool" where
  "domain_labels_ok s \<longleftrightarrow> 2 \<le> length (split_on CHR ''.'' s) \<and> (\<forall>l \<in> set (split_on CHR ''.'' s). label_ok l)"

definition validate_domain :: "pylib \<Rightarrow> string \<Rightarrow> bool" where
  "validate_domain lib value \<longleftrightarrow>
    (let normalized = remove_dot (casefold (strip value)) in
     normalized \<noteq> [] \<and> (ip_address lib normalized \<noteq> None \<or> domain_labels_ok normalized))"

definition require_selector :: "capture_rule \<Rightarrow> bool" where
  "require_selector r \<longleftrightarrow>
    \<not> (cr_application r = None \<and> cr_title_pattern r = None \<and> cr_workspace r = None \<and> cr_domain r = None \<and>
       cr_full_screen r = None \<and> cr_metadata_source r = None \<and> cr_time_window r = None) \<and>
    (cr_include_subdomains r \<longrightarrow> cr_domain r \<noteq> None)"

definition capture_rule_ok :: "pylib \<Rightarrow> capture_rule \<Rightarrow> bool" where
  "capture_rule_ok lib r \<longleftrightarrow>
    opt_ok (\<lambda>s. len_between 1 128 s \<and> rule_id_pattern s) (cr_rule_id r) \<and>
    - 1000 \<le> cr_priority r \<and> cr_priority r \<le> 1000 \<and> validate_operations (cr_operations r) \<and>
    opt_ok (len_between 1 256) (cr_application r) \<and>
    opt_ok (\<lambda>p. len_between 1 256 p \<and> validate_title_pattern lib p) (cr_title_pattern r) \<and>
    opt_ok (len_between 1 256) (cr_workspace r) \<and>
    opt_ok (\<lambda>d. len_between 1 253 d \<and> validate_domain lib d) (cr_domain r) \<and>
    opt_ok (len_between 1 128) (cr_metadata_source r) \<and> opt_ok time_window_ok (cr_time_window r) \<and>
    len_between 1 128 (cr_reason_code r) \<and> require_selector r"

record rule_settings =
  default_effect :: rule_effect
  rs_timezone :: string
  max_metadata_age :: rat
  rs_rules :: "capture_rule list"
  sensitive_applications :: "string list"
  sensitive_workspaces :: "string list"

definition validate_sensitive_values :: "string list \<Rightarrow> exn + string list" where
  "validate_sensitive_values value =
    (let normalized = map strip value in
     if \<exists>s \<in> set normalized. s = [] \<or> 256 < length s
     then Inl (ValueError ''sensitive-context values must be 1 to 256 characters'')
     else if \<not> distinct (map casefold normalized)
     then Inl (ValueError ''sensitive-context values must be unique'')
     else Inr normalized)"

definition validate_rule_ids :: "capture_rule list \<Rightarrow> bool" where
  "validate_rule_ids rules \<longleftrightarrow> distinct [i. Some i \<leftarrow> map cr_rule_id rules]"

definition mk_RuleSettings :: "pylib \<Rightarrow> rule_settings \<Rightarrow> exn + rule_settings" where
  "mk_RuleSettings lib s =
    bindS (ensure (len_between 1 128 (rs_timezone s) \<and> 0 < max_metadata_age s \<and> max_metadata_age s \<le> 300 \<and>
        length (rs_rules s) \<le> 256 \<and> length (sensitive_applications s) \<le> 64 \<and>
        length (sensitive_workspaces s) \<le> 64) (ValueError ''field out of range'')) (\<lambda>_.
    bindS (ensure (zone_offset lib (rs_timezone s) \<noteq> None) (ValueError ''policy timezone is unknown'')) (\<lambda>_.
    bindS (ensure (list_all (capture_rule_ok lib) (rs_rules s)) (ValueError ''capture rule'')) (\<lambda>_.
    bindS (validate_sensitive_values (sensitive_applications s)) (\<lambda>apps.
    bindS (validate_sensitive_values (sensitive_workspaces s)) (\<lambda>wss.
    bindS (ensure (validate_rule_ids (rs_rules s)) (ValueError ''capture rule identifiers must be unique'')) (\<lambda>_.
    Inr (s\<lparr>sensitive_applications := apps, sensitive_workspaces := wss\<rparr>)))))))"

section \<open>Capture, metadata and OCR settings\<close>

datatype resume_behavior = IMMEDIATE | ACTIVE_GRACE | MANUAL

record idle_settings =
  idle_enabled :: bool
  idle_pause_capture :: bool
  threshold_seconds :: rat
  resume_behavior :: resume_behavior
  active_grace_seconds :: rat
  max_observation_age :: rat

definition validate_resume_behavior :: "idle_settings \<Rightarrow> bool" where
  "validate_resume_behavior s \<longleftrightarrow>
    \<not> (resume_behavior s = ACTIVE_GRACE \<and> active_grace_seconds s \<le> 0) \<and>
    \<not> (resume_behavior s \<noteq> ACTIVE_GRACE \<and> active_grace_seconds s \<noteq> 0)"

definition idle_settings_ok :: "idle_settings \<Rightarrow> bool" where
  "idle_settings_ok s \<longleftrightarrow> 0 < threshold_seconds s \<and> threshold_seconds s \<le> 86400 \<and>
    0 \<le> active_grace_seconds s \<and> active_grace_seconds s \<le> 300 \<and>
    0 < max_observation_age s \<and> max_observation_age s \<le> 300 \<and> validate_resume_behavior s"

datatype capture_overload = CAPTURE_DROP_NEWEST | CAPTURE_COALESCE_LATEST

record capture_settings =
  cs_enabled :: bool
  cadence_seconds :: rat
  screenshots_enabled :: bool
  raw_queue_items :: int
  max_queue_items :: int
  cs_overload :: capture_overload
  change_threshold :: rat
  cs_idle :: idle_settings

definition capture_settings_ok :: "capture_settings \<Rightarrow> bool" where
  "capture_settings_ok s \<longleftrightarrow> 1 \<le> cadence_seconds s \<and> cadence_seconds s \<le> 3600 \<and>
    1 \<le> raw_queue_items s \<and> raw_queue_items s \<le> 256 \<and> 1 \<le> max_queue_items s \<and> max_queue_items s \<le> 256 \<and>
    0 \<le> change_threshold s \<and> change_threshold s \<le> 1 \<and> idle_settings_ok (cs_idle s)"

datatype url_mode = URL_DISABLED | URL_DOMAIN_ONLY

record activitywatch_settings =
  aw_endpoint :: string
  aw_connect_timeout :: rat
  aw_request_timeout :: rat
  aw_window :: rat
  aw_url_mode :: url_mode

definition port_ok :: "int option \<Rightarrow> bool" where
  "port_ok p = opt_ok (\<lambda>n. 1 \<le> n \<and> n \<le> 65535) p"

definition validate_loopback_endpoint :: "pylib \<Rightarrow> string \<Rightarrow> bool" where
  "validate_loopback_endpoint lib value = (case urlsplit lib value of
     None \<Rightarrow> False
   | Some p \<Rightarrow> \<not> (url_scheme p \<noteq> ''http'' \<or>
       url_hostname p \<notin> {Some ''127.0.0.1'', Some ''localhost'', Some ''::1''} \<or>
       url_username p \<noteq> None \<or> url_password p \<noteq> None \<or> url_path p \<notin> {'''', ''/''} \<or>
       url_query p \<noteq> '''' \<or> url_fragment p \<noteq> '''' \<or> \<not> port_ok (url_port p)))"

definition timeout_ok :: "rat \<Rightarrow> bool" where
  "timeout_ok t \<longleftrightarrow> 0 < t \<and> t \<le> 5"

definition activitywatch_settings_ok :: "pylib \<Rightarrow> activitywatch_settings \<Rightarrow> bool" where
  "activitywatch_settings_ok lib s \<longleftrightarrow> len_between 1 256 (aw_endpoint s) \<and>
    validate_loopback_endpoint lib (aw_endpoint s) \<and> timeout_ok (aw_connect_timeout s) \<and>
    timeout_ok (aw_request_timeout s) \<and> timeout_ok (aw_window s)"

record metadata_settings =
  enabled_sources :: "string list"
  window_titles_enabled :: bool
  ms_activitywatch :: activitywatch_settings

definition validate_sources :: "string list \<Rightarrow> exn + string list" where
  "validate_sources value =
    (let normalized = map strip value in
     if [] \<in> set normalized then Inl (ValueError ''metadata source identifiers must not be empty'')
     else if \<not> distinct normalized then Inl (ValueError ''metadata source identifiers must be unique'')
     else Inr normalized)"

definition mk_MetadataSettings :: "pylib \<Rightarrow> metadata_settings \<Rightarrow> exn + metadata_settings" where
  "mk_MetadataSettings lib s =
    bindS (validate_sources (enabled_sources s)) (\<lambda>sources.
    bindS (ensure (activitywatch_settings_ok lib (ms_activitywatch s)) (ValueError ''activitywatch'')) (\<lambda>_.
    Inr (s\<lparr>enabled_sources := sources\<rparr>)))"

text \<open>\<open>PurePath(value).name\<close>: the last component that is neither empty nor a single dot.\<close>

definition path_name :: "string \<Rightarrow> string" where
  "path_name value = (case filter (\<lambda>p. p \<notin> {'''', ''.''}) (split_on CHR ''/'' value) of
     [] \<Rightarrow> '''' | ps \<Rightarrow> last ps)"

definition no_control_chars :: "string \<Rightarrow> bool" where
  "no_control_chars s \<longleftrightarrow> (\<forall>c \<in> set s. char_code c \<notin> {0, 10, 13})"

record ocr_settings =
  ocr_executable :: string
  ocr_languages :: "string list"
  ocr_timeout :: rat
  ocr_max_input_bytes :: int

definition validate_ocr_executable :: "string \<Rightarrow> bool" where
  "validate_ocr_executable value \<longleftrightarrow> no_control_chars value \<and> path_name value = ''tesseract''"

definition language_pattern :: "string \<Rightarrow> bool" where
  "language_pattern s \<longleftrightarrow> len_between 1 32 s \<and>
    (\<forall>c \<in> set s. is_alnum c \<or> c \<in> {CHR ''_'', CHR ''+'', CHR ''-''})"

definition validate_languages :: "string list \<Rightarrow> exn + string list" where
  "validate_languages value =
    (let normalized = map strip value in
     if value = [] then Inl (ValueError ''at least one OCR language is required'')
     else if \<not> list_all language_pattern normalized then Inl (ValueError ''OCR language identifiers are invalid'')
     else if \<not> distinct normalized then Inl (ValueError ''OCR language identifiers must be unique'')
     else Inr normalized)"

definition mk_OCRSettings :: "ocr_settings \<Rightarrow> exn + ocr_settings" where
  "mk_OCRSettings s =
    bindS (ensure (len_between 1 4096 (ocr_executable s) \<and> validate_ocr_executable (ocr_executable s))
      (ValueError ''OCR executable must resolve to the tesseract binary'')) (\<lambda>_.
    bindS (validate_languages (ocr_languages s)) (\<lambda>languages.
    bindS (ensure (0 < ocr_timeout s \<and> ocr_timeout s \<le> 120 \<and> 1024 \<le> ocr_max_input_bytes s \<and>
      ocr_max_input_bytes s \<le> 256 * 1024 * 1024) (ValueError ''field out of range'')) (\<lambda>_.
    Inr (s\<lparr>ocr_languages := languages\<rparr>))))"

section \<open>Redaction settings\<close>

record entropy_settings =
  en_enabled :: bool
  en_min_length :: int
  en_min_bits :: rat
  en_hex_min_length :: int
  en_max_token_length :: int

definition entropy_settings_ok :: "entropy_settings \<Rightarrow> bool" where
  "entropy_settings_ok s \<longleftrightarrow> 12 \<le> en_min_length s \<and> en_min_length s \<le> 256 \<and>
    2 \<le> en_min_bits s \<and> en_min_bits s \<le> 6 \<and> 16 \<le> en_hex_min_length s \<and> en_hex_min_length s \<le> 512 \<and>
    32 \<le> en_max_token_length s \<and> en_max_token_length s \<le> 4096 \<and>
    \<not> en_max_token_length s < en_min_length s \<and> \<not> en_max_token_length s < en_hex_min_length s"

record custom_pattern =
  cp_id :: string
  cp_pattern :: string

definition lower_identifier :: "char set \<Rightarrow> string \<Rightarrow> bool" where
  "lower_identifier extra s \<longleftrightarrow> s \<noteq> [] \<and> is_lower (hd s) \<and>
    (\<forall>c \<in> set (tl s). is_lower c \<or> is_digit c \<or> c \<in> {CHR ''_'', CHR ''.'', CHR ''-''} \<union> extra)"

definition custom_pattern_ok :: "pylib \<Rightarrow> custom_pattern \<Rightarrow> bool" where
  "custom_pattern_ok lib p \<longleftrightarrow> len_between 1 112 (cp_id p) \<and> lower_identifier {} (cp_id p) \<and>
    len_between 1 2048 (cp_pattern p) \<and> re_compile lib (cp_pattern p)"

record redaction_allowlist =
  al_id :: string
  al_pattern_id :: string
  al_exact_values :: "string list"

definition allowlist_ok :: "redaction_allowlist \<Rightarrow> bool" where
  "allowlist_ok a \<longleftrightarrow> len_between 1 128 (al_id a) \<and> lower_identifier {} (al_id a) \<and>
    len_between 1 120 (al_pattern_id a) \<and> lower_identifier {CHR '':''} (al_pattern_id a) \<and>
    len_between 1 16 (al_exact_values a) \<and> (\<forall>v \<in> set (al_exact_values a). len_between 1 256 v) \<and>
    distinct (al_exact_values a)"

record redaction_settings =
  rd_enabled :: bool
  deterministic_required :: bool
  fail_on_uncertain :: bool
  model_assistance_enabled :: bool
  rd_policy_revision :: string
  low_confidence_threshold :: rat
  rd_entropy :: entropy_settings
  custom_patterns :: "custom_pattern list"
  rd_allowlists :: "redaction_allowlist list"

definition BUILTIN_REDACTION_PATTERN_IDS :: "string list" where
  "BUILTIN_REDACTION_PATTERN_IDS = [''private-key'', ''authorization-header'', ''aws-access-key'', ''github-token'',
     ''slack-token'', ''stripe-secret'', ''google-api-key'', ''jwt'', ''password-assignment'', ''username-assignment'',
     ''generic-token-assignment'', ''credentialed-connection-string'', ''account-key-connection-string'',
     ''email-address'', ''high-entropy'']"

definition validate_pattern_sets :: "redaction_settings \<Rightarrow> bool" where
  "validate_pattern_sets s \<longleftrightarrow>
    (let pattern_ids = map cp_id (custom_patterns s);
         known = set BUILTIN_REDACTION_PATTERN_IDS \<union> set (map (\<lambda>i. ''custom:'' @ i) pattern_ids)
     in distinct pattern_ids \<and> distinct (map al_id (rd_allowlists s)) \<and>
        distinct (map (\<lambda>a. (al_pattern_id a, al_exact_values a)) (rd_allowlists s)) \<and>
        (\<forall>a \<in> set (rd_allowlists s). al_pattern_id a \<in> known) \<and>
        \<not> (model_assistance_enabled s \<and> \<not> deterministic_required s))"

definition revision_pattern :: "string \<Rightarrow> bool" where
  "revision_pattern s \<longleftrightarrow> len_between 1 128 s \<and>
    (\<forall>c \<in> set s. is_alnum c \<or> c \<in> {CHR ''_'', CHR ''.'', CHR '':'', CHR ''-''})"

definition redaction_settings_ok :: "pylib \<Rightarrow> redaction_settings \<Rightarrow> bool" where
  "redaction_settings_ok lib s \<longleftrightarrow> revision_pattern (rd_policy_revision s) \<and>
    0 \<le> low_confidence_threshold s \<and> low_confidence_threshold s \<le> 1 \<and> entropy_settings_ok (rd_entropy s) \<and>
    list_all (custom_pattern_ok lib) (custom_patterns s) \<and> list_all allowlist_ok (rd_allowlists s) \<and>
    validate_pattern_sets s"

section \<open>Retention, models, encryption and storage\<close>

record retention_settings =
  max_age_days :: int
  rt_max_bytes :: int
  rt_max_records :: int

definition retention_settings_ok :: "retention_settings \<Rightarrow> bool" where
  "retention_settings_ok s \<longleftrightarrow> 1 \<le> max_age_days s \<and> max_age_days s \<le> 3650 \<and> 1024 ^ 2 \<le> rt_max_bytes s \<and>
    1 \<le> rt_max_records s"

record remote_provider =
  rp_id :: string
  rp_enabled :: bool
  rp_kind :: "string option"
  rp_endpoint :: "string option"
  rp_model :: "string option"
  rp_credential :: "credential_reference option"

definition validate_remote_endpoint :: "pylib \<Rightarrow> string \<Rightarrow> bool" where
  "validate_remote_endpoint lib value = (case urlsplit lib value of
     None \<Rightarrow> False
   | Some p \<Rightarrow> \<not> (url_scheme p \<noteq> ''https'' \<or> url_hostname p \<in> {None, Some ''''} \<or> url_username p \<noteq> None \<or>
       url_password p \<noteq> None \<or> \<not> startswith (url_path p) ''/'' \<or> url_path p = ''/'' \<or> url_query p \<noteq> '''' \<or>
       url_fragment p \<noteq> '''' \<or> \<not> no_control_chars (url_path p) \<or> \<not> port_ok (url_port p)))"

definition require_executable_configuration :: "remote_provider \<Rightarrow> bool" where
  "require_executable_configuration p \<longleftrightarrow> (rp_enabled p \<longrightarrow>
    rp_kind p \<noteq> None \<and> rp_endpoint p \<noteq> None \<and> rp_model p \<noteq> None \<and> rp_credential p \<noteq> None)"

definition remote_provider_ok :: "pylib \<Rightarrow> remote_provider \<Rightarrow> bool" where
  "remote_provider_ok lib p \<longleftrightarrow> len_between 1 128 (rp_id p) \<and>
    rp_kind p \<in> {None, Some ''openai-compatible'', Some ''openrouter'', Some ''anthropic'', Some ''google''} \<and>
    opt_ok (\<lambda>e. len_between 1 2048 e \<and> validate_remote_endpoint lib e) (rp_endpoint p) \<and>
    opt_ok (len_between 1 256) (rp_model p) \<and> opt_ok credential_reference_ok (rp_credential p) \<and>
    require_executable_configuration p"

record model_settings =
  generation_provider :: string
  embedding_provider :: string
  remote_enabled :: bool
  remote_providers :: "remote_provider list"

definition model_settings_ok :: "pylib \<Rightarrow> model_settings \<Rightarrow> bool" where
  "model_settings_ok lib s \<longleftrightarrow> len_between 1 128 (generation_provider s) \<and> len_between 1 128 (embedding_provider s) \<and>
    list_all (remote_provider_ok lib) (remote_providers s) \<and> distinct (map rp_id (remote_providers s)) \<and>
    (remote_enabled s \<longleftrightarrow> list_ex rp_enabled (remote_providers s))"

record encryption_settings =
  ec_provider_id :: "string option"
  ec_key_reference :: "credential_reference option"
  ec_fallback_gpg :: bool
  ec_gpg_recipient :: "string option"
  ec_gpg_executable :: string
  ec_gpg_timeout :: rat

definition validate_gpg_executable :: "string \<Rightarrow> bool" where
  "validate_gpg_executable value \<longleftrightarrow> no_control_chars value \<and> path_name value \<in> {''gpg'', ''gpg2''}"

definition validate_fallback :: "encryption_settings \<Rightarrow> bool" where
  "validate_fallback s \<longleftrightarrow>
    (if \<not> ec_fallback_gpg s then ec_gpg_recipient s = None
     else ec_provider_id s \<noteq> Some ''gpg'' \<and> ec_gpg_recipient s \<noteq> None)"

definition encryption_settings_ok :: "encryption_settings \<Rightarrow> bool" where
  "encryption_settings_ok s \<longleftrightarrow> opt_ok (len_between 1 128) (ec_provider_id s) \<and>
    opt_ok credential_reference_ok (ec_key_reference s) \<and> opt_ok (len_between 1 512) (ec_gpg_recipient s) \<and>
    len_between 1 4096 (ec_gpg_executable s) \<and> validate_gpg_executable (ec_gpg_executable s) \<and>
    0 < ec_gpg_timeout s \<and> ec_gpg_timeout s \<le> 120 \<and> validate_fallback s"

record storage_settings =
  so_backend_id :: "string option"
  so_root_directory :: "string option"

definition storage_settings_ok :: "storage_settings \<Rightarrow> bool" where
  "storage_settings_ok s \<longleftrightarrow> opt_ok (len_between 1 128) (so_backend_id s) \<and>
    opt_ok (\<lambda>d. len_between 1 4096 d \<and> (\<forall>c \<in> set d. char_code c \<noteq> 0)) (so_root_directory s)"

section \<open>The whole configuration\<close>

record config =
  schema_version :: int
  cf_profile :: privacy_profile
  cf_capture :: capture_settings
  cf_rules :: rule_settings
  cf_metadata :: metadata_settings
  cf_ocr :: ocr_settings
  cf_redaction :: redaction_settings
  cf_retention :: retention_settings
  cf_models :: model_settings
  cf_encryption :: encryption_settings
  cf_storage :: storage_settings

definition CURRENT_SCHEMA_VERSION :: int where
  "CURRENT_SCHEMA_VERSION = 1"

definition missing_security :: "config \<Rightarrow> string list" where
  "missing_security c =
    (if enabled_sources (cf_metadata c) = [] then [''metadata.enabled_sources''] else []) @
    (if \<not> rd_enabled (cf_redaction c) then [''redaction.enabled''] else []) @
    (if \<not> deterministic_required (cf_redaction c) then [''redaction.deterministic_required''] else []) @
    (if \<not> fail_on_uncertain (cf_redaction c) then [''redaction.fail_on_uncertain''] else []) @
    (if ec_provider_id (cf_encryption c) = None then [''encryption.provider_id''] else []) @
    (if ec_key_reference (cf_encryption c) = None then [''encryption.key_reference''] else []) @
    (if so_backend_id (cf_storage c) = None then [''storage.backend_id''] else []) @
    (if so_root_directory (cf_storage c) = None then [''storage.root_directory''] else [])"

definition validate_security_invariants :: "config \<Rightarrow> exn + unit" where
  "validate_security_invariants c =
    (if schema_version c \<noteq> CURRENT_SCHEMA_VERSION then Inl (ValueError ''schema_version must be 1'')
     else if cf_profile c \<in> {PRIVACY_STRICT, LOCAL_ONLY} \<and> remote_enabled (cf_models c)
     then Inl (ValueError ''profile forbids remote providers'')
     else if cf_profile c = PRIVACY_STRICT \<and> default_effect (cf_rules c) \<noteq> DENY
     then Inl (ValueError ''privacy-strict requires default deny capture rules'')
     else if cf_profile c = PRIVACY_STRICT \<and> model_assistance_enabled (cf_redaction c)
     then Inl (ValueError ''privacy-strict forbids model-assisted redaction'')
     else if cs_enabled (cf_capture c) \<and> missing_security c \<noteq> []
     then Inl (ValueError ''capture cannot start; missing security configuration'')
     else Inr ())"

definition mk_LocalRecallConfig :: "pylib \<Rightarrow> config \<Rightarrow> exn + config" where
  "mk_LocalRecallConfig lib c =
    bindS (ensure (capture_settings_ok (cf_capture c)) (ValueError ''capture'')) (\<lambda>_.
    bindS (mk_RuleSettings lib (cf_rules c)) (\<lambda>rules.
    bindS (mk_MetadataSettings lib (cf_metadata c)) (\<lambda>metadata.
    bindS (mk_OCRSettings (cf_ocr c)) (\<lambda>ocr.
    bindS (ensure (redaction_settings_ok lib (cf_redaction c)) (ValueError ''redaction'')) (\<lambda>_.
    bindS (ensure (retention_settings_ok (cf_retention c)) (ValueError ''retention'')) (\<lambda>_.
    bindS (ensure (model_settings_ok lib (cf_models c)) (ValueError ''models'')) (\<lambda>_.
    bindS (ensure (encryption_settings_ok (cf_encryption c)) (ValueError ''encryption'')) (\<lambda>_.
    bindS (ensure (storage_settings_ok (cf_storage c)) (ValueError ''storage'')) (\<lambda>_.
    (let d = c\<lparr>cf_rules := rules, cf_metadata := metadata, cf_ocr := ocr\<rparr> in
     bindS (validate_security_invariants d) (\<lambda>_. Inr d)))))))))))"

definition config_capture_permitted :: "config \<Rightarrow> bool" where
  "config_capture_permitted c = cs_enabled (cf_capture c)"

definition safe_default :: config where
  "safe_default = \<lparr>schema_version = CURRENT_SCHEMA_VERSION, cf_profile = PRIVACY_STRICT,
     cf_capture = \<lparr>cs_enabled = False, cadence_seconds = 15, screenshots_enabled = True, raw_queue_items = 1,
       max_queue_items = 32, cs_overload = CAPTURE_DROP_NEWEST, change_threshold = 2 / 100,
       cs_idle = \<lparr>idle_enabled = False, idle_pause_capture = True, threshold_seconds = 180,
         resume_behavior = IMMEDIATE, active_grace_seconds = 0, max_observation_age = 5\<rparr>\<rparr>,
     cf_rules = \<lparr>default_effect = DENY, rs_timezone = ''UTC'', max_metadata_age = 5, rs_rules = [],
       sensitive_applications = [], sensitive_workspaces = []\<rparr>,
     cf_metadata = \<lparr>enabled_sources = [], window_titles_enabled = False,
       ms_activitywatch = \<lparr>aw_endpoint = ''http://127.0.0.1:5600'', aw_connect_timeout = 25 / 100,
         aw_request_timeout = 75 / 100, aw_window = 2, aw_url_mode = URL_DISABLED\<rparr>\<rparr>,
     cf_ocr = \<lparr>ocr_executable = ''tesseract'', ocr_languages = [''eng''], ocr_timeout = 10,
       ocr_max_input_bytes = 64 * 1024 * 1024\<rparr>,
     cf_redaction = \<lparr>rd_enabled = True, deterministic_required = True, fail_on_uncertain = True,
       model_assistance_enabled = False, rd_policy_revision = ''builtin-v1'', low_confidence_threshold = 6 / 10,
       rd_entropy = \<lparr>en_enabled = True, en_min_length = 20, en_min_bits = 35 / 10, en_hex_min_length = 32,
         en_max_token_length = 512\<rparr>, custom_patterns = [], rd_allowlists = []\<rparr>,
     cf_retention = \<lparr>max_age_days = 30, rt_max_bytes = 20 * 1024 ^ 3, rt_max_records = 250000\<rparr>,
     cf_models = \<lparr>generation_provider = ''ollama'', embedding_provider = ''ollama'', remote_enabled = False,
       remote_providers = []\<rparr>,
     cf_encryption = \<lparr>ec_provider_id = None, ec_key_reference = None, ec_fallback_gpg = False,
       ec_gpg_recipient = None, ec_gpg_executable = ''gpg'', ec_gpg_timeout = 10\<rparr>,
     cf_storage = \<lparr>so_backend_id = None, so_root_directory = None\<rparr>\<rparr>"

section \<open>Validation is idempotent\<close>

lemma validate_sensitive_values_idem:
  "validate_sensitive_values xs = Inr ys \<Longrightarrow> validate_sensitive_values ys = Inr ys \<and> length ys = length xs"
  by (auto simp: validate_sensitive_values_def Let_def o_def split: if_splits)

lemma validate_sources_idem:
  "validate_sources xs = Inr ys \<Longrightarrow> validate_sources ys = Inr ys"
  by (auto simp: validate_sources_def Let_def o_def split: if_splits)

lemma validate_languages_idem:
  "validate_languages xs = Inr ys \<Longrightarrow> validate_languages ys = Inr ys"
  by (auto simp: validate_languages_def Let_def o_def split: if_splits)

lemma mk_RuleSettings_idem: "mk_RuleSettings lib s = Inr t \<Longrightarrow> mk_RuleSettings lib t = Inr t"
  using validate_sensitive_values_idem [of "sensitive_applications s" "sensitive_applications t"]
    validate_sensitive_values_idem [of "sensitive_workspaces s" "sensitive_workspaces t"]
  by (clarsimp simp: mk_RuleSettings_def bindS_Inr ensure_Inr)

lemma mk_MetadataSettings_idem: "mk_MetadataSettings lib s = Inr t \<Longrightarrow> mk_MetadataSettings lib t = Inr t"
  using validate_sources_idem [of "enabled_sources s" "enabled_sources t"]
  by (clarsimp simp: mk_MetadataSettings_def bindS_Inr ensure_Inr)

lemma mk_OCRSettings_idem: "mk_OCRSettings s = Inr t \<Longrightarrow> mk_OCRSettings t = Inr t"
  using validate_languages_idem [of "ocr_languages s" "ocr_languages t"]
  by (clarsimp simp: mk_OCRSettings_def bindS_Inr ensure_Inr)

text \<open>What an accepted configuration is made of.\<close>

lemma config_accepted:
  assumes "mk_LocalRecallConfig lib c = Inr d"
  shows "d = c\<lparr>cf_rules := cf_rules d, cf_metadata := cf_metadata d, cf_ocr := cf_ocr d\<rparr>"
    and "mk_RuleSettings lib (cf_rules c) = Inr (cf_rules d)"
    and "mk_MetadataSettings lib (cf_metadata c) = Inr (cf_metadata d)"
    and "mk_OCRSettings (cf_ocr c) = Inr (cf_ocr d)"
    and "validate_security_invariants d = Inr ()"
    and "capture_settings_ok (cf_capture d)" and "redaction_settings_ok lib (cf_redaction d)"
    and "retention_settings_ok (cf_retention d)" and "model_settings_ok lib (cf_models d)"
    and "encryption_settings_ok (cf_encryption d)" and "storage_settings_ok (cf_storage d)"
  using assms by (auto simp: mk_LocalRecallConfig_def bindS_Inr ensure_Inr Let_def)

section \<open>Properties\<close>

text \<open>
  C16. A configuration that permits capture is complete and safe. When the validators accept a
  configuration with capture enabled, it names a metadata source, redacts deterministically and
  fails on uncertainty, and has an encryption provider with a key and a storage backend with a
  directory; the strict profile denies by default, uses no model for redaction, and neither local
  profile enables a remote provider.
\<close>

theorem permitted_capture_is_secure:
  assumes "mk_LocalRecallConfig lib c = Inr d"
  shows "(config_capture_permitted d \<longrightarrow> enabled_sources (cf_metadata d) \<noteq> [] \<and> rd_enabled (cf_redaction d) \<and>
      deterministic_required (cf_redaction d) \<and> fail_on_uncertain (cf_redaction d) \<and>
      ec_provider_id (cf_encryption d) \<noteq> None \<and> ec_key_reference (cf_encryption d) \<noteq> None \<and>
      so_backend_id (cf_storage d) \<noteq> None \<and> so_root_directory (cf_storage d) \<noteq> None) \<and>
    (cf_profile d = PRIVACY_STRICT \<longrightarrow> default_effect (cf_rules d) = DENY \<and>
      \<not> model_assistance_enabled (cf_redaction d)) \<and>
    (cf_profile d \<noteq> LOCAL_FIRST \<longrightarrow> (\<forall>p \<in> set (remote_providers (cf_models d)). \<not> rp_enabled p))"
proof -
  have v: "validate_security_invariants d = Inr ()" and m: "model_settings_ok lib (cf_models d)"
    using config_accepted [OF assms] by simp_all
  have "\<not> remote_enabled (cf_models d)" if "cf_profile d \<noteq> LOCAL_FIRST"
    using v that by (cases "cf_profile d") (auto simp: validate_security_invariants_def split: if_splits)
  then show ?thesis
    using v m by (auto simp: validate_security_invariants_def missing_security_def config_capture_permitted_def
        model_settings_ok_def list_ex_iff split: if_splits)
qed

definition sample_lib :: pylib where
  "sample_lib = \<lparr>re_compile = (\<lambda>_. True), re_search = (\<lambda>p s. contains s p),
     urlsplit = (\<lambda>s. if s = ''http://127.0.0.1:5600'' then Some \<lparr>url_scheme = ''http'', url_hostname = Some ''127.0.0.1'',
       url_username = None, url_password = None, url_path = '''', url_query = '''', url_fragment = '''',
       url_port = Some 5600\<rparr> else None),
     ip_address = (\<lambda>s. if s = ''127.0.0.1'' then Some s else None),
     zone_offset = (\<lambda>z. if z = ''UTC'' then Some (\<lambda>_. 0) else None), float_repr = (\<lambda>_. ''0.5''),
     json_digest = (\<lambda>_. ''0a1b'')\<rparr>"

definition capturing_config :: config where
  "capturing_config = safe_default\<lparr>
     cf_capture := (cf_capture safe_default)\<lparr>cs_enabled := True\<rparr>,
     cf_metadata := (cf_metadata safe_default)\<lparr>enabled_sources := [''qtile'', ''xorg'']\<rparr>,
     cf_encryption := (cf_encryption safe_default)\<lparr>ec_provider_id := Some ''sodium'',
       ec_key_reference := Some \<lparr>cred_provider = ''keyring'', cred_reference = ''main''\<rparr>\<rparr>,
     cf_storage := \<lparr>so_backend_id = Some ''sqlite'', so_root_directory = Some ''/var/lib/recall''\<rparr>\<rparr>"

lemma safe_default_accepted: "mk_LocalRecallConfig sample_lib safe_default = Inr safe_default"
  by code_simp

lemma capturing_config_accepted: "mk_LocalRecallConfig sample_lib capturing_config = Inr capturing_config"
  by code_simp

theorem permitted_capture_is_secure_witness:
  "config_capture_permitted capturing_config \<and> ec_key_reference (cf_encryption capturing_config) \<noteq> None \<and>
    default_effect (cf_rules capturing_config) = DENY"
proof -
  have "config_capture_permitted capturing_config" by code_simp
  moreover have "cf_profile capturing_config = PRIVACY_STRICT" by code_simp
  ultimately show ?thesis using permitted_capture_is_secure [OF capturing_config_accepted] by blast
qed

text \<open>
  Validation is idempotent: the configuration the validators produce is accepted again and
  unchanged, so that writing out an accepted configuration and reading it back changes nothing.
\<close>

theorem validated_configuration_is_stable:
  assumes "mk_LocalRecallConfig lib c = Inr d"
  shows "mk_LocalRecallConfig lib d = Inr d"
  using config_accepted [OF assms]
  by (simp add: mk_LocalRecallConfig_def mk_RuleSettings_idem mk_MetadataSettings_idem mk_OCRSettings_idem)

theorem validated_configuration_is_stable_witness:
  "mk_LocalRecallConfig sample_lib safe_default = Inr safe_default"
  by (rule validated_configuration_is_stable [OF safe_default_accepted])

end
