(* ===== verification/Session_Safety.thy ===== *)
theory Session_Safety
  imports Lifecycle_Safety Config_Model "HOL-Library.Char_ord" "HOL-Library.List_Lexorder" "HOL-Library.Product_Lexorder"
begin

text \<open>
  The session-safety controller and the safety preflight of \<^verbatim>\<open>src/local_recall/session/safety.py\<close>:
  lock and idle observations, their normalization and resolution, the latches that delay a resume,
  and the reconciliation with the lifecycle. The lifecycle is an interface (a call that may raise);
  the second part of the theory puts the lifecycle actor behind it.
\<close>

section \<open>Observations\<close>

datatype lock_state = LOCKED | UNLOCKED | LOCK_UNKNOWN

datatype idle_state = IS_IDLE | IS_ACTIVE | IDLE_UNKNOWN

datatype safety_failure =
    UNAVAILABLE | TIMEOUT | DISCONNECTED | MALFORMED | STALE | PERMISSION_DENIED | WRONG_SESSION
  | SOURCE_CONFLICT | LIFECYCLE_REJECTED

record lock_observation =
  lo_state :: lock_state
  lo_observed_at :: datetime
  lo_source :: string
  lo_revision :: string
  lo_failure :: "safety_failure option"

record idle_observation =
  io_state :: idle_state
  io_observed_at :: datetime
  io_source :: string
  io_revision :: string
  io_seconds :: "rat option"
  io_failure :: "safety_failure option"

definition age_seconds :: "datetime \<Rightarrow> datetime \<Rightarrow> rat" where
  "age_seconds now observed_at = of_int (instant now - instant observed_at) / 1000000"

text \<open>The checks the constructors of the observations make.\<close>

definition observation_valid :: "datetime \<Rightarrow> string \<Rightarrow> string \<Rightarrow> bool" where
  "observation_valid observed_at source rev_id \<longleftrightarrow>
    is_aware observed_at \<and> is_identifier source \<and> is_identifier rev_id"

definition lock_observation_ok :: "lock_observation \<Rightarrow> bool" where
  "lock_observation_ok ob \<longleftrightarrow> observation_valid (lo_observed_at ob) (lo_source ob) (lo_revision ob) \<and>
    (lo_failure ob \<noteq> None \<longrightarrow> lo_state ob = LOCK_UNKNOWN)"

definition idle_observation_ok :: "idle_observation \<Rightarrow> bool" where
  "idle_observation_ok ob \<longleftrightarrow> observation_valid (io_observed_at ob) (io_source ob) (io_revision ob) \<and>
    (\<forall>secs. io_seconds ob = Some secs \<longrightarrow> 0 \<le> secs \<and> secs \<le> 7 * 24 * 60 * 60) \<and>
    (io_failure ob \<noteq> None \<longrightarrow> io_state ob = IDLE_UNKNOWN)"

section \<open>Resolving idle observations\<close>

definition unknown_idle :: "datetime \<Rightarrow> string \<Rightarrow> string \<Rightarrow> safety_failure \<Rightarrow> idle_observation" where
  "unknown_idle now source rev_id failure = \<lparr>io_state = IDLE_UNKNOWN, io_observed_at = now, io_source = source,
     io_revision = rev_id, io_seconds = None, io_failure = Some failure\<rparr>"

definition normalize_idle :: "idle_settings \<Rightarrow> datetime \<Rightarrow> idle_observation \<Rightarrow> idle_observation" where
  "normalize_idle settings now ob =
    (let age = age_seconds now (io_observed_at ob) in
     if age < - 2 \<or> max_observation_age settings < age
     then unknown_idle now (io_source ob) (io_revision ob) (if age < - 2 then MALFORMED else STALE)
     else case io_seconds ob of
       None \<Rightarrow> ob
     | Some secs \<Rightarrow> \<lparr>io_state = (if threshold_seconds settings \<le> secs then IS_IDLE else IS_ACTIVE),
         io_observed_at = io_observed_at ob, io_source = io_source ob, io_revision = io_revision ob,
         io_seconds = Some secs, io_failure = None\<rparr>)"

fun source_rank :: "string list \<Rightarrow> string \<Rightarrow> nat" where
  "source_rank [] s = 0"
| "source_rank (x # xs) s = (if x = s then 0 else Suc (source_rank xs s))"

definition source_key :: "string list \<Rightarrow> idle_observation \<Rightarrow> nat \<times> string" where
  "source_key order ob = (source_rank order (io_source ob), io_source ob)"

definition candidates :: "idle_observation list \<Rightarrow> idle_observation list" where
  "candidates normalized =
    (let current = filter (\<lambda>ob. io_state ob \<noteq> IDLE_UNKNOWN) normalized in
     if \<exists>ob \<in> set current. io_state ob = IS_IDLE then filter (\<lambda>ob. io_state ob = IS_IDLE) current
     else if \<exists>ob \<in> set current. io_state ob = IS_ACTIVE then filter (\<lambda>ob. io_state ob = IS_ACTIVE) current
     else normalized)"

definition resolve_idle_observations ::
    "idle_settings \<Rightarrow> string list \<Rightarrow> datetime \<Rightarrow> idle_observation list \<Rightarrow> idle_observation \<times> bool" where
  "resolve_idle_observations settings order now obs =
    (if obs = [] then (unknown_idle now ''none'' ''none-v1'' UNAVAILABLE, False)
     else
       let normalized = map (normalize_idle settings now) obs;
           current = filter (\<lambda>ob. io_state ob \<noteq> IDLE_UNKNOWN) normalized;
           conflict = ((\<exists>ob \<in> set current. io_state ob = IS_IDLE) \<and> (\<exists>ob \<in> set current. io_state ob = IS_ACTIVE))
       in (case candidates normalized of
             [] \<Rightarrow> (unknown_idle now ''none'' ''none-v1'' UNAVAILABLE, conflict)
           | best # rest \<Rightarrow> (min_by (source_key order) best rest, conflict)))"

section \<open>The controller\<close>

record safety_audit =
  sa_control :: string
  sa_previous :: string
  sa_current :: string
  sa_source :: string
  sa_generation :: "int option"
  sa_reason :: string

record 'w session =
  policy_locked :: bool
  sc_settings :: idle_settings
  sc_order :: "string list"
  sc_lock_ttl_ns :: int
  sc_lock :: lock_observation
  sc_idle :: idle_observation
  lock_received_ns :: int
  active_since_ns :: "int option"
  manual_idle_latch :: bool
  idle_uncertain_latch :: bool
  blocked :: bool
  block_reason :: "transition_reason option"
  last_generation :: "int option"
  last_failure :: safety_failure
  sc_audits :: "safety_audit list"
  sc_lifecycle :: 'w

text \<open>
  What one call of the controller meets: both clocks, the policy's privacy mode, the audit sink
  (absent, or present and accepting or not), and the lifecycle it applies its blocks to.
\<close>

record 'w session_io =
  at_now :: datetime
  at_ns :: int
  privacy_mode :: bool
  audit_sink :: "bool option"
  lifecycle_apply :: "bool \<Rightarrow> transition_reason \<Rightarrow> ('w, command_result) comp"

definition new_session ::
    "datetime \<Rightarrow> int \<Rightarrow> idle_settings \<Rightarrow> string list \<Rightarrow> int \<Rightarrow> 'w \<Rightarrow> 'w session" where
  "new_session now ns settings order ttl w = \<lparr>policy_locked = True, sc_settings = settings, sc_order = order,
     sc_lock_ttl_ns = ttl,
     sc_lock = \<lparr>lo_state = LOCK_UNKNOWN, lo_observed_at = now, lo_source = ''startup'',
       lo_revision = ''startup-v1'', lo_failure = Some STALE\<rparr>,
     sc_idle = unknown_idle now ''none'' ''none-v1'' UNAVAILABLE, lock_received_ns = ns,
     active_since_ns = None, manual_idle_latch = False, idle_uncertain_latch = False, blocked = False,
     block_reason = None, last_generation = None, last_failure = STALE, sc_audits = [], sc_lifecycle = w\<rparr>"

text \<open>The constructor of the controller, with the guards on its arguments.\<close>

definition mk_SessionSafetyController ::
    "datetime \<Rightarrow> int \<Rightarrow> idle_settings \<Rightarrow> string list \<Rightarrow> rat \<Rightarrow> 'w \<Rightarrow> exn + 'w session" where
  "mk_SessionSafetyController now ns settings order ttl_seconds w =
    (if ttl_seconds \<le> 0 \<or> 300 < ttl_seconds
     then Inl (ValueError ''lock_state_ttl_seconds must be between 0 and 300'')
     else if \<not> distinct order then Inl (ValueError ''idle source order must be unique'')
     else if \<not> list_all is_identifier order then Inl (ValueError ''idle source identifiers are invalid'')
     else Inr (new_session now ns settings order (py_int (ttl_seconds * 1000000000)) w))"

fun lock_value :: "lock_state \<Rightarrow> string" where
  "lock_value LOCKED = ''locked''" | "lock_value UNLOCKED = ''unlocked''" | "lock_value LOCK_UNKNOWN = ''unknown''"

fun idle_value :: "idle_state \<Rightarrow> string" where
  "idle_value IS_IDLE = ''idle''" | "idle_value IS_ACTIVE = ''active''" | "idle_value IDLE_UNKNOWN = ''unknown''"

definition set_session_locked :: "bool \<Rightarrow> ('w session, unit) comp" where
  "set_session_locked b = modifies (\<lambda>c. c\<lparr>policy_locked := b\<rparr>)"

definition reject_block :: "('w session, unit) comp" where
  "reject_block = modifies (\<lambda>c. c\<lparr>last_failure := LIFECYCLE_REJECTED, policy_locked := True, blocked := True,
     block_reason := Some SESSION_LOCKED\<rparr>)"

definition on_lifecycle :: "('w, 'a) comp \<Rightarrow> ('w session, 'a) comp" where
  "on_lifecycle m = on_field sc_lifecycle (\<lambda>w c. c\<lparr>sc_lifecycle := w\<rparr>) m"

definition apply_lifecycle :: "'w session_io \<Rightarrow> bool \<Rightarrow> transition_reason \<Rightarrow> ('w session, unit) comp" where
  "apply_lifecycle io block why =
     catchE
       (bindE (on_lifecycle (lifecycle_apply io block why)) (\<lambda>r.
        seqE (modifies (\<lambda>c. c\<lparr>last_generation := map_option gen_value (sn_generation (result_snapshot r))\<rparr>))
        (if \<not> accepted r then reject_block
         else modifies (\<lambda>c. c\<lparr>blocked := block, block_reason := (if block then Some why else None)\<rparr>))))
       (\<lambda>_. reject_block)"

definition emit_safety_audit ::
    "'w session_io \<Rightarrow> string \<Rightarrow> string \<Rightarrow> string \<Rightarrow> string \<Rightarrow> string \<Rightarrow> ('w session, unit) comp" where
  "emit_safety_audit io control previous current source reason = (case audit_sink io of
     None \<Rightarrow> ret ()
   | Some True \<Rightarrow> modifies (\<lambda>c. c\<lparr>sc_audits := \<lparr>sa_control = control, sa_previous = previous,
       sa_current = current, sa_source = source, sa_generation = last_generation c, sa_reason = reason\<rparr> # sc_audits c\<rparr>)
   | Some False \<Rightarrow>
       seqE (modifies (\<lambda>c. c\<lparr>last_failure := LIFECYCLE_REJECTED, policy_locked := True\<rparr>))
         (apply_lifecycle io True SESSION_LOCKED))"

definition idle_blocked :: "'w session_io \<Rightarrow> ('w session, bool) comp" where
  "idle_blocked io = bindE (reads id) (\<lambda>c.
     if \<not> idle_enabled (sc_settings c) \<or> \<not> idle_pause_capture (sc_settings c) then ret False
     else if io_state (sc_idle c) = IS_IDLE then ret True
     else if idle_uncertain_latch c then ret True
     else if resume_behavior (sc_settings c) = MANUAL \<and> manual_idle_latch c then ret True
     else if resume_behavior (sc_settings c) = ACTIVE_GRACE then
       (case active_since_ns c of
          None \<Rightarrow> ret False
        | Some since \<Rightarrow>
            if at_ns io - since < py_int (active_grace_seconds (sc_settings c) * 1000000000) then ret True
            else seqE (modifies (\<lambda>c. c\<lparr>active_since_ns := None\<rparr>)) (ret False))
     else ret False)"

definition desired_block_reason :: "'w session_io \<Rightarrow> ('w session, transition_reason option) comp" where
  "desired_block_reason io = bindE (reads (lo_state o sc_lock)) (\<lambda>st.
     if st \<noteq> UNLOCKED then ret (Some SESSION_LOCKED)
     else bindE (idle_blocked io) (\<lambda>b. ret (if b then Some IDLE else None)))"

definition reconcile :: "'w session_io \<Rightarrow> ('w session, unit) comp" where
  "reconcile io = bindE (desired_block_reason io) (\<lambda>desired.
     bindE (reads id) (\<lambda>c.
     case desired of
       Some why \<Rightarrow>
         if blocked c \<and> block_reason c = Some why then ret () else apply_lifecycle io True why
     | None \<Rightarrow>
         if \<not> blocked c then modifies (\<lambda>c. c\<lparr>block_reason := None\<rparr>)
         else if privacy_mode io then ret ()
         else apply_lifecycle io False
           (if block_reason c = Some SESSION_LOCKED then SESSION_UNLOCKED else ACTIVE)))"

definition normalize_lock :: "datetime \<Rightarrow> int \<Rightarrow> lock_observation \<Rightarrow> lock_observation" where
  "normalize_lock now ttl_ns ob =
    (let age = age_seconds now (lo_observed_at ob) in
     if age < - 2
     then ob\<lparr>lo_state := LOCK_UNKNOWN, lo_observed_at := now, lo_failure := Some MALFORMED\<rparr>
     else if lo_state ob = UNLOCKED \<and> of_int ttl_ns / 1000000000 < age
     then ob\<lparr>lo_state := LOCK_UNKNOWN, lo_observed_at := now, lo_failure := Some STALE\<rparr>
     else ob)"

definition apply_lock :: "'w session_io \<Rightarrow> lock_observation \<Rightarrow> ('w session, unit) comp" where
  "apply_lock io ob = bindE (reads id) (\<lambda>c.
     let normalized = normalize_lock (at_now io) (sc_lock_ttl_ns c) ob in
     seqE (modifies (\<lambda>c. c\<lparr>sc_lock := normalized, lock_received_ns := at_ns io,
       last_failure := (case lo_failure normalized of Some f \<Rightarrow> f | None \<Rightarrow> last_failure c)\<rparr>))
     (seqE (set_session_locked (lo_state normalized \<noteq> UNLOCKED))
     (seqE (if lo_state (sc_lock c) \<noteq> lo_state normalized
            then emit_safety_audit io ''lock'' (lock_value (lo_state (sc_lock c)))
              (lock_value (lo_state normalized)) (lo_source normalized) ''lock-state''
            else ret ())
       (reconcile io))))"

definition update_resume_latches ::
    "'w session_io \<Rightarrow> idle_observation \<Rightarrow> idle_observation \<Rightarrow> ('w session, unit) comp" where
  "update_resume_latches io previous current = modifies (\<lambda>c.
     case io_state current of
       IS_IDLE \<Rightarrow> c\<lparr>active_since_ns := None, idle_uncertain_latch := False\<rparr>
     | IDLE_UNKNOWN \<Rightarrow>
         if blocked c \<and> block_reason c = Some IDLE then c\<lparr>idle_uncertain_latch := True\<rparr> else c
     | IS_ACTIVE \<Rightarrow>
         (let c = c\<lparr>idle_uncertain_latch := False\<rparr> in
          if io_state previous \<noteq> IS_IDLE then c
          else case resume_behavior (sc_settings c) of
            MANUAL \<Rightarrow> c\<lparr>manual_idle_latch := True\<rparr>
          | ACTIVE_GRACE \<Rightarrow> c\<lparr>active_since_ns := Some (at_ns io)\<rparr>
          | IMMEDIATE \<Rightarrow> c))"

definition apply_idle :: "'w session_io \<Rightarrow> idle_observation list \<Rightarrow> ('w session, unit) comp" where
  "apply_idle io obs = bindE (reads id) (\<lambda>c.
     case resolve_idle_observations (sc_settings c) (sc_order c) (at_now io) obs of (normalized, conflict) \<Rightarrow>
     seqE (modifies (\<lambda>c. c\<lparr>sc_idle := normalized, last_failure :=
         (if conflict then SOURCE_CONFLICT
          else case io_failure normalized of Some f \<Rightarrow> f | None \<Rightarrow> last_failure c)\<rparr>))
     (seqE (update_resume_latches io (sc_idle c) normalized)
     (seqE (if io_state (sc_idle c) \<noteq> io_state normalized
            then emit_safety_audit io ''idle'' (idle_value (io_state (sc_idle c)))
              (idle_value (io_state normalized)) (io_source normalized) ''idle-state''
            else ret ())
       (reconcile io))))"

definition replace_idle_settings :: "'w session_io \<Rightarrow> idle_settings \<Rightarrow> ('w session, unit) comp" where
  "replace_idle_settings io settings = bindE (reads id) (\<lambda>c.
     seqE (modifies (\<lambda>c. c\<lparr>sc_settings := settings\<rparr>))
     (seqE (if io_seconds (sc_idle c) \<noteq> None then
              (case resolve_idle_observations settings (sc_order c) (at_now io) [sc_idle c] of
                 (normalized, conflict) \<Rightarrow>
               seqE (modifies (\<lambda>c. c\<lparr>sc_idle := normalized,
                   last_failure := (if conflict then SOURCE_CONFLICT else last_failure c)\<rparr>))
                 (update_resume_latches io (sc_idle c) normalized))
            else ret ())
       (reconcile io)))"

definition acknowledge_idle_resume :: "'w session_io \<Rightarrow> ('w session, unit) comp" where
  "acknowledge_idle_resume io = seqE (modifies (\<lambda>c. c\<lparr>manual_idle_latch := False\<rparr>)) (reconcile io)"

definition refresh :: "'w session_io \<Rightarrow> ('w session, unit) comp" where
  "refresh io = bindE (reads id) (\<lambda>c.
     seqE (if lo_state (sc_lock c) = UNLOCKED \<and> sc_lock_ttl_ns c < at_ns io - lock_received_ns c then
             seqE (modifies (\<lambda>c. c\<lparr>sc_lock := \<lparr>lo_state = LOCK_UNKNOWN, lo_observed_at = at_now io,
                 lo_source = lo_source (sc_lock c), lo_revision = lo_revision (sc_lock c),
                 lo_failure = Some STALE\<rparr>, last_failure := STALE\<rparr>))
             (seqE (set_session_locked True)
               (emit_safety_audit io ''lock'' (lock_value (lo_state (sc_lock c))) ''unknown''
                 (lo_source (sc_lock c)) ''lock-stale''))
           else ret ())
       (reconcile io))"

definition capture_blocked :: "'w session_io \<Rightarrow> ('w session, bool) comp" where
  "capture_blocked io = bindE (reads blocked) (\<lambda>b.
     if b then ret True else bindE (desired_block_reason io) (\<lambda>d. ret (d \<noteq> None)))"

definition degraded :: "'w session \<Rightarrow> bool" where
  "degraded c \<longleftrightarrow> lo_state (sc_lock c) = LOCK_UNKNOWN \<or>
    idle_enabled (sc_settings c) \<and> io_failure (sc_idle c) \<noteq> None \<or> last_failure c = SOURCE_CONFLICT"

record safety_status =
  st_lock :: lock_state
  st_idle :: idle_state
  st_lock_source :: string
  st_idle_source :: string
  st_degraded :: bool
  st_threshold :: rat
  st_generation :: "int option"
  st_failure :: "safety_failure option"

definition safety_status :: "'w session \<Rightarrow> safety_status" where
  "safety_status c = \<lparr>st_lock = lo_state (sc_lock c), st_idle = io_state (sc_idle c),
     st_lock_source = lo_source (sc_lock c), st_idle_source = io_source (sc_idle c), st_degraded = degraded c,
     st_threshold = threshold_seconds (sc_settings c), st_generation = last_generation c,
     st_failure = (if degraded c then Some (last_failure c) else None)\<rparr>"

section \<open>The safety preflight\<close>

text \<open>
  \<open>lock_result\<close> and \<open>idle_results\<close> are what the sources answered (\<open>None\<close> when one raised or the
  collection failed), \<open>base\<close> the result of the wrapped preflight.
\<close>

definition unavailable_lock :: "datetime \<Rightarrow> string \<Rightarrow> lock_observation" where
  "unavailable_lock now source = \<lparr>lo_state = LOCK_UNKNOWN, lo_observed_at = now, lo_source = source,
     lo_revision = ''source-v1'', lo_failure = Some UNAVAILABLE\<rparr>"

definition collect_observations ::
    "datetime \<Rightarrow> string \<Rightarrow> lock_observation option \<Rightarrow> (string \<times> idle_observation option) list \<Rightarrow>
     lock_observation \<times> idle_observation list" where
  "collect_observations now lock_source lock_result idle_results =
    (case lock_result of Some ob \<Rightarrow> ob | None \<Rightarrow> unavailable_lock now lock_source,
     map (\<lambda>(src, r). case r of Some ob \<Rightarrow> ob | None \<Rightarrow> unknown_idle now src ''source-v1'' UNAVAILABLE) idle_results)"

definition safety_preflight_check ::
    "idle_settings \<Rightarrow> string list \<Rightarrow> datetime \<Rightarrow> string \<Rightarrow>
     (lock_observation option \<times> (string \<times> idle_observation option) list) option \<Rightarrow> preflight_result \<Rightarrow>
     preflight_result \<times> bool" where
  "safety_preflight_check settings order now lock_source collected base =
    (let (lock_ob, idle_obs) = (case collected of
           Some (l, is) \<Rightarrow> collect_observations now lock_source l is
         | None \<Rightarrow> (unavailable_lock now lock_source, []));
         locked = (lo_state lock_ob \<noteq> UNLOCKED)
     in (if \<not> ready base then base
         else if locked then preflight_success (Some SESSION_LOCKED)
         else if idle_enabled settings \<and> idle_pause_capture settings \<and>
           io_state (fst (resolve_idle_observations settings order now idle_obs)) = IS_IDLE
         then preflight_success (Some IDLE)
         else base, locked))"


section \<open>Resolution of idle observations\<close>

lemma normalize_source [simp]: "io_source (normalize_idle settings now ob) = io_source ob"
  by (simp add: normalize_idle_def unknown_idle_def Let_def split: option.split)

lemma candidates_subset: "set (candidates obs) \<subseteq> set obs"
  by (auto simp: candidates_def Let_def)

lemma candidates_nonempty: "obs \<noteq> [] \<Longrightarrow> candidates obs \<noteq> []"
  by (auto simp: candidates_def Let_def filter_empty_conv)

lemma candidates_state:
  "ob \<in> set (candidates obs) \<Longrightarrow>
    io_state ob = (if \<exists>x \<in> set obs. io_state x = IS_IDLE then IS_IDLE
      else if \<exists>x \<in> set obs. io_state x = IS_ACTIVE then IS_ACTIVE else IDLE_UNKNOWN)"
  by (cases "io_state ob") (auto simp: candidates_def Let_def split: if_splits)

lemma candidates_perm: "set obs = set obs' \<Longrightarrow> set (candidates obs) = set (candidates obs')"
  by (auto simp: candidates_def Let_def)

definition selected :: "string list \<Rightarrow> idle_observation list \<Rightarrow> idle_observation \<Rightarrow> bool" where
  "selected order obs ob \<longleftrightarrow> ob \<in> set (candidates obs) \<and>
    (\<forall>x \<in> set (candidates obs). source_key order ob \<le> source_key order x)"

lemma resolve_selected:
  assumes "obs \<noteq> []"
  shows "selected order (map (normalize_idle settings now) obs)
    (fst (resolve_idle_observations settings order now obs))"
proof -
  let ?n = "map (normalize_idle settings now) obs"
  obtain best rest where c: "candidates ?n = best # rest"
    using candidates_nonempty [of ?n] assms by (cases "candidates ?n") auto
  have "fst (resolve_idle_observations settings order now obs) = min_by (source_key order) best rest"
    using assms c by (simp add: resolve_idle_observations_def Let_def)
  then show ?thesis
    using min_by_in [of "source_key order" best rest] min_by_least [of _ best rest "source_key order"] c
    by (simp add: selected_def)
qed

lemma selected_unique:
  assumes "selected order obs x" and "selected order obs' y" and "set obs = set obs'" and "inj_on io_source (set obs)"
  shows "x = y"
proof -
  have "set (candidates obs) = set (candidates obs')" using assms(3) by (rule candidates_perm)
  then have "source_key order x = source_key order y" "x \<in> set obs" "y \<in> set obs"
    using assms(1-3) candidates_subset by (auto simp: selected_def intro: antisym)
  then show ?thesis using assms(4) by (auto simp: source_key_def inj_on_def)
qed

lemma inj_normalized:
  "inj_on io_source (set obs) \<Longrightarrow> inj_on io_source (set (map (normalize_idle settings now) obs))"
  by (auto simp: inj_on_def)

section \<open>The controller fails closed\<close>

text \<open>
  Unless the last lock observation says unlocked, the policy is told the session is locked; and
  once the controller has reconciled, the block is in force with the lock as its reason.
\<close>

definition lock_reported :: "'w session \<Rightarrow> bool" where
  "lock_reported c \<longleftrightarrow> (lo_state (sc_lock c) \<noteq> UNLOCKED \<longrightarrow> policy_locked c)"

definition lock_settled :: "'w session \<Rightarrow> bool" where
  "lock_settled c \<longleftrightarrow> lock_reported c \<and>
    (lo_state (sc_lock c) \<noteq> UNLOCKED \<longrightarrow> blocked c \<and> block_reason c = Some SESSION_LOCKED) \<and>
    (block_reason c \<noteq> None \<longrightarrow> block_reason c \<in> {Some SESSION_LOCKED, Some IDLE})"

definition reasons_ok :: "'w session \<Rightarrow> bool" where
  "reasons_ok c \<longleftrightarrow> block_reason c \<in> {None, Some SESSION_LOCKED, Some IDLE}"

lemma apply_lifecycle_exits:
  "wp (apply_lifecycle io b why)
    (\<lambda>_ d. sc_lock d = sc_lock c \<and> (policy_locked c \<longrightarrow> policy_locked d) \<and>
       (blocked d, block_reason d) \<in> {(True, Some SESSION_LOCKED), (b, if b then Some why else None)})
    (\<lambda>_ _. False) c"
  by (auto simp: apply_lifecycle_def wp_def comp_defs on_lifecycle_def reject_block_def
      split: prod.split sum.split)

lemma wp_apply_lifecycle:
  assumes "\<And>d. sc_lock d = sc_lock c \<Longrightarrow> (policy_locked c \<Longrightarrow> policy_locked d) \<Longrightarrow>
      (blocked d, block_reason d) \<in> {(True, Some SESSION_LOCKED), (b, if b then Some why else None)} \<Longrightarrow> Q () d"
  shows "wp (apply_lifecycle io b why) Q E c"
  by (rule wp_mono [OF apply_lifecycle_exits]) (auto intro: assms)

lemma idle_blocked_frame:
  "wp (idle_blocked io) (\<lambda>_ d. \<exists>t. d = c\<lparr>active_since_ns := t\<rparr>) (\<lambda>_ _. False) c"
proof -
  have "\<exists>t. c = c\<lparr>active_since_ns := t\<rparr>" by (rule exI [of _ "active_since_ns c"]) simp
  then show ?thesis by (auto simp: idle_blocked_def wp_rules split: option.split)
qed

lemma desired_frame:
  "wp (desired_block_reason io)
    (\<lambda>r d. (\<exists>t. d = c\<lparr>active_since_ns := t\<rparr>) \<and> r \<in> {None, Some SESSION_LOCKED, Some IDLE} \<and>
       (lo_state (sc_lock c) \<noteq> UNLOCKED \<longleftrightarrow> r = Some SESSION_LOCKED)) (\<lambda>_ _. False) c"
proof -
  have "\<exists>t. c = c\<lparr>active_since_ns := t\<rparr>" by (rule exI [of _ "active_since_ns c"]) simp
  then show ?thesis
    unfolding desired_block_reason_def wp_bindE wp_reads
    by (auto simp: wp_ret wp_if wp_bindE intro!: wp_mono [OF idle_blocked_frame]
        split: if_splits)
qed

lemma reconcile_settles:
  assumes "lock_reported c" and "reasons_ok c"
  shows "wp (reconcile io) (\<lambda>_ d. lock_settled d \<and> reasons_ok d \<and> sc_lock d = sc_lock c) (\<lambda>_ _. False) c"
  unfolding reconcile_def wp_bindE [of "desired_block_reason io"]
proof (rule wp_mono [OF desired_frame])
  fix r d
  assume d: "(\<exists>t. d = c\<lparr>active_since_ns := t\<rparr>) \<and> r \<in> {None, Some SESSION_LOCKED, Some IDLE} \<and>
    (lo_state (sc_lock c) \<noteq> UNLOCKED \<longleftrightarrow> r = Some SESSION_LOCKED)"
  then show "wp (bindE (reads id) (\<lambda>c. case r of
       Some why \<Rightarrow> if blocked c \<and> block_reason c = Some why then ret () else apply_lifecycle io True why
     | None \<Rightarrow>
         if \<not> blocked c then modifies (\<lambda>c. c\<lparr>block_reason := None\<rparr>)
         else if privacy_mode io then ret ()
         else apply_lifecycle io False (if block_reason c = Some SESSION_LOCKED then SESSION_UNLOCKED else ACTIVE)))
      (\<lambda>_ e. lock_settled e \<and> reasons_ok e \<and> sc_lock e = sc_lock c) (\<lambda>_ _. False) d"
    using assms
    by (auto simp: wp_rules lock_settled_def lock_reported_def reasons_ok_def intro!: wp_apply_lifecycle)
qed simp

text \<open>What every operation keeps, and the common end of all of them.\<close>

lemma emit_safety_audit_keeps:
  assumes "lock_reported c" and "reasons_ok c"
  shows "wp (emit_safety_audit io control prev cur source why)
    (\<lambda>_ d. lock_reported d \<and> reasons_ok d \<and> sc_lock d = sc_lock c) (\<lambda>_ _. False) c"
  using assms
  by (auto simp: emit_safety_audit_def wp_rules lock_reported_def reasons_ok_def intro!: wp_apply_lifecycle
      split: option.split bool.split)

definition settles :: "('w session, unit) comp \<Rightarrow> bool" where
  "settles m \<longleftrightarrow> (\<forall>c. lock_reported c \<and> reasons_ok c \<longrightarrow>
     wp m (\<lambda>_ d. lock_settled d \<and> reasons_ok d) (\<lambda>_ _. False) c)"

lemma wp_reconcile:
  assumes "lock_reported d" and "reasons_ok d"
  shows "wp (reconcile io) (\<lambda>_ e. lock_settled e \<and> reasons_ok e) (\<lambda>_ _. False) d"
  by (rule wp_mono [OF reconcile_settles [OF assms]]) auto

lemma wp_audit_then_reconcile:
  assumes "lock_reported d" and "reasons_ok d"
  shows "wp (seqE (if b then emit_safety_audit io x1 x2 x3 x4 x5 else ret ()) (reconcile io))
    (\<lambda>_ e. lock_settled e \<and> reasons_ok e) (\<lambda>_ _. False) d"
  using assms unfolding wp_seqE
  by (cases b) (auto simp: wp_ret intro!: wp_mono [OF emit_safety_audit_keeps] wp_reconcile)

lemma latches_frame:
  "wp (update_resume_latches io prev cur) Q E c = Q () (snd (update_resume_latches io prev cur c))"
  "sc_lock (snd (update_resume_latches io prev cur c)) = sc_lock c"
  "policy_locked (snd (update_resume_latches io prev cur c)) = policy_locked c"
  "block_reason (snd (update_resume_latches io prev cur c)) = block_reason c"
  by (simp_all add: update_resume_latches_def modifies_def wp_def Let_def
      split: idle_state.split resume_behavior.split)

lemma apply_lock_settles: "settles (apply_lock io ob)"
  unfolding settles_def apply_lock_def Let_def
proof (intro allI impI, simp only: wp_bindE wp_reads wp_seqE [of "modifies _"] wp_modifies
    set_session_locked_def, rule wp_audit_then_reconcile)
qed (auto simp: lock_reported_def reasons_ok_def)

lemma apply_idle_settles: "settles (apply_idle io obs)"
  unfolding settles_def apply_idle_def
proof (intro allI impI, simp only: wp_bindE wp_reads wp_seqE [of "modifies _"] wp_modifies wp_case_prod
    wp_seqE [of "update_resume_latches _ _ _"] latches_frame(1) case_prod_beta, rule wp_audit_then_reconcile)
qed (auto simp: lock_reported_def reasons_ok_def latches_frame)

lemma replace_idle_settings_settles: "settles (replace_idle_settings io settings)"
  unfolding settles_def replace_idle_settings_def
  by (auto simp: wp_seqE wp_bindE wp_reads wp_modifies wp_if wp_ret wp_case_prod case_prod_beta latches_frame(1)
      intro!: wp_reconcile) (auto simp: latches_frame lock_reported_def reasons_ok_def)

lemma acknowledge_settles: "settles (acknowledge_idle_resume io)"
  unfolding settles_def acknowledge_idle_resume_def
  by (auto simp: wp_seqE wp_modifies intro!: wp_reconcile) (auto simp: lock_reported_def reasons_ok_def)

lemma refresh_settles: "settles (refresh io)"
  unfolding settles_def refresh_def
  by (auto simp: wp_bindE wp_reads wp_seqE wp_if wp_ret wp_modifies set_session_locked_def
      intro!: wp_mono [OF emit_safety_audit_keeps] wp_reconcile)
    (auto simp: lock_reported_def reasons_ok_def)

section \<open>Histories of the controller\<close>

datatype safety_call =
    ApplyLock lock_observation
  | ApplyIdle "idle_observation list"
  | ReplaceIdleSettings idle_settings
  | AcknowledgeIdleResume
  | Refresh

fun exec_safety :: "'w session_io \<Rightarrow> safety_call \<Rightarrow> ('w session, unit) comp" where
  "exec_safety io (ApplyLock ob) = apply_lock io ob"
| "exec_safety io (ApplyIdle obs) = apply_idle io obs"
| "exec_safety io (ReplaceIdleSettings settings) = replace_idle_settings io settings"
| "exec_safety io AcknowledgeIdleResume = acknowledge_idle_resume io"
| "exec_safety io Refresh = refresh io"

inductive safety_step :: "'w session \<Rightarrow> 'w session \<Rightarrow> bool" where
  call: "exec_safety io call c = (r, d) \<Longrightarrow> safety_step c d"
| lifecycle: "safety_step c (c\<lparr>sc_lifecycle := w\<rparr>)"

lemma exec_safety_settles: "settles (exec_safety io call)"
  by (cases call)
    (simp_all add: apply_lock_settles apply_idle_settles replace_idle_settings_settles acknowledge_settles
      refresh_settles)

lemma exec_safety_total:
  assumes "lock_reported c" and "reasons_ok c"
  shows "\<exists>d. exec_safety io call c = (Inr (), d) \<and> lock_settled d \<and> reasons_ok d"
  using exec_safety_settles [of io call] assms by (auto simp: settles_def wp_total)

lemma settled_reported: "lock_settled c \<Longrightarrow> lock_reported c"
  by (simp add: lock_settled_def)

interpretation safety: invariant_system safety_step "new_session now ns settings order ttl w"
    "\<lambda>c. lock_reported c \<and> reasons_ok c" for now ns settings order ttl w
proof unfold_locales
  show "lock_reported (new_session now ns settings order ttl w) \<and>
      reasons_ok (new_session now ns settings order ttl w)"
    by (simp add: new_session_def lock_reported_def reasons_ok_def)
next
  fix c d :: "'a session"
  assume "safety_step c d" and inv: "lock_reported c \<and> reasons_ok c"
  then show "lock_reported d \<and> reasons_ok d"
  proof cases
    case (call io call r)
    then show ?thesis using exec_safety_total [of c io call] inv by (auto intro: settled_reported)
  next
    case (lifecycle w)
    then show ?thesis using inv by (simp add: lock_reported_def reasons_ok_def)
  qed
qed


section \<open>Well-formed observations\<close>

definition observations_ok :: "'w session \<Rightarrow> bool" where
  "observations_ok c \<longleftrightarrow> lock_observation_ok (sc_lock c) \<and> idle_observation_ok (sc_idle c)"

abbreviation observed :: "'w session \<Rightarrow> lock_observation \<times> idle_observation" where
  "observed c \<equiv> (sc_lock c, sc_idle c)"

lemma observed_frames:
  "leaves observed (apply_lifecycle io block why)" "leaves observed (set_session_locked b)"
  "leaves observed (emit_safety_audit io x1 x2 x3 x4 x5)" "leaves observed (idle_blocked io)"
  "leaves observed (desired_block_reason io)" "leaves observed (reconcile io)"
  "leaves observed (update_resume_latches io prev cur)"
proof -
  show l: "leaves observed (apply_lifecycle io block why)" for io :: "'a session_io" and block why
    unfolding apply_lifecycle_def on_lifecycle_def reject_block_def
    by (intro leaves_catchE leaves_bindE leaves_seqE leaves_on_field leaves_if leaves_modifies) simp_all
  show "leaves observed (set_session_locked b)"
    unfolding set_session_locked_def by (intro leaves_modifies) simp
  show "leaves observed (emit_safety_audit io x1 x2 x3 x4 x5)"
    unfolding emit_safety_audit_def
    by (intro leaves_option leaves_bool leaves_seqE leaves_basic leaves_modifies l) simp_all
  show i: "leaves observed (idle_blocked io)"
    unfolding idle_blocked_def
    by (intro leaves_bindE leaves_if leaves_option leaves_seqE leaves_basic leaves_modifies) simp
  show d: "leaves observed (desired_block_reason io)"
    unfolding desired_block_reason_def by (intro leaves_bindE leaves_if leaves_basic i)
  show "leaves observed (reconcile io)"
    unfolding reconcile_def
    by (intro leaves_bindE leaves_option leaves_if leaves_basic leaves_modifies d l) simp
  show "leaves observed (update_resume_latches io prev cur)"
    unfolding update_resume_latches_def
    by (intro leaves_modifies) (simp add: Let_def split: idle_state.split resume_behavior.split)
qed

text \<open>After the observations have been replaced, the rest of every call leaves them alone.\<close>

lemma wp_observed: "leaves observed m \<Longrightarrow> observations_ok c \<Longrightarrow> wp m (\<lambda>_. observations_ok) (\<lambda>_. observations_ok) c"
  by (auto simp: observations_ok_def intro!: wp_mono [OF wp_leaves])

lemma wp_observed_seqE:
  "leaves observed m \<Longrightarrow> leaves observed n \<Longrightarrow> observations_ok c \<Longrightarrow>
    wp m (\<lambda>_. wp n (\<lambda>_. observations_ok) (\<lambda>_. observations_ok)) (\<lambda>_. observations_ok) c"
  using wp_observed [of "seqE m n" c] by (auto simp: wp_seqE)

lemma normalize_lock_ok:
  "lock_observation_ok ob \<Longrightarrow> is_aware now \<Longrightarrow> lock_observation_ok (normalize_lock now ttl ob)"
  by (auto simp: normalize_lock_def lock_observation_ok_def observation_valid_def Let_def)

lemma unknown_idle_ok:
  "is_aware now \<Longrightarrow> is_identifier source \<Longrightarrow> is_identifier rev_id \<Longrightarrow>
    idle_observation_ok (unknown_idle now source rev_id failure)"
  by (simp add: unknown_idle_def idle_observation_ok_def observation_valid_def)

lemma normalize_idle_ok:
  "idle_observation_ok ob \<Longrightarrow> is_aware now \<Longrightarrow> idle_observation_ok (normalize_idle settings now ob)"
  by (cases "io_seconds ob")
    (simp_all add: normalize_idle_def Let_def unknown_idle_def idle_observation_ok_def observation_valid_def)

lemma resolve_ok:
  assumes "\<forall>ob \<in> set obs. idle_observation_ok ob" and "is_aware now"
  shows "idle_observation_ok (fst (resolve_idle_observations settings order now obs))"
proof (cases "obs = []")
  case True
  with assms(2) show ?thesis
    by (simp add: resolve_idle_observations_def unknown_idle_ok char_eval)
next
  case False
  then have "fst (resolve_idle_observations settings order now obs) \<in> set (map (normalize_idle settings now) obs)"
    using resolve_selected [of obs] candidates_subset by (fastforce simp: selected_def)
  then obtain ob where "ob \<in> set obs"
    "fst (resolve_idle_observations settings order now obs) = normalize_idle settings now ob" by auto
  with assms show ?thesis by (simp add: normalize_idle_ok)
qed

fun safety_call_ok :: "safety_call \<Rightarrow> bool" where
  "safety_call_ok (ApplyLock ob) = lock_observation_ok ob"
| "safety_call_ok (ApplyIdle obs) = (\<forall>ob \<in> set obs. idle_observation_ok ob)"
| "safety_call_ok _ = True"

lemma exec_keeps_observations:
  assumes "observations_ok c" and "is_aware (at_now io)" and "safety_call_ok call"
  shows "wp (exec_safety io call) (\<lambda>_. observations_ok) (\<lambda>_. observations_ok) c"
proof (cases call)
  case (ApplyLock ob)
  then have "observations_ok (c\<lparr>sc_lock := normalize_lock (at_now io) (sc_lock_ttl_ns c) ob, lock_received_ns := t,
      last_failure := f, policy_locked := b\<rparr>)" for t f b
    using assms by (simp add: observations_ok_def normalize_lock_ok)
  then show ?thesis
    using ApplyLock
    by (auto simp: apply_lock_def Let_def wp_bindE wp_reads wp_seqE wp_modifies wp_if wp_ret set_session_locked_def
        intro!: wp_observed_seqE wp_observed observed_frames)
next
  case (ApplyIdle obs)
  let ?r = "resolve_idle_observations (sc_settings c) (sc_order c) (at_now io) obs"
  have "observations_ok (c\<lparr>sc_idle := fst ?r, last_failure := f\<rparr>)" for f
    using assms ApplyIdle by (simp add: observations_ok_def resolve_ok)
  moreover have "leaves observed (seqE (update_resume_latches io x y)
      (seqE (if b then emit_safety_audit io x1 x2 x3 x4 x5 else ret ()) (reconcile io)))" for x y b x1 x2 x3 x4 x5
    by (intro leaves_seqE leaves_if leaves_basic observed_frames)
  ultimately show ?thesis
    using ApplyIdle
    by (simp add: apply_idle_def wp_bindE wp_reads wp_seqE [of "modifies _"] wp_modifies case_prod_beta wp_observed)
next
  case (ReplaceIdleSettings settings)
  let ?r = "resolve_idle_observations settings (sc_order c) (at_now io) [sc_idle c]"
  have "observations_ok (c\<lparr>sc_settings := settings, sc_idle := fst ?r, last_failure := f\<rparr>)"
    "observations_ok (c\<lparr>sc_settings := settings, sc_idle := fst ?r\<rparr>)" "observations_ok (c\<lparr>sc_settings := settings\<rparr>)" for f
    using assms by (simp_all add: observations_ok_def resolve_ok)
  then show ?thesis
    using ReplaceIdleSettings
    by (auto simp: replace_idle_settings_def wp_bindE wp_reads wp_seqE wp_modifies wp_if wp_ret case_prod_beta
        intro!: wp_observed_seqE wp_observed observed_frames)
next
  case AcknowledgeIdleResume
  moreover have "observations_ok (c\<lparr>manual_idle_latch := False\<rparr>)" using assms by (simp add: observations_ok_def)
  ultimately show ?thesis
    by (simp add: acknowledge_idle_resume_def wp_seqE wp_modifies wp_observed observed_frames)
next
  case Refresh
  have "observations_ok (c\<lparr>sc_lock := \<lparr>lo_state = LOCK_UNKNOWN, lo_observed_at = at_now io,
      lo_source = lo_source (sc_lock c), lo_revision = lo_revision (sc_lock c), lo_failure = Some STALE\<rparr>,
      last_failure := STALE, policy_locked := True\<rparr>)"
    using assms by (simp add: observations_ok_def lock_observation_ok_def observation_valid_def)
  then show ?thesis
    using Refresh assms
    by (auto simp: refresh_def wp_bindE wp_reads wp_seqE wp_modifies wp_if wp_ret set_session_locked_def
        intro!: wp_observed_seqE wp_observed observed_frames)
qed

section \<open>The controller with the lifecycle actor behind it\<close>

definition actor_io :: "lifecycle_env \<Rightarrow> datetime \<Rightarrow> int \<Rightarrow> bool \<Rightarrow> bool option \<Rightarrow> lifecycle session_io" where
  "actor_io env now ns privacy sink = \<lparr>at_now = now, at_ns = ns, privacy_mode = privacy, audit_sink = sink,
     lifecycle_apply = handle_automatic_block env\<rparr>"

lemma actor_io_simps [simp]:
  "at_now (actor_io env now ns privacy sink) = now" "at_ns (actor_io env now ns privacy sink) = ns"
  "privacy_mode (actor_io env now ns privacy sink) = privacy"
  "audit_sink (actor_io env now ns privacy sink) = sink"
  "lifecycle_apply (actor_io env now ns privacy sink) = handle_automatic_block env"
  by (simp_all add: actor_io_def)

text \<open>No helper of the actor touches the latch.\<close>

abbreviation latch_kept :: "(lifecycle, 'a) comp \<Rightarrow> bool" where
  "latch_kept \<equiv> leaves automatic_pause_reason"

lemma latch_kept_ports: "latch_kept (on_gate env g)" "latch_kept (call_port env c)"
  by (auto simp: leaves_def comp_defs on_gate_def call_port_def split: prod.split)

lemmas latch_frames = leaves_option leaves_prod leaves_bindE leaves_seqE leaves_if leaves_basic latch_kept_ports

lemma latch_kept_result: "latch_kept (result env acc chg code fc)"
  unfolding result_def by (intro latch_frames)

lemma latch_kept_drain: "latch_kept (drain_generation env gen)"
  unfolding drain_generation_def clear_buffers_def Let_def by (intro latch_frames)

lemma latch_kept_emit: "latch_kept (emit_audit env tr fc)"
  unfolding emit_audit_def by (intro latch_frames)

lemma latch_kept_fault: "latch_kept (enter_fault env fc why drain)"
  unfolding enter_fault_def
  by (intro latch_frames latch_kept_result latch_kept_emit latch_kept_drain)

lemma latch_kept_audited: "latch_kept k \<Longrightarrow> latch_kept (audited env tr k)"
  unfolding audited_def emit_transition_def
  by (intro latch_frames latch_kept_result latch_kept_emit latch_kept_fault)

lemma lock_latches:
  assumes env: "clock_ok env" and inv: "life_inv a"
  shows "\<exists>r b. handle_automatic_block env True SESSION_LOCKED a = (Inr r, b) \<and> life_inv b \<and>
    automatic_pause_reason b = Some SESSION_LOCKED"
proof -
  obtain r b where run: "handle_automatic_block env True SESSION_LOCKED a = (Inr r, b)" "handled a r b"
    using handle_automatic_block_inv [OF env inv, of True SESSION_LOCKED] by (auto simp: wp_total)
  let ?P = "\<lambda>_ b. automatic_pause_reason b = Some SESSION_LOCKED"
  have kept: "wp m ?P ?P x" if "latch_kept m" "automatic_pause_reason x = Some SESSION_LOCKED"
    for x and m :: "(lifecycle, command_result) comp"
    using that by (simp add: leaves_def wp_any_exit)
  have pause: "latch_kept (bindE (on_gate env (\<lambda>tid now. invalidate_and_pause tid now SESSION_LOCKED))
      (\<lambda>(old, transition). audited env transition (bindE (drain_generation env old) (\<lambda>fc. case fc of
        Some c \<Rightarrow> enter_fault env c CRITICAL_FAULT False
      | None \<Rightarrow> result env True True ''session_safety_paused'' None))))"
    by (intro latch_frames latch_kept_audited latch_kept_drain latch_kept_fault latch_kept_result)
  have "wp (handle_automatic_block env True SESSION_LOCKED) ?P ?P a"
    unfolding handle_automatic_block_def if_True
    using kept [OF latch_kept_result] kept [OF pause]
    by (simp add: wp_bindE [of "on_gate env (\<lambda>_. snapshot)"] wp_snapshot_on_gate [OF env life_inv_owns [OF inv]]
        wp_bindE [of "reads automatic_pause_reason"] wp_reads wp_seqE wp_set_auto)
  then have "automatic_pause_reason (snd (handle_automatic_block env True SESSION_LOCKED a)) = Some SESSION_LOCKED"
    by (simp add: wp_any_exit)
  with run show ?thesis by (auto simp: handled_def)
qed

lemma forwarded_lock:
  assumes env: "clock_ok env" and inv: "life_inv (sc_lifecycle c)"
  shows "wp (apply_lifecycle (actor_io env now ns privacy sink) True SESSION_LOCKED)
    (\<lambda>_ d. life_inv (sc_lifecycle d) \<and> automatic_pause_reason (sc_lifecycle d) = Some SESSION_LOCKED \<and>
       blocked d \<and> block_reason d = Some SESSION_LOCKED \<and> sc_lock d = sc_lock c) (\<lambda>_ _. False) c"
proof -
  obtain r b where run: "handle_automatic_block env True SESSION_LOCKED (sc_lifecycle c) = (Inr r, b)"
    "life_inv b" "automatic_pause_reason b = Some SESSION_LOCKED"
    using lock_latches [OF env inv] by blast
  then show ?thesis
    by (auto simp: apply_lifecycle_def on_lifecycle_def wp_def comp_defs reject_block_def)
qed


definition lock_in_force :: "lifecycle session \<Rightarrow> bool" where
  "lock_in_force c \<longleftrightarrow> life_inv (sc_lifecycle c) \<and> automatic_pause_reason (sc_lifecycle c) = Some SESSION_LOCKED"

lemma reconcile_forwards:
  assumes env: "clock_ok env" and lock: "lo_state (sc_lock c) \<noteq> UNLOCKED" and inv: "life_inv (sc_lifecycle c)"
    and told: "blocked c \<and> block_reason c = Some SESSION_LOCKED \<longrightarrow> lock_in_force c"
  shows "wp (reconcile (actor_io env now ns privacy sink)) (\<lambda>_. lock_in_force) (\<lambda>_ _. False) c"
proof -
  have "wp (apply_lifecycle (actor_io env now ns privacy sink) True SESSION_LOCKED) (\<lambda>_. lock_in_force) (\<lambda>_ _. False) c"
    by (rule wp_mono [OF forwarded_lock [OF env inv]]) (auto simp: lock_in_force_def)
  then show ?thesis
    using lock told
    by (simp add: reconcile_def desired_block_reason_def wp_bindE wp_reads wp_ret wp_if)
qed

lemma apply_lock_forwards:
  assumes env: "clock_ok env" and inv: "life_inv (sc_lifecycle c)"
    and fresh: "\<not> (blocked c \<and> block_reason c = Some SESSION_LOCKED)"
    and lock: "lo_state (normalize_lock now (sc_lock_ttl_ns c) ob) \<noteq> UNLOCKED"
  shows "wp (apply_lock (actor_io env now ns privacy sink) ob) (\<lambda>_. lock_in_force) (\<lambda>_ _. False) c"
proof -
  let ?io = "actor_io env now ns privacy sink" and ?n = "normalize_lock now (sc_lock_ttl_ns c) ob"
  let ?d = "c\<lparr>sc_lock := ?n, lock_received_ns := ns,
      last_failure := (case lo_failure ?n of Some f \<Rightarrow> f | None \<Rightarrow> last_failure c), policy_locked := True\<rparr>"
  have plain: "wp (reconcile ?io) (\<lambda>_. lock_in_force) (\<lambda>_ _. False) d"
    if "sc_lock d = ?n" "sc_lifecycle d = sc_lifecycle c" "blocked d = blocked c" "block_reason d = block_reason c" for d
    using that env lock inv fresh by (intro reconcile_forwards) auto
  have audit: "wp (emit_safety_audit ?io x1 x2 x3 x4 x5) (\<lambda>_. wp (reconcile ?io) (\<lambda>_. lock_in_force) (\<lambda>_ _. False))
      (\<lambda>_ _. False) ?d" for x1 x2 x3 x4 x5
  proof (cases "sink = Some False")
    case True
    have "wp (apply_lifecycle ?io True SESSION_LOCKED) (\<lambda>_. wp (reconcile ?io) (\<lambda>_. lock_in_force) (\<lambda>_ _. False))
        (\<lambda>_ _. False) (?d\<lparr>last_failure := LIFECYCLE_REJECTED, policy_locked := True\<rparr>)"
      by (rule wp_mono [OF forwarded_lock [OF env]])
        (use inv lock env in \<open>auto intro!: reconcile_forwards simp: lock_in_force_def\<close>)
    with True show ?thesis by (simp add: emit_safety_audit_def wp_seqE wp_modifies)
  next
    case False
    then show ?thesis
      using plain by (auto simp: emit_safety_audit_def wp_modifies wp_ret split: option.split bool.split)
  qed
  show ?thesis
    using plain [of ?d] audit lock
    by (simp add: apply_lock_def Let_def wp_bindE wp_reads wp_seqE wp_modifies set_session_locked_def wp_if wp_ret)
qed

section \<open>Properties\<close>

text \<open>
  Idle evidence is resolved conservatively and reproducibly. The observation selected is one of
  the normalized ones; it says idle exactly when some source's current evidence says idle (so a
  conflict counts as idle), and unknown only when no source has current evidence; and, the sources
  being distinct, the choice does not depend on the order in which the observations arrived.
\<close>

theorem idle_resolution_conservative:
  assumes "obs \<noteq> []" and "inj_on io_source (set obs)" and "set obs' = set obs"
  shows "(let n = normalize_idle settings now; s = fst (resolve_idle_observations settings order now obs) in
    s \<in> n ` set obs \<and>
    (io_state s = IS_IDLE \<longleftrightarrow> (\<exists>ob \<in> set obs. io_state (n ob) = IS_IDLE)) \<and>
    (io_state s = IDLE_UNKNOWN \<longleftrightarrow> (\<forall>ob \<in> set obs. io_state (n ob) = IDLE_UNKNOWN)) \<and>
    resolve_idle_observations settings order now obs' = resolve_idle_observations settings order now obs)"
proof -
  let ?n = "map (normalize_idle settings now)" and ?r = "resolve_idle_observations settings order now"
  have sel: "selected order (?n obs) (fst (?r obs))" "selected order (?n obs') (fst (?r obs'))"
    using assms by (auto intro: resolve_selected)
  have s: "fst (?r obs) \<in> set (candidates (?n obs))" using sel(1) by (simp add: selected_def)
  then have mem: "fst (?r obs) \<in> set (?n obs)" using candidates_subset by blast
  have same: "fst (?r obs') = fst (?r obs)"
    by (rule selected_unique [OF sel(2) sel(1)]) (use assms inj_normalized in auto)
  have "snd (?r obs') = snd (?r obs)"
    using assms by (auto simp: resolve_idle_observations_def Let_def split: list.split)
  with same have "?r obs' = ?r obs" by (simp add: prod_eq_iff)
  moreover have "io_state (fst (?r obs)) =
      (if \<exists>ob \<in> set obs. io_state (normalize_idle settings now ob) = IS_IDLE then IS_IDLE
       else if \<exists>ob \<in> set obs. io_state (normalize_idle settings now ob) = IS_ACTIVE then IS_ACTIVE else IDLE_UNKNOWN)"
    using candidates_state [OF s] by simp
  moreover have "(\<forall>ob \<in> set obs. f ob = IDLE_UNKNOWN) \<longleftrightarrow>
      \<not> (\<exists>ob \<in> set obs. f ob = IS_IDLE) \<and> \<not> (\<exists>ob \<in> set obs. f ob = IS_ACTIVE)" for f
    by (metis idle_state.exhaust idle_state.distinct)
  ultimately show ?thesis
    using mem by (simp add: Let_def)
qed

definition xorg_idle :: idle_observation where
  "xorg_idle = \<lparr>io_state = IDLE_UNKNOWN, io_observed_at = Aware 1000000, io_source = ''xorg-idle'',
     io_revision = ''v1'', io_seconds = Some 200, io_failure = None\<rparr>"

definition watch_active :: idle_observation where
  "watch_active = \<lparr>io_state = IS_ACTIVE, io_observed_at = Aware 1000000, io_source = ''activitywatch'',
     io_revision = ''v1'', io_seconds = Some 1, io_failure = None\<rparr>"

definition plain_idle :: idle_settings where
  "plain_idle = \<lparr>idle_enabled = True, idle_pause_capture = True, threshold_seconds = 180,
     resume_behavior = IMMEDIATE, active_grace_seconds = 0, max_observation_age = 5\<rparr>"

lemmas sample_defs = xorg_idle_def watch_active_def plain_idle_def

theorem idle_resolution_conservative_witness:
  "io_state (fst (resolve_idle_observations plain_idle [''activitywatch'', ''xorg-idle''] (Aware 2000000)
      [watch_active, xorg_idle])) = IS_IDLE \<and>
    resolve_idle_observations plain_idle [''activitywatch'', ''xorg-idle''] (Aware 2000000) [xorg_idle, watch_active] =
    resolve_idle_observations plain_idle [''activitywatch'', ''xorg-idle''] (Aware 2000000) [watch_active, xorg_idle]"
proof -
  have "inj_on io_source (set [watch_active, xorg_idle])" by (simp add: sample_defs)
  moreover have "io_state (normalize_idle plain_idle (Aware 2000000) xorg_idle) = IS_IDLE"
    by (simp add: normalize_idle_def age_seconds_def sample_defs)
  ultimately show ?thesis
    using idle_resolution_conservative [of "[watch_active, xorg_idle]" "[xorg_idle, watch_active]" plain_idle
        "Aware 2000000" "[''activitywatch'', ''xorg-idle'']"]
    by (auto simp: Let_def)
qed

text \<open>
  C14. The lock control fails closed. Starting from a new controller, for every sequence of
  observations, reloads and refreshes and every behaviour of the lifecycle and the audit sink, no
  call raises; and after every call, unless the last lock observation in force says unlocked, the
  policy has been told that the session is locked and the controller holds a block with the lock
  as its reason.
\<close>

theorem session_lock_fails_closed:
  assumes "run safety_step (new_session now ns settings order ttl w) c"
  shows "\<exists>d. exec_safety io call c = (Inr (), d) \<and>
    (lo_state (sc_lock d) \<noteq> UNLOCKED \<longrightarrow>
      policy_locked d \<and> blocked d \<and> block_reason d = Some SESSION_LOCKED)"
proof -
  have "lock_reported c \<and> reasons_ok c" using assms by (rule safety.inv_reachable)
  then obtain d where "exec_safety io call c = (Inr (), d)" "lock_settled d"
    using exec_safety_total by blast
  then show ?thesis by (auto simp: lock_settled_def lock_reported_def)
qed

definition no_lifecycle :: "unit session_io" where
  "no_lifecycle = \<lparr>at_now = Aware 5000000, at_ns = 9, privacy_mode = False, audit_sink = Some False,
     lifecycle_apply = (\<lambda>_ _. raise (ActorError ''actor dead''))\<rparr>"

theorem session_lock_fails_closed_witness:
  "\<exists>d. exec_safety no_lifecycle Refresh (new_session (Aware 0) 0 plain_idle [] 5000000000 ()) = (Inr (), d) \<and>
    policy_locked d \<and> blocked d \<and> block_reason d = Some SESSION_LOCKED"
proof -
  let ?c = "new_session (Aware 0) 0 plain_idle [] 5000000000 ()"
  obtain d where d: "exec_safety no_lifecycle Refresh ?c = (Inr (), d)"
    "lo_state (sc_lock d) \<noteq> UNLOCKED \<longrightarrow> policy_locked d \<and> blocked d \<and> block_reason d = Some SESSION_LOCKED"
    using session_lock_fails_closed [OF run_refl, of no_lifecycle Refresh] by blast
  have "lo_state (sc_lock (snd (exec_safety no_lifecycle Refresh ?c))) = LOCK_UNKNOWN"
    by (simp add: new_session_def refresh_def reconcile_def desired_block_reason_def apply_lifecycle_def
        on_lifecycle_def reject_block_def no_lifecycle_def comp_defs)
  with d show ?thesis by simp
qed


definition lock_seen :: "lock_state \<Rightarrow> int \<Rightarrow> lock_observation" where
  "lock_seen st t = \<lparr>lo_state = st, lo_observed_at = Aware t, lo_source = ''logind'', lo_revision = ''v1'',
     lo_failure = None\<rparr>"

definition recording_session :: "lifecycle session" where
  "recording_session = (new_session (Aware 0) 0 plain_idle [] 5000000000 recording_actor)\<lparr>
     sc_lock := lock_seen UNLOCKED 0, policy_locked := False\<rparr>"


text \<open>
  The safety preflight fails closed. It lets a start go on unpaused only when the lock source
  answered and its answer was unlocked, in which case the policy is told so as well; and its result
  is always a well-formed preflight result.
\<close>

theorem safety_preflight_fails_closed:
  assumes "safety_preflight_check settings order now lock_source collected base = (res, told_locked)"
    and "preflight_result_ok base"
  shows "preflight_result_ok res \<and>
    (ready res \<and> start_paused_reason res = None \<longrightarrow>
      \<not> told_locked \<and> (\<exists>ob idle. collected = Some (Some ob, idle) \<and> lo_state ob = UNLOCKED))"
proof -
  obtain lock idle where seen: "(case collected of
      Some (l, is) \<Rightarrow> collect_observations now lock_source l is
    | None \<Rightarrow> (unavailable_lock now lock_source, [])) = (lock, idle)"
    by fastforce
  have told: "told_locked \<longleftrightarrow> lo_state lock \<noteq> UNLOCKED"
    using assms(1) by (simp add: safety_preflight_check_def seen Let_def)
  have "preflight_result_ok res"
    using assms by (auto simp: safety_preflight_check_def seen Let_def preflight_success_def preflight_result_ok_def
        split: if_splits)
  moreover have "lo_state lock = UNLOCKED" if "ready res" "start_paused_reason res = None"
    using that assms(1) by (auto simp: safety_preflight_check_def seen Let_def preflight_success_def split: if_splits)
  moreover have "\<exists>ob idle. collected = Some (Some ob, idle) \<and> lo_state ob = UNLOCKED" if "lo_state lock = UNLOCKED"
    using that seen
    by (cases collected) (auto simp: collect_observations_def unavailable_lock_def split: option.splits)
  ultimately show ?thesis using told by blast
qed

theorem safety_preflight_fails_closed_witness:
  "safety_preflight_check plain_idle [] (Aware 0) ''logind'' (Some (None, [])) (preflight_success None) =
      (preflight_success (Some SESSION_LOCKED), True) \<and> preflight_result_ok (preflight_success (Some SESSION_LOCKED))"
proof -
  have run: "safety_preflight_check plain_idle [] (Aware 0) ''logind'' (Some (None, [])) (preflight_success None) =
      (preflight_success (Some SESSION_LOCKED), True)"
    by (simp add: safety_preflight_check_def collect_observations_def unavailable_lock_def preflight_success_def)
  have "preflight_result_ok (preflight_success None)"
    by (simp add: preflight_result_ok_def preflight_success_def)
  from safety_preflight_fails_closed [OF run this] run show ?thesis by blast
qed

text \<open>
  A lock that gives way to idleness is lost. When the session unlocks while the user is idle,
  the controller asks for the idle block; the actor keeps the stronger lock block and accepts, and
  the controller records the idle block. When the user becomes active the release it sends is
  therefore the wrong one: the actor refuses it and stays blocked, and the controller reports a
  locked session to the policy although the session is unlocked and active.
\<close>

theorem idle_request_hides_lock_block:
  assumes "run actor_step Created (Running (sc_lifecycle c))" and "clock_ok env"
    and "automatic_pause_reason (sc_lifecycle c) = Some SESSION_LOCKED"
    and "lo_state (sc_lock c) = UNLOCKED" and "io_state (sc_idle c) = IS_IDLE"
    and "blocked c \<and> block_reason c = Some SESSION_LOCKED"
    and "sc_settings c = plain_idle" and "io_state ob = IS_ACTIVE" and "\<not> idle_uncertain_latch c"
  shows "\<exists>d e. reconcile (actor_io env now ns False sink) c = (Inr (), d) \<and> block_reason d = Some IDLE \<and>
    reconcile (actor_io env now ns False sink) (d\<lparr>sc_idle := ob\<rparr>) = (Inr (), e) \<and>
    policy_locked e \<and> lo_state (sc_lock e) = UNLOCKED \<and> sc_lifecycle e = sc_lifecycle c"
proof -
  let ?io = "actor_io env now ns False sink" and ?a = "sc_lifecycle c"
  have own: "owns_gate ?a" using reachable_life_inv [OF assms(1)] by (rule life_inv_owns)
  have "wp (handle_automatic_block env True IDLE) (\<lambda>r b. b = ?a \<and> accepted r) (\<lambda>_ _. False) ?a"
    using assms(2,3) own
    by (auto simp: handle_automatic_block_def handler_rules wp_snapshot_on_gate wp_result Let_def)
  then obtain r where ask: "handle_automatic_block env True IDLE ?a = (Inr r, ?a)" "accepted r"
    by (auto simp: wp_total)
  have "wp (handle_automatic_block env False ACTIVE) (\<lambda>r b. b = ?a \<and> \<not> accepted r) (\<lambda>_ _. False) ?a"
    using assms(2,3) own
    by (auto simp: handle_automatic_block_def handler_rules wp_snapshot_on_gate wp_result Let_def)
  then obtain q where release: "handle_automatic_block env False ACTIVE ?a = (Inr q, ?a)" "\<not> accepted q"
    by (auto simp: wp_total)
  let ?d = "c\<lparr>last_generation := map_option gen_value (sn_generation (result_snapshot r)), block_reason := Some IDLE\<rparr>"
  have "reconcile ?io c = (Inr (), ?d)"
    using assms(4-) ask
    by (simp add: reconcile_def desired_block_reason_def idle_blocked_def apply_lifecycle_def on_lifecycle_def
        comp_defs plain_idle_def)
  moreover have "\<exists>e. reconcile ?io (?d\<lparr>sc_idle := ob\<rparr>) = (Inr (), e) \<and> policy_locked e \<and>
      lo_state (sc_lock e) = UNLOCKED \<and> sc_lifecycle e = ?a"
    using assms(4-) release
    by (simp add: reconcile_def desired_block_reason_def idle_blocked_def apply_lifecycle_def on_lifecycle_def
        comp_defs plain_idle_def reject_block_def)
  moreover have "block_reason ?d = Some IDLE" by simp
  ultimately show ?thesis by blast
qed

definition unlocked_idle_session :: "lifecycle session" where
  "unlocked_idle_session = (new_session (Aware 0) 0 plain_idle [] 5000000000 locked_actor)\<lparr>
     sc_lock := lock_seen UNLOCKED 0, sc_idle := xorg_idle\<lparr>io_state := IS_IDLE\<rparr>, blocked := True,
     block_reason := Some SESSION_LOCKED, policy_locked := False\<rparr>"

theorem idle_request_hides_lock_block_witness:
  "\<exists>d e. reconcile (actor_io calm_env (Aware 1) 1 False None) unlocked_idle_session = (Inr (), d) \<and>
    block_reason d = Some IDLE \<and>
    reconcile (actor_io calm_env (Aware 1) 1 False None) (d\<lparr>sc_idle := watch_active\<rparr>) = (Inr (), e) \<and>
    policy_locked e \<and> lo_state (sc_lock e) = UNLOCKED \<and> sc_lifecycle e = sc_lifecycle unlocked_idle_session"
proof (rule idle_request_hides_lock_block [OF _ clock_ok_envs(1)])
  show "run actor_step Created (Running (sc_lifecycle unlocked_idle_session))"
    using locked_actor_reachable by (simp add: unlocked_idle_session_def new_session_def)
qed (simp_all add: unlocked_idle_session_def new_session_def lock_seen_def sample_defs locked_actor_state)

text \<open>
  The controller only holds well-formed observations. It is built only with a lifetime of at
  most five minutes and distinct identifiers; and when it holds observations that satisfy the checks
  of their constructors (timezone-aware, identifiers, idle time within a week, a failure only in the
  unknown state), it does so after every call made with such observations, so that none of the
  observations it constructs itself raises.
\<close>

theorem safety_observations_well_formed:
  fixes c :: "'w session"
  assumes "is_aware now" and "mk_SessionSafetyController now ns settings order ttl w = Inr c"
  shows "observations_ok c \<and> distinct order \<and> 0 \<le> sc_lock_ttl_ns c \<and> sc_lock_ttl_ns c \<le> 300 * 10 ^ 9 \<and>
    (\<forall>(d :: 'w session) io call. observations_ok d \<and> is_aware (at_now io) \<and> safety_call_ok call \<longrightarrow>
      observations_ok (snd (exec_safety io call d)))"
proof -
  have c: "c = new_session now ns settings order (py_int (ttl * 1000000000)) w" "distinct order" "0 < ttl" "ttl \<le> 300"
    using assms(2) by (auto simp: mk_SessionSafetyController_def split: if_splits)
  then have "observations_ok c"
    using assms(1) by (simp add: new_session_def observations_ok_def lock_observation_ok_def observation_valid_def
        unknown_idle_ok char_eval)
  moreover have "0 \<le> sc_lock_ttl_ns c \<and> sc_lock_ttl_ns c \<le> 300 * 10 ^ 9"
    using c by (simp add: new_session_def py_int_def floor_le_iff)
  ultimately show ?thesis
    using c(2) exec_keeps_observations by (metis wp_any_exit)
qed

theorem safety_observations_well_formed_witness:
  "\<exists>c. mk_SessionSafetyController (Aware 0) 0 plain_idle [''activitywatch'', ''xorg-idle''] 5 () = Inr c \<and>
    observations_ok (snd (exec_safety no_lifecycle (ApplyIdle [watch_active]) c))"
proof -
  have "\<exists>c. mk_SessionSafetyController (Aware 0) 0 plain_idle [''activitywatch'', ''xorg-idle''] 5 () = Inr c"
    by (simp add: mk_SessionSafetyController_def char_eval)
  then obtain c where c: "mk_SessionSafetyController (Aware 0) 0 plain_idle [''activitywatch'', ''xorg-idle''] 5 () = Inr c" ..
  have "is_aware (at_now no_lifecycle) \<and> safety_call_ok (ApplyIdle [watch_active])"
    by (simp add: no_lifecycle_def watch_active_def idle_observation_ok_def observation_valid_def char_eval)
  moreover have "is_aware (Aware 0)" by simp
  ultimately show ?thesis using safety_observations_well_formed [OF _ c] c by blast
qed

end
