(* ===== verification/Policy_Engine.thy ===== *)
theory Policy_Engine
  imports Config_Model Lifecycle_Domain "HOL-Library.Product_Lexorder"
begin

text \<open>
  The capture policy: the decision types of \<^verbatim>\<open>src/local_recall/domain/policy.py\<close>, the metadata of
  \<^verbatim>\<open>domain/metadata.py\<close> and the capture decisions of \<^verbatim>\<open>domain/capture.py\<close>, the engine of
  \<^verbatim>\<open>policy/engine.py\<close> with its rule matching, temporary markers and reloads, and the guard, the
  enforcement boundary and the capture adapter built on it.
\<close>

section \<open>Metadata\<close>

datatype scalar = StrVal string | IntVal int | FloatVal rat | BoolVal bool | NoneVal

record provenance =
  pv_source_id :: string
  pv_observed_at :: datetime
  pv_confidence :: rat
  pv_adapter_revision :: "string option"

definition provenance_ok :: "provenance \<Rightarrow> bool" where
  "provenance_ok p \<longleftrightarrow> nonempty (pv_source_id p) \<and> is_aware (pv_observed_at p) \<and>
    0 \<le> pv_confidence p \<and> pv_confidence p \<le> 1 \<and> opt_ok nonempty (pv_adapter_revision p)"

record context_field =
  fd_name :: string
  fd_value :: scalar
  fd_provenance :: "provenance list"

definition context_field_ok :: "context_field \<Rightarrow> bool" where
  "context_field_ok f \<longleftrightarrow> is_identifier (fd_name f) \<and> fd_provenance f \<noteq> [] \<and> list_all provenance_ok (fd_provenance f)"

record context_metadata =
  md_observed_at :: datetime
  md_fields :: "context_field list"

definition context_metadata_ok :: "context_metadata \<Rightarrow> bool" where
  "context_metadata_ok m \<longleftrightarrow> is_aware (md_observed_at m) \<and> list_all context_field_ok (md_fields m) \<and>
    distinct (map fd_name (md_fields m))"

definition field_of :: "context_metadata \<Rightarrow> string \<Rightarrow> context_field option" where
  "field_of m name = find (\<lambda>f. fd_name f = name) (md_fields m)"

definition scalar_field :: "context_metadata \<Rightarrow> string \<Rightarrow> scalar" where
  "scalar_field m name = (case field_of m name of None \<Rightarrow> NoneVal | Some f \<Rightarrow> fd_value f)"

definition string_field :: "context_metadata \<Rightarrow> string \<Rightarrow> string option" where
  "string_field m name = (case scalar_field m name of StrVal s \<Rightarrow> Some s | _ \<Rightarrow> None)"

section \<open>Decisions\<close>

datatype policy_phase = PRE_CAPTURE | POST_CAPTURE | DOWNSTREAM

datatype policy_reason =
    PRIVACY_MODE | REASON_SESSION_LOCKED | EXPLICIT_RULE_DENY | EXPLICIT_RULE_ALLOW
  | TEMPORARY_SENSITIVE_WINDOW | TEMPORARY_SENSITIVE_WORKSPACE | SENSITIVE_APPLICATION | SENSITIVE_TITLE
  | SENSITIVE_WORKSPACE | SENSITIVE_DOMAIN | SOURCE_UNAVAILABLE | REQUIRED_CONTEXT_MISSING | MALFORMED_CONTEXT
  | STALE_CONTEXT | POLICY_CONFLICT | DEFAULT_DENY | DEFAULT_ALLOW | REMOTE_NOT_AUTHORIZED
  | POLICY_UNAVAILABLE | STALE_AUTHORIZATION

fun reason_value :: "policy_reason \<Rightarrow> string" where
  "reason_value PRIVACY_MODE = ''privacy-mode''"
| "reason_value REASON_SESSION_LOCKED = ''session-locked''"
| "reason_value EXPLICIT_RULE_DENY = ''explicit-rule-deny''"
| "reason_value EXPLICIT_RULE_ALLOW = ''explicit-rule-allow''"
| "reason_value TEMPORARY_SENSITIVE_WINDOW = ''temporary-sensitive-window''"
| "reason_value TEMPORARY_SENSITIVE_WORKSPACE = ''temporary-sensitive-workspace''"
| "reason_value SENSITIVE_APPLICATION = ''sensitive-application''"
| "reason_value SENSITIVE_TITLE = ''sensitive-title''"
| "reason_value SENSITIVE_WORKSPACE = ''sensitive-workspace''"
| "reason_value SENSITIVE_DOMAIN = ''sensitive-domain''"
| "reason_value SOURCE_UNAVAILABLE = ''source-unavailable''"
| "reason_value REQUIRED_CONTEXT_MISSING = ''required-context-missing''"
| "reason_value MALFORMED_CONTEXT = ''malformed-context''"
| "reason_value STALE_CONTEXT = ''stale-context''"
| "reason_value POLICY_CONFLICT = ''policy-conflict''"
| "reason_value DEFAULT_DENY = ''default-deny''"
| "reason_value DEFAULT_ALLOW = ''default-allow''"
| "reason_value REMOTE_NOT_AUTHORIZED = ''remote-not-authorized''"
| "reason_value POLICY_UNAVAILABLE = ''policy-unavailable''"
| "reason_value STALE_AUTHORIZATION = ''stale-authorization''"

datatype sensitive_scope = WINDOW | WORKSPACE

record policy_decision =
  pd_operation :: policy_operation
  pd_phase :: policy_phase
  pd_allowed :: bool
  pd_certain :: bool
  pd_reason :: policy_reason
  pd_revision :: string
  pd_generation :: int
  pd_rule_id :: "string option"

definition mk_PolicyDecision :: "policy_decision \<Rightarrow> exn + policy_decision" where
  "mk_PolicyDecision d =
    bindS (ensure (nonempty (pd_revision d)) (ValueError ''policy_revision must not be empty'')) (\<lambda>_.
    bindS (ensure (0 < pd_generation d) (ValueError ''policy_generation must be positive'')) (\<lambda>_.
    bindS (ensure (opt_ok nonempty (pd_rule_id d)) (ValueError ''rule_id must not be empty'')) (\<lambda>_. Inr d)))"

record policy_authorization =
  au_operation :: policy_operation
  au_phase :: policy_phase
  au_revision :: string
  au_generation :: int
  au_capture_generation :: capture_generation

definition mk_PolicyAuthorization :: "policy_authorization \<Rightarrow> exn + policy_authorization" where
  "mk_PolicyAuthorization a =
    bindS (ensure (nonempty (au_revision a)) (ValueError ''policy_revision must not be empty'')) (\<lambda>_.
    bindS (ensure (0 < au_generation a) (ValueError ''policy_generation must be positive'')) (\<lambda>_. Inr a))"

record policy_status_rec =
  ps_revision :: string
  ps_generation :: int
  ps_enabled_rule_count :: nat
  ps_privacy_mode :: bool
  ps_session_locked :: bool
  ps_healthy :: bool
  ps_last_error :: "string option"

section \<open>The state of the engine\<close>

record evaluation_context =
  cx_metadata :: context_metadata
  cx_evaluated_at :: datetime
  cx_capture_generation :: capture_generation
  cx_full_screen :: "bool option"

record compiled_rule =
  rl_rule :: capture_rule
  rl_id :: string
  rl_title_pattern :: "string option"
  rl_domain :: "string option"

text \<open>
  Marker values are strings or integers; Python's booleans are integers, and compare as such.
\<close>

datatype marker_value = MarkerStr string | MarkerInt int

record marker =
  mk_scope :: sensitive_scope
  mk_value :: marker_value
  mk_expires_at :: datetime
  mk_capture_generation :: capture_generation

record engine =
  en_configuration :: config
  en_revision :: string
  en_generation :: int
  en_rules :: "compiled_rule list"
  en_timezone :: "int \<Rightarrow> int"
  en_privacy_mode :: bool
  en_session_locked :: bool
  en_healthy :: bool
  en_last_error :: "string option"
  en_temporary :: "marker list"

section \<open>Compiling a configuration\<close>

text \<open>
  The digest of an anonymous rule is computed by the serializer and the hash of the library from
  the fields of the rule: \<open>json_digest\<close> of their printed values.
\<close>

definition anonymous_rule_id :: "pylib \<Rightarrow> string list \<Rightarrow> string" where
  "anonymous_rule_id lib payload = ''rule-'' @ json_digest lib payload"

definition normalize_domain :: "pylib \<Rightarrow> string \<Rightarrow> exn + string" where
  "normalize_domain lib value =
    (let normalized = remove_dot (casefold (strip value)) in
     if normalized = [] \<or> 253 < length normalized then Inl (ValueError ''policy domain is invalid'')
     else case ip_address lib normalized of
       Some address \<Rightarrow> Inr (casefold address)
     | None \<Rightarrow> if domain_labels_ok normalized then Inr normalized else Inl (ValueError ''policy domain is invalid''))"

definition optS :: "('a \<Rightarrow> exn + 'b) \<Rightarrow> 'a option \<Rightarrow> exn + 'b option" where
  "optS f x = (case x of None \<Rightarrow> Inr None | Some a \<Rightarrow> bindS (f a) (\<lambda>b. Inr (Some b)))"

definition compile_rule :: "pylib \<Rightarrow> (capture_rule \<Rightarrow> string list) \<Rightarrow> capture_rule \<Rightarrow> exn + compiled_rule" where
  "compile_rule lib dump r =
    bindS (optS (\<lambda>p. bindS (ensure (re_compile lib p) (RuntimeError ''re.error'')) (\<lambda>_. Inr p)) (cr_title_pattern r)) (\<lambda>pattern.
    bindS (optS (normalize_domain lib) (cr_domain r)) (\<lambda>domain.
    Inr \<lparr>rl_rule = r,
      rl_id = (case cr_rule_id r of Some (c # s) \<Rightarrow> c # s | _ \<Rightarrow> anonymous_rule_id lib (dump r)),
      rl_title_pattern = pattern, rl_domain = domain\<rparr>))"

fun mapS :: "('a \<Rightarrow> exn + 'b) \<Rightarrow> 'a list \<Rightarrow> exn + 'b list" where
  "mapS f [] = Inr []"
| "mapS f (x # xs) = bindS (f x) (\<lambda>y. bindS (mapS f xs) (\<lambda>ys. Inr (y # ys)))"

definition compile_rules ::
    "pylib \<Rightarrow> (capture_rule \<Rightarrow> string list) \<Rightarrow> config \<Rightarrow> exn + compiled_rule list" where
  "compile_rules lib dump c = mapS (compile_rule lib dump) (rs_rules (cf_rules c))"

definition zone_info :: "pylib \<Rightarrow> string \<Rightarrow> exn + (int \<Rightarrow> int)" where
  "zone_info lib z = (case zone_offset lib z of Some f \<Rightarrow> Inr f | None \<Rightarrow> Inl (RuntimeError ''ZoneInfoNotFoundError''))"

definition mk_PolicyEngine ::
    "pylib \<Rightarrow> (capture_rule \<Rightarrow> string list) \<Rightarrow> config \<Rightarrow> string \<Rightarrow> exn + engine" where
  "mk_PolicyEngine lib dump c revision =
    bindS (ensure (nonempty revision) (ValueError ''revision must not be empty'')) (\<lambda>_.
    bindS (compile_rules lib dump c) (\<lambda>rules.
    bindS (zone_info lib (rs_timezone (cf_rules c))) (\<lambda>zone.
    Inr \<lparr>en_configuration = c, en_revision = revision, en_generation = 1, en_rules = rules, en_timezone = zone,
      en_privacy_mode = False, en_session_locked = False, en_healthy = True, en_last_error = None,
      en_temporary = []\<rparr>)))"

section \<open>Matching rules\<close>

datatype match = MATCH | NO_MATCH | UNKNOWN_MATCH | MALFORMED_MATCH

definition MAX_METADATA_TEXT :: nat where
  "MAX_METADATA_TEXT = 4096"

definition bad_text :: "string \<Rightarrow> bool" where
  "bad_text s \<longleftrightarrow> (\<exists>c \<in> set s. char_code c = 0) \<or> MAX_METADATA_TEXT < length s"

fun digit_string :: "nat \<Rightarrow> string" where
  "digit_string n = (if n < 10 then [char_of (48 + n)] else digit_string (n div 10) @ [char_of (48 + n mod 10)])"

definition int_string :: "int \<Rightarrow> string" where
  "int_string i = (if i < 0 then CHR ''-'' # digit_string (nat (- i)) else digit_string (nat i))"

fun str_of :: "pylib \<Rightarrow> scalar \<Rightarrow> string" where
  "str_of lib (StrVal s) = s"
| "str_of lib (IntVal i) = int_string i"
| "str_of lib (FloatVal x) = float_repr lib x"
| "str_of lib (BoolVal b) = (if b then ''True'' else ''False'')"
| "str_of lib NoneVal = ''None''"

definition match_text :: "pylib \<Rightarrow> context_metadata \<Rightarrow> string \<Rightarrow> string \<Rightarrow> match" where
  "match_text lib m name expected =
    (let value = scalar_field m name in
     if value = NoneVal then UNKNOWN_MATCH
     else if bad_text (str_of lib value) then MALFORMED_MATCH
     else if casefold (str_of lib value) = casefold expected then MATCH else NO_MATCH)"

definition of_bool_match :: "bool \<Rightarrow> match" where
  "of_bool_match b = (if b then MATCH else NO_MATCH)"

definition match_title :: "pylib \<Rightarrow> context_metadata \<Rightarrow> string \<Rightarrow> match" where
  "match_title lib m pattern = (case string_field m ''window.title'' of
     None \<Rightarrow> UNKNOWN_MATCH
   | Some title \<Rightarrow> if bad_text title then MALFORMED_MATCH else of_bool_match (re_search lib pattern title))"

definition domain_matches :: "bool \<Rightarrow> string \<Rightarrow> string \<Rightarrow> bool" where
  "domain_matches subdomains domain expected =
    (if subdomains then domain = expected \<or> endswith domain (''.'' @ expected) else domain = expected)"

definition match_domain :: "pylib \<Rightarrow> context_metadata \<Rightarrow> bool \<Rightarrow> string \<Rightarrow> match" where
  "match_domain lib m subdomains expected = (case string_field m ''url.domain'' of
     None \<Rightarrow> UNKNOWN_MATCH
   | Some raw \<Rightarrow> (case normalize_domain lib raw of
       Inl _ \<Rightarrow> MALFORMED_MATCH
     | Inr domain \<Rightarrow> of_bool_match (domain_matches subdomains domain expected)))"

definition source_ids :: "context_metadata \<Rightarrow> string list" where
  "source_ids m = concat (map (\<lambda>f. map pv_source_id (fd_provenance f)) (md_fields m))"

definition in_time_window :: "policy_time_window \<Rightarrow> int \<Rightarrow> bool" where
  "in_time_window w t =
    (if tw_start w < tw_end w then tw_start w \<le> t \<and> t < tw_end w else tw_start w \<le> t \<or> t < tw_end w)"

definition local_time :: "engine \<Rightarrow> datetime \<Rightarrow> int" where
  "local_time e t = (instant t + en_timezone e (instant t)) mod 86400000000"

definition rule_matches :: "pylib \<Rightarrow> engine \<Rightarrow> evaluation_context \<Rightarrow> compiled_rule \<Rightarrow> match list" where
  "rule_matches lib e cx compiled =
    (let rule = rl_rule compiled; m = cx_metadata cx in
     (case cr_application rule of None \<Rightarrow> [] | Some x \<Rightarrow> [match_text lib m ''application'' x]) @
     (case rl_title_pattern compiled of None \<Rightarrow> [] | Some p \<Rightarrow> [match_title lib m p]) @
     (case cr_workspace rule of None \<Rightarrow> [] | Some x \<Rightarrow> [match_text lib m ''workspace'' x]) @
     (case rl_domain compiled of None \<Rightarrow> [] | Some d \<Rightarrow> [match_domain lib m (cr_include_subdomains rule) d]) @
     (case cr_full_screen rule of None \<Rightarrow> [] | Some b \<Rightarrow>
       [case cx_full_screen cx of None \<Rightarrow> UNKNOWN_MATCH | Some fs \<Rightarrow> of_bool_match (fs = b)]) @
     (case cr_metadata_source rule of None \<Rightarrow> [] | Some s \<Rightarrow>
       [if source_ids m = [] then UNKNOWN_MATCH else of_bool_match (s \<in> set (source_ids m))]) @
     (case cr_time_window rule of None \<Rightarrow> [] | Some w \<Rightarrow>
       [of_bool_match (in_time_window w (local_time e (cx_evaluated_at cx)))]))"

definition match_rule :: "pylib \<Rightarrow> engine \<Rightarrow> evaluation_context \<Rightarrow> compiled_rule \<Rightarrow> match" where
  "match_rule lib e cx compiled =
    (let matches = rule_matches lib e cx compiled in
     if MALFORMED_MATCH \<in> set matches then MALFORMED_MATCH
     else if NO_MATCH \<in> set matches then NO_MATCH
     else if UNKNOWN_MATCH \<in> set matches then UNKNOWN_MATCH
     else MATCH)"

section \<open>Evaluation\<close>

definition CAPTURE_SENSITIVE_OPERATIONS :: "policy_operation list" where
  "CAPTURE_SENSITIVE_OPERATIONS = [SCREENSHOT, OCR, INDEXING, SUMMARIZATION, REMOTE_PROVIDER]"

definition validate_context :: "engine \<Rightarrow> evaluation_context \<Rightarrow> policy_reason option" where
  "validate_context e cx =
    (let m = cx_metadata cx; age = instant (cx_evaluated_at cx) - instant (md_observed_at m) in
     if md_fields m = [] then Some SOURCE_UNAVAILABLE
     else if age < 0 \<or> max_metadata_age (cf_rules (en_configuration e)) < of_int age / 1000000
     then Some STALE_CONTEXT
     else if \<exists>f \<in> set (md_fields m). fd_provenance f = [] \<or>
       (case fd_value f of StrVal s \<Rightarrow> bad_text s | _ \<Rightarrow> False)
     then Some MALFORMED_CONTEXT
     else None)"

definition remote_authorized :: "engine \<Rightarrow> bool" where
  "remote_authorized e \<longleftrightarrow> cf_profile (en_configuration e) = LOCAL_FIRST \<and>
    remote_enabled (cf_models (en_configuration e)) \<and> list_ex rp_enabled (remote_providers (cf_models (en_configuration e)))"

fun marker_of :: "scalar \<Rightarrow> marker_value option" where
  "marker_of (StrVal s) = Some (MarkerStr s)"
| "marker_of (IntVal i) = Some (MarkerInt i)"
| "marker_of (BoolVal b) = Some (MarkerInt (if b then 1 else 0))"
| "marker_of (FloatVal _) = None"
| "marker_of NoneVal = None"

definition sensitive_scope_value :: "sensitive_scope \<Rightarrow> context_metadata \<Rightarrow> marker_value option" where
  "sensitive_scope_value scope m = marker_of (scalar_field m (if scope = WINDOW then ''window.id'' else ''workspace''))"

definition marker_applies :: "evaluation_context \<Rightarrow> marker \<Rightarrow> bool" where
  "marker_applies cx k \<longleftrightarrow> mk_capture_generation k = cx_capture_generation cx \<and>
    sensitive_scope_value (mk_scope k) (cx_metadata cx) = Some (mk_value k)"

definition temporary_reason :: "marker list \<Rightarrow> evaluation_context \<Rightarrow> policy_reason option" where
  "temporary_reason ks cx = map_option
     (\<lambda>k. if mk_scope k = WINDOW then TEMPORARY_SENSITIVE_WINDOW else TEMPORARY_SENSITIVE_WORKSPACE)
     (find (marker_applies cx) ks)"

definition BUILTIN_SENSITIVE_APPLICATIONS :: "string list" where
  "BUILTIN_SENSITIVE_APPLICATIONS = [''1password'', ''1password-browser'', ''bitwarden'', ''keepass'', ''keepassxc'',
     ''org.keepassxc.keepassxc'']"

definition BUILTIN_LOCK_APPLICATIONS :: "string list" where
  "BUILTIN_LOCK_APPLICATIONS = [''i3lock'', ''light-locker'', ''slock'', ''xsecurelock'']"

definition BUILTIN_AUTH_APPLICATIONS :: "string list" where
  "BUILTIN_AUTH_APPLICATIONS = [''gcr-prompter'', ''lxqt-policykit-agent'', ''pinentry'', ''pinentry-gtk-2'',
     ''pinentry-qt'', ''polkit-gnome-authentication-agent-1'', ''ssh-askpass'']"

definition AUTH_TITLE_TOKENS :: "string list" where
  "AUTH_TITLE_TOKENS = [''authentication required'', ''enter password'', ''password required'', ''unlock keyring'']"

definition builtin_sensitive_reason ::
    "pylib \<Rightarrow> engine \<Rightarrow> evaluation_context \<Rightarrow> (policy_reason \<times> string) option" where
  "builtin_sensitive_reason lib e cx =
    (let m = cx_metadata cx; rules = cf_rules (en_configuration e);
         application = map_option casefold (string_field m ''application'');
         title = map_option casefold (string_field m ''window.title'');
         workspace = scalar_field m ''workspace''
     in if application \<in> Some ` set BUILTIN_SENSITIVE_APPLICATIONS
     then Some (SENSITIVE_APPLICATION, ''builtin-password-manager'')
     else if application \<in> Some ` set BUILTIN_LOCK_APPLICATIONS
     then Some (REASON_SESSION_LOCKED, ''builtin-lock-screen'')
     else if application \<in> Some ` set BUILTIN_AUTH_APPLICATIONS
     then Some (SENSITIVE_APPLICATION, ''builtin-auth-dialog'')
     else if (case title of None \<Rightarrow> False | Some t \<Rightarrow> list_ex (contains t) AUTH_TITLE_TOKENS)
     then Some (SENSITIVE_TITLE, ''builtin-auth-title'')
     else if application \<noteq> None \<and> application \<in> Some ` casefold ` set (sensitive_applications rules)
     then Some (SENSITIVE_APPLICATION, ''configured-sensitive-application'')
     else if workspace \<noteq> NoneVal \<and> casefold (str_of lib workspace) \<in> casefold ` set (sensitive_workspaces rules)
     then Some (SENSITIVE_WORKSPACE, ''configured-sensitive-workspace'')
     else None)"

definition decide ::
    "engine \<Rightarrow> policy_operation \<Rightarrow> policy_phase \<Rightarrow> bool \<Rightarrow> bool \<Rightarrow> policy_reason \<Rightarrow> string option \<Rightarrow> policy_decision" where
  "decide e op phase ok certain reason rule_id = \<lparr>pd_operation = op, pd_phase = phase, pd_allowed = ok,
     pd_certain = certain, pd_reason = reason, pd_revision = en_revision e, pd_generation = en_generation e,
     pd_rule_id = rule_id\<rparr>"

definition applies :: "policy_operation \<Rightarrow> compiled_rule \<Rightarrow> bool" where
  "applies op r \<longleftrightarrow> cr_enabled (rl_rule r) \<and> op \<in> set (cr_operations (rl_rule r))"

text \<open>
  The loop over the rules: it stops at the first rule whose context is malformed or missing, and
  otherwise collects the matching denials and permissions, in order.
\<close>

datatype scan_result =
    Stopped policy_reason compiled_rule
  | Scanned "compiled_rule list" "compiled_rule list"

fun scan_rules ::
    "pylib \<Rightarrow> engine \<Rightarrow> policy_operation \<Rightarrow> evaluation_context \<Rightarrow> compiled_rule list \<Rightarrow> compiled_rule list \<Rightarrow>
     compiled_rule list \<Rightarrow> scan_result" where
  "scan_rules lib e op cx [] denies allows = Scanned denies allows"
| "scan_rules lib e op cx (r # rs) denies allows =
    (if \<not> applies op r then scan_rules lib e op cx rs denies allows
     else case match_rule lib e cx r of
       MALFORMED_MATCH \<Rightarrow> Stopped MALFORMED_CONTEXT r
     | UNKNOWN_MATCH \<Rightarrow> Stopped REQUIRED_CONTEXT_MISSING r
     | NO_MATCH \<Rightarrow> scan_rules lib e op cx rs denies allows
     | MATCH \<Rightarrow> if cr_effect (rl_rule r) = DENY then scan_rules lib e op cx rs (denies @ [r]) allows
         else scan_rules lib e op cx rs denies (allows @ [r]))"

definition strength :: "compiled_rule \<Rightarrow> int \<times> string" where
  "strength r = (- cr_priority (rl_rule r), rl_id r)"

definition strongest :: "compiled_rule list \<Rightarrow> compiled_rule option" where
  "strongest rs = (case rs of [] \<Rightarrow> None | r # rs \<Rightarrow> Some (min_by strength r rs))"

text \<open>The end of the evaluation, once the rules have been scanned.\<close>

definition conclude ::
    "pylib \<Rightarrow> engine \<Rightarrow> policy_operation \<Rightarrow> policy_phase \<Rightarrow> evaluation_context \<Rightarrow> compiled_rule list \<Rightarrow>
     compiled_rule list \<Rightarrow> policy_decision" where
  "conclude lib e op phase cx denies allows =
    (case strongest denies of
       Some r \<Rightarrow> decide e op phase False True EXPLICIT_RULE_DENY (Some (rl_id r))
     | None \<Rightarrow>
    (case temporary_reason (en_temporary e) cx of
       Some reason \<Rightarrow> decide e op phase False True reason None
     | None \<Rightarrow>
    (case builtin_sensitive_reason lib e cx of
       Some (reason, rule_id) \<Rightarrow> decide e op phase False True reason (Some rule_id)
     | None \<Rightarrow>
    (case strongest allows of
       Some r \<Rightarrow> decide e op phase True True EXPLICIT_RULE_ALLOW (Some (rl_id r))
     | None \<Rightarrow>
       if default_effect (cf_rules (en_configuration e)) = ALLOW
       then decide e op phase True True DEFAULT_ALLOW None
       else decide e op phase False True DEFAULT_DENY None))))"

definition evaluate_snapshot ::
    "pylib \<Rightarrow> engine \<Rightarrow> policy_operation \<Rightarrow> policy_phase \<Rightarrow> evaluation_context \<Rightarrow> policy_decision" where
  "evaluate_snapshot lib e op phase cx =
    (if \<not> en_healthy e then decide e op phase False True POLICY_UNAVAILABLE None
     else if en_privacy_mode e then decide e op phase False True PRIVACY_MODE None
     else if en_session_locked e then decide e op phase False True REASON_SESSION_LOCKED None
     else
       (case (if op \<in> set CAPTURE_SENSITIVE_OPERATIONS then validate_context e cx else None) of
          Some reason \<Rightarrow> decide e op phase False False reason None
        | None \<Rightarrow>
            if op = REMOTE_PROVIDER \<and> \<not> remote_authorized e
            then decide e op phase False True REMOTE_NOT_AUTHORIZED None
            else
              (case scan_rules lib e op cx (en_rules e) [] [] of
                 Stopped reason r \<Rightarrow> decide e op phase False False reason (Some (rl_id r))
               | Scanned denies allows \<Rightarrow> conclude lib e op phase cx denies allows)))"

section \<open>Operations of the engine\<close>

definition bump :: "engine \<Rightarrow> engine" where
  "bump e = e\<lparr>en_generation := en_generation e + 1\<rparr>"

definition take_snapshot :: "datetime \<Rightarrow> (engine, engine) comp" where
  "take_snapshot now =
    seqE (modifies (\<lambda>e.
      let temporary = filter (\<lambda>k. instant now < instant (mk_expires_at k)) (en_temporary e) in
      if temporary \<noteq> en_temporary e then bump (e\<lparr>en_temporary := temporary\<rparr>) else e))
    (reads id)"

definition evaluate ::
    "pylib \<Rightarrow> policy_operation \<Rightarrow> policy_phase \<Rightarrow> evaluation_context \<Rightarrow> (engine, policy_decision) comp" where
  "evaluate lib op phase cx = bindE (take_snapshot (cx_evaluated_at cx)) (\<lambda>s.
     lift (mk_PolicyDecision (evaluate_snapshot lib s op phase cx)))"

definition authorize ::
    "pylib \<Rightarrow> policy_operation \<Rightarrow> policy_phase \<Rightarrow> evaluation_context \<Rightarrow> (engine, policy_authorization) comp" where
  "authorize lib op phase cx = bindE (evaluate lib op phase cx) (\<lambda>d.
     if \<not> pd_allowed d \<or> \<not> pd_certain d
     then raise (PermissionError (''policy denied: '' @ reason_value (pd_reason d) @
       (case pd_rule_id d of None \<Rightarrow> '''' | Some i \<Rightarrow> '' ('' @ i @ '')'')))
     else lift (mk_PolicyAuthorization \<lparr>au_operation = op, au_phase = phase, au_revision = pd_revision d,
       au_generation = pd_generation d, au_capture_generation = cx_capture_generation cx\<rparr>))"

definition is_authorization_current :: "policy_authorization \<Rightarrow> capture_generation option \<Rightarrow> engine \<Rightarrow> bool" where
  "is_authorization_current a gen e =
    (if en_privacy_mode e \<or> en_session_locked e \<or> \<not> en_healthy e then False
     else if au_revision a \<noteq> en_revision e then False
     else if au_generation a \<noteq> en_generation e then False
     else case gen of None \<Rightarrow> True | Some g \<Rightarrow> au_capture_generation a = g)"

definition set_privacy_mode :: "bool \<Rightarrow> engine \<Rightarrow> engine" where
  "set_privacy_mode active e =
    (if en_privacy_mode e = active then e
     else let e = bump (e\<lparr>en_privacy_mode := active\<rparr>) in if active then e\<lparr>en_temporary := []\<rparr> else e)"

definition engine_set_session_locked :: "bool \<Rightarrow> engine \<Rightarrow> engine" where
  "engine_set_session_locked locked e =
    (if en_session_locked e = locked then e
     else let e = bump (e\<lparr>en_session_locked := locked\<rparr>) in if locked then e\<lparr>en_temporary := []\<rparr> else e)"

definition mark_current_sensitive ::
    "sensitive_scope \<Rightarrow> evaluation_context \<Rightarrow> rat \<Rightarrow> (engine, unit) comp" where
  "mark_current_sensitive scope cx ttl =
    seqE (require (1 \<le> ttl \<and> ttl \<le> 86400)
      (ValueError ''temporary sensitivity lifetime must be between 1 second and 24 hours''))
    (case sensitive_scope_value scope (cx_metadata cx) of
      None \<Rightarrow> raise (ValueError ''required context for temporary sensitivity is unavailable'')
    | Some value \<Rightarrow> modifies (\<lambda>e. bump (e\<lparr>en_temporary := filter (\<lambda>k. mk_scope k \<noteq> scope) (en_temporary e) @
        [\<lparr>mk_scope = scope, mk_value = value,
          mk_expires_at = Aware (instant (cx_evaluated_at cx) + py_round (ttl * 1000000)),
          mk_capture_generation = cx_capture_generation cx\<rparr>]\<rparr>)))"

definition clear_temporary_sensitive :: "sensitive_scope option \<Rightarrow> engine \<Rightarrow> engine" where
  "clear_temporary_sensitive scope e = (case scope of
     None \<Rightarrow> if en_temporary e = [] then e else bump (e\<lparr>en_temporary := []\<rparr>)
   | Some s \<Rightarrow> (let retained = filter (\<lambda>k. mk_scope k \<noteq> s) (en_temporary e) in
       if retained = en_temporary e then e else bump (e\<lparr>en_temporary := retained\<rparr>)))"

definition replace_policy ::
    "pylib \<Rightarrow> (capture_rule \<Rightarrow> string list) \<Rightarrow> config \<Rightarrow> string \<Rightarrow> (engine, unit) comp" where
  "replace_policy lib dump c revision =
    seqE (require (nonempty revision) (ValueError ''revision must not be empty''))
    (case bindS (compile_rules lib dump c) (\<lambda>rules.
        bindS (zone_info lib (rs_timezone (cf_rules c))) (\<lambda>zone. Inr (rules, zone))) of
      Inl err \<Rightarrow> seqE (modifies (\<lambda>e. bump (e\<lparr>en_healthy := False, en_last_error := Some ''policy-reload-invalid''\<rparr>)))
        (raise err)
    | Inr (rules, zone) \<Rightarrow> modifies (\<lambda>e. bump (e\<lparr>en_configuration := c, en_revision := revision, en_rules := rules,
        en_timezone := zone, en_temporary := [], en_healthy := True, en_last_error := None\<rparr>)))"

definition policy_status :: "engine \<Rightarrow> policy_status_rec" where
  "policy_status e = \<lparr>ps_revision = en_revision e, ps_generation = en_generation e,
     ps_enabled_rule_count = length (filter (\<lambda>r. cr_enabled (rl_rule r)) (en_rules e)),
     ps_privacy_mode = en_privacy_mode e, ps_session_locked = en_session_locked e, ps_healthy = en_healthy e,
     ps_last_error = en_last_error e\<rparr>"

section \<open>Guard, boundary and capture adapter\<close>

text \<open>An action is a computation over the world outside the engine; the pair is what the caller sees.\<close>

definition in_engine :: "(engine, 'a) comp \<Rightarrow> (engine \<times> 'w, 'a) comp" where
  "in_engine m = on_field fst (\<lambda>e (_, w). (e, w)) m"

definition in_world :: "('w, 'a) comp \<Rightarrow> (engine \<times> 'w, 'a) comp" where
  "in_world m = on_field snd (\<lambda>w (e, _). (e, w)) m"

definition require_allowed :: "policy_decision \<Rightarrow> exn + unit" where
  "require_allowed d = ensure (pd_allowed d \<and> pd_certain d)
     (PermissionError (''policy denied: '' @ reason_value (pd_reason d)))"

definition guard_invoke ::
    "policy_authorization \<Rightarrow> capture_generation \<Rightarrow> ('w, 'a) comp \<Rightarrow> (engine \<times> 'w, 'a) comp" where
  "guard_invoke a gen action = bindE (in_engine (reads (is_authorization_current a (Some gen)))) (\<lambda>ok.
     if \<not> ok then raise (PermissionError ''policy denied: stale-authorization'') else in_world action)"

definition boundary_capture ::
    "pylib \<Rightarrow> evaluation_context \<Rightarrow> ('w, 'a) comp \<Rightarrow> (engine \<times> 'w, policy_authorization \<times> 'a) comp" where
  "boundary_capture lib cx action = bindE (in_engine (authorize lib SCREENSHOT PRE_CAPTURE cx)) (\<lambda>a.
     bindE (guard_invoke a (cx_capture_generation cx) action) (\<lambda>r. ret (a, r)))"

definition boundary_persist ::
    "pylib \<Rightarrow> evaluation_context \<Rightarrow> policy_authorization \<Rightarrow> ('w, 'a) comp \<Rightarrow> (engine \<times> 'w, 'a) comp" where
  "boundary_persist lib cx a action = bindE (in_engine (evaluate lib SCREENSHOT POST_CAPTURE cx)) (\<lambda>d.
     seqE (lift (require_allowed d)) (guard_invoke a (cx_capture_generation cx) action))"

definition boundary_downstream ::
    "pylib \<Rightarrow> policy_operation \<Rightarrow> evaluation_context \<Rightarrow> ('w, 'a) comp \<Rightarrow> (engine \<times> 'w, 'a) comp" where
  "boundary_downstream lib op cx action =
     seqE (require (op \<notin> {SCREENSHOT, METADATA})
       (ValueError ''capture operations must use their phase-specific boundary''))
     (bindE (in_engine (authorize lib op DOWNSTREAM cx)) (\<lambda>a. guard_invoke a (cx_capture_generation cx) action))"

record capture_intent =
  in_job_id :: nat
  in_generation :: capture_generation
  in_requested_at :: datetime
  in_deadline_ns :: int
  in_configuration_revision :: string

definition capture_intent_ok :: "capture_intent \<Rightarrow> bool" where
  "capture_intent_ok i \<longleftrightarrow> is_aware (in_requested_at i) \<and> 0 < in_deadline_ns i \<and> nonempty (in_configuration_revision i)"

record capture_authorization =
  ca_decision_id :: nat
  ca_policy_revision :: string
  ca_allowed_fields :: "string set"

record capture_decision =
  cd_allow :: bool
  cd_reason_code :: string
  cd_authorization :: "capture_authorization option"
  cd_decision_id :: nat

definition mk_CaptureDecision :: "capture_decision \<Rightarrow> exn + capture_decision" where
  "mk_CaptureDecision d =
    bindS (ensure (nonempty (cd_reason_code d)) (ValueError ''reason_code must not be empty'')) (\<lambda>_.
    bindS (ensure (\<not> (cd_allow d \<and> cd_authorization d = None))
      (ValueError ''allow decisions require capture authorization'')) (\<lambda>_.
    bindS (ensure (\<not> (\<not> cd_allow d \<and> cd_authorization d \<noteq> None))
      (ValueError ''deny decisions cannot include capture authorization'')) (\<lambda>_. Inr d)))"

definition capture_allow :: "nat \<Rightarrow> string \<Rightarrow> string set \<Rightarrow> string \<Rightarrow> exn + capture_decision" where
  "capture_allow fresh revision names reason =
    bindS (ensure (nonempty revision) (ValueError ''policy_revision must not be empty'')) (\<lambda>_.
    mk_CaptureDecision \<lparr>cd_allow = True, cd_reason_code = reason,
      cd_authorization = Some \<lparr>ca_decision_id = fresh, ca_policy_revision = revision, ca_allowed_fields = names\<rparr>,
      cd_decision_id = fresh\<rparr>)"

definition capture_deny :: "nat \<Rightarrow> string \<Rightarrow> exn + capture_decision" where
  "capture_deny fresh reason = mk_CaptureDecision \<lparr>cd_allow = False, cd_reason_code = reason,
     cd_authorization = None, cd_decision_id = fresh\<rparr>"

definition require_authorization :: "capture_decision \<Rightarrow> exn + capture_authorization" where
  "require_authorization d = (case cd_authorization d of
     None \<Rightarrow> Inl (PermissionError (''capture denied: '' @ cd_reason_code d)) | Some a \<Rightarrow> Inr a)"

definition capture_adapter_evaluate ::
    "pylib \<Rightarrow> nat \<Rightarrow> datetime \<Rightarrow> capture_intent \<Rightarrow> context_metadata \<Rightarrow> (engine, capture_decision) comp" where
  "capture_adapter_evaluate lib fresh now intent m =
     seqE (require (is_aware now) (ValueError ''evaluated_at must be timezone-aware''))
     (bindE (evaluate lib SCREENSHOT PRE_CAPTURE \<lparr>cx_metadata = m, cx_evaluated_at = now,
        cx_capture_generation = in_generation intent, cx_full_screen = None\<rparr>) (\<lambda>d.
      if \<not> pd_allowed d \<or> \<not> pd_certain d then lift (capture_deny fresh (reason_value (pd_reason d)))
      else lift (capture_allow fresh (pd_revision d) (fd_name ` set (md_fields m)) (reason_value (pd_reason d)))))"

end
