(* ===== verification/Policy_Safety.thy ===== *)
theory Policy_Safety
  imports Policy_Engine
begin

text \<open>
  The properties of the policy engine: what a decision depends on (an order-free specification of
  the permitted operations), that every configuration the validators accept compiles, that the
  engine never hands out an authorization that outlives the policy it was granted under, and what
  the guard and the enforcement boundary let through.
\<close>

section \<open>The rule loop\<close>

definition hits :: "pylib \<Rightarrow> engine \<Rightarrow> policy_operation \<Rightarrow> evaluation_context \<Rightarrow> rule_effect \<Rightarrow> compiled_rule \<Rightarrow> bool" where
  "hits lib e op cx eff r \<longleftrightarrow> applies op r \<and> match_rule lib e cx r = MATCH \<and> cr_effect (rl_rule r) = eff"

definition settled :: "pylib \<Rightarrow> engine \<Rightarrow> policy_operation \<Rightarrow> evaluation_context \<Rightarrow> compiled_rule \<Rightarrow> bool" where
  "settled lib e op cx r \<longleftrightarrow> (applies op r \<longrightarrow> match_rule lib e cx r \<in> {MATCH, NO_MATCH})"

lemma scan_rules_scanned:
  "scan_rules lib e op cx rs ds as = Scanned ds' as' \<longleftrightarrow>
    (\<forall>r \<in> set rs. settled lib e op cx r) \<and> ds' = ds @ filter (hits lib e op cx DENY) rs \<and>
    as' = as @ filter (hits lib e op cx ALLOW) rs"
proof (induction rs arbitrary: ds as)
  case (Cons r rs)
  show ?case
  proof (cases "applies op r")
    case True
    then show ?thesis
      using Cons.IH by (cases "match_rule lib e cx r"; cases "cr_effect (rl_rule r)")
        (auto simp: settled_def hits_def)
  next
    case False
    then show ?thesis using Cons.IH by (auto simp: settled_def hits_def)
  qed
qed auto

lemma scan_rules_stopped:
  "scan_rules lib e op cx rs ds as = Stopped reason r \<Longrightarrow> r \<in> set rs"
  by (induction rs arbitrary: ds as) (auto split: if_splits match.splits)

lemma strongest_none [simp]: "strongest rs = None \<longleftrightarrow> rs = []"
  by (simp add: strongest_def split: list.split)

lemma strongest_Nil [simp]: "strongest [] = None"
  by (simp add: strongest_def)

lemma strongest_least:
  assumes "strongest rs = Some r"
  shows "r \<in> set rs \<and> (\<forall>q \<in> set rs. strength r \<le> strength q)"
proof -
  obtain x xs where "rs = x # xs" "r = min_by strength x xs"
    using assms by (auto simp: strongest_def split: list.splits)
  then show ?thesis
    using min_by_in [of strength x xs] min_by_least [of _ x xs strength] by simp
qed

lemma temporary_reason_none: "temporary_reason ks cx = None \<longleftrightarrow> (\<forall>k \<in> set ks. \<not> marker_applies cx k)"
  by (auto simp: temporary_reason_def find_None_iff)

section \<open>Which operations are permitted\<close>

text \<open>
  The specification: no order on the rules, every obstacle counts. A rule that applies to the
  operation must have a definite answer, and none of those that match may be a denial.
\<close>

definition permitted :: "pylib \<Rightarrow> engine \<Rightarrow> policy_operation \<Rightarrow> evaluation_context \<Rightarrow> bool" where
  "permitted lib e op cx \<longleftrightarrow>
    en_healthy e \<and> \<not> en_privacy_mode e \<and> \<not> en_session_locked e \<and>
    (op \<in> set CAPTURE_SENSITIVE_OPERATIONS \<longrightarrow> validate_context e cx = None) \<and>
    (op = REMOTE_PROVIDER \<longrightarrow> remote_authorized e) \<and>
    (\<forall>r \<in> set (en_rules e). settled lib e op cx r \<and> \<not> hits lib e op cx DENY r) \<and>
    (\<forall>k \<in> set (en_temporary e). \<not> marker_applies cx k) \<and>
    builtin_sensitive_reason lib e cx = None \<and>
    ((\<exists>r \<in> set (en_rules e). hits lib e op cx ALLOW r) \<or> default_effect (cf_rules (en_configuration e)) = ALLOW)"

lemma decide_simps [simp]:
  "pd_allowed (decide e op phase ok certain reason i) = ok"
  "pd_certain (decide e op phase ok certain reason i) = certain"
  "pd_reason (decide e op phase ok certain reason i) = reason"
  "pd_rule_id (decide e op phase ok certain reason i) = i"
  "pd_revision (decide e op phase ok certain reason i) = en_revision e"
  "pd_generation (decide e op phase ok certain reason i) = en_generation e"
  by (simp_all add: decide_def)

definition blocked_early :: "engine \<Rightarrow> policy_operation \<Rightarrow> evaluation_context \<Rightarrow> bool" where
  "blocked_early e op cx \<longleftrightarrow> \<not> en_healthy e \<or> en_privacy_mode e \<or> en_session_locked e \<or>
    (op \<in> set CAPTURE_SENSITIVE_OPERATIONS \<and> validate_context e cx \<noteq> None) \<or>
    (op = REMOTE_PROVIDER \<and> \<not> remote_authorized e)"

lemma evaluate_blocked:
  "blocked_early e op cx \<Longrightarrow> \<exists>certain reason. evaluate_snapshot lib e op phase cx = decide e op phase False certain reason None"
  by (auto simp: evaluate_snapshot_def blocked_early_def split: option.split)

lemma evaluate_open:
  "\<not> blocked_early e op cx \<Longrightarrow> evaluate_snapshot lib e op phase cx =
    (case scan_rules lib e op cx (en_rules e) [] [] of
       Stopped reason r \<Rightarrow> decide e op phase False False reason (Some (rl_id r))
     | Scanned denies allows \<Rightarrow> conclude lib e op phase cx denies allows)"
  by (auto simp: evaluate_snapshot_def blocked_early_def)

lemma blocked_not_permitted: "blocked_early e op cx \<Longrightarrow> \<not> permitted lib e op cx"
  by (auto simp: blocked_early_def permitted_def)

text \<open>The three ways an evaluation goes: an early denial, an undecided rule, a conclusion.\<close>

lemma evaluate_cases:
  obtains (early) certain reason where "blocked_early e op cx"
      "evaluate_snapshot lib e op phase cx = decide e op phase False certain reason None"
  | (undecided) reason r where "\<not> blocked_early e op cx" "r \<in> set (en_rules e)"
      "\<not> (\<forall>r \<in> set (en_rules e). settled lib e op cx r)"
      "evaluate_snapshot lib e op phase cx = decide e op phase False False reason (Some (rl_id r))"
  | (concluded) "\<not> blocked_early e op cx" "\<forall>r \<in> set (en_rules e). settled lib e op cx r"
      "evaluate_snapshot lib e op phase cx = conclude lib e op phase cx
        (filter (hits lib e op cx DENY) (en_rules e)) (filter (hits lib e op cx ALLOW) (en_rules e))"
proof (cases "blocked_early e op cx")
  case True
  then show ?thesis using evaluate_blocked early by blast
next
  case open_: False
  show ?thesis
  proof (cases "scan_rules lib e op cx (en_rules e) [] []")
    case (Stopped reason r)
    then have "\<not> (\<forall>r \<in> set (en_rules e). settled lib e op cx r)"
      using scan_rules_scanned [of lib e op cx "en_rules e" "[]" "[]"] by auto
    with Stopped open_ show ?thesis
      using scan_rules_stopped [OF Stopped] by (intro undecided) (simp_all add: evaluate_open)
  next
    case (Scanned ds as)
    note scan = Scanned [unfolded scan_rules_scanned]
    show ?thesis
      using open_ scan by (intro concluded) (simp_all add: evaluate_open Scanned)
  qed
qed

lemma conclude_allowed:
  "pd_allowed (conclude lib e op phase cx ds as) \<longleftrightarrow>
    ds = [] \<and> (\<forall>k \<in> set (en_temporary e). \<not> marker_applies cx k) \<and> builtin_sensitive_reason lib e cx = None \<and>
    (as \<noteq> [] \<or> default_effect (cf_rules (en_configuration e)) = ALLOW)"
  by (cases "strongest ds"; cases "temporary_reason (en_temporary e) cx"; cases "builtin_sensitive_reason lib e cx";
      cases "strongest as") (auto simp: conclude_def simp flip: temporary_reason_none strongest_none)

lemma evaluate_allowed: "pd_allowed (evaluate_snapshot lib e op phase cx) \<longleftrightarrow> permitted lib e op cx"
proof (cases rule: evaluate_cases [of e op cx lib phase])
  case (early certain reason)
  then show ?thesis by (simp add: blocked_not_permitted)
next
  case (undecided reason r)
  then show ?thesis by (auto simp: permitted_def)
next
  case concluded
  then show ?thesis
    by (auto simp: conclude_allowed permitted_def blocked_early_def filter_empty_conv)
qed

lemma conclude_certain: "pd_certain (conclude lib e op phase cx ds as)"
  by (simp add: conclude_def split: option.split prod.split)

lemma allowed_certain:
  "pd_allowed (evaluate_snapshot lib e op phase cx) \<Longrightarrow> pd_certain (evaluate_snapshot lib e op phase cx)"
  by (cases rule: evaluate_cases [of e op cx lib phase]) (simp_all add: conclude_certain)

lemma strongest_denial:
  assumes "\<not> blocked_early e op cx" and "\<forall>r \<in> set (en_rules e). settled lib e op cx r"
    and "\<exists>r \<in> set (en_rules e). hits lib e op cx DENY r"
  shows "\<exists>r \<in> set (en_rules e). hits lib e op cx DENY r \<and>
    evaluate_snapshot lib e op phase cx = decide e op phase False True EXPLICIT_RULE_DENY (Some (rl_id r)) \<and>
    (\<forall>q \<in> set (en_rules e). hits lib e op cx DENY q \<longrightarrow> strength r \<le> strength q)"
proof -
  let ?ds = "filter (hits lib e op cx DENY) (en_rules e)"
  have "strongest ?ds \<noteq> None" using assms(3) by (simp add: filter_empty_conv)
  then obtain r where r: "strongest ?ds = Some r" by blast
  have "evaluate_snapshot lib e op phase cx = decide e op phase False True EXPLICIT_RULE_DENY (Some (rl_id r))"
    using assms(1,2) r by (cases rule: evaluate_cases [of e op cx lib phase]) (simp_all add: conclude_def)
  then show ?thesis using strongest_least [OF r] by auto
qed

section \<open>Accepted configurations compile\<close>

lemma nonempty_iff: "nonempty s \<longleftrightarrow> (\<exists>c \<in> set s. \<not> is_space c)"
proof
  assume "nonempty s"
  then have "strip s \<noteq> []" by (simp add: nonempty_def)
  moreover have "set (strip s) \<subseteq> set s"
    using strip_shape [of s] by (metis Un_iff set_append subsetI)
  ultimately show "\<exists>c \<in> set s. \<not> is_space c" using strip_hd [of s] hd_in_set by blast
next
  assume ex: "\<exists>c \<in> set s. \<not> is_space c"
  let ?t = "dropWhile is_space s"
  have "?t \<noteq> []" using ex by (simp add: dropWhile_eq_Nil_conv)
  then have "\<not> is_space (hd ?t)" "hd ?t \<in> set (rev ?t)" using hd_dropWhile [of is_space s] ex by auto
  then have "dropWhile is_space (rev ?t) \<noteq> []" unfolding dropWhile_eq_Nil_conv by blast
  then show "nonempty s" using ex by (auto simp: nonempty_def strip_def)
qed

lemma alnum_not_space: "is_alnum c \<Longrightarrow> \<not> is_space c"
  by (auto simp: is_alnum_def is_lower_def is_upper_def is_digit_def is_space_def)

lemma rule_id_nonempty: "rule_id_pattern s \<Longrightarrow> nonempty s"
  using alnum_not_space hd_in_set by (auto simp: nonempty_iff rule_id_pattern_def)

lemma length_normalized: "length (remove_dot (casefold (strip s))) \<le> length s"
  using length_strip [of s] by (auto simp: remove_dot_def)

lemma valid_domain_normalizes:
  assumes "len_between 1 253 d" and "validate_domain lib d"
  shows "\<exists>n. normalize_domain lib d = Inr n"
  using assms length_normalized [of d]
  by (auto simp: normalize_domain_def validate_domain_def len_between_def Let_def split: option.split)

lemma valid_title_compiles: "validate_title_pattern lib p \<Longrightarrow> re_compile lib p"
  by (simp add: validate_title_pattern_def)

lemma optS_total: "(\<And>a. x = Some a \<Longrightarrow> \<exists>b. f a = Inr b) \<Longrightarrow> \<exists>y. optS f x = Inr y"
  by (cases x) (fastforce simp: optS_def)+

lemma valid_rule_compiles:
  assumes "capture_rule_ok lib r"
  shows "\<exists>q. compile_rule lib dump r = Inr q \<and> rl_rule q = r \<and> nonempty (rl_id q)"
proof -
  let ?f = "\<lambda>p. bindS (ensure (re_compile lib p) (RuntimeError ''re.error'')) (\<lambda>_. Inr p)"
  have "\<exists>y. optS ?f (cr_title_pattern r) = Inr y"
    using assms by (intro optS_total) (auto simp: capture_rule_ok_def dest: valid_title_compiles)
  moreover have "\<exists>y. optS (normalize_domain lib) (cr_domain r) = Inr y"
    using assms by (intro optS_total valid_domain_normalizes) (auto simp: capture_rule_ok_def)
  ultimately obtain p d where "optS ?f (cr_title_pattern r) = Inr p" "optS (normalize_domain lib) (cr_domain r) = Inr d"
    by blast
  moreover have "nonempty (case cr_rule_id r of Some (c # s) \<Rightarrow> c # s | _ \<Rightarrow> anonymous_rule_id lib (dump r))"
  proof -
    have "nonempty (anonymous_rule_id lib (dump r))"
      by (simp add: nonempty_iff anonymous_rule_id_def is_space_def char_code_def)
    then show ?thesis
      using assms by (auto simp: capture_rule_ok_def dest: rule_id_nonempty split: option.split list.split)
  qed
  ultimately show ?thesis by (simp add: compile_rule_def)
qed

lemma mapS_total: "(\<And>x. x \<in> set xs \<Longrightarrow> \<exists>y. f x = Inr y) \<Longrightarrow> \<exists>ys. mapS f xs = Inr ys"
  by (induction xs) (fastforce+)

lemma mapS_all:
  "mapS f xs = Inr ys \<Longrightarrow> (\<And>x y. x \<in> set xs \<Longrightarrow> f x = Inr y \<Longrightarrow> P x y) \<Longrightarrow> list_all2 P xs ys"
  by (induction xs arbitrary: ys) (auto simp: bindS_Inr)

lemma valid_rules_compile:
  assumes "list_all (capture_rule_ok lib) (rs_rules (cf_rules c))"
  shows "\<exists>rs. compile_rules lib dump c = Inr rs \<and> map rl_rule rs = rs_rules (cf_rules c) \<and> (\<forall>r \<in> set rs. nonempty (rl_id r))"
proof -
  let ?rs = "rs_rules (cf_rules c)"
  have ok: "\<exists>q. compile_rule lib dump r = Inr q \<and> rl_rule q = r \<and> nonempty (rl_id q)" if "r \<in> set ?rs" for r
    using assms that by (intro valid_rule_compiles) (simp add: list_all_iff)
  then obtain rs where rs: "compile_rules lib dump c = Inr rs"
    using mapS_total [of ?rs "compile_rule lib dump"] by (auto simp: compile_rules_def)
  have "list_all2 (\<lambda>r q. rl_rule q = r \<and> nonempty (rl_id q)) ?rs rs"
    using ok by (intro mapS_all [OF rs [unfolded compile_rules_def]]) fastforce
  then have "map rl_rule rs = ?rs" "\<forall>r \<in> set rs. nonempty (rl_id r)"
    by (induction rule: list_all2_induct) auto
  with rs show ?thesis by blast
qed

definition policy_config_ok :: "pylib \<Rightarrow> config \<Rightarrow> bool" where
  "policy_config_ok lib c \<longleftrightarrow> list_all (capture_rule_ok lib) (rs_rules (cf_rules c)) \<and>
    zone_offset lib (rs_timezone (cf_rules c)) \<noteq> None"

lemma accepted_policy_config: "mk_LocalRecallConfig lib c = Inr d \<Longrightarrow> policy_config_ok lib d"
  using mk_RuleSettings_idem [OF config_accepted(2), of lib c d]
  by (auto simp: policy_config_ok_def mk_RuleSettings_def bindS_Inr ensure_Inr)

section \<open>The invariant of the engine\<close>

definition engine_ok :: "engine \<Rightarrow> bool" where
  "engine_ok e \<longleftrightarrow> nonempty (en_revision e) \<and> 0 < en_generation e \<and> (\<forall>r \<in> set (en_rules e). nonempty (rl_id r)) \<and>
    distinct (map mk_scope (en_temporary e)) \<and> opt_ok nonempty (en_last_error e)"

lemma engine_ok_bump [simp]: "engine_ok e \<Longrightarrow> engine_ok (bump e)"
  by (simp add: engine_ok_def bump_def)

lemma distinct_scopes_filter: "distinct (map mk_scope ks) \<Longrightarrow> distinct (map mk_scope (filter P ks))"
  by (rule distinct_map_filter)

lemma constructed_engine:
  assumes "policy_config_ok lib c" and "nonempty revision"
  shows "\<exists>e. mk_PolicyEngine lib dump c revision = Inr e \<and> engine_ok e \<and> en_generation e = 1"
  using assms valid_rules_compile [of lib c dump]
  by (auto simp: policy_config_ok_def mk_PolicyEngine_def zone_info_def engine_ok_def)

text \<open>The operations, each of which leaves the engine as it is or moves to a later generation.\<close>

definition moves :: "engine \<Rightarrow> engine \<Rightarrow> bool" where
  "moves e f \<longleftrightarrow> f = e \<or> en_generation e < en_generation f"

definition snapshot_of :: "datetime \<Rightarrow> engine \<Rightarrow> engine" where
  "snapshot_of now e =
    (let temporary = filter (\<lambda>k. instant now < instant (mk_expires_at k)) (en_temporary e) in
     if temporary \<noteq> en_temporary e then bump (e\<lparr>en_temporary := temporary\<rparr>) else e)"

lemma take_snapshot_eq: "take_snapshot now e = (Inr (snapshot_of now e), snapshot_of now e)"
  by (simp add: take_snapshot_def snapshot_of_def comp_defs)

lemma snapshot_ok: "engine_ok e \<Longrightarrow> engine_ok (snapshot_of now e)"
  by (auto simp: snapshot_of_def Let_def engine_ok_def bump_def distinct_scopes_filter)

lemma snapshot_idem: "snapshot_of now (snapshot_of now e) = snapshot_of now e"
  by (simp add: snapshot_of_def Let_def bump_def)

lemma snapshot_moves: "moves e (snapshot_of now e)"
  by (simp add: snapshot_of_def Let_def moves_def bump_def)

lemma decision_valid:
  assumes "engine_ok e"
  shows "mk_PolicyDecision (evaluate_snapshot lib e op phase cx) = Inr (evaluate_snapshot lib e op phase cx)"
proof -
  have id: "opt_ok nonempty (pd_rule_id (evaluate_snapshot lib e op phase cx))"
  proof (cases rule: evaluate_cases [of e op cx lib phase])
    case (undecided reason r)
    then show ?thesis using assms by (simp add: engine_ok_def)
  next
    case concluded
    have "opt_ok nonempty (map_option rl_id (strongest (filter P (en_rules e))))" for P
      using strongest_least [of "filter P (en_rules e)"] assms
      by (cases "strongest (filter P (en_rules e))") (auto simp: engine_ok_def)
    moreover have "\<forall>b. builtin_sensitive_reason lib e cx = Some b \<longrightarrow> nonempty (snd b)"
      by (auto simp: builtin_sensitive_reason_def Let_def nonempty_iff is_space_def char_code_def split: if_splits)
    ultimately show ?thesis
      unfolding concluded(3) conclude_def
      by (auto split: option.split) (metis opt_ok_simps(2) option.simps(9))+
  qed simp
  have "pd_revision (evaluate_snapshot lib e op phase cx) = en_revision e"
    "pd_generation (evaluate_snapshot lib e op phase cx) = en_generation e"
    by (auto simp: evaluate_snapshot_def conclude_def split: option.split scan_result.split)
  with id assms show ?thesis by (simp add: mk_PolicyDecision_def engine_ok_def)
qed

lemma evaluate_eq:
  "engine_ok e \<Longrightarrow> evaluate lib op phase cx e =
    (Inr (evaluate_snapshot lib (snapshot_of (cx_evaluated_at cx) e) op phase cx), snapshot_of (cx_evaluated_at cx) e)"
  by (simp add: evaluate_def bindE_def take_snapshot_eq lift_def decision_valid snapshot_ok)

lemma evaluate_state: "snd (evaluate lib op phase cx e) = snapshot_of (cx_evaluated_at cx) e"
  by (simp add: evaluate_def bindE_def take_snapshot_eq lift_def)

lemma authorize_eq:
  assumes "engine_ok e" and s_def: "s = snapshot_of (cx_evaluated_at cx) e"
  shows "permitted lib s op cx \<Longrightarrow> authorize lib op phase cx e =
      (Inr \<lparr>au_operation = op, au_phase = phase, au_revision = en_revision s, au_generation = en_generation s,
        au_capture_generation = cx_capture_generation cx\<rparr>, s)"
    and "\<not> permitted lib s op cx \<Longrightarrow> \<exists>msg. authorize lib op phase cx e = (Inl (PermissionError msg), s)"
proof -
  let ?d = "evaluate_snapshot lib s op phase cx"
  have d: "pd_revision ?d = en_revision s" "pd_generation ?d = en_generation s"
    by (auto simp: evaluate_snapshot_def conclude_def split: option.split scan_result.split)
  have s: "engine_ok s" using assms by (simp add: snapshot_ok)
  have run: "evaluate lib op phase cx e = (Inr ?d, s)" using assms by (simp add: evaluate_eq)
  show "authorize lib op phase cx e =
      (Inr \<lparr>au_operation = op, au_phase = phase, au_revision = en_revision s, au_generation = en_generation s,
        au_capture_generation = cx_capture_generation cx\<rparr>, s)" if "permitted lib s op cx"
    using that d s allowed_certain [of lib s op phase cx]
    by (simp add: authorize_def bindE_def run evaluate_allowed lift_def mk_PolicyAuthorization_def engine_ok_def)
  show "\<exists>msg. authorize lib op phase cx e = (Inl (PermissionError msg), s)" if "\<not> permitted lib s op cx"
    using that by (simp add: authorize_def bindE_def run evaluate_allowed raise_def)
qed

section \<open>Histories of the engine\<close>

inductive policy_step :: "pylib \<Rightarrow> (capture_rule \<Rightarrow> string list) \<Rightarrow> engine option \<Rightarrow> engine option \<Rightarrow> bool"
  for lib dump where
  construct: "policy_config_ok lib c \<Longrightarrow> mk_PolicyEngine lib dump c revision = Inr e \<Longrightarrow>
    policy_step lib dump None (Some e)"
| evaluation: "evaluate lib op phase cx e = (r, f) \<Longrightarrow> policy_step lib dump (Some e) (Some f)"
| privacy: "policy_step lib dump (Some e) (Some (set_privacy_mode b e))"
| lock: "policy_step lib dump (Some e) (Some (engine_set_session_locked b e))"
| mark: "mark_current_sensitive scope cx ttl e = (r, f) \<Longrightarrow> policy_step lib dump (Some e) (Some f)"
| clear: "policy_step lib dump (Some e) (Some (clear_temporary_sensitive scope e))"
| reload: "policy_config_ok lib c \<or> (\<exists>err. compile_rules lib dump c = Inl err) \<Longrightarrow>
    replace_policy lib dump c revision e = (r, f) \<Longrightarrow> policy_step lib dump (Some e) (Some f)"

inductive_cases policy_step_None: "policy_step lib dump None t"
inductive_cases policy_step_Some: "policy_step lib dump (Some e) t"

lemma set_privacy_mode_keeps: "engine_ok e \<Longrightarrow> engine_ok (set_privacy_mode b e)" "moves e (set_privacy_mode b e)"
  by (simp_all add: set_privacy_mode_def Let_def engine_ok_def bump_def moves_def)

lemma set_session_locked_keeps:
  "engine_ok e \<Longrightarrow> engine_ok (engine_set_session_locked b e)" "moves e (engine_set_session_locked b e)"
  by (simp_all add: engine_set_session_locked_def Let_def engine_ok_def bump_def moves_def)

lemma clear_temporary_keeps:
  "engine_ok e \<Longrightarrow> engine_ok (clear_temporary_sensitive scope e)" "moves e (clear_temporary_sensitive scope e)"
  by (auto simp: clear_temporary_sensitive_def Let_def engine_ok_def bump_def moves_def distinct_scopes_filter
      split: option.split)

lemma mark_keeps:
  assumes "mark_current_sensitive scope cx ttl e = (r, f)"
  shows "engine_ok e \<Longrightarrow> engine_ok f" "moves e f"
  using assms
  by (auto simp: mark_current_sensitive_def comp_defs engine_ok_def bump_def moves_def distinct_scopes_filter
      split: option.splits if_splits)

lemma replace_policy_moves: "replace_policy lib dump c revision e = (r, f) \<Longrightarrow> moves e f"
  by (auto simp: replace_policy_def comp_defs moves_def bump_def split: if_splits sum.splits)

lemma replace_policy_ok:
  assumes "replace_policy lib dump c revision e = (r, f)" and "engine_ok e"
    and "policy_config_ok lib c \<or> (\<exists>err. compile_rules lib dump c = Inl err)"
  shows "engine_ok f"
proof (cases "nonempty revision")
  case False
  with assms show ?thesis by (simp add: replace_policy_def comp_defs)
next
  case revision: True
  show ?thesis
  proof (cases "bindS (compile_rules lib dump c) (\<lambda>rules.
        bindS (zone_info lib (rs_timezone (cf_rules c))) (\<lambda>zone. Inr (rules, zone)))")
    case (Inl err)
    then have "f = bump (e\<lparr>en_healthy := False, en_last_error := Some ''policy-reload-invalid''\<rparr>)"
      using assms(1) revision by (simp add: replace_policy_def comp_defs)
    moreover have "nonempty ''policy-reload-invalid''" by code_simp
    ultimately show ?thesis using assms(2) by (simp add: engine_ok_def bump_def)
  next
    case (Inr p)
    then have "policy_config_ok lib c" using assms(3) by (auto simp: bindS_Inr)
    then have "\<forall>q \<in> set (fst p). nonempty (rl_id q)"
      using valid_rules_compile [of lib c dump] Inr by (auto simp: policy_config_ok_def bindS_Inr)
    moreover have "f = bump (e\<lparr>en_configuration := c, en_revision := revision, en_rules := fst p,
        en_timezone := snd p, en_temporary := [], en_healthy := True, en_last_error := None\<rparr>)"
      using assms(1) revision Inr by (simp add: replace_policy_def comp_defs case_prod_beta)
    ultimately show ?thesis using assms(2) revision by (simp add: engine_ok_def bump_def)
  qed
qed

lemma policy_step_ok:
  assumes "policy_step lib dump (Some e) t" and "engine_ok e"
  shows "\<exists>f. t = Some f \<and> engine_ok f \<and> moves e f"
  using assms(1)
proof cases
  case (evaluation op phase cx r f)
  then have "f = snapshot_of (cx_evaluated_at cx) e" using evaluate_state [of lib op phase cx e] by simp
  with evaluation assms(2) show ?thesis by (simp add: snapshot_ok snapshot_moves)
next
  case (mark scope cx ttl r f)
  with assms(2) show ?thesis using mark_keeps by blast
next
  case (reload c revision r f)
  with assms(2) show ?thesis using replace_policy_ok replace_policy_moves by blast
qed (use assms(2) in \<open>simp_all add: set_privacy_mode_keeps set_session_locked_keeps clear_temporary_keeps\<close>)

abbreviation engine_opt_ok :: "engine option \<Rightarrow> bool" where
  "engine_opt_ok \<equiv> opt_ok engine_ok"

lemma policy_step_start: "policy_step lib dump None t \<Longrightarrow> \<exists>e. t = Some e \<and> engine_ok e \<and> en_generation e = 1"
proof (erule policy_step_None)
  fix c revision e
  assume c: "policy_config_ok lib c" and e: "mk_PolicyEngine lib dump c revision = Inr e" and t: "t = Some e"
  have "nonempty revision" using e by (simp add: mk_PolicyEngine_def bindS_Inr ensure_Inr)
  with constructed_engine [OF c this, of dump] e t show ?thesis by simp
qed

interpretation policy: epoch_authority "policy_step lib dump" None engine_opt_ok
    "\<lambda>s. case s of None \<Rightarrow> 0 | Some e \<Rightarrow> en_generation e" "\<lambda>s n. \<exists>e. s = Some e \<and> n = en_generation e" for lib dump
proof unfold_locales
  fix s t
  assume step: "policy_step lib dump s t" and inv: "engine_opt_ok s"
  have "engine_opt_ok t \<and> (case s of None \<Rightarrow> 0 | Some e \<Rightarrow> en_generation e) \<le> (case t of None \<Rightarrow> 0 | Some e \<Rightarrow> en_generation e) \<and>
    (\<forall>n. (\<exists>e. t = Some e \<and> n = en_generation e) \<longrightarrow> (\<exists>e. s = Some e \<and> n = en_generation e) \<or>
      (case s of None \<Rightarrow> 0 | Some e \<Rightarrow> en_generation e) < n)"
  proof (cases s)
    case None
    then show ?thesis using policy_step_start step by fastforce
  next
    case (Some e)
    then obtain f where "t = Some f" "engine_ok f" "moves e f"
      using policy_step_ok [of lib dump e t] step inv by auto
    with Some show ?thesis by (auto simp: moves_def)
  qed
  then show "engine_opt_ok t"
    and "(case s of None \<Rightarrow> 0 | Some e \<Rightarrow> en_generation e) \<le> (case t of None \<Rightarrow> 0 | Some e \<Rightarrow> en_generation e)"
    and "\<And>n. \<exists>e. t = Some e \<and> n = en_generation e \<Longrightarrow> (\<exists>e. s = Some e \<and> n = en_generation e) \<or>
      (case s of None \<Rightarrow> 0 | Some e \<Rightarrow> en_generation e) < n"
    by blast+
qed auto

lemma reachable_engine_ok: "run (policy_step lib dump) None (Some e) \<Longrightarrow> engine_ok e"
  using policy.inv_reachable by fastforce

lemma moves_trans: "moves e f \<Longrightarrow> moves f g \<Longrightarrow> moves e g"
  by (auto simp: moves_def)

lemma moves_run:
  assumes "run (policy_step lib dump) (Some e) t" and "engine_ok e"
  shows "\<exists>f. t = Some f \<and> engine_ok f \<and> moves e f"
  using assms
proof (induction "Some e" t rule: run.induct)
  case run_refl
  then show ?case by (simp add: moves_def)
next
  case (run_step t u)
  then obtain f where "t = Some f" "engine_ok f" "moves e f" by blast
  with policy_step_ok [of lib dump f u] run_step.hyps(3) show ?case by (auto intro: moves_trans)
qed

section \<open>Domains by labels\<close>

lemma split_on_append: "split_on c (p @ c # x) = split_on c p @ split_on c x"
proof (induction p)
  case (Cons a p)
  then show ?case by (cases "split_on c p") auto
qed simp

fun join_on :: "char \<Rightarrow> string list \<Rightarrow> string" where
  "join_on c [] = []"
| "join_on c [w] = w"
| "join_on c (w # ws) = w @ c # join_on c ws"

lemma join_on_Cons: "ws \<noteq> [] \<Longrightarrow> join_on c (w # ws) = w @ c # join_on c ws"
  by (cases ws) auto

lemma join_split [simp]: "join_on c (split_on c s) = s"
proof (induction s)
  case (Cons a s)
  then show ?case
    by (cases "split_on c s"; cases "tl (split_on c s)") (auto simp: join_on_Cons)
qed simp

lemma join_on_append: "ws \<noteq> [] \<Longrightarrow> vs \<noteq> [] \<Longrightarrow> join_on c (ws @ vs) = join_on c ws @ c # join_on c vs"
  by (induction ws rule: join_on.induct [of _ c]) (auto simp: join_on_Cons)

lemma endswith_label:
  "d = x \<or> endswith d (''.'' @ x) \<longleftrightarrow> suffix (split_on CHR ''.'' x) (split_on CHR ''.'' d)"
proof
  assume "d = x \<or> endswith d (''.'' @ x)"
  then show "suffix (split_on CHR ''.'' x) (split_on CHR ''.'' d)"
    by (auto simp: endswith_def suffix_def split_on_append)
next
  assume "suffix (split_on CHR ''.'' x) (split_on CHR ''.'' d)"
  then obtain ws where ws: "split_on CHR ''.'' d = ws @ split_on CHR ''.'' x" by (auto simp: suffix_def)
  then have d: "d = join_on CHR ''.'' (ws @ split_on CHR ''.'' x)" by (metis join_split)
  show "d = x \<or> endswith d (''.'' @ x)"
  proof (cases "ws = []")
    case False
    then have "d = join_on CHR ''.'' ws @ ''.'' @ x" using d by (simp add: join_on_append)
    then show ?thesis by (auto simp: endswith_def suffix_def)
  qed (use d in simp)
qed

section \<open>Sample policies\<close>

definition rule_template :: capture_rule where
  "rule_template = \<lparr>cr_effect = DENY, cr_rule_id = None, cr_enabled = True, cr_priority = 0,
     cr_operations = [SCREENSHOT, METADATA, OCR, INDEXING, SUMMARIZATION, REMOTE_PROVIDER], cr_application = None,
     cr_title_pattern = None, cr_workspace = None, cr_domain = None, cr_include_subdomains = False,
     cr_full_screen = None, cr_metadata_source = None, cr_time_window = None, cr_reason_code = ''configured-rule''\<rparr>"

definition work_config :: config where
  "work_config = capturing_config\<lparr>cf_rules := (cf_rules capturing_config)\<lparr>rs_rules :=
     [rule_template\<lparr>cr_effect := ALLOW, cr_rule_id := Some ''editor'', cr_application := Some ''Emacs''\<rparr>,
      rule_template\<lparr>cr_rule_id := Some ''private'', cr_workspace := Some ''home''\<rparr>]\<rparr>\<rparr>"

definition work_engine :: engine where
  "work_engine = sum.projr (mk_PolicyEngine sample_lib (\<lambda>_. []) work_config ''rev-1'')"

definition seen_field :: "string \<Rightarrow> scalar \<Rightarrow> context_field" where
  "seen_field name value = \<lparr>fd_name = name, fd_value = value, fd_provenance = [\<lparr>pv_source_id = ''qtile'',
     pv_observed_at = Aware 1000000, pv_confidence = 1, pv_adapter_revision = None\<rparr>]\<rparr>"

definition editor_context :: "string \<Rightarrow> evaluation_context" where
  "editor_context ws = \<lparr>cx_metadata = \<lparr>md_observed_at = Aware 1000000, md_fields =
      [seen_field ''application'' (StrVal ''emacs''), seen_field ''workspace'' (StrVal ws)]\<rparr>,
     cx_evaluated_at = Aware 2000000, cx_capture_generation = CaptureGeneration 1, cx_full_screen = None\<rparr>"

lemma work_engine_built: "mk_PolicyEngine sample_lib (\<lambda>_. []) work_config ''rev-1'' = Inr work_engine"
proof -
  have "policy_config_ok sample_lib work_config" "nonempty ''rev-1''" by code_simp+
  from constructed_engine [OF this, of "\<lambda>_. []"] show ?thesis by (auto simp: work_engine_def)
qed

lemma work_engine_reachable: "run (policy_step sample_lib (\<lambda>_. [])) None (Some work_engine)"
proof (rule run_one, rule policy_step.construct [OF _ work_engine_built])
  show "policy_config_ok sample_lib work_config" by code_simp
qed

lemma work_engine_permits:
  "snapshot_of (Aware 2000000) work_engine = work_engine"
  "permitted sample_lib work_engine SCREENSHOT (editor_context ''code'')"
  "\<not> permitted sample_lib work_engine SCREENSHOT (editor_context ''home'')"
proof -
  have "en_temporary work_engine = []" by code_simp
  then show "snapshot_of (Aware 2000000) work_engine = work_engine" by (simp add: snapshot_of_def)
qed code_simp+

section \<open>Properties\<close>

text \<open>
  C18. A decision allows an operation exactly when the specification permits it: the policy is
  healthy and neither privacy mode nor a locked session is in force, the context is current and well
  formed, remote use is authorized, no applicable rule is undecided or denies, no temporary marker
  and no built-in or configured sensitivity applies, and an applicable rule or the default allows.
  The order of the rules plays no part, and whatever is allowed is certain.
\<close>

theorem decision_matches_specification:
  "pd_allowed (evaluate_snapshot lib e op phase cx) = permitted lib e op cx \<and>
    (pd_allowed (evaluate_snapshot lib e op phase cx) \<and> pd_certain (evaluate_snapshot lib e op phase cx)) =
      permitted lib e op cx"
  using evaluate_allowed allowed_certain by blast

text \<open>
  The strongest denial is the one reported. When nothing blocks the operation earlier and every
  applicable rule has a definite answer, a matching denial decides, whatever else allows; the rule
  named is a matching denial of the highest priority, and among those the one with the least
  identifier.
\<close>

theorem strongest_denial_decides:
  assumes "\<not> blocked_early e op cx" and "\<forall>r \<in> set (en_rules e). settled lib e op cx r"
    and "\<exists>r \<in> set (en_rules e). hits lib e op cx DENY r"
  shows "\<exists>r \<in> set (en_rules e). hits lib e op cx DENY r \<and>
    evaluate_snapshot lib e op phase cx = decide e op phase False True EXPLICIT_RULE_DENY (Some (rl_id r)) \<and>
    (\<forall>q \<in> set (en_rules e). hits lib e op cx DENY q \<longrightarrow>
      cr_priority (rl_rule q) < cr_priority (rl_rule r) \<or>
      cr_priority (rl_rule q) = cr_priority (rl_rule r) \<and> rl_id r \<le> rl_id q)"
  using strongest_denial [OF assms, of phase] by (force simp: strength_def less_eq_prod_def)

theorem strongest_denial_decides_witness:
  "\<exists>r \<in> set (en_rules work_engine). hits sample_lib work_engine SCREENSHOT (editor_context ''home'') DENY r \<and>
    evaluate_snapshot sample_lib work_engine SCREENSHOT PRE_CAPTURE (editor_context ''home'') =
      decide work_engine SCREENSHOT PRE_CAPTURE False True EXPLICIT_RULE_DENY (Some (rl_id r))"
proof -
  have "\<not> blocked_early work_engine SCREENSHOT (editor_context ''home'')"
    "\<forall>r \<in> set (en_rules work_engine). settled sample_lib work_engine SCREENSHOT (editor_context ''home'') r"
    "\<exists>r \<in> set (en_rules work_engine). hits sample_lib work_engine SCREENSHOT (editor_context ''home'') DENY r"
    by code_simp+
  from strongest_denial_decides [OF this, of PRE_CAPTURE] show ?thesis by blast
qed

text \<open>
  C19. An authorization never outlives the policy it was granted under. If an authorization is still
  current at some later point of any history of the engine (evaluations, markers, lock and privacy
  changes, reloads that succeed or fail), then the engine is in the very state in which it was
  granted, the capture generation is the one it was granted for, and the operation is still
  permitted there.
\<close>

theorem current_authorization_reflects_policy:
  assumes "run (policy_step lib dump) None (Some e)" and "authorize lib op phase cx e = (Inr a, s)"
    and "run (policy_step lib dump) (Some s) (Some t)" and "is_authorization_current a (Some g) t"
  shows "t = s \<and> g = cx_capture_generation cx \<and> permitted lib t op cx"
proof -
  let ?s = "snapshot_of (cx_evaluated_at cx) e"
  have e: "engine_ok e" using assms(1) by (rule reachable_engine_ok)
  have p: "permitted lib ?s op cx"
    using authorize_eq(2) [OF e refl, of lib cx op phase] assms(2) by fastforce
  then have a: "s = ?s" "a = \<lparr>au_operation = op, au_phase = phase, au_revision = en_revision ?s,
      au_generation = en_generation ?s, au_capture_generation = cx_capture_generation cx\<rparr>"
    using authorize_eq(1) [OF e refl, of lib cx op phase] assms(2) by auto
  have cur: "au_generation a = en_generation t" "au_capture_generation a = g"
    using assms(4) by (auto simp: is_authorization_current_def split: if_splits)
  have "moves s t" using moves_run [OF assms(3)] snapshot_ok [OF e] a(1) by auto
  with cur(1) a have "t = s" by (simp add: moves_def)
  with cur(2) p a show ?thesis by simp
qed

theorem current_authorization_reflects_policy_witness:
  "\<exists>a. authorize sample_lib SCREENSHOT PRE_CAPTURE (editor_context ''code'') work_engine = (Inr a, work_engine) \<and>
    is_authorization_current a (Some (CaptureGeneration 1)) work_engine \<and>
    permitted sample_lib work_engine SCREENSHOT (editor_context ''code'')"
proof -
  let ?a = "\<lparr>au_operation = SCREENSHOT, au_phase = PRE_CAPTURE, au_revision = en_revision work_engine,
    au_generation = en_generation work_engine, au_capture_generation = CaptureGeneration 1\<rparr>"
  have snap: "snapshot_of (cx_evaluated_at (editor_context ''code'')) work_engine = work_engine"
    using work_engine_permits(1) by (simp add: editor_context_def)
  have auth: "authorize sample_lib SCREENSHOT PRE_CAPTURE (editor_context ''code'') work_engine = (Inr ?a, work_engine)"
    using authorize_eq(1) [OF reachable_engine_ok [OF work_engine_reachable], of work_engine "editor_context ''code''"]
      snap work_engine_permits(2) by (simp add: editor_context_def)
  moreover have "is_authorization_current ?a (Some (CaptureGeneration 1)) work_engine"
    by code_simp
  ultimately show ?thesis
    using current_authorization_reflects_policy [OF work_engine_reachable auth run_refl] by blast
qed

text \<open>
  What the three entry points of the boundary do at an engine in order, which the next property puts
  together.
\<close>

lemma fresh_authorization_current:
  assumes "permitted lib s p cx"
  shows "is_authorization_current \<lparr>au_operation = p, au_phase = ph, au_revision = en_revision s,
    au_generation = en_generation s, au_capture_generation = cx_capture_generation cx\<rparr>
    (Some (cx_capture_generation cx)) s"
  using assms by (simp add: is_authorization_current_def permitted_def)

lemma boundary_capture_runs:
  assumes "engine_ok e" and s: "s = snapshot_of (cx_evaluated_at cx) e"
  shows "if permitted lib s SCREENSHOT cx
    then \<exists>a. boundary_capture lib cx action (e, w) =
      (case action w of (Inl x, v) \<Rightarrow> (Inl x, s, v) | (Inr r, v) \<Rightarrow> (Inr (a, r), s, v))
    else \<exists>msg. boundary_capture lib cx action (e, w) = (Inl (PermissionError msg), s, w)"
proof (cases "permitted lib s SCREENSHOT cx")
  case True
  with authorize_eq(1) [OF assms True, of PRE_CAPTURE] fresh_authorization_current [OF True, of PRE_CAPTURE]
  show ?thesis
    by (auto simp: boundary_capture_def guard_invoke_def in_engine_def in_world_def comp_defs
        split: prod.split sum.split)
next
  case False
  with authorize_eq(2) [OF assms False, of PRE_CAPTURE] show ?thesis
    by (auto simp: boundary_capture_def in_engine_def comp_defs)
qed

lemma boundary_persist_runs:
  assumes "engine_ok e" and s: "s = snapshot_of (cx_evaluated_at cx) e"
  shows "if permitted lib s SCREENSHOT cx \<and> is_authorization_current old (Some (cx_capture_generation cx)) s
    then boundary_persist lib cx old action (e, w) = (fst (action w), s, snd (action w))
    else \<exists>msg. boundary_persist lib cx old action (e, w) = (Inl (PermissionError msg), s, w)"
  using evaluate_allowed [of lib s SCREENSHOT POST_CAPTURE cx] allowed_certain [of lib s SCREENSHOT POST_CAPTURE cx]
  by (auto simp: boundary_persist_def guard_invoke_def in_engine_def in_world_def comp_defs
      evaluate_eq [OF assms(1)] s require_allowed_def ensure_def split: prod.split)

lemma boundary_downstream_runs:
  assumes "engine_ok e" and s: "s = snapshot_of (cx_evaluated_at cx) e"
  shows "if op \<in> {SCREENSHOT, METADATA}
    then \<exists>msg. boundary_downstream lib op cx action (e, w) = (Inl (ValueError msg), e, w)
    else if permitted lib s op cx
    then boundary_downstream lib op cx action (e, w) = (fst (action w), s, snd (action w))
    else \<exists>msg. boundary_downstream lib op cx action (e, w) = (Inl (PermissionError msg), s, w)"
proof (cases "permitted lib s op cx")
  case True
  with authorize_eq(1) [OF assms True, of DOWNSTREAM] fresh_authorization_current [OF True, of DOWNSTREAM]
  show ?thesis
    by (auto simp: boundary_downstream_def guard_invoke_def in_engine_def in_world_def comp_defs split: prod.split)
next
  case False
  with authorize_eq(2) [OF assms False, of DOWNSTREAM] show ?thesis
    by (auto simp: boundary_downstream_def in_engine_def comp_defs)
qed

text \<open>
  C20. The enforcement boundary runs an action only when it is permitted. At every reachable state,
  a capture and a downstream action are run, and their result returned, exactly when the operation
  is permitted by the policy as it is at that moment; persisting runs the action exactly when the
  capture is still permitted and the authorization of the capture is still current; in every other
  case the action is not run and an error is raised.
\<close>

theorem boundary_runs_permitted_actions:
  fixes action :: "('w, 'a) comp"
  assumes "run (policy_step lib dump) None (Some e)"
  shows "let s = snapshot_of (cx_evaluated_at cx) e; g = cx_capture_generation cx in
    (if permitted lib s SCREENSHOT cx
     then \<exists>a. boundary_capture lib cx action (e, w) =
       (case action w of (Inl x, v) \<Rightarrow> (Inl x, s, v) | (Inr r, v) \<Rightarrow> (Inr (a, r), s, v))
     else \<exists>msg. boundary_capture lib cx action (e, w) = (Inl (PermissionError msg), s, w)) \<and>
    (if permitted lib s SCREENSHOT cx \<and> is_authorization_current old (Some g) s
     then boundary_persist lib cx old action (e, w) = (fst (action w), s, snd (action w))
     else \<exists>msg. boundary_persist lib cx old action (e, w) = (Inl (PermissionError msg), s, w)) \<and>
    (if op \<in> {SCREENSHOT, METADATA}
     then \<exists>msg. boundary_downstream lib op cx action (e, w) = (Inl (ValueError msg), e, w)
     else if permitted lib s op cx
     then boundary_downstream lib op cx action (e, w) = (fst (action w), s, snd (action w))
     else \<exists>msg. boundary_downstream lib op cx action (e, w) = (Inl (PermissionError msg), s, w))"
  unfolding Let_def
  using boundary_capture_runs [OF reachable_engine_ok [OF assms] refl, of lib cx action w]
    boundary_persist_runs [OF reachable_engine_ok [OF assms] refl, of lib cx old action w]
    boundary_downstream_runs [OF reachable_engine_ok [OF assms] refl, of op lib cx action w]
  by (intro conjI)

theorem boundary_runs_permitted_actions_witness:
  "\<exists>msg. boundary_capture sample_lib (editor_context ''home'') (modifies Suc) (work_engine, 0) =
    (Inl (PermissionError msg), work_engine, 0)"
proof -
  have "snapshot_of (cx_evaluated_at (editor_context ''home'')) work_engine = work_engine"
    using work_engine_permits(1) by (simp add: editor_context_def)
  with boundary_runs_permitted_actions [OF work_engine_reachable, of "editor_context ''home''" "modifies Suc" 0]
  show ?thesis using work_engine_permits(3) by (auto simp: Let_def)
qed



text \<open>
  A temporary marker takes effect at once and for its whole life. After a window or workspace
  is marked, with a lifetime between a second and a day, every operation in that window or workspace
  and capture generation that is evaluated before the marker expires is denied, and no marker of the
  other scope is lost.
\<close>

theorem marker_denies_until_expiry:
  assumes "mark_current_sensitive scope cx ttl e = (Inr (), f)"
    and "sensitive_scope_value scope (cx_metadata later) = sensitive_scope_value scope (cx_metadata cx)"
    and "cx_capture_generation later = cx_capture_generation cx"
    and "instant (cx_evaluated_at later) < instant (cx_evaluated_at cx) + py_round (ttl * 1000000)"
  shows "\<not> pd_allowed (evaluate_snapshot lib (snapshot_of (cx_evaluated_at later) f) op phase later) \<and>
    1000000 \<le> py_round (ttl * 1000000) \<and> py_round (ttl * 1000000) \<le> 86400000000 \<and>
    filter (\<lambda>k. mk_scope k \<noteq> scope) (en_temporary f) = filter (\<lambda>k. mk_scope k \<noteq> scope) (en_temporary e)"
proof -
  obtain v where v: "sensitive_scope_value scope (cx_metadata cx) = Some v" and ttl: "1 \<le> ttl" "ttl \<le> 86400"
    and f: "f = bump (e\<lparr>en_temporary := filter (\<lambda>k. mk_scope k \<noteq> scope) (en_temporary e) @
        [\<lparr>mk_scope = scope, mk_value = v,
          mk_expires_at = Aware (instant (cx_evaluated_at cx) + py_round (ttl * 1000000)),
          mk_capture_generation = cx_capture_generation cx\<rparr>]\<rparr>)"
    using assms(1) by (auto simp: mark_current_sensitive_def comp_defs split: option.splits if_splits)
  define k where "k = \<lparr>mk_scope = scope, mk_value = v,
      mk_expires_at = Aware (instant (cx_evaluated_at cx) + py_round (ttl * 1000000)),
      mk_capture_generation = cx_capture_generation cx\<rparr>"
  have "k \<in> set (en_temporary (snapshot_of (cx_evaluated_at later) f))"
    using assms(4) by (simp add: snapshot_of_def Let_def f bump_def k_def)
  moreover have "marker_applies later k"
    using assms(2,3) v by (simp add: marker_applies_def k_def)
  ultimately have "\<not> permitted lib (snapshot_of (cx_evaluated_at later) f) op later"
    by (auto simp: permitted_def)
  moreover have "1000000 \<le> py_round (ttl * 1000000)" "py_round (ttl * 1000000) \<le> 86400000000"
    using py_round_bounds [of "ttl * 1000000"] ttl by linarith+
  ultimately show ?thesis by (simp add: evaluate_allowed f bump_def)
qed

theorem marker_denies_until_expiry_witness:
  "\<exists>f. mark_current_sensitive WORKSPACE (editor_context ''code'') 60 work_engine = (Inr (), f) \<and>
    \<not> pd_allowed (evaluate_snapshot sample_lib (snapshot_of (Aware 2000000) f) OCR DOWNSTREAM (editor_context ''code''))"
proof -
  obtain f where f: "mark_current_sensitive WORKSPACE (editor_context ''code'') 60 work_engine = (Inr (), f)"
    by (simp add: mark_current_sensitive_def comp_defs sensitive_scope_value_def scalar_field_def field_of_def
        editor_context_def seen_field_def)
  have "py_round (60 * 1000000) = 60000000" by code_simp
  then have "instant (cx_evaluated_at (editor_context ''code'')) <
      instant (cx_evaluated_at (editor_context ''code'')) + py_round (60 * 1000000)" by simp
  from marker_denies_until_expiry [OF f refl refl this] f show ?thesis
    by (auto simp: editor_context_def)
qed

text \<open>
  Subdomain matching is by labels. With subdomains included, a rule matches exactly the domains
  whose list of labels ends with the labels of the rule's domain; a domain that merely ends with the
  same characters does not match.
\<close>

theorem subdomain_matching_by_labels:
  "domain_matches subdomains domain expected =
    (if subdomains then suffix (split_on CHR ''.'' expected) (split_on CHR ''.'' domain) else domain = expected)"
  using endswith_label [of domain expected] by (auto simp: domain_matches_def)

section \<open>The guard under interleaving\<close>

text \<open>
  The guard tests the authorization and then runs the action; the engine's lock is not held in
  between, so another thread's call can come between the two.
\<close>

datatype guard_pc = Testing | Running | Refused | Acted engine

inductive guard_step ::
    "pylib \<Rightarrow> (capture_rule \<Rightarrow> string list) \<Rightarrow> policy_authorization \<Rightarrow> capture_generation \<Rightarrow>
     engine \<times> guard_pc \<Rightarrow> engine \<times> guard_pc \<Rightarrow> bool" for lib dump a gen where
  test: "guard_step lib dump a gen (e, Testing) (e, if is_authorization_current a (Some gen) e then Running else Refused)"
| act: "guard_step lib dump a gen (e, Running) (e, Acted e)"
| interfere: "policy_step lib dump (Some e) (Some f) \<Longrightarrow> guard_step lib dump a gen (e, pc) (f, pc)"

text \<open>
  The guard does not hold the authorization while the action runs: for every authorization that
  is current when the guard tests it there is an interleaving in which the session has been locked,
  and the authorization has become stale, by the time the action is run.
\<close>

theorem guard_action_after_lock:
  assumes "is_authorization_current a (Some gen) e"
  shows "\<exists>f. run (guard_step lib dump a gen) (e, Testing) (f, Acted f) \<and> en_session_locked f \<and>
    \<not> is_authorization_current a (Some gen) f"
proof -
  let ?f = "engine_set_session_locked True e"
  have "guard_step lib dump a gen (e, Testing) (e, Running)"
    using guard_step.test [of lib dump a gen e] assms by simp
  moreover have "guard_step lib dump a gen (e, Running) (?f, Running)"
    by (intro guard_step.interfere policy_step.lock)
  moreover have "guard_step lib dump a gen (?f, Running) (?f, Acted ?f)" by (rule guard_step.act)
  ultimately have "run (guard_step lib dump a gen) (e, Testing) (?f, Acted ?f)"
    by (meson run_refl run_step)
  moreover have "en_session_locked ?f" by (simp add: engine_set_session_locked_def Let_def bump_def)
  ultimately show ?thesis by (auto simp: is_authorization_current_def)
qed

theorem guard_action_after_lock_witness:
  "\<exists>a f. run (guard_step sample_lib (\<lambda>_. []) a (CaptureGeneration 1)) (work_engine, Testing) (f, Acted f) \<and>
    en_session_locked f"
proof -
  have "is_authorization_current \<lparr>au_operation = SCREENSHOT, au_phase = PRE_CAPTURE, au_revision = en_revision work_engine,
    au_generation = en_generation work_engine, au_capture_generation = CaptureGeneration 1\<rparr>
    (Some (CaptureGeneration 1)) work_engine" by code_simp
  from guard_action_after_lock [OF this, of sample_lib "\<lambda>_. []"] show ?thesis by blast
qed

end
