(* ===== verification/Blob_Codec.thy ===== *)
theory Blob_Codec
  imports Pipeline_Framing Recall_Text
begin

text \<open>
  The blob format of \<^verbatim>\<open>src/local_recall/storage/codec.py\<close>: an encrypted record envelope
  (\<^verbatim>\<open>domain/crypto.py\<close>) as a fixed binary prefix, a JSON header and four binary parts. The JSON
  text, the ISO time format and the textual form of identifiers are written and read by Python's
  library: the fields of \<open>blob_lib\<close>. Identifiers are 128-bit words.
\<close>

section \<open>Envelopes\<close>

type_synonym record_uuid = "128 word"

record key_handle =
  kh_key_id :: string
  kh_provider_id :: string
  kh_version :: int

definition key_handle_ok :: "key_handle \<Rightarrow> bool" where
  "key_handle_ok k \<longleftrightarrow> nonempty (kh_key_id k) \<and> nonempty (kh_provider_id k) \<and> 0 < kh_version k"

record envelope =
  ev_record_id :: record_uuid
  ev_generation :: capture_generation
  ev_revision :: string
  ev_schema_version :: int
  ev_algorithm :: string
  ev_key :: key_handle
  ev_frame_sizes :: "int list"
  ev_wrapped_key :: "byte list"
  ev_nonce :: "byte list"
  ev_ciphertext :: "byte list"
  ev_digest :: "byte list"
  ev_created_at :: datetime

text \<open>The checks of the constructors of the envelope, its key handle and its generation.\<close>

definition envelope_ok :: "envelope \<Rightarrow> bool" where
  "envelope_ok e \<longleftrightarrow> nonempty (ev_revision e) \<and> 0 < ev_schema_version e \<and> nonempty (ev_algorithm e) \<and>
    ev_frame_sizes e \<noteq> [] \<and> (\<forall>s \<in> set (ev_frame_sizes e). 0 < s) \<and> ev_wrapped_key e \<noteq> [] \<and> ev_nonce e \<noteq> [] \<and>
    ev_ciphertext e \<noteq> [] \<and> ev_digest e \<noteq> [] \<and> is_aware (ev_created_at e) \<and> key_handle_ok (ev_key e) \<and>
    0 < gen_value (ev_generation e)"

definition mk_envelope :: "envelope \<Rightarrow> exn + envelope" where
  "mk_envelope e = bindS (ensure (envelope_ok e) (ValueError ''envelope'')) (\<lambda>_. Inr e)"

definition uuid_is_v4 :: "record_uuid \<Rightarrow> bool" where
  "uuid_is_v4 u \<longleftrightarrow> uint (drop_bit 62 u) mod 4 = 2 \<and> uint (drop_bit 76 u) mod 16 = 4"

definition validate_uuid :: "record_uuid \<Rightarrow> exn + unit" where
  "validate_uuid u = ensure (uuid_is_v4 u) (StorageError ''invalid_record_id'')"

section \<open>Binary framing\<close>

text \<open>Unsigned big-endian integers, as the \<open>struct\<close> formats write them.\<close>

fun be_bytes :: "nat \<Rightarrow> nat \<Rightarrow> byte list" where
  "be_bytes 0 v = []"
| "be_bytes (Suc n) v = be_bytes n (v div 256) @ [of_nat (v mod 256)]"

definition be_value :: "byte list \<Rightarrow> nat" where
  "be_value bs = foldl (\<lambda>a b. 256 * a + unat b) 0 bs"

definition cut :: "nat \<Rightarrow> nat \<Rightarrow> 'a list \<Rightarrow> 'a list" where
  "cut start n xs = take n (drop start xs)"

definition MAGIC :: "byte list" where
  "MAGIC = map (\<lambda>c. of_nat (char_code c)) ''LRBLOB01''"

definition FORMAT_VERSION :: nat where
  "FORMAT_VERSION = 1"

definition MAX_HEADER_BYTES :: nat where
  "MAX_HEADER_BYTES = 64 * 1024"

definition MAX_BINARY_PART :: nat where
  "MAX_BINARY_PART = 512 * 1024 * 1024"

definition pack_prefix :: "nat \<Rightarrow> byte list" where
  "pack_prefix header_len = MAGIC @ be_bytes 2 FORMAT_VERSION @ be_bytes 4 header_len"

definition pack_lengths :: "nat \<Rightarrow> nat \<Rightarrow> nat \<Rightarrow> nat \<Rightarrow> byte list" where
  "pack_lengths a b c d = be_bytes 4 a @ be_bytes 4 b @ be_bytes 8 c @ be_bytes 4 d"

definition unpack_prefix :: "byte list \<Rightarrow> byte list \<times> nat \<times> nat" where
  "unpack_prefix data = (take 8 data, be_value (cut 8 2 data), be_value (cut 10 4 data))"

definition unpack_lengths :: "byte list \<Rightarrow> nat list" where
  "unpack_lengths data = [be_value (cut 14 4 data), be_value (cut 18 4 data), be_value (cut 22 8 data),
     be_value (cut 30 4 data)]"

section \<open>The header\<close>

record blob_lib =
  bl_dumps :: "json \<Rightarrow> byte list"
  bl_loads :: "byte list \<Rightarrow> json option"
  bl_iso :: "datetime \<Rightarrow> string"
  bl_from_iso :: "string \<Rightarrow> datetime option"
  bl_uuid_str :: "record_uuid \<Rightarrow> string"
  bl_uuid :: "string \<Rightarrow> record_uuid option"
  bl_sha256 :: "byte list \<Rightarrow> byte list"

definition blob_header :: "blob_lib \<Rightarrow> envelope \<Rightarrow> json" where
  "blob_header lib e = JObj
    [(''algorithm'', JStr (ev_algorithm e)),
     (''configuration_revision'', JStr (ev_revision e)),
     (''created_at'', JStr (bl_iso lib (ev_created_at e))),
     (''generation'', JInt (gen_value (ev_generation e))),
     (''key_id'', JStr (kh_key_id (ev_key e))),
     (''key_provider_id'', JStr (kh_provider_id (ev_key e))),
     (''key_version'', JInt (kh_version (ev_key e))),
     (''plaintext_frame_sizes'', JArr (map JInt (ev_frame_sizes e))),
     (''record_id'', JStr (bl_uuid_str lib (ev_record_id e))),
     (''schema_version'', JInt (ev_schema_version e))]"

definition REQUIRED_KEYS :: "string list" where
  "REQUIRED_KEYS = [''record_id'', ''generation'', ''configuration_revision'', ''schema_version'', ''algorithm'',
     ''key_id'', ''key_provider_id'', ''key_version'', ''plaintext_frame_sizes'', ''created_at'']"

text \<open>
  What the code relies on: the JSON text of a header is not empty and reads back as the header, an
  aware time and an identifier are read back from their text, a digest has 32 bytes.
\<close>

definition blob_lib_ok :: "blob_lib \<Rightarrow> bool" where
  "blob_lib_ok lib \<longleftrightarrow>
    (\<forall>e. bl_dumps lib (blob_header lib e) \<noteq> [] \<and>
      bl_loads lib (bl_dumps lib (blob_header lib e)) = Some (blob_header lib e)) \<and>
    (\<forall>t. is_aware t \<longrightarrow> bl_from_iso lib (bl_iso lib t) = Some t) \<and>
    (\<forall>u. bl_uuid lib (bl_uuid_str lib u) = Some u) \<and>
    (\<forall>bs. length (bl_sha256 lib bs) = 32)"

definition envelope_parts :: "envelope \<Rightarrow> byte list list" where
  "envelope_parts e = [ev_wrapped_key e, ev_nonce e, ev_ciphertext e, ev_digest e]"

definition encode_envelope :: "blob_lib \<Rightarrow> envelope \<Rightarrow> exn + byte list" where
  "encode_envelope lib e =
    bindS (validate_uuid (ev_record_id e)) (\<lambda>_.
    let header = bl_dumps lib (blob_header lib e) in
    bindS (ensure (length header \<le> MAX_HEADER_BYTES) (StorageError ''blob_too_large'')) (\<lambda>_.
    bindS (ensure (\<forall>p \<in> set (envelope_parts e). p \<noteq> [] \<and> length p \<le> MAX_BINARY_PART)
      (StorageError ''blob_too_large'')) (\<lambda>_.
    Inr (pack_prefix (length header) @
      pack_lengths (length (ev_wrapped_key e)) (length (ev_nonce e)) (length (ev_ciphertext e)) (length (ev_digest e)) @
      header @ concat (envelope_parts e)))))"

definition str_at :: "(string \<times> json) list \<Rightarrow> string \<Rightarrow> string option" where
  "str_at raw k = (case map_of raw k of Some (JStr s) \<Rightarrow> Some s | _ \<Rightarrow> None)"

definition int_at :: "(string \<times> json) list \<Rightarrow> string \<Rightarrow> int option" where
  "int_at raw k = (case map_of raw k of Some (JInt i) \<Rightarrow> Some i | _ \<Rightarrow> None)"

fun json_int :: "json \<Rightarrow> int option" where
  "json_int (JInt i) = Some i"
| "json_int _ = None"

definition ints_at :: "(string \<times> json) list \<Rightarrow> string \<Rightarrow> int list option" where
  "ints_at raw k = (case map_of raw k of
     Some (JArr js) \<Rightarrow> if \<forall>j \<in> set js. json_int j \<noteq> None then Some (map (the \<circ> json_int) js) else None | _ \<Rightarrow> None)"

record parsed_header =
  ph_record_id :: record_uuid
  ph_generation :: int
  ph_schema_version :: int
  ph_key_version :: int
  ph_sizes :: "int list"
  ph_created_at :: datetime
  ph_revision :: string
  ph_algorithm :: string
  ph_key_id :: string
  ph_provider :: string

definition parsed_header_ok :: "parsed_header \<Rightarrow> bool" where
  "parsed_header_ok h \<longleftrightarrow> 0 < ph_generation h \<and> 0 < ph_schema_version h \<and> 0 < ph_key_version h \<and>
    is_aware (ph_created_at h) \<and> ph_sizes h \<noteq> [] \<and> (\<forall>s \<in> set (ph_sizes h). 0 < s) \<and> ph_revision h \<noteq> [] \<and>
    ph_algorithm h \<noteq> [] \<and> ph_key_id h \<noteq> [] \<and> ph_provider h \<noteq> []"

definition header_fields :: "blob_lib \<Rightarrow> (string \<times> json) list \<Rightarrow> parsed_header option" where
  "header_fields lib raw =
    Option.bind (Option.bind (str_at raw ''record_id'') (bl_uuid lib)) (\<lambda>rid.
    Option.bind (int_at raw ''generation'') (\<lambda>gen.
    Option.bind (int_at raw ''schema_version'') (\<lambda>sv.
    Option.bind (int_at raw ''key_version'') (\<lambda>kv.
    Option.bind (ints_at raw ''plaintext_frame_sizes'') (\<lambda>sizes.
    Option.bind (Option.bind (str_at raw ''created_at'') (bl_from_iso lib)) (\<lambda>created.
    Option.bind (str_at raw ''configuration_revision'') (\<lambda>revision.
    Option.bind (str_at raw ''algorithm'') (\<lambda>algorithm.
    Option.bind (str_at raw ''key_id'') (\<lambda>key.
    Option.bind (str_at raw ''key_provider_id'') (\<lambda>provider.
    Some \<lparr>ph_record_id = rid, ph_generation = gen, ph_schema_version = sv, ph_key_version = kv, ph_sizes = sizes,
      ph_created_at = created, ph_revision = revision, ph_algorithm = algorithm, ph_key_id = key,
      ph_provider = provider\<rparr>))))))))))"

text \<open>
  The identifier is read first: a value that is no text raises an error the decoder does not
  handle, a text that is no identifier is corruption, another version is an invalid identifier.
\<close>

definition parse_blob_header :: "blob_lib \<Rightarrow> byte list \<Rightarrow> exn + parsed_header" where
  "parse_blob_header lib text = (case bl_loads lib text of
     Some (JObj raw) \<Rightarrow>
       if set (map fst raw) \<noteq> set REQUIRED_KEYS then Inl (StorageError ''corruption'')
       else (case str_at raw ''record_id'' of
         None \<Rightarrow> Inl (RuntimeError ''AttributeError'')
       | Some s \<Rightarrow> (case bl_uuid lib s of
           None \<Rightarrow> Inl (StorageError ''corruption'')
         | Some rid \<Rightarrow> bindS (validate_uuid rid) (\<lambda>_.
             (case header_fields lib raw of
                None \<Rightarrow> Inl (StorageError ''corruption'')
              | Some h \<Rightarrow> bindS (ensure (parsed_header_ok h) (StorageError ''corruption'')) (\<lambda>_. Inr h)))))
   | _ \<Rightarrow> Inl (StorageError ''corruption''))"

definition decode_envelope :: "blob_lib \<Rightarrow> nat \<Rightarrow> byte list \<Rightarrow> exn + envelope" where
  "decode_envelope lib max_blob_bytes data =
    bindS (ensure (\<not> (data = [] \<or> max_blob_bytes < length data \<or> length data < 34)) (StorageError ''corruption'')) (\<lambda>_.
    case unpack_prefix data of (magic, version, header_len) \<Rightarrow>
    bindS (ensure (\<not> (magic \<noteq> MAGIC \<or> version \<noteq> FORMAT_VERSION \<or> \<not> (1 \<le> header_len \<and> header_len \<le> MAX_HEADER_BYTES)))
      (StorageError ''corruption'')) (\<lambda>_.
    let lengths = unpack_lengths data in
    bindS (ensure (\<forall>n \<in> set lengths. 0 < n \<and> n \<le> MAX_BINARY_PART) (StorageError ''corruption'')) (\<lambda>_.
    bindS (ensure (34 + header_len + sum_list lengths = length data) (StorageError ''corruption'')) (\<lambda>_.
    bindS (parse_blob_header lib (cut 34 header_len data)) (\<lambda>h.
    let cursor = 34 + header_len in
    mk_envelope \<lparr>ev_record_id = ph_record_id h, ev_generation = CaptureGeneration (ph_generation h),
      ev_revision = ph_revision h, ev_schema_version = ph_schema_version h, ev_algorithm = ph_algorithm h,
      ev_key = \<lparr>kh_key_id = ph_key_id h, kh_provider_id = ph_provider h, kh_version = ph_key_version h\<rparr>,
      ev_frame_sizes = ph_sizes h,
      ev_wrapped_key = cut cursor (lengths ! 0) data,
      ev_nonce = cut (cursor + lengths ! 0) (lengths ! 1) data,
      ev_ciphertext = cut (cursor + lengths ! 0 + lengths ! 1) (lengths ! 2) data,
      ev_digest = cut (cursor + lengths ! 0 + lengths ! 1 + lengths ! 2) (lengths ! 3) data,
      ev_created_at = ph_created_at h\<rparr>)))))"

section \<open>Framing lemmas\<close>

lemma length_be_bytes [simp]: "length (be_bytes n v) = n"
  by (induction n arbitrary: v) auto

lemma be_value_append: "be_value (xs @ [b]) = 256 * be_value xs + unat b"
  by (simp add: be_value_def)

lemma unat_byte: "n < 256 \<Longrightarrow> unat (of_nat n :: byte) = n"
  by (simp add: unat_of_nat)

lemma be_value_bytes: "be_value (be_bytes n v) = v mod 256 ^ n"
proof (induction n arbitrary: v)
  case 0
  then show ?case by (simp add: be_value_def)
next
  case (Suc n)
  have "v mod 256 ^ Suc n = 256 * (v div 256 mod 256 ^ n) + v mod 256"
    by (simp add: mod_mult2_eq)
  with Suc show ?case by (simp add: be_value_append unat_byte)
qed

lemma cut_mid: "length xs = i \<Longrightarrow> length ys = n \<Longrightarrow> cut i n (xs @ ys @ zs) = ys"
  by (simp add: cut_def)

lemma length_pack [simp]:
  "length MAGIC = 8" "length (pack_prefix n) = 14" "length (pack_lengths a b c d) = 20"
  by (simp_all add: MAGIC_def pack_prefix_def pack_lengths_def)

lemma unpack_prefix_pack:
  "unpack_prefix (pack_prefix n @ rest) = (MAGIC, 1, n mod 256 ^ 4)"
proof -
  have "cut 8 2 (MAGIC @ be_bytes 2 1 @ be_bytes 4 n @ rest) = be_bytes 2 1"
    by (rule cut_mid) simp_all
  moreover have "cut 10 4 ((MAGIC @ be_bytes 2 1) @ be_bytes 4 n @ rest) = be_bytes 4 n"
    by (rule cut_mid) simp_all
  moreover have "take 8 (MAGIC @ be_bytes 2 1 @ be_bytes 4 n @ rest) = MAGIC" by simp
  ultimately show ?thesis
    by (simp add: unpack_prefix_def pack_prefix_def FORMAT_VERSION_def be_value_bytes del: be_bytes.simps)
qed

lemma unpack_lengths_pack:
  assumes "length p = 14"
  shows "unpack_lengths (p @ pack_lengths a b c d @ rest) =
    [a mod 256 ^ 4, b mod 256 ^ 4, c mod 256 ^ 8, d mod 256 ^ 4]"
proof -
  have "cut 14 4 (p @ be_bytes 4 a @ be_bytes 4 b @ be_bytes 8 c @ be_bytes 4 d @ rest) = be_bytes 4 a"
    using assms by (intro cut_mid) simp_all
  moreover have "cut 18 4 ((p @ be_bytes 4 a) @ be_bytes 4 b @ be_bytes 8 c @ be_bytes 4 d @ rest) = be_bytes 4 b"
    using assms by (intro cut_mid) simp_all
  moreover have "cut 22 8 ((p @ be_bytes 4 a @ be_bytes 4 b) @ be_bytes 8 c @ be_bytes 4 d @ rest) = be_bytes 8 c"
    using assms by (intro cut_mid) simp_all
  moreover have "cut 30 4 ((p @ be_bytes 4 a @ be_bytes 4 b @ be_bytes 8 c) @ be_bytes 4 d @ rest) = be_bytes 4 d"
    using assms by (intro cut_mid) simp_all
  ultimately show ?thesis
    by (simp add: unpack_lengths_def pack_lengths_def be_value_bytes del: be_bytes.simps)
qed

section \<open>Round trip\<close>

lemma blob_header_at:
  "str_at [(''algorithm'', j1), (''configuration_revision'', j2), (''created_at'', j3), (''generation'', j4),
     (''key_id'', j5), (''key_provider_id'', j6), (''key_version'', j7), (''plaintext_frame_sizes'', j8),
     (''record_id'', j9), (''schema_version'', j10)] ''record_id'' = (case j9 of JStr s \<Rightarrow> Some s | _ \<Rightarrow> None)"
  by (simp add: str_at_def)

lemma header_fields_blob:
  assumes "blob_lib_ok lib" and "is_aware (ev_created_at e)" and "blob_header lib e = JObj raw"
  shows "header_fields lib raw = Some \<lparr>ph_record_id = ev_record_id e, ph_generation = gen_value (ev_generation e),
      ph_schema_version = ev_schema_version e, ph_key_version = kh_version (ev_key e), ph_sizes = ev_frame_sizes e,
      ph_created_at = ev_created_at e, ph_revision = ev_revision e, ph_algorithm = ev_algorithm e,
      ph_key_id = kh_key_id (ev_key e), ph_provider = kh_provider_id (ev_key e)\<rparr>"
    and "set (map fst raw) = set REQUIRED_KEYS"
    and "str_at raw ''record_id'' = Some (bl_uuid_str lib (ev_record_id e))"
proof -
  have raw: "raw = [(''algorithm'', JStr (ev_algorithm e)),
     (''configuration_revision'', JStr (ev_revision e)),
     (''created_at'', JStr (bl_iso lib (ev_created_at e))),
     (''generation'', JInt (gen_value (ev_generation e))),
     (''key_id'', JStr (kh_key_id (ev_key e))),
     (''key_provider_id'', JStr (kh_provider_id (ev_key e))),
     (''key_version'', JInt (kh_version (ev_key e))),
     (''plaintext_frame_sizes'', JArr (map JInt (ev_frame_sizes e))),
     (''record_id'', JStr (bl_uuid_str lib (ev_record_id e))),
     (''schema_version'', JInt (ev_schema_version e))]"
    using assms(3) by (simp add: blob_header_def)
  have lib: "bl_uuid lib (bl_uuid_str lib (ev_record_id e)) = Some (ev_record_id e)"
    "bl_from_iso lib (bl_iso lib (ev_created_at e)) = Some (ev_created_at e)"
    using assms(1,2) by (simp_all add: blob_lib_ok_def)
  have ints: "ints_at raw ''plaintext_frame_sizes'' = Some (ev_frame_sizes e)"
    by (simp add: ints_at_def raw o_def)
  show "header_fields lib raw = Some \<lparr>ph_record_id = ev_record_id e, ph_generation = gen_value (ev_generation e),
      ph_schema_version = ev_schema_version e, ph_key_version = kh_version (ev_key e), ph_sizes = ev_frame_sizes e,
      ph_created_at = ev_created_at e, ph_revision = ev_revision e, ph_algorithm = ev_algorithm e,
      ph_key_id = kh_key_id (ev_key e), ph_provider = kh_provider_id (ev_key e)\<rparr>"
    unfolding header_fields_def ints by (simp add: str_at_def int_at_def raw lib)
  show "set (map fst raw) = set REQUIRED_KEYS" by (auto simp: raw REQUIRED_KEYS_def)
  show "str_at raw ''record_id'' = Some (bl_uuid_str lib (ev_record_id e))" by (simp add: str_at_def raw)
qed

lemma parsed_blob_header:
  assumes "blob_lib_ok lib" and "envelope_ok e" and "uuid_is_v4 (ev_record_id e)"
  shows "parse_blob_header lib (bl_dumps lib (blob_header lib e)) = Inr \<lparr>ph_record_id = ev_record_id e,
    ph_generation = gen_value (ev_generation e), ph_schema_version = ev_schema_version e,
    ph_key_version = kh_version (ev_key e), ph_sizes = ev_frame_sizes e, ph_created_at = ev_created_at e,
    ph_revision = ev_revision e, ph_algorithm = ev_algorithm e, ph_key_id = kh_key_id (ev_key e),
    ph_provider = kh_provider_id (ev_key e)\<rparr>"
proof -
  obtain raw where raw: "blob_header lib e = JObj raw" by (simp add: blob_header_def)
  have aware: "is_aware (ev_created_at e)" using assms(2) by (simp add: envelope_ok_def)
  note fields = header_fields_blob [OF assms(1) aware raw]
  have "bl_loads lib (bl_dumps lib (blob_header lib e)) = Some (blob_header lib e)"
    "bl_uuid lib (bl_uuid_str lib (ev_record_id e)) = Some (ev_record_id e)"
    using assms(1) by (simp_all add: blob_lib_ok_def)
  then have "bl_loads lib (bl_dumps lib (blob_header lib e)) = Some (JObj raw)"
    "bl_uuid lib (bl_uuid_str lib (ev_record_id e)) = Some (ev_record_id e)"
    using raw by simp_all
  with fields assms(2,3) show ?thesis
    by (auto simp: parse_blob_header_def validate_uuid_def parsed_header_ok_def envelope_ok_def key_handle_ok_def
        nonempty_def)
qed

lemma encoded_shape:
  assumes "encode_envelope lib e = Inr data"
  defines "header \<equiv> bl_dumps lib (blob_header lib e)"
  shows "data = pack_prefix (length header) @
      pack_lengths (length (ev_wrapped_key e)) (length (ev_nonce e)) (length (ev_ciphertext e)) (length (ev_digest e)) @
      header @ ev_wrapped_key e @ ev_nonce e @ ev_ciphertext e @ ev_digest e"
    and "uuid_is_v4 (ev_record_id e)" and "length header \<le> MAX_HEADER_BYTES"
    and "\<forall>p \<in> set (envelope_parts e). p \<noteq> [] \<and> length p \<le> MAX_BINARY_PART"
  using assms by (auto simp: encode_envelope_def bindS_Inr ensure_Inr validate_uuid_def Let_def envelope_parts_def)

lemma envelope_decoded:
  assumes lib: "blob_lib_ok lib" and ok: "envelope_ok e" and enc: "encode_envelope lib e = Inr data"
    and max: "length data \<le> max_blob_bytes"
  shows "decode_envelope lib max_blob_bytes data = Inr e"
proof -
  define header where "header = bl_dumps lib (blob_header lib e)"
  define p where "p = pack_prefix (length header)"
  define l where "l = pack_lengths (length (ev_wrapped_key e)) (length (ev_nonce e)) (length (ev_ciphertext e)) (length (ev_digest e))"
  note shape = encoded_shape [OF enc, folded header_def]
  have data: "data = p @ l @ header @ ev_wrapped_key e @ ev_nonce e @ ev_ciphertext e @ ev_digest e"
    using shape(1) by (simp add: p_def l_def)
  have len: "length p = 14" "length l = 20" by (simp_all add: p_def l_def)
  have small: "length header \<le> 65536" "length (ev_wrapped_key e) \<le> 536870912" "length (ev_nonce e) \<le> 536870912"
    "length (ev_ciphertext e) \<le> 536870912" "length (ev_digest e) \<le> 536870912"
    using shape(3,4) by (simp_all add: MAX_HEADER_BYTES_def MAX_BINARY_PART_def envelope_parts_def)
  have prefix: "unpack_prefix data = (MAGIC, 1, length header)"
    unfolding data p_def unpack_prefix_pack using small(1) by simp
  have lengths: "unpack_lengths data = map length (envelope_parts e)"
    unfolding data l_def unpack_lengths_pack [OF len(1)] using small by (simp add: envelope_parts_def)
  have head: "cut 34 (length header) data = header"
    using cut_mid [of "p @ l" 34 header "length header"] len by (simp add: data)
  have w: "cut (34 + length header) (length (ev_wrapped_key e)) data = ev_wrapped_key e"
    using cut_mid [of "p @ l @ header" "34 + length header" "ev_wrapped_key e"] len by (simp add: data)
  have n: "cut (34 + length header + length (ev_wrapped_key e)) (length (ev_nonce e)) data = ev_nonce e"
    using cut_mid [of "p @ l @ header @ ev_wrapped_key e" "34 + length header + length (ev_wrapped_key e)" "ev_nonce e"]
      len by (simp add: data)
  have c: "cut (34 + length header + length (ev_wrapped_key e) + length (ev_nonce e)) (length (ev_ciphertext e)) data = ev_ciphertext e"
    using cut_mid [of "p @ l @ header @ ev_wrapped_key e @ ev_nonce e"
        "34 + length header + length (ev_wrapped_key e) + length (ev_nonce e)" "ev_ciphertext e"] len
    by (simp add: data)
  have d: "cut (34 + length header + length (ev_wrapped_key e) + length (ev_nonce e) + length (ev_ciphertext e))
      (length (ev_digest e)) data = ev_digest e"
    using cut_mid [of "p @ l @ header @ ev_wrapped_key e @ ev_nonce e @ ev_ciphertext e"
        "34 + length header + length (ev_wrapped_key e) + length (ev_nonce e) + length (ev_ciphertext e)" "ev_digest e" _ "[]"] len
    by (simp add: data)
  have header: "header \<noteq> []" using lib by (simp add: blob_lib_ok_def header_def)
  have total: "length data = 34 + length header + sum_list (map length (envelope_parts e))"
    using len by (simp add: data envelope_parts_def)
  have parts: "\<forall>n \<in> set (map length (envelope_parts e)). 0 < n \<and> n \<le> MAX_BINARY_PART" using shape(4) by auto
  have hd: "1 \<le> length header \<and> length header \<le> MAX_HEADER_BYTES" using shape(3) header by (cases header) auto
  have sane: "\<not> (data = [] \<or> max_blob_bytes < length data \<or> length data < 34)" using max total by auto
  have eta: "\<lparr>ev_record_id = ev_record_id e, ev_generation = ev_generation e, ev_revision = ev_revision e,
      ev_schema_version = ev_schema_version e, ev_algorithm = ev_algorithm e,
      ev_key = \<lparr>kh_key_id = kh_key_id (ev_key e), kh_provider_id = kh_provider_id (ev_key e),
        kh_version = kh_version (ev_key e)\<rparr>, ev_frame_sizes = ev_frame_sizes e,
      ev_wrapped_key = ev_wrapped_key e, ev_nonce = ev_nonce e, ev_ciphertext = ev_ciphertext e,
      ev_digest = ev_digest e, ev_created_at = ev_created_at e\<rparr> = e"
    by (intro envelope.equality key_handle.equality) simp_all
  have "decode_envelope lib max_blob_bytes data = mk_envelope e"
    unfolding decode_envelope_def prefix lengths Let_def
    using sane hd parts total parsed_blob_header [OF lib ok shape(2), folded header_def] w n c d
    head
    by (simp add: FORMAT_VERSION_def envelope_parts_def eta)
  then show ?thesis using ok by (simp add: mk_envelope_def)
qed

lemma decoded_length:
  "decode_envelope lib m data = Inr e \<Longrightarrow> length data = 34 + snd (snd (unpack_prefix data)) + sum_list (unpack_lengths data)"
  by (auto simp: decode_envelope_def bindS_Inr ensure_Inr Let_def split: prod.splits)

lemma unpack_take:
  assumes "34 \<le> length xs"
  shows "unpack_prefix (xs @ ys) = unpack_prefix xs" "unpack_lengths (xs @ ys) = unpack_lengths xs"
  using assms by (simp_all add: unpack_prefix_def unpack_lengths_def cut_def)

lemma decoded_prefix_free:
  assumes "decode_envelope lib m data = Inr e" and "decode_envelope lib m' (data @ extra) = Inr e'"
  shows "extra = []"
proof -
  have "34 \<le> length data" using assms(1) by (auto simp: decode_envelope_def bindS_Inr ensure_Inr)
  with decoded_length [OF assms(1)] decoded_length [OF assms(2)] show ?thesis by (simp add: unpack_take)
qed

section \<open>A concrete library\<close>

definition tally :: "nat \<Rightarrow> string" where
  "tally n = replicate n (CHR ''1'')"

definition sample_envelope :: envelope where
  "sample_envelope = \<lparr>ev_record_id = 0x4000800000000000000A, ev_generation = CaptureGeneration 3, ev_revision = ''r1'',
     ev_schema_version = 1, ev_algorithm = ''aes'', ev_key = \<lparr>kh_key_id = ''k'', kh_provider_id = ''p'', kh_version = 1\<rparr>,
     ev_frame_sizes = [5], ev_wrapped_key = [1, 2], ev_nonce = [3], ev_ciphertext = [4, 5, 6], ev_digest = [7],
     ev_created_at = Aware 1000\<rparr>"

text \<open>The header of the sample is written as one byte, every other JSON value by its number.\<close>

definition tally_lib :: "json \<Rightarrow> blob_lib" where
  "tally_lib short = \<lparr>
     bl_dumps = (\<lambda>j. if j = short then [0] else replicate (Suc (Suc (to_nat j))) 0),
     bl_loads = (\<lambda>bs. Some (if length bs = 1 then short else from_nat (length bs - 2))),
     bl_iso = (\<lambda>t. tally (to_nat (instant t))), bl_from_iso = (\<lambda>s. Some (Aware (from_nat (length s)))),
     bl_uuid_str = (\<lambda>u. tally (unat u)), bl_uuid = (\<lambda>s. Some (of_nat (length s))),
     bl_sha256 = (\<lambda>bs. replicate 32 (of_nat (be_value bs)))\<rparr>"

definition sample_blob_lib :: blob_lib where
  "sample_blob_lib = tally_lib (blob_header (tally_lib JNull) sample_envelope)"

lemma length_tally [simp]: "length (tally n) = n"
  by (simp add: tally_def)

lemma tally_lib_ok: "blob_lib_ok (tally_lib short)"
proof -
  have "is_aware t \<Longrightarrow> Aware (instant t) = t" for t by (cases t) simp_all
  then show ?thesis by (auto simp: blob_lib_ok_def tally_lib_def)
qed

lemma sample_encodes:
  assumes "bl_dumps lib (blob_header lib sample_envelope) = [0]"
  shows "\<exists>data. encode_envelope lib sample_envelope = Inr data \<and> length data = 42"
proof -
  have "uuid_is_v4 (ev_record_id sample_envelope)" by code_simp
  moreover have "\<forall>p \<in> set (envelope_parts sample_envelope). p \<noteq> [] \<and> length p \<le> MAX_BINARY_PART"
    "length (concat (envelope_parts sample_envelope)) = 7"
    by (simp_all add: envelope_parts_def sample_envelope_def MAX_BINARY_PART_def)
  ultimately show ?thesis
    using assms by (simp add: encode_envelope_def validate_uuid_def ensure_def bindS_def MAX_HEADER_BYTES_def)
qed

lemma sample_header: "bl_dumps sample_blob_lib (blob_header sample_blob_lib sample_envelope) = [0]"
proof -
  have "blob_header sample_blob_lib sample_envelope = blob_header (tally_lib JNull) sample_envelope"
    by (simp add: blob_header_def sample_blob_lib_def tally_lib_def)
  then show ?thesis by (simp add: sample_blob_lib_def tally_lib_def)
qed

lemma sample_encoded:
  "envelope_ok sample_envelope" "\<exists>data. encode_envelope sample_blob_lib sample_envelope = Inr data \<and> length data = 42"
proof -
  show "envelope_ok sample_envelope" by code_simp
qed (rule sample_encodes [OF sample_header])

section \<open>Properties\<close>

text \<open>
  C22. Blob round trip. What \<open>encode_envelope\<close> writes for a valid envelope, \<open>decode_envelope\<close> reads back
  as that very envelope when it is within the reader's size limit, and a blob that decodes is
  complete: no decoder accepts it with anything after it.
\<close>

theorem envelope_roundtrip:
  assumes "blob_lib_ok lib" and "envelope_ok e" and "encode_envelope lib e = Inr data"
    and "length data \<le> max_blob_bytes"
  shows "decode_envelope lib max_blob_bytes data = Inr e \<and>
    (\<forall>extra m e'. extra \<noteq> [] \<longrightarrow> decode_envelope lib m (data @ extra) \<noteq> Inr e')"
  using envelope_decoded [OF assms] decoded_prefix_free by blast

theorem envelope_roundtrip_witness:
  "\<exists>data. encode_envelope sample_blob_lib sample_envelope = Inr data \<and>
    decode_envelope sample_blob_lib 1024 data = Inr sample_envelope"
proof -
  obtain data where data: "encode_envelope sample_blob_lib sample_envelope = Inr data" "length data = 42"
    using sample_encoded(2) by blast
  have "blob_lib_ok sample_blob_lib" by (simp add: sample_blob_lib_def tally_lib_ok)
  from envelope_roundtrip [OF this sample_encoded(1) data(1), of 1024] data show ?thesis by auto
qed
end
