(* ===== verification/Storage_Catalog.thy ===== *)
theory Storage_Catalog
  imports Blob_Codec "HOL-Library.AList" "HOL-Library.Product_Lexorder"
begin

text \<open>
  The encrypted record store of \<^verbatim>\<open>src/local_recall/storage\<close> (\<^verbatim>\<open>base.py\<close>, \<^verbatim>\<open>filesystem.py\<close>,
  \<^verbatim>\<open>operations.py\<close>, \<^verbatim>\<open>sqlite_backend.py\<close>, \<^verbatim>\<open>schema.py\<close>) and the values of
  \<^verbatim>\<open>ports/storage.py\<close>: what is on disk between two instructions that touch it, and the operations
  as computations on it. The two tables of the SQLite catalog are association lists from their
  primary key, the record identifier; an identifier's canonical text orders like the number it
  denotes and a day's ISO text like the day's number, so the keys are kept as numbers. The fixed
  column \<^verbatim>\<open>artifact_kind\<close> is left out. Files are regular files of the owner. The fault injector
  names the points at which the process stops; every operation holds the store's lock.
\<close>

section \<open>What is on disk\<close>

datatype catalog_state = READY | DELETING | QUARANTINED

record catalog_meta =
  cm_schema_version :: int
  cm_key_provider_id :: string
  cm_key_id :: string
  cm_key_version :: int
  cm_ciphertext_bytes :: nat
  cm_blob_bytes :: nat
  cm_day :: int
  cm_token :: string
  cm_digest :: "byte list"

type_synonym catalog_row = "catalog_meta \<times> catalog_state"

record store =
  st_version :: int
  st_records_v1 :: "(record_uuid \<times> catalog_row) list"
  st_records :: "(record_uuid \<times> catalog_row) list"
  st_intents :: "(record_uuid \<times> catalog_meta) list"
  st_blobs :: "(string \<times> byte list) list"
  st_temps :: "byte list list"
  st_quarantine :: "byte list list"

record storage_config =
  sc_quota_bytes :: nat
  sc_max_blob_bytes :: nat

record stored_ref =
  sr_record_id :: record_uuid
  sr_storage_id :: string
  sr_schema_version :: int

record delete_result =
  dr_record_id :: record_uuid
  dr_deleted :: bool
  dr_material_destroyed :: bool

abbreviation "corruption \<equiv> StorageError ''corruption''"

section \<open>Files\<close>

definition nibble :: "record_uuid \<Rightarrow> nat \<Rightarrow> nat" where
  "nibble u i = unat (take_bit 4 (drop_bit (4 * i) u))"

definition HEX_DIGITS :: string where
  "HEX_DIGITS = ''0123456789abcdef''"

definition uuid_hex :: "record_uuid \<Rightarrow> string" where
  "uuid_hex u = map (\<lambda>i. HEX_DIGITS ! nibble u i) (rev [0..<32])"

definition token_of :: "record_uuid \<Rightarrow> string" where
  "token_of u = take 2 (uuid_hex u) @ ''/'' @ uuid_hex u @ ''.lre''"

definition blob_token :: "record_uuid \<Rightarrow> exn + string" where
  "blob_token u = bindS (ensure (uuid_is_v4 u) (StorageError ''invalid_record_id'')) (\<lambda>_. Inr (token_of u))"

definition removesuffix :: "string \<Rightarrow> string \<Rightarrow> string" where
  "removesuffix s p = (if endswith s p then take (length s - length p) s else s)"

definition token_ok :: "string \<Rightarrow> bool" where
  "token_ok token = (case split_on (CHR ''/'') token of
     [shard, name] \<Rightarrow> (let stem = removesuffix name ''.lre'' in
       length shard = 2 \<and> length stem = 32 \<and> name = stem @ ''.lre'' \<and>
       (\<forall>c \<in> set (shard @ stem). c \<in> set HEX_DIGITS))
   | _ \<Rightarrow> False)"

definition blob_path :: "string \<Rightarrow> exn + string" where
  "blob_path token = bindS (ensure (token_ok token) corruption) (\<lambda>_. Inr token)"

definition read_regular_file :: "storage_config \<Rightarrow> 'z store_scheme \<Rightarrow> string \<Rightarrow> exn + byte list" where
  "read_regular_file cfg s path = (case map_of (st_blobs s) path of
     None \<Rightarrow> Inl corruption
   | Some blob \<Rightarrow> if blob = [] \<or> sc_max_blob_bytes cfg < length blob then Inl corruption else Inr blob)"

definition read_blob :: "storage_config \<Rightarrow> 'z store_scheme \<Rightarrow> string \<Rightarrow> exn + byte list" where
  "read_blob cfg s token = bindS (blob_path token) (read_regular_file cfg s)"

definition fault_point :: "string list \<Rightarrow> string \<Rightarrow> ('s, unit) comp" where
  "fault_point faults point = require (point \<notin> set faults) (RuntimeError point)"

definition write_blob_atomically ::
    "string list \<Rightarrow> string \<Rightarrow> byte list \<Rightarrow> ('z store_scheme, unit) comp" where
  "write_blob_atomically faults token blob =
    bindE (lift (blob_path token)) (\<lambda>final.
    bindE (reads (\<lambda>s. map_of (st_blobs s) final)) (\<lambda>there.
    seqE (require (there = None) (StorageError ''duplicate_record''))
    (seqE (modifies (\<lambda>s. s\<lparr>st_temps := blob # st_temps s\<rparr>))
    (seqE (fault_point faults ''after_temp_fsync'')
      (modifies (\<lambda>s. s\<lparr>st_temps := tl (st_temps s), st_blobs := (final, blob) # st_blobs s\<rparr>))))))"

definition quarantine_path :: "string \<Rightarrow> ('z store_scheme, unit) comp" where
  "quarantine_path path =
    modifies (\<lambda>s. case map_of (st_blobs s) path of
      None \<Rightarrow> s
    | Some blob \<Rightarrow> s\<lparr>st_blobs := AList.delete path (st_blobs s), st_quarantine := blob # st_quarantine s\<rparr>)"

definition lre_file :: "string \<Rightarrow> bool" where
  "lre_file path = (case split_on (CHR ''/'') path of
     [shard, name] \<Rightarrow> endswith name ''.lre'' \<and> 4 < length name | _ \<Rightarrow> False)"

definition iter_blob_files :: "'z store_scheme \<Rightarrow> string list" where
  "iter_blob_files s = filter lre_file (map fst (st_blobs s))"

definition content_bytes_on_disk :: "'z store_scheme \<Rightarrow> nat" where
  "content_bytes_on_disk s =
    sum_list (map (length \<circ> snd) (st_blobs s)) + sum_list (map length (st_temps s)) +
    sum_list (map length (st_quarantine s))"

text \<open>\<open>safe_unlink\<close> hides an operating system error; \<open>busy\<close> lists the files that cannot be removed.\<close>

definition safe_unlink :: "string list \<Rightarrow> string \<Rightarrow> ('z store_scheme, unit) comp" where
  "safe_unlink busy path =
    modifies (\<lambda>s. if path \<in> set busy then s else s\<lparr>st_blobs := AList.delete path (st_blobs s)\<rparr>)"

section \<open>The catalog\<close>

definition day_of :: "datetime \<Rightarrow> int" where
  "day_of t = instant t div 86400000000"

definition metadata_of :: "envelope \<Rightarrow> byte list \<Rightarrow> string \<Rightarrow> byte list \<Rightarrow> catalog_meta" where
  "metadata_of e blob token digest = \<lparr>cm_schema_version = ev_schema_version e,
     cm_key_provider_id = kh_provider_id (ev_key e), cm_key_id = kh_key_id (ev_key e),
     cm_key_version = kh_version (ev_key e), cm_ciphertext_bytes = length (ev_ciphertext e),
     cm_blob_bytes = length blob, cm_day = day_of (ev_created_at e), cm_token = token, cm_digest = digest\<rparr>"

text \<open>The \<open>CHECK\<close> constraints of both tables, and that an integer column has 64 bits.\<close>

definition meta_checks :: "catalog_meta \<Rightarrow> bool" where
  "meta_checks m \<longleftrightarrow> 0 < cm_schema_version m \<and> cm_schema_version m < 2 ^ 63 \<and> 0 < cm_key_version m \<and>
    cm_key_version m < 2 ^ 63 \<and> 0 < cm_ciphertext_bytes m \<and> 0 < cm_blob_bytes m \<and> length (cm_digest m) = 32"

definition row_conflict :: "'z store_scheme \<Rightarrow> record_uuid \<Rightarrow> catalog_meta \<Rightarrow> bool" where
  "row_conflict s rid m \<longleftrightarrow> map_of (st_records s) rid \<noteq> None \<or>
    cm_token m \<in> set (map (cm_token \<circ> fst \<circ> snd) (st_records s))"

definition intent_conflict :: "'z store_scheme \<Rightarrow> record_uuid \<Rightarrow> catalog_meta \<Rightarrow> bool" where
  "intent_conflict s rid m \<longleftrightarrow> map_of (st_intents s) rid \<noteq> None \<or>
    cm_token m \<in> set (map (cm_token \<circ> snd) (st_intents s))"

definition insert_intent :: "record_uuid \<Rightarrow> catalog_meta \<Rightarrow> ('z store_scheme, unit) comp" where
  "insert_intent rid m =
    bindE (reads (\<lambda>s. intent_conflict s rid m)) (\<lambda>conflict.
    seqE (require (\<not> conflict \<and> meta_checks m) (RuntimeError ''IntegrityError''))
      (modifies (\<lambda>s. s\<lparr>st_intents := (rid, m) # st_intents s\<rparr>)))"

definition insert_ready :: "record_uuid \<Rightarrow> catalog_meta \<Rightarrow> ('z store_scheme, unit) comp" where
  "insert_ready rid m =
    bindE (reads (\<lambda>s. row_conflict s rid m)) (\<lambda>conflict.
    seqE (require (\<not> conflict \<and> meta_checks m) (RuntimeError ''IntegrityError''))
      (modifies (\<lambda>s. s\<lparr>st_records := (rid, m, READY) # st_records s\<rparr>)))"

definition delete_intent :: "record_uuid \<Rightarrow> ('z store_scheme, unit) comp" where
  "delete_intent rid = modifies (\<lambda>s. s\<lparr>st_intents := AList.delete rid (st_intents s)\<rparr>)"

definition delete_row :: "record_uuid \<Rightarrow> ('z store_scheme, unit) comp" where
  "delete_row rid = modifies (\<lambda>s. s\<lparr>st_records := AList.delete rid (st_records s)\<rparr>)"

definition mark_row :: "record_uuid \<Rightarrow> catalog_state \<Rightarrow> ('z store_scheme, unit) comp" where
  "mark_row rid q =
    modifies (\<lambda>s. s\<lparr>st_records := map (\<lambda>(k, m, p). (k, m, if k = rid then q else p)) (st_records s)\<rparr>)"

section \<open>Operations\<close>

text \<open>Any exception that is not a storage failure is reported as an I/O failure.\<close>

definition as_storage_failure :: "exn \<Rightarrow> exn" where
  "as_storage_failure exc = (case exc of StorageError code \<Rightarrow> StorageError code | _ \<Rightarrow> StorageError ''io_failure'')"

definition write_record ::
    "string list \<Rightarrow> record_uuid \<Rightarrow> catalog_meta \<Rightarrow> byte list \<Rightarrow> ('z store_scheme, unit) comp" where
  "write_record faults rid m blob =
    seqE (insert_intent rid m)
    (seqE (fault_point faults ''after_write_intent'')
    (seqE (write_blob_atomically faults (cm_token m) blob)
    (seqE (fault_point faults ''after_blob_rename'')
    (seqE (insert_ready rid m) (delete_intent rid)))))"

definition put_sync ::
    "blob_lib \<Rightarrow> storage_config \<Rightarrow> string list \<Rightarrow> envelope \<Rightarrow> ('z store_scheme, stored_ref) comp" where
  "put_sync lib cfg faults e =
    bindE (lift (encode_envelope lib e)) (\<lambda>blob.
    seqE (require (length blob \<le> sc_max_blob_bytes cfg) (StorageError ''blob_too_large''))
    (bindE (lift (blob_token (ev_record_id e))) (\<lambda>token.
    let digest = bl_sha256 lib blob;
        m = metadata_of e blob token digest;
        ref = \<lambda>version. \<lparr>sr_record_id = ev_record_id e, sr_storage_id = token, sr_schema_version = version\<rparr> in
    bindE (reads (\<lambda>s. map_of (st_records s) (ev_record_id e))) (\<lambda>existing.
    case existing of
      Some (m', _) \<Rightarrow>
        if cm_digest m' = digest then ret (ref (cm_schema_version m')) else raise (StorageError ''duplicate_record'')
    | None \<Rightarrow>
        bindE (reads content_bytes_on_disk) (\<lambda>used.
        seqE (require (used + length blob \<le> sc_quota_bytes cfg) (StorageError ''quota_exceeded''))
        (seqE (catchE (write_record faults (ev_record_id e) m blob) (\<lambda>exc. raise (as_storage_failure exc)))
          (ret (ref (ev_schema_version e)))))))))"

definition decode_blob ::
    "blob_lib \<Rightarrow> storage_config \<Rightarrow> record_uuid \<Rightarrow> catalog_meta \<Rightarrow> byte list \<Rightarrow> exn + envelope" where
  "decode_blob lib cfg rid m blob =
    bindS (ensure (\<not> (length blob \<noteq> cm_blob_bytes m \<or> bl_sha256 lib blob \<noteq> cm_digest m)) corruption) (\<lambda>_.
    bindS (decode_envelope lib (sc_max_blob_bytes cfg) blob) (\<lambda>e.
    bindS (ensure (ev_record_id e = rid \<and> metadata_of e blob (cm_token m) (cm_digest m) = m) corruption) (\<lambda>_. Inr e)))"

definition decode_row ::
    "blob_lib \<Rightarrow> storage_config \<Rightarrow> record_uuid \<Rightarrow> catalog_meta \<Rightarrow> ('z store_scheme, envelope) comp" where
  "decode_row lib cfg rid m =
    bindE (reads (\<lambda>s. read_blob cfg s (cm_token m))) (\<lambda>r. lift (bindS r (decode_blob lib cfg rid m)))"

definition quarantine_row :: "record_uuid \<Rightarrow> catalog_meta \<Rightarrow> ('z store_scheme, unit) comp" where
  "quarantine_row rid m =
    bindE (lift (blob_path (cm_token m))) (\<lambda>path. seqE (quarantine_path path) (mark_row rid QUARANTINED))"

fun is_storage_failure :: "exn \<Rightarrow> bool" where
  "is_storage_failure (StorageError _) = True"
| "is_storage_failure _ = False"

definition get_sync ::
    "blob_lib \<Rightarrow> storage_config \<Rightarrow> record_uuid \<Rightarrow> ('z store_scheme, envelope option) comp" where
  "get_sync lib cfg rid =
    bindE (reads (\<lambda>s. map_of (st_records s) rid)) (\<lambda>found.
    case found of
      Some (m, READY) \<Rightarrow>
        catchE (bindE (decode_row lib cfg rid m) (\<lambda>e. ret (Some e)))
          (\<lambda>exc. if is_storage_failure exc then seqE (quarantine_row rid m) (raise exc) else raise exc)
    | _ \<Rightarrow> ret None)"

definition delete_sync ::
    "string list \<Rightarrow> string list \<Rightarrow> record_uuid \<Rightarrow> ('z store_scheme, delete_result) comp" where
  "delete_sync faults busy rid =
    bindE (reads (\<lambda>s. map_of (st_records s) rid)) (\<lambda>found.
    case found of
      None \<Rightarrow> ret \<lparr>dr_record_id = rid, dr_deleted = False, dr_material_destroyed = False\<rparr>
    | Some (m, _) \<Rightarrow>
        seqE (mark_row rid DELETING)
        (seqE (fault_point faults ''after_delete_mark'')
        (bindE (lift (blob_path (cm_token m))) (\<lambda>path.
        seqE (require (path \<notin> set busy) (StorageError ''io_failure''))
        (seqE (safe_unlink busy path)
        (seqE (delete_row rid)
          (ret \<lparr>dr_record_id = rid, dr_deleted = True, dr_material_destroyed = False\<rparr>)))))))"
section \<open>Queries\<close>

record catalog_entry =
  ce_record_id :: record_uuid
  ce_day :: int
  ce_blob_bytes :: nat

record catalog_page =
  pg_entries :: "catalog_entry list"
  pg_complete :: bool

record catalog_record =
  cr_record :: stored_ref
  cr_day :: int
  cr_blob_bytes :: nat
  cr_key_provider_id :: string
  cr_key_id :: string
  cr_key_version :: int

record day_range_query =
  dq_start :: int
  dq_end :: int
  dq_limit :: nat

definition mk_day_range_query :: "int \<Rightarrow> int \<Rightarrow> nat \<Rightarrow> exn + day_range_query" where
  "mk_day_range_query start_day end_day limit =
    bindS (ensure (start_day \<le> end_day) (ValueError ''end_day precedes start_day'')) (\<lambda>_.
    bindS (ensure (1 \<le> limit \<and> limit \<le> 10000) (ValueError ''limit must be between 1 and 10000'')) (\<lambda>_.
    Inr \<lparr>dq_start = start_day, dq_end = end_day, dq_limit = limit\<rparr>))"

text \<open>\<open>WHERE state = 'ready' ORDER BY day_bucket, record_id\<close>\<close>

definition ready_rows :: "'z store_scheme \<Rightarrow> (record_uuid \<times> catalog_row) list" where
  "ready_rows s = sort_key (\<lambda>(k, m, q). (cm_day m, k)) (filter (\<lambda>(k, m, q). q = READY) (st_records s))"

definition row_entry :: "record_uuid \<times> catalog_row \<Rightarrow> catalog_entry" where
  "row_entry row = (case row of (k, m, _) \<Rightarrow> \<lparr>ce_record_id = k, ce_day = cm_day m, ce_blob_bytes = cm_blob_bytes m\<rparr>)"

definition row_record :: "record_uuid \<times> catalog_row \<Rightarrow> catalog_record" where
  "row_record row = (case row of (k, m, _) \<Rightarrow>
     \<lparr>cr_record = \<lparr>sr_record_id = k, sr_storage_id = cm_token m, sr_schema_version = cm_schema_version m\<rparr>,
      cr_day = cm_day m, cr_blob_bytes = cm_blob_bytes m, cr_key_provider_id = cm_key_provider_id m,
      cr_key_id = cm_key_id m, cr_key_version = cm_key_version m\<rparr>)"

definition list_candidates_sync :: "day_range_query \<Rightarrow> ('z store_scheme, catalog_record list) comp" where
  "list_candidates_sync q = reads (\<lambda>s. map row_record (take (dq_limit q)
     (filter (\<lambda>(k, m, _). dq_start q \<le> cm_day m \<and> cm_day m \<le> dq_end q) (ready_rows s))))"

definition stats_sync :: "('z store_scheme, nat \<times> nat) comp" where
  "stats_sync = reads (\<lambda>s. (length (ready_rows s), sum_list (map (\<lambda>(k, m, _). cm_blob_bytes m) (ready_rows s))))"

definition PAGE_LIMIT :: nat where
  "PAGE_LIMIT = 10000"

type_synonym cursor = "int \<times> record_uuid"

definition rows_after :: "cursor option \<Rightarrow> 'z store_scheme \<Rightarrow> (record_uuid \<times> catalog_row) list" where
  "rows_after after s = filter (\<lambda>(k, m, _). case after of None \<Rightarrow> True
     | Some (day, rid) \<Rightarrow> day < cm_day m \<or> cm_day m = day \<and> rid < k) (ready_rows s)"

definition page_ready_sync :: "nat \<Rightarrow> cursor option \<Rightarrow> ('z store_scheme, catalog_page) comp" where
  "page_ready_sync limit after =
    seqE (require (\<not> (limit = 0 \<or> PAGE_LIMIT < limit)) (StorageError ''io_failure''))
    (bindE (reads (\<lambda>s. take (limit + 1) (rows_after after s))) (\<lambda>rows.
     ret \<lparr>pg_entries = map row_entry (take limit rows), pg_complete = length rows \<le> limit\<rparr>))"

section \<open>Recovery\<close>

text \<open>The counters of the integrity report, kept beside the disk while recovery runs.\<close>

record recovery = store +
  rv_verified :: nat
  rv_recovered :: nat
  rv_temps :: nat
  rv_deletions :: nat
  rv_quarantined :: nat
  rv_orphans :: nat

record integrity_report =
  ir_verified_records :: nat
  ir_recovered_writes :: nat
  ir_removed_temporary_files :: nat
  ir_completed_deletions :: nat
  ir_quarantined_records :: nat
  ir_indexed_orphans :: nat

primrec each :: "('a \<Rightarrow> ('s, unit) comp) \<Rightarrow> 'a list \<Rightarrow> ('s, unit) comp" where
  "each body [] = ret ()"
| "each body (x # xs) = seqE (body x) (each body xs)"

definition remove_temporaries :: "(recovery, unit) comp" where
  "remove_temporaries = modifies (\<lambda>s. s\<lparr>st_temps := [], rv_temps := rv_temps s + length (st_temps s)\<rparr>)"

definition count_quarantined :: "(recovery, unit) comp" where
  "count_quarantined = modifies (\<lambda>s. s\<lparr>rv_quarantined := rv_quarantined s + 1\<rparr>)"

text \<open>\<open>INSERT OR IGNORE\<close>: a row that violates a constraint is skipped.\<close>

definition adopt_intent :: "record_uuid \<Rightarrow> catalog_meta \<Rightarrow> (recovery, unit) comp" where
  "adopt_intent rid m = modifies (\<lambda>s. s\<lparr>
     st_records := (if \<not> row_conflict s rid m \<and> meta_checks m then [(rid, m, READY)] else []) @ st_records s,
     st_intents := AList.delete rid (st_intents s), rv_recovered := rv_recovered s + 1\<rparr>)"

definition check_intent ::
    "blob_lib \<Rightarrow> storage_config \<Rightarrow> record_uuid \<Rightarrow> catalog_meta \<Rightarrow> exn + byte list \<Rightarrow> exn + unit" where
  "check_intent lib cfg rid m contents =
    bindS contents (\<lambda>blob.
    bindS (decode_envelope lib (sc_max_blob_bytes cfg) blob) (\<lambda>e.
    ensure (\<not> (bl_sha256 lib blob \<noteq> cm_digest m \<or> ev_record_id e \<noteq> rid)) corruption))"

definition recover_intent ::
    "blob_lib \<Rightarrow> storage_config \<Rightarrow> record_uuid \<times> catalog_meta \<Rightarrow> (recovery, unit) comp" where
  "recover_intent lib cfg row = (case row of (rid, m) \<Rightarrow>
    bindE (lift (blob_path (cm_token m))) (\<lambda>path.
    bindE (reads (\<lambda>s. map_of (st_blobs s) path)) (\<lambda>there.
    if there = None then delete_intent rid
    else
      catchE
        (bindE (reads (\<lambda>s. read_blob cfg s (cm_token m))) (\<lambda>contents.
          seqE (lift (check_intent lib cfg rid m contents)) (adopt_intent rid m)))
        (\<lambda>_. seqE (quarantine_path path) (seqE (delete_intent rid) count_quarantined)))))"

definition recover_intents :: "blob_lib \<Rightarrow> storage_config \<Rightarrow> (recovery, unit) comp" where
  "recover_intents lib cfg = bindE (reads (\<lambda>s. sort_key fst (st_intents s))) (each (recover_intent lib cfg))"

definition recover_deletion :: "string list \<Rightarrow> record_uuid \<times> catalog_row \<Rightarrow> (recovery, unit) comp" where
  "recover_deletion busy row = (case row of (rid, m, _) \<Rightarrow>
    bindE (lift (blob_path (cm_token m))) (\<lambda>path.
    seqE (safe_unlink busy path)
    (seqE (delete_row rid) (modifies (\<lambda>s. s\<lparr>rv_deletions := rv_deletions s + 1\<rparr>)))))"

definition recover_deletions :: "string list \<Rightarrow> (recovery, unit) comp" where
  "recover_deletions busy =
    bindE (reads (\<lambda>s. filter (\<lambda>(k, m, q). q = DELETING) (st_records s))) (each (recover_deletion busy))"

definition verify_row :: "blob_lib \<Rightarrow> storage_config \<Rightarrow> record_uuid \<times> catalog_row \<Rightarrow> (recovery, unit) comp" where
  "verify_row lib cfg row = (case row of (rid, m, _) \<Rightarrow>
    catchE (seqE (decode_row lib cfg rid m) (modifies (\<lambda>s. s\<lparr>rv_verified := rv_verified s + 1\<rparr>)))
      (\<lambda>_. seqE (quarantine_row rid m) count_quarantined))"

definition verify_ready :: "blob_lib \<Rightarrow> storage_config \<Rightarrow> (recovery, unit) comp" where
  "verify_ready lib cfg =
    bindE (reads (\<lambda>s. sort_key fst (filter (\<lambda>(k, m, q). q = READY) (st_records s)))) (each (verify_row lib cfg))"

definition index_orphan :: "blob_lib \<Rightarrow> storage_config \<Rightarrow> string \<Rightarrow> (recovery, unit) comp" where
  "index_orphan lib cfg token =
    bindE (reads (\<lambda>s. read_regular_file cfg s token)) (\<lambda>contents.
    bindE (lift contents) (\<lambda>blob.
    bindE (lift (decode_envelope lib (sc_max_blob_bytes cfg) blob)) (\<lambda>e.
    bindE (lift (blob_token (ev_record_id e))) (\<lambda>expected.
    seqE (require (token = expected) corruption)
    (seqE (insert_ready (ev_record_id e) (metadata_of e blob token (bl_sha256 lib blob)))
      (modifies (\<lambda>s. s\<lparr>rv_orphans := rv_orphans s + 1\<rparr>)))))))"

definition recover_orphan :: "blob_lib \<Rightarrow> storage_config \<Rightarrow> string list \<Rightarrow> string \<Rightarrow> (recovery, unit) comp" where
  "recover_orphan lib cfg referenced token =
    (if token \<in> set referenced then ret ()
     else catchE (index_orphan lib cfg token) (\<lambda>_. seqE (quarantine_path token) count_quarantined))"

definition referenced_tokens :: "'z store_scheme \<Rightarrow> string list" where
  "referenced_tokens s = map (cm_token \<circ> fst \<circ> snd) (st_records s) @ map (cm_token \<circ> snd) (st_intents s)"

definition recover_orphans :: "blob_lib \<Rightarrow> storage_config \<Rightarrow> (recovery, unit) comp" where
  "recover_orphans lib cfg =
    bindE (reads referenced_tokens) (\<lambda>referenced.
    bindE (reads iter_blob_files) (each (recover_orphan lib cfg referenced)))"

definition recovery_run :: "blob_lib \<Rightarrow> storage_config \<Rightarrow> string list \<Rightarrow> (recovery, unit) comp" where
  "recovery_run lib cfg busy =
    seqE remove_temporaries
    (seqE (recover_intents lib cfg)
    (seqE (recover_deletions busy)
    (seqE (verify_ready lib cfg) (recover_orphans lib cfg))))"

definition start_recovery :: "store \<Rightarrow> recovery" where
  "start_recovery s = store.extend s (recovery.fields 0 0 0 0 0 0)"

definition integrity_of :: "recovery \<Rightarrow> integrity_report" where
  "integrity_of s = \<lparr>ir_verified_records = rv_verified s, ir_recovered_writes = rv_recovered s,
     ir_removed_temporary_files = rv_temps s, ir_completed_deletions = rv_deletions s,
     ir_quarantined_records = rv_quarantined s, ir_indexed_orphans = rv_orphans s\<rparr>"

definition recover_sync :: "blob_lib \<Rightarrow> storage_config \<Rightarrow> string list \<Rightarrow> (store, integrity_report) comp" where
  "recover_sync lib cfg busy = (\<lambda>s. case recovery_run lib cfg busy (start_recovery s) of
     (Inl e, t) \<Rightarrow> (Inl e, store.truncate t) | (Inr _, t) \<Rightarrow> (Inr (integrity_of t), store.truncate t))"

section \<open>Opening a store\<close>

definition migrate_row ::
    "blob_lib \<Rightarrow> storage_config \<Rightarrow> store \<Rightarrow> record_uuid \<times> catalog_row \<Rightarrow> exn + record_uuid \<times> catalog_row" where
  "migrate_row lib cfg s row = (case row of (rid, m, q) \<Rightarrow>
    bindS (read_blob cfg s (cm_token m)) (\<lambda>blob.
    bindS (decode_envelope lib (sc_max_blob_bytes cfg) blob) (\<lambda>e.
    bindS (ensure (ev_record_id e = rid) (StorageError ''migration_failure'')) (\<lambda>_.
    let m' = m\<lparr>cm_digest := bl_sha256 lib blob\<rparr> in
    bindS (ensure (meta_checks m') (RuntimeError ''IntegrityError'')) (\<lambda>_. Inr (rid, m', q))))))"

primrec migrate_rows ::
    "blob_lib \<Rightarrow> storage_config \<Rightarrow> store \<Rightarrow> (record_uuid \<times> catalog_row) list \<Rightarrow> exn + (record_uuid \<times> catalog_row) list" where
  "migrate_rows lib cfg s [] = Inr []"
| "migrate_rows lib cfg s (row # rows) =
    bindS (migrate_row lib cfg s row) (\<lambda>r. bindS (migrate_rows lib cfg s rows) (\<lambda>rs. Inr (r # rs)))"

definition CURRENT_STORAGE_SCHEMA_VERSION :: int where
  "CURRENT_STORAGE_SCHEMA_VERSION = 2"

definition migrate_v1_to_v2 :: "blob_lib \<Rightarrow> storage_config \<Rightarrow> (store, unit) comp" where
  "migrate_v1_to_v2 lib cfg = (\<lambda>s. case migrate_rows lib cfg s (sort_key fst (st_records_v1 s)) of
     Inl (StorageError code) \<Rightarrow> (Inl (StorageError code), s)
   | Inl _ \<Rightarrow> (Inl (StorageError ''migration_failure''), s)
   | Inr rows \<Rightarrow> (Inr (), s\<lparr>st_records := rows, st_intents := [], st_records_v1 := [],
       st_version := CURRENT_STORAGE_SCHEMA_VERSION\<rparr>))"

definition migrate_catalog :: "blob_lib \<Rightarrow> storage_config \<Rightarrow> (store, unit) comp" where
  "migrate_catalog lib cfg =
    bindE (reads st_version) (\<lambda>version.
    if CURRENT_STORAGE_SCHEMA_VERSION < version then raise (StorageError ''migration_failure'')
    else if version = CURRENT_STORAGE_SCHEMA_VERSION then ret ()
    else if version = 0 then
      modifies (\<lambda>s. s\<lparr>st_records := [], st_intents := [], st_version := CURRENT_STORAGE_SCHEMA_VERSION\<rparr>)
    else if version = 1 then migrate_v1_to_v2 lib cfg
    else raise (StorageError ''migration_failure''))"

definition open_storage ::
    "blob_lib \<Rightarrow> storage_config \<Rightarrow> rat \<Rightarrow> string list \<Rightarrow> (store, integrity_report) comp" where
  "open_storage lib cfg busy_timeout busy =
    seqE (require (0 < sc_quota_bytes cfg) (ValueError ''quota_bytes must be positive''))
    (seqE (require (1024 \<le> sc_max_blob_bytes cfg \<and> sc_max_blob_bytes cfg \<le> sc_quota_bytes cfg)
       (ValueError ''max_blob_bytes must be between 1024 and quota_bytes''))
    (seqE (require (0 < busy_timeout) (ValueError ''busy_timeout_seconds must be positive''))
    (seqE (migrate_catalog lib cfg) (recover_sync lib cfg busy))))"
end
