(* ===== verification/Storage_Recovery.thy ===== *)
theory Storage_Recovery
  imports Storage_Catalog
begin

text \<open>
  Correctness of the encrypted record store. The catalog and the blob files are seen as one cell per
  blob token: the row, the write intent and the file content that belong to it. Recovery is shown to
  act on every cell on its own (\<open>recovered_cells\<close>); that a store is a map from identifiers to
  envelopes, that a crash at any point leaves either the old or the new map, and that recovery
  restores integrity from any damage to the files follow by cases on a cell.
\<close>

section \<open>Tokens\<close>

lemma nibble_bound: "nibble u i < 16"
proof -
  have "nibble u i = take_bit 4 (unat (drop_bit (4 * i) u))" by (simp add: nibble_def unsigned_take_bit_eq)
  then show ?thesis using take_bit_nat_less_exp [of 4 "unat (drop_bit (4 * i) u)"] by simp
qed

lemma length_uuid_hex [simp]: "length (uuid_hex u) = 32"
  by (simp add: uuid_hex_def)

lemma hex_digits: "length HEX_DIGITS = 16" "distinct HEX_DIGITS" "CHR ''/'' \<notin> set HEX_DIGITS"
  by (simp_all add: HEX_DIGITS_def)

lemma hex_nth_eq: "i < 16 \<Longrightarrow> j < 16 \<Longrightarrow> HEX_DIGITS ! i = HEX_DIGITS ! j \<longleftrightarrow> i = j"
  by (simp add: nth_eq_iff_index_eq hex_digits)

lemma nibble_bit: "nibble u i = nibble v i \<Longrightarrow> r < 4 \<Longrightarrow> bit u (4 * i + r) \<longleftrightarrow> bit v (4 * i + r)"
proof -
  assume "nibble u i = nibble v i" and r: "r < 4"
  then have "take_bit 4 (drop_bit (4 * i) u) = take_bit 4 (drop_bit (4 * i) v)" by (simp add: nibble_def unsigned_word_eqI)
  then have "bit (take_bit 4 (drop_bit (4 * i) u)) r \<longleftrightarrow> bit (take_bit 4 (drop_bit (4 * i) v)) r" by simp
  with r show ?thesis by (simp add: bit_take_bit_iff bit_drop_bit_eq)
qed

lemma uuid_hex_inj: "uuid_hex u = uuid_hex v \<Longrightarrow> u = v"
proof -
  assume eq: "uuid_hex u = uuid_hex v"
  have nib: "nibble u i = nibble v i" if "i < 32" for i
    using eq that by (auto simp: uuid_hex_def hex_nth_eq [OF nibble_bound nibble_bound])
  show "u = v"
  proof (rule bit_word_eqI)
    fix n assume "n < LENGTH(128)"
    then have "n div 4 < 32" by auto
    then show "bit u n \<longleftrightarrow> bit v n" using nibble_bit [OF nib, of "n div 4" "n mod 4"] by simp
  qed
qed

lemma token_of_inj [simp]: "token_of u = token_of v \<longleftrightarrow> u = v"
  by (auto simp: token_of_def dest: uuid_hex_inj)

lemma inj_token_of: "inj token_of"
  by (simp add: inj_on_def)

lemma uuid_hex_digits: "c \<in> set (uuid_hex u) \<Longrightarrow> c \<in> set HEX_DIGITS"
  using nibble_bound by (auto simp: uuid_hex_def hex_digits intro!: nth_mem)

lemma split_on_none: "sep \<notin> set s \<Longrightarrow> split_on sep s = [s]"
  by (induction s) auto

lemma split_on_once: "sep \<notin> set a \<Longrightarrow> sep \<notin> set b \<Longrightarrow> split_on sep (a @ sep # b) = [a, b]"
  by (induction a) (auto simp: split_on_none)

lemma token_split: "split_on (CHR ''/'') (token_of u) = [take 2 (uuid_hex u), uuid_hex u @ ''.lre'']"
proof -
  have "CHR ''/'' \<notin> set (uuid_hex u)" using uuid_hex_digits [of "CHR ''/''" u] hex_digits(3) by blast
  then show ?thesis using split_on_once [of "CHR ''/''" "take 2 (uuid_hex u)" "uuid_hex u @ ''.lre''"]
    by (auto simp: token_of_def dest: in_set_takeD)
qed

lemma token_ok_of [simp]: "token_ok (token_of u)"
proof -
  have "\<forall>c \<in> set (take 2 (uuid_hex u) @ uuid_hex u). c \<in> set HEX_DIGITS"
    using uuid_hex_digits [of _ u] by (auto dest: in_set_takeD)
  moreover have "removesuffix (uuid_hex u @ ''.lre'') ''.lre'' = uuid_hex u"
    by (simp add: removesuffix_def endswith_def suffix_def)
  ultimately show ?thesis by (simp add: token_ok_def token_split Let_def)
qed

lemma lre_file_of [simp]: "lre_file (token_of u)"
  by (simp add: lre_file_def token_split endswith_def suffix_def)

lemma blob_path_of [simp]: "blob_path (token_of u) = Inr (token_of u)"
  by (simp add: blob_path_def)
section \<open>Cells\<close>

text \<open>\<open>by_token f\<close> reads a table keyed by identifiers through the blob token of the identifier.\<close>

abbreviation "uuid_at \<equiv> inv token_of"

definition by_token :: "(record_uuid \<rightharpoonup> 'a) \<Rightarrow> string \<rightharpoonup> 'a" where
  "by_token f t = (if t \<in> range token_of then f (uuid_at t) else None)"

lemma uuid_at_token [simp]: "uuid_at (token_of u) = u"
  by (simp add: inj_token_of)

lemma by_token_of [simp]: "by_token f (token_of u) = f u"
  by (simp add: by_token_def)

lemma by_token_upd [simp]: "by_token (f(u := x)) = (by_token f)(token_of u := x)"
  by (auto simp: by_token_def fun_eq_iff)

type_synonym cell = "catalog_row option \<times> catalog_meta option \<times> byte list option"

definition cell :: "'z store_scheme \<Rightarrow> string \<Rightarrow> cell" where
  "cell s t = (by_token (map_of (st_records s)) t, by_token (map_of (st_intents s)) t, map_of (st_blobs s) t)"

lemma cell_token: "cell s (token_of u) =
    (map_of (st_records s) u, map_of (st_intents s) u, map_of (st_blobs s) (token_of u))"
  by (simp add: cell_def)

text \<open>
  What the schema's keys guarantee: identifiers, tokens and file names are unique, and a row's token
  is the one derived from its identifier.
\<close>

definition catalog_wf :: "'z store_scheme \<Rightarrow> bool" where
  "catalog_wf s \<longleftrightarrow> distinct (map fst (st_records s)) \<and> distinct (map fst (st_intents s)) \<and>
    distinct (map fst (st_blobs s)) \<and>
    (\<forall>(k, m, q) \<in> set (st_records s). uuid_is_v4 k \<and> cm_token m = token_of k) \<and>
    (\<forall>(k, m) \<in> set (st_intents s). uuid_is_v4 k \<and> cm_token m = token_of k)"

lemma wf_row: "catalog_wf s \<Longrightarrow> map_of (st_records s) u = Some (m, q) \<Longrightarrow> uuid_is_v4 u \<and> cm_token m = token_of u"
  by (auto simp: catalog_wf_def dest: map_of_SomeD)

lemma wf_intent: "catalog_wf s \<Longrightarrow> map_of (st_intents s) u = Some m \<Longrightarrow> uuid_is_v4 u \<and> cm_token m = token_of u"
  by (auto simp: catalog_wf_def dest: map_of_SomeD)

lemma row_conflict_iff:
  assumes "catalog_wf s" and "cm_token m = token_of u"
  shows "row_conflict s u m \<longleftrightarrow> map_of (st_records s) u \<noteq> None"
  using assms by (force simp: row_conflict_def catalog_wf_def map_of_eq_None_iff)

lemma intent_conflict_iff:
  assumes "catalog_wf s" and "cm_token m = token_of u"
  shows "intent_conflict s u m \<longleftrightarrow> map_of (st_intents s) u \<noteq> None"
  using assms by (force simp: intent_conflict_def catalog_wf_def map_of_eq_None_iff)

lemma map_of_mark:
  "map_of (map (\<lambda>(k, m, p). (k, m, if k = u then q else p)) rows) =
    (map_of rows)(u := map_option (\<lambda>(m, _). (m, q)) (map_of rows u))"
  by (induction rows) (auto simp: fun_eq_iff)

lemma fst_mark: "map fst (map (\<lambda>(k, m, p). (k, m, if k = u then q else p)) rows) = map fst rows"
  by (induction rows) auto

definition readable :: "storage_config \<Rightarrow> byte list \<Rightarrow> exn + byte list" where
  "readable cfg blob = (if blob = [] \<or> sc_max_blob_bytes cfg < length blob then Inl corruption else Inr blob)"

lemma readable_Inr: "readable cfg b = Inr b' \<longleftrightarrow> b' = b \<and> b \<noteq> [] \<and> length b \<le> sc_max_blob_bytes cfg"
  by (auto simp: readable_def)

lemma read_file_eq: "read_regular_file cfg s t = (case map_of (st_blobs s) t of None \<Rightarrow> Inl corruption | Some b \<Rightarrow> readable cfg b)"
  by (simp add: read_regular_file_def readable_def split: option.split)

lemma read_blob_eq:
  "read_blob cfg s (token_of u) = (case map_of (st_blobs s) (token_of u) of None \<Rightarrow> Inl corruption | Some b \<Rightarrow> readable cfg b)"
  by (simp add: read_blob_def read_file_eq)

definition decoded :: "blob_lib \<Rightarrow> storage_config \<Rightarrow> record_uuid \<Rightarrow> catalog_meta \<Rightarrow> byte list \<Rightarrow> exn + envelope" where
  "decoded lib cfg u m blob = bindS (readable cfg blob) (decode_blob lib cfg u m)"

definition row_valid :: "blob_lib \<Rightarrow> storage_config \<Rightarrow> record_uuid \<Rightarrow> catalog_meta \<Rightarrow> byte list \<Rightarrow> bool" where
  "row_valid lib cfg u m blob \<longleftrightarrow> \<not> isl (decoded lib cfg u m blob)"

definition intent_valid :: "blob_lib \<Rightarrow> storage_config \<Rightarrow> record_uuid \<Rightarrow> catalog_meta \<Rightarrow> byte list \<Rightarrow> bool" where
  "intent_valid lib cfg u m blob \<longleftrightarrow> \<not> isl (check_intent lib cfg u m (readable cfg blob))"

definition orphan_row :: "blob_lib \<Rightarrow> storage_config \<Rightarrow> string \<Rightarrow> byte list \<Rightarrow> catalog_meta option" where
  "orphan_row lib cfg t blob = (case bindS (readable cfg blob) (decode_envelope lib (sc_max_blob_bytes cfg)) of
     Inl _ \<Rightarrow> None
   | Inr e \<Rightarrow> let m = metadata_of e blob t (bl_sha256 lib blob) in
       if uuid_is_v4 (ev_record_id e) \<and> t = token_of (ev_record_id e) \<and> meta_checks m then Some m else None)"

text \<open>The four loops of recovery, as they act on one cell.\<close>

definition intent_step :: "blob_lib \<Rightarrow> storage_config \<Rightarrow> string \<Rightarrow> cell \<Rightarrow> cell" where
  "intent_step lib cfg t c = (case c of
     (r, Some m, None) \<Rightarrow> (r, None, None)
   | (r, Some m, Some blob) \<Rightarrow>
       if intent_valid lib cfg (uuid_at t) m blob
       then (if r = None \<and> meta_checks m then Some (m, READY) else r, None, Some blob) else (r, None, None)
   | _ \<Rightarrow> c)"

definition delete_step :: "string list \<Rightarrow> string \<Rightarrow> cell \<Rightarrow> cell" where
  "delete_step busy t c = (case c of
     (Some (m, DELETING), i, b) \<Rightarrow> (None, i, if t \<in> set busy then b else None) | _ \<Rightarrow> c)"

definition verify_step :: "blob_lib \<Rightarrow> storage_config \<Rightarrow> string \<Rightarrow> cell \<Rightarrow> cell" where
  "verify_step lib cfg t c = (case c of
     (Some (m, READY), i, Some blob) \<Rightarrow>
       if row_valid lib cfg (uuid_at t) m blob then c else (Some (m, QUARANTINED), i, None)
   | (Some (m, READY), i, None) \<Rightarrow> (Some (m, QUARANTINED), i, None)
   | _ \<Rightarrow> c)"

definition orphan_step :: "blob_lib \<Rightarrow> storage_config \<Rightarrow> string \<Rightarrow> cell \<Rightarrow> cell" where
  "orphan_step lib cfg t c = (case c of
     (None, None, Some blob) \<Rightarrow> if \<not> lre_file t then c else
       (case orphan_row lib cfg t blob of Some m \<Rightarrow> (Some (m, READY), None, Some blob) | None \<Rightarrow> (None, None, None))
   | _ \<Rightarrow> c)"

section \<open>Loops over cells\<close>

lemma each_pointwise:
  assumes step: "\<And>x s. x \<in> set xs \<Longrightarrow> P s \<Longrightarrow> view s (key x) = view s0 (key x) \<Longrightarrow>
      \<exists>s'. body x s = (Inr (), s') \<and> P s' \<and> view s' = (view s)(key x := f (key x) (view s (key x)))"
    and "distinct (map key xs)" and "P s0"
  shows "\<exists>s'. each body xs s0 = (Inr (), s') \<and> P s' \<and>
    (\<forall>i. view s' i = (if i \<in> key ` set xs then f i (view s0 i) else view s0 i))"
  using assms
proof (induction xs arbitrary: s0)
  case Nil
  then show ?case by (simp add: ret_def)
next
  case (Cons x xs)
  obtain s1 where s1: "body x s0 = (Inr (), s1)" "P s1" "view s1 = (view s0)(key x := f (key x) (view s0 (key x)))"
    using Cons.prems(1) [OF list.set_intros(1) Cons.prems(3) refl] by blast
  have "\<exists>s'. each body xs s1 = (Inr (), s') \<and> P s' \<and>
    (\<forall>i. view s' i = (if i \<in> key ` set xs then f i (view s1 i) else view s1 i))"
  proof (rule Cons.IH)
    fix y s assume "y \<in> set xs" "P s" "view s (key y) = view s1 (key y)"
    moreover have "key y \<noteq> key x" using Cons.prems(2) calculation(1) by (auto dest: image_eqI [OF sym])
    ultimately show "\<exists>s'. body y s = (Inr (), s') \<and> P s' \<and> view s' = (view s)(key y := f (key y) (view s (key y)))"
      using Cons.prems(1) [of y s] s1(3) by (simp add: fun_upd_def)
  qed (use Cons.prems s1 in auto)
  then obtain s' where "each body xs s1 = (Inr (), s')" "P s'"
    "\<forall>i. view s' i = (if i \<in> key ` set xs then f i (view s1 i) else view s1 i)" by blast
  moreover have "key x \<notin> key ` set xs" using Cons.prems(2) by auto
  ultimately show ?case using s1 by (intro exI [of _ s']) (auto simp: seqE_def bindE_def)
qed
lemma cell_updates:
  "cell (s\<lparr>st_intents := AList.delete u (st_intents s)\<rparr>) =
    (cell s)(token_of u := (map_of (st_records s) u, None, map_of (st_blobs s) (token_of u)))"
  "cell (s\<lparr>st_records := AList.delete u (st_records s)\<rparr>) =
    (cell s)(token_of u := (None, map_of (st_intents s) u, map_of (st_blobs s) (token_of u)))"
  "cell (s\<lparr>st_blobs := AList.delete t (st_blobs s)\<rparr>) =
    (cell s)(t := (fst (cell s t), fst (snd (cell s t)), None))"
  "cell (s\<lparr>st_records := (u, m, q) # st_records s\<rparr>) =
    (cell s)(token_of u := (Some (m, q), map_of (st_intents s) u, map_of (st_blobs s) (token_of u)))"
  by (auto simp: cell_def fun_eq_iff delete_conv')

lemma cell_cong:
  "st_records s = st_records s' \<Longrightarrow> st_intents s = st_intents s' \<Longrightarrow> st_blobs s = st_blobs s' \<Longrightarrow> cell s = cell s'"
  by (simp add: cell_def fun_eq_iff)
lemma in_delete: "x \<in> set (AList.delete k xs) \<Longrightarrow> x \<in> set xs"
  by (simp add: AList.delete_eq)

lemma wf_delete_intent: "catalog_wf s \<Longrightarrow> st_records s' = st_records s \<Longrightarrow> st_blobs s' = st_blobs s \<Longrightarrow>
    st_intents s' = AList.delete u (st_intents s) \<Longrightarrow> catalog_wf s'"
  by (auto simp: catalog_wf_def distinct_delete dest: in_delete)

lemma wf_delete_row: "catalog_wf s \<Longrightarrow> st_records s' = AList.delete u (st_records s) \<Longrightarrow> st_blobs s' = st_blobs s \<Longrightarrow>
    st_intents s' = st_intents s \<Longrightarrow> catalog_wf s'"
  by (auto simp: catalog_wf_def distinct_delete dest: in_delete)

lemma wf_delete_blob: "catalog_wf s \<Longrightarrow> st_records s' = st_records s \<Longrightarrow> st_blobs s' = AList.delete t (st_blobs s) \<Longrightarrow>
    st_intents s' = st_intents s \<Longrightarrow> catalog_wf s'"
  by (auto simp: catalog_wf_def distinct_delete dest: in_delete)

lemma wf_mark_row: "catalog_wf s \<Longrightarrow> st_records s' = map (\<lambda>(k, m, p). (k, m, if k = u then q else p)) (st_records s) \<Longrightarrow>
    st_blobs s' = st_blobs s \<Longrightarrow> st_intents s' = st_intents s \<Longrightarrow> catalog_wf s'"
  by (auto simp: catalog_wf_def fst_mark simp del: map_map)

lemma wf_insert_row: "catalog_wf s \<Longrightarrow> st_records s' = (u, m, q) # st_records s \<Longrightarrow> st_blobs s' = st_blobs s \<Longrightarrow>
    st_intents s' = st_intents s \<Longrightarrow> map_of (st_records s) u = None \<Longrightarrow> uuid_is_v4 u \<Longrightarrow> cm_token m = token_of u \<Longrightarrow>
    catalog_wf s'"
  by (auto simp: catalog_wf_def map_of_eq_None_iff)

lemma wf_same: "catalog_wf s \<Longrightarrow> st_records s' = st_records s \<Longrightarrow> st_blobs s' = st_blobs s \<Longrightarrow>
    st_intents s' = st_intents s \<Longrightarrow> catalog_wf s'"
  by (simp add: catalog_wf_def)

lemma quarantine_path_effect:
  assumes "catalog_wf s"
  shows "\<exists>s'. quarantine_path t s = (Inr (), s') \<and> catalog_wf s' \<and> st_records s' = st_records s \<and>
    st_intents s' = st_intents s \<and> st_blobs s' = AList.delete t (st_blobs s) \<and> st_temps s' = st_temps s"
proof (cases "map_of (st_blobs s) t")
  case None
  then have "AList.delete t (st_blobs s) = st_blobs s" by (simp add: delete_id map_of_eq_None_iff)
  then show ?thesis using None assms by (simp add: quarantine_path_def modifies_def)
next
  case (Some b)
  have "catalog_wf (s\<lparr>st_blobs := AList.delete t (st_blobs s), st_quarantine := b # st_quarantine s\<rparr>)"
    by (rule wf_delete_blob [OF assms]) simp_all
  then show ?thesis using Some by (simp add: quarantine_path_def modifies_def)
qed

lemma adopt_intent_effect:
  assumes wf: "catalog_wf s" and u: "uuid_is_v4 u" "cm_token m = token_of u" and i: "map_of (st_intents s) u = Some m"
  shows "\<exists>s'. adopt_intent u m s = (Inr (), s') \<and> catalog_wf s' \<and> st_temps s' = st_temps s \<and>
    cell s' = (cell s)(token_of u := (if map_of (st_records s) u = None \<and> meta_checks m then Some (m, READY)
      else map_of (st_records s) u, None, map_of (st_blobs s) (token_of u)))"
proof (cases "map_of (st_records s) u = None \<and> meta_checks m")
  case True
  let ?s1 = "s\<lparr>st_records := (u, m, READY) # st_records s\<rparr>"
  have "catalog_wf ?s1" using wf u True by (intro wf_insert_row [OF wf, of _ u m READY]) simp_all
  then have "catalog_wf (?s1\<lparr>st_intents := AList.delete u (st_intents s), rv_recovered := rv_recovered s + 1\<rparr>)"
    by (rule wf_delete_intent) simp_all
  then show ?thesis using True
    by (auto simp: adopt_intent_def modifies_def row_conflict_iff [OF wf u(2)] cell_def fun_eq_iff delete_conv')
next
  case False
  have "catalog_wf (s\<lparr>st_intents := AList.delete u (st_intents s), rv_recovered := rv_recovered s + 1\<rparr>)"
    by (rule wf_delete_intent [OF wf]) simp_all
  then show ?thesis using False
    by (auto simp: adopt_intent_def modifies_def row_conflict_iff [OF wf u(2)] cell_def fun_eq_iff delete_conv')
qed

lemma recover_intent_step:
  assumes wf: "catalog_wf s" and u: "uuid_is_v4 u" "cm_token m = token_of u" and i: "map_of (st_intents s) u = Some m"
  shows "\<exists>s'. recover_intent lib cfg (u, m) s = (Inr (), s') \<and> catalog_wf s' \<and> st_temps s' = st_temps s \<and>
    cell s' = (cell s)(token_of u := intent_step lib cfg (token_of u) (cell s (token_of u)))"
proof (cases "map_of (st_blobs s) (token_of u)")
  case None
  have "catalog_wf (s\<lparr>st_intents := AList.delete u (st_intents s)\<rparr>)" by (rule wf_delete_intent [OF wf]) simp_all
  then show ?thesis using None i
    by (simp add: recover_intent_def comp_defs u delete_intent_def cell_updates cell_token intent_step_def)
next
  case (Some blob)
  show ?thesis
  proof (cases "check_intent lib cfg u m (readable cfg blob)")
    case (Inr v)
    with Some i adopt_intent_effect [OF wf u i] show ?thesis
      by (auto simp: recover_intent_def comp_defs u read_blob_eq cell_token intent_step_def intent_valid_def)
  next
    case (Inl exc)
    obtain s1 where s1: "quarantine_path (token_of u) s = (Inr (), s1)" "catalog_wf s1" "st_records s1 = st_records s"
      "st_intents s1 = st_intents s" "st_blobs s1 = AList.delete (token_of u) (st_blobs s)" "st_temps s1 = st_temps s"
      using quarantine_path_effect [OF wf] by blast
    let ?s2 = "s1\<lparr>st_intents := AList.delete u (st_intents s), rv_quarantined := rv_quarantined s1 + 1\<rparr>"
    have "catalog_wf ?s2" by (rule wf_delete_intent [OF s1(2)]) (simp_all add: s1)
    moreover have "recover_intent lib cfg (u, m) s = (Inr (), ?s2)"
      using Some Inl s1 by (simp add: recover_intent_def comp_defs u read_blob_eq delete_intent_def count_quarantined_def)
    moreover have "cell ?s2 = (cell s)(token_of u := (map_of (st_records s) u, None, None))"
      by (auto simp: cell_def fun_eq_iff delete_conv' s1)
    ultimately show ?thesis using Some Inl i s1(6)
      by (simp add: cell_token intent_step_def intent_valid_def)
  qed
qed
lemma recover_deletion_step:
  assumes wf: "catalog_wf s" and u: "cm_token m = token_of u" and r: "map_of (st_records s) u = Some (m, DELETING)"
  shows "\<exists>s'. recover_deletion busy (u, m, q) s = (Inr (), s') \<and> catalog_wf s' \<and> st_temps s' = st_temps s \<and>
    cell s' = (cell s)(token_of u := delete_step busy (token_of u) (cell s (token_of u)))"
proof -
  let ?s1 = "if token_of u \<in> set busy then s else s\<lparr>st_blobs := AList.delete (token_of u) (st_blobs s)\<rparr>"
  have wf1: "catalog_wf ?s1" using wf wf_delete_blob [OF wf, of "s\<lparr>st_blobs := AList.delete (token_of u) (st_blobs s)\<rparr>"] by simp
  let ?s2 = "?s1\<lparr>st_records := AList.delete u (st_records s), rv_deletions := rv_deletions ?s1 + 1\<rparr>"
  have "catalog_wf ?s2" by (rule wf_delete_row [OF wf1]) simp_all
  moreover have "recover_deletion busy (u, m, q) s = (Inr (), ?s2)"
    by (simp add: recover_deletion_def comp_defs u safe_unlink_def delete_row_def)
  moreover have "cell ?s2 = (cell s)(token_of u := delete_step busy (token_of u) (cell s (token_of u)))"
    using r by (auto simp: cell_def delete_step_def fun_eq_iff delete_conv')
  ultimately show ?thesis by simp
qed

lemma verify_row_step:
  assumes wf: "catalog_wf s" and u: "cm_token m = token_of u" and r: "map_of (st_records s) u = Some (m, READY)"
  shows "\<exists>s'. verify_row lib cfg (u, m, q) s = (Inr (), s') \<and> catalog_wf s' \<and> st_temps s' = st_temps s \<and>
    cell s' = (cell s)(token_of u := verify_step lib cfg (token_of u) (cell s (token_of u)))"
proof (cases "\<exists>b. map_of (st_blobs s) (token_of u) = Some b \<and> row_valid lib cfg u m b")
  case True
  then obtain b e where b: "map_of (st_blobs s) (token_of u) = Some b" "decoded lib cfg u m b = Inr e"
    by (auto simp: row_valid_def isl_def) (metis sum.exhaust)
  let ?s1 = "s\<lparr>rv_verified := rv_verified s + 1\<rparr>"
  have "catalog_wf ?s1" by (rule wf_same [OF wf]) simp_all
  moreover have "cell ?s1 = cell s" by (rule cell_cong) simp_all
  moreover have "verify_row lib cfg (u, m, q) s = (Inr (), ?s1)"
    using b by (simp add: verify_row_def decode_row_def comp_defs u read_blob_eq decoded_def)
  ultimately show ?thesis using b r by (simp add: verify_step_def cell_token row_valid_def fun_upd_idem)
next
  case False
  then obtain exc where exc: "bindS (read_blob cfg s (token_of u)) (decode_blob lib cfg u m) = Inl exc"
    by (cases "map_of (st_blobs s) (token_of u)")
      (auto simp: read_blob_eq row_valid_def decoded_def isl_def)
  obtain s1 where s1: "quarantine_path (token_of u) s = (Inr (), s1)" "catalog_wf s1" "st_records s1 = st_records s"
    "st_intents s1 = st_intents s" "st_blobs s1 = AList.delete (token_of u) (st_blobs s)" "st_temps s1 = st_temps s"
    using quarantine_path_effect [OF wf] by blast
  let ?s2 = "s1\<lparr>st_records := map (\<lambda>(k, m, p). (k, m, if k = u then QUARANTINED else p)) (st_records s),
    rv_quarantined := rv_quarantined s1 + 1\<rparr>"
  have "catalog_wf ?s2" by (rule wf_mark_row [OF s1(2), of _ u QUARANTINED]) (simp_all add: s1)
  moreover have "verify_row lib cfg (u, m, q) s = (Inr (), ?s2)"
    using exc s1 by (simp add: verify_row_def decode_row_def comp_defs u quarantine_row_def mark_row_def count_quarantined_def)
  moreover have "cell ?s2 = (cell s)(token_of u := (Some (m, QUARANTINED), map_of (st_intents s) u, None))"
    using r by (auto simp: cell_def fun_eq_iff delete_conv' map_of_mark s1)
  ultimately show ?thesis using False r s1(6)
    by (auto simp: verify_step_def cell_token split: option.split)
qed

lemma index_orphan_ok:
  assumes wf: "catalog_wf s" and c: "cell s t = (None, None, Some b)" and m: "orphan_row lib cfg t b = Some m"
  shows "\<exists>s'. index_orphan lib cfg t s = (Inr (), s') \<and> catalog_wf s' \<and> st_temps s' = st_temps s \<and>
    cell s' = (cell s)(t := (Some (m, READY), None, Some b))"
proof -
  obtain e where e1: "bindS (readable cfg b) (decode_envelope lib (sc_max_blob_bytes cfg)) = Inr e"
    using m by (cases "bindS (readable cfg b) (decode_envelope lib (sc_max_blob_bytes cfg))") (simp_all add: orphan_row_def)
  then have e: "bindS (readable cfg b) (decode_envelope lib (sc_max_blob_bytes cfg)) = Inr e"
    "uuid_is_v4 (ev_record_id e)" "t = token_of (ev_record_id e)" "meta_checks m"
    "m = metadata_of e b t (bl_sha256 lib b)"
    using m by (simp_all add: orphan_row_def Let_def split: if_splits)
  let ?u = "ev_record_id e"
  have none: "map_of (st_records s) ?u = None" "map_of (st_blobs s) t = Some b" "map_of (st_intents s) ?u = None"
    using c e(3) by (simp_all add: cell_token)
  have read: "readable cfg b = Inr b" "decode_envelope lib (sc_max_blob_bytes cfg) b = Inr e"
    using e(1) by (auto simp: bindS_Inr readable_Inr)
  have tok: "cm_token m = token_of ?u" using e(3,5) by (simp add: metadata_of_def)
  let ?s1 = "s\<lparr>st_records := (?u, m, READY) # st_records s, rv_orphans := rv_orphans s + 1\<rparr>"
  have "catalog_wf ?s1" by (rule wf_insert_row [OF wf, of _ ?u m READY]) (simp_all add: none e(2) tok)
  moreover have "index_orphan lib cfg t s = (Inr (), ?s1)"
    using read e(2,4) none(1,2) row_conflict_iff [OF wf tok]
    by (simp add: index_orphan_def comp_defs read_file_eq blob_token_def insert_ready_def e(5) [symmetric] e(3) [symmetric])
  moreover have "cell ?s1 = (cell s)(t := (Some (m, READY), None, Some b))"
    using none e(3) by (auto simp: cell_def fun_eq_iff)
  ultimately show ?thesis by simp
qed

lemma index_orphan_fails:
  assumes "cell s t = (None, None, Some b)" and "orphan_row lib cfg t b = None"
  shows "\<exists>exc. index_orphan lib cfg t s = (Inl exc, s)"
proof -
  have b: "map_of (st_blobs s) t = Some b" using assms(1) by (simp add: cell_def)
  consider exc where "readable cfg b = Inl exc" | exc where "readable cfg b = Inr b" "decode_envelope lib (sc_max_blob_bytes cfg) b = Inl exc"
    | e where "readable cfg b = Inr b" "decode_envelope lib (sc_max_blob_bytes cfg) b = Inr e"
    by (cases "readable cfg b"; cases "decode_envelope lib (sc_max_blob_bytes cfg) b") (auto simp: readable_Inr)
  then show ?thesis using assms(2)
    by cases (auto simp: index_orphan_def comp_defs read_file_eq b orphan_row_def Let_def blob_token_def insert_ready_def
        ensure_def bindS_def split: if_splits)
qed

lemma recover_orphan_step:
  assumes wf: "catalog_wf s" and c: "cell s t = (None, None, Some b)" and t: "t \<notin> set referenced" "lre_file t"
  shows "\<exists>s'. recover_orphan lib cfg referenced t s = (Inr (), s') \<and> catalog_wf s' \<and> st_temps s' = st_temps s \<and>
    cell s' = (cell s)(t := orphan_step lib cfg t (cell s t))"
proof (cases "orphan_row lib cfg t b")
  case (Some m)
  with index_orphan_ok [OF wf c Some] t show ?thesis by (auto simp: recover_orphan_def catchE_def orphan_step_def c)
next
  case None
  obtain exc where exc: "index_orphan lib cfg t s = (Inl exc, s)" using index_orphan_fails [OF c None] by blast
  obtain s1 where s1: "quarantine_path t s = (Inr (), s1)" "catalog_wf s1" "st_records s1 = st_records s"
    "st_intents s1 = st_intents s" "st_blobs s1 = AList.delete t (st_blobs s)" "st_temps s1 = st_temps s"
    using quarantine_path_effect [OF wf] by blast
  let ?s2 = "s1\<lparr>rv_quarantined := rv_quarantined s1 + 1\<rparr>"
  have "catalog_wf ?s2" by (rule wf_same [OF s1(2)]) simp_all
  moreover have "recover_orphan lib cfg referenced t s = (Inr (), ?s2)"
    using exc s1 t by (simp add: recover_orphan_def comp_defs count_quarantined_def)
  moreover have "cell ?s2 = (cell s)(t := (None, None, None))"
    using c by (auto simp: cell_def fun_eq_iff delete_conv' s1)
  ultimately show ?thesis using None t s1(6) by (simp add: c orphan_step_def)
qed
section \<open>Recovery on every cell\<close>

definition settled_at :: "recovery \<Rightarrow> recovery \<Rightarrow> (string \<Rightarrow> cell \<Rightarrow> cell) \<Rightarrow> bool" where
  "settled_at s s' f \<longleftrightarrow> catalog_wf s' \<and> st_temps s' = st_temps s \<and> (\<forall>t. cell s' t = f t (cell s t))"

lemma by_token_some: "by_token f t = Some x \<longleftrightarrow> (\<exists>u. t = token_of u \<and> f u = Some x)"
  by (auto simp: by_token_def)

lemma each_cells:
  assumes wf: "catalog_wf s" and dist: "distinct (map key xs)"
    and step: "\<And>x s'. x \<in> set xs \<Longrightarrow> catalog_wf s' \<Longrightarrow> cell s' (key x) = cell s (key x) \<Longrightarrow>
      \<exists>s''. body x s' = (Inr (), s'') \<and> catalog_wf s'' \<and> st_temps s'' = st_temps s' \<and>
        cell s'' = (cell s')(key x := f (key x) (cell s' (key x)))"
    and idle: "\<And>t. t \<notin> key ` set xs \<Longrightarrow> f t (cell s t) = cell s t"
  shows "\<exists>s'. each body xs s = (Inr (), s') \<and> settled_at s s' f"
proof -
  let ?P = "\<lambda>s'. catalog_wf s' \<and> st_temps s' = st_temps s"
  have "\<exists>s'. each body xs s = (Inr (), s') \<and> ?P s' \<and>
      (\<forall>t. cell s' t = (if t \<in> key ` set xs then f t (cell s t) else cell s t))"
    by (rule each_pointwise [where P = ?P and view = cell]) (use step dist wf in force)+
  then show ?thesis using idle by (auto simp: settled_at_def)
qed

lemma distinct_tokens: "distinct (map fst xs) \<Longrightarrow> distinct (map (\<lambda>(u, _). token_of u) xs)"
  by (induction xs) (auto simp: image_iff)

lemma intents_settled:
  assumes "catalog_wf s"
  shows "\<exists>s'. recover_intents lib cfg s = (Inr (), s') \<and> settled_at s s' (intent_step lib cfg)"
proof -
  let ?xs = "sort_key fst (st_intents s)"
  have dist: "distinct (map (\<lambda>(u, _). token_of u) ?xs)"
    using assms by (intro distinct_tokens) (simp add: catalog_wf_def distinct_map)
  have "\<exists>s'. each (recover_intent lib cfg) ?xs s = (Inr (), s') \<and> settled_at s s' (intent_step lib cfg)"
  proof (rule each_cells [OF assms dist])
    fix x and s' :: recovery assume x: "x \<in> set ?xs" and wf: "catalog_wf s'"
      and same: "cell s' (case x of (u, _) \<Rightarrow> token_of u) = cell s (case x of (u, _) \<Rightarrow> token_of u)"
    obtain u m where um: "x = (u, m)" by (cases x)
    have i: "map_of (st_intents s) u = Some m" using x um assms by (simp add: catalog_wf_def)
    with same um have "map_of (st_intents s') u = Some m" by (simp add: cell_token)
    from recover_intent_step [OF wf _ _ this] wf_intent [OF assms i] um
    show "\<exists>s''. recover_intent lib cfg x s' = (Inr (), s'') \<and> catalog_wf s'' \<and> st_temps s'' = st_temps s' \<and>
        cell s'' = (cell s')((case x of (u, _) \<Rightarrow> token_of u) :=
          intent_step lib cfg (case x of (u, _) \<Rightarrow> token_of u) (cell s' (case x of (u, _) \<Rightarrow> token_of u)))"
      by auto
  next
    fix t assume t: "t \<notin> (\<lambda>(u, _). token_of u) ` set ?xs"
    have "by_token (map_of (st_intents s)) t = None"
    proof (rule ccontr)
      assume "by_token (map_of (st_intents s)) t \<noteq> None"
      then obtain u m where "t = token_of u" "(u, m) \<in> set (st_intents s)"
        by (auto simp: by_token_some dest: map_of_SomeD)
      with t show False by (force simp: image_iff)
    qed
    then show "intent_step lib cfg t (cell s t) = cell s t" by (simp add: intent_step_def cell_def)
  qed
  then show ?thesis by (simp add: recover_intents_def bindE_def reads_def)
qed

lemma rows_settled:
  assumes wf: "catalog_wf s" and xs: "set xs = {(u, m, p) \<in> set (st_records s). p = q}" "distinct (map fst xs)"
    and step: "\<And>s' u m. catalog_wf s' \<Longrightarrow> cm_token m = token_of u \<Longrightarrow> map_of (st_records s') u = Some (m, q) \<Longrightarrow>
      \<exists>s''. body (u, m, q) s' = (Inr (), s'') \<and> catalog_wf s'' \<and> st_temps s'' = st_temps s' \<and>
        cell s'' = (cell s')(token_of u := f (token_of u) (cell s' (token_of u)))"
    and idle: "\<And>t r i b. (\<forall>m. r \<noteq> Some (m, q)) \<Longrightarrow> f t (r, i, b) = (r, i, b)"
  shows "\<exists>s'. each body xs s = (Inr (), s') \<and> settled_at s s' f"
proof (rule each_cells [OF wf distinct_tokens [OF xs(2)]])
  fix x and s' :: recovery assume x: "x \<in> set xs" and wf': "catalog_wf s'"
    and same: "cell s' (case x of (u, _) \<Rightarrow> token_of u) = cell s (case x of (u, _) \<Rightarrow> token_of u)"
  obtain u m where um: "x = (u, m, q)" "(u, m, q) \<in> set (st_records s)"
    using x unfolding xs(1) by auto
  then have r: "map_of (st_records s) u = Some (m, q)" using wf by (simp add: catalog_wf_def)
  with same um have "map_of (st_records s') u = Some (m, q)" by (simp add: cell_token)
  from step [OF wf' _ this] wf_row [OF wf r] um
  show "\<exists>s''. body x s' = (Inr (), s'') \<and> catalog_wf s'' \<and> st_temps s'' = st_temps s' \<and>
      cell s'' = (cell s')((case x of (u, _) \<Rightarrow> token_of u) :=
        f (case x of (u, _) \<Rightarrow> token_of u) (cell s' (case x of (u, _) \<Rightarrow> token_of u)))"
    by auto
next
  fix t assume t: "t \<notin> (\<lambda>(u, _). token_of u) ` set xs"
  have "by_token (map_of (st_records s)) t \<noteq> Some (m, q)" for m
  proof
    assume "by_token (map_of (st_records s)) t = Some (m, q)"
    then obtain u where "t = token_of u" "(u, m, q) \<in> set (st_records s)"
      by (auto simp: by_token_some dest: map_of_SomeD)
    with t xs(1) show False by (force simp: image_iff)
  qed
  then show "f t (cell s t) = cell s t" by (simp add: cell_def idle)
qed

lemma deletions_settled:
  assumes "catalog_wf s"
  shows "\<exists>s'. recover_deletions busy s = (Inr (), s') \<and> settled_at s s' (delete_step busy)"
proof -
  let ?xs = "filter (\<lambda>(k, m, q). q = DELETING) (st_records s)"
  have "\<exists>s'. each (recover_deletion busy) ?xs s = (Inr (), s') \<and> settled_at s s' (delete_step busy)"
    by (rule rows_settled [OF assms, where q = DELETING])
      (use assms recover_deletion_step in \<open>auto simp: catalog_wf_def delete_step_def distinct_map_filter
        split: option.split catalog_state.split\<close>)
  then show ?thesis by (simp add: recover_deletions_def bindE_def reads_def)
qed

lemma ready_settled:
  assumes "catalog_wf s"
  shows "\<exists>s'. verify_ready lib cfg s = (Inr (), s') \<and> settled_at s s' (verify_step lib cfg)"
proof -
  let ?xs = "sort_key fst (filter (\<lambda>(k, m, q). q = READY) (st_records s))"
  have "\<exists>s'. each (verify_row lib cfg) ?xs s = (Inr (), s') \<and> settled_at s s' (verify_step lib cfg)"
    by (rule rows_settled [OF assms, where q = READY])
      (use assms verify_row_step in \<open>auto simp: catalog_wf_def verify_step_def distinct_map distinct_map_filter
        intro: inj_on_subset split: option.split catalog_state.split\<close>)
  then show ?thesis by (simp add: verify_ready_def bindE_def reads_def)
qed
lemma orphans_settled:
  assumes wf: "catalog_wf s" and none: "\<And>t. fst (snd (cell s t)) = None"
  shows "\<exists>s'. recover_orphans lib cfg s = (Inr (), s') \<and> settled_at s s' (orphan_step lib cfg)"
proof -
  let ?ref = "referenced_tokens s"
  let ?body = "recover_orphan lib cfg ?ref"
  have ref: "t \<in> set ?ref \<longleftrightarrow> fst (cell s t) \<noteq> None" for t
  proof -
    have "st_intents s = []"
    proof (cases "st_intents s")
      case (Cons x xs)
      then have "map_of (st_intents s) (fst x) \<noteq> None" by (cases x) simp
      then show ?thesis using none [of "token_of (fst x)"] by (simp add: cell_token)
    qed
    then have "t \<in> set ?ref \<longleftrightarrow> (\<exists>u m q. (u, m, q) \<in> set (st_records s) \<and> t = token_of u)"
      using wf by (force simp: referenced_tokens_def catalog_wf_def image_iff)
    also have "\<dots> \<longleftrightarrow> (\<exists>x. by_token (map_of (st_records s)) t = Some x)"
      using wf by (auto simp: by_token_some catalog_wf_def)
    finally show ?thesis by (simp add: cell_def)
  qed
  have skip: "each ?body xs = each ?body (filter (\<lambda>t. t \<notin> set ?ref) xs)" for xs
    by (induction xs) (auto simp: recover_orphan_def seqE_def bindE_def ret_def)
  let ?xs = "filter (\<lambda>t. t \<notin> set ?ref) (iter_blob_files s)"
  have dist: "distinct (map id ?xs)" using wf by (simp add: iter_blob_files_def catalog_wf_def)
  have "\<exists>s'. each ?body ?xs s = (Inr (), s') \<and> settled_at s s' (orphan_step lib cfg)"
  proof (rule each_cells [OF wf dist])
    fix t and s' :: recovery
    assume t: "t \<in> set ?xs" and wf': "catalog_wf s'" and same: "cell s' (id t) = cell s (id t)"
    have "t \<notin> set ?ref" "lre_file t" using t by (simp_all add: iter_blob_files_def)
    moreover from this(1) have "fst (cell s t) = None" using ref [of t] by blast
    moreover obtain b where "map_of (st_blobs s) t = Some b" using t
      by (auto simp: iter_blob_files_def) (metis not_None_eq map_of_eq_None_iff image_eqI fst_conv)
    ultimately have "cell s' t = (None, None, Some b)" using same none [of t] by (simp add: cell_def)
    from recover_orphan_step [OF wf' this \<open>t \<notin> set ?ref\<close> \<open>lre_file t\<close>]
    show "\<exists>s''. ?body t s' = (Inr (), s'') \<and> catalog_wf s'' \<and> st_temps s'' = st_temps s' \<and>
        cell s'' = (cell s')(id t := orphan_step lib cfg (id t) (cell s' (id t)))" by simp
  next
    fix t assume t: "t \<notin> id ` set ?xs"
    have "orphan_step lib cfg t (cell s t) \<noteq> cell s t \<Longrightarrow> t \<in> set ?xs"
    proof -
      assume "orphan_step lib cfg t (cell s t) \<noteq> cell s t"
      then obtain b where "cell s t = (None, None, Some b)" "lre_file t"
        by (auto simp: orphan_step_def split: prod.splits option.splits if_splits)
      then show "t \<in> set ?xs" using ref [of t]
        by (auto simp: iter_blob_files_def cell_def dest: map_of_SomeD intro: rev_image_eqI)
    qed
    with t show "orphan_step lib cfg t (cell s t) = cell s t" by auto
  qed
  then have "\<exists>s'. each ?body (iter_blob_files s) s = (Inr (), s') \<and> settled_at s s' (orphan_step lib cfg)"
    by (subst skip)
  then show ?thesis unfolding recover_orphans_def by (simp add: bindE_def reads_def)
qed

definition recover_cell :: "blob_lib \<Rightarrow> storage_config \<Rightarrow> string list \<Rightarrow> string \<Rightarrow> cell \<Rightarrow> cell" where
  "recover_cell lib cfg busy t c =
    orphan_step lib cfg t (verify_step lib cfg t (delete_step busy t (intent_step lib cfg t c)))"

lemma intent_step_done: "fst (snd (intent_step lib cfg t c)) = None"
  by (cases c) (auto simp: intent_step_def split: option.splits)

lemma later_steps_done:
  "fst (snd (delete_step busy t c)) = fst (snd c)" "fst (snd (verify_step lib cfg t c)) = fst (snd c)"
  by (cases c; auto simp: delete_step_def verify_step_def split: option.splits catalog_state.splits)+

lemma recovered_cells:
  assumes wf: "catalog_wf s"
  shows "\<exists>rep s'. recover_sync lib cfg busy s = (Inr rep, s') \<and> catalog_wf s' \<and> st_temps s' = [] \<and>
    (\<forall>t. cell s' t = recover_cell lib cfg busy t (cell s t))"
proof -
  let ?s0 = "(start_recovery s)\<lparr>st_temps := [], rv_temps := length (st_temps s)\<rparr>"
  have s0: "remove_temporaries (start_recovery s) = (Inr (), ?s0)" "catalog_wf ?s0" "cell ?s0 = cell s"
    using wf by (simp_all add: remove_temporaries_def modifies_def start_recovery_def store.extend_def recovery.fields_def
        catalog_wf_def cell_def fun_eq_iff)
  obtain s1 where s1: "recover_intents lib cfg ?s0 = (Inr (), s1)" "settled_at ?s0 s1 (intent_step lib cfg)"
    using intents_settled [OF s0(2)] by blast
  then obtain s2 where s2: "recover_deletions busy s1 = (Inr (), s2)" "settled_at s1 s2 (delete_step busy)"
    using deletions_settled by (metis settled_at_def)
  then obtain s3 where s3: "verify_ready lib cfg s2 = (Inr (), s3)" "settled_at s2 s3 (verify_step lib cfg)"
    using ready_settled by (metis settled_at_def)
  have "fst (snd (cell s3 t)) = None" for t
    using s1(2) s2(2) s3(2) by (simp add: settled_at_def later_steps_done intent_step_done)
  then obtain s4 where s4: "recover_orphans lib cfg s3 = (Inr (), s4)" "settled_at s3 s4 (orphan_step lib cfg)"
    using orphans_settled s3 by (metis settled_at_def)
  have "recovery_run lib cfg busy (start_recovery s) = (Inr (), s4)"
    using s0(1) s1(1) s2(1) s3(1) s4(1) by (simp add: recovery_run_def seqE_def bindE_def)
  moreover have "catalog_wf s4" "st_temps s4 = []" "\<forall>t. cell s4 t = recover_cell lib cfg busy t (cell s t)"
    using s0(3) s1(2) s2(2) s3(2) s4(2) by (simp_all add: settled_at_def recover_cell_def)
  moreover have "catalog_wf (store.truncate s4) = catalog_wf s4" "cell (store.truncate s4) = cell s4"
    by (simp_all add: catalog_wf_def cell_def fun_eq_iff store.truncate_def)
  ultimately show ?thesis by (simp add: recover_sync_def store.truncate_def)
qed
section \<open>The store as a map\<close>

text \<open>
  What the store holds, seen from outside: the envelope a cell yields, and the map from identifiers
  to envelopes.
\<close>

definition cell_value :: "blob_lib \<Rightarrow> storage_config \<Rightarrow> record_uuid \<Rightarrow> cell \<Rightarrow> envelope option" where
  "cell_value lib cfg u c = (case c of
     (Some (m, READY), _, Some blob) \<Rightarrow> (case decoded lib cfg u m blob of Inr e \<Rightarrow> Some e | Inl _ \<Rightarrow> None)
   | _ \<Rightarrow> None)"

definition holdings :: "blob_lib \<Rightarrow> storage_config \<Rightarrow> 'z store_scheme \<Rightarrow> record_uuid \<rightharpoonup> envelope" where
  "holdings lib cfg s u = cell_value lib cfg u (cell s (token_of u))"

text \<open>The invariant of a store in use: what each cell may look like between two operations.\<close>

definition cell_ok :: "blob_lib \<Rightarrow> storage_config \<Rightarrow> record_uuid \<Rightarrow> cell \<Rightarrow> bool" where
  "cell_ok lib cfg u c = (case c of
     (Some (m, q), i, b) \<Rightarrow> i = None \<and> (q = READY \<longrightarrow> (case b of Some blob \<Rightarrow> row_valid lib cfg u m blob | None \<Rightarrow> False))
   | (None, Some m, b) \<Rightarrow> meta_checks m \<and> (case b of Some blob \<Rightarrow> row_valid lib cfg u m blob | None \<Rightarrow> True)
   | (None, None, b) \<Rightarrow> b = None)"

definition store_ok :: "blob_lib \<Rightarrow> storage_config \<Rightarrow> 'z store_scheme \<Rightarrow> bool" where
  "store_ok lib cfg s \<longleftrightarrow> catalog_wf s \<and> (\<forall>u. cell_ok lib cfg u (cell s (token_of u)))"

text \<open>A cell after recovery: a readable record, a quarantined row or nothing.\<close>

definition cell_settled :: "blob_lib \<Rightarrow> storage_config \<Rightarrow> record_uuid \<Rightarrow> cell \<Rightarrow> bool" where
  "cell_settled lib cfg u c \<longleftrightarrow> cell_ok lib cfg u c \<and> fst (snd c) = None \<and> (\<forall>m. fst c \<noteq> Some (m, DELETING))"

definition store_settled :: "blob_lib \<Rightarrow> storage_config \<Rightarrow> 'z store_scheme \<Rightarrow> bool" where
  "store_settled lib cfg s \<longleftrightarrow> catalog_wf s \<and> st_temps s = [] \<and> st_intents s = [] \<and>
    (\<forall>u. cell_settled lib cfg u (cell s (token_of u)))"

lemma settled_ok: "store_settled lib cfg s \<Longrightarrow> store_ok lib cfg s"
  by (simp add: store_settled_def store_ok_def cell_settled_def)

lemma row_valid_orphan:
  assumes "orphan_row lib cfg (token_of u) b = Some m"
  shows "row_valid lib cfg u m b" "meta_checks m"
proof -
  obtain e where e1: "bindS (readable cfg b) (decode_envelope lib (sc_max_blob_bytes cfg)) = Inr e"
    using assms by (cases "bindS (readable cfg b) (decode_envelope lib (sc_max_blob_bytes cfg))") (simp_all add: orphan_row_def)
  then have e: "u = ev_record_id e" "meta_checks m" "m = metadata_of e b (token_of u) (bl_sha256 lib b)"
    using assms by (simp_all add: orphan_row_def Let_def split: if_splits)
  have "readable cfg b = Inr b" "decode_envelope lib (sc_max_blob_bytes cfg) b = Inr e"
    using e1 by (auto simp: bindS_Inr readable_Inr)
  then show "row_valid lib cfg u m b" using e(1,3)
    by (simp add: row_valid_def decoded_def decode_blob_def metadata_of_def)
  show "meta_checks m" by (rule e(2))
qed

lemma row_valid_orphan_row:
  assumes "row_valid lib cfg u m b" and "meta_checks m" and "uuid_is_v4 u" and "cm_token m = token_of u"
  shows "orphan_row lib cfg (token_of u) b = Some m"
proof -
  obtain e where "decoded lib cfg u m b = Inr e" using assms(1) by (cases "decoded lib cfg u m b") (simp_all add: row_valid_def)
  then have e: "readable cfg b = Inr b" "decode_envelope lib (sc_max_blob_bytes cfg) b = Inr e" "ev_record_id e = u"
    "metadata_of e b (cm_token m) (cm_digest m) = m" "bl_sha256 lib b = cm_digest m"
    by (auto simp: decoded_def decode_blob_def bindS_Inr ensure_Inr readable_Inr)
  then have "metadata_of e b (token_of u) (bl_sha256 lib b) = m" using assms(4) by simp
  then show ?thesis using e assms(2,3) by (simp add: orphan_row_def Let_def)
qed

lemma row_valid_intent:
  assumes "row_valid lib cfg u m b"
  shows "intent_valid lib cfg u m b"
proof -
  obtain e where "decoded lib cfg u m b = Inr e" using assms by (cases "decoded lib cfg u m b") (simp_all add: row_valid_def)
  then have "readable cfg b = Inr b" "decode_envelope lib (sc_max_blob_bytes cfg) b = Inr e" "ev_record_id e = u"
    "bl_sha256 lib b = cm_digest m"
    by (auto simp: decoded_def decode_blob_def bindS_Inr ensure_Inr readable_Inr)
  then show ?thesis by (simp add: intent_valid_def check_intent_def)
qed

lemma verified_settled:
  assumes "\<forall>m. r \<noteq> Some (m, DELETING)"
  shows "cell_settled lib cfg u (orphan_step lib cfg (token_of u) (verify_step lib cfg (token_of u) (r, None, b)))"
proof (cases r)
  case None
  then show ?thesis
    by (cases b; cases "orphan_row lib cfg (token_of u) (the b)")
      (auto simp: verify_step_def orphan_step_def cell_settled_def cell_ok_def dest: row_valid_orphan)
next
  case (Some mq)
  then obtain m q where r: "r = Some (m, q)" "q \<noteq> DELETING" using assms by (cases mq) auto
  then show ?thesis
    by (cases q; cases b) (auto simp: verify_step_def orphan_step_def cell_settled_def cell_ok_def)
qed

lemma recover_cell_settled: "cell_settled lib cfg u (recover_cell lib cfg busy (token_of u) c)"
proof -
  obtain r b where c1: "intent_step lib cfg (token_of u) c = (r, None, b)"
    using intent_step_done [of lib cfg "token_of u" c] by (cases "intent_step lib cfg (token_of u) c") auto
  obtain r' b' where "delete_step busy (token_of u) (r, None, b) = (r', None, b')" "\<forall>m. r' \<noteq> Some (m, DELETING)"
    by (cases r; cases "snd (the r)") (auto simp: delete_step_def)
  then show ?thesis using verified_settled by (simp add: recover_cell_def c1)
qed

text \<open>A write that a crash interrupted after its file was in place: recovery completes it.\<close>

definition pending_value :: "blob_lib \<Rightarrow> storage_config \<Rightarrow> record_uuid \<Rightarrow> cell \<Rightarrow> envelope option" where
  "pending_value lib cfg u c = (case c of
     (None, Some m, Some blob) \<Rightarrow> (case decoded lib cfg u m blob of Inr e \<Rightarrow> Some e | Inl _ \<Rightarrow> None)
   | _ \<Rightarrow> None)"

definition interrupted :: "blob_lib \<Rightarrow> storage_config \<Rightarrow> 'z store_scheme \<Rightarrow> record_uuid \<rightharpoonup> envelope" where
  "interrupted lib cfg s u = pending_value lib cfg u (cell s (token_of u))"

lemma recover_held:
  "row_valid lib cfg u m blob \<Longrightarrow>
    recover_cell lib cfg busy (token_of u) (Some (m, READY), None, Some blob) = (Some (m, READY), None, Some blob)"
  by (simp add: recover_cell_def intent_step_def delete_step_def verify_step_def orphan_step_def)

lemma recover_isolated:
  "recover_cell lib cfg busy (token_of u) (Some (m, QUARANTINED), None, b) = (Some (m, QUARANTINED), None, b)"
  by (simp add: recover_cell_def intent_step_def delete_step_def verify_step_def orphan_step_def)

lemma recover_adopts:
  assumes "row_valid lib cfg u m blob" and "meta_checks m"
  shows "recover_cell lib cfg busy (token_of u) (None, Some m, Some blob) = (Some (m, READY), None, Some blob)"
  using assms row_valid_intent [OF assms(1)]
  by (simp add: recover_cell_def intent_step_def delete_step_def verify_step_def orphan_step_def)

lemma recover_deletes:
  "token_of u \<notin> set busy \<Longrightarrow> recover_cell lib cfg busy (token_of u) (Some (m, DELETING), None, b) = (None, None, None)"
  by (simp add: recover_cell_def intent_step_def delete_step_def verify_step_def orphan_step_def)

lemma recover_nothing:
  "recover_cell lib cfg busy (token_of u) (None, i, None) = (None, None, None)"
  by (cases i) (simp_all add: recover_cell_def intent_step_def delete_step_def verify_step_def orphan_step_def)

lemma cell_cases:
  assumes "cell_ok lib cfg u c"
  obtains (held) m blob where "c = (Some (m, READY), None, Some blob)" "row_valid lib cfg u m blob"
    | (marked) m b where "c = (Some (m, DELETING), None, b)"
    | (isolated) m b where "c = (Some (m, QUARANTINED), None, b)"
    | (pending) m blob where "c = (None, Some m, Some blob)" "row_valid lib cfg u m blob" "meta_checks m"
    | (empty) i where "c = (None, i, None)"
proof -
  obtain r i b where c: "c = (r, i, b)" by (cases c)
  show thesis
  proof (cases r)
    case None
    then show thesis using assms that(4,5) by (cases i; cases b) (auto simp: c cell_ok_def)
  next
    case (Some mq)
    obtain m q where "mq = (m, q)" by (cases mq)
    with Some show thesis using assms that(1,2,3) by (cases q; cases b) (auto simp: c cell_ok_def)
  qed
qed

lemma recover_value:
  assumes "cell_ok lib cfg u c" and "token_of u \<notin> set busy"
  shows "cell_value lib cfg u (recover_cell lib cfg busy (token_of u) c) =
    (case pending_value lib cfg u c of Some e \<Rightarrow> Some e | None \<Rightarrow> cell_value lib cfg u c)"
  using assms(1)
proof (cases rule: cell_cases)
  case held
  then show ?thesis by (simp add: recover_held pending_value_def)
next
  case marked
  then show ?thesis using assms(2) by (simp add: recover_deletes pending_value_def cell_value_def)
next
  case isolated
  then show ?thesis by (simp add: recover_isolated pending_value_def)
next
  case (pending m blob)
  then show ?thesis
    by (cases "decoded lib cfg u m blob") (simp_all add: recover_adopts pending_value_def cell_value_def)
next
  case (empty i)
  then show ?thesis by (cases i) (simp_all add: recover_nothing pending_value_def cell_value_def)
qed

lemma recover_settles:
  assumes "catalog_wf s"
  obtains rep s' where "recover_sync lib cfg busy s = (Inr rep, s')" "store_settled lib cfg s'"
    "\<forall>t. cell s' t = recover_cell lib cfg busy t (cell s t)"
proof -
  obtain rep s' where s': "recover_sync lib cfg busy s = (Inr rep, s')" "catalog_wf s'" "st_temps s' = []"
    "\<forall>t. cell s' t = recover_cell lib cfg busy t (cell s t)"
    using recovered_cells [OF assms] by blast
  have set: "cell_settled lib cfg u (cell s' (token_of u))" for u by (simp add: s'(4) recover_cell_settled)
  have "st_intents s' = []"
  proof (cases "st_intents s'")
    case (Cons x xs)
    then have "map_of (st_intents s') (fst x) \<noteq> None" by (cases x) simp
    then show ?thesis using set [of "fst x"] by (simp add: cell_token cell_settled_def)
  qed
  with s' set have "store_settled lib cfg s'" by (simp add: store_settled_def)
  with s' that show thesis by blast
qed

lemma recover_holdings:
  assumes "store_ok lib cfg s"
  obtains rep s' where "recover_sync lib cfg [] s = (Inr rep, s')" "store_settled lib cfg s'"
    "holdings lib cfg s' = holdings lib cfg s ++ interrupted lib cfg s"
proof -
  obtain rep s' where s': "recover_sync lib cfg [] s = (Inr rep, s')" "store_settled lib cfg s'"
    "\<forall>t. cell s' t = recover_cell lib cfg [] t (cell s t)"
    using recover_settles assms store_ok_def by metis
  have "holdings lib cfg s' = holdings lib cfg s ++ interrupted lib cfg s"
  proof
    fix u
    have "cell_ok lib cfg u (cell s (token_of u))" using assms by (simp add: store_ok_def)
    from recover_value [OF this, of "[]"] show "holdings lib cfg s' u = (holdings lib cfg s ++ interrupted lib cfg s) u"
      by (simp add: holdings_def s'(3) interrupted_def map_add_def split: option.split)
  qed
  with s' that show thesis by blast
qed
section \<open>Operations on a store in use\<close>

lemma get_held:
  assumes "store_ok lib cfg s"
  shows "get_sync lib cfg u s = (Inr (holdings lib cfg s u), s)"
proof -
  have wf: "catalog_wf s" and ok: "cell_ok lib cfg u (cell s (token_of u))" using assms by (simp_all add: store_ok_def)
  show ?thesis using ok
  proof (cases rule: cell_cases)
    case (held m blob)
    then have r: "map_of (st_records s) u = Some (m, READY)" "map_of (st_blobs s) (token_of u) = Some blob"
      by (simp_all add: cell_token)
    obtain e where e: "decoded lib cfg u m blob = Inr e"
      using held(2) by (cases "decoded lib cfg u m blob") (simp_all add: row_valid_def)
    have "holdings lib cfg s u = Some e" by (simp add: holdings_def held(1) cell_value_def e)
    then show ?thesis using wf_row [OF wf r(1)] r e
      by (simp add: get_sync_def comp_defs decode_row_def read_blob_eq decoded_def)
  qed (simp_all add: get_sync_def comp_defs holdings_def cell_value_def cell_token)
qed

lemma store_ok_upd:
  assumes "store_ok lib cfg s" and "catalog_wf s'" and "cell s' = (cell s)(token_of u := c)" and "cell_ok lib cfg u c"
  shows "store_ok lib cfg s'" "holdings lib cfg s' = (holdings lib cfg s)(u := cell_value lib cfg u c)"
    "interrupted lib cfg s' = (interrupted lib cfg s)(u := pending_value lib cfg u c)"
  using assms by (auto simp: store_ok_def holdings_def interrupted_def fun_eq_iff)

definition marked_store :: "record_uuid \<Rightarrow> 'z store_scheme \<Rightarrow> 'z store_scheme" where
  "marked_store u s = s\<lparr>st_records := map (\<lambda>(k, m, p). (k, m, if k = u then DELETING else p)) (st_records s)\<rparr>"

definition cleared_store :: "record_uuid \<Rightarrow> 'z store_scheme \<Rightarrow> 'z store_scheme" where
  "cleared_store u s = (marked_store u s)\<lparr>st_blobs := AList.delete (token_of u) (st_blobs s),
     st_records := AList.delete u (st_records (marked_store u s))\<rparr>"

lemma cell_marked: "map_of (st_records s) u = Some (m, q) \<Longrightarrow>
    cell (marked_store u s) = (cell s)(token_of u := (Some (m, DELETING), map_of (st_intents s) u, map_of (st_blobs s) (token_of u)))"
  by (auto simp: marked_store_def cell_def fun_eq_iff map_of_mark)

lemma cell_cleared: "cell (cleared_store u s) = (cell s)(token_of u := (None, map_of (st_intents s) u, None))"
  by (auto simp: cleared_store_def marked_store_def cell_def fun_eq_iff map_of_mark delete_conv')

lemma wf_marked: "catalog_wf s \<Longrightarrow> catalog_wf (marked_store u s)"
  by (erule wf_mark_row [of _ _ u DELETING]) (simp_all add: marked_store_def)

lemma wf_cleared:
  assumes "catalog_wf s"
  shows "catalog_wf (cleared_store u s)"
proof -
  have "catalog_wf ((marked_store u s)\<lparr>st_blobs := AList.delete (token_of u) (st_blobs s)\<rparr>)"
    by (rule wf_delete_blob [OF wf_marked [OF assms, of u], where t = "token_of u"]) (simp_all add: marked_store_def)
  then show ?thesis by (rule wf_delete_row [where u = u]) (simp_all add: cleared_store_def)
qed

lemma delete_sync_eq:
  assumes wf: "catalog_wf s"
  shows "delete_sync faults busy u s = (case map_of (st_records s) u of
     None \<Rightarrow> (Inr \<lparr>dr_record_id = u, dr_deleted = False, dr_material_destroyed = False\<rparr>, s)
   | Some _ \<Rightarrow>
       if ''after_delete_mark'' \<in> set faults then (Inl (RuntimeError ''after_delete_mark''), marked_store u s)
       else if token_of u \<in> set busy then (Inl (StorageError ''io_failure''), marked_store u s)
       else (Inr \<lparr>dr_record_id = u, dr_deleted = True, dr_material_destroyed = False\<rparr>, cleared_store u s))"
proof (cases "map_of (st_records s) u")
  case None
  then show ?thesis by (simp add: delete_sync_def comp_defs)
next
  case (Some mq)
  obtain m q where mq: "mq = (m, q)" by (cases mq)
  then show ?thesis using Some wf_row [OF wf, of u m q]
    by (simp add: delete_sync_def comp_defs mark_row_def fault_point_def safe_unlink_def delete_row_def marked_store_def cleared_store_def)
qed

lemma delete_effect:
  assumes ok: "store_ok lib cfg s" and d: "delete_sync faults busy u s = (res, s')"
  shows "store_ok lib cfg s'" "holdings lib cfg s' = (holdings lib cfg s)(u := None)"
    "interrupted lib cfg s' = interrupted lib cfg s"
proof -
  have wf: "catalog_wf s" and c: "cell_ok lib cfg u (cell s (token_of u))" using ok by (simp_all add: store_ok_def)
  have "store_ok lib cfg s' \<and> holdings lib cfg s' = (holdings lib cfg s)(u := None) \<and> interrupted lib cfg s' = interrupted lib cfg s"
  proof (cases "map_of (st_records s) u")
    case None
    then have "holdings lib cfg s u = None" by (simp add: holdings_def cell_token cell_value_def)
    then show ?thesis using d None ok by (auto simp: delete_sync_eq [OF wf])
  next
    case (Some mq)
    obtain m q where mq: "mq = (m, q)" by (cases mq)
    have i: "map_of (st_intents s) u = None" using c Some by (auto simp: cell_ok_def cell_token split: prod.splits)
    have p: "interrupted lib cfg s u = None" using Some by (simp add: interrupted_def pending_value_def cell_token)
    from d Some have "s' = marked_store u s \<or> s' = cleared_store u s"
      by (auto simp: delete_sync_eq [OF wf] split: if_splits)
    then show ?thesis
    proof
      assume s': "s' = marked_store u s"
      have "cell_ok lib cfg u (Some (m, DELETING), map_of (st_intents s) u, map_of (st_blobs s) (token_of u))"
        by (simp add: cell_ok_def i)
      from store_ok_upd [OF ok wf_marked [OF wf] cell_marked [OF Some [unfolded mq]] this] p show ?thesis
        by (simp add: s' cell_value_def pending_value_def fun_upd_idem)
    next
      assume s': "s' = cleared_store u s"
      have "cell_ok lib cfg u (None, map_of (st_intents s) u, None)" by (simp add: cell_ok_def i)
      from store_ok_upd [OF ok wf_cleared [OF wf] cell_cleared this] p show ?thesis
        by (simp add: s' i cell_value_def pending_value_def fun_upd_idem)
    qed
  qed
  then show "store_ok lib cfg s'" "holdings lib cfg s' = (holdings lib cfg s)(u := None)"
    "interrupted lib cfg s' = interrupted lib cfg s" by simp_all
qed
definition intended_store :: "record_uuid \<Rightarrow> catalog_meta \<Rightarrow> 'z store_scheme \<Rightarrow> 'z store_scheme" where
  "intended_store u m s = s\<lparr>st_intents := (u, m) # st_intents s\<rparr>"

definition written_store :: "record_uuid \<Rightarrow> catalog_meta \<Rightarrow> byte list \<Rightarrow> 'z store_scheme \<Rightarrow> 'z store_scheme" where
  "written_store u m blob s = (intended_store u m s)\<lparr>st_blobs := (token_of u, blob) # st_blobs s\<rparr>"

definition committed_store :: "record_uuid \<Rightarrow> catalog_meta \<Rightarrow> byte list \<Rightarrow> 'z store_scheme \<Rightarrow> 'z store_scheme" where
  "committed_store u m blob s =
    s\<lparr>st_blobs := (token_of u, blob) # st_blobs s, st_records := (u, m, READY) # st_records s\<rparr>"

lemma write_record_eq:
  assumes wf: "catalog_wf s" and tok: "cm_token m = token_of u"
    and free: "map_of (st_records s) u = None"
    and b: "map_of (st_intents s) u = None \<Longrightarrow> map_of (st_blobs s) (token_of u) = None"
  shows "write_record faults u m blob s =
    (if map_of (st_intents s) u \<noteq> None \<or> \<not> meta_checks m then (Inl (RuntimeError ''IntegrityError''), s)
     else if ''after_write_intent'' \<in> set faults then (Inl (RuntimeError ''after_write_intent''), intended_store u m s)
     else if ''after_temp_fsync'' \<in> set faults
       then (Inl (RuntimeError ''after_temp_fsync''), (intended_store u m s)\<lparr>st_temps := blob # st_temps s\<rparr>)
     else if ''after_blob_rename'' \<in> set faults then (Inl (RuntimeError ''after_blob_rename''), written_store u m blob s)
     else (Inr (), committed_store u m blob s))"
proof -
  have "map_of (st_intents s) u = None \<Longrightarrow> AList.delete u (st_intents s) = st_intents s"
    by (simp add: delete_id map_of_eq_None_iff)
  moreover have "\<not> row_conflict s u m" using row_conflict_iff [OF wf tok] free by simp
  ultimately show ?thesis
    using b intent_conflict_iff [OF wf tok]
    by (auto simp: write_record_def insert_intent_def write_blob_atomically_def insert_ready_def delete_intent_def fault_point_def
        comp_defs tok row_conflict_def intended_store_def written_store_def committed_store_def)
qed

lemma cell_written:
  "cell (intended_store u m s) = (cell s)(token_of u := (map_of (st_records s) u, Some m, map_of (st_blobs s) (token_of u)))"
  "cell (written_store u m blob s) = (cell s)(token_of u := (map_of (st_records s) u, Some m, Some blob))"
  "cell (committed_store u m blob s) = (cell s)(token_of u := (Some (m, READY), map_of (st_intents s) u, Some blob))"
  by (auto simp: intended_store_def written_store_def committed_store_def cell_def fun_eq_iff)

lemma wf_written:
  assumes "catalog_wf s" and "uuid_is_v4 u" and "cm_token m = token_of u" and "map_of (st_intents s) u = None"
    and "map_of (st_records s) u = None" and "map_of (st_blobs s) (token_of u) = None"
  shows "catalog_wf (intended_store u m s)" "catalog_wf ((intended_store u m s)\<lparr>st_temps := ts\<rparr>)"
    "catalog_wf (written_store u m blob s)" "catalog_wf (committed_store u m blob s)"
  using assms by (auto simp: catalog_wf_def intended_store_def written_store_def committed_store_def map_of_eq_None_iff)

lemma encoded_decoded:
  assumes lib: "blob_lib_ok lib" and ok: "envelope_ok e" and enc: "encode_envelope lib e = Inr blob"
    and max: "length blob \<le> sc_max_blob_bytes cfg"
  defines "m \<equiv> metadata_of e blob (token_of (ev_record_id e)) (bl_sha256 lib blob)"
  shows "decoded lib cfg (ev_record_id e) m blob = Inr e" "row_valid lib cfg (ev_record_id e) m blob"
    "uuid_is_v4 (ev_record_id e)" "cm_token m = token_of (ev_record_id e)" "cm_digest m = bl_sha256 lib blob"
proof -
  have "blob \<noteq> []" using envelope_decoded [OF lib ok enc max] by (auto simp: decode_envelope_def)
  then show "decoded lib cfg (ev_record_id e) m blob = Inr e"
    using envelope_decoded [OF lib ok enc max] max
    by (simp add: decoded_def decode_blob_def readable_def m_def metadata_of_def)
  then show "row_valid lib cfg (ev_record_id e) m blob" by (simp add: row_valid_def)
  show "uuid_is_v4 (ev_record_id e)" using encoded_shape(2) [OF enc] .
  show "cm_token m = token_of (ev_record_id e)" "cm_digest m = bl_sha256 lib blob" by (simp_all add: m_def metadata_of_def)
qed

lemma put_sync_eq:
  assumes "blob_lib_ok lib" and "envelope_ok e"
  defines "u \<equiv> ev_record_id e"
  shows "put_sync lib cfg faults e s = (case encode_envelope lib e of
     Inl exc \<Rightarrow> (Inl exc, s)
   | Inr blob \<Rightarrow>
       let m = metadata_of e blob (token_of u) (bl_sha256 lib blob);
           ref = \<lambda>v. \<lparr>sr_record_id = u, sr_storage_id = token_of u, sr_schema_version = v\<rparr> in
       if sc_max_blob_bytes cfg < length blob then (Inl (StorageError ''blob_too_large''), s)
       else (case map_of (st_records s) u of
         Some (m', q) \<Rightarrow> if cm_digest m' = bl_sha256 lib blob then (Inr (ref (cm_schema_version m')), s)
           else (Inl (StorageError ''duplicate_record''), s)
       | None \<Rightarrow>
           if sc_quota_bytes cfg < content_bytes_on_disk s + length blob then (Inl (StorageError ''quota_exceeded''), s)
           else (case write_record faults u m blob s of
             (Inl exc, s') \<Rightarrow> (Inl (as_storage_failure exc), s') | (Inr _, s') \<Rightarrow> (Inr (ref (ev_schema_version e)), s'))))"
proof (cases "encode_envelope lib e")
  case (Inl exc)
  then show ?thesis by (simp add: put_sync_def comp_defs)
next
  case (Inr blob)
  then have "uuid_is_v4 u" using encoded_shape(2) by (simp add: u_def)
  with Inr show ?thesis
    by (auto simp: put_sync_def comp_defs blob_token_def Let_def u_def [symmetric]
        split: option.split prod.split sum.split)
qed
lemma write_effect:
  assumes lib: "blob_lib_ok lib" and e: "envelope_ok e" and ok: "store_ok lib cfg s"
    and enc: "encode_envelope lib e = Inr blob" and max: "length blob \<le> sc_max_blob_bytes cfg"
    and free: "map_of (st_records s) (ev_record_id e) = None"
    and w: "write_record faults (ev_record_id e) (metadata_of e blob (token_of (ev_record_id e)) (bl_sha256 lib blob)) blob s = (r, s')"
  shows "store_ok lib cfg s' \<and>
    (if isl r then holdings lib cfg s' = holdings lib cfg s \<and>
       interrupted lib cfg s' \<in> {interrupted lib cfg s, (interrupted lib cfg s)(ev_record_id e \<mapsto> e)}
     else holdings lib cfg s' = (holdings lib cfg s)(ev_record_id e \<mapsto> e) \<and> interrupted lib cfg s' = interrupted lib cfg s)"
proof -
  define u where "u = ev_record_id e"
  define m where "m = metadata_of e blob (token_of u) (bl_sha256 lib blob)"
  note m = encoded_decoded [OF lib e enc max, folded u_def, folded m_def]
  have wf: "catalog_wf s" and c: "cell_ok lib cfg u (cell s (token_of u))" using ok by (simp_all add: store_ok_def)
  have free: "map_of (st_records s) u = None" using free by (simp add: u_def)
  have b: "map_of (st_intents s) u = None \<Longrightarrow> map_of (st_blobs s) (token_of u) = None"
    using c free by (simp add: cell_token cell_ok_def)
  have w: "write_record faults u m blob s = (r, s')" using w by (simp add: u_def m_def)
  note weq = write_record_eq [OF wf m(4) free b, of faults blob]
  show ?thesis
  proof (cases "map_of (st_intents s) u \<noteq> None \<or> \<not> meta_checks m")
    case True
    then show ?thesis using w ok by (auto simp: weq)
  next
    case False
    then have none: "map_of (st_intents s) u = None" "map_of (st_blobs s) (token_of u) = None" and chk: "meta_checks m"
      using b by auto
    have i: "interrupted lib cfg s u = None" "holdings lib cfg s u = None"
      using none free by (simp_all add: interrupted_def holdings_def cell_token pending_value_def cell_value_def)
    note wfs = wf_written [OF wf m(3,4) none(1) free none(2)]
    have ok1: "cell_ok lib cfg u (None, Some m, None)" and ok2: "cell_ok lib cfg u (None, Some m, Some blob)"
      and ok3: "cell_ok lib cfg u (Some (m, READY), None, Some blob)"
      using chk m(2) by (simp_all add: cell_ok_def)
    have cs: "cell (intended_store u m s) = (cell s)(token_of u := (None, Some m, None))"
      "cell ((intended_store u m s)\<lparr>st_temps := blob # st_temps s\<rparr>) = (cell s)(token_of u := (None, Some m, None))"
      "cell (written_store u m blob s) = (cell s)(token_of u := (None, Some m, Some blob))"
      "cell (committed_store u m blob s) = (cell s)(token_of u := (Some (m, READY), None, Some blob))"
      using none free cell_cong [of "(intended_store u m s)\<lparr>st_temps := blob # st_temps s\<rparr>" "intended_store u m s"]
      by (simp_all add: cell_written)
    note upd = store_ok_upd [OF ok wfs(1) cs(1) ok1] store_ok_upd [OF ok wfs(2) cs(2) ok1]
      store_ok_upd [OF ok wfs(3) cs(3) ok2] store_ok_upd [OF ok wfs(4) cs(4) ok3]
    have vals: "cell_value lib cfg u (None, Some m, x) = None" "pending_value lib cfg u (None, Some m, None) = None"
      "pending_value lib cfg u (None, Some m, Some blob) = Some e"
      "cell_value lib cfg u (Some (m, READY), None, Some blob) = Some e"
      "pending_value lib cfg u (Some (m, READY), None, Some blob) = None" for x
      by (simp_all add: cell_value_def pending_value_def m(1))
    show ?thesis using w chk none(1) i upd
      by (auto simp: weq vals fun_upd_idem u_def [symmetric] split: if_splits)
  qed
qed

lemma put_effect:
  assumes lib: "blob_lib_ok lib" and e: "envelope_ok e" and ok: "store_ok lib cfg s"
    and p: "put_sync lib cfg faults e s = (res, s')"
  shows "store_ok lib cfg s'"
    "isl res \<Longrightarrow> holdings lib cfg s' = holdings lib cfg s \<and>
       interrupted lib cfg s' \<in> {interrupted lib cfg s, (interrupted lib cfg s)(ev_record_id e \<mapsto> e)}"
    "\<not> isl res \<Longrightarrow> map_of (st_records s) (ev_record_id e) = None \<Longrightarrow>
       holdings lib cfg s' = (holdings lib cfg s)(ev_record_id e \<mapsto> e) \<and> interrupted lib cfg s' = interrupted lib cfg s"
    "\<not> isl res \<Longrightarrow> map_of (st_records s) (ev_record_id e) = Some (m, q) \<Longrightarrow>
       s' = s \<and> (\<exists>blob. encode_envelope lib e = Inr blob \<and> length blob \<le> sc_max_blob_bytes cfg \<and> cm_digest m = bl_sha256 lib blob)"
proof -
  have eq: "put_sync lib cfg faults e s = (res, s')" by (rule p)
  have unchanged: "s' = s \<Longrightarrow> store_ok lib cfg s' \<and> holdings lib cfg s' = holdings lib cfg s \<and> interrupted lib cfg s' = interrupted lib cfg s"
    using ok by simp
  have main: "store_ok lib cfg s' \<and>
     (isl res \<longrightarrow> holdings lib cfg s' = holdings lib cfg s \<and>
       interrupted lib cfg s' \<in> {interrupted lib cfg s, (interrupted lib cfg s)(ev_record_id e \<mapsto> e)}) \<and>
     (\<not> isl res \<longrightarrow> map_of (st_records s) (ev_record_id e) = None \<longrightarrow>
       holdings lib cfg s' = (holdings lib cfg s)(ev_record_id e \<mapsto> e) \<and> interrupted lib cfg s' = interrupted lib cfg s) \<and>
     (\<forall>m q. \<not> isl res \<longrightarrow> map_of (st_records s) (ev_record_id e) = Some (m, q) \<longrightarrow>
       s' = s \<and> (\<exists>blob. encode_envelope lib e = Inr blob \<and> length blob \<le> sc_max_blob_bytes cfg \<and> cm_digest m = bl_sha256 lib blob))"
  proof (cases "encode_envelope lib e")
    case (Inl exc)
    then show ?thesis using eq unchanged by (auto simp: put_sync_eq [OF lib e])
  next
    case (Inr blob)
    show ?thesis
    proof (cases "map_of (st_records s) (ev_record_id e) = None \<and> length blob \<le> sc_max_blob_bytes cfg \<and>
        content_bytes_on_disk s + length blob \<le> sc_quota_bytes cfg")
      case False
      then show ?thesis using eq unchanged Inr by (auto simp: put_sync_eq [OF lib e] Let_def not_le split: option.splits if_splits)
    next
      case True
      obtain r s1 where w: "write_record faults (ev_record_id e)
          (metadata_of e blob (token_of (ev_record_id e)) (bl_sha256 lib blob)) blob s = (r, s1)" by fastforce
      have "s1 = s'" "isl r = isl res" using eq Inr True w
        by (auto simp: put_sync_eq [OF lib e] Let_def split: sum.splits)
      then show ?thesis using write_effect [OF lib e ok Inr _ _ w] True by auto
    qed
  qed
  then show "store_ok lib cfg s'"
    "isl res \<Longrightarrow> holdings lib cfg s' = holdings lib cfg s \<and>
       interrupted lib cfg s' \<in> {interrupted lib cfg s, (interrupted lib cfg s)(ev_record_id e \<mapsto> e)}"
    "\<not> isl res \<Longrightarrow> map_of (st_records s) (ev_record_id e) = None \<Longrightarrow>
       holdings lib cfg s' = (holdings lib cfg s)(ev_record_id e \<mapsto> e) \<and> interrupted lib cfg s' = interrupted lib cfg s"
    "\<not> isl res \<Longrightarrow> map_of (st_records s) (ev_record_id e) = Some (m, q) \<Longrightarrow>
       s' = s \<and> (\<exists>blob. encode_envelope lib e = Inr blob \<and> length blob \<le> sc_max_blob_bytes cfg \<and> cm_digest m = bl_sha256 lib blob)"
    by blast+
qed
end
