(* ===== verification/Storage_Safety.thy ===== *)
theory Storage_Safety
  imports Storage_Recovery
begin

text \<open>
  The properties of the encrypted record store, over every history of operations, crashes and
  recoveries: the store is a map from identifiers to envelopes, an interrupted operation takes effect
  completely or not at all, and damage to a blob file stays with its record.
\<close>

section \<open>Histories\<close>

text \<open>
  One step of a history: an operation that runs to its end, raises or is stopped at a fault point,
  or a recovery; \<open>busy\<close> lists the files that the operating system refuses to remove.
\<close>

inductive storage_step :: "blob_lib \<Rightarrow> storage_config \<Rightarrow> store \<Rightarrow> store \<Rightarrow> bool" for lib cfg where
  step_put: "envelope_ok e \<Longrightarrow> put_sync lib cfg faults e s = (res, s') \<Longrightarrow> storage_step lib cfg s s'"
| step_get: "get_sync lib cfg u s = (res, s') \<Longrightarrow> storage_step lib cfg s s'"
| step_delete: "delete_sync faults busy u s = (res, s') \<Longrightarrow> storage_step lib cfg s s'"
| step_recover: "recover_sync lib cfg busy s = (res, s') \<Longrightarrow> storage_step lib cfg s s'"

definition empty_store :: store where
  "empty_store = \<lparr>st_version = 2, st_records_v1 = [], st_records = [], st_intents = [], st_blobs = [], st_temps = [],
     st_quarantine = []\<rparr>"

lemma empty_store_settled: "store_settled lib cfg empty_store"
  by (simp add: store_settled_def empty_store_def catalog_wf_def cell_token cell_settled_def cell_ok_def)

lemma storage_step_ok:
  assumes "blob_lib_ok lib" and "storage_step lib cfg s s'" and "store_ok lib cfg s"
  shows "store_ok lib cfg s'"
  using assms(2)
proof cases
  case (step_put e faults res)
  then show ?thesis by (blast intro: put_effect(1) [OF assms(1) _ assms(3)])
next
  case (step_get u res)
  then show ?thesis using get_held [OF assms(3), of u] assms(3) by simp
next
  case (step_delete faults busy u res)
  then show ?thesis by (blast intro: delete_effect(1) [OF assms(3)])
next
  case (step_recover busy res)
  have "catalog_wf s" using assms(3) by (simp add: store_ok_def)
  then obtain rep t where "recover_sync lib cfg busy s = (Inr rep, t)" "store_settled lib cfg t"
    by (rule recover_settles)
  then show ?thesis using step_recover settled_ok by auto
qed

interpretation storage: invariant_system "storage_step lib cfg" empty_store "\<lambda>s. blob_lib_ok lib \<longrightarrow> store_ok lib cfg s"
  for lib cfg
  by unfold_locales (auto intro: storage_step_ok settled_ok empty_store_settled)

lemma reachable_store_ok: "blob_lib_ok lib \<Longrightarrow> run (storage_step lib cfg) empty_store s \<Longrightarrow> store_ok lib cfg s"
  using storage.inv_reachable by blast

lemma settled_not_interrupted: "store_settled lib cfg s \<Longrightarrow> interrupted lib cfg s = Map.empty"
  by (rule ext) (auto simp: store_settled_def interrupted_def pending_value_def cell_token split: option.split prod.split)

text \<open>The digest tells the blob of \<open>e\<close> from every other blob on disk.\<close>

definition digest_separates :: "blob_lib \<Rightarrow> 'z store_scheme \<Rightarrow> envelope \<Rightarrow> bool" where
  "digest_separates lib s e = (case encode_envelope lib e of
     Inl _ \<Rightarrow> True
   | Inr blob \<Rightarrow> (\<forall>b \<in> set (map snd (st_blobs s)). bl_sha256 lib b = bl_sha256 lib blob \<longrightarrow> b = blob))"

lemma put_existing:
  assumes lib: "blob_lib_ok lib" and e: "envelope_ok e" and ok: "store_ok lib cfg s"
    and sep: "digest_separates lib s e" and r: "map_of (st_records s) (ev_record_id e) = Some (m, READY)"
    and enc: "encode_envelope lib e = Inr blob" "length blob \<le> sc_max_blob_bytes cfg" "cm_digest m = bl_sha256 lib blob"
  shows "holdings lib cfg s (ev_record_id e) = Some e"
proof -
  let ?u = "ev_record_id e"
  have "cell_ok lib cfg ?u (cell s (token_of ?u))" using ok by (simp add: store_ok_def)
  then obtain b where b: "map_of (st_blobs s) (token_of ?u) = Some b" "row_valid lib cfg ?u m b"
    using r by (auto simp: cell_token cell_ok_def split: option.splits)
  then obtain x where x: "decoded lib cfg ?u m b = Inr x" by (cases "decoded lib cfg ?u m b") (simp_all add: row_valid_def)
  then have dec: "decode_envelope lib (sc_max_blob_bytes cfg) b = Inr x" and "bl_sha256 lib b = cm_digest m"
    by (auto simp: decoded_def decode_blob_def bindS_Inr ensure_Inr readable_Inr)
  moreover have "b \<in> set (map snd (st_blobs s))" using map_of_SomeD [OF b(1)] by force
  ultimately have "b = blob" using sep enc by (auto simp: digest_separates_def)
  then have "x = e" using dec envelope_decoded [OF lib e enc(1,2)] by simp
  then show ?thesis using r b(1) x by (simp add: holdings_def cell_token cell_value_def)
qed

section \<open>A concrete store\<close>

definition sample_storage :: storage_config where
  "sample_storage = \<lparr>sc_quota_bytes = 4096, sc_max_blob_bytes = 1024\<rparr>"

lemma sample_blob_lib_ok: "blob_lib_ok sample_blob_lib"
  by (simp add: sample_blob_lib_def tally_lib_ok)

lemma sample_stored:
  assumes lib: "blob_lib_ok lib" and "bl_dumps lib (blob_header lib sample_envelope) = [0]"
  shows "\<exists>ref s. put_sync lib sample_storage [] sample_envelope empty_store = (Inr ref, s) \<and> store_ok lib sample_storage s \<and>
    holdings lib sample_storage s (ev_record_id sample_envelope) = Some sample_envelope"
proof -
  obtain blob where blob: "encode_envelope lib sample_envelope = Inr blob" "length blob = 42"
    using sample_encodes [OF assms(2)] by blast
  define m where "m = metadata_of sample_envelope blob (token_of (ev_record_id sample_envelope)) (bl_sha256 lib blob)"
  have m: "meta_checks m" "cm_token m = token_of (ev_record_id sample_envelope)"
    using blob(2) lib by (simp_all add: m_def metadata_of_def meta_checks_def sample_envelope_def blob_lib_ok_def)
  have ok: "store_ok lib sample_storage empty_store" "catalog_wf empty_store"
    using settled_ok [OF empty_store_settled] by (auto simp: store_ok_def)
  have "map_of (st_records empty_store) u = None" "map_of (st_intents empty_store) u = None" "map_of (st_blobs empty_store) t = None"
    for u t by (simp_all add: empty_store_def)
  note w = write_record_eq [OF ok(2) m(2) this(1) this(3), of "[]" blob]
  have "\<exists>ref s. put_sync lib sample_storage [] sample_envelope empty_store = (Inr ref, s)"
    using blob w m(1) by (simp add: put_sync_eq [OF lib sample_encoded(1)] Let_def m_def [symmetric]
        empty_store_def content_bytes_on_disk_def sample_storage_def)
  then obtain ref s where p: "put_sync lib sample_storage [] sample_envelope empty_store = (Inr ref, s)" by blast
  show ?thesis using put_effect(1,3) [OF lib sample_encoded(1) ok(1) p] p by (simp add: empty_store_def)
qed

lemma sample_put:
  "\<exists>ref s. put_sync sample_blob_lib sample_storage [] sample_envelope empty_store = (Inr ref, s) \<and>
    store_ok sample_blob_lib sample_storage s \<and>
    holdings sample_blob_lib sample_storage s (ev_record_id sample_envelope) = Some sample_envelope"
  by (rule sample_stored [OF sample_blob_lib_ok sample_header])

section \<open>Properties\<close>



text \<open>
  C24. A crash leaves the old or the new contents. Let a settled store be stopped anywhere inside a
  write or a deletion, by any combination of faults. Recovery then always succeeds and settles the
  store: after a write the map is the one before it or the one with the new record, the latter when
  the write had reported success for a new identifier; after a deletion the record is gone whether
  the deletion completed or not, and every other record is what it was.
\<close>

theorem crash_leaves_old_or_new:
  assumes lib: "blob_lib_ok lib" and e: "envelope_ok e" and set: "store_settled lib cfg s"
    and put: "put_sync lib cfg faults e s = (res, s1)" and del: "delete_sync faults' busy u s = (res', s2)"
  shows "(\<exists>rep s'. recover_sync lib cfg [] s1 = (Inr rep, s') \<and> store_settled lib cfg s' \<and>
      (holdings lib cfg s' = holdings lib cfg s \<or> holdings lib cfg s' = (holdings lib cfg s)(ev_record_id e \<mapsto> e)) \<and>
      (\<not> isl res \<and> map_of (st_records s) (ev_record_id e) = None \<longrightarrow>
        holdings lib cfg s' = (holdings lib cfg s)(ev_record_id e \<mapsto> e))) \<and>
    (\<exists>rep s'. recover_sync lib cfg [] s2 = (Inr rep, s') \<and> store_settled lib cfg s' \<and>
      holdings lib cfg s' = (holdings lib cfg s)(u := None))"
proof
  have ok: "store_ok lib cfg s" by (rule settled_ok [OF set])
  note eff = put_effect [OF lib e ok put]
  have calm: "interrupted lib cfg s = Map.empty" by (rule settled_not_interrupted [OF set])
  obtain rep s' where s': "recover_sync lib cfg [] s1 = (Inr rep, s')" "store_settled lib cfg s'"
    "holdings lib cfg s' = holdings lib cfg s1 ++ interrupted lib cfg s1"
    by (rule recover_holdings [OF eff(1)])
  have "holdings lib cfg s' = holdings lib cfg s \<or> holdings lib cfg s' = (holdings lib cfg s)(ev_record_id e \<mapsto> e)"
    "\<not> isl res \<and> map_of (st_records s) (ev_record_id e) = None \<Longrightarrow>
      holdings lib cfg s' = (holdings lib cfg s)(ev_record_id e \<mapsto> e)"
    using eff(2,3,4) calm s'(3) by (cases "isl res"; cases "map_of (st_records s) (ev_record_id e)"; force)+
  with s' show "\<exists>rep s'. recover_sync lib cfg [] s1 = (Inr rep, s') \<and> store_settled lib cfg s' \<and>
      (holdings lib cfg s' = holdings lib cfg s \<or> holdings lib cfg s' = (holdings lib cfg s)(ev_record_id e \<mapsto> e)) \<and>
      (\<not> isl res \<and> map_of (st_records s) (ev_record_id e) = None \<longrightarrow>
        holdings lib cfg s' = (holdings lib cfg s)(ev_record_id e \<mapsto> e))" by blast
  note eff' = delete_effect [OF ok del]
  show "\<exists>rep s'. recover_sync lib cfg [] s2 = (Inr rep, s') \<and> store_settled lib cfg s' \<and>
      holdings lib cfg s' = (holdings lib cfg s)(u := None)"
    using recover_holdings [OF eff'(1)] eff'(2,3) calm by (metis map_add_empty)
qed

theorem crash_leaves_old_or_new_witness:
  "\<exists>res s1 rep s'. put_sync sample_blob_lib sample_storage [''after_blob_rename''] sample_envelope empty_store = (res, s1) \<and>
    recover_sync sample_blob_lib sample_storage [] s1 = (Inr rep, s') \<and> store_settled sample_blob_lib sample_storage s'"
proof -
  obtain res s1 where p: "put_sync sample_blob_lib sample_storage [''after_blob_rename''] sample_envelope empty_store = (res, s1)"
    by fastforce
  obtain res' s2 where d: "delete_sync [] [] 0 empty_store = (res', s2)" by fastforce
  from crash_leaves_old_or_new [OF sample_blob_lib_ok sample_encoded(1) empty_store_settled p d] p show ?thesis by blast
qed



section \<open>Two defects\<close>

text \<open>
  Recovery ignores a file it cannot remove, drops the row that was marked for deletion all the same,
  and then indexes the file as an orphan: the deleted record is served again.
\<close>

theorem failed_unlink_resurrects:
  assumes ok: "store_ok lib cfg s" and row: "map_of (st_records s) u = Some (m, DELETING)" "meta_checks m"
    and f: "map_of (st_blobs s) (token_of u) = Some blob" "row_valid lib cfg u m blob" and busy: "token_of u \<in> set busy"
  shows "holdings lib cfg s u = None \<and>
    (\<exists>rep s'. recover_sync lib cfg busy s = (Inr rep, s') \<and> holdings lib cfg s' u \<noteq> None)"
proof
  show "holdings lib cfg s u = None" using row by (simp add: holdings_def cell_token cell_value_def)
  have wf: "catalog_wf s" using ok by (simp add: store_ok_def)
  have "orphan_row lib cfg (token_of u) blob = Some m"
    using row_valid_orphan_row [OF f(2) row(2)] wf_row [OF wf row(1)] by simp
  moreover have "map_of (st_intents s) u = None"
    using ok row(1) by (auto simp: store_ok_def cell_ok_def cell_token split: prod.splits option.splits dest: spec [of _ u])
  ultimately have "recover_cell lib cfg busy (token_of u) (cell s (token_of u)) = (Some (m, READY), None, Some blob)"
    using row(1) f(1) busy
    by (simp add: recover_cell_def cell_token intent_step_def delete_step_def verify_step_def orphan_step_def)
  moreover obtain rep s' where "recover_sync lib cfg busy s = (Inr rep, s')"
    "\<forall>t. cell s' t = recover_cell lib cfg busy t (cell s t)"
    by (rule recover_settles [OF wf, where lib = lib and cfg = cfg and busy = busy])
  ultimately show "\<exists>rep s'. recover_sync lib cfg busy s = (Inr rep, s') \<and> holdings lib cfg s' u \<noteq> None"
    using f(2) by (cases "decoded lib cfg u m blob") (auto simp: holdings_def cell_value_def row_valid_def)
qed

text \<open>
  Storing an envelope whose identifier has a row that is not ready, with the digest of that very
  envelope, reports success although nothing is stored and the record stays unreadable.
\<close>

theorem put_reports_success_without_storing:
  assumes "blob_lib_ok lib" and "envelope_ok e" and "store_ok lib cfg s" and "encode_envelope lib e = Inr blob"
    and "length blob \<le> sc_max_blob_bytes cfg" and "map_of (st_records s) (ev_record_id e) = Some (m, q)" and "q \<noteq> READY"
    and "cm_digest m = bl_sha256 lib blob"
  shows "\<exists>ref. put_sync lib cfg [] e s = (Inr ref, s) \<and> get_sync lib cfg (ev_record_id e) s = (Inr None, s)"
proof -
  have "holdings lib cfg s (ev_record_id e) = None"
    using assms(6,7) by (cases q) (simp_all add: holdings_def cell_token cell_value_def)
  then show ?thesis using assms get_held [OF assms(3)] by (simp add: put_sync_eq [OF assms(1,2)] Let_def)
qed

end
