(* ===== verification/Catalog_Paging.thy ===== *)
theory Catalog_Paging
  imports Storage_Safety
begin

text \<open>
  Reading the whole catalog page by page, the way the retention planner, the garbage collector and
  the purge do it: a loop that asks for the next page after the last entry seen until a page says it
  is complete. The loop is an option-valued function, \<open>None\<close> standing for a loop that never ends; the
  interface \<open>paged_catalog\<close> says what a page is, and under it the loop always ends and visits the
  listing in order, every entry once.
\<close>

section \<open>The loop\<close>

definition entry_key :: "catalog_entry \<Rightarrow> cursor" where
  "entry_key e = (ce_day e, ce_record_id e)"

primrec visit_all :: "(catalog_entry \<Rightarrow> 'a \<Rightarrow> ('s, 'a) comp) \<Rightarrow> catalog_entry list \<Rightarrow> 'a \<Rightarrow> ('s, 'a) comp" where
  "visit_all visit [] acc = ret acc"
| "visit_all visit (e # es) acc = bindE (visit e acc) (visit_all visit es)"

partial_function (option) page_loop ::
    "(cursor option \<Rightarrow> ('s, catalog_page) comp) \<Rightarrow> (catalog_entry \<Rightarrow> 'a \<Rightarrow> ('s, 'a) comp) \<Rightarrow> cursor option \<Rightarrow>
     'a \<Rightarrow> 's \<Rightarrow> ((exn + 'a) \<times> 's) option" where
  "page_loop page visit after acc s = (case page after s of
     (Inl exc, s1) \<Rightarrow> Some (Inl exc, s1)
   | (Inr p, s1) \<Rightarrow> (case visit_all visit (pg_entries p) acc s1 of
       (Inl exc, s2) \<Rightarrow> Some (Inl exc, s2)
     | (Inr acc', s2) \<Rightarrow>
         if pg_complete p then Some (Inr acc', s2)
         else if pg_entries p = [] then Some (Inl (RuntimeError ''IndexError''), s2)
         else page_loop page visit (Some (entry_key (last (pg_entries p)))) acc' s2))"

lemma visit_all_append:
  "visit_all visit (xs @ ys) acc = bindE (visit_all visit xs acc) (visit_all visit ys)"
proof (induction xs arbitrary: acc)
  case Nil
  then show ?case by (rule ext) (simp add: bindE_def ret_def)
next
  case (Cons x xs)
  then show ?case by (intro ext) (simp add: bindE_def split: prod.split sum.split)
qed

lemma visit_all_leaves:
  assumes "\<And>e acc. snd (visit e acc s) = s"
  shows "snd (visit_all visit es acc s) = s"
proof (induction es arbitrary: acc)
  case (Cons e es)
  then show ?case using assms [of e acc] by (auto simp: bindE_def split: prod.split sum.split)
qed (simp add: ret_def)

section \<open>The interface\<close>

definition later :: "cursor option \<Rightarrow> catalog_entry list \<Rightarrow> catalog_entry list" where
  "later after es = filter (\<lambda>e. case after of None \<Rightarrow> True | Some k \<Rightarrow> k < entry_key e) es"

lemma later_none [simp]: "later None es = es"
  by (simp add: later_def)

lemma later_split:
  assumes "sorted_wrt (\<lambda>x y. entry_key x < entry_key y) (xs @ e # ys)"
  shows "later (Some (entry_key e)) (xs @ e # ys) = ys"
proof -
  have "x \<in> set xs \<Longrightarrow> \<not> entry_key e < entry_key x" for x
    using assms by (fastforce simp: sorted_wrt_append dest: less_asym)
  moreover have "y \<in> set ys \<Longrightarrow> entry_key e < entry_key y" for y
    using assms by (simp add: sorted_wrt_append)
  ultimately show ?thesis by (simp add: later_def filter_id_conv filter_empty_conv)
qed

lemma later_suffix:
  assumes "sorted_wrt (\<lambda>x y. entry_key x < entry_key y) es"
  shows "\<exists>pre. es = pre @ later after es"
proof (cases after)
  case (Some k)
  have "es = takeWhile (\<lambda>e. \<not> k < entry_key e) es @ dropWhile (\<lambda>e. \<not> k < entry_key e) es" by simp
  moreover have "later after es = dropWhile (\<lambda>e. \<not> k < entry_key e) es"
    using assms
  proof (induction es)
    case (Cons e es)
    show ?case
    proof (cases "k < entry_key e")
      case True
      then have "\<forall>x \<in> set es. k < entry_key x" using Cons.prems by (auto intro: less_trans)
      with True show ?thesis by (simp add: later_def Some)
    next
      case False
      with Cons show ?thesis by (simp add: later_def Some)
    qed
  qed (simp add: later_def)
  ultimately show ?thesis by metis
qed simp

text \<open>
  What a provider of pages promises: a page holds the first entries after the cursor, at most \<open>limit\<close>
  of them, says whether these are all, and reading it changes nothing; the listing is in strictly
  ascending order.
\<close>

locale paged_catalog =
  fixes page :: "cursor option \<Rightarrow> ('s, catalog_page) comp"
    and listing :: "'s \<Rightarrow> catalog_entry list"
    and ok :: "'s \<Rightarrow> bool"
    and limit :: nat
  assumes limit_pos: "0 < limit"
    and page_law: "ok s \<Longrightarrow> page after s =
      (Inr \<lparr>pg_entries = take limit (later after (listing s)), pg_complete = length (later after (listing s)) \<le> limit\<rparr>, s)"
    and ascending: "ok s \<Longrightarrow> sorted_wrt (\<lambda>x y. entry_key x < entry_key y) (listing s)"
begin

lemma next_page:
  assumes "ok s" and "limit < length (later after (listing s))"
  shows "later (Some (entry_key (last (take limit (later after (listing s)))))) (listing s) = drop limit (later after (listing s))"
proof -
  let ?es = "later after (listing s)"
  have ne: "take limit ?es \<noteq> []" using assms(2) limit_pos by auto
  obtain pre where pre: "listing s = pre @ ?es" using later_suffix [OF ascending [OF assms(1)]] by blast
  have "listing s = (pre @ butlast (take limit ?es)) @ last (take limit ?es) # drop limit ?es"
    using pre append_butlast_last_id [OF ne] by (metis append.assoc append_Cons append_Nil append_take_drop_id)
  then show ?thesis using later_split ascending [OF assms(1)] by metis
qed

theorem page_loop_visits:
  assumes "ok s" and "\<And>e acc. snd (visit e acc s) = s"
  shows "page_loop page visit after acc s = Some (visit_all visit (later after (listing s)) acc s)"
proof (induction "length (later after (listing s))" arbitrary: after acc rule: less_induct)
  case less
  let ?es = "later after (listing s)"
  note law = page_law [OF assms(1)]
  have same: "snd (visit_all visit es acc s) = s" for es acc by (rule visit_all_leaves) (rule assms(2))
  show ?case
  proof (cases "length ?es \<le> limit")
    case True
    with same [of ?es acc] show ?thesis by (subst page_loop.simps) (auto simp: law split: prod.split sum.split)
  next
    case False
    let ?k = "Some (entry_key (last (take limit ?es)))"
    have rest: "later ?k (listing s) = drop limit ?es" by (rule next_page [OF assms(1)]) (use False in simp)
    have ne: "take limit ?es \<noteq> []" using False limit_pos by auto
    have "length (later ?k (listing s)) < length ?es" using False limit_pos by (simp add: rest)
    from less [OF this] have IH: "page_loop page visit ?k acc' s = Some (visit_all visit (drop limit ?es) acc' s)" for acc'
      by (simp add: rest)
    have "visit_all visit ?es acc = bindE (visit_all visit (take limit ?es) acc) (visit_all visit (drop limit ?es))"
      using visit_all_append [of visit "take limit ?es" "drop limit ?es"] by simp
    with same [of "take limit ?es" acc] False ne IH show ?thesis
      by (subst page_loop.simps) (auto simp: law bindE_def split: prod.split sum.split)
  qed
qed

end
section \<open>The store provides pages\<close>

definition ready_entries :: "'z store_scheme \<Rightarrow> catalog_entry list" where
  "ready_entries s = map row_entry (ready_rows s)"

lemma row_entry_key: "entry_key (row_entry (k, m, q)) = (cm_day m, k)"
  by (simp add: entry_key_def row_entry_def)

lemma rows_after_later: "map row_entry (rows_after after s) = later after (ready_entries s)"
proof -
  have "(\<lambda>(k, m, _). case after of None \<Rightarrow> True | Some (day, rid) \<Rightarrow> day < cm_day m \<or> cm_day m = day \<and> rid < k) =
      (\<lambda>row :: record_uuid \<times> catalog_row. case after of None \<Rightarrow> True | Some k \<Rightarrow> k < entry_key (row_entry row))"
    by (auto simp: row_entry_key fun_eq_iff split: option.split)
  then show ?thesis by (simp add: rows_after_def ready_entries_def later_def filter_map o_def)
qed

lemma ready_rows_set: "set (ready_rows s) = {(k, m, q) \<in> set (st_records s). q = READY}"
  by (auto simp: ready_rows_def)

lemma ready_keys_distinct: "catalog_wf s \<Longrightarrow> distinct (map fst (ready_rows s))"
proof -
  assume "catalog_wf s"
  then have "distinct (map fst (filter (\<lambda>(k, m, q). q = READY) (st_records s)))"
    by (simp add: catalog_wf_def distinct_map_filter)
  then show ?thesis by (simp add: ready_rows_def distinct_map)
qed

lemma ready_ids: "map ce_record_id (ready_entries s) = map fst (ready_rows s)"
  by (simp add: ready_entries_def row_entry_def split_def)

lemma ready_ids_distinct: "catalog_wf s \<Longrightarrow> distinct (map ce_record_id (ready_entries s))"
  unfolding ready_ids by (rule ready_keys_distinct)

lemma ready_entries_ascending:
  assumes "catalog_wf s"
  shows "sorted_wrt (\<lambda>x y. entry_key x < entry_key y) (ready_entries s)"
proof -
  let ?k = "\<lambda>(k, m, q). (cm_day m, k)"
  have key: "entry_key \<circ> row_entry = ?k" by (auto simp: row_entry_key)
  have "sorted (map ?k (ready_rows s))" unfolding ready_rows_def by (rule sorted_sort_key)
  moreover have "distinct (map ?k (ready_rows s))"
  proof -
    have "map fst (ready_rows s) = map snd (map ?k (ready_rows s))" by auto
    then show ?thesis using ready_keys_distinct [OF assms] by (metis distinct_map)
  qed
  ultimately have "sorted_wrt (<) (map entry_key (ready_entries s))"
    by (simp add: ready_entries_def key strict_sorted_iff)
  then show ?thesis by (simp add: sorted_wrt_map)
qed

lemma page_ready_law:
  assumes "0 < limit" and "limit \<le> PAGE_LIMIT"
  shows "page_ready_sync limit after s = (Inr \<lparr>pg_entries = take limit (later after (ready_entries s)),
    pg_complete = length (later after (ready_entries s)) \<le> limit\<rparr>, s)"
  using assms by (auto simp: page_ready_sync_def comp_defs take_map [symmetric] rows_after_later [symmetric])

interpretation ready_pages: paged_catalog "page_ready_sync 10000" ready_entries catalog_wf 10000
  by unfold_locales (simp_all add: page_ready_law PAGE_LIMIT_def ready_entries_ascending)

section \<open>Clients\<close>

text \<open>\<^verbatim>\<open>PurgeAllEngine._all_record_ids\<close> and \<^verbatim>\<open>GarbageCollector._canonical_ids\<close>, the latter a set.\<close>

definition all_record_ids :: "'z store_scheme \<Rightarrow> ((exn + record_uuid list) \<times> 'z store_scheme) option" where
  "all_record_ids = page_loop (page_ready_sync 10000) (\<lambda>e ids. ret (ids @ [ce_record_id e])) None []"

definition canonical_ids :: "'z store_scheme \<Rightarrow> ((exn + record_uuid set) \<times> 'z store_scheme) option" where
  "canonical_ids = page_loop (page_ready_sync 10000) (\<lambda>e ids. ret (insert (ce_record_id e) ids)) None {}"

lemma visit_collect: "visit_all (\<lambda>e acc. ret (f e acc)) es acc s = (Inr (fold f es acc), s)"
  by (induction es arbitrary: acc) (simp_all add: ret_def bindE_def)

lemma ready_rows_holdings:
  assumes "store_ok lib cfg s"
  shows "ce_record_id ` set (ready_entries s) = dom (holdings lib cfg s)"
proof -
  have "(\<exists>m. (u, m, READY) \<in> set (st_records s)) \<longleftrightarrow> holdings lib cfg s u \<noteq> None" for u
  proof -
    have "(\<exists>m. (u, m, READY) \<in> set (st_records s)) \<longleftrightarrow> (\<exists>m. map_of (st_records s) u = Some (m, READY))"
      using assms by (auto simp: store_ok_def catalog_wf_def dest: map_of_SomeD)
    also have "\<dots> \<longleftrightarrow> holdings lib cfg s u \<noteq> None"
    proof -
      have "cell_ok lib cfg u (cell s (token_of u))" using assms by (simp add: store_ok_def)
      then show ?thesis
        by (cases rule: cell_cases) (auto simp: holdings_def cell_value_def cell_token row_valid_def split: sum.splits)
    qed
    finally show ?thesis .
  qed
  then show ?thesis
    by (auto simp: ready_entries_def ready_rows_set row_entry_def image_iff dom_def) blast+
qed
lemma snd_ret: "snd (ret x s) = s"
  by (simp add: ret_def)

lemma fold_collect: "fold (\<lambda>e ids. ids @ [f e]) es acc = acc @ map f es" "fold (\<lambda>e. insert (f e)) es A = f ` set es \<union> A"
  by (induction es arbitrary: acc A) auto

lemma all_record_ids_eq:
  "catalog_wf s \<Longrightarrow> all_record_ids s = Some (Inr (map ce_record_id (ready_entries s)), s)"
  using ready_pages.page_loop_visits [of s "\<lambda>e ids. ret (ids @ [ce_record_id e])" None "[]"]
  by (simp add: all_record_ids_def visit_collect fold_collect snd_ret)

lemma canonical_ids_eq: "catalog_wf s \<Longrightarrow> canonical_ids s = Some (Inr (ce_record_id ` set (ready_entries s)), s)"
  using ready_pages.page_loop_visits [of s "\<lambda>e ids. ret (insert (ce_record_id e) ids)" None "{}"]
  by (simp add: canonical_ids_def visit_collect fold_collect snd_ret)

section \<open>Properties\<close>

text \<open>
  C26. Paging ends and is complete. In every reachable store the paging loop of the purge returns,
  changes nothing, and gives every identifier the store holds exactly once, in the order of day and
  identifier; the loop of the garbage collector returns the same identifiers as a set.
\<close>

theorem paging_visits_every_record_once:
  assumes lib: "blob_lib_ok lib" and reach: "run (storage_step lib cfg) empty_store s"
  shows "\<exists>ids. all_record_ids s = Some (Inr ids, s) \<and> distinct ids \<and> set ids = dom (holdings lib cfg s) \<and>
    ids = map ce_record_id (ready_entries s) \<and> sorted (map entry_key (ready_entries s)) \<and>
    canonical_ids s = Some (Inr (dom (holdings lib cfg s)), s)"
proof -
  have ok: "store_ok lib cfg s" by (rule reachable_store_ok [OF lib reach])
  then have wf: "catalog_wf s" by (simp add: store_ok_def)
  have "sorted_wrt (\<lambda>x y. entry_key x \<le> entry_key y) (ready_entries s)"
    by (rule sorted_wrt_mono_rel [OF _ ready_entries_ascending [OF wf]]) simp
  then have "sorted (map entry_key (ready_entries s))" by (simp add: sorted_wrt_map)
  moreover have "distinct (map ce_record_id (ready_entries s))" by (rule ready_ids_distinct [OF wf])
  ultimately show ?thesis using all_record_ids_eq [OF wf] canonical_ids_eq [OF wf] ready_rows_holdings [OF ok] by simp
qed

theorem paging_visits_every_record_once_witness:
  "\<exists>s :: store. all_record_ids s = Some (Inr [ev_record_id sample_envelope], s)"
proof -
  obtain ref s where s: "put_sync sample_blob_lib sample_storage [] sample_envelope empty_store = (Inr ref, s)"
    using sample_put by blast
  have "run (storage_step sample_blob_lib sample_storage) empty_store s"
    by (rule run_one) (rule step_put [OF sample_encoded(1) s])
  from paging_visits_every_record_once [OF sample_blob_lib_ok this] obtain ids where
    ids: "all_record_ids s = Some (Inr ids, s)" "distinct ids" "set ids = dom (holdings sample_blob_lib sample_storage s)" by blast
  have "dom (holdings sample_blob_lib sample_storage s) = {ev_record_id sample_envelope}"
    using put_effect(3) [OF sample_blob_lib_ok sample_encoded(1) settled_ok [OF empty_store_settled] s]
    by (auto simp: empty_store_def holdings_def cell_token cell_value_def)
  with ids have "ids = [ev_record_id sample_envelope]" by (cases ids; cases "tl ids") auto
  with ids show ?thesis by blast
qed
end
