(* ===== verification/Retention_Planner.thy ===== *)
theory Retention_Planner
  imports Catalog_Paging
begin

text \<open>
  Retention (\<^verbatim>\<open>src/local_recall/retention\<close>): the rules, the planner that selects the records to expire
  and to evict, and the sweep that deletes them. Decryption is a parameter: the encryption provider
  turns an envelope into the metadata of its record or raises. Days are numbers.
\<close>

section \<open>Rules\<close>

record context_rule =
  cx_field :: string
  cx_value :: string
  cx_max_age_days :: int

definition CONTEXT_FIELDS :: "string list" where
  "CONTEXT_FIELDS = [''application'', ''workspace'']"

definition mk_ContextRetentionRule :: "context_rule \<Rightarrow> exn + context_rule" where
  "mk_ContextRetentionRule r =
    bindS (ensure (cx_field r \<in> set CONTEXT_FIELDS) (ValueError ''retention context field is invalid'')) (\<lambda>_.
    bindS (ensure (cx_value r \<noteq> [] \<and> length (cx_value r) \<le> 256) (ValueError ''retention context value has invalid length'')) (\<lambda>_.
    bindS (ensure (\<forall>c \<in> set (cx_value r). 32 \<le> char_code c)
      (ValueError ''retention context value contains invalid characters'')) (\<lambda>_.
    bindS (ensure (1 \<le> cx_max_age_days r \<and> cx_max_age_days r \<le> 3650) (ValueError ''retention context age limit is invalid'')) (\<lambda>_.
    Inr r))))"

record retention_rules =
  rr_max_age_days :: int
  rr_max_bytes :: int
  rr_max_records :: int
  rr_low_watermark :: "int option"
  rr_context :: "context_rule list"

definition mk_RetentionRules :: "retention_rules \<Rightarrow> exn + retention_rules" where
  "mk_RetentionRules r =
    bindS (ensure (1 \<le> rr_max_age_days r \<and> rr_max_age_days r \<le> 3650) (ValueError ''retention age limit is invalid'')) (\<lambda>_.
    bindS (ensure (0 < rr_max_bytes r \<and> 0 < rr_max_records r) (ValueError ''retention limits must be positive'')) (\<lambda>_.
    bindS (case rr_low_watermark r of
        None \<Rightarrow> Inr (r\<lparr>rr_low_watermark := Some (rr_max_bytes r * 4 div 5)\<rparr>)
      | Some low \<Rightarrow> bindS (ensure (low \<le> rr_max_bytes r)
          (ValueError ''retention low watermark must not exceed the high watermark'')) (\<lambda>_. Inr r)) (\<lambda>r'.
    bindS (ensure (distinct (map cx_field (rr_context r))) (ValueError ''retention context fields must be unique'')) (\<lambda>_.
    Inr r'))))"

record retention_plan =
  rp_expired :: "record_uuid list"
  rp_evicted :: "record_uuid list"
  rp_reclaimed_bytes :: nat
  rp_dry_run :: bool

section \<open>The planner\<close>

type_synonym fields = "string \<rightharpoonup> json"

type_synonym decrypter = "envelope \<Rightarrow> exn + fields"

record planner =
  pl_encryption :: "decrypter option"
  pl_rules :: retention_rules
  pl_today :: int
  pl_decrypt_budget :: nat

definition MAX_DECRYPT_BUDGET :: nat where
  "MAX_DECRYPT_BUDGET = 10000"

definition mk_RetentionPlanner :: "planner \<Rightarrow> exn + planner" where
  "mk_RetentionPlanner p =
    bindS (ensure (1 \<le> pl_decrypt_budget p \<and> pl_decrypt_budget p \<le> MAX_DECRYPT_BUDGET)
      (ValueError ''retention decrypt budget is invalid'')) (\<lambda>_. Inr p)"

definition global_cutoff :: "planner \<Rightarrow> int" where
  "global_cutoff p = pl_today p - rr_max_age_days (pl_rules p)"

definition rule_cutoff :: "planner \<Rightarrow> context_rule \<Rightarrow> int" where
  "rule_cutoff p r = pl_today p - cx_max_age_days r"

definition rule_cutoffs :: "planner \<Rightarrow> (context_rule \<times> int) list" where
  "rule_cutoffs p = map (\<lambda>r. (r, rule_cutoff p r)) (rr_context (pl_rules p))"

definition floor_cutoff :: "planner \<Rightarrow> int" where
  "floor_cutoff p = foldl min (global_cutoff p) (map snd (rule_cutoffs p))"

definition ceil_cutoff :: "planner \<Rightarrow> int" where
  "ceil_cutoff p = foldl max (global_cutoff p) (map snd (rule_cutoffs p))"

definition matches_rule :: "fields \<Rightarrow> context_rule \<Rightarrow> bool" where
  "matches_rule f r = (case f (cx_field r) of
     Some (JStr v) \<Rightarrow> casefold v = casefold (cx_value r) | _ \<Rightarrow> False)"

definition effective_cutoff :: "planner \<Rightarrow> fields \<Rightarrow> int" where
  "effective_cutoff p f = (case map snd (filter (\<lambda>(r, _). matches_rule f r) (rule_cutoffs p)) of
     [] \<Rightarrow> global_cutoff p | c # cs \<Rightarrow> foldl max c cs)"

definition expires_in_window ::
    "blob_lib \<Rightarrow> storage_config \<Rightarrow> planner \<Rightarrow> catalog_entry \<Rightarrow> ('z store_scheme, bool) comp" where
  "expires_in_window lib cfg p e = (case pl_encryption p of
     None \<Rightarrow> raise (ScopeBudgetExceeded ''retention context evaluation is unavailable'')
   | Some decrypt \<Rightarrow>
       bindE (get_sync lib cfg (ce_record_id e)) (\<lambda>found.
       case found of
         None \<Rightarrow> ret True
       | Some env \<Rightarrow> bindE (lift (decrypt env)) (\<lambda>f. ret (ce_day e < effective_cutoff p f))))"

record plan_state =
  ps_expired :: "record_uuid list"
  ps_candidates :: "catalog_entry list"
  ps_decrypted :: nat

definition plan_entry ::
    "blob_lib \<Rightarrow> storage_config \<Rightarrow> planner \<Rightarrow> catalog_entry \<Rightarrow> plan_state \<Rightarrow> ('z store_scheme, plan_state) comp" where
  "plan_entry lib cfg p e st =
    (let st = st\<lparr>ps_candidates := ps_candidates st @ [e]\<rparr>;
         expire = (\<lambda>st. st\<lparr>ps_expired := ps_expired st @ [ce_record_id e]\<rparr>) in
     if ce_day e < floor_cutoff p then ret (expire st)
     else if ceil_cutoff p \<le> ce_day e then ret st
     else
       let st = st\<lparr>ps_decrypted := ps_decrypted st + 1\<rparr> in
       seqE (require (ps_decrypted st \<le> pl_decrypt_budget p) (ScopeBudgetExceeded ''retention decrypt budget exceeded''))
       (bindE (expires_in_window lib cfg p e) (\<lambda>x. ret (if x then expire st else st))))"

fun evict :: "nat \<Rightarrow> int \<Rightarrow> record_uuid list \<Rightarrow> catalog_entry list \<Rightarrow> record_uuid list \<Rightarrow> int \<Rightarrow> record_uuid list" where
  "evict overflow must_free already [] evicted freed = evicted"
| "evict overflow must_free already (c # cs) evicted freed =
    (if overflow \<le> length evicted \<and> must_free \<le> freed then evicted
     else if ce_record_id c \<in> set already then evict overflow must_free already cs evicted freed
     else evict overflow must_free already cs (evicted @ [ce_record_id c]) (freed + int (ce_blob_bytes c)))"

definition total_bytes :: "catalog_entry list \<Rightarrow> int" where
  "total_bytes es = int (sum_list (map ce_blob_bytes es))"

definition eviction_set :: "retention_rules \<Rightarrow> catalog_entry list \<Rightarrow> record_uuid list \<Rightarrow> exn + record_uuid list" where
  "eviction_set r candidates expired =
    (let usage = total_bytes candidates;
         overflow = max (int (length candidates) - rr_max_records r) 0;
         pressure = max (usage - rr_max_bytes r) 0 in
     if overflow = 0 \<and> pressure = 0 then Inr []
     else (case rr_low_watermark r of
         None \<Rightarrow> Inl (ValueError ''retention low watermark is not configured'')
       | Some low \<Rightarrow>
           Inr (evict (nat overflow) (if 0 < pressure then max (usage - low) 0 else 0) expired candidates [] 0)))"

definition start_plan :: plan_state where
  "start_plan = \<lparr>ps_expired = [], ps_candidates = [], ps_decrypted = 0\<rparr>"

definition finish_plan :: "retention_rules \<Rightarrow> bool \<Rightarrow> plan_state \<Rightarrow> exn + retention_plan" where
  "finish_plan r dry_run st =
    bindS (eviction_set r (ps_candidates st) (ps_expired st)) (\<lambda>evicted.
    Inr \<lparr>rp_expired = ps_expired st, rp_evicted = evicted,
      rp_reclaimed_bytes = sum_list (map ce_blob_bytes
        (filter (\<lambda>c. ce_record_id c \<in> set (ps_expired st) \<union> set evicted) (ps_candidates st))),
      rp_dry_run = dry_run\<rparr>)"

definition plan ::
    "blob_lib \<Rightarrow> storage_config \<Rightarrow> planner \<Rightarrow> bool \<Rightarrow> 'z store_scheme \<Rightarrow> ((exn + retention_plan) \<times> 'z store_scheme) option" where
  "plan lib cfg p dry_run s =
    map_option (\<lambda>(r, s'). (bindS r (finish_plan (pl_rules p) dry_run), s'))
      (page_loop (page_ready_sync 10000) (plan_entry lib cfg p) None start_plan s)"

section \<open>The sweep\<close>

record sweep_result =
  sw_planned_count :: nat
  sw_deleted_count :: nat
  sw_reclaimed_bytes :: nat
  sw_dry_run :: bool

record sweep_event =
  se_count :: nat
  se_reclaimed :: nat
  se_dry_run :: bool

text \<open>\<open>dict.fromkeys\<close> keeps the first occurrence of every key.\<close>

definition selected :: "retention_plan \<Rightarrow> record_uuid list" where
  "selected p = rev (remdups (rev (rp_expired p @ rp_evicted p)))"

primrec delete_all :: "string list \<Rightarrow> record_uuid list \<Rightarrow> nat \<Rightarrow> ('z store_scheme, nat) comp" where
  "delete_all busy [] deleted = ret deleted"
| "delete_all busy (u # us) deleted =
    bindE (delete_sync [] busy u) (\<lambda>r. delete_all busy us (if dr_deleted r then deleted + 1 else deleted))"

text \<open>The sweep returns its result and the audit event it emits.\<close>

definition sweep ::
    "blob_lib \<Rightarrow> storage_config \<Rightarrow> string list \<Rightarrow> planner \<Rightarrow> bool \<Rightarrow> 'z store_scheme \<Rightarrow>
     ((exn + (sweep_result \<times> sweep_event)) \<times> 'z store_scheme) option" where
  "sweep lib cfg busy p dry_run s = (case plan lib cfg p dry_run s of
     None \<Rightarrow> None
   | Some (Inl exc, s1) \<Rightarrow> Some (Inl exc, s1)
   | Some (Inr pl, s1) \<Rightarrow>
       if dry_run then Some (Inr (\<lparr>sw_planned_count = length (selected pl), sw_deleted_count = 0, sw_reclaimed_bytes = 0,
           sw_dry_run = True\<rparr>, \<lparr>se_count = 0, se_reclaimed = 0, se_dry_run = True\<rparr>), s1)
       else Some (bindE (delete_all busy (selected pl) 0) (\<lambda>deleted.
         ret (\<lparr>sw_planned_count = length (selected pl), sw_deleted_count = deleted,
             sw_reclaimed_bytes = rp_reclaimed_bytes pl, sw_dry_run = False\<rparr>,
           \<lparr>se_count = deleted, se_reclaimed = rp_reclaimed_bytes pl, se_dry_run = False\<rparr>)) s1))"

end
