(* ===== verification/Retention_Safety.thy ===== *)
theory Retention_Safety
  imports Retention_Planner
begin

text \<open>
  Correctness of retention: the planner's window, inside which records are decrypted, does not change
  what expires; a sweep brings the store within its limits, removes exactly what was planned and
  touches nothing else.
\<close>

section \<open>Cutoffs\<close>

lemma foldl_max_in: "foldl max a xs \<in> insert a (set xs)" for a :: "'a::linorder"
  by (induction xs arbitrary: a) (auto simp: max_def split: if_splits)

lemma foldl_min_in: "foldl min a xs \<in> insert a (set xs)" for a :: "'a::linorder"
  by (induction xs arbitrary: a) (auto simp: min_def split: if_splits)

lemma foldl_max_ge: "x \<in> insert a (set xs) \<Longrightarrow> x \<le> foldl max a xs" for a :: "'a::linorder"
proof (induction xs arbitrary: a x)
  case (Cons y ys)
  have "max a y \<le> foldl max (max a y) ys" using Cons.IH [of "max a y" "max a y"] by simp
  with Cons show ?case by (auto intro: order_trans [OF _ \<open>max a y \<le> _\<close>])
qed simp

lemma foldl_min_le: "x \<in> insert a (set xs) \<Longrightarrow> foldl min a xs \<le> x" for a :: "'a::linorder"
proof (induction xs arbitrary: a x)
  case (Cons y ys)
  have "foldl min (min a y) ys \<le> min a y" using Cons.IH [of "min a y" "min a y"] by simp
  with Cons show ?case by (auto intro: order_trans [OF \<open>_ \<le> min a y\<close>])
qed simp

lemma effective_in: "effective_cutoff p f \<in> insert (global_cutoff p) (set (map snd (rule_cutoffs p)))"
proof (cases "map snd (filter (\<lambda>(r, _). matches_rule f r) (rule_cutoffs p))")
  case (Cons c cs)
  have "set (c # cs) \<subseteq> set (map snd (rule_cutoffs p))" unfolding Cons [symmetric] by auto
  moreover have "effective_cutoff p f \<in> set (c # cs)" using foldl_max_in [of c cs] by (simp add: effective_cutoff_def Cons)
  ultimately show ?thesis by blast
qed (simp add: effective_cutoff_def)

lemma effective_between: "floor_cutoff p \<le> effective_cutoff p f" "effective_cutoff p f \<le> ceil_cutoff p"
  using effective_in [of p f] by (simp_all add: floor_cutoff_def ceil_cutoff_def foldl_min_le foldl_max_ge)

section \<open>The plan\<close>

definition fields_of :: "blob_lib \<Rightarrow> storage_config \<Rightarrow> planner \<Rightarrow> 'z store_scheme \<Rightarrow> catalog_entry \<Rightarrow> exn + fields" where
  "fields_of lib cfg p s e = (case (pl_encryption p, holdings lib cfg s (ce_record_id e)) of
     (Some decrypt, Some env) \<Rightarrow> decrypt env | _ \<Rightarrow> Inl (ScopeBudgetExceeded ''retention context evaluation is unavailable''))"

text \<open>The reference: a record expires when its day is before the cutoff its own metadata calls for.\<close>

definition should_expire :: "blob_lib \<Rightarrow> storage_config \<Rightarrow> planner \<Rightarrow> 'z store_scheme \<Rightarrow> catalog_entry \<Rightarrow> bool" where
  "should_expire lib cfg p s e \<longleftrightarrow>
    ce_day e < effective_cutoff p (case fields_of lib cfg p s e of Inr f \<Rightarrow> f | Inl _ \<Rightarrow> Map.empty)"

definition in_window :: "planner \<Rightarrow> catalog_entry \<Rightarrow> bool" where
  "in_window p e \<longleftrightarrow> floor_cutoff p \<le> ce_day e \<and> ce_day e < ceil_cutoff p"

lemma expires_eq:
  assumes "store_ok lib cfg s" and "e \<in> set (ready_entries s)"
  shows "expires_in_window lib cfg p e s = (map_sum id (\<lambda>f. ce_day e < effective_cutoff p f) (fields_of lib cfg p s e), s)"
proof -
  have "ce_record_id e \<in> dom (holdings lib cfg s)" using ready_rows_holdings [OF assms(1)] assms(2) by blast
  then obtain env where "holdings lib cfg s (ce_record_id e) = Some env" by blast
  then show ?thesis using get_held [OF assms(1), of "ce_record_id e"]
    by (auto simp: expires_in_window_def fields_of_def comp_defs split: option.split sum.split)
qed

lemma plan_entry_eq:
  assumes "store_ok lib cfg s" and "e \<in> set (ready_entries s)"
  shows "plan_entry lib cfg p e st s =
    (let st' = st\<lparr>ps_candidates := ps_candidates st @ [e],
           ps_expired := ps_expired st @ (if should_expire lib cfg p s e then [ce_record_id e] else []),
           ps_decrypted := ps_decrypted st + (if in_window p e then 1 else 0)\<rparr> in
     if in_window p e \<and> pl_decrypt_budget p \<le> ps_decrypted st
       then (Inl (ScopeBudgetExceeded ''retention decrypt budget exceeded''), s)
     else if in_window p e then (map_sum id (\<lambda>_. st') (fields_of lib cfg p s e), s)
     else (Inr st', s))"
proof -
  note b = effective_between [of p "case fields_of lib cfg p s e of Inr f \<Rightarrow> f | Inl _ \<Rightarrow> Map.empty"]
  consider "ce_day e < floor_cutoff p" | "ceil_cutoff p \<le> ce_day e" | "in_window p e"
    by (fastforce simp: in_window_def)
  then show ?thesis
  proof cases
    case 1
    then show ?thesis using b by (simp add: plan_entry_def Let_def in_window_def should_expire_def ret_def)
  next
    case 2
    then have "\<not> ce_day e < floor_cutoff p" using b by linarith
    with 2 show ?thesis using b by (simp add: plan_entry_def Let_def in_window_def should_expire_def ret_def)
  next
    case 3
    then show ?thesis using expires_eq [OF assms, of p]
      by (cases "fields_of lib cfg p s e")
        (auto simp: plan_entry_def Let_def in_window_def should_expire_def comp_defs)
  qed
qed

lemma plan_entry_leaves:
  assumes "store_ok lib cfg s"
  shows "snd (plan_entry lib cfg p e st s) = s"
proof -
  have "snd (expires_in_window lib cfg p e s) = s"
    using get_held [OF assms, of "ce_record_id e"]
    by (simp add: expires_in_window_def comp_defs split: option.split sum.split)
  then show ?thesis by (auto simp: plan_entry_def Let_def comp_defs split: prod.split sum.split)
qed

lemma visit_plan_result:
  assumes ok: "store_ok lib cfg s" and "set es \<subseteq> set (ready_entries s)"
    and "visit_all (plan_entry lib cfg p) es st s = (Inr st', s')"
  shows "ps_candidates st' = ps_candidates st @ es \<and>
    ps_expired st' = ps_expired st @ map ce_record_id (filter (should_expire lib cfg p s) es)"
  using assms(2,3)
proof (induction es arbitrary: st)
  case (Cons e es)
  have e: "e \<in> set (ready_entries s)" using Cons.prems(1) by simp
  let ?st = "st\<lparr>ps_candidates := ps_candidates st @ [e],
    ps_expired := ps_expired st @ (if should_expire lib cfg p s e then [ce_record_id e] else []),
    ps_decrypted := ps_decrypted st + (if in_window p e then 1 else 0)\<rparr>"
  have "visit_all (plan_entry lib cfg p) es ?st s = (Inr st', s')"
    using Cons.prems(2)
    by (cases "fields_of lib cfg p s e") (auto simp: bindE_def plan_entry_eq [OF ok e] Let_def split: if_splits)
  from Cons.IH [OF _ this] Cons.prems(1) show ?case by auto
qed (simp add: ret_def)

lemma visit_plan_budget:
  assumes ok: "store_ok lib cfg s" and "set es \<subseteq> set (ready_entries s)"
    and "\<forall>e \<in> set es. in_window p e \<longrightarrow> \<not> isl (fields_of lib cfg p s e)" and "ps_decrypted st \<le> pl_decrypt_budget p"
  shows "if ps_decrypted st + length (filter (in_window p) es) \<le> pl_decrypt_budget p
    then \<exists>st'. visit_all (plan_entry lib cfg p) es st s = (Inr st', s)
    else visit_all (plan_entry lib cfg p) es st s = (Inl (ScopeBudgetExceeded ''retention decrypt budget exceeded''), s)"
  using assms(2,3,4)
proof (induction es arbitrary: st)
  case (Cons e es)
  have e: "e \<in> set (ready_entries s)" using Cons.prems(1) by simp
  let ?st = "st\<lparr>ps_candidates := ps_candidates st @ [e],
    ps_expired := ps_expired st @ (if should_expire lib cfg p s e then [ce_record_id e] else []),
    ps_decrypted := ps_decrypted st + (if in_window p e then 1 else 0)\<rparr>"
  show ?case
  proof (cases "in_window p e \<and> pl_decrypt_budget p \<le> ps_decrypted st")
    case True
    then show ?thesis by (simp add: bindE_def plan_entry_eq [OF ok e])
  next
    case False
    have step: "plan_entry lib cfg p e st s = (Inr ?st, s)"
      using False Cons.prems(2) by (cases "fields_of lib cfg p s e") (auto simp: plan_entry_eq [OF ok e] Let_def)
    have "ps_decrypted ?st \<le> pl_decrypt_budget p" using False Cons.prems(3) by auto
    from Cons.IH [OF _ _ this] Cons.prems(1,2) step show ?thesis by (simp add: bindE_def split: if_splits)
  qed
qed (simp add: ret_def)

lemma plan_eq:
  assumes "store_ok lib cfg s"
  shows "plan lib cfg p dry_run s = Some (bindS (fst (visit_all (plan_entry lib cfg p) (ready_entries s) start_plan s))
    (finish_plan (pl_rules p) dry_run), s)"
proof -
  have wf: "catalog_wf s" using assms by (simp add: store_ok_def)
  have "snd (visit_all (plan_entry lib cfg p) (ready_entries s) start_plan s) = s"
    by (rule visit_all_leaves) (rule plan_entry_leaves [OF assms])
  then show ?thesis
    using ready_pages.page_loop_visits [of s "plan_entry lib cfg p" None start_plan, OF wf plan_entry_leaves [OF assms]]
    by (simp add: plan_def split_def)
qed

section \<open>Eviction\<close>

definition survivors :: "record_uuid list \<Rightarrow> catalog_entry list \<Rightarrow> catalog_entry list" where
  "survivors expired es = filter (\<lambda>e. ce_record_id e \<notin> set expired) es"

lemma evict_prefix:
  "\<exists>n. evict overflow must_free already cs ev freed = ev @ map ce_record_id (take n (survivors already cs)) \<and>
    (length (survivors already cs) \<le> n \<or>
     overflow \<le> length ev + n \<and> must_free \<le> freed + total_bytes (take n (survivors already cs)) \<and> n \<le> length (survivors already cs))"
proof (induction overflow must_free already cs ev freed rule: evict.induct)
  case (1 overflow must_free already ev freed)
  then show ?case by (auto simp: survivors_def)
next
  case (2 overflow must_free already c cs ev freed)
  consider (enough) "overflow \<le> length ev \<and> must_free \<le> freed"
    | (expired) "\<not> (overflow \<le> length ev \<and> must_free \<le> freed)" "ce_record_id c \<in> set already"
    | (taken) "\<not> (overflow \<le> length ev \<and> must_free \<le> freed)" "ce_record_id c \<notin> set already" by blast
  then show ?case
  proof cases
    case enough
    then show ?thesis by (intro exI [of _ 0]) (simp add: total_bytes_def)
  next
    case expired
    then have "survivors already (c # cs) = survivors already cs"
      "evict overflow must_free already (c # cs) ev freed = evict overflow must_free already cs ev freed"
      by (auto simp: survivors_def)
    with 2(1) [OF expired] show ?thesis by presburger
  next
    case taken
    then obtain n where n: "evict overflow must_free already cs (ev @ [ce_record_id c]) (freed + int (ce_blob_bytes c)) =
        (ev @ [ce_record_id c]) @ map ce_record_id (take n (survivors already cs))"
      "length (survivors already cs) \<le> n \<or> overflow \<le> length (ev @ [ce_record_id c]) + n \<and>
        must_free \<le> freed + int (ce_blob_bytes c) + total_bytes (take n (survivors already cs)) \<and> n \<le> length (survivors already cs)"
      using 2(2) by blast
    have s: "survivors already (c # cs) = c # survivors already cs" using taken by (simp add: survivors_def)
    show ?thesis using taken n by (intro exI [of _ "Suc n"]) (auto simp: s total_bytes_def)
  qed
qed

lemma filter_drop:
  "distinct (map f xs) \<Longrightarrow> filter (\<lambda>x. f x \<notin> set (map f (take n xs))) xs = drop n xs"
proof (induction xs arbitrary: n)
  case (Cons x xs)
  show ?case
  proof (cases n)
    case (Suc k)
    have "filter (\<lambda>y. f y \<notin> insert (f x) (f ` set (take k xs))) xs = filter (\<lambda>y. f y \<notin> set (map f (take k xs))) xs"
      using Cons.prems by (intro filter_cong) (auto simp: image_iff)
    with Cons show ?thesis by (simp add: Suc)
  qed simp
qed simp

definition kept :: "retention_plan \<Rightarrow> catalog_entry list \<Rightarrow> catalog_entry list" where
  "kept pl es = filter (\<lambda>e. ce_record_id e \<notin> set (rp_expired pl) \<union> set (rp_evicted pl)) es"

lemma total_append: "total_bytes (xs @ ys) = total_bytes xs + total_bytes ys"
  by (simp add: total_bytes_def)

lemma total_nonneg: "0 \<le> total_bytes xs"
  by (simp add: total_bytes_def)

lemma total_filter: "total_bytes (filter P xs) + total_bytes (filter (\<lambda>x. \<not> P x) xs) = total_bytes xs"
  by (induction xs) (auto simp: total_bytes_def)

lemma eviction_limits:
  assumes ev: "eviction_set r es expired = Inr evicted" and dist: "distinct (map ce_record_id es)"
    and pos: "0 < rr_max_bytes r" "0 < rr_max_records r" and low: "rr_low_watermark r = Some low" "low \<le> rr_max_bytes r"
  shows "\<exists>n. evicted = map ce_record_id (take n (survivors expired es)) \<and>
    (let rest = drop n (survivors expired es) in
     int (length rest) \<le> rr_max_records r \<and> total_bytes rest \<le> rr_max_bytes r \<and>
     (rr_max_bytes r < total_bytes es \<longrightarrow> total_bytes rest \<le> max low 0))"
proof -
  let ?sv = "survivors expired es"
  have len: "length ?sv \<le> length es" by (simp add: survivors_def)
  have tot: "total_bytes ?sv \<le> total_bytes es"
    using total_filter [of "\<lambda>e. ce_record_id e \<notin> set expired" es] total_nonneg by (simp add: survivors_def) (smt (verit))
  show ?thesis
  proof (cases "int (length es) \<le> rr_max_records r \<and> total_bytes es \<le> rr_max_bytes r")
    case True
    then have "evicted = []" using ev by (simp add: eviction_set_def Let_def)
    with True len tot show ?thesis by (intro exI [of _ 0]) (simp add: Let_def)
  next
    case False
    let ?of = "nat (max (int (length es) - rr_max_records r) 0)"
    let ?mf = "if 0 < max (total_bytes es - rr_max_bytes r) 0 then max (total_bytes es - low) 0 else 0"
    have "evicted = evict ?of ?mf expired es [] 0" using ev False low(1) by (auto simp: eviction_set_def Let_def)
    with evict_prefix [of ?of ?mf expired es "[]" 0] obtain n where n: "evicted = map ce_record_id (take n ?sv)"
      "length ?sv \<le> n \<or> ?of \<le> n \<and> ?mf \<le> total_bytes (take n ?sv) \<and> n \<le> length ?sv" by auto
    have split: "total_bytes (take n ?sv) + total_bytes (drop n ?sv) = total_bytes ?sv"
      using total_append [of "take n ?sv" "drop n ?sv"] by simp
    show ?thesis
    proof (cases "length ?sv \<le> n")
      case True
      then show ?thesis using n(1) pos by (intro exI [of _ n]) (simp add: total_bytes_def)
    next
      case False
      then have "?of \<le> n" "?mf \<le> total_bytes (take n ?sv)" "n \<le> length ?sv" using n(2) by auto
      then show ?thesis using n(1) split tot len low(2) total_nonneg [of "take n ?sv"]
        by (intro exI [of _ n]) (auto simp: Let_def split: if_splits)
    qed
  qed
qed

section \<open>The sweep\<close>

lemma ready_after_delete:
  "filter (\<lambda>(k, m, q). q = READY) (AList.delete u (map (\<lambda>(k, m, p). (k, m, if k = u then DELETING else p)) rows)) =
    filter (\<lambda>(k, m, q). k \<noteq> u) (filter (\<lambda>(k, m, q). q = READY) rows)"
  by (induction rows) (auto simp: AList.delete_eq)

lemma ready_entries_cleared: "ready_entries (cleared_store u s) = filter (\<lambda>e. ce_record_id e \<noteq> u) (ready_entries s)"
proof -
  have "filter (\<lambda>(k, m, q). q = READY) (st_records (cleared_store u s)) =
      filter (\<lambda>(k, m, q). k \<noteq> u) (filter (\<lambda>(k, m, q). q = READY) (st_records s))"
    unfolding ready_after_delete [symmetric] by (simp add: cleared_store_def marked_store_def)
  then show ?thesis
    by (simp add: ready_entries_def ready_rows_def filter_sort [symmetric] filter_map o_def split_def row_entry_def
        del: filter_filter)
qed

lemma delete_held:
  assumes ok: "store_ok lib cfg s" and u: "u \<in> dom (holdings lib cfg s)"
  shows "delete_sync [] [] u s = (Inr \<lparr>dr_record_id = u, dr_deleted = True, dr_material_destroyed = False\<rparr>, cleared_store u s)"
proof -
  have "map_of (st_records s) u \<noteq> None"
    using u by (auto simp: holdings_def cell_value_def cell_token split: option.splits)
  then show ?thesis using ok by (auto simp: delete_sync_eq store_ok_def)
qed

lemma delete_all_held:
  assumes "store_ok lib cfg s" and "distinct us" and "set us \<subseteq> dom (holdings lib cfg s)"
  shows "\<exists>s'. delete_all [] us n s = (Inr (n + length us), s') \<and> store_ok lib cfg s' \<and>
    holdings lib cfg s' = holdings lib cfg s |` (- set us) \<and>
    ready_entries s' = filter (\<lambda>e. ce_record_id e \<notin> set us) (ready_entries s)"
  using assms
proof (induction us arbitrary: n s)
  case Nil
  then show ?case by (simp add: ret_def restrict_map_def)
next
  case (Cons u us)
  let ?s = "cleared_store u s"
  have d: "delete_sync [] [] u s = (Inr \<lparr>dr_record_id = u, dr_deleted = True, dr_material_destroyed = False\<rparr>, ?s)"
    using delete_held [OF Cons.prems(1)] Cons.prems(3) by simp
  note eff = delete_effect [OF Cons.prems(1) d]
  have "set us \<subseteq> dom (holdings lib cfg ?s)" using Cons.prems(2,3) eff(2) by auto
  from Cons.IH [OF eff(1) _ this, of "n + 1"] Cons.prems(2) obtain s' where
    s': "delete_all [] us (n + 1) ?s = (Inr (n + 1 + length us), s')" "store_ok lib cfg s'"
      "holdings lib cfg s' = holdings lib cfg ?s |` (- set us)"
      "ready_entries s' = filter (\<lambda>e. ce_record_id e \<notin> set us) (ready_entries ?s)" by auto
  have "holdings lib cfg s' = holdings lib cfg s |` (- set (u # us))"
    by (auto simp: s'(3) eff(2) restrict_map_def fun_eq_iff)
  moreover have "ready_entries s' = filter (\<lambda>e. ce_record_id e \<notin> set (u # us)) (ready_entries s)"
    by (auto simp: s'(4) ready_entries_cleared intro: filter_cong)
  ultimately show ?case using d s'(1,2) by (simp add: bindE_def)
qed

lemma rules_valid:
  assumes "mk_RetentionRules r0 = Inr r"
  shows "0 < rr_max_bytes r" "0 < rr_max_records r" "\<exists>low. rr_low_watermark r = Some low \<and> low \<le> rr_max_bytes r"
  using assms by (auto simp: mk_RetentionRules_def bindS_Inr ensure_Inr split: option.splits)

lemma plan_result:
  assumes ok: "store_ok lib cfg s" and "plan lib cfg p dry s = Some (Inr pl, s')"
  shows "s' = s" "rp_expired pl = map ce_record_id (filter (should_expire lib cfg p s) (ready_entries s))"
    "eviction_set (pl_rules p) (ready_entries s) (rp_expired pl) = Inr (rp_evicted pl)"
    "int (rp_reclaimed_bytes pl) = total_bytes (ready_entries s) - total_bytes (kept pl (ready_entries s))"
proof -
  let ?v = "visit_all (plan_entry lib cfg p) (ready_entries s) start_plan s"
  have s': "s' = s" and b: "bindS (fst ?v) (finish_plan (pl_rules p) dry) = Inr pl"
    using assms(2) by (auto simp: plan_eq [OF ok])
  then obtain st where st: "fst ?v = Inr st" "finish_plan (pl_rules p) dry st = Inr pl" by (auto simp: bindS_Inr)
  then have "?v = (Inr st, snd ?v)" by (metis prod.collapse)
  from visit_plan_result [OF ok order_refl this] have c: "ps_candidates st = ready_entries s"
    "ps_expired st = map ce_record_id (filter (should_expire lib cfg p s) (ready_entries s))" by (simp_all add: start_plan_def)
  show "s' = s" by (rule s')
  show "rp_expired pl = map ce_record_id (filter (should_expire lib cfg p s) (ready_entries s))"
    "eviction_set (pl_rules p) (ready_entries s) (rp_expired pl) = Inr (rp_evicted pl)"
    using st(2) c by (auto simp: finish_plan_def bindS_Inr)
  show "int (rp_reclaimed_bytes pl) = total_bytes (ready_entries s) - total_bytes (kept pl (ready_entries s))"
    using st(2) c total_filter [of "\<lambda>e. ce_record_id e \<in> set (rp_expired pl) \<union> set (rp_evicted pl)" "ready_entries s"]
    by (auto simp: finish_plan_def bindS_Inr kept_def total_bytes_def)
qed

lemma plan_limits:
  assumes ok: "store_ok lib cfg s" and r: "mk_RetentionRules r0 = Inr (pl_rules p)" and pl: "plan lib cfg p dry s = Some (Inr pl, s')"
  shows "\<exists>n. rp_evicted pl = map ce_record_id (take n (survivors (rp_expired pl) (ready_entries s))) \<and>
      kept pl (ready_entries s) = drop n (survivors (rp_expired pl) (ready_entries s))"
    "int (length (kept pl (ready_entries s))) \<le> rr_max_records (pl_rules p)"
    "total_bytes (kept pl (ready_entries s)) \<le> rr_max_bytes (pl_rules p)"
    "rr_low_watermark (pl_rules p) = Some low \<Longrightarrow> rr_max_bytes (pl_rules p) < total_bytes (ready_entries s) \<Longrightarrow>
      total_bytes (kept pl (ready_entries s)) \<le> max low 0"
proof -
  let ?es = "ready_entries s"
  obtain low' where low: "rr_low_watermark (pl_rules p) = Some low'" "low' \<le> rr_max_bytes (pl_rules p)"
    using rules_valid(3) [OF r] by blast
  have dist: "distinct (map ce_record_id ?es)" using ready_ids_distinct ok by (auto simp: store_ok_def)
  obtain n where n: "rp_evicted pl = map ce_record_id (take n (survivors (rp_expired pl) ?es))"
    "let rest = drop n (survivors (rp_expired pl) ?es) in int (length rest) \<le> rr_max_records (pl_rules p) \<and>
      total_bytes rest \<le> rr_max_bytes (pl_rules p) \<and> (rr_max_bytes (pl_rules p) < total_bytes ?es \<longrightarrow> total_bytes rest \<le> max low' 0)"
    using eviction_limits [OF plan_result(3) [OF ok pl] dist rules_valid(1,2) [OF r] low] by blast
  have "distinct (map ce_record_id (survivors (rp_expired pl) ?es))"
    using dist by (simp add: survivors_def distinct_map_filter)
  from filter_drop [OF this, of n] have k: "kept pl ?es = drop n (survivors (rp_expired pl) ?es)"
    unfolding n(1) [symmetric] by (simp add: kept_def survivors_def conj_commute)
  then show "\<exists>n. rp_evicted pl = map ce_record_id (take n (survivors (rp_expired pl) ?es)) \<and>
      kept pl ?es = drop n (survivors (rp_expired pl) ?es)" using n(1) by blast
  show "int (length (kept pl ?es)) \<le> rr_max_records (pl_rules p)" "total_bytes (kept pl ?es) \<le> rr_max_bytes (pl_rules p)"
    using n(2) k by (simp_all add: Let_def)
  show "total_bytes (kept pl ?es) \<le> max low 0"
    if "rr_low_watermark (pl_rules p) = Some low" "rr_max_bytes (pl_rules p) < total_bytes ?es"
    using n(2) k that low(1) by (simp add: Let_def)
qed

lemma plan_budget:
  assumes ok: "store_ok lib cfg s" and rules: "mk_RetentionRules r0 = Inr (pl_rules p)"
    and dec: "\<forall>e \<in> set (ready_entries s). in_window p e \<longrightarrow> \<not> isl (fields_of lib cfg p s e)"
  shows "if length (filter (in_window p) (ready_entries s)) \<le> pl_decrypt_budget p
    then \<exists>pl. plan lib cfg p dry s = Some (Inr pl, s)
    else plan lib cfg p dry s = Some (Inl (ScopeBudgetExceeded ''retention decrypt budget exceeded''), s)"
proof -
  obtain low where low: "rr_low_watermark (pl_rules p) = Some low" using rules_valid(3) [OF rules] by blast
  have "\<exists>pl. finish_plan (pl_rules p) dry st = Inr pl" for st
    by (simp add: finish_plan_def eviction_set_def low Let_def)
  then show ?thesis using visit_plan_budget [OF ok order_refl dec, of start_plan]
    by (auto simp: plan_eq [OF ok] start_plan_def split: if_splits)
qed

lemma selected_set: "set (selected pl) = set (rp_expired pl) \<union> set (rp_evicted pl)" "distinct (selected pl)"
  by (auto simp: selected_def)

lemma planned_are_held:
  assumes ok: "store_ok lib cfg s" and r: "mk_RetentionRules r0 = Inr (pl_rules p)" and pl: "plan lib cfg p dry s = Some (Inr pl, s')"
  shows "set (selected pl) \<subseteq> dom (holdings lib cfg s)"
proof -
  have "set (rp_evicted pl) \<subseteq> ce_record_id ` set (ready_entries s)"
    using plan_limits(1) [OF ok r pl] by (auto simp: survivors_def dest!: in_set_takeD)
  moreover have "set (rp_expired pl) \<subseteq> ce_record_id ` set (ready_entries s)"
    using plan_result(2) [OF ok pl] by auto
  ultimately show ?thesis by (simp add: selected_set ready_rows_holdings [OF ok])
qed

lemma sweep_run:
  assumes ok: "store_ok lib cfg s" and r: "mk_RetentionRules r0 = Inr (pl_rules p)" and pl: "plan lib cfg p False s = Some (Inr pl, s0)"
  shows "\<exists>s'. sweep lib cfg [] p False s = Some (Inr (\<lparr>sw_planned_count = length (selected pl),
       sw_deleted_count = length (selected pl), sw_reclaimed_bytes = rp_reclaimed_bytes pl, sw_dry_run = False\<rparr>,
       \<lparr>se_count = length (selected pl), se_reclaimed = rp_reclaimed_bytes pl, se_dry_run = False\<rparr>), s') \<and>
    store_ok lib cfg s' \<and> holdings lib cfg s' = holdings lib cfg s |` (- set (selected pl)) \<and>
    ready_entries s' = kept pl (ready_entries s)"
proof -
  obtain s' where s': "delete_all [] (selected pl) 0 s = (Inr (0 + length (selected pl)), s')" "store_ok lib cfg s'"
    "holdings lib cfg s' = holdings lib cfg s |` (- set (selected pl))"
    "ready_entries s' = filter (\<lambda>e. ce_record_id e \<notin> set (selected pl)) (ready_entries s)"
    using delete_all_held [OF ok selected_set(2) planned_are_held [OF ok r pl]] by blast
  have "s0 = s" by (rule plan_result(1) [OF ok pl])
  then show ?thesis using s' pl by (simp add: sweep_def bindE_def ret_def kept_def selected_set)
qed

section \<open>A concrete sweep\<close>

definition sample_rules :: retention_rules where
  "sample_rules = \<lparr>rr_max_age_days = 30, rr_max_bytes = 1000, rr_max_records = 10, rr_low_watermark = Some 800,
     rr_context = [\<lparr>cx_field = ''application'', cx_value = ''Mail'', cx_max_age_days = 7\<rparr>]\<rparr>"

definition sample_planner :: "int \<Rightarrow> planner" where
  "sample_planner today = \<lparr>pl_encryption = Some (\<lambda>_. Inr [''application'' \<mapsto> JStr ''mail'']), pl_rules = sample_rules,
     pl_today = today, pl_decrypt_budget = 5\<rparr>"

lemma sample_rules_valid: "mk_RetentionRules sample_rules = Inr (pl_rules (sample_planner t))"
  by (simp add: mk_RetentionRules_def sample_rules_def sample_planner_def)

lemma sample_reachable:
  "\<exists>s :: store. run (storage_step sample_blob_lib sample_storage) empty_store s \<and>
    ready_entries s \<noteq> [] \<and> length (ready_entries s) = 1"
proof -
  obtain ref s where s: "put_sync sample_blob_lib sample_storage [] sample_envelope empty_store = (Inr ref, s)"
    "store_ok sample_blob_lib sample_storage s"
    using sample_put by blast
  have run: "run (storage_step sample_blob_lib sample_storage) empty_store s"
    by (rule run_one) (rule step_put [OF sample_encoded(1) s(1)])
  have "dom (holdings sample_blob_lib sample_storage s) = {ev_record_id sample_envelope}"
    using put_effect(3) [OF sample_blob_lib_ok sample_encoded(1) settled_ok [OF empty_store_settled] s(1)]
    by (auto simp: empty_store_def holdings_def cell_token cell_value_def)
  then have "ce_record_id ` set (ready_entries s) = {ev_record_id sample_envelope}"
    using ready_rows_holdings [OF s(2)] by simp
  moreover have "distinct (map ce_record_id (ready_entries s))"
    using ready_ids_distinct s(2) by (auto simp: store_ok_def)
  ultimately have "length (ready_entries s) = 1"
    by (metis card_1_singleton_iff distinct_card length_map list.set_map One_nat_def)
  with run show ?thesis by (intro exI [of _ s]) auto
qed

section \<open>Properties\<close>

text \<open>
  C27. The decryption window changes nothing. In every reachable store and for valid rules, planning
  ends without touching the store; the records it expires are exactly, and in catalog order, those
  whose day is before the cutoff their own metadata calls for, although only records between the
  earliest and the latest cutoff are decrypted; and if these can all be decrypted the planner succeeds
  when they are within its budget and otherwise fails with the budget error.
\<close>

theorem window_planning_matches_reference:
  assumes lib: "blob_lib_ok lib" and reach: "run (storage_step lib cfg) empty_store s"
    and rules: "mk_RetentionRules r0 = Inr (pl_rules p)"
  shows "(\<exists>res. plan lib cfg p dry s = Some (res, s)) \<and>
    (\<forall>pl s'. plan lib cfg p dry s = Some (Inr pl, s') \<longrightarrow>
      rp_expired pl = map ce_record_id (filter (should_expire lib cfg p s) (ready_entries s))) \<and>
    ((\<forall>e \<in> set (ready_entries s). in_window p e \<longrightarrow> \<not> isl (fields_of lib cfg p s e)) \<longrightarrow>
      (if length (filter (in_window p) (ready_entries s)) \<le> pl_decrypt_budget p
       then \<exists>pl. plan lib cfg p dry s = Some (Inr pl, s)
       else plan lib cfg p dry s = Some (Inl (ScopeBudgetExceeded ''retention decrypt budget exceeded''), s)))"
proof (intro conjI allI impI)
  have ok: "store_ok lib cfg s" by (rule reachable_store_ok [OF lib reach])
  show "\<exists>res. plan lib cfg p dry s = Some (res, s)" by (simp add: plan_eq [OF ok])
  show "rp_expired pl = map ce_record_id (filter (should_expire lib cfg p s) (ready_entries s))"
    if "plan lib cfg p dry s = Some (Inr pl, s')" for pl s' by (rule plan_result(2) [OF ok that])
  assume dec: "\<forall>e \<in> set (ready_entries s). in_window p e \<longrightarrow> \<not> isl (fields_of lib cfg p s e)"
  show "if length (filter (in_window p) (ready_entries s)) \<le> pl_decrypt_budget p
       then \<exists>pl. plan lib cfg p dry s = Some (Inr pl, s)
       else plan lib cfg p dry s = Some (Inl (ScopeBudgetExceeded ''retention decrypt budget exceeded''), s)"
    by (rule plan_budget [OF ok rules dec])
qed

theorem window_planning_matches_reference_witness:
  "\<exists>s pl. ready_entries (s :: store) \<noteq> [] \<and> plan sample_blob_lib sample_storage (sample_planner 400) False s = Some (Inr pl, s) \<and>
    rp_expired pl = map ce_record_id (filter (should_expire sample_blob_lib sample_storage (sample_planner 400) s) (ready_entries s))"
proof -
  obtain s :: store where s: "run (storage_step sample_blob_lib sample_storage) empty_store s"
    "ready_entries s \<noteq> []" "length (ready_entries s) = 1" using sample_reachable by blast
  have ok: "store_ok sample_blob_lib sample_storage s" by (rule reachable_store_ok [OF sample_blob_lib_ok s(1)])
  have "\<forall>e \<in> set (ready_entries s). in_window (sample_planner 400) e \<longrightarrow>
      \<not> isl (fields_of sample_blob_lib sample_storage (sample_planner 400) s e)"
    using ready_rows_holdings [OF ok] by (force simp: fields_of_def sample_planner_def split: option.split)
  moreover have "length (filter (in_window (sample_planner 400)) (ready_entries s)) \<le> pl_decrypt_budget (sample_planner 400)"
    using s(3) length_filter_le [of "in_window (sample_planner 400)" "ready_entries s"] by (simp add: sample_planner_def)
  ultimately obtain pl where "plan sample_blob_lib sample_storage (sample_planner 400) False s = Some (Inr pl, s)"
    using window_planning_matches_reference [OF sample_blob_lib_ok s(1) sample_rules_valid [of 400], of False] by presburger
  moreover from this have
    "rp_expired pl = map ce_record_id (filter (should_expire sample_blob_lib sample_storage (sample_planner 400) s) (ready_entries s))"
    using window_planning_matches_reference [OF sample_blob_lib_ok s(1) sample_rules_valid [of 400], of False] by blast
  ultimately show ?thesis using s(2) by blast
qed

text \<open>
  C28. A sweep enforces the limits and removes only what was planned. When the planner succeeds on a
  reachable store, the sweep succeeds and deletes exactly the planned records, leaving all others as
  they were; what it evicts beyond the expired records is a prefix of the survivors in catalog order,
  oldest first; afterwards the number of records and their bytes are within the configured limits,
  and within the low watermark when the high one had been exceeded; the audit event carries the
  number deleted and the bytes by which the store shrank. A dry run changes nothing.
\<close>

theorem sweep_enforces_limits:
  assumes lib: "blob_lib_ok lib" and reach: "run (storage_step lib cfg) empty_store s"
    and rules: "mk_RetentionRules r0 = Inr (pl_rules p)" and planned: "plan lib cfg p False s = Some (Inr pl, s0)"
  shows "(\<exists>s' res ev. sweep lib cfg [] p False s = Some (Inr (res, ev), s') \<and>
      holdings lib cfg s' = holdings lib cfg s |` (- (set (rp_expired pl) \<union> set (rp_evicted pl))) \<and>
      (\<exists>n. rp_evicted pl = map ce_record_id (take n (survivors (rp_expired pl) (ready_entries s)))) \<and>
      int (length (ready_entries s')) \<le> rr_max_records (pl_rules p) \<and>
      total_bytes (ready_entries s') \<le> rr_max_bytes (pl_rules p) \<and>
      (rr_max_bytes (pl_rules p) < total_bytes (ready_entries s) \<longrightarrow>
        total_bytes (ready_entries s') \<le> max (the (rr_low_watermark (pl_rules p))) 0) \<and>
      se_count ev = card (set (rp_expired pl) \<union> set (rp_evicted pl)) \<and>
      int (se_reclaimed ev) = total_bytes (ready_entries s) - total_bytes (ready_entries s')) \<and>
    (\<exists>r. sweep lib cfg busy p True s = Some (r, s))"
proof
  have ok: "store_ok lib cfg s" by (rule reachable_store_ok [OF lib reach])
  obtain s' where s': "sweep lib cfg [] p False s = Some (Inr (\<lparr>sw_planned_count = length (selected pl),
       sw_deleted_count = length (selected pl), sw_reclaimed_bytes = rp_reclaimed_bytes pl, sw_dry_run = False\<rparr>,
       \<lparr>se_count = length (selected pl), se_reclaimed = rp_reclaimed_bytes pl, se_dry_run = False\<rparr>), s')"
    "holdings lib cfg s' = holdings lib cfg s |` (- set (selected pl))" "ready_entries s' = kept pl (ready_entries s)"
    using sweep_run [OF ok rules planned] by blast
  obtain low where low: "rr_low_watermark (pl_rules p) = Some low" using rules_valid(3) [OF rules] by blast
  note limits = plan_limits [OF ok rules planned]
  obtain n where ev: "rp_evicted pl = map ce_record_id (take n (survivors (rp_expired pl) (ready_entries s)))"
    using limits(1) by blast
  have len: "length (selected pl) = card (set (rp_expired pl) \<union> set (rp_evicted pl))"
    using distinct_card [OF selected_set(2)] by (simp add: selected_set)
  show "\<exists>s' res ev. sweep lib cfg [] p False s = Some (Inr (res, ev), s') \<and>
      holdings lib cfg s' = holdings lib cfg s |` (- (set (rp_expired pl) \<union> set (rp_evicted pl))) \<and>
      (\<exists>n. rp_evicted pl = map ce_record_id (take n (survivors (rp_expired pl) (ready_entries s)))) \<and>
      int (length (ready_entries s')) \<le> rr_max_records (pl_rules p) \<and>
      total_bytes (ready_entries s') \<le> rr_max_bytes (pl_rules p) \<and>
      (rr_max_bytes (pl_rules p) < total_bytes (ready_entries s) \<longrightarrow>
        total_bytes (ready_entries s') \<le> max (the (rr_low_watermark (pl_rules p))) 0) \<and>
      se_count ev = card (set (rp_expired pl) \<union> set (rp_evicted pl)) \<and>
      int (se_reclaimed ev) = total_bytes (ready_entries s) - total_bytes (ready_entries s')"
    by (intro exI conjI, rule s'(1), simp add: s'(2) selected_set, rule ev)
      (use limits(2,3) limits(4) [OF low] plan_result(4) [OF ok planned] low len in \<open>simp_all add: s'(3)\<close>)
  show "\<exists>r. sweep lib cfg busy p True s = Some (r, s)"
    by (cases "plan lib cfg p True s") (auto simp: sweep_def plan_eq [OF ok] split: sum.split)
qed

theorem sweep_enforces_limits_witness:
  "\<exists>s s' r. ready_entries (s :: store) \<noteq> [] \<and>
    sweep sample_blob_lib sample_storage [] (sample_planner 400) False s = Some (r, s') \<and> int (length (ready_entries s')) \<le> 10"
proof -
  obtain s :: store where s: "run (storage_step sample_blob_lib sample_storage) empty_store s"
    "ready_entries s \<noteq> []" "length (ready_entries s) = 1" using sample_reachable by blast
  have ok: "store_ok sample_blob_lib sample_storage s" by (rule reachable_store_ok [OF sample_blob_lib_ok s(1)])
  let ?p = "sample_planner 400"
  have "\<forall>e \<in> set (ready_entries s). in_window ?p e \<longrightarrow> \<not> isl (fields_of sample_blob_lib sample_storage ?p s e)"
    using ready_rows_holdings [OF ok] by (force simp: fields_of_def sample_planner_def split: option.split)
  moreover have "length (filter (in_window ?p) (ready_entries s)) \<le> pl_decrypt_budget ?p"
    using s(3) length_filter_le [of "in_window ?p" "ready_entries s"] by (simp add: sample_planner_def)
  ultimately obtain pl where "plan sample_blob_lib sample_storage ?p False s = Some (Inr pl, s)"
    using plan_budget [OF ok sample_rules_valid] by presburger
  from sweep_enforces_limits [OF sample_blob_lib_ok s(1) sample_rules_valid this, of "[]"] obtain s' res ev where
    "sweep sample_blob_lib sample_storage [] ?p False s = Some (Inr (res, ev), s')"
    "int (length (ready_entries s')) \<le> rr_max_records (pl_rules ?p)" by blast
  moreover have "rr_max_records (pl_rules ?p) = 10" by (simp add: sample_planner_def sample_rules_def)
  ultimately show ?thesis using s(2) by metis
qed

text \<open>
  The eviction counts the records that are about to expire as if they stayed: with a cap of one
  record, one expired and one fresh record, the fresh one is evicted too although the cap would be
  met without it.
\<close>

theorem eviction_counts_expired_records:
  assumes "ce_record_id a \<noteq> ce_record_id b" and "rr_max_records r = 1" and "rr_low_watermark r = Some low"
    and "total_bytes [a, b] \<le> rr_max_bytes r"
  shows "eviction_set r [a, b] [ce_record_id a] = Inr [ce_record_id b]"
  using assms by (simp add: eviction_set_def Let_def)
end
