(* ===== verification/Secret_Detector.thy ===== *)
theory Secret_Detector
  imports Policy_Engine
begin

text \<open>
  The deterministic secret detector (\<^verbatim>\<open>src/local_recall/redaction/detector.py\<close> and
  \<^verbatim>\<open>redaction/models.py\<close>): the built-in patterns, the direct, encoded and entropy scans, the allowlists
  and the removal of duplicates. Regular expressions are searched by a parameter, \<open>find_spans\<close>: given
  the source of an expression, the group and a text, the spans of the group in the successive matches.
  The library functions that decode HTML entities, percent escapes and base64, the SHA-256 digest and
  the binary logarithm are parameters too.
\<close>

section \<open>Patterns and matches\<close>

datatype redaction_kind =
    API_TOKEN | ACCESS_TOKEN | PASSWORD | USERNAME | PRIVATE_KEY | AUTHORIZATION_HEADER
  | CONNECTION_STRING | HIGH_ENTROPY_SECRET | EMAIL | CUSTOM_PATTERN | POLICY_REDACTION

record regex =
  rx_source :: string
  rx_dotall :: bool

record detector_lib =
  find_spans :: "regex \<Rightarrow> string \<Rightarrow> string \<Rightarrow> (int \<times> int) list"
  html_unescape :: "string \<Rightarrow> string"
  url_unquote :: "string \<Rightarrow> string"
  b64_text :: "string \<Rightarrow> string option"
  sha256_hex :: "string \<Rightarrow> string"
  log2 :: "rat \<Rightarrow> rat"

record secret_pattern =
  pt_detector_id :: string
  pt_kind :: redaction_kind
  pt_expression :: regex
  pt_group :: string
  pt_confidence :: rat

text \<open>A backslash of an expression is written as a backquote, which none of them contains.\<close>

definition re_text :: "string \<Rightarrow> regex" where
  "re_text s = \<lparr>rx_source = map (\<lambda>c. if c = CHR ''`'' then CHR 0x5C else c) s, rx_dotall = False\<rparr>"

definition whole :: "string \<Rightarrow> redaction_kind \<Rightarrow> string \<Rightarrow> secret_pattern" where
  "whole i k e = \<lparr>pt_detector_id = i, pt_kind = k, pt_expression = re_text e, pt_group = [], pt_confidence = 1\<rparr>"

definition secret_group :: "string \<Rightarrow> redaction_kind \<Rightarrow> string \<Rightarrow> secret_pattern" where
  "secret_group i k e = (whole i k e)\<lparr>pt_group := ''secret''\<rparr>"

definition BUILTINS :: "secret_pattern list" where
  "BUILTINS =
    [(whole ''private-key'' PRIVATE_KEY
        ''-----BEGIN(?: [A-Z0-9]+)? PRIVATE KEY-----.*?-----END(?: [A-Z0-9]+)? PRIVATE KEY-----'')
       \<lparr>pt_expression := (re_text
          ''-----BEGIN(?: [A-Z0-9]+)? PRIVATE KEY-----.*?-----END(?: [A-Z0-9]+)? PRIVATE KEY-----'')\<lparr>rx_dotall := True\<rparr>\<rparr>,
     secret_group ''authorization-header'' AUTHORIZATION_HEADER
       ''(?i)`bauthorization`s*:`s*(?P<secret>(?:bearer|basic|token)`s+[A-Za-z0-9._~+/=-]{8,})'',
     whole ''aws-access-key'' API_TOKEN ''`b(?:AKIA|ASIA)[A-Z0-9]{16}`b'',
     whole ''github-token'' ACCESS_TOKEN ''`b(?:gh[pousr]_[A-Za-z0-9]{20,255}|github_pat_[A-Za-z0-9_]{20,255})`b'',
     whole ''slack-token'' ACCESS_TOKEN ''`bxox[baprs]-[A-Za-z0-9-]{10,255}`b'',
     whole ''stripe-secret'' API_TOKEN ''`b(?:sk|rk)_live_[A-Za-z0-9]{16,255}`b'',
     whole ''google-api-key'' API_TOKEN ''`bAIza[0-9A-Za-z_-]{35}`b'',
     whole ''jwt'' ACCESS_TOKEN ''`beyJ[A-Za-z0-9_-]{8,}`.[A-Za-z0-9_-]{8,}`.[A-Za-z0-9_-]{8,}`b'',
     secret_group ''password-assignment'' PASSWORD
       ''(?i)`b(?:password|passwd|pwd)`b`s*[:=]`s*[\"']?(?P<secret>[^`s\"',;]{4,256})'',
     secret_group ''username-assignment'' USERNAME
       ''(?i)`b(?:username|user|login)`b`s*[:=]`s*[\"']?(?P<secret>[A-Za-z0-9_.@-]{2,128})'',
     secret_group ''generic-token-assignment'' ACCESS_TOKEN
       ''(?i)`b(?:access[_ -]?token|api[_ -]?key|secret[_ -]?key|client[_ -]?secret)`b`s*[:=]`s*[\"']?(?P<secret>[A-Za-z0-9._~+/=-]{8,512})'',
     whole ''credentialed-connection-string'' CONNECTION_STRING
       ''(?i)`b(?:postgres(?:ql)?|mysql|mariadb|mongodb(?:`+srv)?|redis|amqps?|mssql)://[^`s:/?#]+:[^`s@/?#]+@[^`s]+'',
     secret_group ''account-key-connection-string'' CONNECTION_STRING
       ''(?i)`bAccountKey=(?P<secret>[A-Za-z0-9+/=]{16,512})'',
     (whole ''email-address'' EMAIL ''(?<![A-Za-z0-9._%+-])[A-Za-z0-9._%+-]+@[A-Za-z0-9.-]+`.[A-Za-z]{2,63}'')
       \<lparr>pt_confidence := 99 / 100\<rparr>]"

definition SENSITIVE_METADATA_NAMES :: "(regex \<times> string \<times> redaction_kind) list" where
  "SENSITIVE_METADATA_NAMES =
    [(re_text ''(?i)(?:^|[._-])(?:password|passwd|pwd)(?:$|[._-])'', ''password-field'', PASSWORD),
     (re_text ''(?i)(?:^|[._-])(?:authorization|auth)(?:$|[._-])'', ''authorization-field'', AUTHORIZATION_HEADER),
     (re_text ''(?i)(?:^|[._-])(?:api.?key|access.?token|secret)(?:$|[._-])'', ''token-field'', ACCESS_TOKEN),
     (re_text ''(?i)(?:^|[._-])(?:username|user|login)(?:$|[._-])'', ''username-field'', USERNAME),
     (re_text ''(?i)(?:^|[._-])(?:email|mail)(?:$|[._-])'', ''email-field'', EMAIL),
     (re_text ''(?i)(?:^|[._-])(?:connection.?string|dsn)(?:$|[._-])'', ''connection-field'', CONNECTION_STRING)]"

definition PERCENT_CANDIDATE :: regex where
  "PERCENT_CANDIDATE = re_text ''[A-Za-z0-9_.~+-]*(?:%[0-9A-Fa-f]{2})[A-Za-z0-9_.~%+-]{7,}''"

definition BASE64_CANDIDATE :: regex where
  "BASE64_CANDIDATE = re_text ''(?<![A-Za-z0-9+/_-])[A-Za-z0-9+/_-]{16,}={0,2}(?![A-Za-z0-9+/_-])''"

record secret_match =
  sm_detector_id :: string
  sm_kind :: redaction_kind
  sm_start :: int
  sm_end :: int
  sm_confidence :: rat
  sm_text :: string

text \<open>\<^verbatim>\<open>[a-z][a-z0-9_.:-]{0,127}\<close>\<close>

definition detector_id_ok :: "string \<Rightarrow> bool" where
  "detector_id_ok s \<longleftrightarrow> lower_identifier {CHR '':''} s \<and> length s \<le> 128"

definition mk_SourceConfidence :: "rat \<Rightarrow> exn + rat" where
  "mk_SourceConfidence v = bindS (ensure (0 \<le> v \<and> v \<le> 1) (ValueError ''source confidence must be between 0 and 1'')) (\<lambda>_. Inr v)"

definition mk_SecretMatch :: "secret_match \<Rightarrow> exn + secret_match" where
  "mk_SecretMatch m =
    bindS (ensure (detector_id_ok (sm_detector_id m)) (ValueError ''detector identifier is invalid'')) (\<lambda>_.
    bindS (ensure (0 \<le> sm_start m \<and> sm_start m < sm_end m) (ValueError ''secret match span is invalid'')) (\<lambda>_.
    bindS (ensure (int (length (sm_text m)) = sm_end m - sm_start m)
      (ValueError ''secret match text does not match its span'')) (\<lambda>_. Inr m)))"

record allowlisted_match =
  am_detector_id :: string
  am_allowlist_id :: string
  am_start :: int
  am_end :: int
  am_digest :: string

record detection =
  dt_matches :: "secret_match list"
  dt_allowlisted :: "allowlisted_match list"

definition no_detection :: detection where
  "no_detection = \<lparr>dt_matches = [], dt_allowlisted = []\<rparr>"

section \<open>The detector\<close>

record detector =
  dd_entropy :: entropy_settings
  dd_patterns :: "secret_pattern list"
  dd_allowlists :: "string \<Rightarrow> (string \<times> string list) list"

definition compile_custom :: "custom_pattern list \<Rightarrow> secret_pattern list" where
  "compile_custom ps = map (\<lambda>p. \<lparr>pt_detector_id = ''custom:'' @ cp_id p, pt_kind = CUSTOM_PATTERN,
     pt_expression = \<lparr>rx_source = cp_pattern p, rx_dotall = False\<rparr>, pt_group = [], pt_confidence = 1\<rparr>) ps"

definition index_allowlists :: "redaction_allowlist list \<Rightarrow> string \<Rightarrow> (string \<times> string list) list" where
  "index_allowlists ls i = map (\<lambda>a. (al_id a, al_exact_values a)) (filter (\<lambda>a. al_pattern_id a = i) ls)"

definition mk_detector :: "entropy_settings \<Rightarrow> custom_pattern list \<Rightarrow> redaction_allowlist list \<Rightarrow> detector" where
  "mk_detector en ps ls =
    \<lparr>dd_entropy = en, dd_patterns = BUILTINS @ compile_custom ps, dd_allowlists = index_allowlists ls\<rparr>"

text \<open>\<^verbatim>\<open>text[start:end]\<close> for a span with \<open>0 \<le> start\<close>.\<close>

definition substring :: "string \<Rightarrow> int \<Rightarrow> int \<Rightarrow> string" where
  "substring s i j = take (nat (j - i)) (drop (nat i) s)"

definition allowlist_for :: "detector \<Rightarrow> string \<Rightarrow> string \<Rightarrow> string option" where
  "allowlist_for d i candidate =
    map_option fst (find (\<lambda>(_, values). candidate \<in> set values) (dd_allowlists d i))"

text \<open>The last argument carries the decoded text and the inner detector of an encoded candidate.\<close>

definition record_candidate ::
    "detector_lib \<Rightarrow> detector \<Rightarrow> string \<Rightarrow> redaction_kind \<Rightarrow> int \<Rightarrow> int \<Rightarrow> string \<Rightarrow> rat \<Rightarrow>
     (string \<times> string) option \<Rightarrow> detection \<Rightarrow> exn + detection" where
  "record_candidate lib d i kind start end candidate confidence inner st =
    (case (case allowlist_for d i candidate of
             Some a \<Rightarrow> Some a
           | None \<Rightarrow> (case inner of None \<Rightarrow> None | Some (decoded, inner_id) \<Rightarrow> allowlist_for d inner_id decoded)) of
       Some a \<Rightarrow> Inr (st\<lparr>dt_allowlisted := dt_allowlisted st @
         [\<lparr>am_detector_id = i, am_allowlist_id = a, am_start = start, am_end = end,
           am_digest = sha256_hex lib candidate\<rparr>]\<rparr>)
     | None \<Rightarrow>
         bindS (mk_SourceConfidence confidence) (\<lambda>c.
         bindS (mk_SecretMatch \<lparr>sm_detector_id = i, sm_kind = kind, sm_start = start, sm_end = end,
           sm_confidence = c, sm_text = candidate\<rparr>) (\<lambda>m.
         Inr (st\<lparr>dt_matches := dt_matches st @ [m]\<rparr>))))"

primrec foldS :: "('a \<Rightarrow> 'b \<Rightarrow> exn + 'b) \<Rightarrow> 'a list \<Rightarrow> 'b \<Rightarrow> exn + 'b" where
  "foldS f [] st = Inr st"
| "foldS f (x # xs) st = bindS (f x st) (foldS f xs)"

definition views :: "detector_lib \<Rightarrow> string \<Rightarrow> string list" where
  "views lib s = (let decoded = html_unescape lib s in
     if decoded \<noteq> s \<and> length decoded = length s then [s, decoded] else [s])"

definition scan_pattern :: "detector_lib \<Rightarrow> detector \<Rightarrow> string \<Rightarrow> secret_pattern \<Rightarrow> detection \<Rightarrow> exn + detection" where
  "scan_pattern lib d view p = foldS (\<lambda>(start, end).
     record_candidate lib d (pt_detector_id p) (pt_kind p) start end (substring view start end) (pt_confidence p) None)
     (find_spans lib (pt_expression p) (pt_group p) view)"

definition scan_direct :: "detector_lib \<Rightarrow> detector \<Rightarrow> string \<Rightarrow> detection \<Rightarrow> exn + detection" where
  "scan_direct lib d s = foldS (\<lambda>view. foldS (scan_pattern lib d view) (dd_patterns d)) (views lib s)"

definition record_encoded_matches ::
    "detector_lib \<Rightarrow> detector \<Rightarrow> string \<Rightarrow> string \<Rightarrow> int \<Rightarrow> int \<Rightarrow> detection \<Rightarrow> exn + detection" where
  "record_encoded_matches lib d raw decoded start end st =
    bindS (scan_direct lib d decoded no_detection) (\<lambda>inner.
    foldS (\<lambda>m. record_candidate lib d (''encoded:'' @ sm_detector_id m) (sm_kind m) start end raw
       (min (sm_confidence m) (98 / 100))
       (Some (substring decoded (sm_start m) (sm_end m), sm_detector_id m))) (dt_matches inner) st)"

definition decode_base64 :: "detector_lib \<Rightarrow> string \<Rightarrow> string option" where
  "decode_base64 lib candidate = b64_text lib (candidate @ replicate ((4 - length candidate mod 4) mod 4) (CHR ''=''))"

definition scan_encoded :: "detector_lib \<Rightarrow> detector \<Rightarrow> string \<Rightarrow> detection \<Rightarrow> exn + detection" where
  "scan_encoded lib d s st =
    bindS (foldS (\<lambda>(start, end). let raw = substring s start end in
        record_encoded_matches lib d raw (url_unquote lib raw) start end) (find_spans lib PERCENT_CANDIDATE [] s) st) (\<lambda>st.
    foldS (\<lambda>(start, end) st. let raw = substring s start end in
        case decode_base64 lib raw of
          None \<Rightarrow> Inr st
        | Some decoded \<Rightarrow> record_encoded_matches lib d raw decoded start end st) (find_spans lib BASE64_CANDIDATE [] s) st)"

definition is_hex :: "string \<Rightarrow> bool" where
  "is_hex s \<longleftrightarrow> s \<noteq> [] \<and> list_all (\<lambda>c. is_digit c \<or> 65 \<le> char_code c \<and> char_code c \<le> 70 \<or>
     97 \<le> char_code c \<and> char_code c \<le> 102) s"

definition looks_secret_like :: "string \<Rightarrow> bool" where
  "looks_secret_like s \<longleftrightarrow> \<not> length (remdups s) < 5 \<and>
    (is_hex s \<or> 3 \<le> length (filter id
       [list_ex is_lower s, list_ex is_upper s, list_ex is_digit s, list_ex (\<lambda>c. c \<in> set ''+/_=-'') s]))"

definition shannon_entropy :: "detector_lib \<Rightarrow> string \<Rightarrow> rat" where
  "shannon_entropy lib s = (if s = [] then 0
     else - sum_list (map (\<lambda>c. let q = of_nat (count_list s c) / of_nat (length s) in q * log2 lib q) (remdups s)))"

definition entropy_expression :: "entropy_settings \<Rightarrow> regex" where
  "entropy_expression en = re_text (''(?<![A-Za-z0-9+/_=-])[A-Za-z0-9+/_=-]{'' @ int_string (en_min_length en) @ '','' @
     int_string (en_max_token_length en) @ ''}(?![A-Za-z0-9+/_=-])'')"

definition entropy_confidence :: "rat \<Rightarrow> rat \<Rightarrow> rat" where
  "entropy_confidence e t = min (99 / 100) (65 / 100 + max 0 (e - t) / 4)"

definition scan_token ::
    "detector_lib \<Rightarrow> detector \<Rightarrow> (int \<times> int) list \<Rightarrow> string \<Rightarrow> int \<times> int \<Rightarrow> detection \<Rightarrow> exn + detection" where
  "scan_token lib d occupied s sp st = (case sp of (start, end) \<Rightarrow>
    let candidate = substring s start end; en = dd_entropy d in
    if list_ex (\<lambda>(a, b). start < b \<and> a < end) occupied then Inr st
    else if \<not> looks_secret_like candidate then Inr st
    else if is_hex candidate \<and> int (length candidate) < en_hex_min_length en then Inr st
    else
      let entropy = shannon_entropy lib candidate;
          threshold = (if is_hex candidate then min (en_min_bits en) 3 else en_min_bits en) in
      if entropy < threshold then Inr st
      else record_candidate lib d ''high-entropy'' HIGH_ENTROPY_SECRET start end candidate
             (entropy_confidence entropy threshold) None st)"

definition scan_entropy :: "detector_lib \<Rightarrow> detector \<Rightarrow> string \<Rightarrow> detection \<Rightarrow> exn + detection" where
  "scan_entropy lib d s st =
    foldS (scan_token lib d (map (\<lambda>m. (sm_start m, sm_end m)) (dt_matches st)) s)
      (find_spans lib (entropy_expression (dd_entropy d)) [] s) st"

text \<open>The first item with each key.\<close>

primrec dedup_on :: "('a \<Rightarrow> 'k) \<Rightarrow> 'k list \<Rightarrow> 'a list \<Rightarrow> 'a list" where
  "dedup_on key seen [] = []"
| "dedup_on key seen (x # xs) =
    (if key x \<in> set seen then dedup_on key seen xs else x # dedup_on key (key x # seen) xs)"

definition deduplicate :: "secret_match list \<Rightarrow> secret_match list" where
  "deduplicate ms = dedup_on (\<lambda>m. (sm_start m, sm_end m, sm_kind m)) []
     (sort_key (\<lambda>m. (sm_start m, - (sm_end m - sm_start m), sm_detector_id m)) ms)"

definition deduplicate_allowlisted :: "allowlisted_match list \<Rightarrow> allowlisted_match list" where
  "deduplicate_allowlisted ms = dedup_on (\<lambda>m. (am_detector_id m, am_allowlist_id m, am_start m, am_end m)) []
     (sort_key (\<lambda>m. (am_start m, am_end m, am_detector_id m)) ms)"

definition detector_scan :: "detector_lib \<Rightarrow> detector \<Rightarrow> string \<Rightarrow> exn + detection" where
  "detector_scan lib d s = (if s = [] then Inr no_detection else
    bindS (scan_direct lib d s no_detection) (\<lambda>st.
    bindS (scan_encoded lib d s st) (\<lambda>st.
    bindS (if en_enabled (dd_entropy d) then scan_entropy lib d s st else Inr st) (\<lambda>st.
    Inr \<lparr>dt_matches = deduplicate (dt_matches st), dt_allowlisted = deduplicate_allowlisted (dt_allowlisted st)\<rparr>))))"

definition sensitive_metadata_name :: "detector_lib \<Rightarrow> string \<Rightarrow> (string \<times> redaction_kind) option" where
  "sensitive_metadata_name lib name =
    map_option snd (find (\<lambda>(e, _). find_spans lib e [] name \<noteq> []) SENSITIVE_METADATA_NAMES)"

section \<open>Folds that may raise\<close>

lemma foldS_inv:
  "foldS f xs st = Inr st' \<Longrightarrow> P st \<Longrightarrow> (\<And>x s s'. x \<in> set xs \<Longrightarrow> P s \<Longrightarrow> f x s = Inr s' \<Longrightarrow> P s') \<Longrightarrow> P st'"
  by (induction xs arbitrary: st) (auto simp: bindS_Inr)

lemma foldS_total:
  "P st \<Longrightarrow> (\<And>x s. x \<in> set xs \<Longrightarrow> P s \<Longrightarrow> \<exists>s'. f x s = Inr s' \<and> P s') \<Longrightarrow> \<exists>st'. foldS f xs st = Inr st' \<and> P st'"
proof (induction xs arbitrary: st)
  case (Cons x xs)
  obtain s' where "f x st = Inr s'" "P s'" using Cons.prems by (meson list.set_intros(1))
  then show ?case using Cons.IH [of s'] Cons.prems(2) by simp
qed simp

lemma foldS_reaches:
  assumes "foldS f xs st = Inr st'" and "x \<in> set xs"
    and "\<And>x s s'. x \<in> set xs \<Longrightarrow> f x s = Inr s' \<Longrightarrow> P s \<Longrightarrow> P s'"
    and "\<And>s s'. f x s = Inr s' \<Longrightarrow> P s'"
  shows "P st'"
  using assms
proof (induction xs arbitrary: st)
  case (Cons y ys)
  obtain s where s: "f y st = Inr s" "foldS f ys s = Inr st'" using Cons.prems(1) by (auto simp: bindS_Inr)
  show ?case
  proof (cases "x \<in> set ys")
    case True
    show ?thesis using Cons.IH [OF s(2) True] Cons.prems(3,4) by (meson list.set_intros(2))
  next
    case False
    then have "P s" using Cons.prems(2,4) s(1) by simp
    then show ?thesis using foldS_inv [OF s(2), of P] Cons.prems(3) by (meson list.set_intros(2))
  qed
qed simp

section \<open>What the scans find\<close>

definition reports :: "detection \<Rightarrow> int \<Rightarrow> int \<Rightarrow> redaction_kind \<Rightarrow> bool" where
  "reports st a b k \<longleftrightarrow> (\<exists>m \<in> set (dt_matches st). sm_start m = a \<and> sm_end m = b \<and> sm_kind m = k)"

definition match_ok :: "nat \<Rightarrow> secret_match \<Rightarrow> bool" where
  "match_ok n m \<longleftrightarrow> 0 \<le> sm_start m \<and> sm_start m < sm_end m \<and> sm_end m \<le> int n \<and> detector_id_ok (sm_detector_id m) \<and>
    0 \<le> sm_confidence m \<and> sm_confidence m \<le> 1 \<and> int (length (sm_text m)) = sm_end m - sm_start m"

definition candidate_allowed :: "detector \<Rightarrow> string \<Rightarrow> string \<Rightarrow> (string \<times> string) option \<Rightarrow> bool" where
  "candidate_allowed d i c inner \<longleftrightarrow> allowlist_for d i c \<noteq> None \<or>
    (case inner of None \<Rightarrow> False | Some (t, j) \<Rightarrow> allowlist_for d j t \<noteq> None)"

lemma record_candidate_cases:
  assumes "record_candidate lib d i k a b c q inner st = Inr st'"
  shows "if candidate_allowed d i c inner then dt_matches st' = dt_matches st
    else dt_matches st' = dt_matches st @ [\<lparr>sm_detector_id = i, sm_kind = k, sm_start = a, sm_end = b, sm_confidence = q, sm_text = c\<rparr>] \<and>
      0 \<le> a \<and> a < b \<and> detector_id_ok i \<and> 0 \<le> q \<and> q \<le> 1 \<and> int (length c) = b - a"
  using assms
  by (auto simp: record_candidate_def bindS_Inr ensure_Inr mk_SourceConfidence_def mk_SecretMatch_def
      candidate_allowed_def split: option.splits prod.splits)

lemma record_candidate_total:
  assumes "0 \<le> a" "a < b" "detector_id_ok i" "0 \<le> q" "q \<le> 1" "int (length c) = b - a"
  shows "\<exists>st'. record_candidate lib d i k a b c q inner st = Inr st'"
  using assms by (auto simp: record_candidate_def mk_SourceConfidence_def mk_SecretMatch_def split: option.splits)

lemma record_reports_mono: "record_candidate lib d i k a b c q inner st = Inr st' \<Longrightarrow> reports st x y z \<Longrightarrow> reports st' x y z"
  by (drule record_candidate_cases) (auto simp: reports_def split: if_splits)

lemma record_reports: 
  "record_candidate lib d i k a b c q inner st = Inr st' \<Longrightarrow> \<not> candidate_allowed d i c inner \<Longrightarrow> reports st' a b k"
  by (drule record_candidate_cases) (auto simp: reports_def split: if_splits)

lemma record_match_ok:
  "record_candidate lib d i k a b c q inner st = Inr st' \<Longrightarrow> b \<le> int n \<Longrightarrow> list_all (match_ok n) (dt_matches st) \<Longrightarrow>
    list_all (match_ok n) (dt_matches st')"
  by (drule record_candidate_cases) (auto simp: match_ok_def split: if_splits)

text \<open>What the code relies on in the searches: spans lie within the text, and those of the built-in expressions are not empty.\<close>

definition spans_within :: "detector_lib \<Rightarrow> bool" where
  "spans_within lib \<longleftrightarrow> (\<forall>e g s a b. (a, b) \<in> set (find_spans lib e g s) \<longrightarrow> 0 \<le> a \<and> a \<le> b \<and> b \<le> int (length s))"

definition never_empty :: "detector_lib \<Rightarrow> regex \<Rightarrow> string \<Rightarrow> bool" where
  "never_empty lib e g \<longleftrightarrow> (\<forall>s a b. (a, b) \<in> set (find_spans lib e g s) \<longrightarrow> a < b)"

definition detector_lib_ok :: "detector_lib \<Rightarrow> bool" where
  "detector_lib_ok lib \<longleftrightarrow> spans_within lib \<and> (\<forall>p \<in> set BUILTINS. never_empty lib (pt_expression p) (pt_group p)) \<and>
    never_empty lib PERCENT_CANDIDATE [] \<and> never_empty lib BASE64_CANDIDATE [] \<and>
    (\<forall>en. 0 < en_min_length en \<longrightarrow> never_empty lib (entropy_expression en) [])"

lemma spans_withinD: "spans_within lib \<Longrightarrow> (a, b) \<in> set (find_spans lib e g s) \<Longrightarrow> 0 \<le> a \<and> a \<le> b \<and> b \<le> int (length s)"
  by (auto simp: spans_within_def)

lemma span_end: "spans_within lib \<Longrightarrow> (a, b) \<in> set (find_spans lib e g s) \<Longrightarrow> b \<le> int (length s)"
  by (auto dest: spans_withinD)

lemma never_emptyD: "never_empty lib e g \<Longrightarrow> (a, b) \<in> set (find_spans lib e g s) \<Longrightarrow> a < b"
  by (auto simp: never_empty_def)

lemma views_length: "v \<in> set (views lib s) \<Longrightarrow> length v = length s"
  by (auto simp: views_def Let_def split: if_splits)

lemma length_substring: "0 \<le> a \<Longrightarrow> a \<le> b \<Longrightarrow> b \<le> int (length s) \<Longrightarrow> int (length (substring s a b)) = b - a"
  by (simp add: substring_def)

text \<open>A property of the detection so far that recording a candidate within the text keeps is kept by every scan.\<close>

definition scan_id :: "detector \<Rightarrow> string \<Rightarrow> bool" where
  "scan_id d i \<longleftrightarrow> (\<exists>p \<in> set (dd_patterns d). i = pt_detector_id p) \<or> (\<exists>j. i = ''encoded:'' @ j) \<or> i = ''high-entropy''"

lemma scan_idI: "p \<in> set (dd_patterns d) \<Longrightarrow> scan_id d (pt_detector_id p)" "scan_id d (''encoded:'' @ j)" "scan_id d ''high-entropy''"
  unfolding scan_id_def by blast+

definition kept_by_recording :: "detector_lib \<Rightarrow> detector \<Rightarrow> nat \<Rightarrow> (detection \<Rightarrow> bool) \<Rightarrow> bool" where
  "kept_by_recording lib d n P \<longleftrightarrow> (\<forall>i k a b c q inner st st'. scan_id d i \<longrightarrow> record_candidate lib d i k a b c q inner st = Inr st' \<longrightarrow>
    b \<le> int n \<longrightarrow> P st \<longrightarrow> P st')"

lemma kept_by_recordingD:
  "kept_by_recording lib d n P \<Longrightarrow> record_candidate lib d i k a b c q inner st = Inr st' \<Longrightarrow> b \<le> int n \<Longrightarrow> scan_id d i \<Longrightarrow> P st \<Longrightarrow> P st'"
  by (auto simp: kept_by_recording_def)

lemma kept_reports: "kept_by_recording lib d n (\<lambda>st. reports st x y z)"
  by (auto simp: kept_by_recording_def intro: record_reports_mono)

lemma kept_match_ok: "kept_by_recording lib d n (\<lambda>st. list_all (match_ok n) (dt_matches st))"
  by (auto simp: kept_by_recording_def intro: record_match_ok)

lemma scan_pattern_keeps:
  assumes "spans_within lib" and "kept_by_recording lib d (length view) P" and "scan_pattern lib d view p st = Inr st'" and "P st"
    and "p \<in> set (dd_patterns d)"
  shows "P st'"
  using assms(3,4) unfolding scan_pattern_def
  by (rule foldS_inv) (auto dest: spans_withinD [OF assms(1)] intro: kept_by_recordingD [OF assms(2) _ _ scan_idI(1) [OF assms(5)]] split: prod.splits)

lemma scan_direct_keeps:
  assumes "spans_within lib" and "kept_by_recording lib d (length s) P" and "scan_direct lib d s st = Inr st'" and "P st"
  shows "P st'"
  using assms(3,4) unfolding scan_direct_def
proof (rule foldS_inv)
  fix v t t' assume v: "v \<in> set (views lib s)" and "P t" and "foldS (scan_pattern lib d v) (dd_patterns d) t = Inr t'"
  then show "P t'"
    using scan_pattern_keeps [OF assms(1), of d v P] assms(2) views_length [OF v] by (auto elim!: foldS_inv)
qed

lemma record_encoded_keeps:
  assumes "kept_by_recording lib d n P" and "b \<le> int n" and "record_encoded_matches lib d raw t a b st = Inr st'" and "P st"
  shows "P st'"
proof -
  obtain inner :: detection where "foldS (\<lambda>m. record_candidate lib d (''encoded:'' @ sm_detector_id m) (sm_kind m) a b raw
       (min (sm_confidence m) (98 / 100)) (Some (substring t (sm_start m) (sm_end m), sm_detector_id m)))
       (dt_matches inner) st = Inr st'"
    using assms(3) unfolding record_encoded_matches_def bindS_Inr by blast
  then show ?thesis using assms(4) by (rule foldS_inv) (rule kept_by_recordingD [OF assms(1) _ assms(2) scan_idI(2)])
qed

lemma scan_encoded_keeps:
  assumes "spans_within lib" and "kept_by_recording lib d (length s) P" and "scan_encoded lib d s st = Inr st'" and "P st"
  shows "P st'"
proof -
  let ?f = "\<lambda>(a, b). let raw = substring s a b in record_encoded_matches lib d raw (url_unquote lib raw) a b"
  let ?g = "\<lambda>(a, b) st. let raw = substring s a b in case decode_base64 lib raw of
      None \<Rightarrow> Inr st | Some t \<Rightarrow> record_encoded_matches lib d raw t a b st"
  obtain t where t: "foldS ?f (find_spans lib PERCENT_CANDIDATE [] s) st = Inr t"
    "foldS ?g (find_spans lib BASE64_CANDIDATE [] s) t = Inr st'"
    using assms(3) unfolding scan_encoded_def bindS_Inr by blast
  from t(1) assms(4) have "P t"
    by (rule foldS_inv) (auto simp: Let_def intro: record_encoded_keeps [OF assms(2) span_end [OF assms(1)]])
  with t(2) show ?thesis
    by (rule foldS_inv) (auto simp: Let_def split: option.splits
        intro: record_encoded_keeps [OF assms(2) span_end [OF assms(1)]])
qed

lemma scan_entropy_keeps:
  assumes "spans_within lib" and "kept_by_recording lib d (length s) P" and "scan_entropy lib d s st = Inr st'" and "P st"
  shows "P st'"
  using assms(3,4) unfolding scan_entropy_def
  by (rule foldS_inv) (auto simp: scan_token_def Let_def split: if_splits
      intro: kept_by_recordingD [OF assms(2) _ span_end [OF assms(1)] scan_idI(3)])

section \<open>Removing duplicates\<close>

lemma dedup_on_subset: "set (dedup_on key seen xs) \<subseteq> set xs"
  by (induction xs arbitrary: seen) auto

lemma dedup_on_keys: "key ` set (dedup_on key seen xs) = key ` set xs - set seen"
  by (induction xs arbitrary: seen) auto

lemma deduplicate_subset: "set (deduplicate ms) \<subseteq> set ms"
  using dedup_on_subset unfolding deduplicate_def by fastforce

lemma deduplicate_reports: "reports \<lparr>dt_matches = deduplicate ms, dt_allowlisted = al\<rparr> a b k \<longleftrightarrow> reports \<lparr>dt_matches = ms, dt_allowlisted = al'\<rparr> a b k"
proof -
  let ?key = "\<lambda>m. (sm_start m, sm_end m, sm_kind m)"
  have "reports \<lparr>dt_matches = xs, dt_allowlisted = y\<rparr> a b k \<longleftrightarrow> (a, b, k) \<in> ?key ` set xs" for xs y
    by (force simp: reports_def)
  then show ?thesis by (simp add: deduplicate_def dedup_on_keys)
qed

section \<open>Totality\<close>

definition detector_ok :: "detector_lib \<Rightarrow> detector \<Rightarrow> bool" where
  "detector_ok lib d \<longleftrightarrow> 0 < en_min_length (dd_entropy d) \<and>
    (\<forall>p \<in> set (dd_patterns d). never_empty lib (pt_expression p) (pt_group p) \<and> detector_id_ok (pt_detector_id p) \<and>
      length (pt_detector_id p) \<le> 120 \<and> 0 \<le> pt_confidence p \<and> pt_confidence p \<le> 1)"

text \<open>What the direct scan records: identifiers that leave room for the prefix of the encoded scan.\<close>

definition short_ids :: "detection \<Rightarrow> bool" where
  "short_ids st \<longleftrightarrow> list_all (\<lambda>m. detector_id_ok (sm_detector_id m) \<and> length (sm_detector_id m) \<le> 120 \<and>
    0 \<le> sm_confidence m) (dt_matches st)"

lemma encoded_id_ok: "detector_id_ok i \<Longrightarrow> length i \<le> 120 \<Longrightarrow> detector_id_ok (''encoded:'' @ i)"
  by (cases i) (auto simp: detector_id_ok_def lower_identifier_def char_eval)

lemma short_ids_no_detection [simp]: "short_ids no_detection"
  by (simp add: short_ids_def no_detection_def)

lemma scan_pattern_total:
  assumes "spans_within lib" and "detector_ok lib d" and "p \<in> set (dd_patterns d)" and "short_ids st"
  shows "\<exists>st'. scan_pattern lib d view p st = Inr st' \<and> short_ids st'"
  unfolding scan_pattern_def
proof (rule foldS_total, rule assms(4))
  fix x t assume x: "x \<in> set (find_spans lib (pt_expression p) (pt_group p) view)" and t: "short_ids t"
  obtain a b where [simp]: "x = (a, b)" by (cases x)
  have ok: "never_empty lib (pt_expression p) (pt_group p)" "detector_id_ok (pt_detector_id p)"
    "length (pt_detector_id p) \<le> 120" "0 \<le> pt_confidence p" "pt_confidence p \<le> 1"
    using assms(2,3) by (auto simp: detector_ok_def)
  have ab: "0 \<le> a" "a < b" "b \<le> int (length view)"
    using x spans_withinD [OF assms(1), of a b] never_emptyD [OF ok(1), of a b] by auto
  then obtain t' where t': "record_candidate lib d (pt_detector_id p) (pt_kind p) a b (substring view a b) (pt_confidence p) None t = Inr t'"
    using record_candidate_total [of a b "pt_detector_id p" "pt_confidence p" "substring view a b" lib d "pt_kind p" None t]
      ok length_substring [of a b view] by auto
  moreover have "short_ids t'"
    using record_candidate_cases [OF t'] t ok by (auto simp: short_ids_def split: if_splits)
  ultimately show "\<exists>t'. (case x of (a, b) \<Rightarrow> record_candidate lib d (pt_detector_id p) (pt_kind p) a b (substring view a b)
      (pt_confidence p) None) t = Inr t' \<and> short_ids t'" by simp
qed

lemma scan_direct_total:
  assumes "spans_within lib" and "detector_ok lib d" and "short_ids st"
  shows "\<exists>st'. scan_direct lib d s st = Inr st' \<and> short_ids st'"
  unfolding scan_direct_def
  by (intro foldS_total assms(3) scan_pattern_total [OF assms(1,2)])

lemma record_encoded_total:
  assumes "spans_within lib" and "detector_ok lib d" and "0 \<le> a" "a < b" "int (length raw) = b - a"
  shows "\<exists>st'. record_encoded_matches lib d raw t a b st = Inr st'"
proof -
  obtain inner :: detection where inner: "scan_direct lib d t no_detection = Inr inner" "short_ids inner"
    using scan_direct_total [OF assms(1,2), of no_detection] by auto
  have "\<exists>st'. foldS (\<lambda>m. record_candidate lib d (''encoded:'' @ sm_detector_id m) (sm_kind m) a b raw
       (min (sm_confidence m) (98 / 100)) (Some (substring t (sm_start m) (sm_end m), sm_detector_id m)))
       (dt_matches inner) st = Inr st' \<and> True"
  proof (rule foldS_total)
    fix m :: secret_match and u assume "m \<in> set (dt_matches inner)"
    then have "detector_id_ok (''encoded:'' @ sm_detector_id m)" "0 \<le> sm_confidence m"
      using inner(2) by (auto simp: short_ids_def list_all_iff intro: encoded_id_ok [unfolded append_Cons append_Nil])
    then show "\<exists>u'. record_candidate lib d (''encoded:'' @ sm_detector_id m) (sm_kind m) a b raw
       (min (sm_confidence m) (98 / 100)) (Some (substring t (sm_start m) (sm_end m), sm_detector_id m)) u = Inr u' \<and> True"
      using record_candidate_total [OF assms(3,4), of "''encoded:'' @ sm_detector_id m" "min (sm_confidence m) (98 / 100)" raw] assms(5)
      by (auto simp: min_le_iff_disj)
  qed simp
  then show ?thesis using inner(1) unfolding record_encoded_matches_def by simp
qed

lemma scan_encoded_total:
  assumes "spans_within lib" and "never_empty lib PERCENT_CANDIDATE []" "never_empty lib BASE64_CANDIDATE []" and "detector_ok lib d"
  shows "\<exists>st'. scan_encoded lib d s st = Inr st'"
proof -
  let ?f = "\<lambda>(a, b). let raw = substring s a b in record_encoded_matches lib d raw (url_unquote lib raw) a b"
  let ?g = "\<lambda>(a, b) st. let raw = substring s a b in case decode_base64 lib raw of
      None \<Rightarrow> Inr st | Some t \<Rightarrow> record_encoded_matches lib d raw t a b st"
  have enc: "\<exists>u'. record_encoded_matches lib d (substring s a b) t a b u = Inr u'"
    if "(a, b) \<in> set (find_spans lib e [] s)" "never_empty lib e []" for a b e t u
    using spans_withinD [OF assms(1) that(1)] never_emptyD [OF that(2,1)] length_substring [of a b s]
    by (intro record_encoded_total [OF assms(1,4)]) auto
  have "\<exists>t. foldS ?f (find_spans lib PERCENT_CANDIDATE [] s) st = Inr t \<and> True"
    by (rule foldS_total) (auto simp: Let_def intro: enc [OF _ assms(2)])
  then obtain t where t: "foldS ?f (find_spans lib PERCENT_CANDIDATE [] s) st = Inr t" by blast
  have "\<exists>u. foldS ?g (find_spans lib BASE64_CANDIDATE [] s) t = Inr u \<and> True"
    by (rule foldS_total) (auto simp: Let_def split: option.splits intro: enc [OF _ assms(3)])
  then show ?thesis using t by (auto simp: scan_encoded_def)
qed

lemma entropy_confidence_bounds: "0 \<le> entropy_confidence e t" "entropy_confidence e t \<le> 1"
  by (simp_all add: entropy_confidence_def min_def max_def)

lemma high_entropy_id: "detector_id_ok ''high-entropy''"
  by (simp add: detector_id_ok_def lower_identifier_def char_eval)

lemma scan_entropy_total:
  assumes "spans_within lib" and "never_empty lib (entropy_expression (dd_entropy d)) []"
  shows "\<exists>st'. scan_entropy lib d s st = Inr st'"
proof -
  let ?o = "map (\<lambda>m. (sm_start m, sm_end m)) (dt_matches st)"
  have "\<exists>u'. scan_token lib d ?o s x u = Inr u' \<and> True"
    if x: "x \<in> set (find_spans lib (entropy_expression (dd_entropy d)) [] s)" for x u
  proof -
    obtain a b where [simp]: "x = (a, b)" by (cases x)
    have ab: "0 \<le> a" "a < b" "b \<le> int (length s)"
      using x spans_withinD [OF assms(1), of a b] never_emptyD [OF assms(2), of a b] by auto
    have "\<exists>u'. record_candidate lib d ''high-entropy'' HIGH_ENTROPY_SECRET a b (substring s a b) (entropy_confidence y z) None u = Inr u'" for y z
      using ab length_substring [of a b s] by (intro record_candidate_total) (simp_all add: entropy_confidence_bounds high_entropy_id)
    then show ?thesis by (simp add: scan_token_def Let_def)
  qed
  then have "\<exists>v. foldS (scan_token lib d ?o s) (find_spans lib (entropy_expression (dd_entropy d)) [] s) st = Inr v \<and> True"
    by (intro foldS_total) auto
  then show ?thesis by (simp add: scan_entropy_def)
qed

lemma detector_scan_total:
  assumes "detector_lib_ok lib" and "detector_ok lib d"
  shows "\<exists>r. detector_scan lib d s = Inr r"
proof -
  have lib: "spans_within lib" "never_empty lib PERCENT_CANDIDATE []" "never_empty lib BASE64_CANDIDATE []"
    "never_empty lib (entropy_expression (dd_entropy d)) []"
    using assms by (auto simp: detector_lib_ok_def detector_ok_def)
  obtain t where t: "scan_direct lib d s no_detection = Inr t" using scan_direct_total [OF lib(1) assms(2), of no_detection] by auto
  obtain u where u: "scan_encoded lib d s t = Inr u" using scan_encoded_total [OF lib(1-3) assms(2)] by blast
  obtain v where v: "scan_entropy lib d s u = Inr v" using scan_entropy_total [OF lib(1,4)] by blast
  show ?thesis using t u v by (simp add: detector_scan_def)
qed

section \<open>Soundness and completeness of a scan\<close>

lemma detector_scan_phases:
  assumes "detector_scan lib d s = Inr r" and "s \<noteq> []"
  obtains t u v where "scan_direct lib d s no_detection = Inr t" "scan_encoded lib d s t = Inr u"
    "v = u \<or> scan_entropy lib d s u = Inr v" "dt_matches r = deduplicate (dt_matches v)"
  using assms by (force simp: detector_scan_def bindS_Inr split: if_splits)

lemma detector_scan_bounds:
  assumes "spans_within lib" and "detector_scan lib d s = Inr r"
  shows "list_all (match_ok (length s)) (dt_matches r)"
proof (cases "s = []")
  case True
  then show ?thesis using assms(2) by (auto simp: detector_scan_def no_detection_def)
next
  case False
  obtain t u v where p: "scan_direct lib d s no_detection = Inr t" "scan_encoded lib d s t = Inr u"
    "v = u \<or> scan_entropy lib d s u = Inr v" "dt_matches r = deduplicate (dt_matches v)"
    by (rule detector_scan_phases [OF assms(2) False])
  have "list_all (match_ok (length s)) (dt_matches t)"
    by (rule scan_direct_keeps [OF assms(1) kept_match_ok p(1)]) (simp add: no_detection_def)
  then have "list_all (match_ok (length s)) (dt_matches u)"
    by (rule scan_encoded_keeps [OF assms(1) kept_match_ok p(2)])
  then have "list_all (match_ok (length s)) (dt_matches v)"
    using p(3) scan_entropy_keeps [OF assms(1) kept_match_ok] by blast
  then show ?thesis using deduplicate_subset [of "dt_matches v"] p(4) by (auto simp: list_all_iff)
qed

lemma direct_reports:
  assumes "spans_within lib" and "scan_direct lib d s st = Inr st'" and "v \<in> set (views lib s)" and "p \<in> set (dd_patterns d)"
    and "(a, b) \<in> set (find_spans lib (pt_expression p) (pt_group p) v)"
    and "allowlist_for d (pt_detector_id p) (substring v a b) = None"
  shows "reports st' a b (pt_kind p)"
  using assms(2) unfolding scan_direct_def
proof (rule foldS_reaches [where x = v])
  have pat: "reports t' a b (pt_kind p)" if "scan_pattern lib d v p t = Inr t'" for t t'
    using that unfolding scan_pattern_def
    by (rule foldS_reaches [OF _ assms(5)])
      (use assms(6) in \<open>auto intro: record_reports_mono record_reports simp: candidate_allowed_def split: prod.splits\<close>)
  show "reports t' a b (pt_kind p)" if "foldS (scan_pattern lib d v) (dd_patterns d) t = Inr t'" for t t'
    using that by (rule foldS_reaches [OF _ assms(4)]) (use pat scan_pattern_keeps [OF assms(1) kept_reports] in blast)+
  show "reports t' a b (pt_kind p)" if "foldS (scan_pattern lib d x) (dd_patterns d) t = Inr t'" "reports t a b (pt_kind p)" for x t t'
    using that by (rule foldS_inv) (erule (2) scan_pattern_keeps [OF assms(1) kept_reports, rotated 2])
qed (rule assms(3))

text \<open>The encoded candidates of a text: the span, the raw text and its decoding.\<close>

definition encoded_candidates :: "detector_lib \<Rightarrow> string \<Rightarrow> (int \<times> int \<times> string) set" where
  "encoded_candidates lib s =
    {(a, b, url_unquote lib (substring s a b)) |a b. (a, b) \<in> set (find_spans lib PERCENT_CANDIDATE [] s)} \<union>
    {(a, b, t) |a b t. (a, b) \<in> set (find_spans lib BASE64_CANDIDATE [] s) \<and> decode_base64 lib (substring s a b) = Some t}"

lemma record_encoded_reports:
  assumes "record_encoded_matches lib d raw t a b st = Inr st'" and "scan_direct lib d t no_detection = Inr inner"
    and "m \<in> set (dt_matches inner)" and "allowlist_for d (''encoded:'' @ sm_detector_id m) raw = None"
    and "allowlist_for d (sm_detector_id m) (substring t (sm_start m) (sm_end m)) = None"
  shows "reports st' a b (sm_kind m)"
proof -
  have "foldS (\<lambda>m. record_candidate lib d (''encoded:'' @ sm_detector_id m) (sm_kind m) a b raw
       (min (sm_confidence m) (98 / 100)) (Some (substring t (sm_start m) (sm_end m), sm_detector_id m)))
       (dt_matches inner) st = Inr st'"
    using assms(1,2) unfolding record_encoded_matches_def by simp
  then show ?thesis
    by (rule foldS_reaches [OF _ assms(3)])
      (erule record_reports_mono, assumption, erule record_reports, use assms(4,5) in \<open>simp add: candidate_allowed_def\<close>)
qed

lemma encoded_reports:
  assumes "spans_within lib" and "scan_encoded lib d s st = Inr st'" and "(a, b, t) \<in> encoded_candidates lib s"
    and "scan_direct lib d t no_detection = Inr inner" and "m \<in> set (dt_matches inner)"
    and "allowlist_for d (''encoded:'' @ sm_detector_id m) (substring s a b) = None"
    and "allowlist_for d (sm_detector_id m) (substring t (sm_start m) (sm_end m)) = None"
  shows "reports st' a b (sm_kind m)"
proof -
  let ?f = "\<lambda>(a, b). let raw = substring s a b in record_encoded_matches lib d raw (url_unquote lib raw) a b"
  let ?g = "\<lambda>(a, b) st. let raw = substring s a b in case decode_base64 lib raw of
      None \<Rightarrow> Inr st | Some t \<Rightarrow> record_encoded_matches lib d raw t a b st"
  let ?R = "\<lambda>st. reports st a b (sm_kind m)"
  note rec = record_encoded_reports [OF _ assms(4-7)]
  obtain u where u: "foldS ?f (find_spans lib PERCENT_CANDIDATE [] s) st = Inr u"
    "foldS ?g (find_spans lib BASE64_CANDIDATE [] s) u = Inr st'"
    using assms(2) unfolding scan_encoded_def bindS_Inr by blast
  have keep: "?R y'" if "record_encoded_matches lib d raw x i j y = Inr y'" "?R y" "(i, j) \<in> set (find_spans lib e g s)"
    for raw x i j y y' e g
    using that by (auto intro: record_encoded_keeps [OF kept_reports [of lib d "length s"] span_end [OF assms(1)]])
  have g: "?R st'" if "?R u"
    using u(2) that by (rule foldS_inv) (auto simp: Let_def split: option.splits intro: keep)
  from assms(3) consider "(a, b) \<in> set (find_spans lib PERCENT_CANDIDATE [] s)" "t = url_unquote lib (substring s a b)"
    | "(a, b) \<in> set (find_spans lib BASE64_CANDIDATE [] s)" "decode_base64 lib (substring s a b) = Some t"
    by (auto simp: encoded_candidates_def)
  then show ?thesis
  proof cases
    case 1
    have "?R u" by (rule foldS_reaches [OF u(1) 1(1)]) (use 1(2) rec in \<open>auto simp: Let_def intro: keep\<close>)
    then show ?thesis by (rule g)
  next
    case 2
    show ?thesis by (rule foldS_reaches [OF u(2) 2(1)]) (use 2(2) rec in \<open>auto simp: Let_def split: option.splits intro: keep\<close>)
  qed
qed

text \<open>What is recorded about an allowlisted value is fit for an allowlist decision.\<close>

definition allowlisted_ok :: "allowlisted_match \<Rightarrow> detector_lib \<Rightarrow> detector \<Rightarrow> bool" where
  "allowlisted_ok m lib d \<longleftrightarrow> scan_id d (am_detector_id m) \<and> (\<exists>i v. (am_allowlist_id m, v) \<in> set (dd_allowlists d i)) \<and>
    (\<exists>c. am_digest m = sha256_hex lib c)"

lemma allowlist_for_listed: "allowlist_for d i c = Some a \<Longrightarrow> \<exists>j v. (a, v) \<in> set (dd_allowlists d j)"
  by (auto simp: allowlist_for_def find_Some_iff) (metis nth_mem)

lemma kept_allowlisted: "kept_by_recording lib d n (\<lambda>st. \<forall>m \<in> set (dt_allowlisted st). allowlisted_ok m lib d)"
  by (auto simp: kept_by_recording_def record_candidate_def bindS_Inr allowlisted_ok_def
      split: option.splits prod.splits dest: allowlist_for_listed)

lemma detector_scan_allowlisted:
  assumes "spans_within lib" and "detector_scan lib d s = Inr r"
  shows "\<forall>m \<in> set (dt_allowlisted r). allowlisted_ok m lib d"
proof (cases "s = []")
  case False
  then obtain t u v where p: "scan_direct lib d s no_detection = Inr t" "scan_encoded lib d s t = Inr u"
    "v = u \<or> scan_entropy lib d s u = Inr v" "dt_allowlisted r = deduplicate_allowlisted (dt_allowlisted v)"
    using assms(2) by (force simp: detector_scan_def bindS_Inr split: if_splits)
  have "\<forall>m \<in> set (dt_allowlisted t). allowlisted_ok m lib d"
    by (rule scan_direct_keeps [OF assms(1) kept_allowlisted p(1)]) (simp add: no_detection_def)
  then have "\<forall>m \<in> set (dt_allowlisted u). allowlisted_ok m lib d"
    by (rule scan_encoded_keeps [OF assms(1) kept_allowlisted p(2)])
  then have "\<forall>m \<in> set (dt_allowlisted v). allowlisted_ok m lib d"
    using p(3) scan_entropy_keeps [OF assms(1) kept_allowlisted] by blast
  then show ?thesis using p(4) unfolding deduplicate_allowlisted_def using dedup_on_subset by fastforce
qed (use assms(2) in \<open>auto simp: detector_scan_def no_detection_def\<close>)

section \<open>Detectors built from an accepted configuration\<close>

definition custom_never_empty :: "detector_lib \<Rightarrow> redaction_settings \<Rightarrow> bool" where
  "custom_never_empty lib rs \<longleftrightarrow>
    (\<forall>p \<in> set (custom_patterns rs). never_empty lib \<lparr>rx_source = cp_pattern p, rx_dotall = False\<rparr> [])"

definition settings_detector :: "redaction_settings \<Rightarrow> detector" where
  "settings_detector rs = mk_detector (rd_entropy rs) (custom_patterns rs) (rd_allowlists rs)"

lemma builtin_ids_ok:
  "list_all (\<lambda>p. detector_id_ok (pt_detector_id p) \<and> length (pt_detector_id p) \<le> 120 \<and> 0 \<le> pt_confidence p \<and> pt_confidence p \<le> 1) BUILTINS"
  by (simp add: BUILTINS_def whole_def secret_group_def detector_id_ok_def lower_identifier_def char_eval)

lemma custom_id_ok: "custom_pattern_ok plib p \<Longrightarrow> detector_id_ok (''custom:'' @ cp_id p) \<and> length (''custom:'' @ cp_id p) \<le> 120"
  by (cases "cp_id p") (auto simp: custom_pattern_ok_def detector_id_ok_def lower_identifier_def char_eval len_between_def)

lemma settings_detector_ok:
  assumes "detector_lib_ok lib" and "redaction_settings_ok plib rs" and "custom_never_empty lib rs"
  shows "detector_ok lib (settings_detector rs)"
proof -
  have "list_all (custom_pattern_ok plib) (custom_patterns rs)" "0 < en_min_length (rd_entropy rs)"
    using assms(2) by (auto simp: redaction_settings_ok_def entropy_settings_ok_def)
  then show ?thesis
    using assms(1,3) builtin_ids_ok custom_id_ok [of plib]
    by (auto simp: detector_ok_def settings_detector_def mk_detector_def compile_custom_def detector_lib_ok_def
        list_all_iff custom_never_empty_def)
qed


definition aws_key :: string where
  "aws_key = ''AKIA1234567890ABCDEF''"

definition aws_lib :: detector_lib where
  "aws_lib = \<lparr>find_spans = (\<lambda>e g s. if e = pt_expression (BUILTINS ! 2) \<and> s = aws_key then [(0, 20)] else []),
     html_unescape = id, url_unquote = id, b64_text = (\<lambda>_. None), sha256_hex = (\<lambda>_. replicate 64 (CHR ''0'')), log2 = id\<rparr>"

lemma aws_lib_ok: "detector_lib_ok aws_lib"
  by (simp add: detector_lib_ok_def spans_within_def never_empty_def aws_lib_def aws_key_def)

lemma safe_redaction_ok: "redaction_settings_ok sample_lib (cf_redaction safe_default)"
  by code_simp


text \<open>
  A configured pattern that can match the empty string is accepted by the validation of the
  configuration, but the span it reports is refused by the constructor of a match: the scan of every
  text in which it does so raises.
\<close>

theorem empty_custom_match_raises:
  assumes "spans_within lib" and "p \<in> set (dd_patterns d)" and "s \<noteq> []"
    and "(a, a) \<in> set (find_spans lib (pt_expression p) (pt_group p) s)"
    and "allowlist_for d (pt_detector_id p) (substring s a a) = None"
  shows "\<exists>exc. detector_scan lib d s = Inl exc"
proof (cases "detector_scan lib d s")
  case (Inr r)
  obtain t u v where ph: "scan_direct lib d s no_detection = Inr t" "scan_encoded lib d s t = Inr u"
    "v = u \<or> scan_entropy lib d s u = Inr v" "dt_matches r = deduplicate (dt_matches v)"
    by (rule detector_scan_phases [OF Inr assms(3)])
  have "s \<in> set (views lib s)" by (simp add: views_def Let_def)
  from direct_reports [OF assms(1) ph(1) this assms(2,4,5)] have "reports t a a (pt_kind p)" .
  moreover have "list_all (match_ok (length s)) (dt_matches t)"
    by (rule scan_direct_keeps [OF assms(1) kept_match_ok ph(1)]) (simp add: no_detection_def)
  ultimately show ?thesis by (auto simp: reports_def match_ok_def list_all_iff)
qed simp

end
