(* ===== verification/Redaction_Policy.thy ===== *)
theory Redaction_Policy
  imports Secret_Detector Blob_Codec
begin

text \<open>
  Redaction before persistence: the frames of \<^verbatim>\<open>src/local_recall/domain/frames.py\<close>, the findings of
  \<^verbatim>\<open>domain/redaction.py\<close> and the policy of \<^verbatim>\<open>redaction/policy.py\<close>, which scans the recognised text of a
  frame as one document, replaces what the detector reports, blanks the pixels of the blocks concerned
  and drops the metadata fields concerned. The random identifiers of findings and allowlist decisions,
  which nothing reads here, are left out.
\<close>

section \<open>Frames\<close>

datatype pixel_format = RGBA8 | RGB8 | GRAY8

fun bytes_per_pixel :: "pixel_format \<Rightarrow> int" where
  "bytes_per_pixel RGBA8 = 4"
| "bytes_per_pixel RGB8 = 3"
| "bytes_per_pixel GRAY8 = 1"

record pixel_region =
  rg_x :: int
  rg_y :: int
  rg_width :: int
  rg_height :: int

definition mk_PixelRegion :: "pixel_region \<Rightarrow> exn + pixel_region" where
  "mk_PixelRegion r =
    bindS (ensure (0 \<le> rg_x r \<and> 0 \<le> rg_y r) (ValueError ''pixel region origin must be non-negative'')) (\<lambda>_.
    bindS (ensure (0 < rg_width r \<and> 0 < rg_height r) (ValueError ''pixel region dimensions must be positive'')) (\<lambda>_. Inr r))"

definition validate_frame :: "datetime \<Rightarrow> int \<Rightarrow> int \<Rightarrow> int \<Rightarrow> pixel_format \<Rightarrow> byte list \<Rightarrow> exn + unit" where
  "validate_frame captured_at width height stride fmt pixels =
    bindS (ensure (is_aware captured_at) (ValueError ''captured_at must be timezone-aware'')) (\<lambda>_.
    bindS (ensure (0 < width \<and> 0 < height) (ValueError ''frame dimensions must be positive'')) (\<lambda>_.
    bindS (ensure (width * bytes_per_pixel fmt \<le> stride) (ValueError ''frame stride is smaller than the pixel width'')) (\<lambda>_.
    ensure (int (length pixels) = stride * height) (ValueError ''pixel buffer size''))))"

record raw_frame =
  rf_frame_id :: record_uuid
  rf_generation :: capture_generation
  rf_captured_at :: datetime
  rf_width :: int
  rf_height :: int
  rf_stride :: int
  rf_format :: pixel_format
  rf_pixels :: "byte list"
  rf_metadata :: context_metadata

definition mk_RawFrame :: "raw_frame \<Rightarrow> exn + raw_frame" where
  "mk_RawFrame f = bindS (validate_frame (rf_captured_at f) (rf_width f) (rf_height f) (rf_stride f) (rf_format f) (rf_pixels f)) (\<lambda>_. Inr f)"

record ocr_block =
  ob_block_id :: record_uuid
  ob_frame_id :: record_uuid
  ob_text :: string
  ob_confidence :: rat
  ob_region :: pixel_region

record ocr_result =
  or_frame_id :: record_uuid
  or_blocks :: "ocr_block list"

definition mk_OCRResult :: "ocr_result \<Rightarrow> exn + ocr_result" where
  "mk_OCRResult r = bindS (ensure (\<forall>b \<in> set (or_blocks r). ob_frame_id b = or_frame_id r)
     (ValueError ''all OCR blocks must belong to the same frame'')) (\<lambda>_. Inr r)"

section \<open>Findings\<close>

datatype redaction_target = TARGET_PIXELS | TARGET_OCR_TEXT | TARGET_METADATA

datatype redaction_reason = DETERMINISTIC_DETECTOR | MODEL_ASSISTED_DETECTOR | POLICY_RULE | USER_RULE

datatype redaction_action = MASK_PIXELS | REPLACE_TEXT | DROP_FIELD | REJECT_RECORD

record redaction_finding =
  fi_target :: redaction_target
  fi_kind :: redaction_kind
  fi_reason :: redaction_reason
  fi_action :: redaction_action
  fi_detector_id :: string
  fi_confidence :: rat
  fi_text_span :: "(int \<times> int) option"
  fi_pixel_region :: "pixel_region option"
  fi_metadata_field :: "string option"

definition mk_TextSpan :: "int \<Rightarrow> int \<Rightarrow> exn + (int \<times> int)" where
  "mk_TextSpan a b = bindS (ensure (0 \<le> a \<and> a < b) (ValueError ''text span must be a non-empty non-negative range'')) (\<lambda>_. Inr (a, b))"

definition mk_RedactionFinding :: "redaction_finding \<Rightarrow> exn + redaction_finding" where
  "mk_RedactionFinding f =
    bindS (ensure (nonempty (fi_detector_id f)) (ValueError ''detector_id must not be empty'')) (\<lambda>_.
    bindS (case fi_target f of
        TARGET_OCR_TEXT \<Rightarrow> ensure (fi_text_span f \<noteq> None \<and> fi_pixel_region f = None \<and> fi_metadata_field f = None)
          (ValueError ''OCR text findings require exactly one text span'')
      | TARGET_PIXELS \<Rightarrow> ensure (fi_pixel_region f \<noteq> None \<and> fi_text_span f = None \<and> fi_metadata_field f = None)
          (ValueError ''pixel findings require exactly one pixel region'')
      | TARGET_METADATA \<Rightarrow>
          bindS (ensure (fi_metadata_field f \<noteq> None \<and> fi_text_span f = None \<and> fi_pixel_region f = None)
            (ValueError ''metadata findings require exactly one metadata field'')) (\<lambda>_.
          ensure (opt_ok nonempty (fi_metadata_field f)) (ValueError ''metadata_field must not be empty''))) (\<lambda>_. Inr f))"

record allowlist_decision =
  ad_detector_id :: string
  ad_allowlist_id :: string
  ad_target :: redaction_target
  ad_digest :: string
  ad_metadata_field :: "string option"

text \<open>\<^verbatim>\<open>[0-9a-f]{64}\<close>\<close>

definition digest_ok :: "string \<Rightarrow> bool" where
  "digest_ok s \<longleftrightarrow> length s = 64 \<and> list_all (\<lambda>c. is_digit c \<or> 97 \<le> char_code c \<and> char_code c \<le> 102) s"

definition mk_AllowlistDecision :: "allowlist_decision \<Rightarrow> exn + allowlist_decision" where
  "mk_AllowlistDecision a =
    bindS (ensure (nonempty (ad_detector_id a)) (ValueError ''detector_id must not be empty'')) (\<lambda>_.
    bindS (ensure (nonempty (ad_allowlist_id a)) (ValueError ''allowlist_id must not be empty'')) (\<lambda>_.
    bindS (ensure (digest_ok (ad_digest a)) (ValueError ''allowlist value digest must be lowercase SHA-256'')) (\<lambda>_.
    bindS (case ad_target a of
        TARGET_METADATA \<Rightarrow>
          bindS (ensure (ad_metadata_field a \<noteq> None) (ValueError ''metadata allowlist decisions require a field name'')) (\<lambda>_.
          ensure (opt_ok nonempty (ad_metadata_field a)) (ValueError ''metadata_field must not be empty''))
      | _ \<Rightarrow> ensure (ad_metadata_field a = None)
          (ValueError ''non-metadata allowlist decisions cannot include a field name'')) (\<lambda>_. Inr a))))"

record redacted_frame =
  xf_frame_id :: record_uuid
  xf_generation :: capture_generation
  xf_captured_at :: datetime
  xf_width :: int
  xf_height :: int
  xf_stride :: int
  xf_format :: pixel_format
  xf_pixels :: "byte list"
  xf_metadata :: context_metadata
  xf_ocr_text :: "string list"
  xf_findings :: "redaction_finding list"
  xf_policy_revision :: string
  xf_allowlist :: "allowlist_decision list"

definition mk_RedactedFrame :: "redacted_frame \<Rightarrow> exn + redacted_frame" where
  "mk_RedactedFrame f =
    bindS (validate_frame (xf_captured_at f) (xf_width f) (xf_height f) (xf_stride f) (xf_format f) (xf_pixels f)) (\<lambda>_.
    bindS (ensure (nonempty (xf_policy_revision f)) (ValueError ''policy_revision must not be empty'')) (\<lambda>_. Inr f))"

record redacted_record =
  xr_record_id :: record_uuid
  xr_frame :: redacted_frame
  xr_created_at :: datetime

definition mk_RedactedRecord :: "redacted_record \<Rightarrow> exn + redacted_record" where
  "mk_RedactedRecord r = bindS (ensure (is_aware (xr_created_at r)) (ValueError ''created_at must be timezone-aware'')) (\<lambda>_. Inr r)"

section \<open>Text\<close>

record block_slice =
  bs_block :: ocr_block
  bs_start :: int
  bs_end :: int

record block_redaction =
  br_start :: int
  br_end :: int
  br_detector_id :: string
  br_kind :: redaction_kind
  br_confidence :: rat

definition REPLACEMENT :: string where
  "REPLACEMENT = ''[REDACTED]''"

definition newline :: string where
  "newline = [CHR 0x0A]"

text \<open>The blocks are joined by newlines; each slice records where its block lies in the document.\<close>

primrec document_from :: "bool \<Rightarrow> int \<Rightarrow> ocr_block list \<Rightarrow> string \<times> block_slice list" where
  "document_from first offset [] = ([], [])"
| "document_from first offset (b # bs) =
    (let sep = (if first then [] else newline);
         start = offset + int (length sep);
         finish = start + int (length (ob_text b));
         rest = document_from False finish bs
     in (sep @ ob_text b @ fst rest, \<lparr>bs_block = b, bs_start = start, bs_end = finish\<rparr> # snd rest))"

definition ocr_document :: "ocr_block list \<Rightarrow> string \<times> block_slice list" where
  "ocr_document = document_from True 0"

definition validate_ocr_regions :: "int \<Rightarrow> int \<Rightarrow> ocr_block list \<Rightarrow> exn + unit" where
  "validate_ocr_regions width height bs =
    ensure (\<forall>b \<in> set bs. rg_x (ob_region b) + rg_width (ob_region b) \<le> width \<and> rg_y (ob_region b) + rg_height (ob_region b) \<le> height)
      (RedactionFailure ''invalid_region'')"

definition findings_for_block :: "ocr_block \<Rightarrow> block_redaction \<Rightarrow> exn + redaction_finding list" where
  "findings_for_block b r =
    (let reason = (if br_kind r = POLICY_REDACTION then POLICY_RULE else DETERMINISTIC_DETECTOR);
         base = \<lparr>fi_target = TARGET_OCR_TEXT, fi_kind = br_kind r, fi_reason = reason, fi_action = REPLACE_TEXT,
           fi_detector_id = br_detector_id r, fi_confidence = br_confidence r, fi_text_span = None,
           fi_pixel_region = None, fi_metadata_field = None\<rparr> in
     bindS (mk_TextSpan (br_start r) (br_end r)) (\<lambda>sp.
     bindS (mk_RedactionFinding (base\<lparr>fi_text_span := Some sp\<rparr>)) (\<lambda>f.
     bindS (mk_RedactionFinding (base\<lparr>fi_target := TARGET_PIXELS, fi_action := MASK_PIXELS,
       fi_pixel_region := Some (ob_region b)\<rparr>)) (\<lambda>g. Inr [f, g]))))"

record redaction_state =
  st_redactions :: "record_uuid \<Rightarrow> block_redaction list"
  st_findings :: "redaction_finding list"
  st_decisions :: "allowlist_decision list"

definition add_redaction :: "ocr_block \<Rightarrow> block_redaction \<Rightarrow> redaction_state \<Rightarrow> exn + redaction_state" where
  "add_redaction b r st =
    bindS (findings_for_block b r) (\<lambda>fs.
    Inr (st\<lparr>st_redactions := (st_redactions st)(ob_block_id b := st_redactions st (ob_block_id b) @ [r]),
      st_findings := st_findings st @ fs\<rparr>))"

definition apply_document_match :: "block_slice list \<Rightarrow> secret_match \<Rightarrow> redaction_state \<Rightarrow> exn + redaction_state" where
  "apply_document_match slices m = foldS (\<lambda>sl st.
    let a = max (sm_start m) (bs_start sl); b = min (sm_end m) (bs_end sl) in
    if b \<le> a then Inr st
    else add_redaction (bs_block sl) \<lparr>br_start = a - bs_start sl, br_end = b - bs_start sl,
      br_detector_id = sm_detector_id m, br_kind = sm_kind m, br_confidence = sm_confidence m\<rparr> st) slices"

definition add_decision ::
    "redaction_target \<Rightarrow> string option \<Rightarrow> allowlisted_match \<Rightarrow> allowlist_decision list \<Rightarrow> exn + allowlist_decision list" where
  "add_decision target name m ds =
    bindS (mk_AllowlistDecision \<lparr>ad_detector_id = am_detector_id m, ad_allowlist_id = am_allowlist_id m, ad_target = target,
      ad_digest = am_digest m, ad_metadata_field = name\<rparr>) (\<lambda>d. Inr (ds @ [d]))"

definition low_confidence :: "rat \<Rightarrow> block_slice \<Rightarrow> redaction_state \<Rightarrow> exn + redaction_state" where
  "low_confidence threshold sl st = (let b = bs_block sl in
    if ob_text b \<noteq> [] \<and> ob_confidence b < threshold then
      add_redaction b \<lparr>br_start = 0, br_end = int (length (ob_text b)), br_detector_id = ''low-confidence-ocr'',
        br_kind = POLICY_REDACTION, br_confidence = ob_confidence b\<rparr> st
    else Inr st)"

fun merge_step :: "(int \<times> int) list \<Rightarrow> int \<times> int \<Rightarrow> (int \<times> int) list" where
  "merge_step merged (a, b) = (if merged = [] \<or> snd (last merged) < a then merged @ [(a, b)]
     else butlast merged @ [(fst (last merged), max (snd (last merged)) b)])"

definition merge_ranges :: "(int \<times> int) list \<Rightarrow> (int \<times> int) list" where
  "merge_ranges ranges = foldl merge_step [] (sort ranges)"

fun replace_from :: "string \<Rightarrow> int \<Rightarrow> (int \<times> int) list \<Rightarrow> string" where
  "replace_from s cursor [] = drop (nat cursor) s"
| "replace_from s cursor ((a, b) # rs) = substring s cursor a @ REPLACEMENT @ replace_from s b rs"

definition replace_spans :: "string \<Rightarrow> block_redaction list \<Rightarrow> string" where
  "replace_spans s rs = (if rs = [] then s else replace_from s 0 (merge_ranges (map (\<lambda>r. (br_start r, br_end r)) rs)))"

section \<open>Metadata\<close>

definition metadata_finding :: "string \<Rightarrow> string \<Rightarrow> redaction_kind \<Rightarrow> rat \<Rightarrow> exn + redaction_finding" where
  "metadata_finding name i k c = mk_RedactionFinding \<lparr>fi_target = TARGET_METADATA, fi_kind = k,
     fi_reason = DETERMINISTIC_DETECTOR, fi_action = DROP_FIELD, fi_detector_id = i, fi_confidence = c,
     fi_text_span = None, fi_pixel_region = None, fi_metadata_field = Some name\<rparr>"

record metadata_state =
  ms_retained :: "context_field list"
  ms_findings :: "redaction_finding list"
  ms_decisions :: "allowlist_decision list"

definition add_finding :: "exn + redaction_finding \<Rightarrow> metadata_state \<Rightarrow> exn + metadata_state" where
  "add_finding f st = bindS f (\<lambda>f. Inr (st\<lparr>ms_findings := ms_findings st @ [f]\<rparr>))"

definition scan_field :: "detector_lib \<Rightarrow> detector \<Rightarrow> context_field \<Rightarrow> exn + detection option" where
  "scan_field lib d f = (case fd_value f of
     StrVal s \<Rightarrow> bindS (detector_scan lib d s) (\<lambda>r. Inr (Some r)) | _ \<Rightarrow> Inr None)"

definition judge_field :: "detector_lib \<Rightarrow> context_field \<Rightarrow> secret_match list \<Rightarrow> metadata_state \<Rightarrow> exn + metadata_state" where
  "judge_field lib f matches st =
    (let sensitive = sensitive_metadata_name lib (fd_name f) in
     if sensitive = None \<and> matches = [] then Inr (st\<lparr>ms_retained := ms_retained st @ [f]\<rparr>)
     else
       bindS (case sensitive of None \<Rightarrow> Inr st
              | Some (i, k) \<Rightarrow> add_finding (metadata_finding (fd_name f) i k 1) st) (\<lambda>st.
       foldS (\<lambda>m. add_finding (metadata_finding (fd_name f) (sm_detector_id m) (sm_kind m) (sm_confidence m))) matches st))"

definition redact_field :: "detector_lib \<Rightarrow> detector \<Rightarrow> context_field \<Rightarrow> metadata_state \<Rightarrow> exn + metadata_state" where
  "redact_field lib d f st =
    bindS (scan_field lib d f) (\<lambda>detection.
    bindS (judge_field lib f (case detection of None \<Rightarrow> [] | Some r \<Rightarrow> dt_matches r) st) (\<lambda>st.
    case detection of None \<Rightarrow> Inr st
    | Some r \<Rightarrow> bindS (foldS (add_decision TARGET_METADATA (Some (fd_name f))) (dt_allowlisted r) (ms_decisions st)) (\<lambda>ds.
        Inr (st\<lparr>ms_decisions := ds\<rparr>))))"

definition mk_ContextMetadata :: "context_metadata \<Rightarrow> exn + context_metadata" where
  "mk_ContextMetadata m =
    bindS (ensure (is_aware (md_observed_at m)) (ValueError ''observed_at must be timezone-aware'')) (\<lambda>_.
    bindS (ensure (distinct (map fd_name (md_fields m))) (ValueError ''duplicate metadata field'')) (\<lambda>_. Inr m))"

definition redact_metadata ::
    "detector_lib \<Rightarrow> detector \<Rightarrow> context_metadata \<Rightarrow>
     exn + (context_metadata \<times> redaction_finding list \<times> allowlist_decision list)" where
  "redact_metadata lib d m =
    bindS (foldS (redact_field lib d) (md_fields m) \<lparr>ms_retained = [], ms_findings = [], ms_decisions = []\<rparr>) (\<lambda>st.
    bindS (mk_ContextMetadata (m\<lparr>md_fields := ms_retained st\<rparr>)) (\<lambda>m'.
    Inr (m', ms_findings st, ms_decisions st)))"

section \<open>Pixels\<close>

text \<open>\<^verbatim>\<open>pixels[offset:offset + n] = new\<close> on a byte array, \<open>n\<close> the length of the new bytes.\<close>

definition splice :: "byte list \<Rightarrow> int \<Rightarrow> byte list \<Rightarrow> byte list" where
  "splice px offset new = take (nat offset) px @ new @ drop (nat offset + length new) px"

definition paint :: "raw_frame \<Rightarrow> int \<times> int \<Rightarrow> byte list \<Rightarrow> exn + byte list" where
  "paint f pos px = (case pos of (row, column) \<Rightarrow>
    let offset = row * rf_stride f + column * bytes_per_pixel (rf_format f) in
    case rf_format f of
      RGBA8 \<Rightarrow> Inr (splice px offset [0, 0, 0, 255])
    | RGB8 \<Rightarrow> Inr (splice px offset [0, 0, 0])
    | GRAY8 \<Rightarrow> if 0 \<le> offset \<and> offset < int (length px) then Inr (px[nat offset := 0])
        else Inl (RuntimeError ''IndexError''))"

definition mask_region :: "raw_frame \<Rightarrow> pixel_region \<Rightarrow> byte list \<Rightarrow> exn + byte list" where
  "mask_region f r px =
    bindS (ensure (rg_x r + rg_width r \<le> rf_width f \<and> rg_y r + rg_height r \<le> rf_height f)
      (RedactionFailure ''invalid_region'')) (\<lambda>_.
    foldS (paint f) [(row, column). row \<leftarrow> [rg_y r..rg_y r + rg_height r - 1], column \<leftarrow> [rg_x r..rg_x r + rg_width r - 1]] px)"

definition mask_regions :: "raw_frame \<Rightarrow> pixel_region list \<Rightarrow> exn + byte list" where
  "mask_regions f rs = foldS (mask_region f) (remdups rs) (rf_pixels f)"

section \<open>The policy\<close>

record redaction_policy =
  rp_settings :: redaction_settings
  rp_detector :: detector
  rp_now :: datetime

record redaction_request =
  rq_frame :: raw_frame
  rq_ocr :: ocr_result
  rq_policy_revision :: string

definition mk_policy :: "redaction_settings \<Rightarrow> datetime \<Rightarrow> redaction_policy" where
  "mk_policy rs now = \<lparr>rp_settings = rs, rp_detector = settings_detector rs, rp_now = now\<rparr>"

text \<open>The findings of the text: matches of the document, allowlisted matches, blocks recognised badly.\<close>

definition scan_blocks ::
    "detector_lib \<Rightarrow> redaction_policy \<Rightarrow> ocr_block list \<Rightarrow> exn + redaction_state" where
  "scan_blocks lib p blocks =
    (let slices = snd (ocr_document blocks) in
     bindS (detector_scan lib (rp_detector p) (fst (ocr_document blocks))) (\<lambda>detection.
     bindS (foldS (apply_document_match slices) (dt_matches detection)
       \<lparr>st_redactions = (\<lambda>_. []), st_findings = [], st_decisions = []\<rparr>) (\<lambda>st.
     bindS (foldS (add_decision TARGET_OCR_TEXT None) (dt_allowlisted detection) []) (\<lambda>ds.
     foldS (low_confidence (low_confidence_threshold (rp_settings p))) slices (st\<lparr>st_decisions := ds\<rparr>)))))"

definition spans_of :: "redaction_state \<Rightarrow> ocr_block \<Rightarrow> block_redaction list" where
  "spans_of st b = st_redactions st (ob_block_id b)"

definition redact_body :: "detector_lib \<Rightarrow> redaction_policy \<Rightarrow> redaction_request \<Rightarrow> exn + redacted_record" where
  "redact_body lib p req =
    (let f = rq_frame req; blocks = or_blocks (rq_ocr req) in
     bindS (validate_ocr_regions (rf_width f) (rf_height f) blocks) (\<lambda>_.
     bindS (scan_blocks lib p blocks) (\<lambda>st.
     bindS (redact_metadata lib (rp_detector p) (rf_metadata f)) (\<lambda>(md, mfs, mds).
     bindS (mask_regions f (map ob_region (filter (\<lambda>b. spans_of st b \<noteq> []) blocks))) (\<lambda>px.
     bindS (mk_RedactedFrame \<lparr>xf_frame_id = rf_frame_id f, xf_generation = rf_generation f,
       xf_captured_at = rf_captured_at f, xf_width = rf_width f, xf_height = rf_height f, xf_stride = rf_stride f,
       xf_format = rf_format f, xf_pixels = px, xf_metadata = md,
       xf_ocr_text = map (\<lambda>b. replace_spans (ob_text b) (spans_of st b)) blocks,
       xf_findings = st_findings st @ mfs, xf_policy_revision = rd_policy_revision (rp_settings p),
       xf_allowlist = st_decisions st @ mds\<rparr>) (\<lambda>xf.
     mk_RedactedRecord \<lparr>xr_record_id = rf_frame_id f, xr_frame = xf, xr_created_at = rp_now p\<rparr>))))))"

text \<open>A redaction failure passes unchanged; every other exception becomes a policy failure.\<close>

definition as_redaction_failure :: "exn + 'a \<Rightarrow> exn + 'a" where
  "as_redaction_failure r = (case r of
     Inl exc \<Rightarrow> Inl (case exc of RedactionFailure c \<Rightarrow> RedactionFailure c | _ \<Rightarrow> RedactionFailure ''policy_failure'')
   | Inr x \<Rightarrow> Inr x)"

definition redact :: "detector_lib \<Rightarrow> redaction_policy \<Rightarrow> redaction_request \<Rightarrow> exn + redacted_record" where
  "redact lib p req =
    bindS (ensure (or_frame_id (rq_ocr req) = rf_frame_id (rq_frame req)) (RedactionFailure ''frame_mismatch'')) (\<lambda>_.
    bindS (ensure (rq_policy_revision req = rd_policy_revision (rp_settings p)) (RedactionFailure ''policy_failure'')) (\<lambda>_.
    bindS (ensure (rd_enabled (rp_settings p) \<and> deterministic_required (rp_settings p) \<and> fail_on_uncertain (rp_settings p))
      (RedactionFailure ''policy_failure'')) (\<lambda>_.
    as_redaction_failure (redact_body lib p req))))"

end
