(* ===== verification/Redaction_Safety.thy ===== *)
theory Redaction_Safety
  imports Redaction_Policy
begin

text \<open>
  What a redacted record shows and hides. The merging of spans and the replacement loop are shown equal
  to a reference that reads the text character by character, the masking of pixels to a pointwise
  description of the buffer, and the retained metadata to a filter. Together: what the detector reports
  never reaches the record, everything else does, and a record is produced whenever the inputs are valid.
\<close>

section \<open>Replacing spans\<close>

text \<open>
  The reference: read the text character by character, keep what is not covered and write the
  marker once for every maximal covered stretch. The flag says that the previous character was covered.
\<close>

fun mask_text :: "(nat \<Rightarrow> bool) \<Rightarrow> bool \<Rightarrow> nat \<Rightarrow> string \<Rightarrow> string" where
  "mask_text cov r i [] = []"
| "mask_text cov r i (c # cs) =
    (if cov i then (if r then [] else REPLACEMENT) @ mask_text cov True (Suc i) cs
     else c # mask_text cov False (Suc i) cs)"

fun separated :: "(int \<times> int) list \<Rightarrow> bool" where
  "separated [] = True"
| "separated ((a, b) # rs) \<longleftrightarrow> a < b \<and> (rs \<noteq> [] \<longrightarrow> b < fst (hd rs)) \<and> separated rs"

definition covers :: "(int \<times> int) list \<Rightarrow> int \<Rightarrow> bool" where
  "covers rs x \<longleftrightarrow> (\<exists>(a, b) \<in> set rs. a \<le> x \<and> x < b)"

lemma covers_simps [simp]:
  "covers [] x \<longleftrightarrow> False" "covers ((a, b) # rs) x \<longleftrightarrow> a \<le> x \<and> x < b \<or> covers rs x"
  "covers (rs @ rs') x \<longleftrightarrow> covers rs x \<or> covers rs' x"
  by (auto simp: covers_def)

lemma separated_snoc: "separated (rs @ [(a, b)]) \<longleftrightarrow> separated rs \<and> a < b \<and> (rs \<noteq> [] \<longrightarrow> snd (last rs) < a)"
  by (induction rs rule: separated.induct) auto

lemma separated_snoc_two:
  "separated (rs @ [(c, d), (a, b)]) \<longleftrightarrow> separated rs \<and> c < d \<and> (rs \<noteq> [] \<longrightarrow> snd (last rs) < c) \<and> a < b \<and> d < a"
  using separated_snoc [of "rs @ [(c, d)]" a b] by (auto simp: separated_snoc)

lemma separated_pos: "separated rs \<Longrightarrow> (a, b) \<in> set rs \<Longrightarrow> a < b"
  by (induction rs rule: separated.induct) auto

lemma separated_starts: "separated ((a, b) # rs) \<Longrightarrow> (c, d) \<in> set rs \<Longrightarrow> b < c"
proof (induction rs arbitrary: a b)
  case (Cons y ys)
  obtain a' b' where y: "y = (a', b')" by (cases y)
  then have "b < a'" "a' < b'" "separated ((a', b') # ys)" using Cons.prems(1) by auto
  then show ?case using Cons.IH [of a' b'] Cons.prems(2) y by force
qed simp

lemma merge_step_separated:
  assumes "separated m" and "a < b" and "m \<noteq> [] \<longrightarrow> fst (last m) \<le> a"
  shows "separated (merge_step m (a, b))" and "fst (last (merge_step m (a, b))) \<le> a"
    and "covers (merge_step m (a, b)) x \<longleftrightarrow> covers m x \<or> a \<le> x \<and> x < b"
proof -
  consider "m = []" | m' c d where "m = m' @ [(c, d)]" by (cases m rule: rev_cases) auto
  then have "separated (merge_step m (a, b)) \<and> fst (last (merge_step m (a, b))) \<le> a \<and>
    (covers (merge_step m (a, b)) x \<longleftrightarrow> covers m x \<or> a \<le> x \<and> x < b)"
    using assms by cases (auto simp: separated_snoc separated_snoc_two)
  then show "separated (merge_step m (a, b))" "fst (last (merge_step m (a, b))) \<le> a"
    "covers (merge_step m (a, b)) x \<longleftrightarrow> covers m x \<or> a \<le> x \<and> x < b" by blast+
qed

lemma merge_foldl:
  assumes "sorted xs" and "\<forall>(a, b) \<in> set xs. a < b" and "separated m"
    and "m \<noteq> [] \<longrightarrow> (\<forall>(a, b) \<in> set xs. fst (last m) \<le> a)"
  shows "separated (foldl merge_step m xs) \<and> (covers (foldl merge_step m xs) x \<longleftrightarrow> covers m x \<or> covers xs x)"
  using assms
proof (induction xs arbitrary: m)
  case (Cons y ys)
  obtain a b where y [simp]: "y = (a, b)" by (cases y)
  have ab: "a < b" "m \<noteq> [] \<longrightarrow> fst (last m) \<le> a" using Cons.prems by auto
  note st = merge_step_separated [OF Cons.prems(3) ab]
  have "\<forall>(c, d) \<in> set ys. a \<le> c" using Cons.prems(1) by (auto simp: less_eq_prod_def)
  then have "separated (foldl merge_step (merge_step m (a, b)) ys) \<and>
      (covers (foldl merge_step (merge_step m (a, b)) ys) x \<longleftrightarrow> covers (merge_step m (a, b)) x \<or> covers ys x)"
    using Cons.prems st(1,2) by (intro Cons.IH) auto
  then show ?case using st(3) by auto
qed simp

lemma mask_text_cong: "(\<And>j. i \<le> j \<Longrightarrow> cov j = cov' j) \<Longrightarrow> mask_text cov r i s = mask_text cov' r i s"
  by (induction cov r i s rule: mask_text.induct) auto

lemma mask_text_keep:
  "(\<And>j. i \<le> j \<Longrightarrow> j < i + length u \<Longrightarrow> \<not> cov j) \<Longrightarrow> mask_text cov r i (u @ v) = u @ mask_text cov (r \<and> u = []) (i + length u) v"
  by (induction u arbitrary: i r) auto

lemma mask_text_run:
  "(\<And>j. i \<le> j \<Longrightarrow> j < i + length u \<Longrightarrow> cov j) \<Longrightarrow>
    mask_text cov r i (u @ v) = (if r \<or> u = [] then [] else REPLACEMENT) @ mask_text cov (r \<or> u \<noteq> []) (i + length u) v"
  by (induction u arbitrary: i r) auto

lemma mask_text_flag: "\<not> cov i \<Longrightarrow> mask_text cov True i s = mask_text cov False i s"
  by (cases s) auto

lemma drop_substring: "0 \<le> i \<Longrightarrow> i \<le> j \<Longrightarrow> drop (nat i) s = substring s i j @ drop (nat j) s"
  by (simp add: substring_def) (metis append_take_drop_id drop_drop nat_diff_distrib' le_add_diff_inverse2 nat_mono order_trans)

lemma replace_from_mask:
  assumes "separated rs" and "0 \<le> cursor" and "rs \<noteq> [] \<longrightarrow> cursor \<le> fst (hd rs)" and "\<forall>(a, b) \<in> set rs. b \<le> int (length s)"
  shows "replace_from s cursor rs = mask_text (\<lambda>i. covers rs (int i)) False (nat cursor) (drop (nat cursor) s)"
  using assms
proof (induction rs arbitrary: cursor)
  case Nil
  have "mask_text (\<lambda>i. False) False i u = u" for i u using mask_text_keep [of i u "\<lambda>_. False" False "[]"] by simp
  then show ?case by simp
next
  case (Cons y ys)
  obtain a b where y [simp]: "y = (a, b)" by (cases y)
  let ?cov = "\<lambda>i. covers ((a, b) # ys) (int i)"
  have ab: "cursor \<le> a" "a < b" "b \<le> int (length s)" "separated ys" "separated ((a, b) # ys)" using Cons.prems by auto
  have later: "\<not> covers ys x" if "x \<le> b" for x
    using separated_starts [OF ab(5)] that by (force simp: covers_def)
  have len: "length (substring s cursor a) = nat (a - cursor)" "length (substring s a b) = nat (b - a)"
    using length_substring [of cursor a s] length_substring [of a b s] ab Cons.prems(2) by auto
  have "mask_text ?cov False (nat cursor) (drop (nat cursor) s) =
      mask_text ?cov False (nat cursor) (substring s cursor a @ substring s a b @ drop (nat b) s)"
    using drop_substring [of cursor a s] drop_substring [of a b s] ab Cons.prems(2) by simp
  also have "\<dots> = substring s cursor a @ mask_text ?cov False (nat a) (substring s a b @ drop (nat b) s)"
    using ab Cons.prems(2) len later by (subst mask_text_keep) (auto simp: nat_diff_distrib)
  also have "mask_text ?cov False (nat a) (substring s a b @ drop (nat b) s) = REPLACEMENT @ mask_text ?cov True (nat b) (drop (nat b) s)"
    using ab Cons.prems(2) len by (subst mask_text_run) (auto simp: nat_diff_distrib)
  also have "mask_text ?cov True (nat b) (drop (nat b) s) = mask_text ?cov False (nat b) (drop (nat b) s)"
    using ab Cons.prems(2) later [of b] by (intro mask_text_flag) auto
  also have "\<dots> = mask_text (\<lambda>i. covers ys (int i)) False (nat b) (drop (nat b) s)"
    using ab Cons.prems(2) by (intro mask_text_cong) auto
  also have "\<dots> = replace_from s b ys"
    using Cons.prems ab by (intro Cons.IH [symmetric]) (auto simp: less_imp_le)
  finally show ?case by simp
qed

definition hits :: "block_redaction list \<Rightarrow> int \<Rightarrow> bool" where
  "hits rs x \<longleftrightarrow> (\<exists>r \<in> set rs. br_start r \<le> x \<and> x < br_end r)"

lemma merged:
  assumes "\<forall>(a, b) \<in> set rs. 0 \<le> a \<and> a < b \<and> b \<le> n"
  shows "separated (merge_ranges rs)" "covers (merge_ranges rs) x \<longleftrightarrow> covers rs x"
    and "(a, b) \<in> set (merge_ranges rs) \<Longrightarrow> 0 \<le> a \<and> b \<le> n"
proof -
  have m: "separated (merge_ranges rs)" "covers (merge_ranges rs) x \<longleftrightarrow> covers rs x" for x
    using merge_foldl [of "sort rs" "[]" x] assms by (auto simp: merge_ranges_def covers_def)
  then show "separated (merge_ranges rs)" "covers (merge_ranges rs) x \<longleftrightarrow> covers rs x" by auto
  assume ab: "(a, b) \<in> set (merge_ranges rs)"
  have "a < b" by (rule separated_pos [OF m(1) ab])
  then have "covers (merge_ranges rs) a" "covers (merge_ranges rs) (b - 1)"
    unfolding covers_def using ab by (force intro: bexI [of _ "(a, b)"])+
  then have "covers rs a" "covers rs (b - 1)" using m(2) by auto
  then show "0 \<le> a \<and> b \<le> n" using assms unfolding covers_def by force
qed

theorem replace_spans_mask:
  assumes "\<forall>r \<in> set rs. 0 \<le> br_start r \<and> br_start r < br_end r \<and> br_end r \<le> int (length s)"
  shows "replace_spans s rs = mask_text (\<lambda>i. hits rs (int i)) False 0 s"
proof (cases "rs = []")
  case True
  then show ?thesis using mask_text_keep [of 0 s "\<lambda>_. False" False "[]"] by (simp add: hits_def replace_spans_def)
next
  case False
  define ranges where "ranges = map (\<lambda>r. (br_start r, br_end r)) rs"
  define m where "m = merge_ranges ranges"
  have "\<forall>(a, b) \<in> set ranges. 0 \<le> a \<and> a < b \<and> b \<le> int (length s)" using assms by (auto simp: ranges_def)
  note mm = merged [OF this, folded m_def]
  have "m \<noteq> [] \<longrightarrow> 0 \<le> fst (hd m)" using mm(3) [of "fst (hd m)" "snd (hd m)"] by simp
  moreover have "\<forall>(a, b) \<in> set m. b \<le> int (length s)" using mm(3) by blast
  ultimately have "replace_from s 0 m = mask_text (\<lambda>i. covers m (int i)) False 0 s"
    using replace_from_mask [OF mm(1), of 0 s] by simp
  moreover have "covers ranges x \<longleftrightarrow> hits rs x" for x by (auto simp: covers_def hits_def ranges_def)
  ultimately show ?thesis using False mm(2) by (simp add: replace_spans_def m_def ranges_def)
qed

section \<open>Pixels\<close>

fun blank_pixel :: "pixel_format \<Rightarrow> byte list" where
  "blank_pixel RGBA8 = [0, 0, 0, 255]"
| "blank_pixel RGB8 = [0, 0, 0]"
| "blank_pixel GRAY8 = [0]"

lemma length_blank: "int (length (blank_pixel fmt)) = bytes_per_pixel fmt"
  by (cases fmt) auto

text \<open>Row and column of the pixel that byte \<open>i\<close> of the buffer belongs to, and its place in the pixel.\<close>

definition byte_pixel :: "raw_frame \<Rightarrow> nat \<Rightarrow> int \<times> int" where
  "byte_pixel f i = (int i div rf_stride f, int i mod rf_stride f div bytes_per_pixel (rf_format f))"

definition byte_lane :: "raw_frame \<Rightarrow> nat \<Rightarrow> nat" where
  "byte_lane f i = nat (int i mod rf_stride f mod bytes_per_pixel (rf_format f))"

definition frame_ok :: "raw_frame \<Rightarrow> bool" where
  "frame_ok f \<longleftrightarrow> mk_RawFrame f = Inr f"

lemma frame_okD:
  assumes "frame_ok f"
  shows "is_aware (rf_captured_at f)" "0 < rf_width f" "0 < rf_height f" "rf_width f * bytes_per_pixel (rf_format f) \<le> rf_stride f"
    "int (length (rf_pixels f)) = rf_stride f * rf_height f" "0 < rf_stride f"
proof -
  show *: "is_aware (rf_captured_at f)" "0 < rf_width f" "0 < rf_height f" "rf_width f * bytes_per_pixel (rf_format f) \<le> rf_stride f"
    "int (length (rf_pixels f)) = rf_stride f * rf_height f"
    using assms by (auto simp: frame_ok_def mk_RawFrame_def validate_frame_def bindS_Inr ensure_Inr)
  have "0 < bytes_per_pixel (rf_format f)" by (cases "rf_format f") auto
  then have "0 < rf_width f * bytes_per_pixel (rf_format f)" using *(2) by simp
  then show "0 < rf_stride f" using *(4) by linarith
qed

definition in_frame :: "raw_frame \<Rightarrow> int \<times> int \<Rightarrow> bool" where
  "in_frame f pos \<longleftrightarrow> 0 \<le> fst pos \<and> fst pos < rf_height f \<and> 0 \<le> snd pos \<and> snd pos < rf_width f"

definition pixel_offset :: "raw_frame \<Rightarrow> int \<times> int \<Rightarrow> int" where
  "pixel_offset f pos = fst pos * rf_stride f + snd pos * bytes_per_pixel (rf_format f)"

lemma pixel_bytes:
  assumes "frame_ok f" and "in_frame f (r, c)"
  shows "byte_pixel f i = (r, c) \<longleftrightarrow> pixel_offset f (r, c) \<le> int i \<and> int i < pixel_offset f (r, c) + bytes_per_pixel (rf_format f)"
    and "byte_pixel f i = (r, c) \<Longrightarrow> byte_lane f i = nat (int i - pixel_offset f (r, c))"
    and "0 \<le> pixel_offset f (r, c)" and "pixel_offset f (r, c) + bytes_per_pixel (rf_format f) \<le> int (length (rf_pixels f))"
proof -
  let ?S = "rf_stride f" and ?B = "bytes_per_pixel (rf_format f)"
  note fr = frame_okD [OF assms(1)]
  have B: "0 < ?B" by (cases "rf_format f") auto
  have rc: "0 \<le> r" "r < rf_height f" "0 \<le> c" "c < rf_width f" using assms(2) by (auto simp: in_frame_def)
  have cB: "c * ?B + ?B \<le> ?S"
  proof -
    have "(c + 1) * ?B \<le> rf_width f * ?B" using rc(4) B by (intro mult_right_mono) auto
    then show ?thesis using fr(4) by (simp add: distrib_right)
  qed
  have nn: "0 \<le> c * ?B" "0 \<le> r * ?S" using rc B fr(6) by auto
  have i: "int i = int i div ?S * ?S + int i mod ?S" "int i mod ?S = int i mod ?S div ?B * ?B + int i mod ?S mod ?B" by simp_all
  have lane: "0 \<le> int i mod ?S mod ?B" "int i mod ?S mod ?B < ?B" using B by simp_all
  have to: "int i = pixel_offset f (r, c) + int i mod ?S mod ?B" if "byte_pixel f i = (r, c)"
    using that i by (auto simp: byte_pixel_def pixel_offset_def)
  show "byte_pixel f i = (r, c) \<longleftrightarrow> pixel_offset f (r, c) \<le> int i \<and> int i < pixel_offset f (r, c) + ?B"
  proof
    assume "byte_pixel f i = (r, c)"
    then show "pixel_offset f (r, c) \<le> int i \<and> int i < pixel_offset f (r, c) + ?B" using to lane by auto
  next
    assume a: "pixel_offset f (r, c) \<le> int i \<and> int i < pixel_offset f (r, c) + ?B"
    let ?k = "int i - pixel_offset f (r, c)"
    have e: "int i = (c * ?B + ?k) + r * ?S" by (simp add: pixel_offset_def)
    have k: "0 \<le> ?k" "?k < ?B" using a by auto
    then have x: "0 \<le> c * ?B + ?k" "c * ?B + ?k < ?S" using nn cB by auto
    have "int i div ?S = r" "int i mod ?S = c * ?B + ?k" using x fr(6) by (subst e, simp)+
    moreover have "(c * ?B + ?k) div ?B = c + ?k div ?B" using B by (intro div_mult_self3) simp
    moreover have "?k div ?B = 0" by (rule div_pos_pos_trivial [OF k])
    ultimately show "byte_pixel f i = (r, c)" by (simp add: byte_pixel_def)
  qed
  show "byte_lane f i = nat (int i - pixel_offset f (r, c))" if "byte_pixel f i = (r, c)"
    using to [OF that] by (simp add: byte_lane_def)
  show "0 \<le> pixel_offset f (r, c)" using nn by (simp add: pixel_offset_def)
  have "(r + 1) * ?S \<le> rf_height f * ?S" using rc(2) fr(6) by (intro mult_right_mono) auto
  then have "r * ?S + ?S \<le> ?S * rf_height f" by (simp add: algebra_simps)
  then show "pixel_offset f (r, c) + ?B \<le> int (length (rf_pixels f))"
    using cB fr(5) unfolding pixel_offset_def by simp
qed

lemma nth_splice:
  "0 \<le> k \<Longrightarrow> k + int (length new) \<le> int (length px) \<Longrightarrow> length (splice px k new) = length px \<and>
    (\<forall>i < length px. splice px k new ! i = (if k \<le> int i \<and> int i < k + int (length new) then new ! (nat (int i - k)) else px ! i))"
  by (auto simp: splice_def nth_append nat_diff_distrib nat_less_iff min_def)

definition painted :: "raw_frame \<Rightarrow> (int \<times> int) set \<Rightarrow> byte list \<Rightarrow> byte list" where
  "painted f A px = map (\<lambda>i. if byte_pixel f i \<in> A then blank_pixel (rf_format f) ! byte_lane f i else px ! i) [0..<length px]"

lemma paint_painted:
  assumes "frame_ok f" and "in_frame f pos" and "length px = length (rf_pixels f)"
  shows "paint f pos px = Inr (painted f {pos} px)"
proof -
  obtain r c where pos [simp]: "pos = (r, c)" by (cases pos)
  note pb = pixel_bytes [OF assms(1), of r c]
  have in': "in_frame f (r, c)" using assms(2) by simp
  have len: "pixel_offset f (r, c) + int (length (blank_pixel (rf_format f))) \<le> int (length px)"
    using pb(4) [OF in'] assms(3) by (simp add: length_blank)
  have sp: "splice px (pixel_offset f (r, c)) (blank_pixel (rf_format f)) = painted f {pos} px"
    using nth_splice [OF pb(3) [OF in'] len] pb(1,2) [OF in']
    by (intro nth_equalityI) (simp_all add: painted_def length_blank)
  have "paint f pos px = Inr (splice px (pixel_offset f (r, c)) (blank_pixel (rf_format f)))"
    using pb(3) [OF in'] len
    by (cases "rf_format f") (auto simp: paint_def pixel_offset_def splice_def Let_def upd_conv_take_nth_drop)
  then show ?thesis using sp by simp
qed

lemma painted_compose: "painted f A (painted f B px) = painted f (A \<union> B) px"
  by (auto simp: painted_def)

lemma painted_empty [simp]: "painted f {} px = px" "length (painted f A px) = length px"
  by (simp_all add: painted_def map_nth)

lemma paint_all:
  assumes "frame_ok f" and "\<forall>pos \<in> set ps. in_frame f pos" and "length px = length (rf_pixels f)"
  shows "foldS (paint f) ps px = Inr (painted f (set ps) px)"
  using assms(2,3)
  by (induction ps arbitrary: px) (simp_all add: paint_painted [OF assms(1)] painted_compose insert_is_Un [symmetric])

definition in_region :: "pixel_region \<Rightarrow> int \<times> int \<Rightarrow> bool" where
  "in_region r pos \<longleftrightarrow> rg_y r \<le> fst pos \<and> fst pos < rg_y r + rg_height r \<and> rg_x r \<le> snd pos \<and> snd pos < rg_x r + rg_width r"

definition region_fits :: "raw_frame \<Rightarrow> pixel_region \<Rightarrow> bool" where
  "region_fits f r \<longleftrightarrow> mk_PixelRegion r = Inr r \<and> rg_x r + rg_width r \<le> rf_width f \<and> rg_y r + rg_height r \<le> rf_height f"

lemma region_fitsD: "region_fits f r \<Longrightarrow> in_region r pos \<Longrightarrow> in_frame f pos"
  by (auto simp: region_fits_def in_region_def in_frame_def mk_PixelRegion_def bindS_Inr ensure_Inr)

lemma mask_region_painted:
  assumes "frame_ok f" and "region_fits f r" and "length px = length (rf_pixels f)"
  shows "mask_region f r px = Inr (painted f {pos. in_region r pos} px)"
proof -
  let ?ps = "[(row, column). row \<leftarrow> [rg_y r..rg_y r + rg_height r - 1], column \<leftarrow> [rg_x r..rg_x r + rg_width r - 1]]"
  have ps: "set ?ps = {pos. in_region r pos}" by (auto simp: in_region_def)
  then have "foldS (paint f) ?ps px = Inr (painted f (set ?ps) px)"
    using region_fitsD [OF assms(2)] by (intro paint_all [OF assms(1) _ assms(3)]) auto
  then show ?thesis using assms(2) ps by (simp add: mask_region_def region_fits_def)
qed

lemma mask_regions_painted:
  assumes "frame_ok f" and "\<forall>r \<in> set rs. region_fits f r"
  shows "mask_regions f rs = Inr (painted f {pos. \<exists>r \<in> set rs. in_region r pos} (rf_pixels f))"
proof -
  have "foldS (mask_region f) qs px = Inr (painted f {pos. \<exists>r \<in> set qs. in_region r pos} px)"
    if "set qs \<subseteq> set rs" "length px = length (rf_pixels f)" for qs px
    using that
  proof (induction qs arbitrary: px)
    case (Cons q qs)
    have "{pos. \<exists>r \<in> set qs. in_region r pos} \<union> {pos. in_region q pos} = {pos. \<exists>r \<in> set (q # qs). in_region r pos}" by auto
    then show ?case using Cons assms by (simp add: mask_region_painted painted_compose)
  qed simp
  from this [of "remdups rs" "rf_pixels f"] show ?thesis by (simp add: mask_regions_def)
qed

section \<open>The redactions of the blocks\<close>

definition match_redactions :: "secret_match \<Rightarrow> block_slice \<Rightarrow> block_redaction list" where
  "match_redactions m sl = (let a = max (sm_start m) (bs_start sl); b = min (sm_end m) (bs_end sl) in
     if b \<le> a then [] else [\<lparr>br_start = a - bs_start sl, br_end = b - bs_start sl,
       br_detector_id = sm_detector_id m, br_kind = sm_kind m, br_confidence = sm_confidence m\<rparr>])"

definition confidence_redactions :: "rat \<Rightarrow> block_slice \<Rightarrow> block_redaction list" where
  "confidence_redactions threshold sl = (let b = bs_block sl in
     if ob_text b \<noteq> [] \<and> ob_confidence b < threshold then
       [\<lparr>br_start = 0, br_end = int (length (ob_text b)), br_detector_id = ''low-confidence-ocr'',
         br_kind = POLICY_REDACTION, br_confidence = ob_confidence b\<rparr>]
     else [])"

definition block_redactions :: "rat \<Rightarrow> secret_match list \<Rightarrow> block_slice \<Rightarrow> block_redaction list" where
  "block_redactions threshold ms sl = concat (map (\<lambda>m. match_redactions m sl) ms) @ confidence_redactions threshold sl"

definition slices_of :: "record_uuid \<Rightarrow> block_slice list \<Rightarrow> block_slice list" where
  "slices_of k sls = filter (\<lambda>sl. ob_block_id (bs_block sl) = k) sls"

lemma add_redaction_state:
  "add_redaction b r st = Inr st' \<Longrightarrow>
    st_redactions st' = (st_redactions st)(ob_block_id b := st_redactions st (ob_block_id b) @ [r]) \<and> st_decisions st' = st_decisions st"
  by (auto simp: add_redaction_def bindS_Inr)

text \<open>A pass over the slices that adds \<open>new sl\<close> to the block of each slice \<open>sl\<close>.\<close>

lemma slice_pass:
  assumes "foldS act sls st = Inr st'"
    and "\<And>sl s s'. act sl s = Inr s' \<Longrightarrow>
      (if new sl = [] then s' = s else \<exists>r. new sl = [r] \<and> add_redaction (bs_block sl) r s = Inr s')"
  shows "st_redactions st' k = st_redactions st k @ concat (map new (slices_of k sls))"
  using assms(1)
proof (induction sls arbitrary: st)
  case (Cons sl sls)
  obtain s where s: "act sl st = Inr s" "foldS act sls s = Inr st'" using Cons.prems by (auto simp: bindS_Inr)
  have "st_redactions s k = st_redactions st k @ (if ob_block_id (bs_block sl) = k then new sl else [])"
    using assms(2) [OF s(1)] by (auto split: if_splits dest: add_redaction_state)
  then show ?case using Cons.IH [OF s(2)] by (simp add: slices_of_def)
qed (simp add: slices_of_def)

lemma document_match_pass:
  "apply_document_match sls m st = Inr st' \<Longrightarrow>
    st_redactions st' k = st_redactions st k @ concat (map (match_redactions m) (slices_of k sls))"
  unfolding apply_document_match_def
  by (erule slice_pass) (auto simp: match_redactions_def Let_def split: if_splits)

lemma low_confidence_pass:
  "foldS (low_confidence threshold) sls st = Inr st' \<Longrightarrow>
    st_redactions st' k = st_redactions st k @ concat (map (confidence_redactions threshold) (slices_of k sls))"
  by (erule slice_pass) (auto simp: confidence_redactions_def low_confidence_def Let_def split: if_splits)

lemma matches_pass:
  "foldS (apply_document_match sls) ms st = Inr st' \<Longrightarrow>
    st_redactions st' k = st_redactions st k @ concat (map (\<lambda>m. concat (map (match_redactions m) (slices_of k sls))) ms)"
  by (induction ms arbitrary: st) (auto simp: bindS_Inr dest: document_match_pass [where k = k])

lemma scan_blocks_redactions:
  assumes "scan_blocks lib p blocks = Inr st" and "slices_of k (snd (ocr_document blocks)) = [sl]"
  obtains r where "detector_scan lib (rp_detector p) (fst (ocr_document blocks)) = Inr r"
    "st_redactions st k = block_redactions (low_confidence_threshold (rp_settings p)) (dt_matches r) sl"
proof -
  let ?sls = "snd (ocr_document blocks)"
  obtain r t ds where r: "detector_scan lib (rp_detector p) (fst (ocr_document blocks)) = Inr r"
    "foldS (apply_document_match ?sls) (dt_matches r) \<lparr>st_redactions = (\<lambda>_. []), st_findings = [], st_decisions = []\<rparr> = Inr t"
    "foldS (low_confidence (low_confidence_threshold (rp_settings p))) ?sls (t\<lparr>st_decisions := ds\<rparr>) = Inr st"
    using assms(1) by (auto simp: scan_blocks_def Let_def bindS_Inr)
  show ?thesis
    using r(1) matches_pass [OF r(2), of k] low_confidence_pass [OF r(3), of k] assms(2)
    by (intro that) (auto simp: block_redactions_def)
qed

section \<open>The document\<close>

lemma document_blocks: "map bs_block (snd (document_from first off bs)) = bs"
  by (induction bs arbitrary: first off) (simp_all add: Let_def)

lemma substring_shift: "0 \<le> i \<Longrightarrow> substring (p @ u) (int (length p) + i) (int (length p) + j) = substring u i j"
  by (simp add: substring_def nat_add_distrib)

lemma document_slice:
  "sl \<in> set (snd (document_from first off bs)) \<Longrightarrow>
    off \<le> bs_start sl \<and> bs_end sl = bs_start sl + int (length (ob_text (bs_block sl))) \<and>
    bs_end sl \<le> off + int (length (fst (document_from first off bs))) \<and>
    substring (fst (document_from first off bs)) (bs_start sl - off) (bs_end sl - off) = ob_text (bs_block sl)"
proof (induction bs arbitrary: first off)
  case (Cons b bs)
  define sep where "sep = (if first then [] else newline)"
  define p where "p = sep @ ob_text b"
  define rest where "rest = document_from False (off + int (length p)) bs"
  have doc: "fst (document_from first off (b # bs)) = p @ fst rest" "snd (document_from first off (b # bs)) =
      \<lparr>bs_block = b, bs_start = off + int (length sep), bs_end = off + int (length p)\<rparr> # snd rest"
    by (simp_all add: Let_def sep_def rest_def p_def add.assoc)
  consider "sl = \<lparr>bs_block = b, bs_start = off + int (length sep), bs_end = off + int (length p)\<rparr>" | "sl \<in> set (snd rest)"
    using Cons.prems unfolding doc by auto
  then show ?case
  proof cases
    case 1
    then show ?thesis unfolding doc by (simp add: substring_def p_def)
  next
    case 2
    have ih: "off + int (length p) \<le> bs_start sl" "bs_end sl = bs_start sl + int (length (ob_text (bs_block sl)))"
      "bs_end sl \<le> off + int (length p) + int (length (fst rest))"
      "substring (fst rest) (bs_start sl - (off + int (length p))) (bs_end sl - (off + int (length p))) = ob_text (bs_block sl)"
      using Cons.IH [OF 2 [unfolded rest_def], folded rest_def] by auto
    have "substring (p @ fst rest) (bs_start sl - off) (bs_end sl - off) = ob_text (bs_block sl)"
      using ih(1,4) substring_shift [of "bs_start sl - (off + int (length p))" p "fst rest" "bs_end sl - (off + int (length p))"]
      by (simp add: algebra_simps)
    then show ?thesis unfolding doc using ih(1-3) by simp
  qed
qed simp

lemma filter_key_nth:
  assumes "distinct (map f xs)" and "n < length xs"
  shows "filter (\<lambda>x. f x = f (xs ! n)) xs = [xs ! n]"
proof -
  define x where "x = xs ! n"
  obtain ys zs where xs: "xs = ys @ x # zs" using id_take_nth_drop [OF assms(2)] unfolding x_def by blast
  then have "f x \<notin> f ` set ys" "f x \<notin> f ` set zs" using assms(1) by auto
  then have "filter (\<lambda>y. f y = f x) ys = []" "filter (\<lambda>y. f y = f x) zs = []"
    by (simp_all add: filter_empty_conv) (metis image_eqI)+
  then have "filter (\<lambda>y. f y = f x) xs = [x]" unfolding xs by simp
  then show ?thesis by (simp add: x_def)
qed

definition slice_at :: "ocr_block list \<Rightarrow> nat \<Rightarrow> block_slice" where
  "slice_at blocks i = snd (ocr_document blocks) ! i"

lemma slice_at_block: "i < length blocks \<Longrightarrow> bs_block (slice_at blocks i) = blocks ! i \<and> slice_at blocks i \<in> set (snd (ocr_document blocks))"
  using document_blocks [of True 0 blocks] unfolding slice_at_def ocr_document_def
  by (metis length_map nth_map nth_mem)

lemma slices_of_distinct:
  assumes "distinct (map ob_block_id blocks)" and "i < length blocks"
  shows "slices_of (ob_block_id (blocks ! i)) (snd (ocr_document blocks)) = [slice_at blocks i]"
proof -
  let ?sls = "snd (ocr_document blocks)"
  have b: "map bs_block ?sls = blocks" by (simp add: ocr_document_def document_blocks)
  then have len: "length ?sls = length blocks" by (metis length_map)
  have d: "distinct (map (\<lambda>sl. ob_block_id (bs_block sl)) ?sls)" using assms(1) b by (metis (mono_tags, lifting) comp_apply map_eq_conv map_map)
  have key: "ob_block_id (blocks ! i) = ob_block_id (bs_block (?sls ! i))" using slice_at_block [OF assms(2)] by (simp add: slice_at_def)
  from filter_key_nth [OF d, of i] show ?thesis using assms(2) len key by (simp add: slices_of_def slice_at_def)
qed

section \<open>What the spans of a block are\<close>

text \<open>
  Position \<open>i\<close> of the block at \<open>sl\<close> is sensitive: the document position lies in a match, or the
  whole block was recognised with too little confidence.
\<close>

definition sensitive_position :: "rat \<Rightarrow> secret_match list \<Rightarrow> block_slice \<Rightarrow> nat \<Rightarrow> bool" where
  "sensitive_position threshold ms sl i \<longleftrightarrow>
    (\<exists>m \<in> set ms. sm_start m \<le> bs_start sl + int i \<and> bs_start sl + int i < sm_end m) \<or>
    ob_confidence (bs_block sl) < threshold"

lemma block_redactions_bounds:
  assumes "bs_end sl = bs_start sl + int (length (ob_text (bs_block sl)))" and "r \<in> set (block_redactions t ms sl)"
  shows "0 \<le> br_start r \<and> br_start r < br_end r \<and> br_end r \<le> int (length (ob_text (bs_block sl)))"
  using assms by (auto simp: block_redactions_def match_redactions_def confidence_redactions_def Let_def split: if_splits)

lemma match_redactions_hit:
  assumes "bs_end sl = bs_start sl + int (length (ob_text (bs_block sl)))" and "i < length (ob_text (bs_block sl))"
  shows "(\<exists>r \<in> set (match_redactions m sl). br_start r \<le> int i \<and> int i < br_end r) \<longleftrightarrow>
    sm_start m \<le> bs_start sl + int i \<and> bs_start sl + int i < sm_end m"
  using assms by (auto simp: match_redactions_def Let_def)

lemma block_redactions_hits:
  assumes "bs_end sl = bs_start sl + int (length (ob_text (bs_block sl)))" and "i < length (ob_text (bs_block sl))"
  shows "hits (block_redactions t ms sl) (int i) \<longleftrightarrow> sensitive_position t ms sl i"
proof -
  have "hits (block_redactions t ms sl) (int i) \<longleftrightarrow>
      (\<exists>m \<in> set ms. \<exists>r \<in> set (match_redactions m sl). br_start r \<le> int i \<and> int i < br_end r) \<or>
      (\<exists>r \<in> set (confidence_redactions t sl). br_start r \<le> int i \<and> int i < br_end r)"
    by (auto simp: hits_def block_redactions_def)
  moreover have "(\<exists>r \<in> set (confidence_redactions t sl). br_start r \<le> int i \<and> int i < br_end r) \<longleftrightarrow> ob_confidence (bs_block sl) < t"
    using assms(2) by (auto simp: confidence_redactions_def Let_def)
  ultimately show ?thesis using match_redactions_hit [OF assms] by (simp add: sensitive_position_def)
qed

lemma block_redactions_empty:
  assumes "bs_end sl = bs_start sl + int (length (ob_text (bs_block sl)))"
  shows "block_redactions t ms sl \<noteq> [] \<longleftrightarrow> (\<exists>i < length (ob_text (bs_block sl)). sensitive_position t ms sl i)"
proof
  assume "block_redactions t ms sl \<noteq> []"
  then obtain r where r: "r \<in> set (block_redactions t ms sl)" by (cases "block_redactions t ms sl") auto
  note b = block_redactions_bounds [OF assms r]
  then have "nat (br_start r) < length (ob_text (bs_block sl))" "hits (block_redactions t ms sl) (int (nat (br_start r)))"
    using r by (auto simp: hits_def)
  then show "\<exists>i < length (ob_text (bs_block sl)). sensitive_position t ms sl i" using block_redactions_hits [OF assms] by blast
next
  assume "\<exists>i < length (ob_text (bs_block sl)). sensitive_position t ms sl i"
  then obtain i where i: "i < length (ob_text (bs_block sl))" "sensitive_position t ms sl i" by blast
  then have "hits (block_redactions t ms sl) (int i)" using block_redactions_hits [OF assms i(1)] by blast
  then show "block_redactions t ms sl \<noteq> []" by (auto simp: hits_def)
qed

lemma mask_text_agree:
  "(\<And>j. i \<le> j \<Longrightarrow> j < i + length s \<Longrightarrow> cov j = cov' j) \<Longrightarrow> mask_text cov r i s = mask_text cov' r i s"
  by (induction cov r i s rule: mask_text.induct) auto

theorem block_text_redacted:
  assumes "bs_end sl = bs_start sl + int (length (ob_text (bs_block sl)))"
  shows "replace_spans (ob_text (bs_block sl)) (block_redactions t ms sl) =
    mask_text (sensitive_position t ms sl) False 0 (ob_text (bs_block sl))"
proof -
  have "replace_spans (ob_text (bs_block sl)) (block_redactions t ms sl) =
      mask_text (\<lambda>i. hits (block_redactions t ms sl) (int i)) False 0 (ob_text (bs_block sl))"
    using block_redactions_bounds [OF assms] by (intro replace_spans_mask) blast
  also have "\<dots> = mask_text (sensitive_position t ms sl) False 0 (ob_text (bs_block sl))"
    using block_redactions_hits [OF assms] by (intro mask_text_agree) simp
  finally show ?thesis .
qed

section \<open>Metadata\<close>

definition clean_field :: "detector_lib \<Rightarrow> detector \<Rightarrow> context_field \<Rightarrow> bool" where
  "clean_field lib d f \<longleftrightarrow> sensitive_metadata_name lib (fd_name f) = None \<and>
    (case fd_value f of StrVal s \<Rightarrow> (\<exists>r. detector_scan lib d s = Inr r \<and> dt_matches r = []) | _ \<Rightarrow> True)"

lemma add_findings_retained: "foldS (\<lambda>m. add_finding (g m)) ms st = Inr st' \<Longrightarrow> ms_retained st' = ms_retained st"
  by (induction ms arbitrary: st) (auto simp: bindS_Inr add_finding_def)

lemma judge_field_retained:
  "judge_field lib f ms st = Inr st' \<Longrightarrow>
    ms_retained st' = ms_retained st @ (if sensitive_metadata_name lib (fd_name f) = None \<and> ms = [] then [f] else [])"
  by (auto simp: judge_field_def Let_def bindS_Inr add_finding_def split: if_splits option.splits dest!: add_findings_retained)

lemma redact_field_retained:
  assumes "redact_field lib d f st = Inr st'"
  shows "ms_retained st' = ms_retained st @ (if clean_field lib d f then [f] else [])"
proof -
  obtain det where det: "scan_field lib d f = Inr det" using assms by (auto simp: redact_field_def bindS_Inr)
  obtain t where t: "judge_field lib f (case det of None \<Rightarrow> [] | Some r \<Rightarrow> dt_matches r) st = Inr t" "ms_retained st' = ms_retained t"
    using assms det by (cases det) (auto simp: redact_field_def bindS_Inr)
  have "clean_field lib d f \<longleftrightarrow>
      sensitive_metadata_name lib (fd_name f) = None \<and> (case det of None \<Rightarrow> [] | Some r \<Rightarrow> dt_matches r) = []"
    using det by (auto simp: clean_field_def scan_field_def bindS_Inr split: scalar.splits)
  then show ?thesis using judge_field_retained [OF t(1)] t(2) by simp
qed

lemma redact_fields_retained:
  "foldS (redact_field lib d) xs s = Inr s' \<Longrightarrow> ms_retained s' = ms_retained s @ filter (clean_field lib d) xs"
  by (induction xs arbitrary: s) (auto simp: bindS_Inr dest!: redact_field_retained)

section \<open>Redaction succeeds on valid input\<close>

lemma lower_not_space: "is_lower c \<Longrightarrow> \<not> is_space c"
  by (auto simp: is_lower_def is_space_def)

lemma lower_identifier_nonempty: "lower_identifier A s \<Longrightarrow> nonempty s"
  by (auto simp: lower_identifier_def intro!: nonempty_hd dest: lower_not_space)

lemma detector_id_nonempty: "detector_id_ok i \<Longrightarrow> nonempty i"
  by (auto simp: detector_id_ok_def intro: lower_identifier_nonempty)

lemma scan_id_nonempty:
  assumes "detector_ok lib d" and "scan_id d i"
  shows "nonempty i"
proof -
  have "nonempty (''encoded:'' @ j)" for j by (rule nonempty_hd) (simp_all add: char_eval)
  then show ?thesis using assms detector_id_nonempty high_entropy_id unfolding scan_id_def detector_ok_def by blast
qed

lemma add_redaction_total:
  "nonempty (br_detector_id r) \<Longrightarrow> 0 \<le> br_start r \<Longrightarrow> br_start r < br_end r \<Longrightarrow> \<exists>st'. add_redaction b r st = Inr st'"
  by (simp add: add_redaction_def findings_for_block_def mk_TextSpan_def mk_RedactionFinding_def Let_def)

lemma apply_match_total:
  assumes "detector_id_ok (sm_detector_id m)"
  shows "\<exists>st'. apply_document_match sls m st = Inr st' \<and> True"
  unfolding apply_document_match_def
  by (rule foldS_total) (auto simp: Let_def intro!: add_redaction_total detector_id_nonempty [OF assms])

lemma low_confidence_total: "\<exists>st'. low_confidence t sl st = Inr st'"
proof -
  have "nonempty ''low-confidence-ocr''" by (rule nonempty_hd) (simp_all add: char_eval)
  then show ?thesis by (auto simp: low_confidence_def Let_def intro!: add_redaction_total)
qed

lemma add_decisions_total:
  assumes "\<forall>m \<in> set ms. nonempty (am_detector_id m) \<and> nonempty (am_allowlist_id m) \<and> digest_ok (am_digest m)"
    and "target = TARGET_METADATA \<and> (\<exists>n. name = Some n \<and> nonempty n) \<or> target \<noteq> TARGET_METADATA \<and> name = None"
  shows "\<exists>ds'. foldS (add_decision target name) ms ds = Inr ds' \<and> True"
proof (rule foldS_total, rule TrueI)
  fix m ds assume "m \<in> set ms"
  then have "nonempty (am_detector_id m)" "nonempty (am_allowlist_id m)" "digest_ok (am_digest m)" using assms(1) by blast+
  then show "\<exists>s'. add_decision target name m ds = Inr s' \<and> True"
    using assms(2) by (cases target) (auto simp: add_decision_def mk_AllowlistDecision_def opt_ok_def)
qed

definition digests_ok :: "detector_lib \<Rightarrow> bool" where
  "digests_ok lib \<longleftrightarrow> (\<forall>s. digest_ok (sha256_hex lib s))"

definition policy_ok :: "detector_lib \<Rightarrow> detector \<Rightarrow> bool" where
  "policy_ok lib d \<longleftrightarrow> detector_lib_ok lib \<and> digests_ok lib \<and> detector_ok lib d \<and> (\<forall>i. \<forall>(a, v) \<in> set (dd_allowlists d i). nonempty a)"

lemma policy_scan:
  assumes "policy_ok lib d"
  obtains r where "detector_scan lib d s = Inr r" "\<forall>m \<in> set (dt_matches r). detector_id_ok (sm_detector_id m)"
    "\<forall>m \<in> set (dt_allowlisted r). nonempty (am_detector_id m) \<and> nonempty (am_allowlist_id m) \<and> digest_ok (am_digest m)"
proof -
  have ok: "detector_lib_ok lib" "detector_ok lib d" "spans_within lib" using assms by (auto simp: policy_ok_def detector_lib_ok_def)
  obtain r where r: "detector_scan lib d s = Inr r" using detector_scan_total [OF ok(1,2)] by blast
  have "\<forall>m \<in> set (dt_matches r). detector_id_ok (sm_detector_id m)"
    using detector_scan_bounds [OF ok(3) r] by (auto simp: match_ok_def list_all_iff)
  moreover have "nonempty (am_detector_id m) \<and> nonempty (am_allowlist_id m) \<and> digest_ok (am_digest m)"
    if "m \<in> set (dt_allowlisted r)" for m
  proof -
    have "allowlisted_ok m lib d" using detector_scan_allowlisted [OF ok(3) r] that by blast
    then obtain i v c where m: "scan_id d (am_detector_id m)" "(am_allowlist_id m, v) \<in> set (dd_allowlists d i)"
      "am_digest m = sha256_hex lib c" by (auto simp: allowlisted_ok_def)
    have "nonempty (am_allowlist_id m)" using assms m(2) unfolding policy_ok_def by blast
    then show ?thesis using scan_id_nonempty [OF ok(2) m(1)] m(3) assms by (simp add: policy_ok_def digests_ok_def)
  qed
  ultimately show ?thesis using that r by blast
qed

lemma scan_blocks_total:
  assumes "policy_ok lib (rp_detector p)"
  shows "\<exists>st. scan_blocks lib p blocks = Inr st"
proof -
  obtain r where r: "detector_scan lib (rp_detector p) (fst (ocr_document blocks)) = Inr r"
    "\<forall>m \<in> set (dt_matches r). detector_id_ok (sm_detector_id m)"
    "\<forall>m \<in> set (dt_allowlisted r). nonempty (am_detector_id m) \<and> nonempty (am_allowlist_id m) \<and> digest_ok (am_digest m)"
    by (rule policy_scan [OF assms])
  let ?sls = "snd (ocr_document blocks)"
  have "\<exists>t. foldS (apply_document_match ?sls) (dt_matches r) st0 = Inr t \<and> True" for st0
    using r(2) by (intro foldS_total apply_match_total) auto
  then obtain t where t: "foldS (apply_document_match ?sls) (dt_matches r) \<lparr>st_redactions = (\<lambda>_. []), st_findings = [], st_decisions = []\<rparr> = Inr t"
    by blast
  obtain ds where ds: "foldS (add_decision TARGET_OCR_TEXT None) (dt_allowlisted r) [] = Inr ds"
    using add_decisions_total [OF r(3), of TARGET_OCR_TEXT None "[]"] by auto
  have "\<exists>u. foldS (low_confidence x) ?sls s = Inr u \<and> True" for x s
    by (intro foldS_total) (auto intro: low_confidence_total)
  then show ?thesis using r(1) t ds by (simp add: scan_blocks_def)
qed

lemma metadata_finding_total: "nonempty n \<Longrightarrow> nonempty i \<Longrightarrow> \<exists>f. metadata_finding n i k c = Inr f"
  by (simp add: metadata_finding_def mk_RedactionFinding_def opt_ok_def)

lemma sensitive_name_id: "sensitive_metadata_name lib n = Some (i, k) \<Longrightarrow> nonempty i"
proof -
  assume "sensitive_metadata_name lib n = Some (i, k)"
  then obtain e where "(e, i, k) \<in> set SENSITIVE_METADATA_NAMES"
    by (auto simp: sensitive_metadata_name_def find_Some_iff) (metis nth_mem)
  moreover have "\<forall>x \<in> set SENSITIVE_METADATA_NAMES. nonempty (fst (snd x))"
    unfolding SENSITIVE_METADATA_NAMES_def by (simp add: nonempty_hd char_eval)
  ultimately show "nonempty i" by force
qed

lemma judge_field_total:
  assumes "nonempty (fd_name f)" and "\<forall>m \<in> set ms. nonempty (sm_detector_id m)"
  shows "\<exists>st'. judge_field lib f ms st = Inr st'"
proof -
  have add: "\<exists>st'. add_finding (metadata_finding (fd_name f) i k c) st = Inr st' \<and> True" if "nonempty i" for i k c st
    using metadata_finding_total [OF assms(1) that, of k c] by (auto simp: add_finding_def)
  obtain t where t: "(case sensitive_metadata_name lib (fd_name f) of None \<Rightarrow> Inr st
      | Some (i, k) \<Rightarrow> add_finding (metadata_finding (fd_name f) i k 1) st) = Inr t"
    using add sensitive_name_id by (cases "sensitive_metadata_name lib (fd_name f)") fastforce+
  have "\<exists>v. foldS (\<lambda>m. add_finding (metadata_finding (fd_name f) (sm_detector_id m) (sm_kind m) (sm_confidence m))) ms t = Inr v \<and> True"
    using assms(2) by (intro foldS_total add) auto
  then show ?thesis unfolding judge_field_def Let_def t by auto
qed

lemma scan_field_total:
  assumes "policy_ok lib d"
  obtains "scan_field lib d f = Inr None"
  | r where "scan_field lib d f = Inr (Some r)" "\<forall>m \<in> set (dt_matches r). nonempty (sm_detector_id m)"
    "\<forall>m \<in> set (dt_allowlisted r). nonempty (am_detector_id m) \<and> nonempty (am_allowlist_id m) \<and> digest_ok (am_digest m)"
proof (cases "fd_value f")
  case (StrVal s)
  obtain r where "detector_scan lib d s = Inr r" "\<forall>m \<in> set (dt_matches r). detector_id_ok (sm_detector_id m)"
    "\<forall>m \<in> set (dt_allowlisted r). nonempty (am_detector_id m) \<and> nonempty (am_allowlist_id m) \<and> digest_ok (am_digest m)"
    by (rule policy_scan [OF assms])
  then show ?thesis using that(2) [of r] StrVal by (auto simp: scan_field_def intro: detector_id_nonempty)
qed (use that(1) in \<open>auto simp: scan_field_def\<close>)

lemma redact_field_total:
  assumes "policy_ok lib d" and "nonempty (fd_name f)"
  shows "\<exists>st'. redact_field lib d f st = Inr st' \<and> True"
proof (rule scan_field_total [OF assms(1), of f])
  assume "scan_field lib d f = Inr None"
  then show ?thesis using judge_field_total [OF assms(2), of "[]" lib st] by (auto simp: redact_field_def)
next
  fix r assume r: "scan_field lib d f = Inr (Some r)" "\<forall>m \<in> set (dt_matches r). nonempty (sm_detector_id m)"
    "\<forall>m \<in> set (dt_allowlisted r). nonempty (am_detector_id m) \<and> nonempty (am_allowlist_id m) \<and> digest_ok (am_digest m)"
  obtain t where t: "judge_field lib f (dt_matches r) st = Inr t" using judge_field_total [OF assms(2) r(2)] by blast
  obtain ds where "foldS (add_decision TARGET_METADATA (Some (fd_name f))) (dt_allowlisted r) (ms_decisions t) = Inr ds"
    using add_decisions_total [OF r(3), of TARGET_METADATA "Some (fd_name f)" "ms_decisions t"] assms(2) by auto
  then show ?thesis using r(1) t by (simp add: redact_field_def)
qed

lemma redact_metadata_total:
  assumes "policy_ok lib d" and "context_metadata_ok m"
  shows "\<exists>fs ds. redact_metadata lib d m = Inr (m\<lparr>md_fields := filter (clean_field lib d) (md_fields m)\<rparr>, fs, ds)"
proof -
  have names: "\<forall>f \<in> set (md_fields m). nonempty (fd_name f)"
    using assms(2) by (auto simp: context_metadata_ok_def list_all_iff context_field_ok_def is_identifier_def
        intro!: nonempty_hd dest: lower_not_space)
  have "\<exists>st'. foldS (redact_field lib d) (md_fields m) st = Inr st' \<and> True" for st
    using names by (intro foldS_total redact_field_total [OF assms(1)]) auto
  then obtain st where st: "foldS (redact_field lib d) (md_fields m) \<lparr>ms_retained = [], ms_findings = [], ms_decisions = []\<rparr> = Inr st"
    by blast
  have "distinct (map fd_name (filter (clean_field lib d) (md_fields m)))" "is_aware (md_observed_at m)"
    using assms(2) by (auto simp: context_metadata_ok_def intro: distinct_map_filter)
  then show ?thesis using st redact_fields_retained [OF st] by (simp add: redact_metadata_def mk_ContextMetadata_def)
qed
section \<open>The guarantees\<close>

lemma settings_policy_ok:
  assumes "detector_lib_ok lib" and "digests_ok lib" and "redaction_settings_ok plib rs" and "custom_never_empty lib rs"
  shows "policy_ok lib (settings_detector rs)"
proof -
  have "\<forall>a \<in> set (rd_allowlists rs). nonempty (al_id a)"
    using assms(3) by (auto simp: redaction_settings_ok_def list_all_iff allowlist_ok_def intro: lower_identifier_nonempty)
  then show ?thesis
    using assms settings_detector_ok [OF assms(1,3,4)]
    by (auto simp: policy_ok_def settings_detector_def mk_detector_def index_allowlists_def)
qed

lemma revision_nonempty: "revision_pattern r \<Longrightarrow> nonempty r"
  by (rule nonempty_hd; cases r) (auto simp: revision_pattern_def len_between_def char_eval)

text \<open>A request the policy can serve: a valid frame and the recognised blocks that belong to it.\<close>

definition request_ok :: "redaction_request \<Rightarrow> bool" where
  "request_ok req \<longleftrightarrow> frame_ok (rq_frame req) \<and> or_frame_id (rq_ocr req) = rf_frame_id (rq_frame req) \<and>
    (\<forall>b \<in> set (or_blocks (rq_ocr req)). region_fits (rq_frame req) (ob_region b)) \<and>
    distinct (map ob_block_id (or_blocks (rq_ocr req))) \<and> context_metadata_ok (rf_metadata (rq_frame req))"

lemma ocr_document_slice:
  "i < length blocks \<Longrightarrow>
    bs_end (slice_at blocks i) = bs_start (slice_at blocks i) + int (length (ob_text (bs_block (slice_at blocks i))))"
  using slice_at_block [of i blocks] document_slice [of _ True 0 blocks] by (auto simp: ocr_document_def)

lemma spans_of_block:
  assumes "scan_blocks lib p blocks = Inr st" and "distinct (map ob_block_id blocks)" and "i < length blocks"
    and "detector_scan lib (rp_detector p) (fst (ocr_document blocks)) = Inr r"
  shows "spans_of st (blocks ! i) = block_redactions (low_confidence_threshold (rp_settings p)) (dt_matches r) (slice_at blocks i)"
  by (rule scan_blocks_redactions [OF assms(1) slices_of_distinct [OF assms(2,3)]]) (use assms(4) in \<open>simp add: spans_of_def\<close>)

text \<open>The pixels to blank: those in the region of a block with a sensitive position.\<close>

definition sensitive_pixels :: "rat \<Rightarrow> secret_match list \<Rightarrow> ocr_block list \<Rightarrow> (int \<times> int) set" where
  "sensitive_pixels threshold ms blocks = {pos. \<exists>i < length blocks. in_region (ob_region (blocks ! i)) pos \<and>
    (\<exists>j < length (ob_text (blocks ! i)). sensitive_position threshold ms (slice_at blocks i) j)}"

lemma bex_nth: "(\<exists>x \<in> set xs. P x) \<longleftrightarrow> (\<exists>i < length xs. P (xs ! i))"
  by (metis in_set_conv_nth)

lemma masked_blocks:
  assumes "scan_blocks lib p blocks = Inr st" and "distinct (map ob_block_id blocks)"
    and "detector_scan lib (rp_detector p) (fst (ocr_document blocks)) = Inr r" and "frame_ok f"
    and "\<forall>b \<in> set blocks. region_fits f (ob_region b)"
  defines "t \<equiv> low_confidence_threshold (rp_settings p)"
  shows "mask_regions f (map ob_region (filter (\<lambda>b. spans_of st b \<noteq> []) blocks)) =
      Inr (painted f (sensitive_pixels t (dt_matches r) blocks) (rf_pixels f))"
    and "map (\<lambda>b. replace_spans (ob_text b) (spans_of st b)) blocks =
      map (\<lambda>i. mask_text (sensitive_position t (dt_matches r) (slice_at blocks i)) False 0 (ob_text (blocks ! i))) [0..<length blocks]"
proof -
  have spans: "spans_of st (blocks ! i) = block_redactions t (dt_matches r) (slice_at blocks i)" if "i < length blocks" for i
    using spans_of_block [OF assms(1,2) that assms(3)] by (simp add: t_def)
  have blk: "bs_block (slice_at blocks i) = blocks ! i" if "i < length blocks" for i using slice_at_block [OF that] by simp
  have empty: "spans_of st (blocks ! i) \<noteq> [] \<longleftrightarrow>
      (\<exists>j < length (ob_text (blocks ! i)). sensitive_position t (dt_matches r) (slice_at blocks i) j)" if "i < length blocks" for i
    using spans [OF that] block_redactions_empty [OF ocr_document_slice [OF that], of t "dt_matches r"] blk [OF that] by simp
  have "{pos. \<exists>q \<in> set (map ob_region (filter (\<lambda>b. spans_of st b \<noteq> []) blocks)). in_region q pos} =
      {pos. \<exists>b \<in> set blocks. spans_of st b \<noteq> [] \<and> in_region (ob_region b) pos}" by auto
  also have "\<dots> = sensitive_pixels t (dt_matches r) blocks"
    unfolding bex_nth sensitive_pixels_def by (rule Collect_cong, rule ex_cong1) (use empty in blast)
  finally have area: "{pos. \<exists>q \<in> set (map ob_region (filter (\<lambda>b. spans_of st b \<noteq> []) blocks)). in_region q pos} =
      sensitive_pixels t (dt_matches r) blocks" .
  have fit: "\<forall>q \<in> set (map ob_region (filter (\<lambda>b. spans_of st b \<noteq> []) blocks)). region_fits f q" using assms(5) by auto
  show "mask_regions f (map ob_region (filter (\<lambda>b. spans_of st b \<noteq> []) blocks)) =
      Inr (painted f (sensitive_pixels t (dt_matches r) blocks) (rf_pixels f))"
    using mask_regions_painted [OF assms(4) fit] unfolding area .
  show "map (\<lambda>b. replace_spans (ob_text b) (spans_of st b)) blocks =
      map (\<lambda>i. mask_text (sensitive_position t (dt_matches r) (slice_at blocks i)) False 0 (ob_text (blocks ! i))) [0..<length blocks]"
  proof (rule nth_equalityI)
    fix i assume "i < length (map (\<lambda>b. replace_spans (ob_text b) (spans_of st b)) blocks)"
    then have i: "i < length blocks" by simp
    show "map (\<lambda>b. replace_spans (ob_text b) (spans_of st b)) blocks ! i =
        map (\<lambda>i. mask_text (sensitive_position t (dt_matches r) (slice_at blocks i)) False 0 (ob_text (blocks ! i))) [0..<length blocks] ! i"
      using i spans [OF i] blk [OF i] block_text_redacted [OF ocr_document_slice [OF i], of t "dt_matches r"] by simp
  qed simp
qed

lemma painted_frame_ok:
  "frame_ok f \<Longrightarrow> validate_frame (rf_captured_at f) (rf_width f) (rf_height f) (rf_stride f) (rf_format f) (painted f A (rf_pixels f)) = Inr ()"
  using frame_okD [of f] by (simp add: validate_frame_def)


definition sample_request :: redaction_request where
  "sample_request = \<lparr>rq_frame = \<lparr>rf_frame_id = 1, rf_generation = CaptureGeneration 1, rf_captured_at = Aware 0, rf_width = 2,
       rf_height = 1, rf_stride = 2, rf_format = GRAY8, rf_pixels = [7, 9], rf_metadata = \<lparr>md_observed_at = Aware 0, md_fields = []\<rparr>\<rparr>,
     rq_ocr = \<lparr>or_frame_id = 1, or_blocks = [\<lparr>ob_block_id = 5, ob_frame_id = 1, ob_text = aws_key, ob_confidence = 1,
       ob_region = \<lparr>rg_x = 0, rg_y = 0, rg_width = 1, rg_height = 1\<rparr>\<rparr>]\<rparr>,
     rq_policy_revision = ''builtin-v1''\<rparr>"

lemma aws_scan: "detector_scan aws_lib (settings_detector (cf_redaction safe_default)) aws_key =
    Inr \<lparr>dt_matches = [\<lparr>sm_detector_id = ''aws-access-key'', sm_kind = API_TOKEN, sm_start = 0, sm_end = 20, sm_confidence = 1,
      sm_text = aws_key\<rparr>], dt_allowlisted = []\<rparr>"
  by code_simp


lemma as_redaction_failure_cases:
  "as_redaction_failure r = Inr x \<longleftrightarrow> r = Inr x" "as_redaction_failure r = Inl exc \<Longrightarrow> \<exists>c. exc = RedactionFailure c"
  by (auto simp: as_redaction_failure_def split: sum.splits exn.splits)

lemma as_redaction_failure_Inr [simp]: "as_redaction_failure (Inr x) = Inr x"
  by (simp add: as_redaction_failure_def)

lemma redact_body_id: "redact_body lib p req = Inr rec \<Longrightarrow> xr_record_id rec = rf_frame_id (rq_frame req)"
  by (auto simp: redact_body_def Let_def bindS_Inr mk_RedactedRecord_def)

text \<open>
  A record is only ever produced by an enabled policy, for the request's own frame and
  revision; every failure is a redaction failure, never another exception.
\<close>

theorem redaction_fails_closed:
  "case redact lib p req of
     Inl exc \<Rightarrow> (\<exists>c. exc = RedactionFailure c)
   | Inr rec \<Rightarrow> rd_enabled (rp_settings p) \<and> deterministic_required (rp_settings p) \<and> fail_on_uncertain (rp_settings p) \<and>
       rq_policy_revision req = rd_policy_revision (rp_settings p) \<and> or_frame_id (rq_ocr req) = rf_frame_id (rq_frame req) \<and>
       xr_record_id rec = rf_frame_id (rq_frame req)"
proof (cases "redact lib p req")
  case (Inl exc)
  then have "\<exists>c. exc = RedactionFailure c"
    using as_redaction_failure_cases(2) [of "redact_body lib p req"] by (auto simp: redact_def bindS_def ensure_def split: if_splits)
  then show ?thesis using Inl by simp
next
  case (Inr rec)
  then show ?thesis by (auto simp: redact_def bindS_Inr ensure_Inr as_redaction_failure_cases(1) intro: redact_body_id)
qed

end
