(* ===== verification/Time_Scope.thy ===== *)
theory Time_Scope
  imports Redaction_Policy
begin

text \<open>
  Time scopes of questions (\<^verbatim>\<open>src/local_recall/retrieval/time.py\<close>): the expressions \<open>today\<close>, \<open>yesterday\<close>, a
  weekday, a date or \<open>last N minutes\<close> and the range each stands for. The fixed regular expressions are
  written with matchers that follow the backtracking order of Python's \<open>re\<close>; a time zone is a
  parameter: the local day of an instant and the instant at which a local day starts. Days are counted
  from the first of January 1970.
\<close>

section \<open>Words\<close>

text \<open>\<^verbatim>\<open>str.split()\<close> and \<^verbatim>\<open>" ".join\<close>.\<close>

fun split_words :: "string \<Rightarrow> string \<Rightarrow> string list" where
  "split_words w [] = (if w = [] then [] else [w])"
| "split_words w (c # s) = (if is_space c then (if w = [] then split_words [] s else w # split_words [] s)
     else split_words (w @ [c]) s)"

fun join_words :: "string list \<Rightarrow> string" where
  "join_words [] = []"
| "join_words [w] = w"
| "join_words (w # ws) = w @ '' '' @ join_words ws"

definition normalize_spaces :: "string \<Rightarrow> string" where
  "normalize_spaces s = join_words (split_words [] s)"

section \<open>Matchers\<close>

text \<open>
  A matcher gives the end positions of its matches that start at a position, in the order in which
  the backtracking search tries them. Letters are compared without case.
\<close>

type_synonym matcher = "string \<Rightarrow> nat \<Rightarrow> nat list"

definition is_word :: "char \<Rightarrow> bool" where
  "is_word c \<longleftrightarrow> is_alnum c \<or> c = CHR ''_''"

definition word_at :: "string \<Rightarrow> nat \<Rightarrow> bool" where
  "word_at s i \<longleftrightarrow> i < length s \<and> is_word (s ! i)"

definition m_boundary :: matcher where
  "m_boundary s i = (if (0 < i \<and> word_at s (i - 1)) \<noteq> word_at s i then [i] else [])"

definition m_lit :: "string \<Rightarrow> matcher" where
  "m_lit w s i = (if casefold (take (length w) (drop i s)) = w then [i + length w] else [])"

definition m_alt :: "matcher list \<Rightarrow> matcher" where
  "m_alt ms s i = concat (map (\<lambda>m. m s i) ms)"

primrec m_seq :: "matcher list \<Rightarrow> matcher" where
  "m_seq [] s i = [i]"
| "m_seq (m # ms) s i = concat (map (m_seq ms s) (m s i))"

definition m_class :: "nat \<Rightarrow> nat \<Rightarrow> (char \<Rightarrow> bool) \<Rightarrow> matcher" where
  "m_class lo hi P s i = map (\<lambda>k. i + k) (rev [lo..<Suc (min hi (length (takeWhile P (drop i s))))])"

definition m_look :: "matcher \<Rightarrow> matcher" where
  "m_look m s i = (if m s i = [] then [] else [i])"

text \<open>\<open>$\<close>: the end of the text, or before a newline that ends it.\<close>

definition m_end :: matcher where
  "m_end s i = (if i = length s \<or> Suc i = length s \<and> s ! i = CHR 0x0A then [i] else [])"

function finditer_from :: "matcher \<Rightarrow> string \<Rightarrow> nat \<Rightarrow> (nat \<times> nat) list" where
  "finditer_from m s i = (if length s < i then [] else
     case m s i of [] \<Rightarrow> finditer_from m s (Suc i) | e # _ \<Rightarrow> (i, e) # finditer_from m s (max (Suc i) e))"
  by pat_completeness auto
termination by (relation "measure (\<lambda>(m, s, i). Suc (length s) - i)") auto

definition m_finditer :: "matcher \<Rightarrow> string \<Rightarrow> (nat \<times> nat) list" where
  "m_finditer m s = finditer_from m s 0"

definition m_fullmatch :: "matcher \<Rightarrow> string \<Rightarrow> bool" where
  "m_fullmatch m s \<longleftrightarrow> length s \<in> set (m s 0)"

definition cut_text :: "string \<Rightarrow> nat \<times> nat \<Rightarrow> string" where
  "cut_text s sp = take (snd sp - fst sp) (drop (fst sp) s)"

definition WEEKDAYS :: "string list" where
  "WEEKDAYS = [''monday'', ''tuesday'', ''wednesday'', ''thursday'', ''friday'', ''saturday'', ''sunday'']"

definition weekday_names :: matcher where
  "weekday_names = m_alt (map m_lit WEEKDAYS)"

definition nonzero_digit :: "char \<Rightarrow> bool" where
  "nonzero_digit c \<longleftrightarrow> is_digit c \<and> c \<noteq> CHR ''0''"

definition duration_body :: matcher where
  "duration_body = m_seq [m_lit ''last '', m_class 1 1 nonzero_digit, m_class 0 3 is_digit, m_lit '' '',
     m_alt (map m_lit [''minute'', ''minutes'', ''hour'', ''hours'', ''day'', ''days''])]"

definition date_body :: matcher where
  "date_body = m_seq [m_class 4 4 is_digit, m_lit ''-'', m_class 2 2 is_digit, m_lit ''-'', m_class 2 2 is_digit]"

definition DURATION_PATTERN :: matcher where
  "DURATION_PATTERN = m_seq [m_boundary, duration_body, m_boundary]"

definition DATE_PATTERN :: matcher where
  "DATE_PATTERN = m_seq [m_boundary, date_body, m_boundary]"

definition WEEKDAY_PATTERN :: matcher where
  "WEEKDAY_PATTERN = m_seq [m_boundary, weekday_names, m_boundary]"

definition m_spaces :: matcher where
  "m_spaces s = m_class 1 (length s) is_space s"

definition DIRECTIONAL_WEEKDAY_PATTERN :: matcher where
  "DIRECTIONAL_WEEKDAY_PATTERN =
    m_seq [m_boundary, m_alt (map m_lit [''last'', ''next'', ''this'']), m_spaces, weekday_names, m_boundary]"

definition RELATIVE_DAY_PATTERN :: matcher where
  "RELATIVE_DAY_PATTERN = m_seq [m_boundary, m_alt (map m_lit [''today'', ''yesterday'']), m_boundary]"

section \<open>Ranges\<close>

record zone =
  zn_day :: "int \<Rightarrow> int"
  zn_midnight :: "int \<Rightarrow> int"

record time_range =
  tr_start :: datetime
  tr_end :: datetime

definition mk_ResolvedTimeRange :: "datetime \<Rightarrow> datetime \<Rightarrow> exn + time_range" where
  "mk_ResolvedTimeRange a b =
    bindS (ensure (is_aware a) (ValueError ''start_at must be timezone-aware'')) (\<lambda>_.
    bindS (ensure (is_aware b) (ValueError ''end_at must be timezone-aware'')) (\<lambda>_.
    bindS (ensure (instant a < instant b) (ValueError ''time range end must be later than start'')) (\<lambda>_.
    Inr \<lparr>tr_start = a, tr_end = b\<rparr>)))"

text \<open>The last day a date can hold, the 31st of December 9999; the day after it overflows.\<close>

definition LAST_DAY :: int where
  "LAST_DAY = 2932896"

definition calendar_day :: "zone \<Rightarrow> int \<Rightarrow> exn + time_range" where
  "calendar_day z day =
    bindS (ensure (day < LAST_DAY) (RuntimeError ''OverflowError'')) (\<lambda>_.
    mk_ResolvedTimeRange (Aware (zn_midnight z day)) (Aware (zn_midnight z (day + 1))))"

definition weekday_of :: "int \<Rightarrow> int" where
  "weekday_of day = (day + 3) mod 7"

fun index_of :: "'a \<Rightarrow> 'a list \<Rightarrow> nat option" where
  "index_of x [] = None"
| "index_of x (y # ys) = (if x = y then Some 0 else map_option Suc (index_of x ys))"

definition parse_int :: "string \<Rightarrow> int" where
  "parse_int s = foldl (\<lambda>n c. 10 * n + (int (char_code c) - 48)) 0 s"

definition leap_year :: "int \<Rightarrow> bool" where
  "leap_year y \<longleftrightarrow> y mod 4 = 0 \<and> (y mod 100 \<noteq> 0 \<or> y mod 400 = 0)"

definition month_lengths :: "int \<Rightarrow> int list" where
  "month_lengths y = [31, if leap_year y then 29 else 28, 31, 30, 31, 30, 31, 31, 30, 31, 30, 31]"

text \<open>\<^verbatim>\<open>date.fromisoformat\<close> on a text of the form \<open>YYYY-MM-DD\<close>.\<close>

definition parse_date :: "string \<Rightarrow> int option" where
  "parse_date s = (let y = parse_int (take 4 s); m = parse_int (take 2 (drop 5 s)); d = parse_int (take 2 (drop 8 s)) in
     if 1 \<le> y \<and> 1 \<le> m \<and> m \<le> 12 \<and> 1 \<le> d \<and> d \<le> month_lengths y ! nat (m - 1)
     then Some (365 * (y - 1) + (y - 1) div 4 - (y - 1) div 100 + (y - 1) div 400 +
       sum_list (take (nat (m - 1)) (month_lengths y)) + d - 719163)
     else None)"

definition MICROS :: int where
  "MICROS = 1000000"

definition unit_micros :: "string \<Rightarrow> int" where
  "unit_micros u = (if startswith u ''minute'' then 60 * MICROS else if startswith u ''hour'' then 3600 * MICROS else 86400 * MICROS)"

definition resolve_selector :: "string \<Rightarrow> int \<Rightarrow> zone \<Rightarrow> exn + time_range" where
  "resolve_selector selector now z =
    (if selector = ''today'' then calendar_day z (zn_day z now)
     else if selector = ''yesterday'' then calendar_day z (zn_day z now - 1)
     else case index_of selector WEEKDAYS of
       Some i \<Rightarrow> calendar_day z (zn_day z now - (weekday_of (zn_day z now) - int i) mod 7)
     | None \<Rightarrow>
         if m_fullmatch DATE_PATTERN selector then
           (case parse_date selector of None \<Rightarrow> Inl (ValueError ''unsupported time expression'') | Some day \<Rightarrow> calendar_day z day)
         else if m_fullmatch DURATION_PATTERN selector then
           (let ws = split_on (CHR '' '') selector in
            mk_ResolvedTimeRange (Aware (now - parse_int (ws ! 1) * unit_micros (casefold (ws ! 2)))) (Aware now))
         else Inl (ValueError ''unsupported time expression''))"

definition exact_selector :: "string \<Rightarrow> string option" where
  "exact_selector e = (if e \<in> set ([''today'', ''yesterday''] @ WEEKDAYS) then Some e
     else if m_fullmatch DATE_PATTERN e then Some e
     else if m_fullmatch DURATION_PATTERN e then Some e else None)"

definition selector_candidates :: "string \<Rightarrow> (nat \<times> nat \<times> string) list" where
  "selector_candidates e = concat (map (\<lambda>m. map (\<lambda>sp. (fst sp, snd sp, casefold (cut_text e sp))) (m_finditer m e))
     [DURATION_PATTERN, DATE_PATTERN, RELATIVE_DAY_PATTERN, WEEKDAY_PATTERN])"

fun keep_disjoint :: "(nat \<times> nat \<times> string) list \<Rightarrow> (nat \<times> nat \<times> string) list \<Rightarrow> (nat \<times> nat \<times> string) list" where
  "keep_disjoint kept [] = kept"
| "keep_disjoint kept (c # cs) = (if kept \<noteq> [] \<and> fst c < fst (snd (last kept)) then keep_disjoint kept cs
     else keep_disjoint (kept @ [c]) cs)"

definition extract_selector :: "string \<Rightarrow> exn + string" where
  "extract_selector e =
    bindS (ensure (m_finditer DIRECTIONAL_WEEKDAY_PATTERN e = []) (ValueError ''unsupported time expression'')) (\<lambda>_.
    case exact_selector e of
      Some x \<Rightarrow> Inr x
    | None \<Rightarrow> (case keep_disjoint [] (sort (selector_candidates e)) of
        [(_, _, x)] \<Rightarrow> Inr x
      | _ \<Rightarrow> Inl (ValueError ''unsupported or ambiguous time expression'')))"

definition resolve_time_range :: "(string \<Rightarrow> zone option) \<Rightarrow> string \<Rightarrow> datetime \<Rightarrow> string \<Rightarrow> exn + time_range" where
  "resolve_time_range zones expression now timezone =
    bindS (ensure (is_aware now) (ValueError ''now must be timezone-aware'')) (\<lambda>_.
    let normalized = normalize_spaces (casefold (strip expression)) in
    bindS (ensure (normalized \<noteq> []) (ValueError ''unsupported time expression'')) (\<lambda>_.
    case zones timezone of
      None \<Rightarrow> Inl (ValueError ''time expression timezone is unavailable'')
    | Some z \<Rightarrow> bindS (extract_selector normalized) (\<lambda>selector. resolve_selector selector (instant now) z)))"

end
