(* ===== verification/Retrieval_Service.thy ===== *)
theory Retrieval_Service
  imports Storage_Safety Time_Scope "HOL-Library.AList"
begin

text \<open>
  Retrieval (\<^verbatim>\<open>src/local_recall/retrieval/service.py\<close>) over the record store. The encryption provider, the
  retrieval policy and the semantic search are parameters: each of their calls is a computation over the
  store, because other tasks may use the store while the call is awaited. Scores are rationals.
\<close>

section \<open>Queries, decisions and passages\<close>

record metadata_filter =
  mf_field_name :: string
  mf_value :: scalar

definition mk_MetadataFilter :: "string \<Rightarrow> scalar \<Rightarrow> exn + metadata_filter" where
  "mk_MetadataFilter name v =
    bindS (ensure (is_identifier name) (ValueError ''metadata filter field name is invalid'')) (\<lambda>_.
    Inr \<lparr>mf_field_name = name, mf_value = v\<rparr>)"

record retrieval_query =
  rq_time_range :: time_range
  rq_application :: "string option"
  rq_workspace :: "string option"
  rq_keywords :: "string list"
  rq_semantic_text :: "string option"
  rq_filters :: "metadata_filter list"
  rq_limit :: int
  rq_candidate_limit :: int
  rq_query_id :: record_uuid

definition MAX_RESULT_LIMIT :: int where
  "MAX_RESULT_LIMIT = 1000"

definition MAX_CANDIDATE_LIMIT :: int where
  "MAX_CANDIDATE_LIMIT = 10000"

definition MAX_EXCERPT_CHARS :: nat where
  "MAX_EXCERPT_CHARS = 4096"

definition mk_RetrievalQuery :: "retrieval_query \<Rightarrow> exn + retrieval_query" where
  "mk_RetrievalQuery q =
    bindS (ensure (opt_ok nonempty (rq_application q)) (ValueError ''application must not be empty'')) (\<lambda>_.
    bindS (ensure (opt_ok nonempty (rq_workspace q)) (ValueError ''workspace must not be empty'')) (\<lambda>_.
    bindS (ensure (opt_ok nonempty (rq_semantic_text q)) (ValueError ''semantic_text must not be empty'')) (\<lambda>_.
    let keywords = map (\<lambda>k. casefold (strip k)) (rq_keywords q); names = map mf_field_name (rq_filters q) in
    bindS (ensure ([] \<notin> set keywords) (ValueError ''retrieval keywords must not be empty'')) (\<lambda>_.
    bindS (ensure (distinct keywords) (ValueError ''retrieval keywords must be unique'')) (\<lambda>_.
    bindS (ensure (distinct names) (ValueError ''retrieval metadata filter fields must be unique'')) (\<lambda>_.
    bindS (ensure (1 \<le> rq_limit q \<and> rq_limit q \<le> MAX_RESULT_LIMIT) (ValueError ''retrieval limit is invalid'')) (\<lambda>_.
    bindS (ensure (1 \<le> rq_candidate_limit q \<and> rq_candidate_limit q \<le> MAX_CANDIDATE_LIMIT)
      (ValueError ''retrieval candidate limit is invalid'')) (\<lambda>_.
    bindS (ensure (rq_limit q \<le> rq_candidate_limit q) (ValueError ''retrieval limit exceeds candidate limit'')) (\<lambda>_.
    Inr (q\<lparr>rq_keywords := keywords\<rparr>))))))))))"

record retrieval_decision =
  qd_allowed :: bool
  qd_remote_eligible :: bool
  qd_policy_revision :: string
  qd_reason_code :: string

definition mk_RetrievalPolicyDecision :: "retrieval_decision \<Rightarrow> exn + retrieval_decision" where
  "mk_RetrievalPolicyDecision d =
    bindS (ensure (nonempty (qd_policy_revision d)) (ValueError ''policy_revision must not be empty'')) (\<lambda>_.
    bindS (ensure (nonempty (qd_reason_code d)) (ValueError ''reason_code must not be empty'')) (\<lambda>_.
    bindS (ensure (\<not> (\<not> qd_allowed d \<and> qd_remote_eligible d)) (ValueError ''denied retrieval cannot allow remote provider'')) (\<lambda>_.
    Inr d)))"

record semantic_candidate =
  sc_record_id :: record_uuid
  sc_captured_at :: datetime
  sc_score :: rat

definition mk_SemanticCandidate :: "semantic_candidate \<Rightarrow> exn + semantic_candidate" where
  "mk_SemanticCandidate c =
    bindS (ensure (is_aware (sc_captured_at c)) (ValueError ''captured_at must be timezone-aware'')) (\<lambda>_.
    bindS (ensure (-1 \<le> sc_score c \<and> sc_score c \<le> 1) (ValueError ''semantic score is invalid'')) (\<lambda>_. Inr c))"

record retrieved_provenance =
  rp_field_name :: string
  rp_source_id :: string
  rp_observed_at :: datetime
  rp_confidence :: rat
  rp_adapter_revision :: "string option"

definition mk_RetrievedMetadataProvenance :: "retrieved_provenance \<Rightarrow> exn + retrieved_provenance" where
  "mk_RetrievedMetadataProvenance p =
    bindS (ensure (nonempty (rp_field_name p)) (ValueError ''field_name must not be empty'')) (\<lambda>_.
    bindS (ensure (nonempty (rp_source_id p)) (ValueError ''source_id must not be empty'')) (\<lambda>_.
    bindS (ensure (is_aware (rp_observed_at p)) (ValueError ''observed_at must be timezone-aware'')) (\<lambda>_.
    bindS (ensure (0 \<le> rp_confidence p \<and> rp_confidence p \<le> 1) (ValueError ''retrieval provenance confidence is invalid'')) (\<lambda>_.
    Inr p))))"

record retrieved_passage =
  ps_record_id :: record_uuid
  ps_captured_at :: datetime
  ps_excerpt :: string
  ps_score :: rat
  ps_provenance :: "retrieved_provenance list"
  ps_redaction_revision :: string
  ps_finding_count :: nat

definition mk_RetrievedPassage :: "retrieved_passage \<Rightarrow> exn + retrieved_passage" where
  "mk_RetrievedPassage p =
    bindS (ensure (is_aware (ps_captured_at p)) (ValueError ''captured_at must be timezone-aware'')) (\<lambda>_.
    bindS (ensure (-1 \<le> ps_score p \<and> ps_score p \<le> 1) (ValueError ''retrieval score is invalid'')) (\<lambda>_.
    bindS (ensure (nonempty (ps_redaction_revision p)) (ValueError ''redaction_policy_revision must not be empty'')) (\<lambda>_.
    Inr p)))"

record retrieval_batch =
  rb_query_id :: record_uuid
  rb_passages :: "retrieved_passage list"
  rb_remote_eligible :: bool
  rb_policy_revision :: string

definition mk_RetrievalBatch :: "record_uuid \<Rightarrow> retrieved_passage list \<Rightarrow> bool \<Rightarrow> string \<Rightarrow> exn + retrieval_batch" where
  "mk_RetrievalBatch query_id passages eligible revision =
    bindS (ensure (nonempty revision) (ValueError ''policy_revision must not be empty'')) (\<lambda>_.
    bindS (ensure (distinct (map ps_record_id passages)) (ValueError ''retrieval batch contains duplicate records'')) (\<lambda>_.
    Inr \<lparr>rb_query_id = query_id, rb_passages = passages, rb_remote_eligible = eligible, rb_policy_revision = revision\<rparr>))"

section \<open>Matching\<close>

definition join_lines :: "string list \<Rightarrow> string" where
  "join_lines xs = (case xs of [] \<Rightarrow> [] | x # ys \<Rightarrow> x @ concat (map (\<lambda>y. newline @ y) ys))"

definition metadata_matches :: "redacted_record \<Rightarrow> string \<Rightarrow> string \<Rightarrow> bool" where
  "metadata_matches r name expected = (case scalar_field (xf_metadata (xr_frame r)) name of
     StrVal v \<Rightarrow> casefold v = casefold expected | _ \<Rightarrow> False)"

definition metadata_filter_matches :: "redacted_record \<Rightarrow> metadata_filter \<Rightarrow> bool" where
  "metadata_filter_matches r f = (case field_of (xf_metadata (xr_frame r)) (mf_field_name f) of
     None \<Rightarrow> False | Some c \<Rightarrow> fd_value c = mf_value f)"

definition record_matches :: "retrieval_query \<Rightarrow> redacted_record \<Rightarrow> bool" where
  "record_matches q r = (let captured = instant (xf_captured_at (xr_frame r)); range = rq_time_range q in
     if \<not> (instant (tr_start range) \<le> captured \<and> captured < instant (tr_end range)) then False
     else if \<not> opt_ok (metadata_matches r ''application'') (rq_application q) then False
     else if \<not> opt_ok (metadata_matches r ''workspace'') (rq_workspace q) then False
     else if list_ex (\<lambda>f. \<not> metadata_filter_matches r f) (rq_filters q) then False
     else if rq_keywords q \<noteq> [] \<and>
       list_ex (\<lambda>k. \<not> contains (casefold (join_lines (xf_ocr_text (xr_frame r)))) k) (rq_keywords q) then False
     else True)"

definition passage_provenance :: "redacted_record \<Rightarrow> exn + retrieved_provenance list" where
  "passage_provenance r = mapS mk_RetrievedMetadataProvenance
     (concat (map (\<lambda>f. map (\<lambda>p. \<lparr>rp_field_name = fd_name f, rp_source_id = pv_source_id p,
        rp_observed_at = pv_observed_at p, rp_confidence = pv_confidence p, rp_adapter_revision = pv_adapter_revision p\<rparr>)
        (fd_provenance f)) (md_fields (xf_metadata (xr_frame r)))))"

definition max_or_zero :: "rat list \<Rightarrow> rat" where
  "max_or_zero xs = (case xs of [] \<Rightarrow> 0 | x # ys \<Rightarrow> foldl max x ys)"

definition passage_score :: "retrieval_query \<Rightarrow> string \<Rightarrow> retrieved_provenance list \<Rightarrow> rat option \<Rightarrow> rat" where
  "passage_score q text provenance semantic_score = (case semantic_score of
     Some score \<Rightarrow> score
   | None \<Rightarrow>
       if rq_keywords q \<noteq> [] then
         of_nat (length (filter (contains (casefold text)) (rq_keywords q))) / of_nat (length (rq_keywords q))
       else max_or_zero (map rp_confidence provenance))"

definition mk_passage :: "redacted_record \<Rightarrow> retrieval_query \<Rightarrow> rat option \<Rightarrow> exn + retrieved_passage" where
  "mk_passage r q semantic_score =
    (let text = join_lines (xf_ocr_text (xr_frame r)) in
     bindS (passage_provenance r) (\<lambda>provenance.
     mk_RetrievedPassage \<lparr>ps_record_id = xr_record_id r, ps_captured_at = xf_captured_at (xr_frame r),
       ps_excerpt = take MAX_EXCERPT_CHARS text, ps_score = passage_score q text provenance semantic_score,
       ps_provenance = provenance, ps_redaction_revision = xf_policy_revision (xr_frame r),
       ps_finding_count = length (xf_findings (xr_frame r))\<rparr>))"

section \<open>The service\<close>

record retrieval_service =
  rs_lib :: blob_lib
  rs_cfg :: storage_config
  rs_decrypt :: "envelope \<Rightarrow> key_handle \<Rightarrow> (store, redacted_record) comp"
  rs_authorize_query :: "retrieval_query \<Rightarrow> (store, retrieval_decision) comp"
  rs_authorize_record :: "retrieval_query \<Rightarrow> redacted_record \<Rightarrow> (store, retrieval_decision) comp"
  rs_search :: "(string \<Rightarrow> datetime \<Rightarrow> datetime \<Rightarrow> int \<Rightarrow> (store, semantic_candidate list) comp) option"

type_synonym scores = "(record_uuid \<times> rat) list"

definition add_hit :: "record_uuid set \<Rightarrow> semantic_candidate \<Rightarrow> scores \<Rightarrow> scores" where
  "add_hit canonical_ids hit scores = (if sc_record_id hit \<in> canonical_ids then
     AList.update (sc_record_id hit)
       (max (case map_of scores (sc_record_id hit) of None \<Rightarrow> -1 | Some x \<Rightarrow> x) (sc_score hit)) scores
     else scores)"

definition semantic_scores :: "retrieval_service \<Rightarrow> retrieval_query \<Rightarrow> catalog_record list \<Rightarrow> (store, scores) comp" where
  "semantic_scores sv q candidates = (case rq_semantic_text q of
     None \<Rightarrow> ret []
   | Some text \<Rightarrow> (case rs_search sv of
       None \<Rightarrow> raise (RuntimeError ''semantic retrieval is unavailable'')
     | Some search \<Rightarrow>
         bindE (search text (tr_start (rq_time_range q)) (tr_end (rq_time_range q)) (rq_candidate_limit q)) (\<lambda>hits.
         ret (fold (add_hit (set (map (\<lambda>c. sr_record_id (cr_record c)) candidates))) hits []))))"

definition rank_key :: "blob_lib \<Rightarrow> retrieved_passage \<Rightarrow> rat \<times> int \<times> string" where
  "rank_key lib p = (- ps_score p, instant (ps_captured_at p), bl_uuid_str lib (ps_record_id p))"

text \<open>
  The body of the loop over the candidates: \<open>continue\<close> goes on with the next candidate, \<open>add\<close> goes on
  after a passage has been added; leaving the loop early is returning without either.
\<close>

definition admit_record ::
    "retrieval_service \<Rightarrow> retrieval_query \<Rightarrow> retrieval_decision \<Rightarrow> record_uuid \<Rightarrow> rat option \<Rightarrow> redacted_record \<Rightarrow>
     (store, retrieval_batch) comp \<Rightarrow> (retrieved_passage \<Rightarrow> bool \<Rightarrow> (store, retrieval_batch) comp) \<Rightarrow> (store, retrieval_batch) comp" where
  "admit_record sv q qd record_id score r continue add =
    bindE (rs_authorize_record sv q r) (\<lambda>rd.
    if qd_policy_revision rd \<noteq> qd_policy_revision qd then
      lift (mk_RetrievalBatch (rq_query_id q) [] False (qd_policy_revision rd))
    else if \<not> qd_allowed rd then continue
    else
      bindE (get_sync (rs_lib sv) (rs_cfg sv) record_id) (\<lambda>again. case again of None \<Rightarrow> continue | Some _ \<Rightarrow>
      bindE (lift (mk_passage r q score)) (\<lambda>p. add p (qd_remote_eligible rd))))"

definition visit_candidate ::
    "retrieval_service \<Rightarrow> retrieval_query \<Rightarrow> retrieval_decision \<Rightarrow> record_uuid \<Rightarrow> rat option \<Rightarrow>
     (store, retrieval_batch) comp \<Rightarrow> (retrieved_passage \<Rightarrow> bool \<Rightarrow> (store, retrieval_batch) comp) \<Rightarrow> (store, retrieval_batch) comp" where
  "visit_candidate sv q qd record_id score continue add =
    (if rq_semantic_text q \<noteq> None \<and> score = None then continue
     else
       bindE (get_sync (rs_lib sv) (rs_cfg sv) record_id) (\<lambda>found. case found of None \<Rightarrow> continue | Some e \<Rightarrow>
       bindE (rs_decrypt sv e (ev_key e)) (\<lambda>r.
       if \<not> record_matches q r then continue
       else admit_record sv q qd record_id score r continue add)))"

primrec select_records ::
    "retrieval_service \<Rightarrow> retrieval_query \<Rightarrow> retrieval_decision \<Rightarrow> scores \<Rightarrow> catalog_record list \<Rightarrow>
     retrieved_passage list \<Rightarrow> bool \<Rightarrow> (store, retrieval_batch) comp" where
  "select_records sv q qd scores [] passages eligible =
    lift (mk_RetrievalBatch (rq_query_id q) (take (nat (rq_limit q)) (sort_key (rank_key (rs_lib sv)) passages))
      eligible (qd_policy_revision qd))"
| "select_records sv q qd scores (c # cs) passages eligible =
    (let record_id = sr_record_id (cr_record c) in
     visit_candidate sv q qd record_id (map_of scores record_id) (select_records sv q qd scores cs passages eligible)
       (\<lambda>p remote. select_records sv q qd scores cs (passages @ [p]) (eligible \<and> remote)))"

definition retrieve :: "retrieval_service \<Rightarrow> retrieval_query \<Rightarrow> (store, retrieval_batch) comp" where
  "retrieve sv q =
    bindE (rs_authorize_query sv q) (\<lambda>qd.
    if \<not> qd_allowed qd then lift (mk_RetrievalBatch (rq_query_id q) [] False (qd_policy_revision qd))
    else
      let range = rq_time_range q; last_included = instant (tr_end range) - 1 in
      bindE (lift (mk_day_range_query (day_of (tr_start range)) (day_of (Aware last_included)) (nat (rq_candidate_limit q)))) (\<lambda>dq.
      bindE (list_candidates_sync dq) (\<lambda>candidates.
      bindE (semantic_scores sv q candidates) (\<lambda>scores.
      if rq_semantic_text q \<noteq> None \<and> scores = [] then
        lift (mk_RetrievalBatch (rq_query_id q) [] False (qd_policy_revision qd))
      else select_records sv q qd scores candidates [] (qd_remote_eligible qd)))))"

end
