(* ===== verification/Retrieval_Safety.thy ===== *)
theory Retrieval_Safety
  imports Retrieval_Service Retention_Safety
begin

text \<open>
  What retrieval promises, with other tasks using the record store during its awaited calls and without:
  soundness of every batch, and equality with a reference definition of the answer.
\<close>

section \<open>Awaited calls\<close>

text \<open>
  While one of the service's calls is awaited, other tasks may run storage operations.
\<close>

abbreviation "history sv \<equiv> run (storage_step (rs_lib sv) (rs_cfg sv))"

abbreviation "held sv \<equiv> holdings (rs_lib sv) (rs_cfg sv)"

text \<open>
  A record admitted to the answer of a query: held, decrypted, matching, authorized under the query's
  policy revision, and still held afterwards, in this order of the history that starts at \<open>s0\<close>.
\<close>

definition admitted ::
    "retrieval_service \<Rightarrow> store \<Rightarrow> retrieval_query \<Rightarrow> retrieval_decision \<Rightarrow> record_uuid \<Rightarrow> redacted_record \<Rightarrow> retrieval_decision \<Rightarrow> bool" where
  "admitted sv s0 q qd u r rd \<longleftrightarrow> (\<exists>e s1 s2 s3. history sv s0 s1 \<and> held sv s1 u = Some e \<and>
     fst (rs_decrypt sv e (ev_key e) s1) = Inr r \<and> record_matches q r \<and>
     history sv s1 s2 \<and> fst (rs_authorize_record sv q r s2) = Inr rd \<and> qd_allowed rd \<and>
     qd_policy_revision rd = qd_policy_revision qd \<and> history sv s2 s3 \<and> held sv s3 u \<noteq> None)"

definition sourced ::
    "retrieval_service \<Rightarrow> store \<Rightarrow> retrieval_query \<Rightarrow> retrieval_decision \<Rightarrow> scores \<Rightarrow> record_uuid set \<Rightarrow> bool \<Rightarrow> retrieved_passage \<Rightarrow> bool" where
  "sourced sv s0 q qd scores ids el p \<longleftrightarrow> (\<exists>u r rd. u \<in> ids \<and> admitted sv s0 q qd u r rd \<and>
     (rq_semantic_text q \<noteq> None \<longrightarrow> map_of scores u \<noteq> None) \<and>
     mk_passage r q (map_of scores u) = Inr p \<and> (el \<longrightarrow> qd_remote_eligible rd))"

definition batch_sound ::
    "retrieval_service \<Rightarrow> store \<Rightarrow> retrieval_query \<Rightarrow> retrieval_decision \<Rightarrow> scores \<Rightarrow> record_uuid set \<Rightarrow> retrieval_batch \<Rightarrow> bool" where
  "batch_sound sv s0 q qd scores ids b \<longleftrightarrow> rb_query_id b = rq_query_id q \<and>
     sorted (map (rank_key (rs_lib sv)) (rb_passages b)) \<and> length (rb_passages b) \<le> nat (rq_limit q) \<and>
     distinct (map ps_record_id (rb_passages b)) \<and>
     (rb_passages b \<noteq> [] \<or> rb_remote_eligible b \<longrightarrow> qd_allowed qd \<and> rb_policy_revision b = qd_policy_revision qd) \<and>
     (rb_remote_eligible b \<longrightarrow> qd_remote_eligible qd) \<and>
     (\<forall>p \<in> set (rb_passages b). sourced sv s0 q qd scores ids (rb_remote_eligible b) p)"

definition yields :: "retrieval_service \<Rightarrow> bool" where
  "yields sv \<longleftrightarrow> (\<forall>q s. history sv s (snd (rs_authorize_query sv q s))) \<and>
     (\<forall>q r s. history sv s (snd (rs_authorize_record sv q r s))) \<and>
     (\<forall>e k s. history sv s (snd (rs_decrypt sv e k s))) \<and>
     (\<forall>f text a b n s. rs_search sv = Some f \<longrightarrow> history sv s (snd (f text a b n s)))"

text \<open>The identifiers of the rows in the day buckets of a query.\<close>

definition listed_ids :: "retrieval_query \<Rightarrow> store \<Rightarrow> record_uuid set" where
  "listed_ids q s = {k. \<exists>m. (k, m, READY) \<in> set (st_records s) \<and> day_of (tr_start (rq_time_range q)) \<le> cm_day m \<and>
     cm_day m \<le> day_of (Aware (instant (tr_end (rq_time_range q)) - 1))}"

text \<open>
  The contract of the store towards the service: a read returns what the store holds and leaves it
  alone, and every awaited call moves the store along a history of storage steps.
\<close>

locale shared_store =
  fixes sv :: retrieval_service
    and ok :: "store \<Rightarrow> bool"
  assumes get_returns: "ok s \<Longrightarrow> get_sync (rs_lib sv) (rs_cfg sv) u s = (Inr (held sv s u), s)"
    and step_ok: "storage_step (rs_lib sv) (rs_cfg sv) s t \<Longrightarrow> ok s \<Longrightarrow> ok t"
    and query_call: "history sv s (snd (rs_authorize_query sv q s))"
    and record_call: "history sv s (snd (rs_authorize_record sv q r s))"
    and decrypt_call: "history sv s (snd (rs_decrypt sv e k s))"
    and search_call: "rs_search sv = Some f \<Longrightarrow> history sv s (snd (f text x y n s))"
begin

lemma run_ok: "history sv s t \<Longrightarrow> ok s \<Longrightarrow> ok t"
  by (induction rule: run.induct) (auto intro: step_ok)

lemma wp_get: "ok s \<Longrightarrow> wp (get_sync (rs_lib sv) (rs_cfg sv) u) Q E s \<longleftrightarrow> Q (held sv s u) s"
  by (simp add: wp_def get_returns)

lemma wp_call:
  assumes "history sv s (snd (m s))" and "\<And>x t. fst (m s) = Inr x \<Longrightarrow> history sv s t \<Longrightarrow> Q x t"
  shows "wp m Q (\<lambda>_ _. True) s"
  using assms by (cases "m s") (auto simp: wp_def split: sum.split)

lemma sourced_mono: "sourced sv s0 q qd scores ids el p \<Longrightarrow> (el' \<Longrightarrow> el) \<Longrightarrow> ids \<subseteq> ids' \<Longrightarrow> sourced sv s0 q qd scores ids' el' p"
  unfolding sourced_def by blast

lemma empty_batch_sound: "mk_RetrievalBatch (rq_query_id q) [] False revision = Inr b \<Longrightarrow> batch_sound sv s0 q qd scores ids b"
  by (auto simp: mk_RetrievalBatch_def batch_sound_def bindS_Inr ensure_Inr)

lemma final_batch_sound:
  assumes "mk_RetrievalBatch (rq_query_id q) (take (nat (rq_limit q)) (sort_key (rank_key (rs_lib sv)) ps)) el (qd_policy_revision qd) = Inr b"
    and "qd_allowed qd" and "el \<longrightarrow> qd_remote_eligible qd" and "\<forall>p \<in> set ps. sourced sv s0 q qd scores ids el p"
  shows "batch_sound sv s0 q qd scores ids b"
proof -
  let ?ps = "take (nat (rq_limit q)) (sort_key (rank_key (rs_lib sv)) ps)"
  have b: "b = \<lparr>rb_query_id = rq_query_id q, rb_passages = ?ps, rb_remote_eligible = el, rb_policy_revision = qd_policy_revision qd\<rparr>"
    and d: "distinct (map ps_record_id ?ps)"
    using assms(1) by (auto simp: mk_RetrievalBatch_def bindS_Inr ensure_Inr)
  have "sorted (map (rank_key (rs_lib sv)) ?ps)"
    by (simp add: take_map [symmetric] sorted_wrt_take)
  moreover have "\<forall>p \<in> set ?ps. sourced sv s0 q qd scores ids el p"
    using assms(4) by (auto dest: in_set_takeD)
  ultimately show ?thesis using assms(2,3) d by (simp add: batch_sound_def b)
qed

lemma wp_visit:
  assumes "ok s0" and "history sv s0 s"
    and continue: "\<And>t. history sv s0 t \<Longrightarrow> wp continue Q (\<lambda>_ _. True) t"
    and add: "\<And>t r rd p. history sv s0 t \<Longrightarrow> admitted sv s0 q qd u r rd \<Longrightarrow>
      rq_semantic_text q \<noteq> None \<longrightarrow> score \<noteq> None \<Longrightarrow> mk_passage r q score = Inr p \<Longrightarrow>
      wp (add p (qd_remote_eligible rd)) Q (\<lambda>_ _. True) t"
    and leave: "\<And>revision b t. mk_RetrievalBatch (rq_query_id q) [] False revision = Inr b \<Longrightarrow> Q b t"
  shows "wp (visit_candidate sv q qd u score continue add) Q (\<lambda>_ _. True) s"
proof (cases "rq_semantic_text q \<noteq> None \<and> score = None")
  case True
  then show ?thesis using continue [OF assms(2)] by (simp add: visit_candidate_def)
next
  case False
  then have scored: "rq_semantic_text q \<noteq> None \<longrightarrow> score \<noteq> None" by (cases score; cases "rq_semantic_text q") auto
  have ok: "ok s" by (rule run_ok [OF assms(2,1)])
  have authorized: "wp (if qd_policy_revision rd \<noteq> qd_policy_revision qd then
      lift (mk_RetrievalBatch (rq_query_id q) [] False (qd_policy_revision rd))
    else if \<not> qd_allowed rd then continue
    else bindE (get_sync (rs_lib sv) (rs_cfg sv) u) (\<lambda>again. case again of None \<Rightarrow> continue | Some _ \<Rightarrow>
      bindE (lift (mk_passage r q score)) (\<lambda>p. add p (qd_remote_eligible rd)))) Q (\<lambda>_ _. True) t"
    if e: "held sv s u = Some e" "fst (rs_decrypt sv e (ev_key e) s) = Inr r" "record_matches q r"
      "history sv s s2" "fst (rs_authorize_record sv q r s2) = Inr rd" "history sv s2 t" for e r rd s2 t
  proof -
    have t: "history sv s0 t" using assms(2) e(4,6) by (meson run_trans)
    have okt: "ok t" by (rule run_ok [OF t assms(1)])
    have "admitted sv s0 q qd u r rd" if "qd_policy_revision rd = qd_policy_revision qd" "qd_allowed rd" "held sv t u \<noteq> None"
      unfolding admitted_def using assms(2) e that by blast
    then show ?thesis using continue [OF t] add [OF t _ scored] leave [of "qd_policy_revision rd"]
      by (auto simp: wp_rules wp_get [OF okt] split: option.split sum.split)
  qed
  have decrypted: "wp (if \<not> record_matches q r then continue else admit_record sv q qd u score r continue add) Q (\<lambda>_ _. True) t"
    if "held sv s u = Some e" "fst (rs_decrypt sv e (ev_key e) s) = Inr r" "history sv s t" for e r t
  proof (cases "record_matches q r")
    case True
    have "wp (admit_record sv q qd u score r continue add) Q (\<lambda>_ _. True) t"
      unfolding admit_record_def wp_bindE
      by (rule wp_call [OF record_call], rule authorized [OF that(1,2) True that(3)])
    then show ?thesis using True by simp
  qed (use continue [OF run_trans [OF that(3) assms(2)]] in simp)
  show ?thesis
    unfolding visit_candidate_def if_not_P [OF False] wp_bindE wp_get [OF ok]
    using continue [OF assms(2)]
    by (auto simp: wp_bindE split: option.split intro!: wp_call [OF decrypt_call] decrypted)
qed

lemma select_sound:
  assumes "ok s0" and "qd_allowed qd"
  shows "history sv s0 s \<Longrightarrow> (el \<longrightarrow> qd_remote_eligible qd) \<Longrightarrow> \<forall>p \<in> set ps. sourced sv s0 q qd scores ids el p \<Longrightarrow>
    (\<lambda>c. sr_record_id (cr_record c)) ` set cs \<subseteq> ids \<Longrightarrow>
    wp (select_records sv q qd scores cs ps el) (\<lambda>b _. batch_sound sv s0 q qd scores ids b) (\<lambda>_ _. True) s"
proof (induction cs arbitrary: ps el s)
  case Nil
  then show ?case using final_batch_sound [OF _ assms(2)] by (simp add: wp_rules split: sum.split)
next
  case (Cons c cs)
  have ids: "sr_record_id (cr_record c) \<in> ids" and sub: "(\<lambda>c. sr_record_id (cr_record c)) ` set cs \<subseteq> ids"
    using Cons.prems(4) by auto
  show ?case
    unfolding select_records.simps Let_def
  proof (rule wp_visit [OF assms(1) Cons.prems(1)])
    fix t r rd p
    assume t: "history sv s0 t" "admitted sv s0 q qd (sr_record_id (cr_record c)) r rd"
      "rq_semantic_text q \<noteq> None \<longrightarrow> map_of scores (sr_record_id (cr_record c)) \<noteq> None"
      "mk_passage r q (map_of scores (sr_record_id (cr_record c))) = Inr p"
    show "wp (select_records sv q qd scores cs (ps @ [p]) (el \<and> qd_remote_eligible rd))
        (\<lambda>b _. batch_sound sv s0 q qd scores ids b) (\<lambda>_ _. True) t"
    proof (rule Cons.IH [OF t(1) _ _ sub])
      have "sourced sv s0 q qd scores ids (el \<and> qd_remote_eligible rd) p"
        unfolding sourced_def using ids t by blast
      moreover have "sourced sv s0 q qd scores ids (el \<and> qd_remote_eligible rd) x" if "x \<in> set ps" for x
        using Cons.prems(3) that sourced_mono [of s0 q qd scores ids el x "el \<and> qd_remote_eligible rd" ids] by blast
      ultimately show "\<forall>x \<in> set (ps @ [p]). sourced sv s0 q qd scores ids (el \<and> qd_remote_eligible rd) x" by auto
    qed (use Cons.prems(2) in simp)
  qed (use Cons.IH [OF _ Cons.prems(2,3) sub] empty_batch_sound in blast)+
qed

lemma candidates_listed:
  assumes "mk_day_range_query (day_of (tr_start (rq_time_range q))) (day_of (Aware (instant (tr_end (rq_time_range q)) - 1))) n = Inr dq"
    and "list_candidates_sync dq s = (Inr cs, t)"
  shows "t = s" "(\<lambda>c. sr_record_id (cr_record c)) ` set cs \<subseteq> listed_ids q s"
proof -
  have dq: "dq = \<lparr>dq_start = day_of (tr_start (rq_time_range q)), dq_end = day_of (Aware (instant (tr_end (rq_time_range q)) - 1)), dq_limit = n\<rparr>"
    using assms(1) by (auto simp: mk_day_range_query_def bindS_Inr ensure_Inr)
  show "t = s" using assms(2) by (simp add: list_candidates_sync_def reads_def)
  have cs: "cs = map row_record (take n (filter (\<lambda>(k, m, _). dq_start dq \<le> cm_day m \<and> cm_day m \<le> dq_end dq) (ready_rows s)))"
    using assms(2) by (auto simp: list_candidates_sync_def reads_def dq)
  show "(\<lambda>c. sr_record_id (cr_record c)) ` set cs \<subseteq> listed_ids q s"
    by (auto simp: cs listed_ids_def row_record_def ready_rows_def dq dest!: in_set_takeD)
qed

lemma wp_semantic_scores:
  assumes "\<And>scores t. history sv s t \<Longrightarrow> Q scores t"
  shows "wp (semantic_scores sv q cs) Q (\<lambda>_ _. True) s"
  using assms [OF run_refl] assms search_call
  by (auto simp: semantic_scores_def wp_rules split: option.split intro!: wp_call)

lemma retrieve_sound:
  assumes "ok s"
  shows "wp (retrieve sv q) (\<lambda>b t. \<exists>qd scores s1. fst (rs_authorize_query sv q s) = Inr qd \<and> history sv s s1 \<and>
      batch_sound sv s q qd scores (listed_ids q s1) b \<and>
      (\<not> qd_allowed qd \<longrightarrow> rb_passages b = [] \<and> t = snd (rs_authorize_query sv q s))) (\<lambda>_ _. True) s"
  (is "wp _ ?Q _ _")
proof (cases "rs_authorize_query sv q s")
  case (Pair res s1)
  have s1: "history sv s s1" using query_call [of s q] Pair by simp
  show ?thesis
  proof (cases res)
    case (Inl e)
    then show ?thesis by (simp add: retrieve_def wp_bindE wp_def Pair)
  next
    case (Inr qd)
    have sound: "?Q b t" if "batch_sound sv s q qd scores (listed_ids q s1) b" "\<not> qd_allowed qd \<longrightarrow> rb_passages b = [] \<and> t = s1" for b t scores
      using that s1 Pair Inr by auto
    have leave: "mk_RetrievalBatch (rq_query_id q) [] False (qd_policy_revision qd) = Inr b \<Longrightarrow> qd_allowed qd \<or> t = s1 \<Longrightarrow> ?Q b t" for b t
      using sound [OF empty_batch_sound [of q _ b]] by (auto simp: mk_RetrievalBatch_def bindS_Inr ensure_Inr)
    show ?thesis
    proof (cases "qd_allowed qd")
      case False
      then show ?thesis using leave by (auto simp: retrieve_def wp_bindE wp_lift wp_def [of "rs_authorize_query sv q"] Pair Inr split: sum.split)
    next
      case True
      have select: "wp (select_records sv q qd scores cs [] (qd_remote_eligible qd)) ?Q (\<lambda>_ _. True) t"
        if "history sv s1 t" "(\<lambda>c. sr_record_id (cr_record c)) ` set cs \<subseteq> listed_ids q s1" for scores cs t
        by (rule wp_mono [OF select_sound [OF assms True run_trans [OF that(1) s1] _ _ that(2)]])
          (use sound True in auto)
      let ?dq = "mk_day_range_query (day_of (tr_start (rq_time_range q))) (day_of (Aware (instant (tr_end (rq_time_range q)) - 1))) (nat (rq_candidate_limit q))"
      have "wp (bindE (lift ?dq) (\<lambda>dq. bindE (list_candidates_sync dq) (\<lambda>candidates. bindE (semantic_scores sv q candidates) (\<lambda>scores.
          if rq_semantic_text q \<noteq> None \<and> scores = [] then lift (mk_RetrievalBatch (rq_query_id q) [] False (qd_policy_revision qd))
          else select_records sv q qd scores candidates [] (qd_remote_eligible qd))))) ?Q (\<lambda>_ _. True) s1"
      proof (cases ?dq)
        case (Inr dq)
        obtain cs where cs: "list_candidates_sync dq s1 = (Inr cs, s1)" by (simp add: list_candidates_sync_def reads_def)
        note ids = candidates_listed(2) [OF Inr cs]
        have "wp (semantic_scores sv q cs) (\<lambda>scores. wp (if rq_semantic_text q \<noteq> None \<and> scores = []
            then lift (mk_RetrievalBatch (rq_query_id q) [] False (qd_policy_revision qd))
            else select_records sv q qd scores cs [] (qd_remote_eligible qd)) ?Q (\<lambda>_ _. True)) (\<lambda>_ _. True) s1"
        proof (rule wp_semantic_scores)
          fix scores t
          assume t: "history sv s1 t"
          show "wp (if rq_semantic_text q \<noteq> None \<and> scores = []
            then lift (mk_RetrievalBatch (rq_query_id q) [] False (qd_policy_revision qd))
            else select_records sv q qd scores cs [] (qd_remote_eligible qd)) ?Q (\<lambda>_ _. True) t"
            using select [OF t ids] leave True by (auto simp: wp_lift split: sum.split)
        qed
        then show ?thesis by (simp add: Inr wp_bindE wp_lift wp_def [of "list_candidates_sync dq"] cs)
      qed (simp add: wp_bindE wp_lift)
      then show ?thesis by (simp add: retrieve_def wp_bindE wp_def [of "rs_authorize_query sv q"] Pair Inr True Let_def)
    qed
  qed
qed

end

lemma yields_shares: "yields sv \<Longrightarrow> shared_store sv (\<lambda>s. blob_lib_ok (rs_lib sv) \<and> store_ok (rs_lib sv) (rs_cfg sv) s)"
  unfolding yields_def by unfold_locales (auto intro: get_held storage_step_ok)

section \<open>Undisturbed calls\<close>

text \<open>A service whose calls answer without other tasks using the store meanwhile.\<close>

definition quiet_service ::
    "blob_lib \<Rightarrow> storage_config \<Rightarrow> (envelope \<Rightarrow> redacted_record) \<Rightarrow> (retrieval_query \<Rightarrow> retrieval_decision) \<Rightarrow>
     (retrieval_query \<Rightarrow> redacted_record \<Rightarrow> retrieval_decision) \<Rightarrow>
     (string \<Rightarrow> datetime \<Rightarrow> datetime \<Rightarrow> int \<Rightarrow> semantic_candidate list) \<Rightarrow> retrieval_service" where
  "quiet_service lib cfg dec ask judge search = \<lparr>rs_lib = lib, rs_cfg = cfg, rs_decrypt = (\<lambda>e _. ret (dec e)),
     rs_authorize_query = (\<lambda>q. ret (ask q)), rs_authorize_record = (\<lambda>q r. ret (judge q r)),
     rs_search = Some (\<lambda>text x y n. ret (search text x y n))\<rparr>"

lemma quiet_simps [simp]:
  "rs_lib (quiet_service lib cfg dec ask judge search) = lib"
  "rs_cfg (quiet_service lib cfg dec ask judge search) = cfg"
  "rs_decrypt (quiet_service lib cfg dec ask judge search) e k = ret (dec e)"
  "rs_authorize_query (quiet_service lib cfg dec ask judge search) q = ret (ask q)"
  "rs_authorize_record (quiet_service lib cfg dec ask judge search) q r = ret (judge q r)"
  "rs_search (quiet_service lib cfg dec ask judge search) = Some (\<lambda>text x y n. ret (search text x y n))"
  by (simp_all add: quiet_service_def)

lemma quiet_yields: "yields (quiet_service lib cfg dec ask judge search)"
  by (auto simp: yields_def ret_def intro: run_refl)

interpretation quiet: shared_store "quiet_service lib cfg dec ask judge search" "\<lambda>s. blob_lib_ok lib \<and> store_ok lib cfg s"
  for lib cfg dec ask judge search
  using yields_shares [OF quiet_yields] by simp

text \<open>
  The reference: the best hit of each record, the records that qualify in catalog order, their passages
  ranked and cut.
\<close>

definition best_score :: "semantic_candidate list \<Rightarrow> record_uuid \<Rightarrow> rat option" where
  "best_score hits u = (if u \<in> sc_record_id ` set hits
     then Some (Max (insert (-1) (sc_score ` {h \<in> set hits. sc_record_id h = u}))) else None)"

lemma scores_step: "map_of (add_hit ids h scores) u = (if u = sc_record_id h \<and> u \<in> ids
    then Some (max (case map_of scores u of None \<Rightarrow> -1 | Some x \<Rightarrow> x) (sc_score h)) else map_of scores u)"
  by (auto simp: add_hit_def update_conv')

lemma scores_best: "map_of (fold (add_hit ids) hits []) u = (if u \<in> ids then best_score hits u else None)"
proof (induction hits rule: rev_induct)
  case (snoc h hits)
  show ?case
  proof (cases "u = sc_record_id h \<and> u \<in> ids")
    case True
    let ?X = "sc_score ` {x \<in> set hits. sc_record_id x = u}"
    have eq: "sc_score ` {x \<in> set (hits @ [h]). sc_record_id x = u} = insert (sc_score h) ?X" using True by auto
    have most: "Max (insert (-1) (insert (sc_score h) ?X)) = max (sc_score h) (Max (insert (-1) ?X))"
      by (subst insert_commute, rule Max_insert) simp_all
    have best: "(case best_score hits u of None \<Rightarrow> -1 | Some x \<Rightarrow> x) = Max (insert (-1) ?X)"
    proof (cases "u \<in> sc_record_id ` set hits")
      case False
      then have none: "?X = {}" by auto
      show ?thesis unfolding none using False by (simp add: best_score_def)
    qed (simp add: best_score_def)
    have "map_of (fold (add_hit ids) (hits @ [h]) []) u = Some (max (Max (insert (-1) ?X)) (sc_score h))"
      using True snoc best by (auto simp: scores_step)
    also have "\<dots> = best_score (hits @ [h]) u"
      unfolding best_score_def eq most using True by (simp add: max.commute)
    finally show ?thesis using True by auto
  next
    case False
    then have "sc_score ` {x \<in> set (hits @ [h]). sc_record_id x = u} = sc_score ` {x \<in> set hits. sc_record_id x = u}" if "u \<in> ids"
      using that by auto
    then show ?thesis using False by (auto simp: scores_step snoc best_score_def)
  qed
qed (simp add: best_score_def)

definition qualifies ::
    "(envelope \<Rightarrow> redacted_record) \<Rightarrow> (retrieval_query \<Rightarrow> redacted_record \<Rightarrow> retrieval_decision) \<Rightarrow> retrieval_query \<Rightarrow>
     (record_uuid \<rightharpoonup> envelope) \<Rightarrow> (record_uuid \<rightharpoonup> rat) \<Rightarrow> record_uuid \<Rightarrow> (redacted_record \<times> rat option) option" where
  "qualifies dec judge q content score u = (case content u of None \<Rightarrow> None | Some e \<Rightarrow>
     if (rq_semantic_text q \<noteq> None \<longrightarrow> score u \<noteq> None) \<and> record_matches q (dec e) \<and> qd_allowed (judge q (dec e))
     then Some (dec e, score u) else None)"

definition reference_retrieve ::
    "blob_lib \<Rightarrow> (envelope \<Rightarrow> redacted_record) \<Rightarrow> retrieval_decision \<Rightarrow> (retrieval_query \<Rightarrow> redacted_record \<Rightarrow> retrieval_decision) \<Rightarrow>
     retrieval_query \<Rightarrow> (record_uuid \<rightharpoonup> envelope) \<Rightarrow> (record_uuid \<rightharpoonup> rat) \<Rightarrow> record_uuid list \<Rightarrow> exn + retrieval_batch" where
  "reference_retrieve lib dec qd judge q content score ids =
    (let chosen = List.map_filter (qualifies dec judge q content score) ids in
     bindS (mapS (\<lambda>(r, x). mk_passage r q x) chosen) (\<lambda>ps.
     mk_RetrievalBatch (rq_query_id q) (take (nat (rq_limit q)) (sort_key (rank_key lib) ps))
       (qd_remote_eligible qd \<and> list_all (\<lambda>(r, _). qd_remote_eligible (judge q r)) chosen \<and>
        (rq_semantic_text q \<noteq> None \<longrightarrow> (\<exists>u \<in> set ids. score u \<noteq> None))) (qd_policy_revision qd)))"

lemma select_reference:
  assumes ok: "store_ok lib cfg s" and same: "\<And>r. qd_policy_revision (judge q r) = qd_policy_revision qd"
  shows "select_records (quiet_service lib cfg dec ask judge search) q qd scores cs ps el s =
    (bindS (mapS (\<lambda>(r, x). mk_passage r q x)
        (List.map_filter (qualifies dec judge q (holdings lib cfg s) (map_of scores)) (map (\<lambda>c. sr_record_id (cr_record c)) cs))) (\<lambda>qs.
      mk_RetrievalBatch (rq_query_id q) (take (nat (rq_limit q)) (sort_key (rank_key lib) (ps @ qs)))
        (el \<and> list_all (\<lambda>(r, _). qd_remote_eligible (judge q r))
          (List.map_filter (qualifies dec judge q (holdings lib cfg s) (map_of scores)) (map (\<lambda>c. sr_record_id (cr_record c)) cs)))
        (qd_policy_revision qd)), s)"
proof (induction cs arbitrary: ps el)
  case Nil
  then show ?case by (simp add: lift_def List.map_filter_def)
next
  case (Cons c cs)
  define u where "u = sr_record_id (cr_record c)"
  define rest where "rest = List.map_filter (qualifies dec judge q (holdings lib cfg s) (map_of scores)) (map (\<lambda>c. sr_record_id (cr_record c)) cs)"
  note IH = Cons.IH [folded rest_def]
  have split: "List.map_filter (qualifies dec judge q (holdings lib cfg s) (map_of scores)) (map (\<lambda>c. sr_record_id (cr_record c)) (c # cs)) =
      (case qualifies dec judge q (holdings lib cfg s) (map_of scores) u of None \<Rightarrow> rest | Some x \<Rightarrow> x # rest)"
    by (simp add: List.map_filter_def rest_def u_def split: option.split)
  note get = get_held [OF ok, of u]
  show ?case
  proof (cases "qualifies dec judge q (holdings lib cfg s) (map_of scores) u")
    case None
    then have "visit_candidate (quiet_service lib cfg dec ask judge search) q qd u (map_of scores u) continue add s = continue s" for continue add
      using get same by (auto simp: visit_candidate_def admit_record_def comp_defs qualifies_def split: option.splits if_splits)
    then show ?thesis unfolding split None by (simp add: Let_def u_def [symmetric] IH)
  next
    case (Some x)
    then obtain e where e: "holdings lib cfg s u = Some e" "x = (dec e, map_of scores u)" "qd_allowed (judge q (dec e))" "record_matches q (dec e)"
      "rq_semantic_text q \<noteq> None \<longrightarrow> map_of scores u \<noteq> None"
      by (auto simp: qualifies_def split: option.splits if_splits)
    then have "visit_candidate (quiet_service lib cfg dec ask judge search) q qd u (map_of scores u) continue add s =
      (case mk_passage (dec e) q (map_of scores u) of Inl exc \<Rightarrow> (Inl exc, s) | Inr p \<Rightarrow> add p (qd_remote_eligible (judge q (dec e))) s)" for continue add
      using get same by (auto simp: visit_candidate_def admit_record_def comp_defs split: sum.split)
    then show ?thesis unfolding split Some
      by (cases "mk_passage (dec e) q (map_of scores u)"; cases "mapS (\<lambda>(r, x). mk_passage r q x) rest")
        (simp_all add: Let_def u_def [symmetric] IH e(2) conj_assoc)
  qed
qed

definition candidate_ids :: "retrieval_query \<Rightarrow> store \<Rightarrow> record_uuid list" where
  "candidate_ids q s = map fst (take (nat (rq_candidate_limit q)) (filter (\<lambda>(k, m, _).
     day_of (tr_start (rq_time_range q)) \<le> cm_day m \<and> cm_day m \<le> day_of (Aware (instant (tr_end (rq_time_range q)) - 1))) (ready_rows s)))"

definition query_scores ::
    "(string \<Rightarrow> datetime \<Rightarrow> datetime \<Rightarrow> int \<Rightarrow> semantic_candidate list) \<Rightarrow> retrieval_query \<Rightarrow> record_uuid list \<Rightarrow> record_uuid \<rightharpoonup> rat" where
  "query_scores search q ids u = (case rq_semantic_text q of None \<Rightarrow> None | Some text \<Rightarrow>
     if u \<in> set ids then best_score (search text (tr_start (rq_time_range q)) (tr_end (rq_time_range q)) (rq_candidate_limit q)) u else None)"

lemma checked_query:
  assumes "mk_RetrievalQuery q0 = Inr q" and "mk_ResolvedTimeRange x y = Inr (rq_time_range q)"
  shows "1 \<le> rq_limit q" "1 \<le> rq_candidate_limit q" "rq_candidate_limit q \<le> 10000"
    "instant (tr_start (rq_time_range q)) \<le> instant (tr_end (rq_time_range q)) - 1"
proof -
  have "rq_time_range q = \<lparr>tr_start = x, tr_end = y\<rparr>" "instant x < instant y"
    using assms(2) by (auto simp: mk_ResolvedTimeRange_def bindS_Inr ensure_Inr)
  then show "instant (tr_start (rq_time_range q)) \<le> instant (tr_end (rq_time_range q)) - 1" by simp
  show "1 \<le> rq_limit q" "1 \<le> rq_candidate_limit q" "rq_candidate_limit q \<le> 10000"
    using assms(1) by (auto simp: mk_RetrievalQuery_def Let_def bindS_Inr ensure_Inr MAX_CANDIDATE_LIMIT_def)
qed

lemma row_day:
  assumes "store_ok lib cfg s" and "(u, m, READY) \<in> set (st_records s)" and "holdings lib cfg s u = Some e"
  shows "cm_day m = day_of (ev_created_at e)"
proof -
  have "map_of (st_records s) u = Some (m, READY)"
    using assms(1,2) by (auto simp: store_ok_def catalog_wf_def)
  then have "\<exists>blob. decoded lib cfg u m blob = Inr e"
    using assms(3) by (auto simp: holdings_def cell_value_def cell_token split: option.splits sum.splits)
  then obtain blob where "metadata_of e blob (cm_token m) (cm_digest m) = m"
    by (auto simp: decoded_def decode_blob_def bindS_Inr ensure_Inr)
  then have "cm_day m = cm_day (metadata_of e blob (cm_token m) (cm_digest m))" by simp
  then show ?thesis by (simp add: metadata_of_def)
qed

lemma quiet_candidates:
  assumes "mk_RetrievalQuery q0 = Inr q" and "mk_ResolvedTimeRange x y = Inr (rq_time_range q)"
  shows "\<exists>dq cs. mk_day_range_query (day_of (tr_start (rq_time_range q))) (day_of (Aware (instant (tr_end (rq_time_range q)) - 1)))
      (nat (rq_candidate_limit q)) = Inr dq \<and> list_candidates_sync dq s = (Inr cs, s) \<and>
      map (\<lambda>c. sr_record_id (cr_record c)) cs = candidate_ids q s"
proof -
  note q = checked_query [OF assms]
  have "day_of (tr_start (rq_time_range q)) \<le> day_of (Aware (instant (tr_end (rq_time_range q)) - 1))"
    using q(4) by (simp add: day_of_def zdiv_mono1)
  moreover have "Suc 0 \<le> nat (rq_candidate_limit q)" "nat (rq_candidate_limit q) \<le> 10000" using q(2,3) by simp_all
  ultimately show ?thesis
    by (simp add: mk_day_range_query_def list_candidates_sync_def reads_def candidate_ids_def row_record_def split_def o_def)
qed

lemma map_filter_none: "(\<And>x. x \<in> set xs \<Longrightarrow> f x = None) \<Longrightarrow> List.map_filter f xs = []"
  by (induction xs) (simp_all add: List.map_filter_simps)

lemma quiet_scores:
  assumes "map (\<lambda>c. sr_record_id (cr_record c)) cs = ids"
  shows "\<exists>scores. semantic_scores (quiet_service lib cfg dec ask judge search) q cs s = (Inr scores, s) \<and>
    map_of scores = query_scores search q ids"
proof -
  have "(\<lambda>c. sr_record_id (cr_record c)) ` set cs = set ids" using assms by auto
  then show ?thesis
    by (cases "rq_semantic_text q") (auto simp: semantic_scores_def comp_defs query_scores_def scores_best fun_eq_iff)
qed

lemma quiet_retrieve:
  assumes ok: "store_ok lib cfg s" and q: "mk_RetrievalQuery q0 = Inr q" "mk_ResolvedTimeRange x y = Inr (rq_time_range q)"
    and permitted: "qd_allowed (ask q)" and same: "\<forall>r. qd_policy_revision (judge q r) = qd_policy_revision (ask q)"
  shows "retrieve (quiet_service lib cfg dec ask judge search) q s =
    (reference_retrieve lib dec (ask q) judge q (holdings lib cfg s) (query_scores search q (candidate_ids q s)) (candidate_ids q s), s)"
proof -
  let ?sv = "quiet_service lib cfg dec ask judge search" and ?ids = "candidate_ids q s"
  let ?score = "query_scores search q ?ids"
  obtain dq cs where cs: "mk_day_range_query (day_of (tr_start (rq_time_range q))) (day_of (Aware (instant (tr_end (rq_time_range q)) - 1)))
      (nat (rq_candidate_limit q)) = Inr dq" "list_candidates_sync dq s = (Inr cs, s)" "map (\<lambda>c. sr_record_id (cr_record c)) cs = ?ids"
    using quiet_candidates [OF q] by blast
  obtain scores where sc: "semantic_scores ?sv q cs s = (Inr scores, s)" "map_of scores = ?score"
    using quiet_scores [OF cs(3)] by blast
  have dom: "?score u \<noteq> None \<Longrightarrow> u \<in> set ?ids" for u
    by (auto simp: query_scores_def split: option.splits if_splits)
  have left: "scores = [] \<longleftrightarrow> (\<forall>u \<in> set ?ids. ?score u = None)"
    using dom unfolding sc(2) [symmetric] by (metis map_of_eq_empty_iff)
  have run: "retrieve ?sv q s = (if rq_semantic_text q \<noteq> None \<and> scores = []
      then (mk_RetrievalBatch (rq_query_id q) [] False (qd_policy_revision (ask q)), s)
      else select_records ?sv q (ask q) scores cs [] (qd_remote_eligible (ask q)) s)"
    using permitted by (simp add: retrieve_def comp_defs Let_def cs sc)
  show ?thesis
  proof (cases "rq_semantic_text q \<noteq> None \<and> scores = []")
    case True
    then have none: "List.map_filter (qualifies dec judge q (holdings lib cfg s) ?score) ?ids = []"
      using left by (intro map_filter_none) (auto simp: qualifies_def split: option.split)
    have "reference_retrieve lib dec (ask q) judge q (holdings lib cfg s) ?score ?ids =
        mk_RetrievalBatch (rq_query_id q) [] False (qd_policy_revision (ask q))"
      using True left unfolding reference_retrieve_def none Let_def by auto
    then show ?thesis unfolding run using True by simp
  next
    case False
    then have "rq_semantic_text q \<noteq> None \<longrightarrow> (\<exists>u \<in> set ?ids. ?score u \<noteq> None)" using left by blast
    then show ?thesis
      unfolding run if_not_P [OF False] select_reference [where judge = judge and q = q and qd = "ask q", OF ok same [rule_format]] cs(3) sc(2)
      by (simp add: reference_retrieve_def Let_def)
  qed
qed

section \<open>A concrete run\<close>

definition recall_query :: "int \<Rightarrow> int \<Rightarrow> retrieval_query" where
  "recall_query a b = \<lparr>rq_time_range = \<lparr>tr_start = Aware a, tr_end = Aware b\<rparr>, rq_application = None, rq_workspace = None,
     rq_keywords = [''hello''], rq_semantic_text = None, rq_filters = [], rq_limit = 100, rq_candidate_limit = 1024, rq_query_id = 7\<rparr>"

definition captured_record :: "int \<Rightarrow> envelope \<Rightarrow> redacted_record" where
  "captured_record t e = \<lparr>xr_record_id = ev_record_id e, xr_frame = \<lparr>xf_frame_id = 1, xf_generation = CaptureGeneration 1,
     xf_captured_at = Aware t, xf_width = 1, xf_height = 1, xf_stride = 1, xf_format = GRAY8, xf_pixels = [0],
     xf_metadata = \<lparr>md_observed_at = Aware t, md_fields = []\<rparr>, xf_ocr_text = [''Hello'', ''world''], xf_findings = [],
     xf_policy_revision = ''r1'', xf_allowlist = []\<rparr>, xr_created_at = Aware t\<rparr>"

definition permit_all :: retrieval_decision where
  "permit_all = \<lparr>qd_allowed = True, qd_remote_eligible = True, qd_policy_revision = ''r1'', qd_reason_code = ''ok''\<rparr>"

abbreviation "recall_service t \<equiv> quiet_service sample_blob_lib sample_storage (captured_record t) (\<lambda>_. permit_all) (\<lambda>_ _. permit_all) (\<lambda>_ _ _ _. [])"

lemma permit_all_simps [simp]: "qd_allowed permit_all" "qd_remote_eligible permit_all" "qd_policy_revision permit_all = ''r1''"
  by (simp_all add: permit_all_def)

lemma recall_query_simps [simp]:
  "rq_semantic_text (recall_query a b) = None" "rq_limit (recall_query a b) = 100" "rq_query_id (recall_query a b) = 7"
  by (simp_all add: recall_query_def)

lemma recall_query_ok:
  "mk_RetrievalQuery (recall_query a b) = Inr (recall_query a b)"
  "a < b \<Longrightarrow> mk_ResolvedTimeRange (Aware a) (Aware b) = Inr (rq_time_range (recall_query a b))"
proof -
  have "casefold (strip ''hello'') = ''hello''" by code_simp
  then show "mk_RetrievalQuery (recall_query a b) = Inr (recall_query a b)"
    by (simp add: mk_RetrievalQuery_def recall_query_def MAX_RESULT_LIMIT_def MAX_CANDIDATE_LIMIT_def)
qed (simp add: mk_ResolvedTimeRange_def recall_query_def)

lemma recall_store:
  "\<exists>s :: store. run (storage_step sample_blob_lib sample_storage) empty_store s \<and> store_ok sample_blob_lib sample_storage s \<and>
    holdings sample_blob_lib sample_storage s (ev_record_id sample_envelope) = Some sample_envelope \<and>
    (\<exists>m. ready_rows s = [(ev_record_id sample_envelope, m, READY)] \<and> cm_day m = 0)"
proof -
  obtain ref s where s: "put_sync sample_blob_lib sample_storage [] sample_envelope empty_store = (Inr ref, s)"
    "store_ok sample_blob_lib sample_storage s"
    "holdings sample_blob_lib sample_storage s (ev_record_id sample_envelope) = Some sample_envelope"
    using sample_put by blast
  have run: "run (storage_step sample_blob_lib sample_storage) empty_store s"
    by (rule run_one) (rule step_put [OF sample_encoded(1) s(1)])
  have "dom (holdings sample_blob_lib sample_storage s) = {ev_record_id sample_envelope}"
    using put_effect(3) [OF sample_blob_lib_ok sample_encoded(1) settled_ok [OF empty_store_settled] s(1)]
    by (auto simp: empty_store_def holdings_def cell_token cell_value_def)
  then have keys: "fst ` set (ready_rows s) = {ev_record_id sample_envelope}"
    using ready_rows_holdings [OF s(2)] by (metis list.set_map ready_ids)
  moreover have "distinct (map fst (ready_rows s))" using s(2) by (auto simp: store_ok_def intro: ready_keys_distinct)
  ultimately have "length (ready_rows s) = 1"
    by (metis card_1_singleton_iff distinct_card length_map list.set_map One_nat_def)
  then obtain row where row: "ready_rows s = [row]" by (metis One_nat_def length_0_conv length_Suc_conv)
  obtain k m st where kms: "row = (k, m, st)" by (cases row)
  have in_row: "row \<in> set (ready_rows s)" by (simp add: row)
  have m: "k = ev_record_id sample_envelope" "st = READY" "(k, m, READY) \<in> set (st_records s)"
    using keys in_row [unfolded ready_rows_set] by (auto simp: row kms)
  have "cm_day m = 0" using row_day [OF s(2) m(3)] s(3) by (simp add: m(1) sample_envelope_def day_of_def)
  then show ?thesis using run s(2,3) row kms m(1,2) by blast
qed

lemma recall_candidates:
  assumes "ready_rows s = [(u, m, READY)]" and "cm_day m = 0"
  shows "candidate_ids (recall_query a b) s = (if a div 86400000000 \<le> 0 \<and> 0 \<le> (b - 1) div 86400000000 then [u] else [])"
  using assms by (simp add: candidate_ids_def recall_query_def day_of_def)

lemma recall_passage:
  "mk_passage (captured_record t e) (recall_query a b) None = Inr \<lparr>ps_record_id = ev_record_id e, ps_captured_at = Aware t,
     ps_excerpt = ''Hello'' @ newline @ ''world'', ps_score = 1, ps_provenance = [], ps_redaction_revision = ''r1'', ps_finding_count = 0\<rparr>"
proof -
  have "take MAX_EXCERPT_CHARS (join_lines [''Hello'', ''world'']) = ''Hello'' @ newline @ ''world''"
    "contains (casefold (join_lines [''Hello'', ''world''])) ''hello''" "nonempty ''r1''" by code_simp+
  then show ?thesis
    by (simp add: mk_passage_def captured_record_def recall_query_def passage_provenance_def mk_RetrievedPassage_def passage_score_def)
qed

lemma recall_matches: "record_matches (recall_query a b) (captured_record t e) \<longleftrightarrow> a \<le> t \<and> t < b"
proof -
  have "contains (casefold (join_lines [''Hello'', ''world''])) ''hello''" by code_simp
  then show ?thesis by (simp add: record_matches_def recall_query_def captured_record_def Let_def)
qed

definition recall_batch :: retrieval_batch where
  "recall_batch = \<lparr>rb_query_id = 7, rb_passages = [\<lparr>ps_record_id = ev_record_id sample_envelope, ps_captured_at = Aware 500,
     ps_excerpt = ''Hello'' @ newline @ ''world'', ps_score = 1, ps_provenance = [], ps_redaction_revision = ''r1'', ps_finding_count = 0\<rparr>],
     rb_remote_eligible = True, rb_policy_revision = ''r1''\<rparr>"

lemma recall_reference:
  "\<exists>s :: store. store_ok sample_blob_lib sample_storage s \<and>
    reference_retrieve sample_blob_lib (captured_record 500) permit_all (\<lambda>_ _. permit_all) (recall_query 0 1000000)
      (holdings sample_blob_lib sample_storage s) (query_scores (\<lambda>_ _ _ _. []) (recall_query 0 1000000) (candidate_ids (recall_query 0 1000000) s))
      (candidate_ids (recall_query 0 1000000) s) = Inr recall_batch"
proof -
  obtain s :: store and m where s: "store_ok sample_blob_lib sample_storage s"
    "holdings sample_blob_lib sample_storage s (ev_record_id sample_envelope) = Some sample_envelope"
    "ready_rows s = [(ev_record_id sample_envelope, m, READY)]" "cm_day m = 0" using recall_store by blast
  let ?q = "recall_query 0 1000000"
  have ids: "candidate_ids ?q s = [ev_record_id sample_envelope]" by (simp add: recall_candidates [OF s(3,4)])
  have sc: "query_scores (\<lambda>_ _ _ _. []) ?q ids = Map.empty" for ids by (rule ext) (simp add: query_scores_def)
  have q: "qualifies (captured_record 500) (\<lambda>_ _. permit_all) ?q (holdings sample_blob_lib sample_storage s) Map.empty (ev_record_id sample_envelope) =
      Some (captured_record 500 sample_envelope, None)"
    unfolding qualifies_def s(2) option.case recall_matches by simp
  have ne: "nonempty ''r1''" by code_simp
  have "reference_retrieve sample_blob_lib (captured_record 500) permit_all (\<lambda>_ _. permit_all) ?q
      (holdings sample_blob_lib sample_storage s) (query_scores (\<lambda>_ _ _ _. []) ?q (candidate_ids ?q s)) (candidate_ids ?q s) = Inr recall_batch"
    unfolding ids sc
    by (simp add: reference_retrieve_def List.map_filter_def q recall_passage mk_RetrievalBatch_def Let_def ne recall_batch_def)
  with s(1) show ?thesis by blast
qed

section \<open>Properties\<close>

text \<open>
  C38. Retrieval returns what it should. When no other task uses the store meanwhile and the policy keeps
  one revision, the answer to a valid, permitted query is that of the reference: of the first
  \<open>candidate_limit\<close> rows of the day buckets that the range touches, in catalog order, the records that are
  held, match every filter of the query, have a semantic hit if one was asked for, and are permitted by
  the policy; each with its best hit, ranked by score, time and identifier and cut to the limit; eligible
  for a remote provider only if the query and every one of them is. Nothing is missed and the store is
  left as it was.
\<close>

theorem retrieval_matches_reference:
  assumes ok: "store_ok lib cfg s" and q: "mk_RetrievalQuery q0 = Inr q" "mk_ResolvedTimeRange x y = Inr (rq_time_range q)"
    and permitted: "qd_allowed (ask q)" and same: "\<forall>r. qd_policy_revision (judge q r) = qd_policy_revision (ask q)"
  shows "retrieve (quiet_service lib cfg dec ask judge search) q s =
    (reference_retrieve lib dec (ask q) judge q (holdings lib cfg s) (query_scores search q (candidate_ids q s)) (candidate_ids q s), s)"
  using assms by (rule quiet_retrieve)

theorem retrieval_matches_reference_witness:
  "\<exists>s. retrieve (recall_service 500) (recall_query 0 1000000) s = (Inr recall_batch, s)"
proof -
  obtain s :: store where s: "store_ok sample_blob_lib sample_storage s"
    "reference_retrieve sample_blob_lib (captured_record 500) permit_all (\<lambda>_ _. permit_all) (recall_query 0 1000000)
      (holdings sample_blob_lib sample_storage s) (query_scores (\<lambda>_ _ _ _. []) (recall_query 0 1000000) (candidate_ids (recall_query 0 1000000) s))
      (candidate_ids (recall_query 0 1000000) s) = Inr recall_batch"
    using recall_reference by blast
  from retrieval_matches_reference [OF s(1) recall_query_ok(1) recall_query_ok(2), of 0 1000000 "\<lambda>_. permit_all" "\<lambda>_ _. permit_all"
      "captured_record 500" "\<lambda>_ _ _ _. []"] show ?thesis unfolding s(2) by auto
qed

text \<open>
  C37. What a batch may contain. Other tasks may put, read and delete records and recover the store during
  every awaited call. Whatever they do, a batch answers its query with at most \<open>limit\<close> passages, ranked and
  without duplicates; a denied query gets an empty batch and the store is not touched; and every passage
  comes from a record of the day buckets of the query that was held, then decrypted, matched the query, was
  then permitted under the policy revision of the query, and was still held after that. The batch is
  eligible for a remote provider only if the query and each of these records is.
\<close>

theorem retrieved_passages_are_authorized:
  assumes "blob_lib_ok (rs_lib sv)" and "store_ok (rs_lib sv) (rs_cfg sv) s" and "yields sv" and "retrieve sv q s = (Inr b, s')"
  shows "\<exists>qd s1. fst (rs_authorize_query sv q s) = Inr qd \<and> history sv s s1 \<and> rb_query_id b = rq_query_id q \<and>
    length (rb_passages b) \<le> nat (rq_limit q) \<and> distinct (map ps_record_id (rb_passages b)) \<and>
    sorted (map (rank_key (rs_lib sv)) (rb_passages b)) \<and>
    (\<not> qd_allowed qd \<longrightarrow> rb_passages b = [] \<and> \<not> rb_remote_eligible b \<and> s' = snd (rs_authorize_query sv q s)) \<and>
    (rb_remote_eligible b \<longrightarrow> qd_remote_eligible qd) \<and>
    (\<forall>p \<in> set (rb_passages b). rb_policy_revision b = qd_policy_revision qd \<and>
      (\<exists>u r rd score. u \<in> listed_ids q s1 \<and> admitted sv s q qd u r rd \<and> mk_passage r q score = Inr p \<and>
        (rb_remote_eligible b \<longrightarrow> qd_remote_eligible rd)))"
proof -
  obtain qd scores s1 where sound: "fst (rs_authorize_query sv q s) = Inr qd" "history sv s s1"
    "batch_sound sv s q qd scores (listed_ids q s1) b" "\<not> qd_allowed qd \<longrightarrow> rb_passages b = [] \<and> s' = snd (rs_authorize_query sv q s)"
    using wp_returned [OF assms(4) shared_store.retrieve_sound [OF yields_shares [OF assms(3)]]] assms(1,2) by blast
  note b = sound(3) [unfolded batch_sound_def sourced_def]
  have "\<forall>p \<in> set (rb_passages b). rb_policy_revision b = qd_policy_revision qd \<and>
      (\<exists>u r rd score. u \<in> listed_ids q s1 \<and> admitted sv s q qd u r rd \<and> mk_passage r q score = Inr p \<and>
        (rb_remote_eligible b \<longrightarrow> qd_remote_eligible rd))"
  proof
    fix p
    assume p: "p \<in> set (rb_passages b)"
    then have "rb_passages b \<noteq> []" by auto
    with b have "rb_policy_revision b = qd_policy_revision qd" by blast
    moreover from b p obtain u r rd where "u \<in> listed_ids q s1" "admitted sv s q qd u r rd" "mk_passage r q (map_of scores u) = Inr p"
      "rb_remote_eligible b \<longrightarrow> qd_remote_eligible rd" by blast
    ultimately show "rb_policy_revision b = qd_policy_revision qd \<and>
      (\<exists>u r rd score. u \<in> listed_ids q s1 \<and> admitted sv s q qd u r rd \<and> mk_passage r q score = Inr p \<and>
        (rb_remote_eligible b \<longrightarrow> qd_remote_eligible rd))" by blast
  qed
  moreover have "\<not> qd_allowed qd \<longrightarrow> \<not> rb_remote_eligible b" using b by blast
  ultimately show ?thesis using sound(1,2,4) b by blast
qed

theorem retrieved_passages_are_authorized_witness:
  "\<exists>s b p. retrieve (recall_service 500) (recall_query 0 1000000) s = (Inr b, s) \<and> rb_passages b = [p] \<and>
    (\<exists>u r rd. admitted (recall_service 500) s (recall_query 0 1000000) permit_all u r rd)"
proof -
  obtain s :: store where ok: "store_ok sample_blob_lib sample_storage s"
    and ref: "reference_retrieve sample_blob_lib (captured_record 500) permit_all (\<lambda>_ _. permit_all) (recall_query 0 1000000)
      (holdings sample_blob_lib sample_storage s) (query_scores (\<lambda>_ _ _ _. []) (recall_query 0 1000000) (candidate_ids (recall_query 0 1000000) s))
      (candidate_ids (recall_query 0 1000000) s) = Inr recall_batch"
    using recall_reference by blast
  have run: "retrieve (recall_service 500) (recall_query 0 1000000) s = (Inr recall_batch, s)"
    using quiet_retrieve [OF ok recall_query_ok(1) recall_query_ok(2), of 0 1000000 "\<lambda>_. permit_all" "\<lambda>_ _. permit_all"
      "captured_record 500" "\<lambda>_ _ _ _. []"] unfolding ref by simp
  have "\<exists>p. rb_passages recall_batch = [p]" by (simp add: recall_batch_def)
  then obtain p where p: "rb_passages recall_batch = [p]" ..
  have "\<exists>u r rd. admitted (recall_service 500) s (recall_query 0 1000000) permit_all u r rd"
    using retrieved_passages_are_authorized [of "recall_service 500", OF _ _ quiet_yields run] sample_blob_lib_ok ok p
    by (auto simp: ret_def)
  then show ?thesis using run p by blast
qed

text \<open>
  Catalog days are days of encryption, queries ask for days of capture: a record captured one microsecond
  before midnight and encrypted one millisecond after it is held, readable and in the range of a query for
  the day of its capture, and the query does not return it.
\<close>

theorem late_encryption_hides_record:
  "\<exists>s b. run (storage_step sample_blob_lib sample_storage) empty_store s \<and>
    holdings sample_blob_lib sample_storage s (ev_record_id sample_envelope) = Some sample_envelope \<and>
    record_matches (recall_query (- 86400000000) 0) (captured_record (- 1) sample_envelope) \<and>
    retrieve (recall_service (- 1)) (recall_query (- 86400000000) 0) s = (Inr b, s) \<and> rb_passages b = []"
proof -
  obtain s :: store and m where s: "run (storage_step sample_blob_lib sample_storage) empty_store s" "store_ok sample_blob_lib sample_storage s"
    "holdings sample_blob_lib sample_storage s (ev_record_id sample_envelope) = Some sample_envelope"
    "ready_rows s = [(ev_record_id sample_envelope, m, READY)]" "cm_day m = 0" using recall_store by blast
  let ?q = "recall_query (- 86400000000) 0"
  have ids: "candidate_ids ?q s = []" by (simp add: recall_candidates [OF s(4,5)])
  have ne: "nonempty ''r1''" by code_simp
  have "retrieve (recall_service (- 1)) ?q s = (reference_retrieve sample_blob_lib (captured_record (- 1)) permit_all (\<lambda>_ _. permit_all) ?q
      (holdings sample_blob_lib sample_storage s) (query_scores (\<lambda>_ _ _ _. []) ?q []) [], s)"
    using quiet_retrieve [OF s(2) recall_query_ok(1) recall_query_ok(2), of "- 86400000000" 0 "\<lambda>_. permit_all" "\<lambda>_ _. permit_all"
      "captured_record (- 1)" "\<lambda>_ _ _ _. []"] by (simp add: ids)
  then have "\<exists>b. retrieve (recall_service (- 1)) ?q s = (Inr b, s) \<and> rb_passages b = []"
    by (simp add: reference_retrieve_def List.map_filter_def mk_RetrievalBatch_def Let_def ne)
  then show ?thesis using s(1,3) recall_matches [of "- 86400000000" 0 "- 1"] by auto
qed

end
