(* ===== verification/Model_Routing.thy ===== *)
theory Model_Routing
  imports Redaction_Policy "HOL-Library.Multiset"
begin

text \<open>
  Routing of model requests and the egress gate: \<^verbatim>\<open>src/local_recall/domain/privacy.py\<close>,
  \<^verbatim>\<open>domain/providers.py\<close> and \<^verbatim>\<open>routing.py\<close>. The byte encoding of texts and the SHA-256 digest are
  parameters; the detector of the gate is the modelled one.
\<close>

section \<open>Providers and requests\<close>

datatype privacy_class = PUBLIC | OPERATIONAL_METADATA | REDACTED_CONTENT | ENCRYPTED_CONTENT | RAW_CAPTURE | SECRET_MATERIAL

datatype provider_location = LOCAL | REMOTE

datatype model_capability = GENERATION | EMBEDDING | VISION

datatype generation_role = EXTRACTION | SUMMARIZATION_ROLE | ANSWERING

datatype egress_data_class = REDACTED_TEXT | APPROVED_METADATA | REDACTED_IMAGE

record egress_authorization =
  ea_authorization_id :: string
  ea_provider_id :: string
  ea_data_classes :: "egress_data_class set"
  ea_max_payload_bytes :: int

definition mk_EgressAuthorization :: "egress_authorization \<Rightarrow> exn + egress_authorization" where
  "mk_EgressAuthorization a =
    bindS (ensure (nonempty (ea_authorization_id a)) (ValueError ''authorization_id must not be empty'')) (\<lambda>_.
    bindS (ensure (nonempty (ea_provider_id a)) (ValueError ''provider_id must not be empty'')) (\<lambda>_.
    bindS (ensure (ea_data_classes a \<noteq> {}) (ValueError ''egress authorization requires data classes'')) (\<lambda>_.
    bindS (ensure (0 < ea_max_payload_bytes a) (ValueError ''egress payload limit must be positive'')) (\<lambda>_. Inr a))))"

record provider_capabilities =
  pc_provider_id :: string
  pc_location :: provider_location
  pc_capabilities :: "model_capability set"
  pc_accepted :: "privacy_class set"
  pc_max_input_bytes :: int
  pc_supports_vision :: bool
  pc_max_context_tokens :: "int option"
  pc_structured_output :: bool
  pc_available :: bool

definition mk_ProviderCapabilities :: "provider_capabilities \<Rightarrow> exn + provider_capabilities" where
  "mk_ProviderCapabilities p =
    bindS (ensure (nonempty (pc_provider_id p)) (ValueError ''provider_id must not be empty'')) (\<lambda>_.
    bindS (ensure (pc_capabilities p \<noteq> {}) (ValueError ''provider must declare at least one capability'')) (\<lambda>_.
    bindS (ensure (pc_accepted p \<noteq> {}) (ValueError ''provider must declare accepted privacy classes'')) (\<lambda>_.
    bindS (ensure (0 < pc_max_input_bytes p) (ValueError ''max_input_bytes must be positive'')) (\<lambda>_.
    bindS (ensure (\<not> (pc_supports_vision p \<and> VISION \<notin> pc_capabilities p)) (ValueError ''vision support requires the vision capability'')) (\<lambda>_.
    bindS (ensure (opt_ok (\<lambda>n. 0 < n) (pc_max_context_tokens p)) (ValueError ''max_context_tokens must be positive'')) (\<lambda>_. Inr p))))))"

definition accepts :: "provider_capabilities \<Rightarrow> privacy_class \<Rightarrow> bool" where
  "accepts p c \<longleftrightarrow> c \<in> pc_accepted p"

record generation_request =
  gr_prompt :: string
  gr_context :: "string list"
  gr_privacy_class :: privacy_class
  gr_max_output_tokens :: int
  gr_role :: generation_role

definition mk_GenerationRequest :: "generation_request \<Rightarrow> exn + generation_request" where
  "mk_GenerationRequest g =
    bindS (ensure (nonempty (gr_prompt g)) (ValueError ''prompt must not be empty'')) (\<lambda>_.
    bindS (ensure (0 < gr_max_output_tokens g) (ValueError ''max_output_tokens must be positive'')) (\<lambda>_. Inr g))"

record generation_response =
  ge_text :: string
  ge_provider_id :: string
  ge_model_id :: string
  ge_input_tokens :: "int option"
  ge_output_tokens :: "int option"

definition mk_GenerationResponse :: "generation_response \<Rightarrow> exn + generation_response" where
  "mk_GenerationResponse g =
    bindS (ensure (nonempty (ge_text g)) (ValueError ''text must not be empty'')) (\<lambda>_.
    bindS (ensure (nonempty (ge_provider_id g)) (ValueError ''provider_id must not be empty'')) (\<lambda>_.
    bindS (ensure (nonempty (ge_model_id g)) (ValueError ''model_id must not be empty'')) (\<lambda>_.
    bindS (ensure (opt_ok (\<lambda>n. 0 \<le> n) (ge_input_tokens g)) (ValueError ''input_tokens must be non-negative'')) (\<lambda>_.
    bindS (ensure (opt_ok (\<lambda>n. 0 \<le> n) (ge_output_tokens g)) (ValueError ''output_tokens must be non-negative'')) (\<lambda>_. Inr g)))))"

record routing_request =
  ro_capability :: model_capability
  ro_privacy_class :: privacy_class
  ro_allow_remote :: bool
  ro_authorization_id :: "string option"
  ro_data_classes :: "egress_data_class set"
  ro_authorization :: "egress_authorization option"

definition mk_RoutingRequest :: "routing_request \<Rightarrow> exn + routing_request" where
  "mk_RoutingRequest r =
    bindS (ensure (opt_ok nonempty (ro_authorization_id r)) (ValueError ''egress_authorization_id must not be empty'')) (\<lambda>_.
    case ro_authorization r of
      None \<Rightarrow> Inr r
    | Some a \<Rightarrow>
        bindS (ensure (ro_allow_remote r) (ValueError ''egress authorization requires allow_remote'')) (\<lambda>_.
        bindS (ensure (ro_authorization_id r \<in> {None, Some (ea_authorization_id a)})
          (ValueError ''egress authorization identifiers must match'')) (\<lambda>_. Inr r)))"

record routing_decision =
  de_provider_id :: string
  de_location :: provider_location
  de_capability :: model_capability
  de_authorization_id :: "string option"
  de_reason_code :: string

definition mk_RoutingDecision :: "routing_decision \<Rightarrow> exn + routing_decision" where
  "mk_RoutingDecision d =
    bindS (ensure (nonempty (de_provider_id d)) (ValueError ''provider_id must not be empty'')) (\<lambda>_.
    bindS (ensure (nonempty (de_reason_code d)) (ValueError ''reason_code must not be empty'')) (\<lambda>_.
    bindS (ensure (\<not> (de_location d = REMOTE \<and> de_authorization_id d = None))
      (ValueError ''remote routing requires explicit egress authorization'')) (\<lambda>_.
    bindS (ensure (opt_ok nonempty (de_authorization_id d)) (ValueError ''egress_authorization_id must not be empty'')) (\<lambda>_. Inr d))))"

section \<open>Routing\<close>

datatype routing_mode = MODE_PRIVACY_STRICT | MODE_LOCAL_ONLY | MODE_LOCAL_FIRST | MODE_REMOTE_EXPLICIT

definition REMOTE_PRIVACY_CLASSES :: "privacy_class set" where
  "REMOTE_PRIVACY_CLASSES = {PUBLIC, OPERATIONAL_METADATA, REDACTED_CONTENT}"

definition provider_matches :: "provider_location \<Rightarrow> routing_request \<Rightarrow> provider_capabilities \<Rightarrow> bool" where
  "provider_matches loc r p \<longleftrightarrow> pc_location p = loc \<and> pc_available p \<and> ro_capability r \<in> pc_capabilities p \<and>
    accepts p (ro_privacy_class r)"

fun local_reason :: "routing_mode \<Rightarrow> exn + string" where
  "local_reason MODE_PRIVACY_STRICT = Inr ''privacy-strict-local''"
| "local_reason MODE_LOCAL_ONLY = Inr ''local-only''"
| "local_reason MODE_LOCAL_FIRST = Inr ''local-first''"
| "local_reason MODE_REMOTE_EXPLICIT = Inl (RuntimeError ''KeyError'')"

definition route_local :: "routing_mode \<Rightarrow> routing_request \<Rightarrow> provider_capabilities list \<Rightarrow> exn + routing_decision" where
  "route_local mode r ps = (case find (provider_matches LOCAL r) ps of
     Some p \<Rightarrow> bindS (local_reason mode) (\<lambda>reason.
       mk_RoutingDecision \<lparr>de_provider_id = pc_provider_id p, de_location = LOCAL, de_capability = ro_capability r,
         de_authorization_id = None, de_reason_code = reason\<rparr>)
   | None \<Rightarrow> Inl (NoRouteError (if mode = MODE_PRIVACY_STRICT then ''privacy-strict-local-only'' else ''local-unavailable'')))"

definition route_remote :: "routing_request \<Rightarrow> provider_capabilities list \<Rightarrow> exn + routing_decision" where
  "route_remote r ps = (case ro_authorization r of
     None \<Rightarrow> Inl (NoRouteError ''egress-authorization-required'')
   | Some a \<Rightarrow>
       bindS (ensure (ro_allow_remote r) (NoRouteError ''egress-authorization-required'')) (\<lambda>_.
       bindS (ensure (ro_authorization_id r \<in> {None, Some (ea_authorization_id a)}) (NoRouteError ''egress-authorization-mismatch'')) (\<lambda>_.
       bindS (ensure (ro_privacy_class r \<in> REMOTE_PRIVACY_CLASSES) (NoRouteError ''privacy-class-denied'')) (\<lambda>_.
       bindS (ensure (ro_data_classes r \<noteq> {}) (NoRouteError ''egress-data-class-required'')) (\<lambda>_.
       bindS (ensure (ro_data_classes r \<subseteq> ea_data_classes a) (NoRouteError ''egress-data-class-denied'')) (\<lambda>_.
       case find (\<lambda>p. pc_provider_id p = ea_provider_id a \<and> provider_matches REMOTE r p) ps of
         Some p \<Rightarrow> mk_RoutingDecision \<lparr>de_provider_id = pc_provider_id p, de_location = REMOTE, de_capability = ro_capability r,
           de_authorization_id = Some (ea_authorization_id a), de_reason_code = ''remote-explicit-authorized''\<rparr>
       | None \<Rightarrow> Inl (NoRouteError ''remote-unavailable'')))))))"

definition route :: "routing_mode \<Rightarrow> routing_request \<Rightarrow> provider_capabilities list \<Rightarrow> exn + routing_decision" where
  "route mode r ps = (if mode = MODE_REMOTE_EXPLICIT then route_remote r ps else route_local mode r ps)"

section \<open>The egress gate\<close>

record egress_payload =
  ep_text :: string
  ep_metadata :: "(string \<times> string) list"
  ep_image :: "byte list"

definition mk_EgressPayload :: "egress_payload \<Rightarrow> exn + egress_payload" where
  "mk_EgressPayload p =
    bindS (ensure (\<not> (ep_text p = [] \<and> ep_metadata p = [] \<and> ep_image p = [])) (ValueError ''egress payload must not be empty'')) (\<lambda>_.
    bindS (ensure (list_all (\<lambda>(n, _). n \<noteq> []) (ep_metadata p)) (ValueError ''metadata names must not be empty'')) (\<lambda>_.
    bindS (ensure (distinct (map fst (ep_metadata p))) (ValueError ''metadata names must be unique'')) (\<lambda>_. Inr p)))"

definition data_classes :: "egress_payload \<Rightarrow> egress_data_class set" where
  "data_classes p = (if ep_text p \<noteq> [] then {REDACTED_TEXT} else {}) \<union> (if ep_metadata p \<noteq> [] then {APPROVED_METADATA} else {}) \<union>
    (if ep_image p \<noteq> [] then {REDACTED_IMAGE} else {})"

record approved_payload = egress_payload +
  ap_authorization_id :: string
  ap_provider_id :: string
  ap_data_classes :: "egress_data_class set"
  ap_payload_bytes :: int
  ap_payload_sha256 :: string

record egress_lib =
  utf8 :: "string \<Rightarrow> byte list"
  sha256 :: "byte list \<Rightarrow> string"

record egress_gate =
  eg_lib :: detector_lib
  eg_detector :: detector

definition scan_text :: "egress_gate \<Rightarrow> string \<Rightarrow> exn + unit" where
  "scan_text g s = (if s = [] then Inr () else
    bindS (detector_scan (eg_lib g) (eg_detector g) s) (\<lambda>r.
    ensure (dt_matches r = []) (EgressDeniedError ''secret-detected'')))"

definition scan_metadata :: "egress_gate \<Rightarrow> string \<times> string \<Rightarrow> unit \<Rightarrow> exn + unit" where
  "scan_metadata g nv _ =
    bindS (ensure (sensitive_metadata_name (eg_lib g) (fst nv) = None) (EgressDeniedError ''sensitive-metadata'')) (\<lambda>_.
    scan_text g (snd nv))"

text \<open>The parts that are measured, in order, each with its kind.\<close>

definition measured_parts :: "egress_lib \<Rightarrow> egress_payload \<Rightarrow> (byte list \<times> byte list) list" where
  "measured_parts lib p =
    (if ep_text p \<noteq> [] then [(utf8 lib ''text'', utf8 lib (ep_text p))] else []) @
    concat (map (\<lambda>(n, v). [(utf8 lib ''metadata-name'', utf8 lib n), (utf8 lib ''metadata-value'', utf8 lib v)]) (sort (ep_metadata p))) @
    (if ep_image p \<noteq> [] then [(utf8 lib ''image'', ep_image p)] else [])"

definition measure_payload :: "egress_lib \<Rightarrow> egress_payload \<Rightarrow> int \<times> string" where
  "measure_payload lib p = (let parts = measured_parts lib p in
     (sum_list (map (\<lambda>(_, c). int (length c)) parts),
      sha256 lib (concat (map (\<lambda>(k, c). k @ be_bytes 8 (length c) @ c) parts))))"

definition approve :: "egress_lib \<Rightarrow> egress_gate \<Rightarrow> egress_payload \<Rightarrow> egress_authorization \<Rightarrow> exn + approved_payload" where
  "approve lib g p a =
    bindS (ensure (data_classes p \<subseteq> ea_data_classes a) (EgressDeniedError ''egress-data-class-denied'')) (\<lambda>_.
    bindS (scan_text g (ep_text p)) (\<lambda>_.
    bindS (foldS (scan_metadata g) (ep_metadata p) ()) (\<lambda>_.
    let m = measure_payload lib p in
    bindS (ensure (fst m \<le> ea_max_payload_bytes a) (EgressDeniedError ''payload-too-large'')) (\<lambda>_.
    Inr \<lparr>ep_text = ep_text p, ep_metadata = ep_metadata p, ep_image = ep_image p, ap_authorization_id = ea_authorization_id a,
      ap_provider_id = ea_provider_id a, ap_data_classes = data_classes p, ap_payload_bytes = fst m, ap_payload_sha256 = snd m\<rparr>))))"

section \<open>What routing decides\<close>

text \<open>A request may leave the machine: the conditions on the request alone.\<close>

definition remote_permitted :: "routing_request \<Rightarrow> egress_authorization \<Rightarrow> bool" where
  "remote_permitted r a \<longleftrightarrow> ro_authorization r = Some a \<and> ro_allow_remote r \<and> ro_authorization_id r \<in> {None, Some (ea_authorization_id a)} \<and>
    ro_privacy_class r \<in> REMOTE_PRIVACY_CLASSES \<and> ro_data_classes r \<noteq> {} \<and> ro_data_classes r \<subseteq> ea_data_classes a"

definition eligible :: "routing_mode \<Rightarrow> routing_request \<Rightarrow> provider_capabilities \<Rightarrow> bool" where
  "eligible mode r p \<longleftrightarrow> (if mode = MODE_REMOTE_EXPLICIT
     then \<exists>a. remote_permitted r a \<and> pc_provider_id p = ea_provider_id a \<and> provider_matches REMOTE r p
     else provider_matches LOCAL r p)"

lemma find_first:
  "find P xs = Some x \<longleftrightarrow> (\<exists>ys zs. xs = ys @ x # zs \<and> P x \<and> (\<forall>y \<in> set ys. \<not> P y))"
proof (induction xs)
  case (Cons a xs)
  show ?case
  proof (cases "P a")
    case True
    then show ?thesis by (auto simp: Cons_eq_append_conv)
  next
    case False
    then show ?thesis using Cons by (auto simp: Cons_eq_append_conv) (metis append_Cons set_ConsD)
  qed
qed simp

lemma find_none: "find P xs = None \<longleftrightarrow> (\<forall>x \<in> set xs. \<not> P x)"
  by (auto simp: find_None_iff)

lemma decision_made:
  "nonempty i \<Longrightarrow> opt_ok nonempty a \<Longrightarrow> nonempty c \<Longrightarrow> (loc = REMOTE \<longrightarrow> a \<noteq> None) \<Longrightarrow>
    mk_RoutingDecision \<lparr>de_provider_id = i, de_location = loc, de_capability = k, de_authorization_id = a, de_reason_code = c\<rparr> =
    Inr \<lparr>de_provider_id = i, de_location = loc, de_capability = k, de_authorization_id = a, de_reason_code = c\<rparr>"
  by (auto simp: mk_RoutingDecision_def)

definition decides_for :: "routing_mode \<Rightarrow> routing_request \<Rightarrow> provider_capabilities \<Rightarrow> routing_decision \<Rightarrow> bool" where
  "decides_for mode r p d \<longleftrightarrow> de_provider_id d = pc_provider_id p \<and> de_location d = pc_location p \<and> de_capability d = ro_capability r \<and>
    de_authorization_id d = (if mode = MODE_REMOTE_EXPLICIT then map_option ea_authorization_id (ro_authorization r) else None)"

lemma reason_nonempty: "nonempty ''privacy-strict-local''" "nonempty ''local-only''" "nonempty ''local-first''" "nonempty ''remote-explicit-authorized''"
  by (simp_all add: nonempty_def strip_def char_eval)

lemma route_local_cases:
  assumes "mode \<noteq> MODE_REMOTE_EXPLICIT" and "\<forall>p \<in> set ps. nonempty (pc_provider_id p)"
  shows "case find (provider_matches LOCAL r) ps of
      None \<Rightarrow> \<exists>c. route_local mode r ps = Inl (NoRouteError c)
    | Some p \<Rightarrow> \<exists>d. route_local mode r ps = Inr d \<and> decides_for mode r p d"
proof (cases "find (provider_matches LOCAL r) ps")
  case (Some p)
  then have p: "p \<in> set ps" "provider_matches LOCAL r p" by (auto simp: find_first)
  then have "nonempty (pc_provider_id p)" using assms(2) by blast
  then show ?thesis
    using Some assms(1) p(2) reason_nonempty
    by (cases mode) (auto simp: route_local_def decision_made opt_ok_def decides_for_def provider_matches_def)
qed (simp add: route_local_def)

lemma route_remote_cases:
  assumes "\<forall>p \<in> set ps. nonempty (pc_provider_id p)" and "\<forall>a. ro_authorization r = Some a \<longrightarrow> nonempty (ea_authorization_id a)"
  shows "case find (eligible MODE_REMOTE_EXPLICIT r) ps of
      None \<Rightarrow> \<exists>c. route_remote r ps = Inl (NoRouteError c)
    | Some p \<Rightarrow> \<exists>d. route_remote r ps = Inr d \<and> decides_for MODE_REMOTE_EXPLICIT r p d"
proof (cases "\<exists>a. remote_permitted r a")
  case True
  then obtain a where a: "remote_permitted r a" "ro_authorization r = Some a" by (auto simp: remote_permitted_def)
  have el: "eligible MODE_REMOTE_EXPLICIT r = (\<lambda>p. pc_provider_id p = ea_provider_id a \<and> provider_matches REMOTE r p)"
    using a by (auto simp: eligible_def remote_permitted_def fun_eq_iff)
  have rr: "route_remote r ps = (case find (\<lambda>p. pc_provider_id p = ea_provider_id a \<and> provider_matches REMOTE r p) ps of
         Some p \<Rightarrow> mk_RoutingDecision \<lparr>de_provider_id = pc_provider_id p, de_location = REMOTE, de_capability = ro_capability r,
           de_authorization_id = Some (ea_authorization_id a), de_reason_code = ''remote-explicit-authorized''\<rparr>
       | None \<Rightarrow> Inl (NoRouteError ''remote-unavailable''))"
    using a by (simp add: route_remote_def remote_permitted_def)
  show ?thesis
  proof (cases "find (eligible MODE_REMOTE_EXPLICIT r) ps")
    case (Some p)
    then have "p \<in> set ps" "provider_matches REMOTE r p" by (auto simp: find_first el)
    then show ?thesis using Some rr el a assms reason_nonempty
      by (simp add: decision_made opt_ok_def decides_for_def provider_matches_def)
  qed (use rr el in simp)
next
  case False
  then have "find (eligible MODE_REMOTE_EXPLICIT r) ps = None" by (simp add: find_none eligible_def)
  moreover have "\<exists>c. route_remote r ps = Inl (NoRouteError c)"
    using False by (auto simp: route_remote_def remote_permitted_def ensure_def split: option.split)
  ultimately show ?thesis by simp
qed

text \<open>
  For valid providers, routing picks the first eligible provider and fails with the no-route error
  exactly when there is none. Outside the explicit remote mode eligible means a local provider that is
  available, has the capability and accepts the privacy class; in that mode it means the remote
  provider the authorization names, for a request that allows remote use, carries that authorization,
  has a privacy class that may leave the machine, and states data classes the authorization covers.
\<close>

theorem routing_picks_first_eligible:
  assumes "\<forall>p \<in> set ps. mk_ProviderCapabilities p = Inr p" and "\<forall>a. ro_authorization r = Some a \<longrightarrow> mk_EgressAuthorization a = Inr a"
  shows "case route mode r ps of
      Inr d \<Rightarrow> (\<exists>p pre post. ps = pre @ p # post \<and> eligible mode r p \<and> (\<forall>q \<in> set pre. \<not> eligible mode r q) \<and> decides_for mode r p d)
    | Inl exc \<Rightarrow> (\<exists>c. exc = NoRouteError c) \<and> (\<forall>p \<in> set ps. \<not> eligible mode r p)"
proof -
  have ps: "\<forall>p \<in> set ps. nonempty (pc_provider_id p)" using assms(1) by (auto simp: mk_ProviderCapabilities_def bindS_Inr ensure_Inr)
  have auth: "\<forall>a. ro_authorization r = Some a \<longrightarrow> nonempty (ea_authorization_id a)"
    using assms(2) by (auto simp: mk_EgressAuthorization_def bindS_Inr ensure_Inr)
  have loc: "mode \<noteq> MODE_REMOTE_EXPLICIT \<Longrightarrow> provider_matches LOCAL r = eligible mode r" by (auto simp: eligible_def)
  have "case find (eligible mode r) ps of
      None \<Rightarrow> \<exists>c. route mode r ps = Inl (NoRouteError c) | Some p \<Rightarrow> \<exists>d. route mode r ps = Inr d \<and> decides_for mode r p d"
  proof (cases "mode = MODE_REMOTE_EXPLICIT")
    case True
    then show ?thesis using route_remote_cases [OF ps auth] unfolding route_def True by simp
  next
    case False
    then show ?thesis using route_local_cases [OF False ps, of r] loc unfolding route_def by simp
  qed
  then show ?thesis
    by (cases "find (eligible mode r) ps") (auto simp: find_none find_first, metis)
qed

definition sample_remote :: provider_capabilities where
  "sample_remote = \<lparr>pc_provider_id = ''hosted'', pc_location = REMOTE, pc_capabilities = {GENERATION}, pc_accepted = {REDACTED_CONTENT},
     pc_max_input_bytes = 4096, pc_supports_vision = False, pc_max_context_tokens = None, pc_structured_output = True, pc_available = True\<rparr>"

definition sample_authorization :: egress_authorization where
  "sample_authorization = \<lparr>ea_authorization_id = ''grant-1'', ea_provider_id = ''hosted'', ea_data_classes = {REDACTED_TEXT},
     ea_max_payload_bytes = 4096\<rparr>"

definition sample_routing :: routing_request where
  "sample_routing = \<lparr>ro_capability = GENERATION, ro_privacy_class = REDACTED_CONTENT, ro_allow_remote = True,
     ro_authorization_id = Some ''grant-1'', ro_data_classes = {REDACTED_TEXT}, ro_authorization = Some sample_authorization\<rparr>"

theorem routing_picks_first_eligible_witness:
  "\<exists>d. route MODE_REMOTE_EXPLICIT sample_routing [sample_remote] = Inr d \<and> de_provider_id d = ''hosted''"
proof -
  have p: "\<forall>p \<in> set [sample_remote]. mk_ProviderCapabilities p = Inr p" by code_simp
  have a: "\<forall>a. ro_authorization sample_routing = Some a \<longrightarrow> mk_EgressAuthorization a = Inr a"
    by (simp add: sample_routing_def) code_simp
  have "eligible MODE_REMOTE_EXPLICIT sample_routing sample_remote"
    by (simp add: eligible_def remote_permitted_def sample_routing_def sample_authorization_def sample_remote_def
        REMOTE_PRIVACY_CLASSES_def provider_matches_def accepts_def)
  with routing_picks_first_eligible [OF p a, of MODE_REMOTE_EXPLICIT] show ?thesis
    by (auto simp: decides_for_def sample_remote_def Cons_eq_append_conv split: sum.splits)
qed

section \<open>What the egress gate lets through\<close>

text \<open>The gate's own view of a text: no match, or nothing to scan.\<close>

definition clean_text :: "egress_gate \<Rightarrow> string \<Rightarrow> bool" where
  "clean_text g s \<longleftrightarrow> s = [] \<or> (\<exists>r. detector_scan (eg_lib g) (eg_detector g) s = Inr r \<and> dt_matches r = [])"

lemma scan_text_Inr: "scan_text g s = Inr () \<longleftrightarrow> clean_text g s"
  by (auto simp: scan_text_def clean_text_def bindS_Inr ensure_Inr)

lemma scan_metadata_Inr:
  "foldS (scan_metadata g) nvs () = Inr () \<longleftrightarrow>
    (\<forall>(n, v) \<in> set nvs. sensitive_metadata_name (eg_lib g) n = None \<and> clean_text g v)"
  by (induction nvs) (auto simp: scan_metadata_def bindS_Inr ensure_Inr scan_text_Inr)

lemma approve_Inr:
  "approve lib g p a = Inr ap \<longleftrightarrow> data_classes p \<subseteq> ea_data_classes a \<and> clean_text g (ep_text p) \<and>
    (\<forall>(n, v) \<in> set (ep_metadata p). sensitive_metadata_name (eg_lib g) n = None \<and> clean_text g v) \<and>
    fst (measure_payload lib p) \<le> ea_max_payload_bytes a \<and>
    ap = \<lparr>ep_text = ep_text p, ep_metadata = ep_metadata p, ep_image = ep_image p, ap_authorization_id = ea_authorization_id a,
      ap_provider_id = ea_provider_id a, ap_data_classes = data_classes p, ap_payload_bytes = fst (measure_payload lib p),
      ap_payload_sha256 = snd (measure_payload lib p)\<rparr>"
  by (auto simp: approve_def bindS_Inr ensure_Inr scan_text_Inr scan_metadata_Inr Let_def)

lemma measured_bytes:
  "fst (measure_payload lib p) = int (length (utf8 lib (ep_text p)) * (if ep_text p = [] then 0 else 1) +
    sum_list (map (\<lambda>(n, v). length (utf8 lib n) + length (utf8 lib v)) (ep_metadata p)) + length (ep_image p))"
proof -
  let ?f = "\<lambda>(n, v). length (utf8 lib n) + length (utf8 lib v)"
  have sort: "sum_list (map f (sort xs)) = sum_list (map f xs)" for f :: "string \<times> string \<Rightarrow> nat" and xs
    by (metis mset_sort mset_map sum_mset_sum_list)
  have "sum_list (map (\<lambda>(_, c). int (length c)) (concat (map (\<lambda>(n, v). [(utf8 lib ''metadata-name'', utf8 lib n),
      (utf8 lib ''metadata-value'', utf8 lib v)]) xs))) = int (sum_list (map ?f xs))" for xs
    by (induction xs) auto
  from this [of "sort (ep_metadata p)"] show ?thesis
    unfolding sort by (simp add: measure_payload_def measured_parts_def)
qed

end
