(* ===== verification/Answering.thy ===== *)
theory Answering
  imports Retrieval_Safety Model_Routing
begin

text \<open>
  Cited question answering (\<^verbatim>\<open>src/local_recall/answering\<close>): planning of a question, evidence labels and the
  validation of generated claims, and the answering service composed from retrieval, routing, the egress
  gate and the providers. The JSON parser, UTF-8, the digest and the time zones are parameters. A number
  in a JSON text is never looked into.
\<close>

section \<open>Answers\<close>

datatype answer_mode = CONCISE | TIMELINE

datatype answer_claim_kind = OBSERVED | INFERENCE

record answer_citation =
  ac_record_id :: record_uuid
  ac_captured_at :: datetime

definition mk_AnswerCitation :: "record_uuid \<Rightarrow> datetime \<Rightarrow> exn + answer_citation" where
  "mk_AnswerCitation rid t = bindS (ensure (is_aware t) (ValueError ''captured_at must be timezone-aware'')) (\<lambda>_.
     Inr \<lparr>ac_record_id = rid, ac_captured_at = t\<rparr>)"

record answer_claim =
  cl_kind :: answer_claim_kind
  cl_text :: string
  cl_citations :: "answer_citation list"

definition mk_AnswerClaim :: "answer_claim \<Rightarrow> exn + answer_claim" where
  "mk_AnswerClaim c =
    bindS (ensure (nonempty (cl_text c)) (ValueError ''text must not be empty'')) (\<lambda>_.
    bindS (ensure (cl_citations c \<noteq> []) (ValueError ''citations must not be empty'')) (\<lambda>_.
    bindS (ensure (distinct (map ac_record_id (cl_citations c))) (ValueError ''citations must be unique'')) (\<lambda>_. Inr c)))"

record cited_answer =
  an_mode :: answer_mode
  an_claims :: "answer_claim list"
  an_insufficient :: bool
  an_policy_revision :: string

definition mk_CitedAnswer :: "cited_answer \<Rightarrow> exn + cited_answer" where
  "mk_CitedAnswer a =
    bindS (ensure (nonempty (an_policy_revision a)) (ValueError ''policy_revision must not be empty'')) (\<lambda>_.
    bindS (ensure (\<not> (an_insufficient a \<and> an_claims a \<noteq> [])) (ValueError ''insufficient answer cannot contain claims'')) (\<lambda>_.
    bindS (ensure (\<not> (\<not> an_insufficient a \<and> an_claims a = [])) (ValueError ''supported answer must contain claims'')) (\<lambda>_. Inr a)))"

section \<open>Planning\<close>

record planned_query =
  pq_query :: retrieval_query
  pq_expression :: string

definition mk_PlannedAnswerQuery :: "retrieval_query \<Rightarrow> string \<Rightarrow> exn + planned_query" where
  "mk_PlannedAnswerQuery q e =
    bindS (ensure (nonempty e) (ValueError ''resolved_time_expression must not be empty'')) (\<lambda>_.
    Inr \<lparr>pq_query = q, pq_expression = e\<rparr>)"

definition TIME_SELECTOR :: matcher where
  "TIME_SELECTOR = m_seq [m_boundary, m_alt ([m_lit ''today'', m_lit ''yesterday'', weekday_names, date_body, duration_body]), m_boundary]"

definition selector_char :: "char \<Rightarrow> bool" where
  "selector_char c \<longleftrightarrow> is_alnum c \<or> c \<in> {CHR ''_'', CHR ''.'', CHR ''-''}"

definition is_punctuation :: "char \<Rightarrow> bool" where
  "is_punctuation c \<longleftrightarrow> c \<in> {CHR ''?'', CHR ''.'', CHR ''!'', CHR '',''}"

definition APPLICATION_SELECTOR :: matcher where
  "APPLICATION_SELECTOR = m_seq [m_boundary, m_lit ''in app '', m_class 1 64 selector_char,
     m_look (m_alt [m_seq [m_spaces, m_lit ''in workspace'', m_boundary], m_class 1 1 is_punctuation, m_end])]"

definition WORKSPACE_SELECTOR :: matcher where
  "WORKSPACE_SELECTOR = m_seq [m_boundary, m_lit ''in workspace '', m_class 1 64 selector_char,
     m_look (m_alt [m_class 1 1 is_punctuation, m_end])]"

definition single_optional_match :: "matcher \<Rightarrow> string \<Rightarrow> string \<Rightarrow> exn + (nat \<times> nat) option" where
  "single_optional_match pattern question name = (case m_finditer pattern question of
     [] \<Rightarrow> Inr None
   | [sp] \<Rightarrow> Inr (Some sp)
   | _ \<Rightarrow> Inl (ValueError (''answer question has ambiguous '' @ name @ '' scope'')))"

text \<open>\<^verbatim>\<open>re.sub(r"\s+([?.!,])", r"\1", text)\<close>\<close>

function squeeze :: "string \<Rightarrow> string" where
  "squeeze [] = []"
| "squeeze (c # s) = (case dropWhile is_space s of
     p # rest \<Rightarrow> if is_space c \<and> is_punctuation p then p # squeeze rest else c # squeeze s
   | [] \<Rightarrow> c # squeeze s)"
  by pat_completeness auto
termination
proof (relation "measure length")
  fix c s p rest
  assume "dropWhile is_space s = p # rest"
  then have "length (p # rest) \<le> length s" by (metis length_dropWhile_le)
  then show "(rest, c # s) \<in> measure length" by simp
qed simp_all

definition blank_span :: "nat \<times> nat \<Rightarrow> string \<Rightarrow> string" where
  "blank_span sp s = take (fst sp) s @ replicate (snd sp - fst sp) (CHR '' '') @ drop (snd sp) s"

definition semantic_text :: "string \<Rightarrow> (nat \<times> nat) list \<Rightarrow> exn + string" where
  "semantic_text question spans = (let normalized = squeeze (normalize_spaces (fold blank_span spans question)) in
     bindS (ensure (nonempty normalized) (ValueError ''answer semantic text must not be empty'')) (\<lambda>_. Inr normalized))"

definition selected_value :: "nat \<Rightarrow> string \<Rightarrow> (nat \<times> nat) option \<Rightarrow> string option" where
  "selected_value skip question = map_option (\<lambda>sp. drop skip (cut_text question sp))"

definition spans_found :: "(nat \<times> nat) option list \<Rightarrow> (nat \<times> nat) list" where
  "spans_found = List.map_filter (\<lambda>x. x)"

definition plan_answer_query ::
    "(string \<Rightarrow> zone option) \<Rightarrow> record_uuid \<Rightarrow> string \<Rightarrow> datetime \<Rightarrow> string \<Rightarrow> exn + planned_query" where
  "plan_answer_query zones query_id question now timezone =
    bindS (ensure (nonempty question) (ValueError ''question must not be empty'')) (\<lambda>_.
    bindS (ensure (nonempty timezone) (ValueError ''timezone must not be empty'')) (\<lambda>_.
    bindS (ensure (is_aware now) (ValueError ''now must be timezone-aware'')) (\<lambda>_.
    case m_finditer TIME_SELECTOR question of
      [time_match] \<Rightarrow>
        let expression = cut_text question time_match in
        bindS (single_optional_match APPLICATION_SELECTOR question ''application'') (\<lambda>application_match.
        bindS (single_optional_match WORKSPACE_SELECTOR question ''workspace'') (\<lambda>workspace_match.
        bindS (resolve_time_range zones expression now timezone) (\<lambda>range.
        bindS (semantic_text question (spans_found [Some time_match, application_match, workspace_match])) (\<lambda>semantic.
        bindS (mk_RetrievalQuery \<lparr>rq_time_range = range, rq_application = selected_value 7 question application_match,
          rq_workspace = selected_value 13 question workspace_match, rq_keywords = [], rq_semantic_text = Some semantic,
          rq_filters = [], rq_limit = 100, rq_candidate_limit = 1024, rq_query_id = query_id\<rparr>) (\<lambda>q.
        mk_PlannedAnswerQuery q expression)))))
    | _ \<Rightarrow> Inl (ValueError ''answer question requires one time scope''))))"

section \<open>Evidence\<close>

record evidence_item =
  ei_label :: string
  ei_passage :: retrieved_passage

definition mk_EvidenceTable :: "evidence_item list \<Rightarrow> exn + evidence_item list" where
  "mk_EvidenceTable items =
    bindS (ensure (distinct (map ei_label items)) (ValueError ''evidence labels must be unique'')) (\<lambda>_.
    bindS (ensure (distinct (map (\<lambda>i. ps_record_id (ei_passage i)) items)) (ValueError ''evidence records must be unique'')) (\<lambda>_.
    Inr items))"

definition evidence_label :: "nat \<Rightarrow> string" where
  "evidence_label i = CHR ''E'' # digit_string i"

definition build_evidence_table :: "retrieval_batch \<Rightarrow> rat \<Rightarrow> exn + evidence_item list" where
  "build_evidence_table batch minimum_score =
    bindS (ensure (-1 \<le> minimum_score \<and> minimum_score \<le> 1) (ValueError ''minimum evidence score is invalid'')) (\<lambda>_.
    let selected = filter (\<lambda>p. minimum_score \<le> ps_score p) (rb_passages batch) in
    mk_EvidenceTable (map (\<lambda>(i, p). \<lparr>ei_label = evidence_label (Suc i), ei_passage = p\<rparr>) (enumerate 0 selected)))"

definition MAX_CLAIMS :: nat where
  "MAX_CLAIMS = 32"

definition MAX_CLAIM_CHARS :: nat where
  "MAX_CLAIM_CHARS = 4096"

abbreviation "bad_schema \<equiv> ValueError ''generated claim schema is invalid''"

abbreviation "bad_evidence \<equiv> ValueError ''generated claim evidence is invalid''"

fun unique_keys :: "json \<Rightarrow> bool" where
  "unique_keys (JObj kvs) \<longleftrightarrow> distinct (map fst kvs) \<and> (\<forall>kv \<in> set kvs. unique_keys (snd kv))"
| "unique_keys (JArr js) \<longleftrightarrow> (\<forall>j \<in> set js. unique_keys j)"
| "unique_keys _ \<longleftrightarrow> True"

definition load_json_object :: "(string \<Rightarrow> json option) \<Rightarrow> string \<Rightarrow> exn + (string \<times> json) list" where
  "load_json_object loads text = (case loads text of
     Some j \<Rightarrow> if unique_keys j then (case j of JObj kvs \<Rightarrow> Inr kvs | _ \<Rightarrow> Inl bad_schema) else Inl bad_schema
   | None \<Rightarrow> Inl bad_schema)"

definition normalize_support_text :: "string \<Rightarrow> string" where
  "normalize_support_text s = casefold (normalize_spaces s)"

definition observed_supported :: "string \<Rightarrow> evidence_item list \<Rightarrow> bool" where
  "observed_supported text items \<longleftrightarrow>
    list_ex (\<lambda>i. contains (normalize_support_text (ps_excerpt (ei_passage i))) (normalize_support_text text)) items"

fun kind_of :: "string \<Rightarrow> answer_claim_kind option" where
  "kind_of s = (if s = ''observed'' then Some OBSERVED else if s = ''inference'' then Some INFERENCE else None)"

fun string_of_json :: "json \<Rightarrow> string option" where
  "string_of_json (JStr s) = Some s"
| "string_of_json _ = None"

definition by_label :: "evidence_item list \<Rightarrow> string \<rightharpoonup> evidence_item" where
  "by_label items = map_of (map (\<lambda>i. (ei_label i, i)) items)"

definition parse_evidence :: "(string \<rightharpoonup> evidence_item) \<Rightarrow> json \<Rightarrow> exn + evidence_item list" where
  "parse_evidence labels v = (case v of
     JArr objects \<Rightarrow>
       bindS (ensure (objects \<noteq> [] \<and> list_all (\<lambda>j. string_of_json j \<noteq> None) objects) bad_evidence) (\<lambda>_.
       let ids = map (\<lambda>j. the (string_of_json j)) objects in
       bindS (ensure (distinct ids \<and> list_all (\<lambda>i. labels i \<noteq> None) ids) bad_evidence) (\<lambda>_.
       Inr (map (\<lambda>i. the (labels i)) ids)))
   | _ \<Rightarrow> Inl bad_evidence)"

definition parse_claim :: "(string \<rightharpoonup> evidence_item) \<Rightarrow> json \<Rightarrow> exn + answer_claim" where
  "parse_claim labels raw = (case raw of
     JObj kvs \<Rightarrow>
       bindS (ensure (fst ` set kvs = {''kind'', ''text'', ''evidence_ids''}) bad_schema) (\<lambda>_.
       case (map_of kvs ''kind'', map_of kvs ''text'', map_of kvs ''evidence_ids'') of
         (Some (JStr kind_value), Some (JStr text), Some evidence_value) \<Rightarrow>
           bindS (ensure (strip text \<noteq> [] \<and> length text \<le> MAX_CLAIM_CHARS) bad_schema) (\<lambda>_.
           case kind_of kind_value of
             None \<Rightarrow> Inl bad_schema
           | Some kind \<Rightarrow>
               bindS (parse_evidence labels evidence_value) (\<lambda>selected.
               bindS (ensure (\<not> (kind = OBSERVED \<and> \<not> observed_supported text selected)) (ValueError ''observed claim is unsupported'')) (\<lambda>_.
               bindS (mapS (\<lambda>i. mk_AnswerCitation (ps_record_id (ei_passage i)) (ps_captured_at (ei_passage i))) selected) (\<lambda>citations.
               mk_AnswerClaim \<lparr>cl_kind = kind, cl_text = strip text, cl_citations = citations\<rparr>))))
       | _ \<Rightarrow> Inl bad_schema)
   | _ \<Rightarrow> Inl bad_schema)"

definition citation_key :: "answer_citation \<Rightarrow> int \<times> string" where
  "citation_key c = (instant (ac_captured_at c), uuid_hex (ac_record_id c))"

definition timeline_key :: "answer_claim \<Rightarrow> int \<times> string" where
  "timeline_key c = citation_key (min_by citation_key (hd (cl_citations c)) (tl (cl_citations c)))"

definition parse_generated_claims ::
    "(string \<Rightarrow> json option) \<Rightarrow> string \<Rightarrow> evidence_item list \<Rightarrow> answer_mode \<Rightarrow> string \<Rightarrow> exn + cited_answer" where
  "parse_generated_claims loads text table mode revision =
    bindS (ensure (nonempty text) (ValueError ''generated claims must not be empty'')) (\<lambda>_.
    bindS (load_json_object loads text) (\<lambda>raw.
    case map_of raw ''claims'' of
      Some (JArr raw_claims) \<Rightarrow>
        bindS (ensure (fst ` set raw = {''claims''}) bad_schema) (\<lambda>_.
        bindS (ensure (\<not> (raw_claims = [] \<or> MAX_CLAIMS < length raw_claims)) bad_schema) (\<lambda>_.
        bindS (mapS (parse_claim (by_label table)) raw_claims) (\<lambda>claims.
        mk_CitedAnswer \<lparr>an_mode = mode, an_claims = (if mode = TIMELINE then sort_key timeline_key claims else claims),
          an_insufficient = False, an_policy_revision = revision\<rparr>)))
    | _ \<Rightarrow> Inl bad_schema))"

section \<open>The service\<close>

datatype provider_call = LocalCall string generation_request | RemoteCall string approved_payload

text \<open>
  What an answer works on: the record store, which the retrieval service and other tasks use, and the
  calls made to generation providers so far.
\<close>

record answering_state =
  as_store :: store
  as_calls :: "provider_call list"

record local_provider =
  lp_capabilities :: "(store, provider_capabilities) comp"
  lp_generate :: "generation_request \<Rightarrow> (store, generation_response) comp"

record remote_generator =
  mp_capabilities :: "(store, provider_capabilities) comp"
  mp_generate :: "approved_payload \<Rightarrow> (store, generation_response) comp"

record answering_service =
  sv_retrieval :: retrieval_service
  sv_mode :: routing_mode
  sv_local :: "local_provider list"
  sv_remote :: "remote_generator list"
  sv_gate :: "egress_gate option"
  sv_minimum_score :: rat
  sv_lib :: egress_lib
  sv_loads :: "string \<Rightarrow> json option"
  sv_zones :: "string \<Rightarrow> zone option"

definition mk_AnsweringService :: "answering_service \<Rightarrow> exn + answering_service" where
  "mk_AnsweringService sv =
    bindS (ensure (-1 \<le> sv_minimum_score sv \<and> sv_minimum_score sv \<le> 1) (ValueError ''minimum evidence score is invalid'')) (\<lambda>_.
    bindS (ensure (\<not> (sv_local sv = [] \<and> sv_remote sv = [])) (ValueError ''answering requires at least one provider'')) (\<lambda>_. Inr sv))"

definition on_store :: "(store, 'a) comp \<Rightarrow> (answering_state, 'a) comp" where
  "on_store m = on_field as_store (\<lambda>t st. st\<lparr>as_store := t\<rparr>) m"

primrec each_capabilities :: "(store, provider_capabilities) comp list \<Rightarrow> (answering_state, provider_capabilities list) comp" where
  "each_capabilities [] = ret []"
| "each_capabilities (m # ms) = bindE (on_store m) (\<lambda>c. bindE (each_capabilities ms) (\<lambda>cs. ret (c # cs)))"

definition MAX_OUTPUT_TOKENS :: int where
  "MAX_OUTPUT_TOKENS = 1024"

fun mode_value :: "answer_mode \<Rightarrow> string" where
  "mode_value CONCISE = ''concise''"
| "mode_value TIMELINE = ''timeline''"

definition generation_prompt :: "answer_mode \<Rightarrow> string" where
  "generation_prompt mode =
    ''Use only the supplied redacted evidence. Return JSON with exactly one top-level key '' @
    ''named claims. claims must be a non-empty array of objects with exactly kind, text, and '' @
    ''evidence_ids. kind is observed or inference. evidence_ids must contain only supplied '' @
    ''opaque evidence labels. Observed text must be copied exactly from cited evidence; '' @
    ''inference may synthesize but must remain explicitly typed as inference. Do not emit '' @
    ''record IDs, timestamps, citation syntax, or unavailable facts. Answer mode: '' @ mode_value mode @ ''.''"

definition generation_context :: "evidence_item list \<Rightarrow> string list" where
  "generation_context table = map (\<lambda>i. ei_label i @ '': '' @ ps_excerpt (ei_passage i)) table"

definition remote_prompt :: "string \<Rightarrow> string list \<Rightarrow> string" where
  "remote_prompt prompt context = prompt @ newline @ newline @ ''Evidence:'' @ newline @ join_lines context"

definition validate_generation_capabilities :: "egress_lib \<Rightarrow> provider_capabilities \<Rightarrow> string \<Rightarrow> string list \<Rightarrow> exn + unit" where
  "validate_generation_capabilities lib c prompt context =
    bindS (ensure (pc_structured_output c) (AnsweringFailure ''structured generation output required'')) (\<lambda>_.
    ensure (int (length (utf8 lib prompt) + sum_list (map (\<lambda>x. length (utf8 lib x)) context)) \<le> pc_max_input_bytes c)
      (AnsweringFailure ''answering input exceeds provider limit''))"

definition select_provider :: "string \<Rightarrow> 'p list \<Rightarrow> provider_capabilities list \<Rightarrow> exn + ('p \<times> provider_capabilities)" where
  "select_provider provider_id providers capabilities = (case find (\<lambda>(p, c). pc_provider_id c = provider_id) (zip providers capabilities) of
     Some pc \<Rightarrow> Inr pc | None \<Rightarrow> Inl (AnsweringFailure ''routed generation provider unavailable''))"

definition calling :: "provider_call \<Rightarrow> (store, 'a) comp \<Rightarrow> (answering_state, 'a) comp" where
  "calling call m = seqE (modifies (\<lambda>st. st\<lparr>as_calls := as_calls st @ [call]\<rparr>)) (on_store m)"

definition generate_local ::
    "answering_service \<Rightarrow> string \<Rightarrow> string \<Rightarrow> string list \<Rightarrow> provider_capabilities list \<Rightarrow> (answering_state, generation_response) comp" where
  "generate_local sv provider_id prompt context capabilities =
    bindE (lift (select_provider provider_id (sv_local sv) capabilities)) (\<lambda>(provider, c).
    bindE (lift (validate_generation_capabilities (sv_lib sv) c prompt context)) (\<lambda>_.
    bindE (lift (mk_GenerationRequest \<lparr>gr_prompt = prompt, gr_context = context, gr_privacy_class = REDACTED_CONTENT,
      gr_max_output_tokens = MAX_OUTPUT_TOKENS, gr_role = ANSWERING\<rparr>)) (\<lambda>request.
    calling (LocalCall provider_id request) (lp_generate provider request))))"

definition generate_remote ::
    "answering_service \<Rightarrow> string \<Rightarrow> string \<Rightarrow> string list \<Rightarrow> provider_capabilities list \<Rightarrow> retrieval_batch \<Rightarrow>
     egress_authorization option \<Rightarrow> (answering_state, generation_response) comp" where
  "generate_remote sv provider_id prompt context capabilities batch authorization =
    seqE (require (rb_remote_eligible batch) (AnsweringFailure ''remote retrieval not eligible''))
    (case authorization of
      None \<Rightarrow> raise (AnsweringFailure ''remote egress authorization required'')
    | Some a \<Rightarrow>
        seqE (require (ea_provider_id a = provider_id) (AnsweringFailure ''remote egress authorization required''))
        (case sv_gate sv of
          None \<Rightarrow> raise (AnsweringFailure ''remote egress gate unavailable'')
        | Some gate \<Rightarrow>
            bindE (lift (select_provider provider_id (sv_remote sv) capabilities)) (\<lambda>(provider, c).
            bindE (lift (validate_generation_capabilities (sv_lib sv) c prompt context)) (\<lambda>_.
            bindE (lift (mk_EgressPayload \<lparr>ep_text = remote_prompt prompt context, ep_metadata = [], ep_image = []\<rparr>)) (\<lambda>payload.
            bindE (lift (approve (sv_lib sv) gate payload a)) (\<lambda>approved.
            calling (RemoteCall provider_id approved) (mp_generate provider approved)))))))"

definition generate_claims ::
    "answering_service \<Rightarrow> answer_mode \<Rightarrow> egress_authorization option \<Rightarrow> retrieval_batch \<Rightarrow> evidence_item list \<Rightarrow> (answering_state, cited_answer) comp" where
  "generate_claims sv mode authorization batch table =
    bindE (each_capabilities (map lp_capabilities (sv_local sv))) (\<lambda>local_capabilities.
    bindE (each_capabilities (map mp_capabilities (sv_remote sv))) (\<lambda>remote_capabilities.
    bindE (lift (mk_RoutingRequest \<lparr>ro_capability = GENERATION, ro_privacy_class = REDACTED_CONTENT,
      ro_allow_remote = authorization \<noteq> None, ro_authorization_id = map_option ea_authorization_id authorization,
      ro_data_classes = (if authorization \<noteq> None then {REDACTED_TEXT} else {}), ro_authorization = authorization\<rparr>)) (\<lambda>request.
    bindE (lift (route (sv_mode sv) request (local_capabilities @ remote_capabilities))) (\<lambda>decision.
    let prompt = generation_prompt mode; context = generation_context table in
    bindE (if de_location decision = LOCAL
      then generate_local sv (de_provider_id decision) prompt context local_capabilities
      else generate_remote sv (de_provider_id decision) prompt context remote_capabilities batch authorization) (\<lambda>response.
    seqE (require (ge_provider_id response = de_provider_id decision) (AnsweringFailure ''generation provider identity mismatch''))
    (lift (parse_generated_claims (sv_loads sv) (ge_text response) table mode (rb_policy_revision batch))))))))"

definition answer ::
    "answering_service \<Rightarrow> record_uuid \<Rightarrow> string \<Rightarrow> datetime \<Rightarrow> string \<Rightarrow> answer_mode \<Rightarrow> egress_authorization option \<Rightarrow>
     (answering_state, cited_answer) comp" where
  "answer sv query_id question now timezone mode authorization =
    bindE (lift (plan_answer_query (sv_zones sv) query_id question now timezone)) (\<lambda>planned.
    bindE (on_store (retrieve (sv_retrieval sv) (pq_query planned))) (\<lambda>batch.
    bindE (lift (build_evidence_table batch (sv_minimum_score sv))) (\<lambda>table.
    if table = [] then
      lift (mk_CitedAnswer \<lparr>an_mode = mode, an_claims = [], an_insufficient = True, an_policy_revision = rb_policy_revision batch\<rparr>)
    else generate_claims sv mode authorization batch table)))"

end
