(* ===== verification/Answering_Safety.thy ===== *)
theory Answering_Safety
  imports Answering
begin

text \<open>
  What answering promises: every claim of an answer rests on retrieved evidence, and a question reaches
  at most one provider, a remote one only with an approved payload.
\<close>

section \<open>Normalized texts\<close>

lemma split_words_leading: "split_words [] (dropWhile is_space s) = split_words [] s"
  by (induction s) simp_all

lemma split_words_spaces: "list_all is_space r \<Longrightarrow> split_words w r = (if w = [] then [] else [w])"
  by (induction r arbitrary: w) auto

lemma split_words_trailing: "list_all is_space r \<Longrightarrow> split_words w (s @ r) = split_words w s"
  by (induction s arbitrary: w) (auto simp: split_words_spaces)

lemma split_words_strip: "split_words [] (strip s) = split_words [] s"
proof -
  let ?t = "dropWhile is_space s"
  have "?t = strip s @ rev (takeWhile is_space (rev ?t))"
    unfolding strip_def by (metis rev_append rev_rev_ident takeWhile_dropWhile_id)
  moreover have "list_all is_space (rev (takeWhile is_space (rev ?t)))"
    by (auto simp: list_all_iff dest: set_takeWhileD)
  ultimately have "split_words [] ?t = split_words [] (strip s)" by (metis split_words_trailing)
  then show ?thesis by (simp add: split_words_leading)
qed

lemma normalize_support_strip: "normalize_support_text (strip s) = normalize_support_text s"
  by (simp add: normalize_support_text_def normalize_spaces_def split_words_strip)

section \<open>Claims\<close>

text \<open>
  A claim is grounded in a list of passages: it cites at least one of them, none twice, with the record and
  capture time of the passage, and an observed claim is, up to spacing and case, part of the excerpt of one
  it cites.
\<close>

definition cites :: "answer_claim \<Rightarrow> retrieved_passage \<Rightarrow> bool" where
  "cites c p \<longleftrightarrow> \<lparr>ac_record_id = ps_record_id p, ac_captured_at = ps_captured_at p\<rparr> \<in> set (cl_citations c)"

definition grounded :: "retrieved_passage list \<Rightarrow> answer_claim \<Rightarrow> bool" where
  "grounded ps c \<longleftrightarrow> cl_citations c \<noteq> [] \<and> distinct (map ac_record_id (cl_citations c)) \<and>
     (\<forall>ct \<in> set (cl_citations c). \<exists>p \<in> set ps. ct = \<lparr>ac_record_id = ps_record_id p, ac_captured_at = ps_captured_at p\<rparr>) \<and>
     (cl_kind c = OBSERVED \<longrightarrow> (\<exists>p \<in> set ps. cites c p \<and>
       contains (normalize_support_text (ps_excerpt p)) (normalize_support_text (cl_text c)))) \<and>
     nonempty (cl_text c) \<and> length (cl_text c) \<le> MAX_CLAIM_CHARS"

lemma mapS_elem:
  assumes "mapS f xs = Inr ys" and "y \<in> set ys"
  shows "\<exists>x \<in> set xs. f x = Inr y"
  using assms by (induction xs arbitrary: ys) (auto simp: bindS_Inr)

lemma mapS_image:
  assumes "mapS f xs = Inr ys" and "x \<in> set xs"
  shows "\<exists>y \<in> set ys. f x = Inr y"
  using assms by (induction xs arbitrary: ys) (fastforce simp: bindS_Inr)+

lemma mapS_length: "mapS f xs = Inr ys \<Longrightarrow> length ys = length xs"
  by (induction xs arbitrary: ys) (auto simp: bindS_Inr)

lemma parsed_evidence:
  assumes "parse_evidence (by_label table) v = Inr items"
  shows "set items \<subseteq> set table"
proof -
  have in_table: "by_label table l = Some i \<Longrightarrow> i \<in> set table" for l i
    by (auto simp: by_label_def dest!: map_of_SomeD)
  show ?thesis using assms in_table by (cases v) (auto simp: parse_evidence_def bindS_Inr ensure_Inr Let_def list_all_iff)
qed

lemma parsed_claim_grounded:
  assumes "parse_claim (by_label table) raw = Inr c"
  shows "grounded (map ei_passage table) c"
proof -
  obtain kvs where "raw = JObj kvs" using assms by (cases raw) (simp_all add: parse_claim_def)
  then obtain kind_value words ev where kvs: "map_of kvs ''kind'' = Some (JStr kind_value)" "map_of kvs ''text'' = Some (JStr words)"
    "map_of kvs ''evidence_ids'' = Some ev"
    using assms by (auto simp: parse_claim_def bindS_Inr split: option.splits json.splits)
  obtain kind items cs where
    parts: "strip words \<noteq> []" "length words \<le> MAX_CLAIM_CHARS" "parse_evidence (by_label table) ev = Inr items"
      "kind = OBSERVED \<longrightarrow> observed_supported words items"
      "mapS (\<lambda>i. mk_AnswerCitation (ps_record_id (ei_passage i)) (ps_captured_at (ei_passage i))) items = Inr cs"
      "mk_AnswerClaim \<lparr>cl_kind = kind, cl_text = strip words, cl_citations = cs\<rparr> = Inr c"
    using assms \<open>raw = JObj kvs\<close> kvs by (auto simp: parse_claim_def bindS_Inr ensure_Inr split: option.splits)
  have c: "c = \<lparr>cl_kind = kind, cl_text = strip words, cl_citations = cs\<rparr>" "nonempty (strip words)" "cs \<noteq> []" "distinct (map ac_record_id cs)"
    using parts(6) by (auto simp: mk_AnswerClaim_def bindS_Inr ensure_Inr)
  have cite: "mk_AnswerCitation (ps_record_id (ei_passage i)) (ps_captured_at (ei_passage i)) = Inr ct \<Longrightarrow>
      ct = \<lparr>ac_record_id = ps_record_id (ei_passage i), ac_captured_at = ps_captured_at (ei_passage i)\<rparr>" for i ct
    by (auto simp: mk_AnswerCitation_def bindS_Inr ensure_Inr)
  have "\<exists>p \<in> set (map ei_passage table). ct = \<lparr>ac_record_id = ps_record_id p, ac_captured_at = ps_captured_at p\<rparr>" if "ct \<in> set cs" for ct
    using mapS_elem [OF parts(5) that] parsed_evidence [OF parts(3)] cite by auto
  moreover have "\<exists>p \<in> set (map ei_passage table). cites c p \<and> contains (normalize_support_text (ps_excerpt p)) (normalize_support_text (cl_text c))"
    if observed: "kind = OBSERVED"
  proof -
    obtain i where i: "i \<in> set items" "contains (normalize_support_text (ps_excerpt (ei_passage i))) (normalize_support_text words)"
      using parts(4) observed by (auto simp: observed_supported_def list_ex_iff)
    moreover have "cites c (ei_passage i)" using mapS_image [OF parts(5) i(1)] cite by (auto simp: cites_def c(1))
    ultimately show ?thesis using parsed_evidence [OF parts(3)] by (auto simp: c(1) normalize_support_strip)
  qed
  moreover have "length (strip words) \<le> MAX_CLAIM_CHARS" using parts(2) length_strip [of words] by simp
  ultimately show ?thesis using c by (auto simp: grounded_def)
qed

lemma accepted_answer:
  assumes "mk_CitedAnswer x = Inr a"
  shows "a = x" "an_insufficient x \<longleftrightarrow> an_claims x = []"
  using assms by (auto simp: mk_CitedAnswer_def bindS_Inr ensure_Inr)

lemma parsed_claims:
  assumes "parse_generated_claims loads output table mode revision = Inr a"
  obtains raws claims where "length raws \<le> MAX_CLAIMS" "mapS (parse_claim (by_label table)) raws = Inr claims"
    "mk_CitedAnswer \<lparr>an_mode = mode, an_claims = (if mode = TIMELINE then sort_key timeline_key claims else claims),
          an_insufficient = False, an_policy_revision = revision\<rparr> = Inr a"
proof -
  define finish where "finish claims = mk_CitedAnswer \<lparr>an_mode = mode, an_claims = (if mode = TIMELINE then sort_key timeline_key claims else claims),
          an_insufficient = False, an_policy_revision = revision\<rparr>" for claims
  define parse where "parse = mapS (parse_claim (by_label table))"
  obtain raw where raw: "(case map_of raw ''claims'' of
      Some (JArr raw_claims) \<Rightarrow>
        bindS (ensure (fst ` set raw = {''claims''}) bad_schema) (\<lambda>_.
        bindS (ensure (\<not> (raw_claims = [] \<or> MAX_CLAIMS < length raw_claims)) bad_schema) (\<lambda>_.
        bindS (parse raw_claims) finish))
    | _ \<Rightarrow> Inl bad_schema) = Inr a"
    using assms unfolding parse_generated_claims_def bindS_Inr finish_def [symmetric] parse_def [symmetric] by (elim exE conjE)
  then obtain raws where raws: "map_of raw ''claims'' = Some (JArr raws)"
    by (cases "map_of raw ''claims''") (simp_all split: json.splits)
  from raw obtain claims where "length raws \<le> MAX_CLAIMS" "parse raws = Inr claims" "finish claims = Inr a"
    by (auto simp: raws bindS_Inr ensure_Inr)
  then show thesis using that unfolding finish_def parse_def by simp
qed

lemma parsed_answer:
  assumes "parse_generated_claims loads output table mode revision = Inr a"
  shows "an_mode a = mode" "\<not> an_insufficient a" "an_policy_revision a = revision" "an_claims a \<noteq> []" "length (an_claims a) \<le> MAX_CLAIMS"
    "\<forall>c \<in> set (an_claims a). grounded (map ei_passage table) c" "mode = TIMELINE \<longrightarrow> sorted (map timeline_key (an_claims a))"
proof -
  obtain raws claims where p: "length raws \<le> MAX_CLAIMS" "mapS (parse_claim (by_label table)) raws = Inr claims"
    "mk_CitedAnswer \<lparr>an_mode = mode, an_claims = (if mode = TIMELINE then sort_key timeline_key claims else claims),
          an_insufficient = False, an_policy_revision = revision\<rparr> = Inr a"
    by (rule parsed_claims [OF assms])
  note a = accepted_answer [OF p(3)]
  show "an_mode a = mode" "\<not> an_insufficient a" "an_policy_revision a = revision" "an_claims a \<noteq> []"
    "mode = TIMELINE \<longrightarrow> sorted (map timeline_key (an_claims a))" using a by simp_all
  show "length (an_claims a) \<le> MAX_CLAIMS" using p(1) mapS_length [OF p(2)] by (simp add: a(1))
  show "\<forall>c \<in> set (an_claims a). grounded (map ei_passage table) c"
  proof
    fix c
    assume "c \<in> set (an_claims a)"
    then have "c \<in> set claims" by (simp add: a(1) split: if_splits)
    then show "grounded (map ei_passage table) c" using mapS_elem [OF p(2)] parsed_claim_grounded by blast
  qed
qed

lemma evidence_passages:
  assumes "build_evidence_table batch m = Inr table"
  shows "map ei_passage table = filter (\<lambda>p. m \<le> ps_score p) (rb_passages batch)"
proof -
  have "map ei_passage (map (\<lambda>(i, p). \<lparr>ei_label = evidence_label (Suc i), ei_passage = p\<rparr>) (enumerate 0 xs)) = xs" for xs
    by (simp add: o_def split_def)
  then show ?thesis using assms by (auto simp: build_evidence_table_def mk_EvidenceTable_def bindS_Inr ensure_Inr Let_def)
qed

section \<open>The flow of an answer\<close>

lemma wp_before: "(\<And>x t. wp (f x) Q (\<lambda>_ _. True) t) \<Longrightarrow> wp (bindE m f) Q (\<lambda>_ _. True) s"
  by (simp add: wp_bindE wp_def [of m] split: prod.split sum.split)

lemma wp_on_store: "wp (on_store m) Q E st = wp m (\<lambda>x t. Q x (st\<lparr>as_store := t\<rparr>)) (\<lambda>e t. E e (st\<lparr>as_store := t\<rparr>)) (as_store st)"
  by (simp add: on_store_def wp_on_field)

text \<open>What the planner, the retrieval and the evidence table gave for a question.\<close>

definition evidence_for ::
    "answering_service \<Rightarrow> record_uuid \<Rightarrow> string \<Rightarrow> datetime \<Rightarrow> string \<Rightarrow> store \<Rightarrow> planned_query \<Rightarrow> retrieval_batch \<Rightarrow> evidence_item list \<Rightarrow> bool" where
  "evidence_for sv query_id question now timezone s planned batch table \<longleftrightarrow>
     plan_answer_query (sv_zones sv) query_id question now timezone = Inr planned \<and>
     fst (retrieve (sv_retrieval sv) (pq_query planned) s) = Inr batch \<and>
     build_evidence_table batch (sv_minimum_score sv) = Inr table"

lemma wp_cited_answer:
  assumes failed: "\<And>e t. as_calls t = as_calls st \<Longrightarrow> E e t"
    and empty: "\<And>planned batch a t. evidence_for sv query_id question now timezone (as_store st) planned batch [] \<Longrightarrow> as_calls t = as_calls st \<Longrightarrow>
      mk_CitedAnswer \<lparr>an_mode = mode, an_claims = [], an_insufficient = True, an_policy_revision = rb_policy_revision batch\<rparr> = Inr a \<Longrightarrow> Q a t"
    and claims: "\<And>planned batch table t. evidence_for sv query_id question now timezone (as_store st) planned batch table \<Longrightarrow> table \<noteq> [] \<Longrightarrow>
      as_calls t = as_calls st \<Longrightarrow> wp (generate_claims sv mode authorization batch table) Q E t"
  shows "wp (answer sv query_id question now timezone mode authorization) Q E st"
proof (cases "plan_answer_query (sv_zones sv) query_id question now timezone")
  case (Inr planned)
  obtain res s1 where ret: "retrieve (sv_retrieval sv) (pq_query planned) (as_store st) = (res, s1)" by fastforce
  have step: "wp (answer sv query_id question now timezone mode authorization) Q E st =
    (case res of Inl e \<Rightarrow> E e (st\<lparr>as_store := s1\<rparr>) | Inr batch \<Rightarrow>
      (case build_evidence_table batch (sv_minimum_score sv) of Inl e \<Rightarrow> E e (st\<lparr>as_store := s1\<rparr>) | Inr table \<Rightarrow>
        wp (if table = [] then
          lift (mk_CitedAnswer \<lparr>an_mode = mode, an_claims = [], an_insufficient = True, an_policy_revision = rb_policy_revision batch\<rparr>)
          else generate_claims sv mode authorization batch table) Q E (st\<lparr>as_store := s1\<rparr>)))"
    by (simp add: answer_def Inr wp_bindE wp_lift wp_on_store wp_def [of "retrieve (sv_retrieval sv) (pq_query planned)"] ret split: sum.split)
  show ?thesis
  proof (cases res)
    case (Inl e)
    then show ?thesis unfolding step using failed by simp
  next
    case batch: (Inr batch)
    have ev: "build_evidence_table batch (sv_minimum_score sv) = Inr table \<Longrightarrow>
        evidence_for sv query_id question now timezone (as_store st) planned batch table" for table
      using Inr ret batch by (simp add: evidence_for_def)
    show ?thesis unfolding step batch sum.case
      using failed empty claims ev by (auto simp: wp_lift split: sum.split)
  qed
qed (simp add: answer_def wp_bindE wp_lift failed)

lemma generated_claims:
  "wp (generate_claims sv mode authorization batch table)
    (\<lambda>a _. \<exists>output. parse_generated_claims (sv_loads sv) output table mode (rb_policy_revision batch) = Inr a) (\<lambda>_ _. True) st"
  unfolding generate_claims_def Let_def
  by (intro wp_before) (auto simp: wp_rules split: sum.split)

lemma answer_result:
  assumes "answer sv query_id question now timezone mode authorization st = (Inr a, st')"
  shows "\<exists>planned batch table. evidence_for sv query_id question now timezone (as_store st) planned batch table \<and>
    an_policy_revision a = rb_policy_revision batch \<and> an_mode a = mode \<and> (an_insufficient a \<longleftrightarrow> an_claims a = []) \<and>
    length (an_claims a) \<le> MAX_CLAIMS \<and> (mode = TIMELINE \<longrightarrow> sorted (map timeline_key (an_claims a))) \<and>
    (\<forall>c \<in> set (an_claims a). grounded (map ei_passage table) c)"
proof -
  define R where "R a \<longleftrightarrow> (\<exists>planned batch table. evidence_for sv query_id question now timezone (as_store st) planned batch table \<and>
      (if table = [] then mk_CitedAnswer \<lparr>an_mode = mode, an_claims = [], an_insufficient = True, an_policy_revision = rb_policy_revision batch\<rparr> = Inr a
       else \<exists>output. parse_generated_claims (sv_loads sv) output table mode (rb_policy_revision batch) = Inr a))" for a
  have "wp (answer sv query_id question now timezone mode authorization) (\<lambda>a _. R a) (\<lambda>_ _. True) st"
  proof (rule wp_cited_answer)
    fix planned batch table t
    assume ev: "evidence_for sv query_id question now timezone (as_store st) planned batch table" "table \<noteq> []"
    have "R a" if "\<exists>output. parse_generated_claims (sv_loads sv) output table mode (rb_policy_revision batch) = Inr a" for a
      unfolding R_def using ev that by (intro exI [of _ planned] exI [of _ batch] exI [of _ table]) simp
    then show "wp (generate_claims sv mode authorization batch table) (\<lambda>a _. R a) (\<lambda>_ _. True) t"
      by (intro wp_mono [OF generated_claims])
  qed (auto simp: R_def)
  from wp_returned [OF assms this] obtain planned batch table where
    ev: "evidence_for sv query_id question now timezone (as_store st) planned batch table" and
    a: "if table = [] then mk_CitedAnswer \<lparr>an_mode = mode, an_claims = [], an_insufficient = True, an_policy_revision = rb_policy_revision batch\<rparr> = Inr a
       else \<exists>output. parse_generated_claims (sv_loads sv) output table mode (rb_policy_revision batch) = Inr a" unfolding R_def by blast
  have "an_policy_revision a = rb_policy_revision batch \<and> an_mode a = mode \<and> (an_insufficient a \<longleftrightarrow> an_claims a = []) \<and>
    length (an_claims a) \<le> MAX_CLAIMS \<and> (mode = TIMELINE \<longrightarrow> sorted (map timeline_key (an_claims a))) \<and>
    (\<forall>c \<in> set (an_claims a). grounded (map ei_passage table) c)"
  proof (cases "table = []")
    case True
    then show ?thesis using a accepted_answer(1) [of _ a] by fastforce
  next
    case False
    then obtain generated where out: "parse_generated_claims (sv_loads sv) generated table mode (rb_policy_revision batch) = Inr a"
      using a by auto
    show ?thesis using parsed_answer [OF out] by simp
  qed
  with ev show ?thesis by blast
qed

section \<open>Provider calls\<close>

lemma leaves_on_store [intro]: "leaves as_calls (on_store m)"
  unfolding on_store_def by (rule leaves_on_field) simp

lemma leaves_each_capabilities: "leaves as_calls (each_capabilities ms)"
  by (induction ms) auto

lemma wp_keep_calls:
  assumes "leaves as_calls m" and "\<And>x t'. as_calls t' = as_calls t \<Longrightarrow> wp (f x) Q E t'"
    and "\<And>e t'. as_calls t' = as_calls t \<Longrightarrow> E e t'"
  shows "wp (bindE m f) Q E t"
proof -
  have "as_calls (snd (m t)) = as_calls t" by (rule leaves_exit [OF assms(1)])
  then show ?thesis using assms(2,3) by (cases "m t") (simp add: wp_bindE wp_def [of m] split: sum.split)
qed

definition approved_call ::
    "answering_service \<Rightarrow> answer_mode \<Rightarrow> egress_authorization option \<Rightarrow> retrieval_batch \<Rightarrow> evidence_item list \<Rightarrow> provider_call \<Rightarrow> bool" where
  "approved_call sv mode authorization batch table call = (case call of
     LocalCall pid g \<Rightarrow> sv_mode sv \<noteq> MODE_REMOTE_EXPLICIT \<and> gr_prompt g = generation_prompt mode \<and>
       gr_context g = generation_context table \<and> gr_privacy_class g = REDACTED_CONTENT
   | RemoteCall pid p \<Rightarrow> sv_mode sv = MODE_REMOTE_EXPLICIT \<and> rb_remote_eligible batch \<and>
       (\<exists>a gate. authorization = Some a \<and> sv_gate sv = Some gate \<and> ea_provider_id a = pid \<and> REDACTED_TEXT \<in> ea_data_classes a \<and>
         ap_authorization_id p = ea_authorization_id a \<and> ap_provider_id p = pid \<and>
         ep_text p = remote_prompt (generation_prompt mode) (generation_context table) \<and> ep_metadata p = [] \<and> ep_image p = [] \<and>
         clean_text gate (ep_text p) \<and> int (length (utf8 (sv_lib sv) (ep_text p))) \<le> ea_max_payload_bytes a))"

lemma decision_location:
  assumes "route mode r ps = Inr d"
  shows "de_location d = LOCAL \<longleftrightarrow> mode \<noteq> MODE_REMOTE_EXPLICIT"
proof (cases "mode = MODE_REMOTE_EXPLICIT")
  case True
  then have "de_location d = REMOTE"
    using assms by (auto simp: route_def route_remote_def mk_RoutingDecision_def bindS_Inr ensure_Inr split: option.splits)
  then show ?thesis using True by simp
next
  case False
  then have "de_location d = LOCAL"
    using assms by (auto simp: route_def route_local_def mk_RoutingDecision_def bindS_Inr ensure_Inr provider_matches_def find_first split: option.splits)
  then show ?thesis using False by simp
qed

lemma wp_calling:
  assumes "\<And>x t'. as_calls t' = as_calls t @ [call] \<Longrightarrow> Q x t'" and "\<And>e t'. as_calls t' = as_calls t @ [call] \<Longrightarrow> E e t'"
  shows "wp (calling call m) Q E t"
  using assms by (simp add: calling_def wp_rules on_store_def wp_def [of m] split: prod.split sum.split)

lemma generate_local_calls:
  assumes "sv_mode sv \<noteq> MODE_REMOTE_EXPLICIT"
    and "\<And>t'. as_calls t' = as_calls t \<Longrightarrow> P t'"
    and "\<And>call t'. as_calls t' = as_calls t @ [call] \<Longrightarrow> approved_call sv mode authorization batch table call \<Longrightarrow> P t'"
  shows "wp (generate_local sv pid (generation_prompt mode) (generation_context table) caps) (\<lambda>_. P) (\<lambda>_. P) t"
proof -
  have ok: "approved_call sv mode authorization batch table (LocalCall pid g)"
    if "mk_GenerationRequest \<lparr>gr_prompt = generation_prompt mode, gr_context = generation_context table, gr_privacy_class = REDACTED_CONTENT,
      gr_max_output_tokens = MAX_OUTPUT_TOKENS, gr_role = ANSWERING\<rparr> = Inr g" for g
    using that assms(1) by (auto simp: mk_GenerationRequest_def bindS_Inr ensure_Inr approved_call_def)
  show ?thesis
    unfolding generate_local_def
    by (auto simp: wp_bindE wp_lift assms(2) split: sum.split prod.split intro!: wp_calling elim: assms(3) [OF _ ok])
qed

lemma generate_remote_calls:
  assumes "sv_mode sv = MODE_REMOTE_EXPLICIT"
    and "\<And>t'. as_calls t' = as_calls t \<Longrightarrow> P t'"
    and "\<And>call t'. as_calls t' = as_calls t @ [call] \<Longrightarrow> approved_call sv mode authorization batch table call \<Longrightarrow> P t'"
  shows "wp (generate_remote sv pid (generation_prompt mode) (generation_context table) caps batch authorization) (\<lambda>_. P) (\<lambda>_. P) t"
proof -
  let ?text = "remote_prompt (generation_prompt mode) (generation_context table)"
  have filled: "?text \<noteq> []" by (simp add: remote_prompt_def)
  have ok: "approved_call sv mode authorization batch table (RemoteCall (ea_provider_id a) ap)"
    if a: "rb_remote_eligible batch" "authorization = Some a" "sv_gate sv = Some gate"
      "mk_EgressPayload \<lparr>ep_text = ?text, ep_metadata = [], ep_image = []\<rparr> = Inr payload" "approve (sv_lib sv) gate payload a = Inr ap" for a gate payload ap
  proof -
    have p: "payload = \<lparr>ep_text = ?text, ep_metadata = [], ep_image = []\<rparr>" using a(4) by (auto simp: mk_EgressPayload_def bindS_Inr ensure_Inr)
    have "REDACTED_TEXT \<in> data_classes payload" using filled by (simp add: p data_classes_def)
    then show ?thesis using a(1-3) a(5) assms(1) filled by (auto simp: approve_Inr p measured_bytes approved_call_def)
  qed
  show ?thesis
    unfolding generate_remote_def
    by (auto simp: wp_rules assms(2) split: sum.split prod.split option.split intro!: wp_calling) (rule assms(3), assumption, rule ok; assumption)+
qed

lemma claims_calls:
  assumes "\<And>t'. as_calls t' = as_calls t \<Longrightarrow> P t'"
    and "\<And>call t'. as_calls t' = as_calls t @ [call] \<Longrightarrow> approved_call sv mode authorization batch table call \<Longrightarrow> P t'"
  shows "wp (generate_claims sv mode authorization batch table) (\<lambda>_. P) (\<lambda>_. P) t"
proof -
  have generated: "wp (if de_location d = LOCAL
      then generate_local sv (de_provider_id d) (generation_prompt mode) (generation_context table) ls
      else generate_remote sv (de_provider_id d) (generation_prompt mode) (generation_context table) rs batch authorization) (\<lambda>_. P) (\<lambda>_. P) t'"
    if "as_calls t' = as_calls t" "route (sv_mode sv) request ps = Inr d" for d ls rs t' request ps
    using decision_location [OF that(2)] generate_local_calls [of sv t' P mode authorization batch table]
      generate_remote_calls [of sv t' P mode authorization batch table] assms that(1) by auto
  have finish: "wp (bindE m (\<lambda>response. seqE (require (b response) e) (lift (f response)))) (\<lambda>_. P) (\<lambda>_. P) t'"
    if "wp m (\<lambda>_. P) (\<lambda>_. P) t'" for m :: "(answering_state, generation_response) comp" and b e t' and f :: "generation_response \<Rightarrow> exn + cited_answer"
    using that by (auto simp: wp_bindE wp_seqE wp_require wp_lift elim!: wp_mono split: sum.split)
  have routed: "wp (bindE (lift rr) (\<lambda>request. bindE (lift (route (sv_mode sv) request (ls @ rs))) (\<lambda>d.
      bindE (if de_location d = LOCAL
        then generate_local sv (de_provider_id d) (generation_prompt mode) (generation_context table) ls
        else generate_remote sv (de_provider_id d) (generation_prompt mode) (generation_context table) rs batch authorization) (\<lambda>response.
      seqE (require (ge_provider_id response = de_provider_id d) e) (lift (f response)))))) (\<lambda>_. P) (\<lambda>_. P) t'"
    if t': "as_calls t' = as_calls t" for rr ls rs e t' and f :: "generation_response \<Rightarrow> exn + cited_answer"
  proof (cases rr)
    case (Inr request)
    show ?thesis
    proof (cases "route (sv_mode sv) request (ls @ rs)")
      case routed: (Inr d)
      show ?thesis using finish [OF generated [OF t' routed]] by (simp add: wp_bindE [of "lift m" for m] wp_lift Inr routed)
    qed (simp add: wp_bindE [of "lift m" for m] wp_lift Inr assms(1) [OF t'])
  qed (simp add: wp_bindE [of "lift m" for m] wp_lift assms(1) [OF t'])
  show ?thesis
    unfolding generate_claims_def Let_def
    by (rule wp_keep_calls [OF leaves_each_capabilities], rule wp_keep_calls [OF leaves_each_capabilities], rule routed)
      (simp_all add: assms(1))
qed

section \<open>A concrete question\<close>

definition utc :: zone where
  "utc = \<lparr>zn_day = (\<lambda>t. t div 86400000000), zn_midnight = (\<lambda>d. d * 86400000000)\<rparr>"

abbreviation "plan_utc question now \<equiv> plan_answer_query (\<lambda>_. Some utc) 7 question (Aware now) ''UTC''"

definition today_query :: retrieval_query where
  "today_query = \<lparr>rq_time_range = \<lparr>tr_start = Aware 0, tr_end = Aware 86400000000\<rparr>, rq_application = None, rq_workspace = None,
     rq_keywords = [], rq_semantic_text = Some ''What did I read?'', rq_filters = [], rq_limit = 100, rq_candidate_limit = 1024, rq_query_id = 7\<rparr>"

lemma today_planned: "plan_utc ''What did I read today?'' 1000 = Inr \<lparr>pq_query = today_query, pq_expression = ''today''\<rparr>"
  by code_simp

definition sample_hit :: semantic_candidate where
  "sample_hit = \<lparr>sc_record_id = ev_record_id sample_envelope, sc_captured_at = Aware 500, sc_score = 1 / 2\<rparr>"

abbreviation "today_retrieval \<equiv> quiet_service sample_blob_lib sample_storage (captured_record 500) (\<lambda>_. permit_all) (\<lambda>_ _. permit_all) (\<lambda>_ _ _ _. [sample_hit])"

definition today_passage :: retrieved_passage where
  "today_passage = \<lparr>ps_record_id = ev_record_id sample_envelope, ps_captured_at = Aware 500, ps_excerpt = ''Hello'' @ newline @ ''world'',
     ps_score = 1 / 2, ps_provenance = [], ps_redaction_revision = ''r1'', ps_finding_count = 0\<rparr>"

definition today_batch :: retrieval_batch where
  "today_batch = \<lparr>rb_query_id = 7, rb_passages = [today_passage], rb_remote_eligible = True, rb_policy_revision = ''r1''\<rparr>"

lemma today_retrieved:
  "\<exists>s :: store. store_ok sample_blob_lib sample_storage s \<and> retrieve today_retrieval today_query s = (Inr today_batch, s)"
proof -
  obtain s :: store and m where s: "store_ok sample_blob_lib sample_storage s"
    "holdings sample_blob_lib sample_storage s (ev_record_id sample_envelope) = Some sample_envelope"
    "ready_rows s = [(ev_record_id sample_envelope, m, READY)]" "cm_day m = 0" using recall_store by blast
  have q: "mk_RetrievalQuery today_query = Inr today_query"
    "mk_ResolvedTimeRange (Aware 0) (Aware 86400000000) = Inr (rq_time_range today_query)" by code_simp+
  have ids: "candidate_ids today_query s = [ev_record_id sample_envelope]"
    using s(3,4) by (simp add: candidate_ids_def today_query_def day_of_def)
  have score: "query_scores (\<lambda>_ _ _ _. [sample_hit]) today_query [ev_record_id sample_envelope] (ev_record_id sample_envelope) = Some (1 / 2)"
    by (simp add: query_scores_def today_query_def best_score_def sample_hit_def)
  have m: "record_matches today_query (captured_record 500 sample_envelope)"
    by (simp add: record_matches_def today_query_def captured_record_def Let_def)
  have p: "mk_passage (captured_record 500 sample_envelope) today_query (Some (1 / 2)) = Inr today_passage"
    by code_simp
  have "retrieve today_retrieval today_query s = (reference_retrieve sample_blob_lib (captured_record 500) permit_all (\<lambda>_ _. permit_all) today_query
      (holdings sample_blob_lib sample_storage s) (query_scores (\<lambda>_ _ _ _. [sample_hit]) today_query [ev_record_id sample_envelope])
      [ev_record_id sample_envelope], s)"
    using quiet_retrieve [OF s(1) q, of "\<lambda>_. permit_all" "\<lambda>_ _. permit_all" "captured_record 500" "\<lambda>_ _ _ _. [sample_hit]"]
    by (simp add: ids)
  also have "\<dots> = (Inr today_batch, s)"
  proof -
    have fields: "rq_query_id today_query = 7" "rq_limit today_query = 100" by (simp_all add: today_query_def)
    have ne: "nonempty ''r1''" by code_simp
    show ?thesis
      by (simp add: reference_retrieve_def List.map_filter_def qualifies_def s(2) score m p mk_RetrievalBatch_def ne today_batch_def fields Let_def)
  qed
  finally show ?thesis using s(1) by blast
qed

definition sample_local :: provider_capabilities where
  "sample_local = \<lparr>pc_provider_id = ''local'', pc_location = LOCAL, pc_capabilities = {GENERATION}, pc_accepted = {REDACTED_CONTENT},
     pc_max_input_bytes = 4096, pc_supports_vision = False, pc_max_context_tokens = None, pc_structured_output = True, pc_available = True\<rparr>"

definition sample_response :: generation_response where
  "sample_response = \<lparr>ge_text = ''claims'', ge_provider_id = ''local'', ge_model_id = ''m'', ge_input_tokens = None, ge_output_tokens = None\<rparr>"

definition sample_lib :: egress_lib where
  "sample_lib = \<lparr>utf8 = map (\<lambda>c. of_nat (char_code c)), sha256 = (\<lambda>_. [])\<rparr>"

definition sample_loads :: "string \<Rightarrow> json option" where
  "sample_loads = (\<lambda>_. Some (JObj [(''claims'', JArr [JObj [(''kind'', JStr ''observed''), (''text'', JStr '' hello world ''),
     (''evidence_ids'', JArr [JStr ''E1''])]])]))"

definition today_service :: answering_service where
  "today_service = \<lparr>sv_retrieval = today_retrieval, sv_mode = MODE_LOCAL_ONLY,
     sv_local = [\<lparr>lp_capabilities = ret sample_local, lp_generate = (\<lambda>_. ret sample_response)\<rparr>], sv_remote = [], sv_gate = None,
     sv_minimum_score = 1 / 5, sv_lib = sample_lib, sv_loads = sample_loads, sv_zones = (\<lambda>_. Some utc)\<rparr>"

definition today_answer :: cited_answer where
  "today_answer = \<lparr>an_mode = TIMELINE, an_claims = [\<lparr>cl_kind = OBSERVED, cl_text = ''hello world'',
     cl_citations = [\<lparr>ac_record_id = ev_record_id sample_envelope, ac_captured_at = Aware 500\<rparr>]\<rparr>], an_insufficient = False, an_policy_revision = ''r1''\<rparr>"

definition today_request :: generation_request where
  "today_request = \<lparr>gr_prompt = generation_prompt TIMELINE, gr_context = [''E1: Hello'' @ newline @ ''world''], gr_privacy_class = REDACTED_CONTENT,
     gr_max_output_tokens = 1024, gr_role = ANSWERING\<rparr>"

abbreviation "today_table \<equiv> [\<lparr>ei_label = ''E1'', ei_passage = today_passage\<rparr>]"

lemma today_evidence: "build_evidence_table today_batch (1 / 5) = Inr today_table"
  by code_simp

lemma today_claims: "parse_generated_claims sample_loads ''claims'' today_table TIMELINE ''r1'' = Inr today_answer"
  by code_simp

lemma today_route: "route MODE_LOCAL_ONLY \<lparr>ro_capability = GENERATION, ro_privacy_class = REDACTED_CONTENT, ro_allow_remote = False,
    ro_authorization_id = None, ro_data_classes = {}, ro_authorization = None\<rparr> [sample_local] =
    Inr \<lparr>de_provider_id = ''local'', de_location = LOCAL, de_capability = GENERATION, de_authorization_id = None, de_reason_code = ''local-only''\<rparr>"
  by code_simp

lemma today_size: "validate_generation_capabilities sample_lib sample_local (generation_prompt TIMELINE) (generation_context today_table) = Inr ()"
  by code_simp

lemma today_generation: "mk_GenerationRequest \<lparr>gr_prompt = generation_prompt TIMELINE, gr_context = generation_context today_table,
    gr_privacy_class = REDACTED_CONTENT, gr_max_output_tokens = MAX_OUTPUT_TOKENS, gr_role = ANSWERING\<rparr> = Inr today_request"
  by code_simp

lemma today_answered:
  assumes "retrieve today_retrieval today_query s = (Inr today_batch, s)"
  shows "answer today_service 7 ''What did I read today?'' (Aware 1000) ''UTC'' TIMELINE None \<lparr>as_store = s, as_calls = []\<rparr> =
    (Inr today_answer, \<lparr>as_store = s, as_calls = [LocalCall ''local'' today_request]\<rparr>)"
proof -
  have "generate_claims today_service TIMELINE None today_batch today_table \<lparr>as_store = s, as_calls = []\<rparr> =
    (Inr today_answer, \<lparr>as_store = s, as_calls = [LocalCall ''local'' today_request]\<rparr>)"
  proof -
    have sel: "select_provider ''local'' [p] [sample_local] = Inr (p, sample_local)" for p :: local_provider
      by (simp add: select_provider_def sample_local_def)
    have rr: "mk_RoutingRequest \<lparr>ro_capability = GENERATION, ro_privacy_class = REDACTED_CONTENT, ro_allow_remote = False,
      ro_authorization_id = None, ro_data_classes = {}, ro_authorization = None\<rparr> = Inr \<lparr>ro_capability = GENERATION, ro_privacy_class = REDACTED_CONTENT,
      ro_allow_remote = False, ro_authorization_id = None, ro_data_classes = {}, ro_authorization = None\<rparr>"
      by (simp add: mk_RoutingRequest_def)
    show ?thesis
      using today_claims today_route today_size today_generation sel rr
      by (simp add: generate_claims_def generate_local_def today_service_def comp_defs on_store_def calling_def sample_response_def today_batch_def)
  qed
  then show ?thesis using assms today_planned today_evidence
    by (simp add: answer_def today_service_def comp_defs on_store_def)
qed

section \<open>Properties\<close>

text \<open>
  C39. Answers rest on evidence, from the store to the claim. Whatever other tasks do to the store and
  whatever the generation provider returns: an answer says that the evidence is insufficient exactly when
  it has no claims; it has at most 32; in timeline mode they are ordered by their earliest citation; and
  each claim cites at least one retrieved passage, none twice, under the identifier and the capture time
  of its record, an observed claim being part of the excerpt of one of them. Each passage it may cite has
  the minimum score and comes from a record that was held, decrypted, matched the planned query, was then
  permitted under the policy revision of the query and was still held.
\<close>

theorem answers_rest_on_evidence:
  assumes "blob_lib_ok (rs_lib (sv_retrieval sv))" and "store_ok (rs_lib (sv_retrieval sv)) (rs_cfg (sv_retrieval sv)) (as_store st)"
    and "yields (sv_retrieval sv)" and "answer sv query_id question now timezone mode authorization st = (Inr a, st')"
  shows "\<exists>planned qd ps. plan_answer_query (sv_zones sv) query_id question now timezone = Inr planned \<and>
    an_mode a = mode \<and> (an_insufficient a \<longleftrightarrow> an_claims a = []) \<and> length (an_claims a) \<le> MAX_CLAIMS \<and>
    (mode = TIMELINE \<longrightarrow> sorted (map timeline_key (an_claims a))) \<and>
    (\<forall>c \<in> set (an_claims a). grounded ps c) \<and>
    (\<forall>p \<in> set ps. sv_minimum_score sv \<le> ps_score p \<and> an_policy_revision a = qd_policy_revision qd \<and>
      (\<exists>u r rd score. admitted (sv_retrieval sv) (as_store st) (pq_query planned) qd u r rd \<and> mk_passage r (pq_query planned) score = Inr p))"
proof -
  obtain planned batch table where ev: "evidence_for sv query_id question now timezone (as_store st) planned batch table"
    and revision: "an_policy_revision a = rb_policy_revision batch" and shape: "an_mode a = mode" "an_insufficient a \<longleftrightarrow> an_claims a = []"
    "length (an_claims a) \<le> MAX_CLAIMS" "mode = TIMELINE \<longrightarrow> sorted (map timeline_key (an_claims a))"
    "\<forall>c \<in> set (an_claims a). grounded (map ei_passage table) c" using answer_result [OF assms(4)] by blast
  note ev = ev [unfolded evidence_for_def]
  obtain s1 where ret: "retrieve (sv_retrieval sv) (pq_query planned) (as_store st) = (Inr batch, s1)"
    using ev by (cases "retrieve (sv_retrieval sv) (pq_query planned) (as_store st)") auto
  obtain qd scores s2 where sound: "batch_sound (sv_retrieval sv) (as_store st) (pq_query planned) qd scores (listed_ids (pq_query planned) s2) batch"
    using wp_returned [OF ret shared_store.retrieve_sound [OF yields_shares [OF assms(3)]]] assms(1,2) by blast
  have ps: "map ei_passage table = filter (\<lambda>p. sv_minimum_score sv \<le> ps_score p) (rb_passages batch)"
    using ev evidence_passages by blast
  have "sv_minimum_score sv \<le> ps_score p \<and> an_policy_revision a = qd_policy_revision qd \<and>
      (\<exists>u r rd score. admitted (sv_retrieval sv) (as_store st) (pq_query planned) qd u r rd \<and> mk_passage r (pq_query planned) score = Inr p)"
    if "p \<in> set (map ei_passage table)" for p
  proof -
    have p: "p \<in> set (rb_passages batch)" "sv_minimum_score sv \<le> ps_score p" using that unfolding ps by auto
    then have "rb_passages batch \<noteq> []" by auto
    with sound have "rb_policy_revision batch = qd_policy_revision qd" unfolding batch_sound_def by blast
    moreover have "sourced (sv_retrieval sv) (as_store st) (pq_query planned) qd scores (listed_ids (pq_query planned) s2) (rb_remote_eligible batch) p"
      using sound p(1) unfolding batch_sound_def by blast
    ultimately show ?thesis using p(2) revision unfolding sourced_def by auto
  qed
  with ev shape show ?thesis by blast
qed

theorem answers_rest_on_evidence_witness:
  "\<exists>s ps. answer today_service 7 ''What did I read today?'' (Aware 1000) ''UTC'' TIMELINE None \<lparr>as_store = s, as_calls = []\<rparr> =
    (Inr today_answer, \<lparr>as_store = s, as_calls = [LocalCall ''local'' today_request]\<rparr>) \<and>
    list_all (grounded ps) (an_claims today_answer) \<and> an_claims today_answer \<noteq> []"
proof -
  obtain s :: store where s: "store_ok sample_blob_lib sample_storage s" "retrieve today_retrieval today_query s = (Inr today_batch, s)"
    using today_retrieved by blast
  have sv: "sv_retrieval today_service = today_retrieval" by (simp add: today_service_def)
  have "yields (sv_retrieval today_service)" unfolding sv by (rule quiet_yields)
  from answers_rest_on_evidence [OF _ _ this today_answered [OF s(2)]] s(1) sample_blob_lib_ok
  obtain ps where "\<forall>c \<in> set (an_claims today_answer). grounded ps c" by (auto simp: sv)
  moreover have "an_claims today_answer \<noteq> []" by (simp add: today_answer_def)
  ultimately show ?thesis using today_answered [OF s(2)] by (auto simp: list_all_iff)
qed



text \<open>
  A weekday with a direction is answered as the most recent such day: the planner hands only the weekday to
  the time resolution, which refuses the whole phrase.
\<close>

theorem directional_weekday_accepted:
  "resolve_time_range (\<lambda>_. Some utc) ''last Monday'' (Aware 86400000000000) ''UTC'' = Inl (ValueError ''unsupported time expression'')"
  "map_sum id pq_expression (plan_utc ''What did I do last Monday?'' 86400000000000) = Inr ''Monday''"
  by code_simp+

text \<open>A full stop that ends a question becomes part of the application that is asked for.\<close>

theorem full_stop_joins_application:
  "map_sum id (\<lambda>p. rq_application (pq_query p)) (plan_utc ''What did I read today in app firefox.'' 1000) = Inr (Some ''firefox.'')"
  "map_sum id (\<lambda>p. rq_application (pq_query p)) (plan_utc ''What did I read today in app firefox?'' 1000) = Inr (Some ''firefox'')"
  by code_simp+

end
