(* ===== verification/Adaptive_Capture.thy ===== *)
theory Adaptive_Capture
  imports Redaction_Policy "HOL-Library.Word"
begin

text \<open>
  Adaptive capture (\<^verbatim>\<open>src/local_recall/capture/adaptive.py\<close>): when a capture is due, how the cadence backs off
  under load, the perceptual fingerprint of a frame and the coalescing of frames that look alike. The
  capture backend is a parameter; seconds and thresholds are rationals, monotonic times nanoseconds.
\<close>

unbundle bit_operations_syntax

section \<open>Contexts and decisions\<close>

datatype capture_trigger_kind = TRIGGER_NONE | TRIGGER_CADENCE | TRIGGER_CONTEXT_CHANGE

datatype frame_disposition = FRAME_ACCEPT | FRAME_COALESCE

datatype adaptive_outcome = OUTCOME_SKIP | OUTCOME_ADMIT | OUTCOME_COALESCE

record approved_capture_request =
  aq_intent :: capture_intent
  aq_metadata :: context_metadata
  aq_authorization :: capture_authorization

definition from_decision :: "capture_intent \<Rightarrow> context_metadata \<Rightarrow> capture_decision \<Rightarrow> exn + approved_capture_request" where
  "from_decision intent metadata d = bindS (require_authorization d) (\<lambda>a.
     Inr \<lparr>aq_intent = intent, aq_metadata = metadata, aq_authorization = a\<rparr>)"

record dedup_context =
  dx_generation :: capture_generation
  dx_policy_revision :: string
  dx_configuration_revision :: string
  dx_application :: "string option"
  dx_workspace :: "string option"
  dx_window_id :: "string option"

definition MAX_REVISION_LENGTH :: nat where
  "MAX_REVISION_LENGTH = 256"

definition MAX_CONTEXT_VALUE_LENGTH :: nat where
  "MAX_CONTEXT_VALUE_LENGTH = 4096"

definition require_bounded_text :: "string \<Rightarrow> string \<Rightarrow> nat \<Rightarrow> exn + unit" where
  "require_bounded_text value name limit = ensure (value \<noteq> [] \<and> length value \<le> limit)
     (ValueError (name @ '' must contain 1..'' @ digit_string limit @ '' characters''))"

definition require_bounded_option :: "string option \<Rightarrow> string \<Rightarrow> exn + unit" where
  "require_bounded_option value name = (case value of None \<Rightarrow> Inr () | Some v \<Rightarrow> require_bounded_text v name MAX_CONTEXT_VALUE_LENGTH)"

definition mk_DedupContext :: "dedup_context \<Rightarrow> exn + dedup_context" where
  "mk_DedupContext c =
    bindS (require_bounded_text (dx_policy_revision c) ''policy_revision'' MAX_REVISION_LENGTH) (\<lambda>_.
    bindS (require_bounded_text (dx_configuration_revision c) ''configuration_revision'' MAX_REVISION_LENGTH) (\<lambda>_.
    bindS (require_bounded_option (dx_application c) ''application'') (\<lambda>_.
    bindS (require_bounded_option (dx_workspace c) ''workspace'') (\<lambda>_.
    bindS (require_bounded_option (dx_window_id c) ''window_id'') (\<lambda>_. Inr c)))))"

definition privacy_scope :: "dedup_context \<Rightarrow> capture_generation \<times> string \<times> string" where
  "privacy_scope c = (dx_generation c, dx_policy_revision c, dx_configuration_revision c)"

definition metadata_key :: "dedup_context \<Rightarrow> string option \<times> string option \<times> string option" where
  "metadata_key c = (dx_application c, dx_workspace c, dx_window_id c)"

definition metadata_text :: "context_metadata \<Rightarrow> string \<Rightarrow> string option" where
  "metadata_text m name = (case scalar_field m name of StrVal s \<Rightarrow> if s \<noteq> [] then Some s else None | _ \<Rightarrow> None)"

definition metadata_identifier :: "context_metadata \<Rightarrow> string \<Rightarrow> string option" where
  "metadata_identifier m name = (case scalar_field m name of
     StrVal s \<Rightarrow> if s \<noteq> [] then Some s else None | IntVal i \<Rightarrow> Some (int_string i) | _ \<Rightarrow> None)"

definition context_from_request :: "approved_capture_request \<Rightarrow> exn + dedup_context" where
  "context_from_request r = mk_DedupContext \<lparr>dx_generation = in_generation (aq_intent r),
     dx_policy_revision = ca_policy_revision (aq_authorization r), dx_configuration_revision = in_configuration_revision (aq_intent r),
     dx_application = metadata_text (aq_metadata r) ''application'', dx_workspace = metadata_text (aq_metadata r) ''workspace'',
     dx_window_id = metadata_identifier (aq_metadata r) ''window.id''\<rparr>"

record trigger_decision =
  td_kind :: capture_trigger_kind
  td_cadence :: rat

record frame_decision =
  fq_disposition :: frame_disposition
  fq_span_count :: int
  fq_span_started :: int
  fq_span_seen :: int

record adaptive_result =
  ar_outcome :: adaptive_outcome
  ar_trigger :: trigger_decision
  ar_frame :: "raw_frame option"
  ar_decision :: "frame_decision option"

section \<open>The controller\<close>

record adaptive =
  av_cadence :: rat
  av_threshold :: rat
  av_debounce_ns :: int
  av_max_multiplier :: int
  av_multiplier :: int
  av_last_ns :: "int option"
  av_last_context :: "dedup_context option"
  av_pending :: "dedup_context option"
  av_pending_ns :: "int option"
  av_dedup :: "dedup_context option"
  av_fingerprint :: "int option"
  av_span_count :: int
  av_span_started :: "int option"
  av_span_seen :: "int option"

definition NS_PER_SECOND :: rat where
  "NS_PER_SECOND = 1000000000"

definition HASH_BITS :: nat where
  "HASH_BITS = 64"

definition new_adaptive :: "rat \<Rightarrow> rat \<Rightarrow> rat \<Rightarrow> int \<Rightarrow> exn + adaptive" where
  "new_adaptive cadence threshold debounce limit =
    bindS (ensure (0 < cadence \<and> cadence \<le> 3600) (ValueError ''cadence_seconds must be in (0, 3600]'')) (\<lambda>_.
    bindS (ensure (0 \<le> threshold \<and> threshold \<le> 1) (ValueError ''change_threshold must be in [0, 1]'')) (\<lambda>_.
    bindS (ensure (0 \<le> debounce \<and> debounce \<le> 60) (ValueError ''debounce_seconds must be in [0, 60]'')) (\<lambda>_.
    bindS (ensure (1 \<le> limit \<and> limit \<le> 64) (ValueError ''max_backoff_multiplier must be in [1, 64]'')) (\<lambda>_.
    bindS (ensure (limit AND (limit - 1) = 0) (ValueError ''max_backoff_multiplier must be a power of two'')) (\<lambda>_.
    Inr \<lparr>av_cadence = cadence, av_threshold = threshold, av_debounce_ns = py_int (debounce * NS_PER_SECOND),
      av_max_multiplier = limit, av_multiplier = 1, av_last_ns = None, av_last_context = None, av_pending = None,
      av_pending_ns = None, av_dedup = None, av_fingerprint = None, av_span_count = 0, av_span_started = None, av_span_seen = None\<rparr>)))))"

definition effective_cadence :: "adaptive \<Rightarrow> rat" where
  "effective_cadence a = av_cadence a * of_int (av_multiplier a)"

definition clear_pending :: "adaptive \<Rightarrow> adaptive" where
  "clear_pending a = a\<lparr>av_pending := None, av_pending_ns := None\<rparr>"

definition reset_dedup :: "adaptive \<Rightarrow> adaptive" where
  "reset_dedup a = a\<lparr>av_dedup := None, av_fingerprint := None, av_span_count := 0, av_span_started := None, av_span_seen := None\<rparr>"

abbreviation "clock_error \<equiv> ValueError ''monotonic time moved backwards''"

definition require_monotonic_ns :: "int \<Rightarrow> ('s, unit) comp" where
  "require_monotonic_ns v = require (0 \<le> v) (ValueError ''monotonic timestamp must be non-negative'')"

definition poll_cadence :: "int \<Rightarrow> int \<Rightarrow> (adaptive, trigger_decision) comp" where
  "poll_cadence latest now = reads (\<lambda>a. let effective = effective_cadence a in
     \<lparr>td_kind = (if py_int (effective * NS_PER_SECOND) \<le> now - latest then TRIGGER_CADENCE else TRIGGER_NONE), td_cadence = effective\<rparr>)"

definition poll_pending :: "dedup_context \<Rightarrow> int \<Rightarrow> int \<Rightarrow> (adaptive, trigger_decision) comp" where
  "poll_pending context latest now =
    bindE (reads (\<lambda>a. (av_pending a, av_pending_ns a, av_debounce_ns a, effective_cadence a))) (\<lambda>(pending, since, debounce, effective).
    if pending = None \<or> metadata_key context \<noteq> metadata_key (the pending) then
      seqE (modifies (\<lambda>a. a\<lparr>av_pending := Some context, av_pending_ns := Some now\<rparr>)) (poll_cadence latest now)
    else case since of
      None \<Rightarrow> raise (RuntimeError ''pending change timestamp missing'')
    | Some t \<Rightarrow>
        seqE (require (t \<le> now) clock_error)
        (if debounce \<le> now - t
         then seqE (modifies clear_pending) (ret \<lparr>td_kind = TRIGGER_CONTEXT_CHANGE, td_cadence = effective\<rparr>)
         else poll_cadence latest now))"

definition poll_capture :: "dedup_context \<Rightarrow> int \<Rightarrow> (adaptive, trigger_decision) comp" where
  "poll_capture context now =
    seqE (require_monotonic_ns now)
    (bindE (reads (\<lambda>a. (av_last_ns a, av_last_context a, effective_cadence a))) (\<lambda>(last_ns, last_context, effective).
     case (last_ns, last_context) of
       (Some latest, Some previous) \<Rightarrow>
         seqE (require (latest \<le> now) clock_error)
         (if privacy_scope context \<noteq> privacy_scope previous then
            seqE (modifies clear_pending) (ret \<lparr>td_kind = TRIGGER_CADENCE, td_cadence = effective\<rparr>)
          else if metadata_key context \<noteq> metadata_key previous then poll_pending context latest now
          else seqE (modifies clear_pending) (poll_cadence latest now))
     | _ \<Rightarrow> ret \<lparr>td_kind = TRIGGER_CADENCE, td_cadence = effective\<rparr>))"

definition mark_capture_started :: "dedup_context \<Rightarrow> int \<Rightarrow> (adaptive, unit) comp" where
  "mark_capture_started context now =
    seqE (require_monotonic_ns now)
    (bindE (reads (\<lambda>a. (av_last_ns a, av_last_context a))) (\<lambda>(last_ns, last_context).
     seqE (require (opt_ok (\<lambda>latest. latest \<le> now) last_ns) clock_error)
     (seqE (if opt_ok (\<lambda>c. privacy_scope context = privacy_scope c) last_context then ret () else modifies reset_dedup)
     (modifies (\<lambda>a. clear_pending (a\<lparr>av_last_context := Some context, av_last_ns := Some now\<rparr>))))))"

definition accept_new_span :: "dedup_context \<Rightarrow> int \<Rightarrow> int \<Rightarrow> (adaptive, frame_decision) comp" where
  "accept_new_span context fingerprint now =
    seqE (modifies (\<lambda>a. a\<lparr>av_dedup := Some context, av_fingerprint := Some fingerprint, av_span_count := 1,
      av_span_started := Some now, av_span_seen := Some now\<rparr>))
    (ret \<lparr>fq_disposition = FRAME_ACCEPT, fq_span_count = 1, fq_span_started = now, fq_span_seen = now\<rparr>)"

definition changed_bits :: "int \<Rightarrow> int \<Rightarrow> nat" where
  "changed_bits x y = length (filter (bit (x XOR y)) [0..<HASH_BITS])"

definition classify_frame :: "dedup_context \<Rightarrow> int \<Rightarrow> int \<Rightarrow> (adaptive, frame_decision) comp" where
  "classify_frame context fingerprint now =
    seqE (require_monotonic_ns now)
    (seqE (require (0 \<le> fingerprint \<and> fingerprint < 2 ^ HASH_BITS) (ValueError ''fingerprint must be an unsigned 64-bit integer''))
    (bindE (reads id) (\<lambda>a.
     seqE (require (opt_ok (\<lambda>seen. seen \<le> now) (av_span_seen a)) clock_error)
     (case av_fingerprint a of
        Some previous \<Rightarrow>
          if av_dedup a \<noteq> Some context then accept_new_span context fingerprint now
          else if of_nat (changed_bits previous fingerprint) / of_nat HASH_BITS \<le> av_threshold a then
            (case av_span_started a of
               None \<Rightarrow> raise (RuntimeError ''span start timestamp missing'')
             | Some started \<Rightarrow>
                 seqE (modifies (\<lambda>a. a\<lparr>av_span_count := av_span_count a + 1, av_span_seen := Some now\<rparr>))
                 (ret \<lparr>fq_disposition = FRAME_COALESCE, fq_span_count = av_span_count a + 1, fq_span_started = started, fq_span_seen = now\<rparr>))
          else accept_new_span context fingerprint now
      | None \<Rightarrow> accept_new_span context fingerprint now))))"

definition note_overload :: "adaptive \<Rightarrow> adaptive" where
  "note_overload a = a\<lparr>av_multiplier := min (av_max_multiplier a) (av_multiplier a * 2)\<rparr>"

definition note_success :: "adaptive \<Rightarrow> adaptive" where
  "note_success a = a\<lparr>av_multiplier := max 1 (av_multiplier a div 2)\<rparr>"

definition reset_adaptive :: "adaptive \<Rightarrow> adaptive" where
  "reset_adaptive a = (reset_dedup (clear_pending (a\<lparr>av_last_ns := None, av_last_context := None\<rparr>)))\<lparr>av_multiplier := 1\<rparr>"

section \<open>The fingerprint\<close>

definition HASH_ROWS :: nat where
  "HASH_ROWS = 8"

definition HASH_COLUMNS :: nat where
  "HASH_COLUMNS = 9"

definition sample_coordinate :: "nat \<Rightarrow> nat \<Rightarrow> int \<Rightarrow> int" where
  "sample_coordinate index samples extent = (if extent = 1 then 0 else int index * (extent - 1) div (int samples - 1))"

definition pixel_at :: "byte list \<Rightarrow> int \<Rightarrow> exn + int" where
  "pixel_at px i = (if 0 \<le> i \<and> i < int (length px) then Inr (uint (px ! nat i)) else Inl (RuntimeError ''IndexError''))"

definition luma_at :: "byte list \<Rightarrow> int \<Rightarrow> exn + int" where
  "luma_at px offset =
    bindS (pixel_at px offset) (\<lambda>red.
    bindS (pixel_at px (offset + 1)) (\<lambda>green.
    bindS (pixel_at px (offset + 2)) (\<lambda>blue.
    Inr ((299 * red + 587 * green + 114 * blue) div 1000))))"

definition luma_row :: "byte list \<Rightarrow> int \<Rightarrow> int \<Rightarrow> int \<Rightarrow> nat \<Rightarrow> exn + int list" where
  "luma_row px width height stride sample_y = (let y = sample_coordinate sample_y HASH_ROWS height in
     mapS (\<lambda>sample_x. luma_at px (y * stride + sample_coordinate sample_x HASH_COLUMNS width * 3)) [0..<HASH_COLUMNS])"

definition row_flags :: "int list \<Rightarrow> bool list" where
  "row_flags row = map (\<lambda>column. row ! column > row ! Suc column) [0..<HASH_COLUMNS - 1]"

definition set_flag :: "nat \<times> bool \<Rightarrow> int \<Rightarrow> int" where
  "set_flag bf fingerprint = (if snd bf then fingerprint OR push_bit (fst bf) 1 else fingerprint)"

definition perceptual_dhash_rgb8 :: "byte list \<Rightarrow> int \<Rightarrow> int \<Rightarrow> int option \<Rightarrow> exn + int" where
  "perceptual_dhash_rgb8 px width height stride =
    bindS (ensure (0 < width \<and> 0 < height) (ValueError ''image dimensions must be positive'')) (\<lambda>_.
    let row_bytes = width * 3; effective_stride = (case stride of None \<Rightarrow> row_bytes | Some n \<Rightarrow> n) in
    bindS (ensure (row_bytes \<le> effective_stride) (ValueError ''RGB8 stride is smaller than pixel width'')) (\<lambda>_.
    bindS (ensure (int (length px) = effective_stride * height) (ValueError ''RGB8 buffer size does not match dimensions and stride'')) (\<lambda>_.
    bindS (mapS (luma_row px width height effective_stride) [0..<HASH_ROWS]) (\<lambda>rows.
    Inr (fold set_flag (enumerate 0 (concat (map row_flags rows))) 0)))))"

section \<open>The flow\<close>

definition capture_if_due ::
    "(approved_capture_request \<Rightarrow> exn + raw_frame) \<Rightarrow> approved_capture_request \<Rightarrow> int \<Rightarrow> (adaptive, adaptive_result) comp" where
  "capture_if_due capture request now =
    bindE (lift (context_from_request request)) (\<lambda>context.
    bindE (poll_capture context now) (\<lambda>trigger.
    if td_kind trigger = TRIGGER_NONE then
      ret \<lparr>ar_outcome = OUTCOME_SKIP, ar_trigger = trigger, ar_frame = None, ar_decision = None\<rparr>
    else
      seqE (mark_capture_started context now)
      (bindE (lift (capture request)) (\<lambda>frame.
       seqE (require (rf_generation frame = in_generation (aq_intent request))
         (ValueError ''captured frame generation does not match approved request generation''))
       (seqE (require (rf_format frame = RGB8) (ValueError ''adaptive fingerprint requires RGB8 frame''))
       (bindE (lift (perceptual_dhash_rgb8 (rf_pixels frame) (rf_width frame) (rf_height frame) (Some (rf_stride frame)))) (\<lambda>fingerprint.
        bindE (classify_frame context fingerprint now) (\<lambda>decision.
        if fq_disposition decision = FRAME_COALESCE then
          ret \<lparr>ar_outcome = OUTCOME_COALESCE, ar_trigger = trigger, ar_frame = None, ar_decision = Some decision\<rparr>
        else
          ret \<lparr>ar_outcome = OUTCOME_ADMIT, ar_trigger = trigger, ar_frame = Some frame, ar_decision = Some decision\<rparr>))))))))"

end
