(* ===== verification/Adaptive_Safety.thy ===== *)
theory Adaptive_Safety
  imports Adaptive_Capture
begin

text \<open>
  What adaptive capture promises: the fingerprint is computed for every valid frame and has 64 bits with a
  known meaning, and over every history a frame is dropped only when one that looks like it was admitted
  before under the same permissions.
\<close>

unbundle bit_operations_syntax

section \<open>The fingerprint\<close>

lemma sample_coordinate_bounds:
  assumes "0 < extent" and "index < samples" and "1 < samples"
  shows "0 \<le> sample_coordinate index samples extent" "sample_coordinate index samples extent < extent"
proof -
  have "int index * (extent - 1) \<le> (int samples - 1) * (extent - 1)" using assms by (intro mult_right_mono) auto
  then have "int index * (extent - 1) div (int samples - 1) \<le> (int samples - 1) * (extent - 1) div (int samples - 1)"
    using assms by (intro zdiv_mono1) auto
  also have "\<dots> = extent - 1" using assms by simp
  finally show "sample_coordinate index samples extent < extent" by (simp add: sample_coordinate_def)
  show "0 \<le> sample_coordinate index samples extent"
    using assms by (simp add: sample_coordinate_def pos_imp_zdiv_nonneg_iff)
qed

definition luma :: "byte list \<Rightarrow> int \<Rightarrow> int" where
  "luma px i = (299 * uint (px ! nat i) + 587 * uint (px ! nat (i + 1)) + 114 * uint (px ! nat (i + 2))) div 1000"

lemma luma_at_inside: "0 \<le> i \<Longrightarrow> i + 2 < int (length px) \<Longrightarrow> luma_at px i = Inr (luma px i)"
  by (simp add: luma_at_def pixel_at_def luma_def)

lemma mapS_Inr: "(\<And>x. x \<in> set xs \<Longrightarrow> f x = Inr (g x)) \<Longrightarrow> mapS f xs = Inr (map g xs)"
  by (induction xs) simp_all

definition sample_offset :: "int \<Rightarrow> int \<Rightarrow> int \<Rightarrow> nat \<Rightarrow> nat \<Rightarrow> int" where
  "sample_offset width height stride y x = sample_coordinate y HASH_ROWS height * stride + sample_coordinate x HASH_COLUMNS width * 3"

lemma sample_offset_inside:
  assumes "0 < width" "0 < height" "width * 3 \<le> stride" "y < HASH_ROWS" "x < HASH_COLUMNS"
  shows "0 \<le> sample_offset width height stride y x" "sample_offset width height stride y x + 2 < stride * height"
proof -
  let ?y = "sample_coordinate y HASH_ROWS height" and ?x = "sample_coordinate x HASH_COLUMNS width"
  have y: "0 \<le> ?y" "?y < height" and x: "0 \<le> ?x" "?x < width"
    using assms sample_coordinate_bounds [of height y HASH_ROWS] sample_coordinate_bounds [of width x HASH_COLUMNS]
    by (simp_all add: HASH_ROWS_def HASH_COLUMNS_def)
  show "0 \<le> sample_offset width height stride y x" using x y assms by (simp add: sample_offset_def)
  have "?y * stride \<le> (height - 1) * stride" using y assms by (intro mult_right_mono) auto
  then show "sample_offset width height stride y x + 2 < stride * height"
    using x assms(3) by (simp add: sample_offset_def algebra_simps)
qed

lemma bit_set_flags:
  "bit (fold set_flag (enumerate n flags) acc) i \<longleftrightarrow> bit acc i \<or> n \<le> i \<and> i < n + length flags \<and> flags ! (i - n)"
proof (induction flags arbitrary: n acc)
  case (Cons b flags)
  have "bit (set_flag (n, b) acc) i \<longleftrightarrow> bit acc i \<or> b \<and> i = n"
    by (auto simp: set_flag_def bit_simps)
  then show ?case using Cons [of "Suc n" "set_flag (n, b) acc"]
    by (cases "i = n") (auto simp: nth_Cons' not_less_eq_eq Suc_le_eq)
qed auto

lemma fold_set_flag_bounds:
  assumes "length flags \<le> HASH_BITS"
  shows "0 \<le> fold set_flag (enumerate 0 flags) 0" "fold set_flag (enumerate 0 flags) 0 < 2 ^ HASH_BITS"
proof -
  have "take_bit HASH_BITS (fold set_flag (enumerate 0 flags) 0) = fold set_flag (enumerate 0 flags) 0"
    using assms by (intro bit_eqI) (auto simp: bit_take_bit_iff bit_set_flags)
  then show "0 \<le> fold set_flag (enumerate 0 flags) 0" "fold set_flag (enumerate 0 flags) 0 < 2 ^ HASH_BITS"
    by (metis take_bit_nonnegative, metis take_bit_int_less_exp)
qed

lemma concat_rows_nth:
  assumes "\<And>row. row \<in> set rows \<Longrightarrow> length row = n" and "y < length rows" and "x < n"
  shows "concat rows ! (n * y + x) = rows ! y ! x" "length (concat rows) = n * length rows"
proof -
  show "length (concat rows) = n * length rows" using assms(1) by (induction rows) auto
  show "concat rows ! (n * y + x) = rows ! y ! x" using assms
  proof (induction rows arbitrary: y)
    case (Cons row rows)
    then show ?case by (cases y) (auto simp: nth_append algebra_simps)
  qed simp
qed

text \<open>The fingerprint of every valid RGB8 buffer: bit \<open>8 * y + x\<close> tells whether sample \<open>(y, x)\<close> is brighter than the next one of its row.\<close>

lemma dhash_valid:
  assumes "0 < width" "0 < height" "width * 3 \<le> stride" "int (length px) = stride * height"
  shows "\<exists>f. perceptual_dhash_rgb8 px width height (Some stride) = Inr f \<and> 0 \<le> f \<and> f < 2 ^ HASH_BITS \<and>
    (\<forall>y < 8. \<forall>x < 8. bit f (8 * y + x) \<longleftrightarrow>
      luma px (sample_offset width height stride y (Suc x)) < luma px (sample_offset width height stride y x))"
proof -
  define L where "L y x = luma px (sample_offset width height stride y x)" for y x
  have row: "luma_row px width height stride y = Inr (map (L y) [0..<HASH_COLUMNS])" if "y < HASH_ROWS" for y
    unfolding luma_row_def Let_def sample_offset_def [symmetric]
    using sample_offset_inside [OF assms(1-3) that] assms(4)
    by (intro mapS_Inr) (simp add: luma_at_inside L_def)
  have rows: "mapS (luma_row px width height stride) [0..<HASH_ROWS] = Inr (map (\<lambda>y. map (L y) [0..<HASH_COLUMNS]) [0..<HASH_ROWS])"
    using row by (intro mapS_Inr) simp
  define flags where "flags = map (\<lambda>y. map (\<lambda>x. L y (Suc x) < L y x) [0..<8]) [0..<8::nat]"
  have fl: "map row_flags (map (\<lambda>y. map (L y) [0..<HASH_COLUMNS]) [0..<HASH_ROWS]) = flags"
    by (simp add: flags_def row_flags_def HASH_ROWS_def HASH_COLUMNS_def)
  have len: "row \<in> set flags \<Longrightarrow> length row = 8" for row by (auto simp: flags_def)
  have total: "length (concat flags) = 64" using concat_rows_nth(2) [OF len, of flags 0 0] by (simp add: flags_def)
  have result: "perceptual_dhash_rgb8 px width height (Some stride) = Inr (fold set_flag (enumerate 0 (concat flags)) 0)"
    using assms by (simp add: perceptual_dhash_rgb8_def rows fl del: map_map)
  have "bit (fold set_flag (enumerate 0 (concat flags)) 0) (8 * y + x) \<longleftrightarrow> L y (Suc x) < L y x" if "y < 8" "x < 8" for y x
  proof -
    have "concat flags ! (8 * y + x) = flags ! y ! x" using that by (intro concat_rows_nth(1) [OF len]) (simp_all add: flags_def)
    then show ?thesis using that total by (simp add: bit_set_flags flags_def)
  qed
  then show ?thesis using result fold_set_flag_bounds [of "concat flags"] total by (auto simp: L_def HASH_BITS_def)
qed

lemma dhash_cases:
  "case perceptual_dhash_rgb8 px width height (Some stride) of Inr f \<Rightarrow> 0 \<le> f \<and> f < 2 ^ HASH_BITS | Inl e \<Rightarrow> \<exists>m. e = ValueError m"
proof (cases "0 < width \<and> 0 < height \<and> width * 3 \<le> stride \<and> int (length px) = stride * height")
  case True
  then show ?thesis using dhash_valid [of width height stride px] by auto
next
  case False
  then show ?thesis by (auto simp: perceptual_dhash_rgb8_def Let_def ensure_def)
qed


section \<open>Histories\<close>

text \<open>
  The controller together with the requests and frames admitted so far. The backend may answer each capture
  differently; a capture that raises leaves the admitted frames as they are.
\<close>

type_synonym capture_history = "(approved_capture_request \<times> raw_frame) list"

definition admitted_frames :: "approved_capture_request \<Rightarrow> exn + adaptive_result \<Rightarrow> capture_history \<Rightarrow> capture_history" where
  "admitted_frames request r past = (case r of Inl _ \<Rightarrow> past
     | Inr x \<Rightarrow> (case ar_frame x of None \<Rightarrow> past | Some frame \<Rightarrow> (request, frame) # past))"

inductive adaptive_step :: "adaptive \<times> capture_history \<Rightarrow> adaptive \<times> capture_history \<Rightarrow> bool" where
  step_capture: "capture_if_due capture request now a = (r, a') \<Longrightarrow> adaptive_step (a, past) (a', admitted_frames request r past)"
| step_overload: "adaptive_step (a, past) (note_overload a, past)"
| step_success: "adaptive_step (a, past) (note_success a, past)"
| step_reset: "adaptive_step (a, past) (reset_adaptive a, past)"

definition frame_fingerprint :: "raw_frame \<Rightarrow> exn + int" where
  "frame_fingerprint frame = perceptual_dhash_rgb8 (rf_pixels frame) (rf_width frame) (rf_height frame) (Some (rf_stride frame))"

definition came_from :: "capture_history \<Rightarrow> dedup_context \<Rightarrow> int \<Rightarrow> bool" where
  "came_from past c f \<longleftrightarrow> (\<exists>request frame. (request, frame) \<in> set past \<and> context_from_request request = Inr c \<and> frame_fingerprint frame = Inr f)"

definition span_of :: "capture_history \<Rightarrow> adaptive \<Rightarrow> bool" where
  "span_of past a \<longleftrightarrow>
    (av_fingerprint a = None \<longrightarrow> av_dedup a = None \<and> av_span_seen a = None) \<and>
    (\<forall>f. av_fingerprint a = Some f \<longrightarrow>
      (\<exists>c t u latest. av_dedup a = Some c \<and> av_span_started a = Some t \<and> av_span_seen a = Some u \<and>
         av_last_ns a = Some latest \<and> u \<le> latest \<and> came_from past c f))"

definition settings :: "adaptive \<Rightarrow> rat \<times> rat \<times> int \<times> int" where
  "settings a = (av_cadence a, av_threshold a, av_debounce_ns a, av_max_multiplier a)"

definition adaptive_inv :: "adaptive \<Rightarrow> capture_history \<Rightarrow> adaptive \<Rightarrow> bool" where
  "adaptive_inv a0 past a \<longleftrightarrow> settings a = settings a0 \<and> 1 \<le> av_multiplier a \<and> av_multiplier a \<le> av_max_multiplier a \<and>
    (av_last_ns a = None \<longleftrightarrow> av_last_context a = None) \<and> (av_pending a = None \<longleftrightarrow> av_pending_ns a = None) \<and> span_of past a"

lemmas adaptive_defs = adaptive_inv_def span_of_def settings_def clear_pending_def reset_dedup_def

lemma inv_clear_pending: "adaptive_inv a0 past a \<Longrightarrow> adaptive_inv a0 past (clear_pending a)"
  by (simp add: adaptive_defs)

lemma inv_pending: "adaptive_inv a0 past a \<Longrightarrow> adaptive_inv a0 past (a\<lparr>av_pending := Some c, av_pending_ns := Some t\<rparr>)"
  by (simp add: adaptive_defs)

lemma inv_reset_dedup: "adaptive_inv a0 past a \<Longrightarrow> adaptive_inv a0 past (reset_dedup a)"
  by (simp add: adaptive_defs)

lemma inv_started:
  assumes "adaptive_inv a0 past a" and "\<And>latest. av_last_ns a = Some latest \<Longrightarrow> latest \<le> now"
  shows "adaptive_inv a0 past (a\<lparr>av_last_context := Some c, av_last_ns := Some now\<rparr>)"
  using assms by (auto simp: adaptive_defs)

lemma came_from_logged: "came_from past c f \<Longrightarrow> came_from (x # past) c f"
  by (auto simp: came_from_def)

lemma came_from_here: "context_from_request request = Inr c \<Longrightarrow> frame_fingerprint frame = Inr f \<Longrightarrow> came_from ((request, frame) # past) c f"
  by (auto simp: came_from_def)

lemma inv_logged: "adaptive_inv a0 past a \<Longrightarrow> adaptive_inv a0 (x # past) a"
  by (auto simp: adaptive_defs came_from_logged)

lemma inv_new: "new_adaptive cadence threshold debounce limit = Inr a0 \<Longrightarrow> adaptive_inv a0 [] a0"
  by (auto simp: new_adaptive_def bindS_Inr ensure_Inr adaptive_defs)

lemma inv_backoff:
  assumes "adaptive_inv a0 past a"
  shows "adaptive_inv a0 past (note_overload a)" "adaptive_inv a0 past (note_success a)" "adaptive_inv a0 past (reset_adaptive a)"
  using assms by (auto simp: adaptive_defs note_overload_def note_success_def reset_adaptive_def)

section \<open>One capture\<close>

text \<open>What a decision not to capture means: the privacy scope is that of the last capture, and the cadence has not run out.\<close>

definition too_early :: "adaptive \<Rightarrow> dedup_context \<Rightarrow> int \<Rightarrow> bool" where
  "too_early a c now \<longleftrightarrow> (\<exists>latest previous. av_last_ns a = Some latest \<and> av_last_context a = Some previous \<and>
     privacy_scope c = privacy_scope previous \<and> latest \<le> now \<and> now - latest < py_int (effective_cadence a * NS_PER_SECOND))"

abbreviation value_error :: "exn \<Rightarrow> bool" where
  "value_error e \<equiv> \<exists>m. e = ValueError m"

lemma wp_poll_capture:
  assumes "adaptive_inv a0 past a"
  shows "wp (poll_capture c now) (\<lambda>d a'. adaptive_inv a0 past a' \<and> (td_kind d = TRIGGER_NONE \<longrightarrow> too_early a c now))
    (\<lambda>e a'. adaptive_inv a0 past a' \<and> value_error e) a"
proof (cases "av_last_ns a")
  case None
  then show ?thesis using assms
    by (simp add: poll_capture_def require_monotonic_ns_def wp_rules)
next
  case (Some latest)
  then obtain previous where previous: "av_last_context a = Some previous" using assms by (auto simp: adaptive_inv_def)
  have linked: "av_pending a = None \<longleftrightarrow> av_pending_ns a = None" using assms by (simp add: adaptive_inv_def)
  have effective: "effective_cadence (clear_pending a) = effective_cadence a"
    "effective_cadence (a\<lparr>av_pending := Some c, av_pending_ns := Some now\<rparr>) = effective_cadence a"
    by (simp_all add: effective_cadence_def clear_pending_def)
  show ?thesis using assms Some previous linked
    by (auto simp: poll_capture_def poll_pending_def poll_cadence_def require_monotonic_ns_def wp_rules Let_def too_early_def effective
        inv_clear_pending inv_pending split: option.split)
qed

lemma wp_mark_capture_started:
  assumes "adaptive_inv a0 past a"
  shows "wp (mark_capture_started c now) (\<lambda>_ a'. adaptive_inv a0 past a' \<and> av_last_ns a' = Some now)
    (\<lambda>e a'. adaptive_inv a0 past a' \<and> value_error e) a"
proof -
  have clear: "av_last_ns (clear_pending x) = av_last_ns x" for x by (simp add: clear_pending_def)
  have reset: "av_last_ns (reset_dedup x) = av_last_ns x" for x by (simp add: reset_dedup_def)
  show ?thesis using assms
    by (auto simp: mark_capture_started_def require_monotonic_ns_def wp_rules clear reset
        intro!: inv_clear_pending inv_started inv_reset_dedup)
qed

text \<open>Two frames the controller takes for the same: their fingerprints differ in at most the configured share of the bits.\<close>

definition looks_alike :: "rat \<Rightarrow> raw_frame \<Rightarrow> raw_frame \<Rightarrow> bool" where
  "looks_alike threshold x y \<longleftrightarrow> (case (frame_fingerprint x, frame_fingerprint y) of
     (Inr f, Inr g) \<Rightarrow> of_nat (changed_bits f g) \<le> threshold * 64 | _ \<Rightarrow> False)"

definition seen_before :: "rat \<Rightarrow> capture_history \<Rightarrow> approved_capture_request \<Rightarrow> raw_frame \<Rightarrow> bool" where
  "seen_before threshold past request frame \<longleftrightarrow> (\<exists>earlier previous. (earlier, previous) \<in> set past \<and>
     context_from_request earlier = context_from_request request \<and> looks_alike threshold previous frame)"

lemma inv_new_span:
  assumes "adaptive_inv a0 past a" "av_last_ns a = Some now" "context_from_request request = Inr c" "frame_fingerprint frame = Inr f"
  shows "adaptive_inv a0 ((request, frame) # past) (a\<lparr>av_dedup := Some c, av_fingerprint := Some f, av_span_count := 1,
      av_span_started := Some now, av_span_seen := Some now\<rparr>)"
  using assms came_from_here [OF assms(3,4), of past] by (simp add: adaptive_defs)

lemma inv_extended_span:
  assumes "adaptive_inv a0 past a" "av_last_ns a = Some now" "av_fingerprint a = Some f"
  shows "adaptive_inv a0 past (a\<lparr>av_span_count := n, av_span_seen := Some now\<rparr>)"
  using assms by (auto simp: adaptive_defs)

lemma wp_classify_frame:
  assumes inv: "adaptive_inv a0 past a" and now: "av_last_ns a = Some now"
    and c: "context_from_request request = Inr c" and f: "frame_fingerprint frame = Inr f"
  shows "wp (classify_frame c f now)
    (\<lambda>d a'. if fq_disposition d = FRAME_COALESCE then adaptive_inv a0 past a' \<and> seen_before (av_threshold a0) past request frame
      else adaptive_inv a0 ((request, frame) # past) a')
    (\<lambda>e a'. adaptive_inv a0 past a' \<and> value_error e) a"
proof -
  have new: "wp (accept_new_span c f now)
    (\<lambda>d a'. if fq_disposition d = FRAME_COALESCE then adaptive_inv a0 past a' \<and> seen_before (av_threshold a0) past request frame
      else adaptive_inv a0 ((request, frame) # past) a') E a" for E
    using inv_new_span [OF assms] by (simp add: accept_new_span_def wp_rules)
  show ?thesis
  proof (cases "av_fingerprint a")
    case None
    then show ?thesis using inv new by (simp add: classify_frame_def require_monotonic_ns_def wp_rules)
  next
    case (Some g)
    then obtain c' t u where span: "av_dedup a = Some c'" "av_span_started a = Some t" "av_span_seen a = Some u" "u \<le> now"
      and "came_from past c' g"
      using inv now by (auto simp: adaptive_inv_def span_of_def)
    then have seen: "seen_before (av_threshold a0) past request frame"
      if "c' = c" "of_nat (changed_bits g f) \<le> av_threshold a0 * 64"
      using that c f unfolding seen_before_def looks_alike_def came_from_def by fastforce
    have "av_threshold a = av_threshold a0" using inv by (simp add: adaptive_inv_def settings_def)
    then show ?thesis using inv new Some span seen inv_extended_span [OF inv now Some]
      by (simp add: classify_frame_def require_monotonic_ns_def wp_rules HASH_BITS_def pos_divide_le_eq)
  qed
qed

definition capture_outcome :: "(approved_capture_request \<Rightarrow> exn + raw_frame) \<Rightarrow> approved_capture_request \<Rightarrow> int \<Rightarrow> capture_history \<Rightarrow>
    adaptive \<Rightarrow> exn + adaptive_result \<Rightarrow> bool" where
  "capture_outcome capture request now past a r = (case r of
     Inl e \<Rightarrow> value_error e \<or> capture request = Inl e
   | Inr x \<Rightarrow> (case ar_outcome x of
        OUTCOME_SKIP \<Rightarrow> ar_frame x = None \<and> (\<exists>c. context_from_request request = Inr c \<and> too_early a c now)
      | OUTCOME_COALESCE \<Rightarrow> ar_frame x = None \<and> (\<exists>frame. capture request = Inr frame \<and> seen_before (av_threshold a) past request frame)
      | OUTCOME_ADMIT \<Rightarrow> (\<exists>frame. capture request = Inr frame \<and> ar_frame x = Some frame \<and>
          rf_generation frame = in_generation (aq_intent request) \<and> rf_format frame = RGB8)))"

lemma ensure_value_error: "ensure b (ValueError m) = Inl e \<Longrightarrow> value_error e"
  by (cases b) auto

lemma bounded_errors: "require_bounded_text v n l = Inl e \<Longrightarrow> value_error e" "require_bounded_option w n = Inl e \<Longrightarrow> value_error e"
proof -
  show plain: "require_bounded_text v n l = Inl e \<Longrightarrow> value_error e" for v n l
    unfolding require_bounded_text_def by (rule ensure_value_error)
  show "require_bounded_option w n = Inl e \<Longrightarrow> value_error e"
    by (cases w) (auto simp: require_bounded_option_def intro: plain)
qed

lemma bindS_Inl: "bindS m f = Inl e \<longleftrightarrow> m = Inl e \<or> (\<exists>x. m = Inr x \<and> f x = Inl e)"
  by (cases m) simp_all

lemma context_errors: "context_from_request request = Inl e \<Longrightarrow> value_error e"
  unfolding context_from_request_def mk_DedupContext_def by (auto simp: bindS_Inl dest: bounded_errors)

lemma fingerprint_errors: "frame_fingerprint frame = Inl e \<Longrightarrow> value_error e"
  using dhash_cases [of "rf_pixels frame" "rf_width frame" "rf_height frame" "rf_stride frame"] by (simp add: frame_fingerprint_def)

text \<open>The part of a capture that starts with the backend's call.\<close>

definition examine :: "(approved_capture_request \<Rightarrow> exn + raw_frame) \<Rightarrow> approved_capture_request \<Rightarrow> int \<Rightarrow> dedup_context \<Rightarrow> trigger_decision \<Rightarrow>
    (adaptive, adaptive_result) comp" where
  "examine capture request now c trigger = bindE (lift (capture request)) (\<lambda>frame.
     seqE (require (rf_generation frame = in_generation (aq_intent request))
       (ValueError ''captured frame generation does not match approved request generation''))
     (seqE (require (rf_format frame = RGB8) (ValueError ''adaptive fingerprint requires RGB8 frame''))
     (bindE (lift (frame_fingerprint frame)) (\<lambda>fingerprint.
      bindE (classify_frame c fingerprint now) (\<lambda>decision.
      if fq_disposition decision = FRAME_COALESCE then
        ret \<lparr>ar_outcome = OUTCOME_COALESCE, ar_trigger = trigger, ar_frame = None, ar_decision = Some decision\<rparr>
      else
        ret \<lparr>ar_outcome = OUTCOME_ADMIT, ar_trigger = trigger, ar_frame = Some frame, ar_decision = Some decision\<rparr>)))))"

lemma capture_if_due_examine:
  "capture_if_due capture request now = bindE (lift (context_from_request request)) (\<lambda>c. bindE (poll_capture c now) (\<lambda>trigger.
    if td_kind trigger = TRIGGER_NONE then
      ret \<lparr>ar_outcome = OUTCOME_SKIP, ar_trigger = trigger, ar_frame = None, ar_decision = None\<rparr>
    else seqE (mark_capture_started c now) (examine capture request now c trigger)))"
  unfolding capture_if_due_def examine_def frame_fingerprint_def ..

definition captured_well :: "(approved_capture_request \<Rightarrow> exn + raw_frame) \<Rightarrow> approved_capture_request \<Rightarrow> int \<Rightarrow> capture_history \<Rightarrow>
    adaptive \<Rightarrow> adaptive \<Rightarrow> exn + adaptive_result \<Rightarrow> adaptive \<Rightarrow> bool" where
  "captured_well capture request now past a0 a r a' \<longleftrightarrow>
    adaptive_inv a0 (admitted_frames request r past) a' \<and> capture_outcome capture request now past a r"

lemma captured_raise: "adaptive_inv a0 past b \<Longrightarrow> value_error e \<or> capture request = Inl e \<Longrightarrow> captured_well capture request now past a0 a (Inl e) b"
  by (simp add: captured_well_def admitted_frames_def capture_outcome_def)

lemma captured_frame:
  assumes "if fq_disposition d = FRAME_COALESCE then adaptive_inv a0 past b \<and> seen_before (av_threshold a) past request frame
      else adaptive_inv a0 ((request, frame) # past) b"
    and "capture request = Inr frame" "rf_generation frame = in_generation (aq_intent request)" "rf_format frame = RGB8"
  shows "wp (if fq_disposition d = FRAME_COALESCE then
        ret \<lparr>ar_outcome = OUTCOME_COALESCE, ar_trigger = trigger, ar_frame = None, ar_decision = Some d\<rparr>
      else ret \<lparr>ar_outcome = OUTCOME_ADMIT, ar_trigger = trigger, ar_frame = Some frame, ar_decision = Some d\<rparr>)
    (\<lambda>x. captured_well capture request now past a0 a (Inr x)) E b"
  using assms by (simp add: wp_rules captured_well_def admitted_frames_def capture_outcome_def split: if_splits)

lemma wp_examine:
  assumes inv: "adaptive_inv a0 past b" "av_last_ns b = Some now" and c: "context_from_request request = Inr c"
    and threshold: "av_threshold a0 = av_threshold a"
  shows "wp (examine capture request now c trigger) (\<lambda>x. captured_well capture request now past a0 a (Inr x))
    (\<lambda>e. captured_well capture request now past a0 a (Inl e)) b"
proof (cases "capture request")
  case (Inl e)
  then show ?thesis using inv by (simp add: examine_def wp_rules captured_raise)
next
  case frame: (Inr frame)
  show ?thesis
  proof (cases "frame_fingerprint frame")
    case (Inl e)
    then show ?thesis using inv frame fingerprint_errors by (simp add: examine_def wp_rules captured_raise)
  next
    case (Inr f)
    note classified = wp_mono [OF wp_classify_frame [OF inv c Inr, unfolded threshold]]
    show ?thesis unfolding examine_def using inv frame Inr
      by (auto simp: wp_bindE wp_seqE wp_lift wp_require captured_raise intro!: classified captured_frame)
  qed
qed

lemma wp_capture_if_due:
  assumes inv: "adaptive_inv a0 past a"
  shows "wp (capture_if_due capture request now) (\<lambda>x. captured_well capture request now past a0 a (Inr x))
    (\<lambda>e. captured_well capture request now past a0 a (Inl e)) a"
proof (cases "context_from_request request")
  case (Inl e)
  then show ?thesis using inv context_errors by (simp add: capture_if_due_def wp_rules captured_raise)
next
  case (Inr c)
  have threshold: "av_threshold a0 = av_threshold a" using inv by (simp add: adaptive_inv_def settings_def)
  have skip: "captured_well capture request now past a0 a
      (Inr \<lparr>ar_outcome = OUTCOME_SKIP, ar_trigger = trigger, ar_frame = None, ar_decision = None\<rparr>) b"
    if "adaptive_inv a0 past b" "too_early a c now" for trigger b
    using that Inr by (simp add: captured_well_def admitted_frames_def capture_outcome_def)
  note polled = wp_mono [OF wp_poll_capture [OF inv]] and marked = wp_mono [OF wp_mark_capture_started]
  show ?thesis unfolding capture_if_due_examine using Inr
    by (auto simp: wp_bindE wp_seqE wp_lift wp_ret captured_raise skip intro!: polled marked wp_examine threshold)
qed

lemma inv_adaptive_step:
  assumes step: "adaptive_step s t" and inv: "adaptive_inv a0 (snd s) (fst s)"
  shows "adaptive_inv a0 (snd t) (fst t)"
  using step
  proof cases
    case (step_capture capture request now a r a' past)
    then show ?thesis using wp_capture_if_due [of a0 past a capture request now] inv
      by (cases r) (simp_all add: wp_def captured_well_def)
  qed (use inv in \<open>simp_all add: inv_backoff\<close>)

interpretation adaptive_history: invariant_system adaptive_step "(a0, [])"
  "\<lambda>s. adaptive_inv a0 [] a0 \<longrightarrow> adaptive_inv a0 (snd s) (fst s)" for a0
  by unfold_locales (auto dest: inv_adaptive_step)

lemma capture_outcome_reached:
  assumes "new_adaptive cadence threshold debounce limit = Inr a0" and "run adaptive_step (a0, []) (a, past)"
    and "capture_if_due capture request now a = (r, a')"
  shows "capture_outcome capture request now past a r" "av_threshold a = threshold"
    "1 \<le> av_multiplier a" "av_multiplier a \<le> limit" "av_cadence a = cadence"
proof -
  have inv: "adaptive_inv a0 past a"
    using adaptive_history.inv_reachable [OF assms(2)] inv_new [OF assms(1)] by simp
  from wp_capture_if_due [OF this, of capture request now] assms(3)
  show "capture_outcome capture request now past a r" by (cases r) (simp_all add: wp_def captured_well_def)
  have "settings a0 = (cadence, threshold, av_debounce_ns a0, limit)"
    using assms(1) by (auto simp: new_adaptive_def bindS_Inr ensure_Inr settings_def)
  then show "av_threshold a = threshold" "1 \<le> av_multiplier a" "av_multiplier a \<le> limit" "av_cadence a = cadence"
    using inv by (simp_all add: adaptive_inv_def settings_def)
qed

section \<open>Properties\<close>

definition sample_request :: approved_capture_request where
  "sample_request = \<lparr>aq_intent = \<lparr>in_job_id = 1, in_generation = CaptureGeneration 1, in_requested_at = Aware 0, in_deadline_ns = 9,
       in_configuration_revision = ''c1''\<rparr>,
     aq_metadata = \<lparr>md_observed_at = Aware 0, md_fields = []\<rparr>,
     aq_authorization = \<lparr>ca_decision_id = 1, ca_policy_revision = ''p1'', ca_allowed_fields = {}\<rparr>\<rparr>"

definition sample_raw :: raw_frame where
  "sample_raw = \<lparr>rf_frame_id = 1, rf_generation = CaptureGeneration 1, rf_captured_at = Aware 0, rf_width = 2, rf_height = 1, rf_stride = 6,
     rf_format = RGB8, rf_pixels = [9, 9, 9, 0, 0, 0], rf_metadata = \<lparr>md_observed_at = Aware 0, md_fields = []\<rparr>\<rparr>"

definition steady :: adaptive where
  "steady = projr (new_adaptive 2 (1 / 4) 0 4)"

definition steady_after :: adaptive where
  "steady_after = snd (capture_if_due (\<lambda>_. Inr sample_raw) sample_request 5 steady)"

lemma steady_new: "new_adaptive 2 (1 / 4) 0 4 = Inr steady"
  by code_simp

lemma steady_outcomes:
  "map_sum id ar_outcome (fst (capture_if_due (\<lambda>_. Inr sample_raw) sample_request 5 steady)) = Inr OUTCOME_ADMIT"
  "map_sum id ar_outcome (fst (capture_if_due (\<lambda>_. Inr sample_raw) sample_request 2000000005 steady_after)) = Inr OUTCOME_COALESCE"
  by code_simp+

lemma steady_run: "run adaptive_step (steady, []) (steady_after, [(sample_request, sample_raw)])"
proof -
  obtain x where x: "capture_if_due (\<lambda>_. Inr sample_raw) sample_request 5 steady = (Inr x, steady_after)" "ar_outcome x = OUTCOME_ADMIT"
    using steady_outcomes(1) by (cases "capture_if_due (\<lambda>_. Inr sample_raw) sample_request 5 steady"; cases "fst (capture_if_due (\<lambda>_. Inr sample_raw) sample_request 5 steady)")
      (auto simp: steady_after_def)
  have "capture_outcome (\<lambda>_. Inr sample_raw) sample_request 5 [] steady (Inr x)"
    by (rule capture_outcome_reached(1) [OF steady_new _ x(1)]) (rule run.intros)
  then have "admitted_frames sample_request (Inr x) [] = [(sample_request, sample_raw)]"
    using x(2) by (simp add: capture_outcome_def admitted_frames_def)
  then show ?thesis using step_capture [OF x(1), of "[]"] by (auto intro: run.intros)
qed

text \<open>
  C17. Over every history of captures, overloads, successes and resets, whatever the backend returns: a frame
  is coalesced only if a frame was admitted before whose request has the same generation, policy revision,
  configuration revision, application, workspace and window and whose fingerprint differs in at most the
  configured share of the bits; a capture is skipped only while the last one, in the same privacy scope, is
  more recent than the effective cadence, which backing off never stretches beyond the configured multiple; an
  admitted frame is the backend's, in RGB8 and of the generation that was approved; and a capture raises
  only a \<open>ValueError\<close> or what the backend raised.
\<close>

theorem capture_drops_only_lookalikes:
  assumes "new_adaptive cadence threshold debounce limit = Inr a0" and "run adaptive_step (a0, []) (a, past)"
    and "capture_if_due capture request now a = (r, a')"
  shows "(case r of
      Inl e \<Rightarrow> (\<exists>m. e = ValueError m) \<or> capture request = Inl e
    | Inr x \<Rightarrow> (case ar_outcome x of
        OUTCOME_COALESCE \<Rightarrow> ar_frame x = None \<and> (\<exists>frame. capture request = Inr frame \<and> seen_before threshold past request frame)
      | OUTCOME_SKIP \<Rightarrow> ar_frame x = None \<and> (\<exists>c. context_from_request request = Inr c \<and> too_early a c now)
      | OUTCOME_ADMIT \<Rightarrow> (\<exists>frame. capture request = Inr frame \<and> ar_frame x = Some frame \<and>
          rf_generation frame = in_generation (aq_intent request) \<and> rf_format frame = RGB8))) \<and>
    cadence \<le> effective_cadence a \<and> effective_cadence a \<le> cadence * of_int limit"
proof -
  note reached = capture_outcome_reached [OF assms]
  have "0 < cadence" using assms(1) by (auto simp: new_adaptive_def bindS_Inr ensure_Inr)
  then have "cadence \<le> effective_cadence a \<and> effective_cadence a \<le> cadence * of_int limit"
    using reached(3-5) by (simp add: effective_cadence_def)
  then show ?thesis using reached(1) unfolding capture_outcome_def reached(2) by simp
qed

theorem capture_drops_only_lookalikes_witness:
  "\<exists>r a'. run adaptive_step (steady, []) (steady_after, [(sample_request, sample_raw)]) \<and>
    capture_if_due (\<lambda>_. Inr sample_raw) sample_request 2000000005 steady_after = (Inr r, a') \<and>
    ar_outcome r = OUTCOME_COALESCE \<and> seen_before (1 / 4) [(sample_request, sample_raw)] sample_request sample_raw"
proof -
  obtain r a' where r: "capture_if_due (\<lambda>_. Inr sample_raw) sample_request 2000000005 steady_after = (Inr r, a')" "ar_outcome r = OUTCOME_COALESCE"
    using steady_outcomes(2) by (cases "capture_if_due (\<lambda>_. Inr sample_raw) sample_request 2000000005 steady_after"; cases "fst (capture_if_due (\<lambda>_. Inr sample_raw) sample_request 2000000005 steady_after)")
      auto
  have "seen_before (1 / 4) [(sample_request, sample_raw)] sample_request sample_raw"
    using capture_drops_only_lookalikes [OF steady_new steady_run r(1)] r(2) by simp
  then show ?thesis using steady_run r by blast
qed

text \<open>
  Every RGB8 frame that the domain constructor accepts has a fingerprint: the sampled offsets never leave
  the buffer, whatever the size and the stride, the result is an unsigned 64-bit number, and its bit
  \<open>8 * y + x\<close> tells whether the sample in row \<open>y\<close> and column \<open>x\<close> is brighter than the next one in its row.
\<close>

theorem every_frame_has_a_fingerprint:
  assumes "mk_RawFrame frame = Inr f" and "rf_format frame = RGB8"
  shows "\<exists>v. perceptual_dhash_rgb8 (rf_pixels frame) (rf_width frame) (rf_height frame) (Some (rf_stride frame)) = Inr v \<and>
    0 \<le> v \<and> v < 2 ^ 64 \<and>
    (\<forall>y < 8. \<forall>x < 8. bit v (8 * y + x) \<longleftrightarrow>
      luma (rf_pixels frame) (sample_offset (rf_width frame) (rf_height frame) (rf_stride frame) y (Suc x))
        < luma (rf_pixels frame) (sample_offset (rf_width frame) (rf_height frame) (rf_stride frame) y x))"
proof -
  have "0 < rf_width frame" "0 < rf_height frame" "rf_width frame * 3 \<le> rf_stride frame"
    "int (length (rf_pixels frame)) = rf_stride frame * rf_height frame"
    using assms by (auto simp: mk_RawFrame_def validate_frame_def bindS_Inr ensure_Inr)
  from dhash_valid [OF this] show ?thesis by (simp add: HASH_BITS_def)
qed

theorem every_frame_has_a_fingerprint_witness:
  "\<exists>v. perceptual_dhash_rgb8 [9, 9, 9, 0, 0, 0] 2 1 (Some 6) = Inr v \<and> 0 \<le> v \<and> v < 2 ^ 64"
proof -
  have "mk_RawFrame sample_raw = Inr sample_raw" "rf_format sample_raw = RGB8"
    by (simp_all add: mk_RawFrame_def validate_frame_def sample_raw_def)
  from every_frame_has_a_fingerprint [OF this] show ?thesis by (auto simp: sample_raw_def)
qed

end
