(* ===== verification/Sealed_Files.thy ===== *)
theory Sealed_Files
  imports Blob_Codec
begin

text \<open>
  The encrypted snapshot files that the semantic index (\<^verbatim>\<open>src/local_recall/index/semantic.py\<close>) and the
  activity store (\<^verbatim>\<open>src/local_recall/activity/store.py\<close>) both keep: the JSON payload around a ciphertext,
  and a file replaced atomically through a temporary one. Key provider, cipher and base64 are a
  parameter (\<open>seal_lib\<close>); a directory maps file names to contents. Every write draws a data key and a
  nonce and may fail at a point of the write.
\<close>

section \<open>Sealing\<close>

datatype key_purpose = KEY_RECORD | KEY_INDEX | KEY_SUMMARY | KEY_BACKUP

record seal_lib =
  sl_active :: "key_purpose \<Rightarrow> exn + key_handle"
  sl_wrap :: "key_handle \<Rightarrow> byte list \<Rightarrow> byte list \<Rightarrow> exn + byte list"
  sl_unwrap :: "key_handle \<Rightarrow> byte list \<Rightarrow> byte list \<Rightarrow> exn + byte list"
  sl_encrypt :: "byte list \<Rightarrow> byte list \<Rightarrow> byte list \<Rightarrow> byte list \<Rightarrow> byte list"
  sl_decrypt :: "byte list \<Rightarrow> byte list \<Rightarrow> byte list \<Rightarrow> byte list \<Rightarrow> byte list option"
  sl_b64 :: "byte list \<Rightarrow> string"
  sl_unb64 :: "string \<Rightarrow> byte list option"

definition SNAPSHOT_ALGORITHM :: string where
  "SNAPSHOT_ALGORITHM = ''xchacha20-poly1305-ietf''"

definition SNAPSHOT_FORMAT :: int where
  "SNAPSHOT_FORMAT = 1"

definition NONCE_BYTES :: nat where
  "NONCE_BYTES = 24"

text \<open>What one write draws and where it goes wrong, if it does.\<close>

datatype write_fault = WRITE_DONE | OPEN_FAILS | WRITE_FAILS | WRITE_CRASHES nat | REPLACE_FAILS | SYNC_FAILS

record draw =
  dw_data_key :: "byte list"
  dw_nonce :: "byte list"
  dw_fault :: write_fault

definition sealed_json :: "seal_lib \<Rightarrow> key_handle \<Rightarrow> byte list \<Rightarrow> byte list \<Rightarrow> byte list \<Rightarrow> json" where
  "sealed_json sl key ciphertext nonce wrapped = JObj
    [(''algorithm'', JStr SNAPSHOT_ALGORITHM),
     (''ciphertext'', JStr (sl_b64 sl ciphertext)),
     (''format_version'', JInt SNAPSHOT_FORMAT),
     (''key'', JObj [(''id'', JStr (kh_key_id key)), (''provider'', JStr (kh_provider_id key)), (''version'', JInt (kh_version key))]),
     (''nonce'', JStr (sl_b64 sl nonce)),
     (''wrapped_data_key'', JStr (sl_b64 sl wrapped))]"

definition encrypt_snapshot :: "blob_lib \<Rightarrow> seal_lib \<Rightarrow> key_purpose \<Rightarrow> byte list \<Rightarrow> draw \<Rightarrow> byte list \<Rightarrow> exn + byte list" where
  "encrypt_snapshot lib sl purpose aad d plaintext =
    bindS (sl_active sl purpose) (\<lambda>key.
    bindS (sl_wrap sl key (dw_data_key d) aad) (\<lambda>wrapped.
    Inr (bl_dumps lib (sealed_json sl key (sl_encrypt sl plaintext aad (dw_nonce d) (dw_data_key d)) (dw_nonce d) wrapped))))"

definition obj_at :: "(string \<times> json) list \<Rightarrow> string \<Rightarrow> (string \<times> json) list option" where
  "obj_at raw k = (case map_of raw k of Some (JObj inner) \<Rightarrow> Some inner | _ \<Rightarrow> None)"

definition bytes_at :: "seal_lib \<Rightarrow> (string \<times> json) list \<Rightarrow> string \<Rightarrow> byte list option" where
  "bytes_at sl raw k = Option.bind (str_at raw k) (sl_unb64 sl)"

text \<open>A JSON number that Python takes to be equal to an integer.\<close>

fun json_is :: "json option \<Rightarrow> int \<Rightarrow> bool" where
  "json_is (Some (JInt k)) i = (k = i)"
| "json_is (Some (JBool b)) i = (i = (if b then 1 else 0))"
| "json_is (Some (JNum r)) i = (r = of_int i)"
| "json_is _ i = False"

record sealed =
  sd_key :: key_handle
  sd_wrapped :: "byte list"
  sd_nonce :: "byte list"
  sd_ciphertext :: "byte list"

text \<open>
  Reading the payload. The decoders handle a missing key, a value of another type and an invalid
  value alike, so a failed step is \<open>None\<close>; a key handle is checked by its constructor. (A key identifier
  that is no text would escape as an attribute error; it counts as a failed step too.)
\<close>

definition parse_sealed :: "blob_lib \<Rightarrow> seal_lib \<Rightarrow> byte list \<Rightarrow> sealed option" where
  "parse_sealed lib sl payload = (case bl_loads lib payload of
     Some (JObj raw) \<Rightarrow>
       if \<not> json_is (map_of raw ''format_version'') SNAPSHOT_FORMAT \<or> str_at raw ''algorithm'' \<noteq> Some SNAPSHOT_ALGORITHM then None
       else
         Option.bind (obj_at raw ''key'') (\<lambda>raw_key.
         Option.bind (str_at raw_key ''id'') (\<lambda>kid.
         Option.bind (str_at raw_key ''provider'') (\<lambda>provider.
         Option.bind (int_at raw_key ''version'') (\<lambda>version.
         let key = \<lparr>kh_key_id = kid, kh_provider_id = provider, kh_version = version\<rparr> in
         if \<not> key_handle_ok key then None else
         Option.bind (bytes_at sl raw ''wrapped_data_key'') (\<lambda>wrapped.
         Option.bind (bytes_at sl raw ''nonce'') (\<lambda>nonce.
         Option.bind (bytes_at sl raw ''ciphertext'') (\<lambda>ciphertext.
         Some \<lparr>sd_key = key, sd_wrapped = wrapped, sd_nonce = nonce, sd_ciphertext = ciphertext\<rparr>)))))))
   | _ \<Rightarrow> None)"

definition open_sealed :: "seal_lib \<Rightarrow> byte list \<Rightarrow> exn \<Rightarrow> sealed \<Rightarrow> exn + byte list" where
  "open_sealed sl aad failure x =
    (case sl_unwrap sl (sd_key x) (sd_wrapped x) aad of
       Inl (ValueError _) \<Rightarrow> Inl failure
     | Inl e \<Rightarrow> Inl e
     | Inr data_key \<Rightarrow> (case sl_decrypt sl (sd_ciphertext x) aad (sd_nonce x) data_key of None \<Rightarrow> Inl failure | Some plaintext \<Rightarrow> Inr plaintext))"

section \<open>Atomic replacement\<close>

type_synonym directory = "string \<rightharpoonup> byte list"

text \<open>
  \<open>atomic_write\<close> on the file \<open>name\<close> through the temporary file \<open>temporary\<close>, opened exclusively. A failed
  write or flush removes the temporary file; a crash during the write, or a failed rename, leaves it; a
  failed flush of the directory is reported after the rename.
\<close>

definition atomic_write :: "string \<Rightarrow> string \<Rightarrow> write_fault \<Rightarrow> byte list \<Rightarrow> (directory, unit) comp" where
  "atomic_write temporary name fault payload =
    bindE (reads (\<lambda>d. d temporary)) (\<lambda>there.
    seqE (require (there = None) (OSError ''FileExistsError''))
    (case fault of
       OPEN_FAILS \<Rightarrow> raise (OSError ''open'')
     | WRITE_FAILS \<Rightarrow> raise (OSError ''write'')
     | WRITE_CRASHES n \<Rightarrow> seqE (modifies (\<lambda>d. d(temporary \<mapsto> take n payload))) (raise (OSError ''crash''))
     | REPLACE_FAILS \<Rightarrow> seqE (modifies (\<lambda>d. d(temporary \<mapsto> payload))) (raise (OSError ''replace''))
     | SYNC_FAILS \<Rightarrow> seqE (modifies (\<lambda>d. d(name \<mapsto> payload))) (raise (OSError ''fsync''))
     | WRITE_DONE \<Rightarrow> modifies (\<lambda>d. d(name \<mapsto> payload))))"

section \<open>Round trip\<close>

text \<open>
  What the code relies on: JSON reads back what it wrote, base64 decodes what it encoded, a key
  handle comes from its checked constructor, and the provider unwraps what it wrapped and the cipher
  decrypts what it encrypted under the same associated data.
\<close>

definition seal_lib_ok :: "blob_lib \<Rightarrow> seal_lib \<Rightarrow> bool" where
  "seal_lib_ok lib sl \<longleftrightarrow>
    (\<forall>key c n w. bl_dumps lib (sealed_json sl key c n w) \<noteq> [] \<and> bl_loads lib (bl_dumps lib (sealed_json sl key c n w)) = Some (sealed_json sl key c n w)) \<and>
    (\<forall>bs. sl_unb64 sl (sl_b64 sl bs) = Some bs) \<and>
    (\<forall>p key. sl_active sl p = Inr key \<longrightarrow> key_handle_ok key) \<and>
    (\<forall>key k aad w. sl_wrap sl key k aad = Inr w \<longrightarrow> sl_unwrap sl key w aad = Inr k) \<and>
    (\<forall>t aad n k. sl_decrypt sl (sl_encrypt sl t aad n k) aad n k = Some t)"

lemma parse_sealed_json:
  assumes "seal_lib_ok lib sl" and "key_handle_ok key"
  shows "parse_sealed lib sl (bl_dumps lib (sealed_json sl key c n w)) =
    Some \<lparr>sd_key = key, sd_wrapped = w, sd_nonce = n, sd_ciphertext = c\<rparr>"
proof -
  have "bl_loads lib (bl_dumps lib (sealed_json sl key c n w)) = Some (sealed_json sl key c n w)"
    and unb64: "\<And>bs. sl_unb64 sl (sl_b64 sl bs) = Some bs"
    using assms(1) by (simp_all add: seal_lib_ok_def)
  then show ?thesis using assms(2) unfolding parse_sealed_def
    by (cases key) (simp add: sealed_json_def int_at_def str_at_def obj_at_def bytes_at_def Let_def)
qed

lemma encrypted_snapshot_opens:
  assumes ok: "seal_lib_ok lib sl" and sealed: "encrypt_snapshot lib sl purpose aad d plaintext = Inr payload"
  shows "\<exists>x. parse_sealed lib sl payload = Some x \<and> sd_nonce x = dw_nonce d \<and> payload \<noteq> [] \<and> open_sealed sl aad failure x = Inr plaintext"
proof -
  obtain key w where key: "sl_active sl purpose = Inr key" and w: "sl_wrap sl key (dw_data_key d) aad = Inr w"
    and payload: "payload = bl_dumps lib (sealed_json sl key (sl_encrypt sl plaintext aad (dw_nonce d) (dw_data_key d)) (dw_nonce d) w)"
    using sealed by (auto simp: encrypt_snapshot_def bindS_Inr)
  have "key_handle_ok key" using ok key by (simp add: seal_lib_ok_def)
  moreover have "sl_unwrap sl key w aad = Inr (dw_data_key d)" using ok w by (simp add: seal_lib_ok_def)
  moreover have "sl_decrypt sl (sl_encrypt sl plaintext aad (dw_nonce d) (dw_data_key d)) aad (dw_nonce d) (dw_data_key d) = Some plaintext"
    using ok by (simp add: seal_lib_ok_def)
  moreover have "payload \<noteq> []" using ok unfolding payload seal_lib_ok_def by blast
  ultimately show ?thesis using parse_sealed_json [OF ok] payload by (simp add: open_sealed_def)
qed

text \<open>A write that returns leaves the new content; a write that raises leaves the old one, or the new one if only the last flush failed.\<close>

lemma wp_atomic_write:
  assumes "temporary \<noteq> name" and "d temporary = None"
  shows "wp (atomic_write temporary name fault payload)
    (\<lambda>_ d'. d' = d(name \<mapsto> payload) \<and> fault = WRITE_DONE)
    (\<lambda>e d'. (\<exists>m. e = OSError m) \<and> (d' name = d name \<or> d' name = Some payload) \<and> (\<forall>n. n \<noteq> name \<longrightarrow> n \<noteq> temporary \<longrightarrow> d' n = d n) \<and>
      (d' temporary = None \<or> fault = REPLACE_FAILS \<or> (\<exists>n. fault = WRITE_CRASHES n))) d"
  using assms by (cases fault) (simp_all add: atomic_write_def wp_rules)

lemma atomic_write_wedged:
  assumes "d temporary = Some x"
  shows "atomic_write temporary name fault payload d = (Inl (OSError ''FileExistsError''), d)"
  using assms by (simp add: atomic_write_def comp_defs)

end
