(* ===== verification/Semantic_Index.thy ===== *)
theory Semantic_Index
  imports Sealed_Files Retrieval_Service Model_Routing
begin

text \<open>
  The encrypted semantic index (\<^verbatim>\<open>src/local_recall/index/semantic.py\<close>) and the embedding types it exchanges
  with a provider (\<^verbatim>\<open>src/local_recall/domain/providers.py\<close>). Floating-point values are rationals or not
  finite; the square root and the embedding provider are parameters. Each operation holds the lock of the
  index from its first access to its last, so it is one computation over the directory.
\<close>

section \<open>Embeddings\<close>

datatype pyfloat = Fin rat | NonFinite

fun is_finite :: "pyfloat \<Rightarrow> bool" where
  "is_finite (Fin _) = True"
| "is_finite NonFinite = False"

fun finite_value :: "pyfloat \<Rightarrow> rat" where
  "finite_value (Fin r) = r"
| "finite_value NonFinite = 0"

record embedding_request =
  eq_inputs :: "string list"
  eq_privacy_class :: privacy_class
  eq_model_hint :: "string option"

definition mk_EmbeddingRequest :: "string list \<Rightarrow> privacy_class \<Rightarrow> exn + embedding_request" where
  "mk_EmbeddingRequest inputs privacy =
    bindS (ensure (inputs \<noteq> [] \<and> [] \<notin> set inputs) (ValueError ''embedding request requires non-empty inputs'')) (\<lambda>_.
    Inr \<lparr>eq_inputs = inputs, eq_privacy_class = privacy, eq_model_hint = None\<rparr>)"

record embedding_response =
  er_provider_id :: string
  er_model_id :: string
  er_vectors :: "pyfloat list list"

definition mk_EmbeddingResponse :: "embedding_response \<Rightarrow> exn + embedding_response" where
  "mk_EmbeddingResponse r =
    bindS (ensure (nonempty (er_provider_id r)) (ValueError ''provider_id must not be empty'')) (\<lambda>_.
    bindS (ensure (nonempty (er_model_id r)) (ValueError ''model_id must not be empty'')) (\<lambda>_.
    bindS (ensure (er_vectors r \<noteq> [] \<and> [] \<notin> set (er_vectors r)) (ValueError ''embedding response requires non-empty vectors'')) (\<lambda>_.
    bindS (ensure (length (remdups (map length (er_vectors r))) = 1) (ValueError ''embedding vectors must have consistent dimensions'')) (\<lambda>_.
    Inr r))))"

type_synonym embedder = "embedding_request \<Rightarrow> exn + embedding_response"

section \<open>Documents, queries and snapshots\<close>

record index_document =
  xd_record_id :: record_uuid
  xd_captured_at :: datetime
  xd_text :: string
  xd_metadata :: "string list"
  xd_privacy_class :: privacy_class

definition mk_IndexDocument :: "index_document \<Rightarrow> exn + index_document" where
  "mk_IndexDocument d =
    bindS (ensure (is_aware (xd_captured_at d)) (ValueError ''captured_at must be timezone-aware'')) (\<lambda>_.
    bindS (ensure (nonempty (xd_text d)) (ValueError ''text must not be empty'')) (\<lambda>_.
    bindS (ensure ([] \<notin> set (xd_metadata d)) (ValueError ''approved metadata must not contain empty values'')) (\<lambda>_.
    bindS (ensure (xd_privacy_class d = REDACTED_CONTENT) (ValueError ''semantic indexing requires redacted content'')) (\<lambda>_.
    Inr d))))"

definition embedding_text :: "index_document \<Rightarrow> string" where
  "embedding_text d = join_lines (xd_text d # xd_metadata d)"

record semantic_query =
  sq_text :: string
  sq_start_at :: "datetime option"
  sq_end_at :: "datetime option"
  sq_limit :: int

definition mk_SemanticQuery :: "semantic_query \<Rightarrow> exn + semantic_query" where
  "mk_SemanticQuery q =
    bindS (ensure (nonempty (sq_text q)) (ValueError ''text must not be empty'')) (\<lambda>_.
    bindS (ensure (opt_ok is_aware (sq_start_at q)) (ValueError ''start_at must be timezone-aware'')) (\<lambda>_.
    bindS (ensure (opt_ok is_aware (sq_end_at q)) (ValueError ''end_at must be timezone-aware'')) (\<lambda>_.
    bindS (ensure (case (sq_start_at q, sq_end_at q) of (Some s, Some e) \<Rightarrow> instant s < instant e | _ \<Rightarrow> True)
      (ValueError ''end_at must be later than start_at'')) (\<lambda>_.
    bindS (ensure (1 \<le> sq_limit q \<and> sq_limit q \<le> 10000) (ValueError ''limit must be between 1 and 10000'')) (\<lambda>_.
    Inr q)))))"

record semantic_hit =
  sh_record_id :: record_uuid
  sh_captured_at :: datetime
  sh_score :: rat

record index_manifest =
  mf_model_id :: string
  mf_dimensions :: int
  mf_record_count :: nat

record index_entry =
  xe_record_id :: record_uuid
  xe_captured_at :: datetime
  xe_vector :: "rat list"

record index_snapshot =
  xs_model_id :: string
  xs_dimensions :: int
  xs_entries :: "index_entry list"

record index_env =
  ix_lib :: blob_lib
  ix_seal :: seal_lib
  ix_sqrt :: "rat \<Rightarrow> rat"

section \<open>The file format\<close>

definition ACTIVE_NAME :: string where
  "ACTIVE_NAME = ''semantic-index.lri''"

definition CHECKPOINT_NAME :: string where
  "CHECKPOINT_NAME = ''semantic-index.rebuild.lri''"

definition INDEX_AAD :: "byte list" where
  "INDEX_AAD = map (\<lambda>c. of_nat (char_code c)) ''local-recall-semantic-index-v1''"

definition MAX_SNAPSHOT_BYTES :: nat where
  "MAX_SNAPSHOT_BYTES = 512 * 1024 * 1024"

definition encode_index_entry :: "blob_lib \<Rightarrow> index_entry \<Rightarrow> json" where
  "encode_index_entry lib e = JObj [(''captured_at'', JStr (bl_iso lib (xe_captured_at e))),
     (''record_id'', JStr (bl_uuid_str lib (xe_record_id e))), (''vector'', JArr (map JNum (xe_vector e)))]"

definition encode_index_snapshot :: "blob_lib \<Rightarrow> index_snapshot \<Rightarrow> json" where
  "encode_index_snapshot lib s = JObj [(''dimensions'', JInt (xs_dimensions s)),
     (''entries'', JArr (map (encode_index_entry lib) (xs_entries s))), (''model_id'', JStr (xs_model_id s))]"

text \<open>
  The decoder runs on authenticated text, which only the encoder writes; \<open>None\<close> stands for every error it
  turns into an index failure.
\<close>

fun json_float :: "json \<Rightarrow> rat option" where
  "json_float (JNum r) = Some r"
| "json_float (JInt i) = Some (of_int i)"
| "json_float (JBool b) = Some (if b then 1 else 0)"
| "json_float _ = None"

primrec all_some :: "('a \<Rightarrow> 'b option) \<Rightarrow> 'a list \<Rightarrow> 'b list option" where
  "all_some f [] = Some []"
| "all_some f (x # xs) = Option.bind (f x) (\<lambda>y. Option.bind (all_some f xs) (\<lambda>ys. Some (y # ys)))"

definition arr_at :: "(string \<times> json) list \<Rightarrow> string \<Rightarrow> json list option" where
  "arr_at raw k = (case map_of raw k of Some (JArr js) \<Rightarrow> Some js | _ \<Rightarrow> None)"

definition decode_index_entry :: "blob_lib \<Rightarrow> json \<Rightarrow> index_entry option" where
  "decode_index_entry lib j = (case j of JObj raw \<Rightarrow>
     Option.bind (Option.bind (str_at raw ''record_id'') (bl_uuid lib)) (\<lambda>rid.
     Option.bind (Option.bind (str_at raw ''captured_at'') (bl_from_iso lib)) (\<lambda>captured.
     Option.bind (Option.bind (arr_at raw ''vector'') (all_some json_float)) (\<lambda>vector.
     Some \<lparr>xe_record_id = rid, xe_captured_at = captured, xe_vector = vector\<rparr>))) | _ \<Rightarrow> None)"

definition index_snapshot_ok :: "index_snapshot \<Rightarrow> bool" where
  "index_snapshot_ok s \<longleftrightarrow> nonempty (xs_model_id s) \<and> 0 < xs_dimensions s \<and>
    (\<forall>e \<in> set (xs_entries s). is_aware (xe_captured_at e) \<and> int (length (xe_vector e)) = xs_dimensions s)"

definition decode_index_snapshot :: "blob_lib \<Rightarrow> byte list \<Rightarrow> index_snapshot option" where
  "decode_index_snapshot lib payload = (case bl_loads lib payload of Some (JObj raw) \<Rightarrow>
     Option.bind (str_at raw ''model_id'') (\<lambda>model.
     Option.bind (int_at raw ''dimensions'') (\<lambda>dimensions.
     Option.bind (Option.bind (arr_at raw ''entries'') (all_some (decode_index_entry lib))) (\<lambda>entries.
     let s = \<lparr>xs_model_id = model, xs_dimensions = dimensions, xs_entries = entries\<rparr> in
     if index_snapshot_ok s then Some s else None))) | _ \<Rightarrow> None)"

definition index_decrypt :: "index_env \<Rightarrow> byte list \<Rightarrow> exn + byte list" where
  "index_decrypt env payload = (case parse_sealed (ix_lib env) (ix_seal env) payload of
     None \<Rightarrow> Inl (IndexFailure ''semantic index authentication failed'')
   | Some x \<Rightarrow> open_sealed (ix_seal env) INDEX_AAD (IndexFailure ''semantic index authentication failed'') x)"

definition read_index_file :: "byte list \<Rightarrow> exn + byte list" where
  "read_index_file payload = bindS (ensure (payload \<noteq> [] \<and> length payload \<le> MAX_SNAPSHOT_BYTES)
     (IndexFailure ''semantic index file has an invalid size'')) (\<lambda>_. Inr payload)"

definition index_load :: "index_env \<Rightarrow> string \<Rightarrow> (directory, index_snapshot option) comp" where
  "index_load env name = bindE (reads (\<lambda>d. d name)) (\<lambda>file. case file of
     None \<Rightarrow> ret None
   | Some content \<Rightarrow>
       bindE (lift (bindS (read_index_file content) (index_decrypt env))) (\<lambda>plaintext.
       case decode_index_snapshot (ix_lib env) plaintext of
         None \<Rightarrow> raise (IndexFailure ''semantic index payload is invalid'')
       | Some s \<Rightarrow> ret (Some s)))"

definition index_temporary :: "string \<Rightarrow> string" where
  "index_temporary name = ''.'' @ name @ ''.tmp''"

definition index_save :: "index_env \<Rightarrow> string \<Rightarrow> draw \<Rightarrow> index_snapshot \<Rightarrow> (directory, unit) comp" where
  "index_save env name d s =
    bindE (lift (encrypt_snapshot (ix_lib env) (ix_seal env) KEY_INDEX INDEX_AAD d
      (bl_dumps (ix_lib env) (encode_index_snapshot (ix_lib env) s)))) (\<lambda>payload.
    seqE (require (length payload \<le> MAX_SNAPSHOT_BYTES) (IndexFailure ''semantic index exceeds the snapshot limit''))
    (atomic_write (index_temporary name) name (dw_fault d) payload))"

section \<open>Checks\<close>

definition validate_documents :: "index_document list \<Rightarrow> exn + unit" where
  "validate_documents ds =
    bindS (ensure (ds \<noteq> []) (ValueError ''at least one document is required'')) (\<lambda>_.
    bindS (ensure (\<forall>d \<in> set ds. xd_privacy_class d = REDACTED_CONTENT) (ValueError ''semantic indexing requires redacted content'')) (\<lambda>_.
    ensure (distinct (map xd_record_id ds)) (ValueError ''duplicate record IDs are not allowed'')))"

definition index_embedding_request :: "index_document list \<Rightarrow> exn + embedding_request" where
  "index_embedding_request ds = mk_EmbeddingRequest (map embedding_text ds) REDACTED_CONTENT"

definition response_dimension :: "embedding_response \<Rightarrow> int" where
  "response_dimension r = int (length (hd (er_vectors r)))"

definition validate_response :: "embedding_response \<Rightarrow> nat \<Rightarrow> exn + unit" where
  "validate_response r inputs =
    bindS (ensure (length (er_vectors r) = inputs) (IndexFailure ''embedding provider returned the wrong vector count'')) (\<lambda>_.
    bindS (ensure (0 < response_dimension r \<and> (\<forall>v \<in> set (er_vectors r). int (length v) = response_dimension r))
      (IndexFailure ''embedding provider returned inconsistent dimensions'')) (\<lambda>_.
    ensure (\<forall>v \<in> set (er_vectors r). \<forall>x \<in> set v. is_finite x) (IndexFailure ''embedding provider returned a non-finite value'')))"

definition require_compatible :: "index_snapshot \<Rightarrow> embedding_response \<Rightarrow> exn + unit" where
  "require_compatible s r =
    bindS (ensure (er_model_id r = xs_model_id s) (IndexModelMismatch ''embedding model does not match the index'')) (\<lambda>_.
    ensure (response_dimension r = xs_dimensions s) (IndexModelMismatch ''embedding dimensions do not match the index''))"

definition index_entries :: "index_document list \<Rightarrow> embedding_response \<Rightarrow> index_entry list" where
  "index_entries ds r = map2 (\<lambda>d v. \<lparr>xe_record_id = xd_record_id d, xe_captured_at = xd_captured_at d,
     xe_vector = map finite_value v\<rparr>) ds (er_vectors r)"

definition matches_prefix :: "index_snapshot \<Rightarrow> index_document list \<Rightarrow> bool" where
  "matches_prefix s ds \<longleftrightarrow> length (xs_entries s) \<le> length ds \<and>
    list_all2 (\<lambda>e d. xe_record_id e = xd_record_id d) (xs_entries s) (take (length (xs_entries s)) ds)"

definition query_within :: "semantic_query \<Rightarrow> datetime \<Rightarrow> bool" where
  "query_within q t \<longleftrightarrow> (case sq_start_at q of Some s \<Rightarrow> instant s \<le> instant t | None \<Rightarrow> True) \<and>
    (case sq_end_at q of Some e \<Rightarrow> instant t < instant e | None \<Rightarrow> True)"

definition dot :: "rat list \<Rightarrow> rat list \<Rightarrow> rat" where
  "dot x y = sum_list (map2 (*) x y)"

definition cosine :: "(rat \<Rightarrow> rat) \<Rightarrow> rat list \<Rightarrow> rat list \<Rightarrow> rat" where
  "cosine sqroot x y = (let x_norm = sqroot (dot x x); y_norm = sqroot (dot y y) in
     if x_norm = 0 \<or> y_norm = 0 then 0 else max 0 (min 1 (dot x y / (x_norm * y_norm))))"

section \<open>Operations\<close>

definition manifest_of :: "index_snapshot \<Rightarrow> index_manifest" where
  "manifest_of s = \<lparr>mf_model_id = xs_model_id s, mf_dimensions = xs_dimensions s, mf_record_count = length (xs_entries s)\<rparr>"

definition index_manifest_op :: "index_env \<Rightarrow> (directory, index_manifest) comp" where
  "index_manifest_op env = bindE (index_load env ACTIVE_NAME) (\<lambda>s. case s of
     None \<Rightarrow> raise (IndexFailure ''semantic index is not initialized'') | Some s \<Rightarrow> ret (manifest_of s))"

definition merge_entries :: "blob_lib \<Rightarrow> index_entry list \<Rightarrow> index_entry list \<Rightarrow> index_entry list" where
  "merge_entries lib old new = sort_key (\<lambda>e. bl_uuid_str lib (xe_record_id e))
     (map snd (fold (\<lambda>e. AList.update (xe_record_id e) e) (old @ new) []))"

definition index_add :: "index_env \<Rightarrow> embedder \<Rightarrow> draw \<Rightarrow> index_document list \<Rightarrow> (directory, index_manifest) comp" where
  "index_add env provide d ds =
    seqE (lift (validate_documents ds))
    (bindE (index_load env ACTIVE_NAME) (\<lambda>current. case current of
       None \<Rightarrow> raise (IndexFailure ''semantic index is not initialized'')
     | Some s \<Rightarrow>
         bindE (lift (bindS (index_embedding_request ds) provide)) (\<lambda>r.
         seqE (lift (validate_response r (length ds)))
         (seqE (lift (require_compatible s r))
         (let replacement = s\<lparr>xs_entries := merge_entries (ix_lib env) (xs_entries s) (index_entries ds r)\<rparr> in
          seqE (index_save env ACTIVE_NAME d replacement) (ret (manifest_of replacement)))))))"

definition index_remove :: "index_env \<Rightarrow> draw \<Rightarrow> record_uuid list \<Rightarrow> (directory, index_manifest) comp" where
  "index_remove env d ids =
    seqE (require (ids \<noteq> []) (ValueError ''record removal requires at least one record ID''))
    (seqE (require (distinct ids) (ValueError ''duplicate record IDs are not allowed''))
    (bindE (index_load env ACTIVE_NAME) (\<lambda>current. case current of
       None \<Rightarrow> ret \<lparr>mf_model_id = ''uninitialized'', mf_dimensions = 0, mf_record_count = 0\<rparr>
     | Some s \<Rightarrow>
         let replacement = s\<lparr>xs_entries := filter (\<lambda>e. xe_record_id e \<notin> set ids) (xs_entries s)\<rparr> in
         seqE (index_save env ACTIVE_NAME d replacement) (ret (manifest_of replacement)))))"

definition index_record_ids :: "index_env \<Rightarrow> (directory, record_uuid list) comp" where
  "index_record_ids env = bindE (index_load env ACTIVE_NAME) (\<lambda>s.
     ret (case s of None \<Rightarrow> [] | Some s \<Rightarrow> map xe_record_id (xs_entries s)))"

definition index_clear :: "(directory, unit) comp" where
  "index_clear = modifies (\<lambda>d. d(ACTIVE_NAME := None))"

definition hit_key :: "blob_lib \<Rightarrow> semantic_hit \<Rightarrow> rat \<times> int \<times> string" where
  "hit_key lib h = (- sh_score h, instant (sh_captured_at h), bl_uuid_str lib (sh_record_id h))"

definition index_search :: "index_env \<Rightarrow> embedder \<Rightarrow> semantic_query \<Rightarrow> (directory, semantic_hit list) comp" where
  "index_search env provide q =
    bindE (index_load env ACTIVE_NAME) (\<lambda>current. case current of
      None \<Rightarrow> ret []
    | Some s \<Rightarrow>
        bindE (lift (bindS (mk_EmbeddingRequest [sq_text q] REDACTED_CONTENT) provide)) (\<lambda>r.
        seqE (lift (validate_response r 1))
        (seqE (lift (require_compatible s r))
        (let query_vector = map finite_value (hd (er_vectors r));
             hits = map (\<lambda>e. \<lparr>sh_record_id = xe_record_id e, sh_captured_at = xe_captured_at e,
               sh_score = cosine (ix_sqrt env) query_vector (xe_vector e)\<rparr>)
               (filter (\<lambda>e. query_within q (xe_captured_at e)) (xs_entries s)) in
         ret (take (nat (sq_limit q)) (sort_key (hit_key (ix_lib env)) hits))))))"

section \<open>Rebuilding\<close>

text \<open>The batches of \<open>range(completed, len(documents), batch_size)\<close>.\<close>

function batches :: "nat \<Rightarrow> 'a list \<Rightarrow> 'a list list" where
  "batches n xs = (if n = 0 \<or> xs = [] then [] else take n xs # batches n (drop n xs))"
  by pat_completeness auto
termination
  by (relation "measure (\<lambda>(n, xs). length xs)") auto

declare batches.simps [simp del]

type_synonym embedding_model = "(string \<times> int) option"

definition continue_model :: "embedding_model \<Rightarrow> embedding_response \<Rightarrow> exn + string \<times> int" where
  "continue_model m r = (case m of
     None \<Rightarrow> Inr (er_model_id r, response_dimension r)
   | Some (model, dimensions) \<Rightarrow>
       bindS (ensure (er_model_id r = model \<and> response_dimension r = dimensions)
         (IndexModelMismatch ''embedding model or dimension changed during rebuild'')) (\<lambda>_. Inr (model, dimensions)))"

primrec rebuild_batches ::
    "index_env \<Rightarrow> (nat \<Rightarrow> embedder) \<Rightarrow> (nat \<Rightarrow> draw) \<Rightarrow> nat \<Rightarrow> index_document list list \<Rightarrow> embedding_model \<Rightarrow> index_entry list \<Rightarrow>
     (directory, embedding_model \<times> index_entry list) comp" where
  "rebuild_batches env provide draws i [] m entries = ret (m, entries)"
| "rebuild_batches env provide draws i (b # bs) m entries =
    bindE (lift (bindS (index_embedding_request b) (provide i))) (\<lambda>r.
    seqE (lift (validate_response r (length b)))
    (bindE (lift (continue_model m r)) (\<lambda>(model, dimensions).
     let entries' = entries @ index_entries b r in
     seqE (index_save env CHECKPOINT_NAME (draws i) \<lparr>xs_model_id = model, xs_dimensions = dimensions, xs_entries = entries'\<rparr>)
     (rebuild_batches env provide draws (Suc i) bs (Some (model, dimensions)) entries'))))"

definition finish_rebuild :: "index_env \<Rightarrow> draw \<Rightarrow> embedding_model \<times> index_entry list \<Rightarrow> (directory, index_manifest) comp" where
  "finish_rebuild env d result = (case result of
     (None, _) \<Rightarrow> raise (ValueError ''rebuild requires at least one document'')
   | (Some (model, dimensions), entries) \<Rightarrow>
       let replacement = \<lparr>xs_model_id = model, xs_dimensions = dimensions, xs_entries = entries\<rparr> in
       seqE (index_save env ACTIVE_NAME d replacement)
       (seqE (modifies (\<lambda>d. d(CHECKPOINT_NAME := None))) (ret (manifest_of replacement))))"

definition index_rebuild ::
    "index_env \<Rightarrow> (nat \<Rightarrow> embedder) \<Rightarrow> (nat \<Rightarrow> draw) \<Rightarrow> index_document list \<Rightarrow> int \<Rightarrow> (directory, index_manifest) comp" where
  "index_rebuild env provide draws ds batch_size =
    seqE (lift (validate_documents ds))
    (seqE (require (0 < batch_size) (ValueError ''batch_size must be positive''))
    (bindE (index_load env CHECKPOINT_NAME) (\<lambda>checkpoint.
     case (case checkpoint of Some c \<Rightarrow> if matches_prefix c ds then Some c else None | None \<Rightarrow> None) of
       None \<Rightarrow> (let bs = batches (nat batch_size) ds in
         bindE (rebuild_batches env provide draws 0 bs None []) (finish_rebuild env (draws (length bs))))
     | Some c \<Rightarrow> (let bs = batches (nat batch_size) (drop (length (xs_entries c)) ds) in
         bindE (rebuild_batches env provide draws 0 bs (Some (xs_model_id c, xs_dimensions c)) (xs_entries c))
           (finish_rebuild env (draws (length bs)))))))"

end
