(* ===== verification/Activity_Clusters.thy ===== *)
theory Activity_Clusters
  imports Semantic_Index Adaptive_Capture
begin

text \<open>
  Activity clustering: the features of a record (\<^verbatim>\<open>src/local_recall/activity/features.py\<close>) and the segmentation
  of records into activities (\<^verbatim>\<open>src/local_recall/activity/clustering.py\<close>). Seconds, scores and vectors are
  rationals, the square root and UTF-8 are parameters, and so is the embedding provider.
\<close>

section \<open>Features\<close>

record activity_features =
  af_record_id :: record_uuid
  af_captured_at :: datetime
  af_policy_revision :: string
  af_application :: "string option"
  af_workspace :: "string option"
  af_hash :: "int option"
  af_vector :: "pyfloat list option"

definition MAX_CONTEXT_LENGTH :: nat where
  "MAX_CONTEXT_LENGTH = 4096"

definition MAX_POLICY_REVISION_LENGTH :: nat where
  "MAX_POLICY_REVISION_LENGTH = 256"

definition MAX_VECTOR_DIMENSIONS :: nat where
  "MAX_VECTOR_DIMENSIONS = 16384"

definition check_context :: "string \<Rightarrow> string option \<Rightarrow> exn + unit" where
  "check_context name value = (case value of None \<Rightarrow> Inr () | Some v \<Rightarrow>
     bindS (ensure (nonempty v) (ValueError (name @ '' must not be empty''))) (\<lambda>_.
     ensure (length v \<le> MAX_CONTEXT_LENGTH) (ValueError (name @ '' exceeds maximum length''))))"

definition check_vector :: "pyfloat list \<Rightarrow> exn + unit" where
  "check_vector v =
    bindS (ensure (v \<noteq> []) (ValueError ''semantic_vector must not be empty'')) (\<lambda>_.
    bindS (ensure (length v \<le> MAX_VECTOR_DIMENSIONS) (ValueError ''semantic_vector exceeds maximum dimensions'')) (\<lambda>_.
    ensure (list_all is_finite v) (ValueError ''semantic_vector values must be finite'')))"

definition mk_ActivityRecordFeatures :: "activity_features \<Rightarrow> exn + activity_features" where
  "mk_ActivityRecordFeatures f =
    bindS (ensure (is_aware (af_captured_at f)) (ValueError ''captured_at must be timezone-aware'')) (\<lambda>_.
    bindS (ensure (nonempty (af_policy_revision f)) (ValueError ''policy_revision must not be empty'')) (\<lambda>_.
    bindS (ensure (length (af_policy_revision f) \<le> MAX_POLICY_REVISION_LENGTH) (ValueError ''policy_revision exceeds maximum length'')) (\<lambda>_.
    bindS (check_context ''application'' (af_application f)) (\<lambda>_.
    bindS (check_context ''workspace'' (af_workspace f)) (\<lambda>_.
    bindS (ensure (opt_ok (\<lambda>h. 0 \<le> h \<and> h < 2 ^ HASH_BITS) (af_hash f)) (ValueError ''perceptual_hash must be an unsigned 64-bit integer'')) (\<lambda>_.
    bindS (case af_vector f of None \<Rightarrow> Inr () | Some v \<Rightarrow> check_vector v) (\<lambda>_.
    Inr f)))))))"

record embedding_provider =
  bp_capabilities :: "exn + provider_capabilities"
  bp_embed :: embedder

definition MAX_FEATURE_RECORDS :: nat where
  "MAX_FEATURE_RECORDS = 512"

definition MAX_SEMANTIC_INPUT_BYTES :: nat where
  "MAX_SEMANTIC_INPUT_BYTES = 16384"

definition require_embedding :: "provider_capabilities \<Rightarrow> exn + unit" where
  "require_embedding c =
    bindS (ensure (pc_location c = LOCAL) (ActivityFeatureFailure ''local embedding provider required'')) (\<lambda>_.
    bindS (ensure (pc_available c) (ActivityFeatureFailure ''local embedding provider unavailable'')) (\<lambda>_.
    bindS (ensure (EMBEDDING \<in> pc_capabilities c) (ActivityFeatureFailure ''embedding capability required'')) (\<lambda>_.
    ensure (accepts c REDACTED_CONTENT) (ActivityFeatureFailure ''embedding provider rejects redacted content''))))"

definition semantic_input :: "redacted_record \<Rightarrow> string option \<Rightarrow> string option \<Rightarrow> string option" where
  "semantic_input r application workspace =
    (let parts = filter (\<lambda>t. t \<noteq> []) (xf_ocr_text (xr_frame r)) @
       (case application of None \<Rightarrow> [] | Some a \<Rightarrow> [''application:'' @ a]) @
       (case workspace of None \<Rightarrow> [] | Some w \<Rightarrow> [''workspace:'' @ w]) in
     if parts = [] then None else Some (join_lines parts))"

record prepared =
  pp_application :: "string option"
  pp_workspace :: "string option"
  pp_hash :: int
  pp_input :: "string option"

definition frame_hash :: "redacted_frame \<Rightarrow> exn + int" where
  "frame_hash f =
    bindS (ensure (xf_format f = RGB8) (ActivityFeatureFailure ''activity fingerprint requires RGB8 redacted frame'')) (\<lambda>_.
    case perceptual_dhash_rgb8 (xf_pixels f) (xf_width f) (xf_height f) (Some (xf_stride f)) of
      Inl (ValueError _) \<Rightarrow> Inl (ActivityFeatureFailure ''invalid redacted frame for activity fingerprint'')
    | Inl e \<Rightarrow> Inl e
    | Inr h \<Rightarrow> Inr h)"

definition prepare_record :: "(string \<Rightarrow> byte list) \<Rightarrow> redacted_record \<Rightarrow> exn + prepared" where
  "prepare_record encode r =
    bindS (frame_hash (xr_frame r)) (\<lambda>h.
    let application = metadata_text (xf_metadata (xr_frame r)) ''application'';
        workspace = metadata_text (xf_metadata (xr_frame r)) ''workspace'';
        text_input = semantic_input r application workspace in
    bindS (ensure (opt_ok (\<lambda>t. length (encode t) \<le> MAX_SEMANTIC_INPUT_BYTES) text_input)
      (ActivityFeatureFailure ''activity semantic input exceeds per-record limit'')) (\<lambda>_.
    Inr \<lparr>pp_application = application, pp_workspace = workspace, pp_hash = h, pp_input = text_input\<rparr>))"

definition check_vectors :: "provider_capabilities \<Rightarrow> string list \<Rightarrow> embedding_response \<Rightarrow> exn + pyfloat list list" where
  "check_vectors c inputs r =
    bindS (ensure (er_provider_id r = pc_provider_id c) (ActivityFeatureFailure ''embedding provider identity mismatch'')) (\<lambda>_.
    bindS (ensure (length (er_vectors r) = length inputs) (ActivityFeatureFailure ''embedding response count mismatch'')) (\<lambda>_.
    bindS (ensure (list_all (list_all is_finite) (er_vectors r)) (ActivityFeatureFailure ''embedding response contains non-finite values'')) (\<lambda>_.
    Inr (er_vectors r))))"

definition embed_inputs :: "(string \<Rightarrow> byte list) \<Rightarrow> embedding_provider \<Rightarrow> provider_capabilities \<Rightarrow> string list \<Rightarrow> exn + pyfloat list list" where
  "embed_inputs encode p c inputs =
    (if inputs = [] then Inr []
     else
       bindS (ensure (int (sum_list (map (length \<circ> encode) inputs)) \<le> pc_max_input_bytes c)
         (ActivityFeatureFailure ''activity semantic batch exceeds provider input limit'')) (\<lambda>_.
       bindS (mk_EmbeddingRequest inputs REDACTED_CONTENT) (\<lambda>request.
       bindS (bp_embed p request) (check_vectors c inputs))))"

text \<open>The vectors by position: the records with an input take the vectors in order.\<close>

primrec assign_vectors :: "prepared list \<Rightarrow> pyfloat list list \<Rightarrow> pyfloat list option list" where
  "assign_vectors [] vs = []"
| "assign_vectors (p # ps) vs =
    (if pp_input p = None then None # assign_vectors ps vs
     else (case vs of [] \<Rightarrow> None # assign_vectors ps [] | v # vs' \<Rightarrow> Some v # assign_vectors ps vs'))"

definition features_of :: "redacted_record \<Rightarrow> prepared \<Rightarrow> pyfloat list option \<Rightarrow> exn + activity_features" where
  "features_of r p v = mk_ActivityRecordFeatures \<lparr>af_record_id = xr_record_id r, af_captured_at = xf_captured_at (xr_frame r),
     af_policy_revision = xf_policy_revision (xr_frame r), af_application = pp_application p, af_workspace = pp_workspace p,
     af_hash = Some (pp_hash p), af_vector = v\<rparr>"

definition inputs_of :: "prepared list \<Rightarrow> string list" where
  "inputs_of ps = List.map_filter pp_input ps"

definition extract_features :: "(string \<Rightarrow> byte list) \<Rightarrow> embedding_provider \<Rightarrow> redacted_record list \<Rightarrow> exn + activity_features list" where
  "extract_features encode p records =
    (if records = [] then Inr []
     else
       bindS (ensure (length records \<le> MAX_FEATURE_RECORDS) (ActivityFeatureFailure ''activity feature batch exceeds record limit'')) (\<lambda>_.
       bindS (bp_capabilities p) (\<lambda>c.
       bindS (require_embedding c) (\<lambda>_.
       bindS (mapS (prepare_record encode) records) (\<lambda>ps.
       bindS (embed_inputs encode p c (inputs_of ps)) (\<lambda>vs.
       mapS (\<lambda>(r, q, v). features_of r q v) (zip records (zip ps (assign_vectors ps vs)))))))))"

section \<open>Clusters\<close>

record clustering_policy =
  cp_max_gap :: rat
  cp_strong_gap :: rat
  cp_minimum_score :: rat
  cp_minimum_semantic :: rat

definition mk_ActivityClusteringPolicy :: "clustering_policy \<Rightarrow> exn + clustering_policy" where
  "mk_ActivityClusteringPolicy p =
    bindS (ensure (0 < cp_max_gap p \<and> cp_max_gap p \<le> 86400) (ValueError ''max_gap_seconds must be in (0, 86400]'')) (\<lambda>_.
    bindS (ensure (0 \<le> cp_strong_gap p \<and> cp_strong_gap p \<le> cp_max_gap p) (ValueError ''strong_gap_seconds must be in [0, max_gap_seconds]'')) (\<lambda>_.
    bindS (ensure (0 \<le> cp_minimum_score p \<and> cp_minimum_score p \<le> 1) (ValueError ''minimum_continuity_score must be in [0, 1]'')) (\<lambda>_.
    bindS (ensure (0 \<le> cp_minimum_semantic p \<and> cp_minimum_semantic p \<le> 1) (ValueError ''minimum_semantic_similarity must be in [0, 1]'')) (\<lambda>_.
    Inr p))))"

record activity_cluster =
  cu_record_ids :: "record_uuid list"
  cu_started_at :: datetime
  cu_ended_at :: datetime

definition mk_ActivityCluster :: "activity_cluster \<Rightarrow> exn + activity_cluster" where
  "mk_ActivityCluster c =
    bindS (ensure (cu_record_ids c \<noteq> []) (ValueError ''activity cluster requires source records'')) (\<lambda>_.
    bindS (ensure (distinct (cu_record_ids c)) (ValueError ''activity cluster source records must be unique'')) (\<lambda>_.
    bindS (ensure (is_aware (cu_started_at c)) (ValueError ''started_at must be timezone-aware'')) (\<lambda>_.
    bindS (ensure (is_aware (cu_ended_at c)) (ValueError ''ended_at must be timezone-aware'')) (\<lambda>_.
    bindS (ensure (instant (cu_started_at c) \<le> instant (cu_ended_at c)) (ValueError ''activity cluster end precedes start'')) (\<lambda>_.
    Inr c)))))"

definition perceptual_similarity :: "int option \<Rightarrow> int option \<Rightarrow> rat option" where
  "perceptual_similarity x y = (case (x, y) of (Some a, Some b) \<Rightarrow> Some (1 - of_nat (changed_bits a b) / of_nat HASH_BITS) | _ \<Rightarrow> None)"

definition semantic_similarity :: "(rat \<Rightarrow> rat) \<Rightarrow> pyfloat list option \<Rightarrow> pyfloat list option \<Rightarrow> exn + rat option" where
  "semantic_similarity sqroot x y = (case (x, y) of
     (Some a, Some b) \<Rightarrow>
       bindS (ensure (length a = length b) (ValueError ''semantic vectors must have equal dimensions'')) (\<lambda>_.
       Inr (Some (cosine sqroot (map finite_value a) (map finite_value b))))
   | _ \<Rightarrow> Inr None)"

definition gap_seconds :: "activity_features \<Rightarrow> activity_features \<Rightarrow> rat" where
  "gap_seconds x y = of_int (instant (af_captured_at y) - instant (af_captured_at x)) / 1000000"

definition continuity_score :: "clustering_policy \<Rightarrow> rat \<Rightarrow> rat \<Rightarrow> rat \<Rightarrow> bool \<Rightarrow> rat" where
  "continuity_score p gap semantic perceptual same_application =
    4 / 10 * semantic + 2 / 10 * perceptual +
    (if gap \<le> cp_strong_gap p then 2 / 10
     else if cp_strong_gap p < cp_max_gap p then 2 / 10 * max 0 ((cp_max_gap p - gap) / (cp_max_gap p - cp_strong_gap p))
     else 0) +
    (if same_application then 2 / 10 else 0)"

definition differ :: "string option \<Rightarrow> string option \<Rightarrow> bool" where
  "differ x y \<longleftrightarrow> x \<noteq> None \<and> y \<noteq> None \<and> x \<noteq> y"

definition continues :: "clustering_policy \<Rightarrow> (rat \<Rightarrow> rat) \<Rightarrow> activity_features \<Rightarrow> activity_features \<Rightarrow> exn + bool" where
  "continues p sqroot x y =
    (if af_policy_revision x \<noteq> af_policy_revision y then Inr False
     else
       let gap = gap_seconds x y in
       bindS (ensure (0 \<le> gap) (ValueError ''activity records are not time ordered'')) (\<lambda>_.
       if cp_max_gap p < gap then Inr False
       else if differ (af_workspace x) (af_workspace y) then Inr False
       else
         bindS (semantic_similarity sqroot (af_vector x) (af_vector y)) (\<lambda>semantic.
         case semantic of
           None \<Rightarrow> Inr False
         | Some s \<Rightarrow>
             if s < cp_minimum_semantic p then Inr False
             else (case perceptual_similarity (af_hash x) (af_hash y) of
               None \<Rightarrow> Inr False
             | Some h \<Rightarrow> Inr (cp_minimum_score p \<le>
                 continuity_score p gap s h (af_application x \<noteq> None \<and> af_application x = af_application y))))))"

primrec grow_groups ::
    "clustering_policy \<Rightarrow> (rat \<Rightarrow> rat) \<Rightarrow> activity_features list list \<Rightarrow> activity_features list \<Rightarrow> activity_features list \<Rightarrow>
     exn + activity_features list list" where
  "grow_groups p sqroot finished members [] = Inr (finished @ [members])"
| "grow_groups p sqroot finished members (x # xs) =
    bindS (continues p sqroot (List.last members) x) (\<lambda>same.
    if same then grow_groups p sqroot finished (members @ [x]) xs else grow_groups p sqroot (finished @ [members]) [x] xs)"

definition cluster_of :: "activity_features list \<Rightarrow> exn + activity_cluster" where
  "cluster_of members = mk_ActivityCluster \<lparr>cu_record_ids = map af_record_id members,
     cu_started_at = af_captured_at (hd members), cu_ended_at = af_captured_at (List.last members)\<rparr>"

definition feature_key :: "blob_lib \<Rightarrow> activity_features \<Rightarrow> int \<times> string" where
  "feature_key lib f = (instant (af_captured_at f), bl_uuid_str lib (af_record_id f))"

definition segment :: "blob_lib \<Rightarrow> (rat \<Rightarrow> rat) \<Rightarrow> clustering_policy \<Rightarrow> activity_features list \<Rightarrow> exn + activity_cluster list" where
  "segment lib sqroot p fs = (case sort_key (feature_key lib) fs of
     [] \<Rightarrow> Inr []
   | x # xs \<Rightarrow> bindS (grow_groups p sqroot [] [x] xs) (mapS cluster_of))"

end
