(* ===== verification/Activity_Store.thy ===== *)
theory Activity_Store
  imports Activity_Clusters
begin

text \<open>
  Activity summaries (\<^verbatim>\<open>src/local_recall/activity/summaries.py\<close>), the encrypted snapshot of the activities
  (\<^verbatim>\<open>src/local_recall/activity/store.py\<close>) and its reconciliation with a set of records
  (\<^verbatim>\<open>src/local_recall/activity/reconcile.py\<close>). The generation provider, the JSON parser, UTF-8 and the digest
  are parameters.
\<close>

section \<open>Summaries\<close>

record activity_summary =
  su_text :: string
  su_record_ids :: "record_uuid list"
  su_provider_id :: string
  su_model_id :: string

definition mk_ActivitySummary :: "activity_summary \<Rightarrow> exn + activity_summary" where
  "mk_ActivitySummary s =
    bindS (ensure (nonempty (su_text s)) (ValueError ''text must not be empty'')) (\<lambda>_.
    bindS (ensure (nonempty (su_provider_id s)) (ValueError ''provider_id must not be empty'')) (\<lambda>_.
    bindS (ensure (nonempty (su_model_id s)) (ValueError ''model_id must not be empty'')) (\<lambda>_.
    bindS (ensure (su_record_ids s \<noteq> []) (ValueError ''activity summary requires source records'')) (\<lambda>_.
    bindS (ensure (distinct (su_record_ids s)) (ValueError ''activity summary source records must be unique'')) (\<lambda>_.
    Inr s)))))"

record summary_provider =
  gp_capabilities :: "exn + provider_capabilities"
  gp_generate :: "generation_request \<Rightarrow> exn + generation_response"

record activity_env =
  ae_lib :: blob_lib
  ae_seal :: seal_lib
  ae_sqrt :: "rat \<Rightarrow> rat"
  ae_utf8 :: "string \<Rightarrow> byte list"
  ae_parse :: "string \<Rightarrow> json option"
  ae_dump_value :: "scalar \<Rightarrow> string"
  ae_hex :: "byte list \<Rightarrow> string"
  ae_pid :: string
  ae_policy :: clustering_policy
  ae_embedding :: embedding_provider
  ae_summaries :: summary_provider

definition MAX_SUMMARY_RECORDS :: nat where
  "MAX_SUMMARY_RECORDS = 128"

definition MAX_EXCERPTS :: nat where
  "MAX_EXCERPTS = 16"

definition MAX_EXCERPT_LENGTH :: nat where
  "MAX_EXCERPT_LENGTH = 1024"

definition MAX_SUMMARY_TOKENS :: int where
  "MAX_SUMMARY_TOKENS = 256"

definition record_with :: "redacted_record list \<Rightarrow> record_uuid \<Rightarrow> redacted_record option" where
  "record_with rs u = map_of (map (\<lambda>r. (xr_record_id r, r)) rs) u"

definition validate_membership :: "activity_cluster \<Rightarrow> redacted_record list \<Rightarrow> exn + unit" where
  "validate_membership c rs =
    bindS (ensure (rs \<noteq> []) (ActivitySummaryFailure ''activity summary requires source records'')) (\<lambda>_.
    bindS (ensure (length rs \<le> MAX_SUMMARY_RECORDS) (ActivitySummaryFailure ''activity summary exceeds source record limit'')) (\<lambda>_.
    bindS (ensure (distinct (map xr_record_id rs)) (ActivitySummaryFailure ''duplicate source records'')) (\<lambda>_.
    ensure (set (map xr_record_id rs) = set (cu_record_ids c)) (ActivitySummaryFailure ''activity summary source membership mismatch''))))"

definition record_text :: "redacted_record \<Rightarrow> string" where
  "record_text r = join_lines (filter (\<lambda>t. t \<noteq> []) (xf_ocr_text (xr_frame r)))"

definition join_commas :: "string list \<Rightarrow> string" where
  "join_commas xs = (case xs of [] \<Rightarrow> [] | x # ys \<Rightarrow> x @ concat (map (\<lambda>y. '','' @ y) ys))"

definition summary_prompt :: "blob_lib \<Rightarrow> record_uuid list \<Rightarrow> string" where
  "summary_prompt lib ids =
    ''Use only evidence explicitly present in the corresponding redacted context. '' @
    ''Return JSON with exactly one top-level key named evidence. evidence must be a non-empty '' @
    ''array of objects with exactly source_id and excerpt. source_id must be one of these IDs '' @
    ''in the same order as the supplied context: '' @ join_commas (map (bl_uuid_str lib) ids) @
    ''. excerpt must be a non-empty exact '' @
    ''contiguous substring copied verbatim out of that source context. Do not infer, '' @
    ''paraphrase, combine, reconstruct, or invent actions.''"

definition require_generation :: "provider_capabilities \<Rightarrow> exn + unit" where
  "require_generation c =
    bindS (ensure (pc_location c = LOCAL) (ActivitySummaryFailure ''local generation provider required'')) (\<lambda>_.
    bindS (ensure (pc_available c) (ActivitySummaryUnavailable ''local generation provider unavailable'')) (\<lambda>_.
    bindS (ensure (GENERATION \<in> pc_capabilities c) (ActivitySummaryFailure ''generation capability required'')) (\<lambda>_.
    bindS (ensure (accepts c REDACTED_CONTENT) (ActivitySummaryFailure ''generation provider rejects redacted content'')) (\<lambda>_.
    ensure (pc_structured_output c) (ActivitySummaryFailure ''structured generation output required'')))))"

fun occurs_in :: "string \<Rightarrow> string \<Rightarrow> bool" where
  "occurs_in x [] = (x = [])"
| "occurs_in x (c # t) = (take (length x) (c # t) = x \<or> occurs_in x t)"

type_synonym evidence = "(record_uuid \<times> string) list"

abbreviation "output_failure \<equiv> ActivitySummaryFailure ''invalid activity summary output''"
abbreviation "evidence_failure \<equiv> ActivitySummaryFailure ''invalid activity summary evidence''"

definition check_excerpt :: "blob_lib \<Rightarrow> redacted_record list \<Rightarrow> json \<Rightarrow> evidence \<Rightarrow> exn + evidence" where
  "check_excerpt lib rs j seen = (case j of
     JObj item \<Rightarrow>
       bindS (ensure (set (map fst item) = {''source_id'', ''excerpt''}) output_failure) (\<lambda>_.
       case (map_of item ''source_id'', map_of item ''excerpt'') of
         (Some (JStr source), Some (JStr excerpt)) \<Rightarrow>
           (case bl_uuid lib source of
              None \<Rightarrow> Inl output_failure
            | Some u \<Rightarrow> (case record_with rs u of
                None \<Rightarrow> Inl evidence_failure
              | Some r \<Rightarrow>
                  bindS (ensure (u \<notin> set (map fst seen)) evidence_failure) (\<lambda>_.
                  bindS (ensure (excerpt \<noteq> [] \<and> length excerpt \<le> MAX_EXCERPT_LENGTH) evidence_failure) (\<lambda>_.
                  bindS (ensure (occurs_in excerpt (record_text r)) evidence_failure) (\<lambda>_.
                  Inr (seen @ [(u, excerpt)]))))))
       | _ \<Rightarrow> Inl output_failure)
   | _ \<Rightarrow> Inl output_failure)"

definition validate_evidence :: "activity_env \<Rightarrow> string \<Rightarrow> redacted_record list \<Rightarrow> exn + evidence" where
  "validate_evidence env payload rs = (case ae_parse env payload of
     Some (JObj raw) \<Rightarrow>
       bindS (ensure (set (map fst raw) = {''evidence''}) output_failure) (\<lambda>_.
       case map_of raw ''evidence'' of
         Some (JArr items) \<Rightarrow>
           bindS (ensure (1 \<le> length items \<and> length items \<le> MAX_EXCERPTS) output_failure) (\<lambda>_.
           foldS (check_excerpt (ae_lib env) rs) items [])
       | _ \<Rightarrow> Inl output_failure)
   | _ \<Rightarrow> Inl output_failure)"

definition summarize :: "activity_env \<Rightarrow> activity_cluster \<Rightarrow> redacted_record list \<Rightarrow> exn + activity_summary" where
  "summarize env c rs =
    bindS (validate_membership c rs) (\<lambda>_.
    bindS (gp_capabilities (ae_summaries env)) (\<lambda>caps.
    bindS (require_generation caps) (\<lambda>_.
    let context = map record_text (List.map_filter (record_with rs) (cu_record_ids c)) in
    bindS (ensure ([] \<notin> set context) (ActivitySummaryFailure ''activity summary requires redacted text evidence'')) (\<lambda>_.
    bindS (ensure (int (sum_list (map (length \<circ> ae_utf8 env) context)) \<le> pc_max_input_bytes caps)
      (ActivitySummaryFailure ''activity summary input exceeds provider limit'')) (\<lambda>_.
    bindS (mk_GenerationRequest \<lparr>gr_prompt = summary_prompt (ae_lib env) (cu_record_ids c), gr_context = context,
      gr_privacy_class = REDACTED_CONTENT, gr_max_output_tokens = MAX_SUMMARY_TOKENS, gr_role = SUMMARIZATION_ROLE\<rparr>) (\<lambda>request.
    bindS (gp_generate (ae_summaries env) request) (\<lambda>response.
    bindS (ensure (ge_provider_id response = pc_provider_id caps) (ActivitySummaryFailure ''generation provider identity mismatch'')) (\<lambda>_.
    bindS (validate_evidence env (ge_text response) rs) (\<lambda>evidence.
    mk_ActivitySummary \<lparr>su_text = join_lines (map snd evidence), su_record_ids = map fst evidence,
      su_provider_id = ge_provider_id response, su_model_id = ge_model_id response\<rparr>)))))))))"

section \<open>Entries and snapshots\<close>

record activity_entry =
  ay_cluster :: activity_cluster
  ay_summary :: "activity_summary option"
  ay_policy_revisions :: "string list"
  ay_fingerprint :: string

definition MAX_POLICY_REVISIONS :: nat where
  "MAX_POLICY_REVISIONS = 64"

definition MAX_ACTIVITY_ENTRIES :: nat where
  "MAX_ACTIVITY_ENTRIES = 100000"

definition MAX_ACTIVITY_BYTES :: nat where
  "MAX_ACTIVITY_BYTES = 256 * 1024 * 1024"

definition lower_hex :: "char \<Rightarrow> bool" where
  "lower_hex c \<longleftrightarrow> c \<in> set ''0123456789abcdef''"

definition fingerprint_ok :: "string \<Rightarrow> bool" where
  "fingerprint_ok t \<longleftrightarrow> length t = 64 \<and> list_all lower_hex t"

definition check_revision :: "string \<Rightarrow> exn + string" where
  "check_revision r =
    bindS (ensure (nonempty r) (ValueError ''policy_revision must not be empty'')) (\<lambda>_.
    bindS (ensure (length r \<le> MAX_POLICY_REVISION_LENGTH) (ValueError ''policy_revision exceeds maximum length'')) (\<lambda>_. Inr r))"

definition mk_ActivityEntry :: "activity_entry \<Rightarrow> exn + activity_entry" where
  "mk_ActivityEntry e =
    bindS (ensure (ay_policy_revisions e \<noteq> []) (ValueError ''activity entry requires policy revisions'')) (\<lambda>_.
    bindS (ensure (length (ay_policy_revisions e) \<le> MAX_POLICY_REVISIONS) (ValueError ''activity entry exceeds policy revision limit'')) (\<lambda>_.
    bindS (ensure (distinct (ay_policy_revisions e)) (ValueError ''activity entry policy revisions must be unique'')) (\<lambda>_.
    bindS (mapS check_revision (ay_policy_revisions e)) (\<lambda>_.
    bindS (ensure (fingerprint_ok (ay_fingerprint e)) (ValueError ''source_fingerprint must be a SHA-256 hex digest'')) (\<lambda>_.
    bindS (ensure (opt_ok (\<lambda>s. set (su_record_ids s) \<subseteq> set (cu_record_ids (ay_cluster e))) (ay_summary e))
      (ValueError ''activity summary membership must be inside the cluster'')) (\<lambda>_.
    Inr e))))))"

type_synonym activity_snapshot = "activity_entry list"

definition snapshot_members :: "activity_snapshot \<Rightarrow> record_uuid list" where
  "snapshot_members s = concat (map (\<lambda>e. cu_record_ids (ay_cluster e)) s)"

definition mk_ActivitySnapshot :: "activity_entry list \<Rightarrow> exn + activity_snapshot" where
  "mk_ActivitySnapshot es =
    bindS (ensure (length es \<le> MAX_ACTIVITY_ENTRIES) (ValueError ''activity snapshot exceeds entry limit'')) (\<lambda>_.
    bindS (ensure (distinct (snapshot_members es)) (ValueError ''activity snapshot source membership must be unique'')) (\<lambda>_.
    Inr es))"

section \<open>The snapshot file\<close>

definition ACTIVITY_NAME :: string where
  "ACTIVITY_NAME = ''activity-state.lra''"

definition ACTIVITY_AAD :: "byte list" where
  "ACTIVITY_AAD = map (\<lambda>c. of_nat (char_code c)) ''local-recall-activity-state-v1''"

definition encode_ids :: "blob_lib \<Rightarrow> record_uuid list \<Rightarrow> json" where
  "encode_ids lib ids = JArr (map (\<lambda>u. JStr (bl_uuid_str lib u)) ids)"

definition encode_summary :: "blob_lib \<Rightarrow> activity_summary option \<Rightarrow> json" where
  "encode_summary lib s = (case s of None \<Rightarrow> JNull | Some s \<Rightarrow>
     JObj [(''model_id'', JStr (su_model_id s)), (''provider_id'', JStr (su_provider_id s)),
       (''source_record_ids'', encode_ids lib (su_record_ids s)), (''text'', JStr (su_text s))])"

definition encode_cluster :: "blob_lib \<Rightarrow> activity_cluster \<Rightarrow> json" where
  "encode_cluster lib c = JObj [(''ended_at'', JStr (bl_iso lib (cu_ended_at c))),
     (''source_record_ids'', encode_ids lib (cu_record_ids c)), (''started_at'', JStr (bl_iso lib (cu_started_at c)))]"

definition encode_activity_entry :: "blob_lib \<Rightarrow> activity_entry \<Rightarrow> json" where
  "encode_activity_entry lib e = JObj [(''cluster'', encode_cluster lib (ay_cluster e)),
     (''policy_revisions'', JArr (map JStr (ay_policy_revisions e))), (''source_fingerprint'', JStr (ay_fingerprint e)),
     (''summary'', encode_summary lib (ay_summary e))]"

definition encode_activity :: "blob_lib \<Rightarrow> activity_snapshot \<Rightarrow> json" where
  "encode_activity lib s = JObj [(''entries'', JArr (map (encode_activity_entry lib) s))]"

text \<open>Decoding authenticated text; \<open>None\<close> stands for every error that becomes an activity-store failure.\<close>

fun json_str :: "json \<Rightarrow> string option" where
  "json_str (JStr s) = Some s"
| "json_str _ = None"

fun built :: "exn + 'a \<Rightarrow> 'a option" where
  "built (Inr x) = Some x"
| "built (Inl _) = None"

definition decode_ids :: "blob_lib \<Rightarrow> json list \<Rightarrow> record_uuid list option" where
  "decode_ids lib js = all_some (\<lambda>j. Option.bind (json_str j) (bl_uuid lib)) js"

definition decode_cluster :: "blob_lib \<Rightarrow> (string \<times> json) list \<Rightarrow> activity_cluster option" where
  "decode_cluster lib raw =
    (if set (map fst raw) \<noteq> {''ended_at'', ''source_record_ids'', ''started_at''} then None
     else
       Option.bind (Option.bind (arr_at raw ''source_record_ids'') (decode_ids lib)) (\<lambda>ids.
       Option.bind (Option.bind (str_at raw ''started_at'') (bl_from_iso lib)) (\<lambda>started.
       Option.bind (Option.bind (str_at raw ''ended_at'') (bl_from_iso lib)) (\<lambda>ended.
       built (mk_ActivityCluster \<lparr>cu_record_ids = ids, cu_started_at = started, cu_ended_at = ended\<rparr>)))))"

definition decode_summary :: "blob_lib \<Rightarrow> (string \<times> json) list \<Rightarrow> activity_summary option" where
  "decode_summary lib raw =
    (if set (map fst raw) \<noteq> {''model_id'', ''provider_id'', ''source_record_ids'', ''text''} then None
     else
       Option.bind (str_at raw ''text'') (\<lambda>t.
       Option.bind (Option.bind (arr_at raw ''source_record_ids'') (decode_ids lib)) (\<lambda>ids.
       Option.bind (str_at raw ''provider_id'') (\<lambda>provider.
       Option.bind (str_at raw ''model_id'') (\<lambda>model.
       built (mk_ActivitySummary \<lparr>su_text = t, su_record_ids = ids, su_provider_id = provider, su_model_id = model\<rparr>))))))"

definition decode_optional_summary :: "blob_lib \<Rightarrow> json \<Rightarrow> activity_summary option option" where
  "decode_optional_summary lib j = (case j of
     JNull \<Rightarrow> Some None | JObj raw \<Rightarrow> map_option Some (decode_summary lib raw) | _ \<Rightarrow> None)"

definition decode_activity_entry :: "blob_lib \<Rightarrow> json \<Rightarrow> activity_entry option" where
  "decode_activity_entry lib j = (case j of
     JObj raw \<Rightarrow>
       if set (map fst raw) \<noteq> {''cluster'', ''policy_revisions'', ''source_fingerprint'', ''summary''} then None
       else
         Option.bind (Option.bind (obj_at raw ''cluster'') (decode_cluster lib)) (\<lambda>cluster.
         Option.bind (Option.bind (map_of raw ''summary'') (decode_optional_summary lib)) (\<lambda>summary.
         Option.bind (Option.bind (arr_at raw ''policy_revisions'') (all_some json_str)) (\<lambda>revisions.
         Option.bind (str_at raw ''source_fingerprint'') (\<lambda>fingerprint.
         built (mk_ActivityEntry \<lparr>ay_cluster = cluster, ay_summary = summary, ay_policy_revisions = revisions,
           ay_fingerprint = fingerprint\<rparr>)))))
   | _ \<Rightarrow> None)"

definition decode_activity :: "blob_lib \<Rightarrow> byte list \<Rightarrow> activity_snapshot option" where
  "decode_activity lib payload = (case bl_loads lib payload of
     Some (JObj raw) \<Rightarrow>
       if set (map fst raw) \<noteq> {''entries''} then None
       else Option.bind (Option.bind (arr_at raw ''entries'') (all_some (decode_activity_entry lib))) (\<lambda>es. built (mk_ActivitySnapshot es))
   | _ \<Rightarrow> None)"

definition activity_decrypt :: "activity_env \<Rightarrow> byte list \<Rightarrow> exn + byte list" where
  "activity_decrypt env payload = (case parse_sealed (ae_lib env) (ae_seal env) payload of
     None \<Rightarrow> Inl (ActivityStoreFailure ''activity snapshot authentication failed'')
   | Some x \<Rightarrow>
       bindS (ensure (length (sd_nonce x) = NONCE_BYTES) (ActivityStoreFailure ''activity snapshot authentication failed'')) (\<lambda>_.
       open_sealed (ae_seal env) ACTIVITY_AAD (ActivityStoreFailure ''activity snapshot authentication failed'') x))"

definition read_activity_file :: "byte list \<Rightarrow> exn + byte list" where
  "read_activity_file payload = bindS (ensure (length payload \<le> MAX_ACTIVITY_BYTES)
     (ActivityStoreFailure ''activity snapshot exceeds size limit'')) (\<lambda>_. Inr payload)"

definition activity_load :: "activity_env \<Rightarrow> (directory, activity_snapshot option) comp" where
  "activity_load env = bindE (reads (\<lambda>d. d ACTIVITY_NAME)) (\<lambda>file. case file of
     None \<Rightarrow> ret None
   | Some content \<Rightarrow>
       bindE (lift (bindS (read_activity_file content) (activity_decrypt env))) (\<lambda>plaintext.
       case decode_activity (ae_lib env) plaintext of
         None \<Rightarrow> raise (ActivityStoreFailure ''activity snapshot payload is invalid'')
       | Some s \<Rightarrow> ret (Some s)))"

definition activity_temporary :: "activity_env \<Rightarrow> string" where
  "activity_temporary env = ''.'' @ ACTIVITY_NAME @ ''.'' @ ae_pid env @ ''.tmp''"

definition activity_replace :: "activity_env \<Rightarrow> draw \<Rightarrow> activity_snapshot \<Rightarrow> (directory, unit) comp" where
  "activity_replace env d s =
    bindE (lift (encrypt_snapshot (ae_lib env) (ae_seal env) KEY_SUMMARY ACTIVITY_AAD d
      (bl_dumps (ae_lib env) (encode_activity (ae_lib env) s)))) (\<lambda>payload.
    seqE (require (length payload \<le> MAX_ACTIVITY_BYTES) (ActivityStoreFailure ''activity snapshot exceeds size limit''))
    (atomic_write (activity_temporary env) ACTIVITY_NAME (dw_fault d) payload))"

section \<open>Reconciliation\<close>

definition hash_bytes :: "byte list \<Rightarrow> byte list" where
  "hash_bytes bs = be_bytes 8 (length bs) @ bs"

fun pixel_format_value :: "pixel_format \<Rightarrow> string" where
  "pixel_format_value RGBA8 = ''rgba8''"
| "pixel_format_value RGB8 = ''rgb8''"
| "pixel_format_value GRAY8 = ''gray8''"

definition fingerprint_parts :: "activity_env \<Rightarrow> redacted_record \<Rightarrow> byte list list" where
  "fingerprint_parts env r = (let f = xr_frame r; t = ae_utf8 env in
     [t (bl_uuid_str (ae_lib env) (xr_record_id r)), t (bl_iso (ae_lib env) (xf_captured_at f)), t (xf_policy_revision f),
      t (int_string (xf_width f)), t (int_string (xf_height f)), t (int_string (xf_stride f)), t (pixel_format_value (xf_format f)),
      xf_pixels f] @ map t (xf_ocr_text f) @
     concat (map (\<lambda>fd. [t (fd_name fd), t (ae_dump_value env (fd_value fd))]) (sort_key fd_name (md_fields (xf_metadata f)))))"

definition source_fingerprint :: "activity_env \<Rightarrow> redacted_record list \<Rightarrow> string" where
  "source_fingerprint env rs = ae_hex env (bl_sha256 (ae_lib env)
     (concat (map (\<lambda>r. concat (map hash_bytes (fingerprint_parts env r))) rs)))"

text \<open>\<open>dict.fromkeys\<close>: the first occurrences, in order.\<close>

definition policy_revisions :: "redacted_record list \<Rightarrow> string list" where
  "policy_revisions rs = rev (remdups (rev (map (\<lambda>r. xf_policy_revision (xr_frame r)) rs)))"

definition prior_entry :: "activity_snapshot option \<Rightarrow> record_uuid list \<Rightarrow> string \<Rightarrow> activity_entry option" where
  "prior_entry previous ids fingerprint = (case previous of None \<Rightarrow> None
     | Some s \<Rightarrow> map_of (rev (map (\<lambda>e. ((cu_record_ids (ay_cluster e), ay_fingerprint e), e)) s)) (ids, fingerprint))"

definition optional_summary :: "exn + activity_summary \<Rightarrow> exn + activity_summary option" where
  "optional_summary r = (case r of
     Inr s \<Rightarrow> Inr (Some s) | Inl (ActivitySummaryUnavailable _) \<Rightarrow> Inr None | Inl e \<Rightarrow> Inl e)"

definition reconcile_cluster :: "activity_env \<Rightarrow> activity_snapshot option \<Rightarrow> redacted_record list \<Rightarrow> activity_cluster \<Rightarrow> exn + activity_entry" where
  "reconcile_cluster env previous records c =
    (let cluster_records = List.map_filter (record_with records) (cu_record_ids c);
         fingerprint = source_fingerprint env cluster_records;
         prior = prior_entry previous (cu_record_ids c) fingerprint in
     bindS (case Option.bind prior ay_summary of Some s \<Rightarrow> Inr (Some s) | None \<Rightarrow> optional_summary (summarize env c cluster_records)) (\<lambda>summary.
     mk_ActivityEntry \<lparr>ay_cluster = c, ay_summary = summary, ay_policy_revisions = policy_revisions cluster_records,
       ay_fingerprint = fingerprint\<rparr>))"

definition activity_reconcile :: "activity_env \<Rightarrow> draw \<Rightarrow> redacted_record list \<Rightarrow> (directory, activity_snapshot) comp" where
  "activity_reconcile env d records =
    bindE (activity_load env) (\<lambda>previous.
    if records = [] then
      bindE (lift (mk_ActivitySnapshot [])) (\<lambda>replacement. seqE (activity_replace env d replacement) (ret replacement))
    else
      seqE (require (distinct (map xr_record_id records)) (ValueError ''activity reconciliation requires unique record IDs''))
      (bindE (lift (extract_features (ae_utf8 env) (ae_embedding env) records)) (\<lambda>features.
       bindE (lift (segment (ae_lib env) (ae_sqrt env) (ae_policy env) features)) (\<lambda>clusters.
       bindE (lift (mapS (reconcile_cluster env previous records) clusters)) (\<lambda>entries.
       bindE (lift (mk_ActivitySnapshot entries)) (\<lambda>replacement.
       seqE (activity_replace env d replacement) (ret replacement)))))))"

end
