(* ===== verification/Selective_Deletion.thy ===== *)
theory Selective_Deletion
  imports Activity_Store Retention_Planner
begin

text \<open>
  Deletion across the components: the journal and the coordinator of selective deletion
  (\<^verbatim>\<open>src/local_recall/timeline/deletion.py\<close>), the rebuild of the activities from the surviving records
  (\<^verbatim>\<open>src/local_recall/timeline/activity_rebuild.py\<close>), garbage collection and purge
  (\<^verbatim>\<open>src/local_recall/retention\<close>). The state joins the record store and the directories of the semantic
  index, the activity snapshot and the journal; decryption and key destruction are parameters, and each
  call carries the faults that befall its writes.
\<close>

section \<open>The joint state\<close>

record recall =
  rc_store :: store
  rc_index :: directory
  rc_activity :: directory
  rc_journal :: directory

abbreviation "on_store \<equiv> on_field rc_store (\<lambda>x s. s\<lparr>rc_store := x\<rparr>)"
abbreviation "on_index \<equiv> on_field rc_index (\<lambda>x s. s\<lparr>rc_index := x\<rparr>)"
abbreviation "on_activity \<equiv> on_field rc_activity (\<lambda>x s. s\<lparr>rc_activity := x\<rparr>)"
abbreviation "on_journal \<equiv> on_field rc_journal (\<lambda>x s. s\<lparr>rc_journal := x\<rparr>)"

record recall_env =
  rn_cfg :: storage_config
  rn_index :: index_env
  rn_activity :: activity_env
  rn_decrypt :: "envelope \<Rightarrow> key_handle \<Rightarrow> exn + redacted_record"
  rn_candidate_limit :: int

abbreviation rn_lib :: "recall_env \<Rightarrow> blob_lib" where
  "rn_lib env \<equiv> ae_lib (rn_activity env)"

section \<open>The journal\<close>

datatype deletion_phase = PHASE_PLANNED | RECORDS_DELETED | DERIVED_RECONCILED

fun phase_value :: "deletion_phase \<Rightarrow> string" where
  "phase_value PHASE_PLANNED = ''planned''"
| "phase_value RECORDS_DELETED = ''records-deleted''"
| "phase_value DERIVED_RECONCILED = ''derived-reconciled''"

definition phase_of :: "string \<Rightarrow> deletion_phase option" where
  "phase_of t = map_of (map (\<lambda>p. (phase_value p, p)) [PHASE_PLANNED, RECORDS_DELETED, DERIVED_RECONCILED]) t"

fun phase_rank :: "deletion_phase \<Rightarrow> nat" where
  "phase_rank PHASE_PLANNED = 0"
| "phase_rank RECORDS_DELETED = 1"
| "phase_rank DERIVED_RECONCILED = 2"

record deletion_state =
  dn_request_id :: string
  dn_record_ids :: "record_uuid list"
  dn_phase :: deletion_phase

definition request_char :: "char \<Rightarrow> bool" where
  "request_char c \<longleftrightarrow> char_code c < 128 \<and> (is_alnum c \<or> c \<in> set ''-_'')"

definition validate_request_id :: "string \<Rightarrow> exn + unit" where
  "validate_request_id r =
    bindS (ensure (1 \<le> length r \<and> length r \<le> 128) (ValueError ''request_id must be between 1 and 128 characters'')) (\<lambda>_.
    ensure (list_all request_char r) (ValueError ''request_id must be an opaque ASCII identifier''))"

definition validate_record_ids :: "record_uuid list \<Rightarrow> exn + unit" where
  "validate_record_ids ids =
    bindS (ensure (ids \<noteq> []) (ValueError ''deletion requires at least one record ID'')) (\<lambda>_.
    bindS (ensure (length ids \<le> 10000) (ValueError ''deletion scope exceeds the record limit'')) (\<lambda>_.
    ensure (distinct ids) (ValueError ''duplicate record IDs are not allowed'')))"

definition mk_DeletionState :: "string \<Rightarrow> record_uuid list \<Rightarrow> deletion_phase \<Rightarrow> exn + deletion_state" where
  "mk_DeletionState r ids p =
    bindS (validate_request_id r) (\<lambda>_.
    bindS (validate_record_ids ids) (\<lambda>_.
    Inr \<lparr>dn_request_id = r, dn_record_ids = ids, dn_phase = p\<rparr>))"

definition JOURNAL_NAME :: string where
  "JOURNAL_NAME = ''deletion-intent.json''"

definition JOURNAL_TEMPORARY :: string where
  "JOURNAL_TEMPORARY = ''.deletion-intent.json.tmp''"

definition JOURNAL_VERSION :: int where
  "JOURNAL_VERSION = 1"

definition MAX_JOURNAL_BYTES :: nat where
  "MAX_JOURNAL_BYTES = 64 * 1024"

definition journal_json :: "blob_lib \<Rightarrow> deletion_state \<Rightarrow> json" where
  "journal_json lib st = JObj [(''phase'', JStr (phase_value (dn_phase st))),
     (''record_ids'', JArr (map (\<lambda>u. JStr (bl_uuid_str lib u)) (dn_record_ids st))),
     (''request_id'', JStr (dn_request_id st)), (''version'', JInt JOURNAL_VERSION)]"

definition parse_journal :: "blob_lib \<Rightarrow> byte list \<Rightarrow> deletion_state option" where
  "parse_journal lib content = (case bl_loads lib content of
     Some (JObj raw) \<Rightarrow>
       if set (map fst raw) \<noteq> {''phase'', ''record_ids'', ''request_id'', ''version''} then None
       else if \<not> json_is (map_of raw ''version'') JOURNAL_VERSION then None
       else
         Option.bind (Option.bind (arr_at raw ''record_ids'') (all_some json_str)) (\<lambda>texts.
         Option.bind (str_at raw ''request_id'') (\<lambda>request.
         Option.bind (str_at raw ''phase'') (\<lambda>phase.
         Option.bind (all_some (bl_uuid lib) texts) (\<lambda>ids.
         Option.bind (phase_of phase) (\<lambda>p.
         built (mk_DeletionState request ids p))))))
   | _ \<Rightarrow> None)"

definition journal_load :: "blob_lib \<Rightarrow> (directory, deletion_state option) comp" where
  "journal_load lib = bindE (reads (\<lambda>d. d JOURNAL_NAME)) (\<lambda>file. case file of
     None \<Rightarrow> ret None
   | Some content \<Rightarrow>
       seqE (require (content \<noteq> [] \<and> length content \<le> MAX_JOURNAL_BYTES) (RuntimeError ''deletion journal file has an invalid size''))
       (case parse_journal lib content of
          None \<Rightarrow> raise (RuntimeError ''deletion journal is invalid'')
        | Some st \<Rightarrow> ret (Some st)))"

definition journal_write :: "blob_lib \<Rightarrow> write_fault \<Rightarrow> deletion_state \<Rightarrow> (directory, unit) comp" where
  "journal_write lib fault st =
    (let payload = bl_dumps lib (journal_json lib st) in
     seqE (require (length payload \<le> MAX_JOURNAL_BYTES) (ValueError ''deletion journal exceeds the size limit''))
     (seqE (modifies (\<lambda>d. d(JOURNAL_TEMPORARY := None)))
     (atomic_write JOURNAL_TEMPORARY JOURNAL_NAME fault payload)))"

definition journal_begin :: "blob_lib \<Rightarrow> write_fault \<Rightarrow> string \<Rightarrow> record_uuid list \<Rightarrow> (directory, deletion_state) comp" where
  "journal_begin lib fault request ids =
    bindE (lift (mk_DeletionState request ids PHASE_PLANNED)) (\<lambda>st.
    bindE (journal_load lib) (\<lambda>current. case current of
      Some c \<Rightarrow>
        seqE (require (dn_request_id c = request \<and> dn_record_ids c = ids) (RuntimeError ''another deletion transaction is already in progress''))
        (ret c)
    | None \<Rightarrow> seqE (journal_write lib fault st) (ret st)))"

definition journal_advance :: "blob_lib \<Rightarrow> write_fault \<Rightarrow> deletion_phase \<Rightarrow> (directory, deletion_state) comp" where
  "journal_advance lib fault phase =
    bindE (journal_load lib) (\<lambda>current. case current of
      None \<Rightarrow> raise (RuntimeError ''deletion transaction is not active'')
    | Some c \<Rightarrow>
        seqE (require (phase_rank (dn_phase c) \<le> phase_rank phase) (RuntimeError ''deletion transaction cannot move backward''))
        (seqE (require (phase_rank phase \<le> phase_rank (dn_phase c) + 1) (RuntimeError ''deletion transaction phase transition is invalid''))
        (bindE (lift (mk_DeletionState (dn_request_id c) (dn_record_ids c) phase)) (\<lambda>st.
         seqE (journal_write lib fault st) (ret st)))))"

definition journal_clear :: "bool \<Rightarrow> (directory, unit) comp" where
  "journal_clear unlink_fails = bindE (reads (\<lambda>d. d JOURNAL_NAME)) (\<lambda>file.
     if file = None then ret ()
     else seqE (require (\<not> unlink_fails) (OSError ''unlink'')) (modifies (\<lambda>d. d(JOURNAL_NAME := None))))"

section \<open>Rebuilding the activities\<close>

definition DAY_QUERY_LIMIT :: nat where
  "DAY_QUERY_LIMIT = 10000"

definition validate_scope :: "record_uuid list \<Rightarrow> exn + unit" where
  "validate_scope ids =
    bindS (ensure (ids \<noteq> []) (ValueError ''activity rebuild requires at least one record ID'')) (\<lambda>_.
    bindS (ensure (length ids \<le> 10000) (ValueError ''activity rebuild scope exceeds the record limit'')) (\<lambda>_.
    ensure (distinct ids) (ValueError ''duplicate record IDs are not allowed'')))"

definition snapshot_window :: "activity_snapshot \<Rightarrow> exn + int \<times> int" where
  "snapshot_window s =
    (let first_day = day_of (Aware (Min (set (map (\<lambda>e. instant (cu_started_at (ay_cluster e))) s))));
         last_day = day_of (Aware (Max (set (map (\<lambda>e. instant (cu_ended_at (ay_cluster e))) s)))) in
     bindS (ensure (first_day \<le> last_day) (TimelineRebuildFailure ''activity snapshot window is invalid'')) (\<lambda>_.
     Inr (first_day, last_day)))"

definition load_survivor :: "recall_env \<Rightarrow> record_uuid \<Rightarrow> (store, redacted_record option) comp" where
  "load_survivor env u =
    bindE (get_sync (rn_lib env) (rn_cfg env) u) (\<lambda>found. case found of
      None \<Rightarrow> ret None
    | Some e \<Rightarrow>
        bindE (lift (rn_decrypt env e (ev_key e))) (\<lambda>r.
        seqE (require (xr_record_id r = u) (TimelineRebuildFailure ''decrypted record identity mismatch''))
        (ret (Some r))))"

primrec day_survivors ::
    "recall_env \<Rightarrow> record_uuid set \<Rightarrow> catalog_record list \<Rightarrow> redacted_record list \<Rightarrow> (store, redacted_record list) comp" where
  "day_survivors env deleted [] survivors = ret survivors"
| "day_survivors env deleted (c # cs) survivors =
    seqE (require (int (length survivors) < rn_candidate_limit env) (TimelineRebuildFailure ''activity rebuild candidate limit exceeded''))
    (if sr_record_id (cr_record c) \<in> deleted then day_survivors env deleted cs survivors
     else
       bindE (load_survivor env (sr_record_id (cr_record c))) (\<lambda>r. case r of
         None \<Rightarrow> day_survivors env deleted cs survivors
       | Some r \<Rightarrow> day_survivors env deleted cs (survivors @ [r])))"

primrec survivors_of ::
    "recall_env \<Rightarrow> record_uuid set \<Rightarrow> int list \<Rightarrow> redacted_record list \<Rightarrow> (store, redacted_record list) comp" where
  "survivors_of env deleted [] survivors = ret survivors"
| "survivors_of env deleted (day # days) survivors =
    bindE (lift (mk_day_range_query day day DAY_QUERY_LIMIT)) (\<lambda>q.
    bindE (list_candidates_sync q) (\<lambda>candidates.
    seqE (require (length candidates < DAY_QUERY_LIMIT) (TimelineRebuildFailure ''activity rebuild candidate limit exceeded''))
    (bindE (day_survivors env deleted candidates survivors) (survivors_of env deleted days))))"

definition reconcile_deleted :: "recall_env \<Rightarrow> draw \<Rightarrow> record_uuid list \<Rightarrow> (recall, unit) comp" where
  "reconcile_deleted env d ids =
    seqE (lift (validate_scope ids))
    (bindE (on_activity (activity_load (rn_activity env))) (\<lambda>snapshot. case snapshot of
       None \<Rightarrow> ret ()
     | Some s \<Rightarrow>
         if s = [] then ret ()
         else
           bindE (lift (snapshot_window s)) (\<lambda>(first_day, last_day).
           bindE (on_store (survivors_of env (set ids) [first_day..last_day] [])) (\<lambda>survivors.
           bindE (on_activity (activity_reconcile (rn_activity env) d survivors)) (\<lambda>_. ret ())))))"

section \<open>The coordinator\<close>

record deletion_io =
  di_begin :: write_fault
  di_delete :: "record_uuid \<Rightarrow> string list \<times> string list"
  di_deleted :: write_fault
  di_index :: draw
  di_activity :: draw
  di_reconciled :: write_fault
  di_clear :: bool

record deletion_result =
  dt_request_id :: string
  dt_deleted_count :: nat
  dt_recovered :: bool

primrec delete_records :: "deletion_io \<Rightarrow> record_uuid list \<Rightarrow> (store, unit) comp" where
  "delete_records io [] = ret ()"
| "delete_records io (u # us) = bindE (delete_sync (fst (di_delete io u)) (snd (di_delete io u)) u) (\<lambda>_. delete_records io us)"

definition resume_records :: "recall_env \<Rightarrow> deletion_io \<Rightarrow> deletion_state \<Rightarrow> (recall, deletion_state) comp" where
  "resume_records env io st =
    (if dn_phase st = PHASE_PLANNED then
       seqE (on_store (delete_records io (dn_record_ids st)))
       (on_journal (journal_advance (rn_lib env) (di_deleted io) RECORDS_DELETED))
     else ret st)"

definition resume_derived :: "recall_env \<Rightarrow> deletion_io \<Rightarrow> deletion_state \<Rightarrow> (recall, deletion_state) comp" where
  "resume_derived env io st =
    (if dn_phase st = RECORDS_DELETED then
       bindE (on_index (index_remove (rn_index env) (di_index io) (dn_record_ids st))) (\<lambda>_.
       seqE (reconcile_deleted env (di_activity io) (dn_record_ids st))
       (on_journal (journal_advance (rn_lib env) (di_reconciled io) DERIVED_RECONCILED)))
     else ret st)"

definition resume_deletion :: "recall_env \<Rightarrow> deletion_io \<Rightarrow> bool \<Rightarrow> deletion_state \<Rightarrow> (recall, deletion_result) comp" where
  "resume_deletion env io recovered st =
    bindE (resume_records env io st) (\<lambda>st.
    bindE (resume_derived env io st) (\<lambda>st.
    seqE (if dn_phase st = DERIVED_RECONCILED then on_journal (journal_clear (di_clear io)) else ret ())
    (ret \<lparr>dt_request_id = dn_request_id st, dt_deleted_count = length (dn_record_ids st), dt_recovered = recovered\<rparr>)))"

definition coordinator_delete :: "recall_env \<Rightarrow> deletion_io \<Rightarrow> string \<Rightarrow> record_uuid list \<Rightarrow> (recall, deletion_result) comp" where
  "coordinator_delete env io request ids =
    seqE (lift (validate_request_id request))
    (seqE (lift (validate_record_ids ids))
    (bindE (on_journal (journal_begin (rn_lib env) (di_begin io) request ids)) (resume_deletion env io False)))"

definition coordinator_recover :: "recall_env \<Rightarrow> deletion_io \<Rightarrow> (recall, deletion_result option) comp" where
  "coordinator_recover env io =
    bindE (on_journal (journal_load (rn_lib env))) (\<lambda>st. case st of
      None \<Rightarrow> ret None
    | Some st \<Rightarrow> bindE (resume_deletion env io True st) (\<lambda>r. ret (Some r)))"

section \<open>Garbage collection and purge\<close>

record gc_result =
  gr_pruned_index_entries :: nat
  gr_rebuilt_activity :: bool

definition prune_index :: "recall_env \<Rightarrow> draw \<Rightarrow> record_uuid set \<Rightarrow> (recall, nat) comp" where
  "prune_index env d canonical =
    bindE (on_index (index_record_ids (rn_index env))) (\<lambda>indexed.
    let stale = filter (\<lambda>u. u \<notin> canonical) indexed in
    if stale = [] then ret 0
    else bindE (on_index (index_remove (rn_index env) d stale)) (\<lambda>_. ret (length stale)))"

definition rebuild_activity :: "recall_env \<Rightarrow> draw \<Rightarrow> record_uuid set \<Rightarrow> (recall, bool) comp" where
  "rebuild_activity env d canonical =
    bindE (on_activity (activity_load (rn_activity env))) (\<lambda>snapshot. case snapshot of
      None \<Rightarrow> ret False
    | Some s \<Rightarrow>
        let stale = filter (\<lambda>u. u \<notin> canonical) (remdups (snapshot_members s)) in
        if stale = [] then ret False else seqE (reconcile_deleted env d stale) (ret True))"

text \<open>A paging loop in the middle of a computation: \<open>None\<close> would be a loop that does not end.\<close>

definition loop_then ::
    "(store \<Rightarrow> ((exn + 'a) \<times> store) option) \<Rightarrow> ('a \<Rightarrow> (recall, 'b) comp) \<Rightarrow> recall \<Rightarrow> ((exn + 'b) \<times> recall) option" where
  "loop_then loop f s = (case loop (rc_store s) of
     None \<Rightarrow> None
   | Some (Inl e, st) \<Rightarrow> Some (Inl e, s\<lparr>rc_store := st\<rparr>)
   | Some (Inr x, st) \<Rightarrow> Some (f x (s\<lparr>rc_store := st\<rparr>)))"

text \<open>The collector returns its result; the count is also what it reports to the audit recorder.\<close>

definition gc_collect :: "recall_env \<Rightarrow> string list \<Rightarrow> draw \<Rightarrow> draw \<Rightarrow> recall \<Rightarrow> ((exn + gc_result) \<times> recall) option" where
  "gc_collect env busy d_index d_activity s = (case on_store (recover_sync (rn_lib env) (rn_cfg env) busy) s of
     (Inl e, s1) \<Rightarrow> Some (Inl e, s1)
   | (Inr _, s1) \<Rightarrow> loop_then canonical_ids (\<lambda>canonical.
       bindE (prune_index env d_index canonical) (\<lambda>pruned.
       bindE (rebuild_activity env d_activity canonical) (\<lambda>rebuilt.
       ret \<lparr>gr_pruned_index_entries = pruned, gr_rebuilt_activity = rebuilt\<rparr>))) s1)"

record purge_result =
  pu_planned_count :: nat
  pu_deleted_count :: nat
  pu_key_destroyed :: bool
  pu_dry_run :: bool

record key_destroyer =
  kd_active :: "exn + key_handle"
  kd_destroy :: "key_handle \<Rightarrow> exn + bool"

definition destroy_active_key :: "key_destroyer \<Rightarrow> exn + bool" where
  "destroy_active_key k = (case kd_active k of
     Inl (KeyProviderFailure r) \<Rightarrow> if r = ''key_not_found'' then Inr False else Inl (KeyProviderFailure r)
   | Inl e \<Rightarrow> Inl e
   | Inr h \<Rightarrow> kd_destroy k h)"

definition purge_all :: "recall_env \<Rightarrow> key_destroyer \<Rightarrow> string list \<Rightarrow> draw \<Rightarrow> bool \<Rightarrow> recall \<Rightarrow> ((exn + purge_result) \<times> recall) option" where
  "purge_all env k busy d dry_run = loop_then all_record_ids (\<lambda>planned.
     if dry_run then ret \<lparr>pu_planned_count = length planned, pu_deleted_count = 0, pu_key_destroyed = False, pu_dry_run = True\<rparr>
     else
       bindE (on_store (delete_all busy planned 0)) (\<lambda>deleted.
       seqE (on_index index_clear)
       (bindE (lift (mk_ActivitySnapshot [])) (\<lambda>empty.
        seqE (on_activity (activity_replace (rn_activity env) d empty))
        (bindE (lift (destroy_active_key k)) (\<lambda>destroyed.
         ret \<lparr>pu_planned_count = length planned, pu_deleted_count = deleted, pu_key_destroyed = destroyed, pu_dry_run = False\<rparr>))))))"

end
