(* ===== verification/Index_Safety.thy ===== *)
theory Index_Safety
  imports Semantic_Index
begin

text \<open>
  What the semantic index promises: what is saved is loaded again, a write that fails leaves the old or the
  new snapshot, and over every history the index behaves as a map from records to vectors.
\<close>

section \<open>Encoding\<close>

definition index_lib_ok :: "index_env \<Rightarrow> bool" where
  "index_lib_ok env \<longleftrightarrow> seal_lib_ok (ix_lib env) (ix_seal env) \<and>
    (\<forall>s. bl_loads (ix_lib env) (bl_dumps (ix_lib env) (encode_index_snapshot (ix_lib env) s)) = Some (encode_index_snapshot (ix_lib env) s)) \<and>
    (\<forall>t. is_aware t \<longrightarrow> bl_from_iso (ix_lib env) (bl_iso (ix_lib env) t) = Some t) \<and>
    (\<forall>u. bl_uuid (ix_lib env) (bl_uuid_str (ix_lib env) u) = Some u)"

lemma all_some_map: "(\<And>x. x \<in> set xs \<Longrightarrow> f (g x) = Some x) \<Longrightarrow> all_some f (map g xs) = Some xs"
  by (induction xs) simp_all

lemma decode_encoded_entry:
  assumes "index_lib_ok env" "is_aware (xe_captured_at e)"
  shows "decode_index_entry (ix_lib env) (encode_index_entry (ix_lib env) e) = Some e"
proof -
  have "bl_from_iso (ix_lib env) (bl_iso (ix_lib env) (xe_captured_at e)) = Some (xe_captured_at e)"
    "bl_uuid (ix_lib env) (bl_uuid_str (ix_lib env) (xe_record_id e)) = Some (xe_record_id e)"
    using assms by (simp_all add: index_lib_ok_def)
  then show ?thesis by (simp add: decode_index_entry_def encode_index_entry_def str_at_def arr_at_def all_some_map)
qed

lemma decode_encoded_snapshot:
  assumes ok: "index_lib_ok env" and s: "index_snapshot_ok s"
  shows "decode_index_snapshot (ix_lib env) (bl_dumps (ix_lib env) (encode_index_snapshot (ix_lib env) s)) = Some s"
proof -
  have "all_some (decode_index_entry (ix_lib env)) (map (encode_index_entry (ix_lib env)) (xs_entries s)) = Some (xs_entries s)"
    using s by (intro all_some_map decode_encoded_entry [OF ok]) (simp add: index_snapshot_ok_def)
  moreover have "bl_loads (ix_lib env) (bl_dumps (ix_lib env) (encode_index_snapshot (ix_lib env) s)) = Some (encode_index_snapshot (ix_lib env) s)"
    using ok by (simp add: index_lib_ok_def)
  ultimately show ?thesis using s unfolding decode_index_snapshot_def
    by (cases s) (simp add: encode_index_snapshot_def str_at_def int_at_def arr_at_def Let_def)
qed

section \<open>Loading and saving\<close>

text \<open>What a file of the index holds.\<close>

definition stored :: "index_env \<Rightarrow> directory \<Rightarrow> string \<Rightarrow> exn + index_snapshot option" where
  "stored env d name = fst (index_load env name d)"

lemma index_load_stored: "index_load env name d = (stored env d name, d)"
proof -
  have "leaves id (index_load env name)"
    unfolding index_load_def by (auto intro!: leaves_bindE leaves_option)
  then show ?thesis by (simp add: stored_def leaves_def prod_eq_iff)
qed

lemma wp_index_load [wp_rules]:
  "wp (index_load env name) Q E = (\<lambda>d. case stored env d name of Inl e \<Rightarrow> E e d | Inr s \<Rightarrow> Q s d)"
  by (rule ext) (simp add: wp_def index_load_stored split: sum.split)

lemma stored_cong: "d name = d' name \<Longrightarrow> stored env d name = stored env d' name"
  by (simp add: stored_def index_load_def comp_defs split: option.split sum.split)

lemma stored_none [simp]: "d name = None \<Longrightarrow> stored env d name = Inr None"
  by (simp add: stored_def index_load_def comp_defs)

lemma stored_ok: "stored env d name = Inr (Some s) \<Longrightarrow> index_snapshot_ok s"
  by (auto simp: stored_def index_load_def comp_defs decode_index_snapshot_def Let_def
      split: option.splits sum.splits json.splits if_splits bind_splits)

definition sealed_index :: "index_env \<Rightarrow> draw \<Rightarrow> index_snapshot \<Rightarrow> exn + byte list" where
  "sealed_index env d s = encrypt_snapshot (ix_lib env) (ix_seal env) KEY_INDEX INDEX_AAD d
     (bl_dumps (ix_lib env) (encode_index_snapshot (ix_lib env) s))"

lemma stored_sealed:
  assumes ok: "index_lib_ok env" and s: "index_snapshot_ok s" and sealed: "sealed_index env dr s = Inr payload"
    and size: "length payload \<le> MAX_SNAPSHOT_BYTES"
  shows "stored env (d(name \<mapsto> payload)) name = Inr (Some s)"
proof -
  have "seal_lib_ok (ix_lib env) (ix_seal env)" using ok by (simp add: index_lib_ok_def)
  from encrypted_snapshot_opens [OF this sealed [unfolded sealed_index_def]] obtain x where
    "parse_sealed (ix_lib env) (ix_seal env) payload = Some x" "payload \<noteq> []"
    "open_sealed (ix_seal env) INDEX_AAD (IndexFailure ''semantic index authentication failed'') x =
      Inr (bl_dumps (ix_lib env) (encode_index_snapshot (ix_lib env) s))" by blast
  then show ?thesis using size decode_encoded_snapshot [OF ok s]
    by (simp add: stored_def index_load_def comp_defs read_index_file_def index_decrypt_def)
qed

text \<open>The parts of the directory that a save of one file may touch.\<close>

definition only_file :: "string \<Rightarrow> directory \<Rightarrow> directory \<Rightarrow> bool" where
  "only_file name d d' \<longleftrightarrow> (\<forall>n. n \<noteq> name \<longrightarrow> n \<noteq> index_temporary name \<longrightarrow> d' n = d n)"

lemma temporary_differs [simp]: "index_temporary name \<noteq> name" "name \<noteq> index_temporary name"
proof -
  have "length (index_temporary name) \<noteq> length name" by (simp add: index_temporary_def)
  then show "index_temporary name \<noteq> name" "name \<noteq> index_temporary name" by (metis, metis)
qed

lemma wp_index_save:
  assumes ok: "index_lib_ok env" and s: "index_snapshot_ok s"
  shows "wp (index_save env name dr s) (\<lambda>_ d'. stored env d' name = Inr (Some s) \<and> only_file name d d')
    (\<lambda>e d'. (stored env d' name = stored env d name \<or> stored env d' name = Inr (Some s)) \<and> only_file name d d') d"
    (is "wp _ ?Q ?E d")
proof -
  have keeps: "?E e d" for e by (simp add: only_file_def)
  have "wp (atomic_write (index_temporary name) name (dw_fault dr) payload) ?Q ?E d"
    if payload: "sealed_index env dr s = Inr payload" "length payload \<le> MAX_SNAPSHOT_BYTES" for payload
  proof (cases "d (index_temporary name)")
    case None
    have new: "stored env d' name = Inr (Some s)" if "d' name = Some payload" for d'
      using stored_sealed [OF ok s payload] stored_cong [of d' name "d(name \<mapsto> payload)"] that by simp
    have old: "stored env d' name = stored env d name" if "d' name = d name" for d'
      using that by (rule stored_cong)
    show ?thesis
    proof (rule wp_mono [OF wp_atomic_write [of "index_temporary name" name d, OF temporary_differs(1) None]])
      fix e d'
      assume "(\<exists>m. e = OSError m) \<and> (d' name = d name \<or> d' name = Some payload) \<and> (\<forall>n. n \<noteq> name \<longrightarrow> n \<noteq> index_temporary name \<longrightarrow> d' n = d n) \<and>
        (d' (index_temporary name) = None \<or> dw_fault dr = REPLACE_FAILS \<or> (\<exists>n. dw_fault dr = WRITE_CRASHES n))"
      then show "?E e d'" using new old unfolding only_file_def by blast
    qed (use new in \<open>simp add: only_file_def\<close>)
  next
    case (Some x)
    then show ?thesis using keeps by (simp add: wp_def atomic_write_wedged)
  qed
  then show ?thesis using keeps unfolding index_save_def sealed_index_def [symmetric]
    by (simp add: wp_rules split: sum.split)
qed

section \<open>The index as a map\<close>

definition entry_map :: "index_entry list \<Rightarrow> record_uuid \<rightharpoonup> index_entry" where
  "entry_map es = map_of (map (\<lambda>e. (xe_record_id e, e)) es)"

definition view :: "index_env \<Rightarrow> directory \<Rightarrow> record_uuid \<rightharpoonup> index_entry" where
  "view env d = (case stored env d ACTIVE_NAME of Inr (Some s) \<Rightarrow> entry_map (xs_entries s) | _ \<Rightarrow> Map.empty)"

definition file_ok :: "exn + index_snapshot option \<Rightarrow> bool" where
  "file_ok r = (case r of Inl _ \<Rightarrow> False | Inr None \<Rightarrow> True | Inr (Some s) \<Rightarrow> distinct (map xe_record_id (xs_entries s)))"

definition index_ok :: "index_env \<Rightarrow> directory \<Rightarrow> bool" where
  "index_ok env d \<longleftrightarrow> file_ok (stored env d ACTIVE_NAME) \<and> file_ok (stored env d CHECKPOINT_NAME)"

lemma index_names [simp]:
  "ACTIVE_NAME \<noteq> CHECKPOINT_NAME" "CHECKPOINT_NAME \<noteq> ACTIVE_NAME"
  "ACTIVE_NAME \<noteq> index_temporary CHECKPOINT_NAME" "CHECKPOINT_NAME \<noteq> index_temporary ACTIVE_NAME"
  by (simp_all add: ACTIVE_NAME_def CHECKPOINT_NAME_def index_temporary_def)

lemma only_file_stored:
  "only_file ACTIVE_NAME d d' \<Longrightarrow> stored env d' CHECKPOINT_NAME = stored env d CHECKPOINT_NAME"
  "only_file CHECKPOINT_NAME d d' \<Longrightarrow> stored env d' ACTIVE_NAME = stored env d ACTIVE_NAME"
  by (rule stored_cong, simp add: only_file_def)+

lemma map_of_updates:
  "map_of (fold (\<lambda>e. AList.update (f e) e) es al) = map_of al ++ map_of (rev (map (\<lambda>e. (f e, e)) es))"
  by (induction es arbitrary: al) (simp_all add: update_conv' fun_eq_iff map_add_def split: option.split)

lemma distinct_updates: "distinct (map fst al) \<Longrightarrow> distinct (map fst (fold (\<lambda>e. AList.update (f e) e) es al))"
  by (induction es arbitrary: al) (simp_all add: distinct_update)

lemma updates_keyed:
  "(\<forall>(k, e) \<in> set al. k = f e) \<Longrightarrow> (k, e) \<in> set (fold (\<lambda>e. AList.update (f e) e) es al) \<Longrightarrow> k = f e"
proof (induction es arbitrary: al)
  case (Cons x es)
  have "\<forall>(k, e) \<in> set (AList.update (f x) x al). k = f e" using Cons.prems(1) by (induction al) auto
  with Cons show ?case by simp
qed auto

lemma map_of_same_set:
  assumes "distinct (map fst xs)" "distinct (map fst ys)" "set xs = set ys"
  shows "map_of xs = map_of ys"
  by (rule ext) (metis assms map_of_eq_Some_iff not_Some_eq)

lemma entry_map_same_set:
  assumes "distinct (map xe_record_id xs)" "distinct (map xe_record_id ys)" "set xs = set ys"
  shows "entry_map xs = entry_map ys"
  unfolding entry_map_def using assms by (intro map_of_same_set) (auto simp: comp_def)

lemma merge_entries_props:
  fixes lib old new
  defines "al \<equiv> fold (\<lambda>e. AList.update (xe_record_id e) e) (old @ new) []"
  assumes "distinct (map xe_record_id old)" "distinct (map xe_record_id new)"
  shows "distinct (map xe_record_id (merge_entries lib old new))" "entry_map (merge_entries lib old new) = entry_map old ++ entry_map new"
    "set (merge_entries lib old new) \<subseteq> set old \<union> set new"
proof -
  have keyed: "k = xe_record_id e" if "(k, e) \<in> set al" for k e
    using updates_keyed [of "[]" xe_record_id k e "old @ new"] that by (simp add: al_def)
  then have keys: "map xe_record_id (map snd al) = map fst al" "map (\<lambda>e. (xe_record_id e, e)) (map snd al) = al"
    by (auto intro!: map_idI)
  have d: "distinct (map fst al)" unfolding al_def by (rule distinct_updates) simp
  have merged: "merge_entries lib old new = sort_key (\<lambda>e. bl_uuid_str lib (xe_record_id e)) (map snd al)"
    by (simp add: merge_entries_def al_def)
  then have set: "set (merge_entries lib old new) = set (map snd al)" by simp
  have "mset (merge_entries lib old new) = mset (map snd al)" using merged by simp
  then have "mset (map xe_record_id (merge_entries lib old new)) = mset (map xe_record_id (map snd al))" by (simp only: mset_map)
  then show dm: "distinct (map xe_record_id (merge_entries lib old new))" using d keys(1) mset_eq_imp_distinct_iff by metis
  have revd: "map_of (rev (map (\<lambda>e. (xe_record_id e, e)) xs)) = entry_map xs" if "distinct (map xe_record_id xs)" for xs
    unfolding entry_map_def using that by (intro map_of_same_set) (simp_all add: rev_map [symmetric] comp_def)
  have "entry_map (merge_entries lib old new) = entry_map (map snd al)"
    by (rule entry_map_same_set [OF dm _ set]) (simp only: keys(1) d)
  also have "\<dots> = map_of al" by (simp only: entry_map_def keys(2))
  also have "\<dots> = map_of (rev (map (\<lambda>e. (xe_record_id e, e)) (old @ new)))" unfolding al_def map_of_updates by simp
  also have "\<dots> = entry_map old ++ entry_map new" using revd assms(2,3) by simp
  finally show "entry_map (merge_entries lib old new) = entry_map old ++ entry_map new" .
  have "e \<in> set old \<union> set new" if "(k, e) \<in> set al" for k e
    using d that map_of_updates [of xe_record_id "old @ new" "[]"] unfolding al_def [symmetric]
    by (auto simp flip: map_of_eq_Some_iff simp: map_add_Some_iff dest!: map_of_SomeD)
  then show "set (merge_entries lib old new) \<subseteq> set old \<union> set new" unfolding set by fastforce
qed

section \<open>Operations\<close>

definition provider_ok :: "embedder \<Rightarrow> bool" where
  "provider_ok p \<longleftrightarrow> (\<forall>q r. p q = Inr r \<longrightarrow> mk_EmbeddingResponse r = Inr r)"

definition entries_for :: "index_document list \<Rightarrow> index_entry list \<Rightarrow> bool" where
  "entries_for ds es \<longleftrightarrow> map xe_record_id es = map xd_record_id ds \<and> map xe_captured_at es = map xd_captured_at ds"

lemma response_props:
  assumes "validate_response r n = Inr ()"
  shows "length (er_vectors r) = n" "0 < response_dimension r" "\<And>v. v \<in> set (er_vectors r) \<Longrightarrow> int (length v) = response_dimension r"
  using assms by (auto simp: validate_response_def bindS_Inr ensure_Inr)

lemma index_entries_props:
  assumes "validate_response r (length ds) = Inr ()" and "\<forall>x \<in> set ds. is_aware (xd_captured_at x)"
  shows "entries_for ds (index_entries ds r)"
    "\<And>e. e \<in> set (index_entries ds r) \<Longrightarrow> is_aware (xe_captured_at e) \<and> int (length (xe_vector e)) = response_dimension r"
proof -
  note r = response_props [OF assms(1)]
  show "entries_for ds (index_entries ds r)" using r(1)
    by (auto simp: entries_for_def index_entries_def intro!: nth_equalityI)
  show "is_aware (xe_captured_at e) \<and> int (length (xe_vector e)) = response_dimension r" if "e \<in> set (index_entries ds r)" for e
    using that assms(2) r(3) by (auto simp: index_entries_def dest: set_zip_leftD set_zip_rightD)
qed

lemma entries_for_distinct: "entries_for ds es \<Longrightarrow> distinct (map xd_record_id ds) \<Longrightarrow> distinct (map xe_record_id es)"
  by (simp add: entries_for_def)

lemma validated_distinct: "validate_documents ds = Inr () \<Longrightarrow> distinct (map xd_record_id ds) \<and> ds \<noteq> []"
  by (auto simp: validate_documents_def bindS_Inr ensure_Inr)

text \<open>Saving a replacement of the active snapshot.\<close>

definition saved_as :: "index_env \<Rightarrow> directory \<Rightarrow> (record_uuid \<rightharpoonup> index_entry) \<Rightarrow> directory \<Rightarrow> bool" where
  "saved_as env d m d' \<longleftrightarrow> index_ok env d' \<and> view env d' = m \<and> stored env d' CHECKPOINT_NAME = stored env d CHECKPOINT_NAME"

lemma wp_save_active:
  assumes ok: "index_lib_ok env" "index_ok env d" and s: "index_snapshot_ok s" "distinct (map xe_record_id (xs_entries s))"
  shows "wp (seqE (index_save env ACTIVE_NAME dr s) (ret (manifest_of s))) (\<lambda>x d'. x = manifest_of s \<and> saved_as env d (entry_map (xs_entries s)) d')
    (\<lambda>e d'. saved_as env d (view env d) d' \<or> saved_as env d (entry_map (xs_entries s)) d') d"
proof -
  have new: "saved_as env d (entry_map (xs_entries s)) d'" if "stored env d' ACTIVE_NAME = Inr (Some s)" "only_file ACTIVE_NAME d d'" for d'
    using that ok(2) s(2) only_file_stored(1) [OF that(2), of env] by (simp add: saved_as_def index_ok_def file_ok_def view_def)
  have old: "saved_as env d (view env d) d'" if "stored env d' ACTIVE_NAME = stored env d ACTIVE_NAME" "only_file ACTIVE_NAME d d'" for d'
    using that ok(2) only_file_stored(1) [OF that(2), of env] by (simp add: saved_as_def index_ok_def view_def)
  show ?thesis unfolding wp_seqE wp_ret
    using new old by (intro wp_mono [OF wp_index_save [OF ok(1) s(1)]]) auto
qed

lemma stored_cases:
  assumes "index_ok env d"
  obtains (absent) "stored env d ACTIVE_NAME = Inr None" "view env d = Map.empty"
  | (present) s where "stored env d ACTIVE_NAME = Inr (Some s)" "view env d = entry_map (xs_entries s)" "distinct (map xe_record_id (xs_entries s))" "index_snapshot_ok s"
  using assms stored_ok [of env d ACTIVE_NAME]
  by (auto simp: index_ok_def file_ok_def view_def split: sum.splits option.splits)

lemma unchanged: "index_ok env d \<Longrightarrow> saved_as env d (view env d) d"
  by (simp add: saved_as_def)

definition index_added :: "index_env \<Rightarrow> index_document list \<Rightarrow> directory \<Rightarrow> directory \<Rightarrow> bool" where
  "index_added env ds d d' \<longleftrightarrow> (\<exists>es. entries_for ds es \<and> saved_as env d (view env d ++ entry_map es) d')"

lemma wp_index_add:
  assumes ok: "index_lib_ok env" "index_ok env d" and p: "provider_ok p" and ds: "\<forall>x \<in> set ds. is_aware (xd_captured_at x)"
  shows "wp (index_add env p dr ds) (\<lambda>x d'. index_added env ds d d') (\<lambda>e d'. saved_as env d (view env d) d' \<or> index_added env ds d d') d"
    (is "wp _ ?Q ?E d")
proof (cases "validate_documents ds")
  case valid: (Inr u)
  then have distinct: "distinct (map xd_record_id ds)" using validated_distinct [of ds] by simp
  show ?thesis using ok(2)
  proof (cases rule: stored_cases)
    case absent
    then show ?thesis using valid unchanged [OF ok(2)] by (simp add: index_add_def wp_rules)
  next
    case (present s)
    have "wp (seqE (index_save env ACTIVE_NAME dr s') (ret (manifest_of s'))) ?Q ?E d"
      if r: "validate_response r (length ds) = Inr ()" "require_compatible s r = Inr ()"
        and s': "s' = s\<lparr>xs_entries := merge_entries (ix_lib env) (xs_entries s) (index_entries ds r)\<rparr>" for r s'
    proof -
      note es = index_entries_props [OF r(1) ds]
      note merged = merge_entries_props [OF present(3) entries_for_distinct [OF es(1) distinct], of "ix_lib env"]
      have "index_snapshot_ok s'" using present(4) es(2) r(2) merged(3)
        by (auto simp: index_snapshot_ok_def s' require_compatible_def bindS_Inr ensure_Inr)
      note save = wp_save_active [OF ok this]
      show ?thesis using merged es(1) present(2)
        by (intro wp_mono [OF save]) (auto simp: s' index_added_def)
    qed
    then show ?thesis using valid unchanged [OF ok(2)] present(1) unfolding index_add_def Let_def
      by (auto simp: wp_seqE wp_bindE wp_lift wp_index_load bindS_def split: sum.split)
  qed
qed (use unchanged [OF ok(2)] in \<open>simp add: index_add_def wp_rules\<close>)

lemma entry_map_filter:
  assumes "distinct (map xe_record_id es)"
  shows "entry_map (filter (\<lambda>e. xe_record_id e \<notin> S) es) = entry_map es |` (- S)"
  using assms by (induction es) (auto simp: entry_map_def restrict_map_insert restrict_map_def fun_eq_iff)

lemma wp_index_remove:
  assumes ok: "index_lib_ok env" "index_ok env d"
  shows "wp (index_remove env dr ids) (\<lambda>x d'. saved_as env d (view env d |` (- set ids)) d')
    (\<lambda>e d'. saved_as env d (view env d) d' \<or> saved_as env d (view env d |` (- set ids)) d') d"
    (is "wp _ ?Q ?E d")
  using ok(2)
proof (cases rule: stored_cases)
  case absent
  then show ?thesis using unchanged [OF ok(2)] by (simp add: index_remove_def wp_rules)
next
  case (present s)
  define s' where "s' = s\<lparr>xs_entries := filter (\<lambda>e. xe_record_id e \<notin> set ids) (xs_entries s)\<rparr>"
  have "distinct (map xe_record_id (xs_entries s'))" using present(3) by (simp add: s'_def distinct_map_filter)
  moreover have "index_snapshot_ok s'" using present(4) by (auto simp: s'_def index_snapshot_ok_def)
  ultimately have "wp (seqE (index_save env ACTIVE_NAME dr s') (ret (manifest_of s'))) ?Q ?E d"
    using entry_map_filter [OF present(3), of "set ids"] present(2)
    by (intro wp_mono [OF wp_save_active [OF ok]]) (auto simp: s'_def)
  then show ?thesis using unchanged [OF ok(2)] present(1) unfolding index_remove_def Let_def s'_def
    by (simp add: wp_rules)
qed

section \<open>Rebuilding\<close>

lemma concat_batches: "0 < n \<Longrightarrow> concat (batches n xs) = xs"
  by (induction n xs rule: batches.induct) (subst batches.simps, simp)

definition rebuilding :: "embedding_model \<Rightarrow> index_entry list \<Rightarrow> bool" where
  "rebuilding m es = (case m of None \<Rightarrow> es = []
     | Some (model, dimensions) \<Rightarrow> index_snapshot_ok \<lparr>xs_model_id = model, xs_dimensions = dimensions, xs_entries = es\<rparr>)"

definition active_kept :: "index_env \<Rightarrow> directory \<Rightarrow> directory \<Rightarrow> bool" where
  "active_kept env d d' \<longleftrightarrow> index_ok env d' \<and> stored env d' ACTIVE_NAME = stored env d ACTIVE_NAME"

lemma wp_save_checkpoint:
  assumes ok: "index_lib_ok env" "active_kept env d0 d" and s: "index_snapshot_ok s" "distinct (map xe_record_id (xs_entries s))"
  shows "wp (index_save env CHECKPOINT_NAME dr s) (\<lambda>_. active_kept env d0) (\<lambda>_. active_kept env d0) d"
proof -
  have "active_kept env d0 d'" if "only_file CHECKPOINT_NAME d d'"
    "stored env d' CHECKPOINT_NAME = stored env d CHECKPOINT_NAME \<or> stored env d' CHECKPOINT_NAME = Inr (Some s)" for d'
    using that ok(2) s(2) only_file_stored(2) [OF that(1), of env] by (auto simp: active_kept_def index_ok_def file_ok_def)
  then show ?thesis by (intro wp_mono [OF wp_index_save [OF ok(1) s(1)]]) auto
qed

lemma continued:
  assumes "validate_response r (length b) = Inr ()" "mk_EmbeddingResponse r = Inr r" "continue_model m r = Inr (model, dimensions)"
    and "rebuilding m es" and "\<forall>x \<in> set b. is_aware (xd_captured_at x)"
  shows "rebuilding (Some (model, dimensions)) (es @ index_entries b r)"
proof -
  have "nonempty (er_model_id r)" using assms(2) by (auto simp: mk_EmbeddingResponse_def bindS_Inr ensure_Inr)
  then show ?thesis
    using assms(3,4) response_props(2) [OF assms(1)] index_entries_props(2) [OF assms(1,5)]
    by (cases m) (auto simp: rebuilding_def continue_model_def index_snapshot_ok_def bindS_Inr ensure_Inr split: prod.splits)
qed

lemma wp_rebuild_batches:
  assumes "index_lib_ok env" "\<And>i. provider_ok (p i)" "active_kept env d0 d" "rebuilding m es"
    and "distinct (map xe_record_id es @ map xd_record_id (concat bs))" "\<forall>x \<in> set (concat bs). is_aware (xd_captured_at x)"
  shows "wp (rebuild_batches env p draws i bs m es)
    (\<lambda>(m', es') d'. active_kept env d0 d' \<and> rebuilding m' es' \<and> map xe_record_id es' = map xe_record_id es @ map xd_record_id (concat bs) \<and>
      (m' = None \<longrightarrow> m = None \<and> bs = []))
    (\<lambda>e d'. active_kept env d0 d') d"
  using assms
proof (induction bs arbitrary: i m es d)
  case Nil
  then show ?case by (simp add: wp_rules)
next
  case (Cons b bs)
  let ?Q = "\<lambda>(m', es') d'. active_kept env d0 d' \<and> rebuilding m' es' \<and> map xe_record_id es' = map xe_record_id es @ map xd_record_id (concat (b # bs)) \<and>
      (m' = None \<longrightarrow> m = None \<and> b # bs = [])"
  have step: "wp (seqE (index_save env CHECKPOINT_NAME (draws i) \<lparr>xs_model_id = model, xs_dimensions = dimensions, xs_entries = es @ index_entries b r\<rparr>)
      (rebuild_batches env p draws (Suc i) bs (Some (model, dimensions)) (es @ index_entries b r))) ?Q (\<lambda>e d'. active_kept env d0 d') d"
    if r: "p i q = Inr r" "validate_response r (length b) = Inr ()" "continue_model m r = Inr (model, dimensions)" for q r model dimensions
  proof -
    have "mk_EmbeddingResponse r = Inr r" using Cons.prems(2) r(1) unfolding provider_ok_def by blast
    from continued [OF r(2) this r(3) Cons.prems(4)] Cons.prems(6)
    have new: "rebuilding (Some (model, dimensions)) (es @ index_entries b r)" by simp
    have ids: "map xe_record_id (index_entries b r) = map xd_record_id b"
      using index_entries_props(1) [OF r(2)] Cons.prems(6) by (simp add: entries_for_def)
    note save = wp_save_checkpoint [OF Cons.prems(1,3), of "\<lparr>xs_model_id = model, xs_dimensions = dimensions, xs_entries = es @ index_entries b r\<rparr>" "draws i"]
    have "wp (rebuild_batches env p draws (Suc i) bs (Some (model, dimensions)) (es @ index_entries b r)) ?Q (\<lambda>e d'. active_kept env d0 d') d'"
      if "active_kept env d0 d'" for d'
      by (rule wp_mono [OF Cons.IH [OF Cons.prems(1,2) that new]]) (use ids Cons.prems(5,6) in auto)
    then show ?thesis unfolding wp_seqE
      by (intro wp_mono [OF save]) (use new ids Cons.prems(5) in \<open>auto simp: rebuilding_def\<close>)
  qed
  show ?case using step Cons.prems(3)
    by (auto simp: wp_bindE wp_seqE wp_lift wp_case_prod Let_def bindS_def split: sum.split)
qed

definition rebuilt :: "index_env \<Rightarrow> index_document list \<Rightarrow> directory \<Rightarrow> bool" where
  "rebuilt env ds d \<longleftrightarrow> index_ok env d \<and>
    (\<exists>s. stored env d ACTIVE_NAME = Inr (Some s) \<and> map xe_record_id (xs_entries s) = map xd_record_id ds)"

lemma stored_delete: "stored env (d(n := None)) name = (if n = name then Inr None else stored env d name)"
  by (auto intro: stored_cong)

lemma wp_finish_rebuild:
  assumes ok: "index_lib_ok env" "active_kept env d0 d" and es: "rebuilding m es" "m \<noteq> None" "distinct (map xe_record_id es)"
    and ids: "map xe_record_id es = map xd_record_id ds"
  shows "wp (finish_rebuild env dr (m, es)) (\<lambda>x d'. rebuilt env ds d' \<and> stored env d' CHECKPOINT_NAME = Inr None \<and> mf_record_count x = length ds)
    (\<lambda>e d'. active_kept env d0 d' \<or> rebuilt env ds d') d"
proof -
  obtain model dimensions where m: "m = Some (model, dimensions)" using es(2) by auto
  define s where "s = \<lparr>xs_model_id = model, xs_dimensions = dimensions, xs_entries = es\<rparr>"
  have sok: "index_snapshot_ok s" using es(1) by (simp add: m rebuilding_def s_def)
  have kept: "active_kept env d0 d'" if "stored env d' ACTIVE_NAME = stored env d ACTIVE_NAME" "only_file ACTIVE_NAME d d'" for d'
    using that ok(2) only_file_stored(1) [OF that(2), of env] by (auto simp: active_kept_def index_ok_def)
  have final: "rebuilt env ds d'" if "stored env d' ACTIVE_NAME = Inr (Some s)" "only_file ACTIVE_NAME d d'" for d'
    using that ok(2) ids es(3) only_file_stored(1) [OF that(2), of env] by (simp add: rebuilt_def active_kept_def index_ok_def file_ok_def s_def)
  have count: "mf_record_count (manifest_of s) = length ds" using ids map_eq_imp_length_eq by (fastforce simp: s_def manifest_of_def)
  have cleared: "rebuilt env ds (d'(CHECKPOINT_NAME := None))" if "rebuilt env ds d'" for d'
    using that by (simp add: rebuilt_def index_ok_def stored_delete file_ok_def)
  show ?thesis unfolding finish_rebuild_def m prod.case option.case s_def [symmetric] Let_def wp_seqE
    by (rule wp_mono [OF wp_index_save [OF ok(1) sok]])
      (use kept final count cleared in \<open>auto simp: wp_rules stored_delete\<close>)
qed

lemma wp_index_rebuild:
  assumes ok: "index_lib_ok env" "index_ok env d" and p: "\<And>i. provider_ok (p i)" and ds: "\<forall>x \<in> set ds. is_aware (xd_captured_at x)"
  shows "wp (index_rebuild env p draws ds n)
    (\<lambda>x d'. rebuilt env ds d' \<and> stored env d' CHECKPOINT_NAME = Inr None \<and> mf_record_count x = length ds)
    (\<lambda>e d'. active_kept env d d' \<or> rebuilt env ds d') d"
    (is "wp _ ?Q ?E d")
proof (cases "validate_documents ds = Inr () \<and> 0 < n")
  case True
  then have valid: "distinct (map xd_record_id ds)" "ds \<noteq> []" using validated_distinct by auto
  have kept: "active_kept env d d" using ok(2) by (simp add: active_kept_def)
  have run: "wp (bindE (rebuild_batches env p draws 0 bs m es) (finish_rebuild env dr)) ?Q ?E d"
    if m: "rebuilding m es" "m \<noteq> None \<or> bs \<noteq> []" and ids: "map xe_record_id es @ map xd_record_id (concat bs) = map xd_record_id ds"
      and sub: "set (concat bs) \<subseteq> set ds" for bs m es dr
  proof -
    have "wp (rebuild_batches env p draws 0 bs m es) (\<lambda>x. wp (finish_rebuild env dr x) ?Q ?E) ?E d"
    proof (rule wp_mono [OF wp_rebuild_batches [OF ok(1) p kept m(1)]], goal_cases)
      case (3 x d')
      obtain m' es' where x: "x = (m', es')" by (cases x)
      with 3 have "active_kept env d d'" "rebuilding m' es'" "m' \<noteq> None" and es': "map xe_record_id es' = map xd_record_id ds"
        using ids m(2) by auto
      then show ?case unfolding x using valid(1) by (intro wp_finish_rebuild [OF ok(1)]) simp_all
    qed (use ids valid(1) sub ds in auto)
    then show ?thesis unfolding wp_bindE .
  qed
  have all: "concat (batches (nat n) xs) = xs" for xs :: "index_document list" using True by (simp add: concat_batches)
  have fresh: "wp (let bs = batches (nat n) ds in bindE (rebuild_batches env p draws 0 bs None []) (finish_rebuild env (draws (length bs)))) ?Q ?E d"
    unfolding Let_def using all [of ds] valid(2) by (intro run) (auto simp: rebuilding_def)
  have resumed: "wp (let bs = batches (nat n) (drop (length (xs_entries c)) ds) in
      bindE (rebuild_batches env p draws 0 bs (Some (xs_model_id c, xs_dimensions c)) (xs_entries c)) (finish_rebuild env (draws (length bs)))) ?Q ?E d"
    if c: "stored env d CHECKPOINT_NAME = Inr (Some c)" "matches_prefix c ds" for c
    unfolding Let_def
  proof (rule run)
    show "rebuilding (Some (xs_model_id c, xs_dimensions c)) (xs_entries c)" using stored_ok [OF c(1)] by (cases c) (simp add: rebuilding_def)
    have "map xe_record_id (xs_entries c) = map xd_record_id (take (length (xs_entries c)) ds)"
      using c(2) by (simp add: matches_prefix_def list_all2_conv_all_nth list_eq_iff_nth_eq)
    then show "map xe_record_id (xs_entries c) @ map xd_record_id (concat (batches (nat n) (drop (length (xs_entries c)) ds))) = map xd_record_id ds"
      using all by (metis append_take_drop_id map_append)
    show "set (concat (batches (nat n) (drop (length (xs_entries c)) ds))) \<subseteq> set ds" unfolding all by (rule set_drop_subset)
  qed simp
  obtain checkpoint where "stored env d CHECKPOINT_NAME = Inr checkpoint" using ok(2) by (auto simp: index_ok_def file_ok_def split: sum.splits)
  then show ?thesis using True fresh resumed unfolding index_rebuild_def
    by (auto simp: wp_seqE wp_bindE wp_lift wp_require wp_index_load split: option.split)
qed (use ok(2) in \<open>auto simp: index_rebuild_def wp_rules active_kept_def split: sum.split\<close>)

section \<open>Search\<close>

lemma cosine_range: "0 \<le> cosine f x y" "cosine f x y \<le> 1"
  by (simp_all add: cosine_def Let_def)

definition hit_for :: "index_env \<Rightarrow> rat list \<Rightarrow> index_entry \<Rightarrow> semantic_hit" where
  "hit_for env v e = \<lparr>sh_record_id = xe_record_id e, sh_captured_at = xe_captured_at e, sh_score = cosine (ix_sqrt env) v (xe_vector e)\<rparr>"

text \<open>The best hits: those within the range of the query, ranked, and no better one left out.\<close>

definition best_hits :: "index_env \<Rightarrow> semantic_query \<Rightarrow> (record_uuid \<rightharpoonup> index_entry) \<Rightarrow> rat list \<Rightarrow> semantic_hit list \<Rightarrow> bool" where
  "best_hits env q m v hits \<longleftrightarrow>
    (let candidates = {hit_for env v e | u e. m u = Some e \<and> query_within q (xe_captured_at e)} in
     set hits \<subseteq> candidates \<and> distinct (map sh_record_id hits) \<and> sorted (map (hit_key (ix_lib env)) hits) \<and>
     int (length hits) \<le> sq_limit q \<and>
     (\<forall>c \<in> candidates - set hits. int (length hits) = sq_limit q \<and> (\<forall>h \<in> set hits. hit_key (ix_lib env) h \<le> hit_key (ix_lib env) c)))"

lemma top_of_sorted:
  assumes "x \<in> set xs" "x \<notin> set (take n (sort_key k xs))" "y \<in> set (take n (sort_key k xs))"
  shows "k y \<le> k x" "length (take n (sort_key k xs)) = n"
proof -
  let ?t = "take n (sort_key k xs)" and ?d = "drop n (sort_key k xs)"
  have "set (sort_key k xs) = set ?t \<union> set ?d" by (metis append_take_drop_id set_append)
  then have d: "x \<in> set ?d" using assms(1,2) by simp
  have "sorted (map k ?t @ map k ?d)" by (simp flip: map_append)
  then show "k y \<le> k x" using assms(3) d by (auto simp: sorted_append)
  from d have "n < length xs" by (metis drop_all empty_iff length_sort list.set(1) not_le)
  then show "length ?t = n" by simp
qed

lemma hits_from_entries:
  assumes d: "distinct (map xe_record_id es)" and n: "0 < sq_limit q"
  shows "best_hits env q (entry_map es) v (take (nat (sq_limit q)) (sort_key (hit_key (ix_lib env)) (map (hit_for env v) (filter (\<lambda>e. query_within q (xe_captured_at e)) es))))"
proof -
  let ?fs = "filter (\<lambda>e. query_within q (xe_captured_at e)) es"
  define hs where "hs = sort_key (hit_key (ix_lib env)) (map (hit_for env v) ?fs)"
  have "mset (map sh_record_id hs) = mset (map sh_record_id (map (hit_for env v) ?fs))" by (simp only: hs_def mset_map mset_sort)
  also have "map sh_record_id (map (hit_for env v) ?fs) = map xe_record_id ?fs" by (simp add: hit_for_def)
  finally have "mset (map sh_record_id hs) = mset (map xe_record_id ?fs)" .
  then have dist: "distinct (map sh_record_id hs)" using distinct_map_filter [OF d] mset_eq_imp_distinct_iff by metis
  have entries: "(\<exists>u. entry_map es u = Some e) \<longleftrightarrow> e \<in> set es" for e
    using d by (auto simp: entry_map_def comp_def dest: map_of_SomeD intro!: exI [of _ "xe_record_id e"] map_of_is_SomeI)
  have cands: "{hit_for env v e | u e. entry_map es u = Some e \<and> query_within q (xe_captured_at e)} = set (map (hit_for env v) ?fs)" (is "?C = _")
  proof -
    have "?C = hit_for env v ` {e. (\<exists>u. entry_map es u = Some e) \<and> query_within q (xe_captured_at e)}" by auto
    then show ?thesis unfolding entries by simp
  qed
  have "distinct (map sh_record_id (take (nat (sq_limit q)) hs))" using dist by (simp add: distinct_take flip: take_map)
  moreover have "sorted (map (hit_key (ix_lib env)) (take (nat (sq_limit q)) hs))" by (simp add: hs_def sorted_wrt_take flip: take_map)
  moreover have "set (take (nat (sq_limit q)) hs) \<subseteq> set (map (hit_for env v) ?fs)" using set_take_subset [of _ hs] by (auto simp: hs_def)
  moreover have "int (length (take (nat (sq_limit q)) hs)) = sq_limit q \<and> (\<forall>h \<in> set (take (nat (sq_limit q)) hs). hit_key (ix_lib env) h \<le> hit_key (ix_lib env) c)"
    if "c \<in> set (map (hit_for env v) ?fs) - set (take (nat (sq_limit q)) hs)" for c
  proof -
    have "c \<in> set hs" using that by (simp add: hs_def)
    then have "set (take (nat (sq_limit q)) hs) \<noteq> {}" using n by auto
    then show ?thesis using that top_of_sorted [of c "map (hit_for env v) ?fs" "nat (sq_limit q)" "hit_key (ix_lib env)"] n
      unfolding hs_def by fastforce
  qed
  ultimately show ?thesis unfolding best_hits_def Let_def cands hs_def [symmetric] using n by auto
qed

section \<open>Histories\<close>

text \<open>
  The operations that write, with any provider that builds its responses with the constructor and any fault
  of each write, on documents whose times are aware, as their constructor demands.
\<close>

inductive index_step :: "index_env \<Rightarrow> directory \<Rightarrow> directory \<Rightarrow> bool" for env where
  step_index_add: "provider_ok p \<Longrightarrow> \<forall>x \<in> set ds. is_aware (xd_captured_at x) \<Longrightarrow> index_add env p dr ds d = (r, d') \<Longrightarrow> index_step env d d'"
| step_index_remove: "index_remove env dr ids d = (r, d') \<Longrightarrow> index_step env d d'"
| step_index_clear: "index_clear d = (r, d') \<Longrightarrow> index_step env d d'"
| step_index_rebuild: "(\<And>i. provider_ok (p i)) \<Longrightarrow> \<forall>x \<in> set ds. is_aware (xd_captured_at x) \<Longrightarrow>
    index_rebuild env p draws ds n d = (r, d') \<Longrightarrow> index_step env d d'"

lemma wp_outcome: "wp m Q E d \<Longrightarrow> m d = (r, d') \<Longrightarrow> (\<And>x. Q x d' \<Longrightarrow> P) \<Longrightarrow> (\<And>e. E e d' \<Longrightarrow> P) \<Longrightarrow> P"
  by (cases r) (auto simp: wp_def)

lemma saved_index_ok: "saved_as env d m d' \<Longrightarrow> index_ok env d'"
  by (simp add: saved_as_def)

lemma index_step_ok:
  assumes "index_step env d d'" "index_lib_ok env" "index_ok env d"
  shows "index_ok env d'"
  using assms(1)
proof cases
  case (step_index_add p ds dr r)
  from wp_outcome [OF wp_index_add [OF assms(2,3) step_index_add(1,2)] step_index_add(3)] show ?thesis
    by (auto simp: index_added_def dest: saved_index_ok)
next
  case (step_index_remove dr ids r)
  from wp_outcome [OF wp_index_remove [OF assms(2,3)] step_index_remove] show ?thesis by (auto dest: saved_index_ok)
next
  case (step_index_clear r)
  then show ?thesis using assms(3) by (auto simp: index_clear_def comp_defs index_ok_def stored_delete file_ok_def)
next
  case (step_index_rebuild p ds draws n r)
  from wp_outcome [OF wp_index_rebuild [OF assms(2,3) step_index_rebuild(1,2)] step_index_rebuild(3)] show ?thesis
    by (auto simp: rebuilt_def active_kept_def)
qed

lemma empty_index_ok: "index_ok env Map.empty"
  by (simp add: index_ok_def file_ok_def)

interpretation index_history: invariant_system "index_step env" Map.empty "\<lambda>d. index_lib_ok env \<longrightarrow> index_ok env d" for env
  by unfold_locales (auto intro: index_step_ok empty_index_ok)

lemma reachable_index_ok: "index_lib_ok env \<Longrightarrow> run (index_step env) Map.empty d \<Longrightarrow> index_ok env d"
  using index_history.inv_reachable by blast

lemma search_best:
  assumes ok: "index_ok env d" and q: "mk_SemanticQuery q = Inr q'" and s: "index_search env p q d = (Inr hits, d')"
  shows "d' = d \<and> (\<exists>v. best_hits env q (view env d) v hits)"
proof -
  have n: "0 < sq_limit q" using q by (auto simp: mk_SemanticQuery_def bindS_Inr ensure_Inr)
  show ?thesis using ok
  proof (cases rule: stored_cases)
    case absent
    then have "hits = [] \<and> d' = d" using s by (simp add: index_search_def bindE_def index_load_stored ret_def)
    then show ?thesis using absent(2) n by (simp add: best_hits_def)
  next
    case (present x)
    then have "d' = d \<and> (\<exists>v. hits = take (nat (sq_limit q)) (sort_key (hit_key (ix_lib env))
        (map (hit_for env v) (filter (\<lambda>e. query_within q (xe_captured_at e)) (xs_entries x)))))"
      using s by (auto simp: index_search_def bindE_def seqE_def lift_def index_load_stored ret_def Let_def hit_for_def [abs_def] split: sum.splits prod.splits)
    then show ?thesis using hits_from_entries [OF present(3) n] present(2) by auto
  qed
qed

section \<open>A concrete library\<close>

text \<open>JSON values numbered by a table first and then by their enumeration, and a cipher that hides nothing.\<close>

primrec code_of :: "json list \<Rightarrow> json \<Rightarrow> nat" where
  "code_of [] j = to_nat j"
| "code_of (x # xs) j = (if j = x then 0 else Suc (code_of xs j))"

primrec value_of :: "json list \<Rightarrow> nat \<Rightarrow> json" where
  "value_of [] n = from_nat n"
| "value_of (x # xs) n = (case n of 0 \<Rightarrow> x | Suc m \<Rightarrow> value_of xs m)"

lemma value_of_code [simp]: "value_of xs (code_of xs j) = j"
  by (induction xs) auto

definition table_lib :: "json list \<Rightarrow> blob_lib" where
  "table_lib xs = (tally_lib JNull)\<lparr>bl_dumps := \<lambda>j. replicate (Suc (code_of xs j)) 0, bl_loads := \<lambda>bs. Some (value_of xs (length bs - 1))\<rparr>"

definition sample_key :: key_handle where
  "sample_key = \<lparr>kh_key_id = ''k'', kh_provider_id = ''p'', kh_version = 1\<rparr>"

definition sample_seal :: seal_lib where
  "sample_seal = \<lparr>sl_active = \<lambda>_. Inr sample_key, sl_wrap = \<lambda>_ k _. Inr k, sl_unwrap = \<lambda>_ w _. Inr w,
     sl_encrypt = \<lambda>t _ _ _. t, sl_decrypt = \<lambda>c _ _ _. Some c, sl_b64 = map (\<lambda>b. char_of (unat b)),
     sl_unb64 = \<lambda>t. Some (map (\<lambda>c. word_of_nat (of_char c)) t)\<rparr>"

lemma sample_seal_ok: "seal_lib_ok (table_lib xs) sample_seal"
proof -
  have byte: "word_of_nat (unat b mod 256) = b" for b :: byte
    using unsigned_less [of b, where 'a = nat] by simp
  have "key_handle_ok sample_key" by code_simp
  then show ?thesis by (auto simp: seal_lib_ok_def table_lib_def sample_seal_def tally_def byte comp_def)
qed

lemma sample_seal_simps [simp]:
  "sl_active sample_seal p = Inr sample_key" "sl_wrap sample_seal h k aad = Inr k" "sl_encrypt sample_seal t aad n k = t"
  by (simp_all add: sample_seal_def)

lemma table_dumps [simp]: "bl_dumps (table_lib xs) j = replicate (Suc (code_of xs j)) 0"
  by (simp add: table_lib_def)

lemma table_index_ok: "index_lib_ok \<lparr>ix_lib = table_lib xs, ix_seal = sample_seal, ix_sqrt = f\<rparr>"
proof -
  have "is_aware t \<Longrightarrow> Aware (instant t) = t" for t by (cases t) simp_all
  then show ?thesis by (auto simp: index_lib_ok_def sample_seal_ok) (auto simp: table_lib_def tally_lib_def)
qed

section \<open>Properties\<close>


text \<open>
  C30. Rebuilding the index, also when it resumes from the checkpoint of a rebuild that was interrupted: if it
  returns, the index holds exactly one entry per document, in their order, and the checkpoint is gone; if
  it raises, at whatever batch, the index still holds what it held, or already the new entries.
\<close>

theorem rebuild_replaces_index:
  assumes "index_lib_ok env" and "run (index_step env) Map.empty d" and "\<And>i. provider_ok (p i)"
    and "\<forall>x \<in> set ds. is_aware (xd_captured_at x)" and "index_rebuild env p draws ds n d = (r, d')"
  shows "let new = (\<exists>s. stored env d' ACTIVE_NAME = Inr (Some s) \<and> map xe_record_id (xs_entries s) = map xd_record_id ds) in
    case r of Inr x \<Rightarrow> new \<and> stored env d' CHECKPOINT_NAME = Inr None \<and> mf_record_count x = length ds
    | Inl _ \<Rightarrow> stored env d' ACTIVE_NAME = stored env d ACTIVE_NAME \<or> new"
proof -
  note wp_index_rebuild [where p = p, OF assms(1) reachable_index_ok [OF assms(1,2)] assms(3,4), of draws n]
  with assms(5) show ?thesis by (auto simp: wp_def rebuilt_def active_kept_def Let_def split: sum.split)
qed

definition sample_document :: index_document where
  "sample_document = \<lparr>xd_record_id = 7, xd_captured_at = Aware 0, xd_text = ''a'', xd_metadata = [], xd_privacy_class = REDACTED_CONTENT\<rparr>"

definition sample_embedder :: embedder where
  "sample_embedder q = (if eq_inputs q = [] then Inl (ValueError []) else Inr \<lparr>er_provider_id = ''p'', er_model_id = ''m'', er_vectors = map (\<lambda>_. [Fin 1]) (eq_inputs q)\<rparr>)"

definition sample_draw :: draw where
  "sample_draw = \<lparr>dw_data_key = [], dw_nonce = [], dw_fault = WRITE_DONE\<rparr>"

definition index_of_entries :: "index_entry list \<Rightarrow> json" where
  "index_of_entries es = encode_index_snapshot (tally_lib JNull) \<lparr>xs_model_id = ''m'', xs_dimensions = 1, xs_entries = es\<rparr>"

definition sealed_number :: "nat \<Rightarrow> json" where
  "sealed_number n = sealed_json sample_seal sample_key (replicate n 0) [] []"

definition sample_entry :: index_entry where
  "sample_entry = \<lparr>xe_record_id = 7, xe_captured_at = Aware 0, xe_vector = [1]\<rparr>"

definition sample_index :: index_env where
  "sample_index = \<lparr>ix_lib = table_lib [index_of_entries [sample_entry], sealed_number 1, index_of_entries [], sealed_number 3],
     ix_seal = sample_seal, ix_sqrt = id\<rparr>"

lemma sample_snapshot_json:
  "encode_index_snapshot (ix_lib sample_index) \<lparr>xs_model_id = ''m'', xs_dimensions = 1, xs_entries = es\<rparr> = index_of_entries es"
  by (simp add: sample_index_def table_lib_def index_of_entries_def encode_index_snapshot_def encode_index_entry_def [abs_def] tally_lib_def)

lemma sample_encrypt:
  "encrypt_snapshot lib sample_seal purpose aad sample_draw (replicate n 0) = Inr (bl_dumps lib (sealed_number n))"
  by (simp add: encrypt_snapshot_def sealed_number_def sample_draw_def)

lemma sealed_number_inj [simp]: "sealed_number m = sealed_number n \<longleftrightarrow> m = n"
  by (auto simp: sealed_number_def sealed_json_def sample_seal_def replicate_eq_replicate)

lemma sample_seals:
  "sealed_index sample_index sample_draw \<lparr>xs_model_id = ''m'', xs_dimensions = 1, xs_entries = [sample_entry]\<rparr> = Inr (replicate 2 0)"
  "sealed_index sample_index sample_draw \<lparr>xs_model_id = ''m'', xs_dimensions = 1, xs_entries = []\<rparr> = Inr (replicate 4 0)"
proof -
  have differ [simp]: "sealed_number i \<noteq> index_of_entries es" "index_of_entries [] \<noteq> index_of_entries [sample_entry]" for i es
    by (simp_all add: sealed_number_def sealed_json_def index_of_entries_def encode_index_snapshot_def)
  note differ(1) [symmetric, simp]
  let ?t = "[index_of_entries [sample_entry], sealed_number 1, index_of_entries [], sealed_number 3]"
  have lib: "ix_lib sample_index = table_lib ?t" "ix_seal sample_index = sample_seal" by (simp_all add: sample_index_def)
  have codes: "code_of ?t (index_of_entries [sample_entry]) = 0" "code_of ?t (index_of_entries []) = 2"
    "code_of ?t (sealed_number 1) = 1" "code_of ?t (sealed_number 3) = 3"
    by simp_all
  show "sealed_index sample_index sample_draw \<lparr>xs_model_id = ''m'', xs_dimensions = 1, xs_entries = [sample_entry]\<rparr> = Inr (replicate 2 0)"
    unfolding sealed_index_def sample_snapshot_json unfolding lib table_dumps codes sample_encrypt
    using codes(3) by (simp add: numeral_eq_Suc)
  show "sealed_index sample_index sample_draw \<lparr>xs_model_id = ''m'', xs_dimensions = 1, xs_entries = []\<rparr> = Inr (replicate 4 0)"
    unfolding sealed_index_def sample_snapshot_json unfolding lib table_dumps codes sample_encrypt
    using codes(4) by (simp add: numeral_eq_Suc)
qed

lemma sample_save:
  assumes "sealed_index sample_index sample_draw s = Inr (replicate k 0)" "k \<le> 4" "d (index_temporary name) = None"
  shows "index_save sample_index name sample_draw s d = (Inr (), d(name \<mapsto> replicate k 0))"
  using assms unfolding index_save_def sealed_index_def [symmetric]
  by (simp add: comp_defs MAX_SNAPSHOT_BYTES_def atomic_write_def) (simp add: sample_draw_def modifies_def)

lemma sample_embedded:
  "index_embedding_request [sample_document] = Inr \<lparr>eq_inputs = [''a''], eq_privacy_class = REDACTED_CONTENT, eq_model_hint = None\<rparr>"
  "sample_embedder \<lparr>eq_inputs = [''a''], eq_privacy_class = REDACTED_CONTENT, eq_model_hint = None\<rparr> =
    Inr \<lparr>er_provider_id = ''p'', er_model_id = ''m'', er_vectors = [[Fin 1]]\<rparr>"
  "validate_documents [sample_document] = Inr ()"
  by code_simp+

lemma sample_embedder_ok: "provider_ok sample_embedder"
proof -
  have "length (remdups (map (\<lambda>_. 1 :: nat) xs)) = 1" if "xs \<noteq> []" for xs :: "string list"
    using that by (simp add: length_remdups_card_conv image_constant_conv)
  moreover have "nonempty ''p''" "nonempty ''m''" by code_simp+
  ultimately show ?thesis
    by (auto simp: provider_ok_def sample_embedder_def mk_EmbeddingResponse_def comp_def bindS_Inr ensure_Inr image_constant_conv split: if_splits)
qed

lemma sample_rebuild:
  "\<exists>x. index_rebuild sample_index (\<lambda>_. sample_embedder) (\<lambda>_. sample_draw) [sample_document] 1 Map.empty = (Inr x, [ACTIVE_NAME \<mapsto> replicate 2 0])"
proof -
  have b: "batches (Suc 0) [sample_document] = [[sample_document]]" by (subst batches.simps, simp) (subst batches.simps, simp)
  have e: "index_entries [sample_document] \<lparr>er_provider_id = ''p'', er_model_id = ''m'', er_vectors = [[Fin 1]]\<rparr> = [sample_entry]"
    by (simp add: index_entries_def sample_document_def sample_entry_def)
  have v: "validate_response \<lparr>er_provider_id = ''p'', er_model_id = ''m'', er_vectors = [[Fin 1]]\<rparr> (Suc 0) = Inr ()"
    "response_dimension \<lparr>er_provider_id = ''p'', er_model_id = ''m'', er_vectors = [[Fin 1]]\<rparr> = 1"
    by (simp_all add: validate_response_def response_dimension_def)
  note save = sample_save [OF sample_seals(1)]
  have t: "index_temporary ACTIVE_NAME \<noteq> CHECKPOINT_NAME" by (simp add: index_temporary_def ACTIVE_NAME_def CHECKPOINT_NAME_def)
  show ?thesis unfolding index_rebuild_def
    by (simp add: bindE_def seqE_def lift_def require_def ret_def modifies_def sample_embedded index_load_stored b e v save t Let_def
        continue_model_def finish_rebuild_def fun_upd_idem)
qed

theorem rebuild_replaces_index_witness:
  "\<exists>x d'. index_rebuild sample_index (\<lambda>_. sample_embedder) (\<lambda>_. sample_draw) [sample_document] 1 Map.empty = (Inr x, d') \<and>
    (\<exists>s. stored sample_index d' ACTIVE_NAME = Inr (Some s) \<and> map xe_record_id (xs_entries s) = [7]) \<and> mf_record_count x = 1"
proof -
  obtain x where x: "index_rebuild sample_index (\<lambda>_. sample_embedder) (\<lambda>_. sample_draw) [sample_document] 1 Map.empty = (Inr x, [ACTIVE_NAME \<mapsto> replicate 2 0])"
    using sample_rebuild by blast
  have "index_lib_ok sample_index" by (simp add: sample_index_def table_index_ok)
  from rebuild_replaces_index [OF this run.intros(1) sample_embedder_ok _ x] x show ?thesis by (simp add: sample_document_def)
qed


end
