(* ===== verification/Activity_Safety.thy ===== *)
theory Activity_Safety
  imports Activity_Store Index_Safety
begin

text \<open>
  What the activities promise: segmentation partitions the records in time order without mixing policies or
  workspaces, a summary quotes the records of its activity, and a reconciled snapshot is loaded again and
  names only the records it was given.
\<close>

section \<open>Segmentation\<close>

definition separated :: "clustering_policy \<Rightarrow> (rat \<Rightarrow> rat) \<Rightarrow> activity_features list list \<Rightarrow> bool" where
  "separated p f gs \<longleftrightarrow> (\<forall>i. Suc i < length gs \<longrightarrow> continues p f (List.last (gs ! i)) (hd (gs ! Suc i)) = Inr False)"

definition groups_ok :: "clustering_policy \<Rightarrow> (rat \<Rightarrow> rat) \<Rightarrow> activity_features list list \<Rightarrow> bool" where
  "groups_ok p f gs \<longleftrightarrow> separated p f gs \<and>
    (\<forall>g \<in> set gs. g \<noteq> [] \<and> (\<forall>i. Suc i < length g \<longrightarrow> continues p f (g ! i) (g ! Suc i) = Inr True))"

lemma successive_snoc:
  assumes "\<forall>i. Suc i < length g \<longrightarrow> P (g ! i) (g ! Suc i)" "g \<noteq> []" "P (List.last g) x"
  shows "\<forall>i. Suc i < length (g @ [x]) \<longrightarrow> P ((g @ [x]) ! i) ((g @ [x]) ! Suc i)"
proof (intro allI impI)
  fix i assume i: "Suc i < length (g @ [x])"
  show "P ((g @ [x]) ! i) ((g @ [x]) ! Suc i)"
  proof (cases "Suc i < length g")
    case False
    then have "i = length g - 1" "Suc i = length g" using i assms(2) by auto
    then show ?thesis using assms(2,3) by (simp add: nth_append last_conv_nth)
  qed (use assms(1) in \<open>simp add: nth_append\<close>)
qed

lemma separated_grow:
  assumes "separated p f (gs @ [g])" "g \<noteq> []"
  shows "separated p f (gs @ [g @ [x]])"
  unfolding separated_def
proof (intro allI impI)
  fix i assume i: "Suc i < length (gs @ [g @ [x]])"
  have "continues p f (List.last ((gs @ [g]) ! i)) (hd ((gs @ [g]) ! Suc i)) = Inr False" using assms(1) i by (simp add: separated_def)
  then show "continues p f (List.last ((gs @ [g @ [x]]) ! i)) (hd ((gs @ [g @ [x]]) ! Suc i)) = Inr False"
    using i assms(2) by (auto simp: nth_append)
qed

lemma separated_split:
  assumes "separated p f (gs @ [g])" "continues p f (List.last g) x = Inr False"
  shows "separated p f ((gs @ [g]) @ [[x]])"
  using successive_snoc [of "gs @ [g]" "\<lambda>a b. continues p f (List.last a) (hd b) = Inr False" "[x]"] assms
  by (simp add: separated_def)

lemma grow_groups_ok:
  assumes "grow_groups p f before g xs = Inr gs" "groups_ok p f (before @ [g])"
  shows "groups_ok p f gs \<and> concat gs = concat before @ g @ xs"
  using assms
proof (induction xs arbitrary: before g)
  case (Cons x xs)
  then obtain same where same: "continues p f (List.last g) x = Inr same" by (auto simp: bindS_Inr)
  show ?case
  proof (cases same)
    case True
    have "groups_ok p f (before @ [g @ [x]])"
      using Cons.prems(2) same True separated_grow [of p f before g x] successive_snoc [of g "\<lambda>a b. continues p f a b = Inr True" x]
      by (auto simp: groups_ok_def)
    then show ?thesis using Cons.IH [of before "g @ [x]"] Cons.prems(1) same True by simp
  next
    case False
    have "groups_ok p f ((before @ [g]) @ [[x]])" using Cons.prems(2) same False separated_split [of p f before g x] by (auto simp: groups_ok_def)
    then show ?thesis using Cons.IH [of "before @ [g]" "[x]"] Cons.prems(1) same False by simp
  qed
qed auto

lemma mapS_list_all2: "mapS f xs = Inr ys \<longleftrightarrow> list_all2 (\<lambda>x y. f x = Inr y) xs ys"
  by (induction xs arbitrary: ys) (auto simp: bindS_Inr list_all2_Cons1)

definition cluster_from :: "activity_features list \<Rightarrow> activity_cluster \<Rightarrow> bool" where
  "cluster_from g c \<longleftrightarrow> cu_record_ids c = map af_record_id g \<and> distinct (cu_record_ids c) \<and>
    cu_started_at c = af_captured_at (hd g) \<and> cu_ended_at c = af_captured_at (List.last g) \<and> mk_ActivityCluster c = Inr c"

lemma cluster_of_from: "cluster_of g = Inr c \<Longrightarrow> cluster_from g c"
  by (auto simp: cluster_of_def mk_ActivityCluster_def bindS_Inr ensure_Inr cluster_from_def)

lemma segment_spec:
  assumes "segment lib f p fs = Inr cs"
  shows "\<exists>gs. groups_ok p f gs \<and> concat gs = sort_key (feature_key lib) fs \<and> list_all2 cluster_from gs cs"
proof (cases "sort_key (feature_key lib) fs")
  case Nil
  then show ?thesis using assms by (intro exI [of _ "[]"]) (simp add: segment_def groups_ok_def separated_def)
next
  case (Cons x xs)
  then obtain gs where gs: "grow_groups p f [] [x] xs = Inr gs" "mapS cluster_of gs = Inr cs"
    using assms by (auto simp: segment_def bindS_Inr)
  have "groups_ok p f gs \<and> concat gs = x # xs" using grow_groups_ok [OF gs(1)] by (simp add: groups_ok_def separated_def)
  moreover have "list_all2 cluster_from gs cs" using gs(2) unfolding mapS_list_all2 by (rule list_all2_mono) (rule cluster_of_from)
  ultimately show ?thesis using Cons by auto
qed

lemma segment_members:
  assumes "segment lib f p fs = Inr cs"
  shows "concat (map cu_record_ids cs) = map af_record_id (sort_key (feature_key lib) fs)" "\<And>c. c \<in> set cs \<Longrightarrow> mk_ActivityCluster c = Inr c"
proof -
  obtain gs where gs: "concat gs = sort_key (feature_key lib) fs" "list_all2 cluster_from gs cs" using segment_spec [OF assms] by blast
  have "concat (map cu_record_ids cs) = map af_record_id (concat gs)"
    using gs(2) by (induction rule: list_all2_induct) (auto simp: cluster_from_def)
  then show "concat (map cu_record_ids cs) = map af_record_id (sort_key (feature_key lib) fs)" using gs(1) by simp
  show "mk_ActivityCluster c = Inr c" if "c \<in> set cs" for c
    using gs(2) that by (induction rule: list_all2_induct) (auto simp: cluster_from_def)
qed

text \<open>What it means that a record continues an activity.\<close>

lemma continues_true:
  assumes "continues p f x y = Inr True"
  shows "af_policy_revision x = af_policy_revision y" "0 \<le> gap_seconds x y" "gap_seconds x y \<le> cp_max_gap p"
    "\<not> differ (af_workspace x) (af_workspace y)" "\<exists>s. semantic_similarity f (af_vector x) (af_vector y) = Inr (Some s) \<and> cp_minimum_semantic p \<le> s"
  using assms by (auto simp: continues_def Let_def bindS_Inr ensure_Inr not_less split: if_splits option.splits)

definition one_activity :: "clustering_policy \<Rightarrow> (rat \<Rightarrow> rat) \<Rightarrow> activity_features list \<Rightarrow> bool" where
  "one_activity p f g \<longleftrightarrow> g \<noteq> [] \<and> (\<forall>x \<in> set g. \<forall>y \<in> set g. af_policy_revision x = af_policy_revision y) \<and>
    (\<forall>i. Suc i < length g \<longrightarrow> 0 \<le> gap_seconds (g ! i) (g ! Suc i) \<and> gap_seconds (g ! i) (g ! Suc i) \<le> cp_max_gap p \<and>
      \<not> differ (af_workspace (g ! i)) (af_workspace (g ! Suc i)) \<and>
      (\<exists>s. semantic_similarity f (af_vector (g ! i)) (af_vector (g ! Suc i)) = Inr (Some s) \<and> cp_minimum_semantic p \<le> s))"

lemma steady_along:
  assumes "\<forall>i. Suc i < length g \<longrightarrow> h (g ! i) = h (g ! Suc i)" "x \<in> set g"
  shows "h x = h (hd g)"
proof -
  have "h (g ! i) = h (g ! 0)" if "i < length g" for i
    using that assms(1) by (induction i) auto
  then show ?thesis using assms(2) by (metis in_set_conv_nth hd_conv_nth length_pos_if_in_set length_greater_0_conv)
qed

lemma group_is_one_activity:
  assumes "groups_ok p f gs" "g \<in> set gs"
  shows "one_activity p f g"
proof -
  have g: "g \<noteq> []" "\<And>i. Suc i < length g \<Longrightarrow> continues p f (g ! i) (g ! Suc i) = Inr True"
    using assms by (auto simp: groups_ok_def)
  note c = continues_true [OF g(2)]
  have "\<forall>x \<in> set g. af_policy_revision x = af_policy_revision (hd g)"
    using steady_along [of g af_policy_revision] c(1) by blast
  then show ?thesis unfolding one_activity_def using g(1) c(2-5) by metis
qed

section \<open>Segmentation returns\<close>

definition comparable :: "activity_features list \<Rightarrow> bool" where
  "comparable fs \<longleftrightarrow> (\<exists>n. \<forall>x \<in> set fs. \<forall>v. af_vector x = Some v \<longrightarrow> length v = n)"

lemma continues_total:
  assumes "instant (af_captured_at x) \<le> instant (af_captured_at y)" "comparable [x, y]"
  shows "\<exists>b. continues p f x y = Inr b"
proof -
  have "0 \<le> gap_seconds x y" using assms(1) by (simp add: gap_seconds_def)
  moreover have "\<exists>s. semantic_similarity f (af_vector x) (af_vector y) = Inr s"
    using assms(2) by (auto simp: comparable_def semantic_similarity_def split: option.split)
  ultimately show ?thesis by (auto simp: continues_def Let_def split: option.split)
qed

lemma grow_groups_total:
  assumes "sorted (map (\<lambda>x. instant (af_captured_at x)) (List.last g # xs))" "comparable (List.last g # xs)"
  shows "\<exists>gs. grow_groups p f before g xs = Inr gs"
  using assms
proof (induction xs arbitrary: before g)
  case (Cons x xs)
  have "comparable [List.last g, x]" using Cons.prems(2) by (auto simp: comparable_def)
  then obtain b where b: "continues p f (List.last g) x = Inr b" using continues_total Cons.prems(1) by fastforce
  have "sorted (map (\<lambda>x. instant (af_captured_at x)) (x # xs))" "comparable (x # xs)"
    using Cons.prems by (auto simp: comparable_def)
  then show ?case using Cons.IH [of "g @ [x]" before] Cons.IH [of "[x]" "before @ [g]"] b by (cases b) simp_all
qed simp

lemma cluster_of_total:
  assumes "g \<noteq> []" "distinct (map af_record_id g)" "\<forall>x \<in> set g. is_aware (af_captured_at x)" "sorted (map (\<lambda>x. instant (af_captured_at x)) g)"
  shows "\<exists>c. cluster_of g = Inr c"
proof -
  have "instant (af_captured_at (hd g)) \<le> instant (af_captured_at (List.last g))"
    using assms(1,4) by (cases g) auto
  then show ?thesis using assms by (simp add: cluster_of_def mk_ActivityCluster_def)
qed

lemma mapS_returns: "(\<And>x. x \<in> set xs \<Longrightarrow> \<exists>y. f x = Inr y) \<Longrightarrow> \<exists>ys. mapS f xs = Inr ys"
proof (induction xs)
  case (Cons x xs)
  then obtain y ys where "f x = Inr y" "mapS f xs = Inr ys" by (metis list.set_intros)
  then show ?case by simp
qed simp

lemma sorted_part:
  assumes "sorted (map h (concat gs))" "g \<in> set gs"
  shows "sorted (map h g)"
  using assms by (induction gs) (auto simp: sorted_append)

lemma segment_total:
  assumes "distinct (map af_record_id fs)" "\<forall>x \<in> set fs. is_aware (af_captured_at x)" "comparable fs"
  shows "\<exists>cs. segment lib f p fs = Inr cs"
proof (cases "sort_key (feature_key lib) fs")
  case (Cons x xs)
  have "sorted (map (feature_key lib) (x # xs))" by (metis Cons sorted_sort_key)
  then have sorted: "sorted (map (\<lambda>x. instant (af_captured_at x)) (x # xs))"
    unfolding sorted_map by (rule sorted_wrt_mono_rel [rotated]) (auto simp: feature_key_def less_eq_prod_def)
  have same: "set (x # xs) = set fs" by (metis Cons set_sort)
  have "mset (map af_record_id (x # xs)) = mset (map af_record_id fs)" by (metis Cons mset_map mset_sort)
  then have dist: "distinct (map af_record_id (x # xs))" using assms(1) mset_eq_imp_distinct_iff by metis
  have "comparable (x # xs)" using assms(3) unfolding comparable_def same .
  then obtain gs where gs: "grow_groups p f [] [x] xs = Inr gs" using grow_groups_total [of "[x]" xs p f "[]"] sorted by auto
  have g: "groups_ok p f gs" "concat gs = x # xs" using grow_groups_ok [OF gs] by (simp_all add: groups_ok_def separated_def)
  have "\<exists>c. cluster_of g = Inr c" if "g \<in> set gs" for g
  proof (rule cluster_of_total)
    show "g \<noteq> []" using g(1) that by (simp add: groups_ok_def)
    show "\<forall>x \<in> set g. is_aware (af_captured_at x)" using that g(2) same assms(2) by (metis UN_I set_concat)
    show "sorted (map (\<lambda>x. instant (af_captured_at x)) g)" using sorted_part [of _ gs g] that sorted unfolding g(2) [symmetric] by blast
    show "distinct (map af_record_id g)" using dist that unfolding g(2) [symmetric] map_concat by (auto simp: distinct_concat_iff)
  qed
  then show ?thesis using mapS_returns [of gs cluster_of] gs Cons by (auto simp: segment_def)
qed (simp add: segment_def)

section \<open>Summaries\<close>

lemma occurs_in_iff: "occurs_in x t \<longleftrightarrow> (\<exists>a b. t = a @ x @ b)"
proof (induction x t rule: occurs_in.induct)
  case (2 x c t)
  have "take (length x) (c # t) = x \<longleftrightarrow> (\<exists>b. c # t = x @ b)"
    by (metis append_eq_conv_conj append_take_drop_id)
  then show ?case using 2 by (metis append_Cons append_Nil append_eq_Cons_conv occurs_in.simps(2))
qed auto

definition quotes :: "redacted_record list \<Rightarrow> evidence \<Rightarrow> bool" where
  "quotes rs ev \<longleftrightarrow> distinct (map fst ev) \<and>
    (\<forall>(u, x) \<in> set ev. x \<noteq> [] \<and> (\<exists>r a b. r \<in> set rs \<and> xr_record_id r = u \<and> record_text r = a @ x @ b))"

lemma record_with_Some: "record_with rs u = Some r \<Longrightarrow> r \<in> set rs \<and> xr_record_id r = u"
  by (auto simp: record_with_def dest: map_of_SomeD)

lemma excerpt_quotes:
  assumes "check_excerpt lib rs j ev = Inr ev'" "quotes rs ev"
  shows "quotes rs ev'"
proof -
  obtain u x r where "ev' = ev @ [(u, x)]" "record_with rs u = Some r" "u \<notin> fst ` set ev" "x \<noteq> []" "occurs_in x (record_text r)"
    using assms(1) by (auto simp: check_excerpt_def bindS_Inr ensure_Inr split: json.splits option.splits prod.splits)
  then show ?thesis using assms(2) record_with_Some [of rs u r] by (auto simp: quotes_def occurs_in_iff)
qed

lemma evidence_quotes: "foldS (check_excerpt lib rs) js ev = Inr ev' \<Longrightarrow> quotes rs ev \<Longrightarrow> quotes rs ev'"
  by (induction js arbitrary: ev) (auto simp: bindS_Inr dest: excerpt_quotes)

lemma summary_quotes:
  assumes "summarize env c rs = Inr s"
  shows "mk_ActivitySummary s = Inr s" "set (map xr_record_id rs) = set (cu_record_ids c)"
    "\<exists>ev. quotes rs ev \<and> su_text s = join_lines (map snd ev) \<and> su_record_ids s = map fst ev"
    "\<exists>caps. gp_capabilities (ae_summaries env) = Inr caps \<and> pc_location caps = LOCAL \<and> accepts caps REDACTED_CONTENT"
proof -
  obtain caps ev and response :: generation_response where parts: "validate_membership c rs = Inr ()" "gp_capabilities (ae_summaries env) = Inr caps" "require_generation caps = Inr ()"
    "validate_evidence env (ge_text response) rs = Inr ev"
    "mk_ActivitySummary \<lparr>su_text = join_lines (map snd ev), su_record_ids = map fst ev,
      su_provider_id = ge_provider_id response, su_model_id = ge_model_id response\<rparr> = Inr s"
    using assms by (auto simp: summarize_def bindS_Inr Let_def)
  have s: "s = \<lparr>su_text = join_lines (map snd ev), su_record_ids = map fst ev, su_provider_id = ge_provider_id response, su_model_id = ge_model_id response\<rparr>"
    using parts(5) by (auto simp: mk_ActivitySummary_def bindS_Inr ensure_Inr)
  show "mk_ActivitySummary s = Inr s" using parts(5) s by simp
  show "set (map xr_record_id rs) = set (cu_record_ids c)" using parts(1) by (auto simp: validate_membership_def bindS_Inr ensure_Inr)
  have "quotes rs []" by (simp add: quotes_def)
  then have "quotes rs ev" using parts(4) evidence_quotes [of "ae_lib env" rs _ "[]" ev]
    by (auto simp: validate_evidence_def bindS_Inr split: option.splits json.splits)
  then show "\<exists>ev. quotes rs ev \<and> su_text s = join_lines (map snd ev) \<and> su_record_ids s = map fst ev" using s by auto
  show "\<exists>caps. gp_capabilities (ae_summaries env) = Inr caps \<and> pc_location caps = LOCAL \<and> accepts caps REDACTED_CONTENT"
    using parts(2,3) by (auto simp: require_generation_def bindS_Inr ensure_Inr)
qed

section \<open>The snapshot file\<close>

definition activity_lib_ok :: "activity_env \<Rightarrow> bool" where
  "activity_lib_ok env \<longleftrightarrow> seal_lib_ok (ae_lib env) (ae_seal env) \<and>
    (\<forall>s. bl_loads (ae_lib env) (bl_dumps (ae_lib env) (encode_activity (ae_lib env) s)) = Some (encode_activity (ae_lib env) s)) \<and>
    (\<forall>t. is_aware t \<longrightarrow> bl_from_iso (ae_lib env) (bl_iso (ae_lib env) t) = Some t) \<and>
    (\<forall>u. bl_uuid (ae_lib env) (bl_uuid_str (ae_lib env) u) = Some u)"

definition entry_wf :: "activity_entry \<Rightarrow> bool" where
  "entry_wf e \<longleftrightarrow> mk_ActivityEntry e = Inr e \<and> mk_ActivityCluster (ay_cluster e) = Inr (ay_cluster e) \<and>
    (\<forall>s. ay_summary e = Some s \<longrightarrow> mk_ActivitySummary s = Inr s)"

definition snapshot_wf :: "activity_snapshot \<Rightarrow> bool" where
  "snapshot_wf s \<longleftrightarrow> list_all entry_wf s \<and> mk_ActivitySnapshot s = Inr s"

lemma decode_encoded_ids:
  "(\<forall>u. bl_uuid lib (bl_uuid_str lib u) = Some u) \<Longrightarrow> decode_ids lib (map (\<lambda>u. JStr (bl_uuid_str lib u)) ids) = Some ids"
  unfolding decode_ids_def by (intro all_some_map) simp

lemma decode_encoded_cluster:
  assumes ok: "activity_lib_ok env" and c: "mk_ActivityCluster c = Inr c"
  shows "\<exists>raw. encode_cluster (ae_lib env) c = JObj raw \<and> decode_cluster (ae_lib env) raw = Some c"
proof -
  have "is_aware (cu_started_at c)" "is_aware (cu_ended_at c)" using c by (auto simp: mk_ActivityCluster_def bindS_Inr ensure_Inr)
  then have "bl_from_iso (ae_lib env) (bl_iso (ae_lib env) (cu_started_at c)) = Some (cu_started_at c)"
    "bl_from_iso (ae_lib env) (bl_iso (ae_lib env) (cu_ended_at c)) = Some (cu_ended_at c)" using ok by (simp_all add: activity_lib_ok_def)
  moreover have "decode_ids (ae_lib env) (map (\<lambda>u. JStr (bl_uuid_str (ae_lib env) u)) (cu_record_ids c)) = Some (cu_record_ids c)"
    using ok by (intro decode_encoded_ids) (simp add: activity_lib_ok_def)
  ultimately show ?thesis using c by (cases c) (auto simp: encode_cluster_def decode_cluster_def encode_ids_def arr_at_def str_at_def)
qed

lemma decode_encoded_summary:
  assumes ok: "activity_lib_ok env" and s: "\<And>x. s = Some x \<Longrightarrow> mk_ActivitySummary x = Inr x"
  shows "decode_optional_summary (ae_lib env) (encode_summary (ae_lib env) s) = Some s"
proof (cases s)
  case (Some x)
  have "decode_ids (ae_lib env) (map (\<lambda>u. JStr (bl_uuid_str (ae_lib env) u)) (su_record_ids x)) = Some (su_record_ids x)"
    using ok by (intro decode_encoded_ids) (simp add: activity_lib_ok_def)
  then show ?thesis using s [OF Some]
    by (cases x) (auto simp: Some encode_summary_def decode_optional_summary_def decode_summary_def encode_ids_def arr_at_def str_at_def)
qed (simp add: encode_summary_def decode_optional_summary_def)

lemma decode_encoded_activity_entry:
  assumes ok: "activity_lib_ok env" and e: "entry_wf e"
  shows "decode_activity_entry (ae_lib env) (encode_activity_entry (ae_lib env) e) = Some e"
proof -
  obtain raw where raw: "encode_cluster (ae_lib env) (ay_cluster e) = JObj raw" "decode_cluster (ae_lib env) raw = Some (ay_cluster e)"
    using decode_encoded_cluster [OF ok] e by (auto simp: entry_wf_def)
  have "decode_optional_summary (ae_lib env) (encode_summary (ae_lib env) (ay_summary e)) = Some (ay_summary e)"
    using e by (intro decode_encoded_summary [OF ok]) (simp add: entry_wf_def)
  moreover have "all_some json_str (map JStr (ay_policy_revisions e)) = Some (ay_policy_revisions e)" by (rule all_some_map) simp
  ultimately show ?thesis using raw e unfolding entry_wf_def
    by (cases e) (auto simp: decode_activity_entry_def encode_activity_entry_def obj_at_def arr_at_def str_at_def)
qed

lemma decode_encoded_activity:
  assumes ok: "activity_lib_ok env" and s: "snapshot_wf s"
  shows "decode_activity (ae_lib env) (bl_dumps (ae_lib env) (encode_activity (ae_lib env) s)) = Some s"
proof -
  have "all_some (decode_activity_entry (ae_lib env)) (map (encode_activity_entry (ae_lib env)) s) = Some s"
    using s by (intro all_some_map decode_encoded_activity_entry [OF ok]) (auto simp: snapshot_wf_def list_all_iff)
  moreover have "bl_loads (ae_lib env) (bl_dumps (ae_lib env) (encode_activity (ae_lib env) s)) = Some (encode_activity (ae_lib env) s)"
    using ok by (simp add: activity_lib_ok_def)
  ultimately show ?thesis using s unfolding decode_activity_def
    by (simp add: encode_activity_def arr_at_def snapshot_wf_def)
qed

section \<open>Loading and replacing\<close>

definition activity_stored :: "activity_env \<Rightarrow> directory \<Rightarrow> exn + activity_snapshot option" where
  "activity_stored env d = fst (activity_load env d)"

lemma activity_load_stored: "activity_load env d = (activity_stored env d, d)"
proof -
  have "leaves id (activity_load env)"
    unfolding activity_load_def by (auto intro!: leaves_bindE leaves_option)
  then show ?thesis by (simp add: activity_stored_def leaves_def prod_eq_iff)
qed

lemma wp_activity_load [wp_rules]:
  "wp (activity_load env) Q E = (\<lambda>d. case activity_stored env d of Inl e \<Rightarrow> E e d | Inr s \<Rightarrow> Q s d)"
  by (rule ext) (simp add: wp_def activity_load_stored split: sum.split)

lemma activity_stored_cong: "d ACTIVITY_NAME = d' ACTIVITY_NAME \<Longrightarrow> activity_stored env d = activity_stored env d'"
  by (simp add: activity_stored_def activity_load_def comp_defs split: option.split sum.split)

lemma activity_stored_none [simp]: "d ACTIVITY_NAME = None \<Longrightarrow> activity_stored env d = Inr None"
  by (simp add: activity_stored_def activity_load_def comp_defs)

lemma built_Some: "built r = Some x \<longleftrightarrow> r = Inr x"
  by (cases r) auto

lemma constructed:
  "mk_ActivityCluster c = Inr c' \<Longrightarrow> c' = c" "mk_ActivitySummary s = Inr s' \<Longrightarrow> s' = s"
  "mk_ActivityEntry e = Inr e' \<Longrightarrow> e' = e" "mk_ActivitySnapshot es = Inr es' \<Longrightarrow> es' = es"
  by (auto simp: mk_ActivityCluster_def mk_ActivitySummary_def mk_ActivityEntry_def mk_ActivitySnapshot_def bindS_Inr)

lemma all_some_from: "all_some f xs = Some ys \<Longrightarrow> y \<in> set ys \<Longrightarrow> \<exists>x. f x = Some y"
  by (induction xs arbitrary: ys) (auto split: bind_splits)

lemma decode_cluster_wf: "decode_cluster lib raw = Some c \<Longrightarrow> mk_ActivityCluster c = Inr c"
  by (auto simp: decode_cluster_def built_Some dest: constructed(1) split: if_splits bind_splits)

lemma decode_summary_wf: "decode_optional_summary lib j = Some (Some s) \<Longrightarrow> mk_ActivitySummary s = Inr s"
  by (auto simp: decode_optional_summary_def decode_summary_def built_Some dest: constructed(2) split: json.splits if_splits bind_splits)

lemma decode_activity_entry_wf:
  assumes "decode_activity_entry lib j = Some e"
  shows "entry_wf e"
proof -
  obtain raw where j: "j = JObj raw" using assms by (cases j) (simp_all add: decode_activity_entry_def)
  obtain c s fp rv raw_c js where parts: "decode_cluster lib raw_c = Some c" "decode_optional_summary lib js = Some s"
    "mk_ActivityEntry \<lparr>ay_cluster = c, ay_summary = s, ay_policy_revisions = rv, ay_fingerprint = fp\<rparr> = Inr e"
    using assms by (auto simp: decode_activity_entry_def j Option.bind_eq_Some_conv built_Some split: if_splits)
  then have "e = \<lparr>ay_cluster = c, ay_summary = s, ay_policy_revisions = rv, ay_fingerprint = fp\<rparr>" by (blast dest: constructed(3))
  then show ?thesis using parts decode_cluster_wf [OF parts(1)] decode_summary_wf [of lib js] by (simp add: entry_wf_def)
qed

lemma decode_activity_wf:
  assumes "decode_activity lib payload = Some s"
  shows "snapshot_wf s"
proof -
  obtain raw where raw: "bl_loads lib payload = Some (JObj raw)"
    using assms by (auto simp: decode_activity_def split: option.splits json.splits)
  obtain es js where es: "all_some (decode_activity_entry lib) js = Some es" "mk_ActivitySnapshot es = Inr s"
    using assms by (auto simp: decode_activity_def raw Option.bind_eq_Some_conv built_Some split: if_splits)
  then have "s = es" by (blast dest: constructed(4))
  then show ?thesis using es all_some_from [OF es(1)] decode_activity_entry_wf by (fastforce simp: snapshot_wf_def list_all_iff)
qed

lemma activity_stored_wf: "activity_stored env d = Inr (Some s) \<Longrightarrow> snapshot_wf s"
  by (auto simp: activity_stored_def activity_load_def comp_defs dest: decode_activity_wf split: option.splits sum.splits)

definition sealed_activity :: "activity_env \<Rightarrow> draw \<Rightarrow> activity_snapshot \<Rightarrow> exn + byte list" where
  "sealed_activity env d s = encrypt_snapshot (ae_lib env) (ae_seal env) KEY_SUMMARY ACTIVITY_AAD d
     (bl_dumps (ae_lib env) (encode_activity (ae_lib env) s))"

lemma stored_sealed_activity:
  assumes ok: "activity_lib_ok env" and s: "snapshot_wf s" and sealed: "sealed_activity env dr s = Inr payload"
    and size: "length payload \<le> MAX_ACTIVITY_BYTES" and nonce: "length (dw_nonce dr) = NONCE_BYTES"
    and d: "d ACTIVITY_NAME = Some payload"
  shows "activity_stored env d = Inr (Some s)"
proof -
  have "seal_lib_ok (ae_lib env) (ae_seal env)" using ok by (simp add: activity_lib_ok_def)
  from encrypted_snapshot_opens [OF this sealed [unfolded sealed_activity_def]] obtain x where
    "parse_sealed (ae_lib env) (ae_seal env) payload = Some x" "sd_nonce x = dw_nonce dr"
    "open_sealed (ae_seal env) ACTIVITY_AAD (ActivityStoreFailure ''activity snapshot authentication failed'') x =
      Inr (bl_dumps (ae_lib env) (encode_activity (ae_lib env) s))" by blast
  then show ?thesis using size nonce d decode_encoded_activity [OF ok s]
    by (simp add: activity_stored_def activity_load_def comp_defs read_activity_file_def activity_decrypt_def)
qed

lemma wp_activity_replace:
  assumes ok: "activity_lib_ok env" and s: "snapshot_wf s" and nonce: "length (dw_nonce dr) = NONCE_BYTES"
  shows "wp (activity_replace env dr s) (\<lambda>_ d'. activity_stored env d' = Inr (Some s))
    (\<lambda>e d'. activity_stored env d' = activity_stored env d \<or> activity_stored env d' = Inr (Some s)) d"
    (is "wp _ ?Q ?E d")
proof -
  have "length (activity_temporary env) \<noteq> length ACTIVITY_NAME" by (simp add: activity_temporary_def)
  then have names: "activity_temporary env \<noteq> ACTIVITY_NAME" by metis
  have "wp (atomic_write (activity_temporary env) ACTIVITY_NAME (dw_fault dr) payload) ?Q ?E d"
    if payload: "sealed_activity env dr s = Inr payload" "length payload \<le> MAX_ACTIVITY_BYTES" for payload
  proof (cases "d (activity_temporary env)")
    case None
    have new: "activity_stored env d' = Inr (Some s)" if "d' ACTIVITY_NAME = Some payload" for d'
      by (rule stored_sealed_activity [where d = d', OF ok s payload nonce that])
    have old: "activity_stored env d' = activity_stored env d" if "d' ACTIVITY_NAME = d ACTIVITY_NAME" for d'
      using that by (rule activity_stored_cong)
    show ?thesis
    proof (rule wp_mono [OF wp_atomic_write [of "activity_temporary env" ACTIVITY_NAME d, OF names None]], goal_cases)
      case (1 x d')
      then show ?case using new [of d'] by simp
    next
      case (2 e d')
      then show ?case using new [of d'] old [of d'] by blast
    qed
  next
    case (Some x)
    then show ?thesis by (simp add: wp_def atomic_write_wedged)
  qed
  then show ?thesis unfolding activity_replace_def sealed_activity_def [symmetric]
    by (simp add: wp_rules split: sum.split)
qed

section \<open>Reconciliation\<close>

lemma length_assign [simp]: "length (assign_vectors ps vs) = length ps"
  by (induction ps arbitrary: vs) (auto split: list.split)

lemma features_ids:
  assumes "extract_features encode p rs = Inr fs"
  shows "map af_record_id fs = map xr_record_id rs"
proof (cases "rs = []")
  case False
  then obtain ps vs where ps: "mapS (prepare_record encode) rs = Inr ps"
    and fs: "mapS (\<lambda>(r, q, v). features_of r q v) (zip rs (zip ps (assign_vectors ps vs))) = Inr fs"
    using assms by (auto simp: extract_features_def bindS_Inr)
  have "length ps = length rs" using ps by (auto simp: mapS_list_all2 dest: list_all2_lengthD)
  moreover have "map af_record_id fs = map (xr_record_id \<circ> fst) (zip rs (zip ps (assign_vectors ps vs)))"
    using fs unfolding mapS_list_all2
    by (induction rule: list_all2_induct) (auto simp: features_of_def mk_ActivityRecordFeatures_def bindS_Inr)
  ultimately show ?thesis by (simp flip: map_map)
qed (use assms in \<open>simp add: extract_features_def\<close>)

lemma prior_in: "prior_entry (Some s) ids fp = Some e \<Longrightarrow> e \<in> set s"
  by (auto simp: prior_entry_def dest: map_of_SomeD)

lemma optional_summary_Some: "optional_summary r = Inr (Some s) \<Longrightarrow> r = Inr s"
  by (auto simp: optional_summary_def split: sum.splits exn.splits)

lemma reconciled_cluster:
  assumes "reconcile_cluster env previous rs c = Inr e" "mk_ActivityCluster c = Inr c" "\<And>s. previous = Some s \<Longrightarrow> snapshot_wf s"
  shows "entry_wf e \<and> ay_cluster e = c"
proof -
  let ?cr = "List.map_filter (record_with rs) (cu_record_ids c)"
  let ?prior = "prior_entry previous (cu_record_ids c) (source_fingerprint env ?cr)"
  obtain summary where summary: "(case Option.bind ?prior ay_summary of Some s \<Rightarrow> Inr (Some s) | None \<Rightarrow> optional_summary (summarize env c ?cr)) = Inr summary"
    and e: "mk_ActivityEntry \<lparr>ay_cluster = c, ay_summary = summary, ay_policy_revisions = policy_revisions ?cr, ay_fingerprint = source_fingerprint env ?cr\<rparr> = Inr e"
    using assms(1) by (auto simp: reconcile_cluster_def Let_def bindS_Inr)
  have wf: "mk_ActivitySummary s = Inr s" if s: "summary = Some s" for s
  proof (cases "Option.bind ?prior ay_summary")
    case None
    then show ?thesis using summary s by (auto dest: optional_summary_Some summary_quotes(1))
  next
    case (Some t)
    then obtain pe old where "previous = Some old" "pe \<in> set old" "ay_summary pe = Some t"
      by (cases previous) (auto simp: Option.bind_eq_Some_conv dest: prior_in, auto simp: prior_entry_def)
    then show ?thesis using assms(3) Some summary s by (auto simp: snapshot_wf_def list_all_iff entry_wf_def)
  qed
  then show ?thesis using constructed(3) [OF e] e assms(2) by (simp add: entry_wf_def)
qed

text \<open>Where the summary of an entry comes from: the previous snapshot, for the same records, or excerpts of the records.\<close>

definition carried :: "activity_snapshot option \<Rightarrow> activity_entry \<Rightarrow> activity_summary \<Rightarrow> bool" where
  "carried previous e t \<longleftrightarrow> (\<exists>old pe. previous = Some old \<and> pe \<in> set old \<and> ay_summary pe = Some t \<and>
    cu_record_ids (ay_cluster pe) = cu_record_ids (ay_cluster e) \<and> ay_fingerprint pe = ay_fingerprint e)"

definition quoted :: "redacted_record list \<Rightarrow> activity_entry \<Rightarrow> activity_summary \<Rightarrow> bool" where
  "quoted rs e t \<longleftrightarrow> (\<exists>ev. quotes (filter (\<lambda>r. xr_record_id r \<in> set (cu_record_ids (ay_cluster e))) rs) ev \<and>
    su_text t = join_lines (map snd ev) \<and> su_record_ids t = map fst ev)"

lemma prior_same: "prior_entry (Some s) ids fp = Some e \<Longrightarrow> e \<in> set s \<and> cu_record_ids (ay_cluster e) = ids \<and> ay_fingerprint e = fp"
  by (auto simp: prior_entry_def dest: map_of_SomeD)

lemma quotes_mono: "quotes rs ev \<Longrightarrow> set rs \<subseteq> set rs' \<Longrightarrow> quotes rs' ev"
  by (fastforce simp: quotes_def)

lemma reconciled_summary:
  assumes "reconcile_cluster env previous rs c = Inr e" "ay_summary e = Some t"
  shows "carried previous e t \<or> quoted rs e t"
proof -
  let ?cr = "List.map_filter (record_with rs) (cu_record_ids c)"
  let ?fp = "source_fingerprint env ?cr"
  let ?prior = "prior_entry previous (cu_record_ids c) ?fp"
  have summary: "(case Option.bind ?prior ay_summary of Some s \<Rightarrow> Inr (Some s) | None \<Rightarrow> optional_summary (summarize env c ?cr)) = Inr (Some t)"
    and e: "ay_cluster e = c" "ay_fingerprint e = ?fp"
    using assms by (auto simp: reconcile_cluster_def Let_def bindS_Inr dest: constructed(3))
  show ?thesis
  proof (cases "Option.bind ?prior ay_summary")
    case None
    then have "summarize env c ?cr = Inr t" using summary by (auto dest: optional_summary_Some)
    from summary_quotes(3) [OF this] obtain ev where ev: "quotes ?cr ev" "su_text t = join_lines (map snd ev)" "su_record_ids t = map fst ev" by blast
    have "set ?cr \<subseteq> set (filter (\<lambda>r. xr_record_id r \<in> set (cu_record_ids c)) rs)"
      by (auto simp: map_filter_def dest: record_with_Some)
    from quotes_mono [OF ev(1) this] show ?thesis using ev(2,3) e(1) by (auto simp: quoted_def)
  next
    case (Some u)
    then obtain pe where pe: "?prior = Some pe" "ay_summary pe = Some t" using summary by (auto simp: Option.bind_eq_Some_conv)
    then obtain old where "previous = Some old" by (cases previous) (auto simp: prior_entry_def)
    then show ?thesis using pe prior_same [of old _ _ pe] e by (auto simp: carried_def)
  qed
qed

definition grounded :: "activity_snapshot option \<Rightarrow> redacted_record list \<Rightarrow> activity_snapshot \<Rightarrow> bool" where
  "grounded previous rs s \<longleftrightarrow> distinct (snapshot_members s) \<and> set (snapshot_members s) = set (map xr_record_id rs) \<and>
    (\<forall>e \<in> set s. \<forall>t. ay_summary e = Some t \<longrightarrow> carried previous e t \<or> quoted rs e t)"

lemma entries_grounded:
  assumes previous: "\<And>old. previous = Some old \<Longrightarrow> snapshot_wf old" and fs: "extract_features (ae_utf8 env) (ae_embedding env) rs = Inr fs"
    and cs: "segment (ae_lib env) (ae_sqrt env) (ae_policy env) fs = Inr cs" and es: "mapS (reconcile_cluster env previous rs) cs = Inr es"
    and s: "mk_ActivitySnapshot es = Inr s"
  shows "snapshot_wf s" "grounded previous rs s"
proof -
  note members = segment_members [OF cs]
  have entry: "entry_wf e \<and> ay_cluster e = c \<and> (\<forall>t. ay_summary e = Some t \<longrightarrow> carried previous e t \<or> quoted rs e t)"
    if "c \<in> set cs" "reconcile_cluster env previous rs c = Inr e" for c e
    using reconciled_cluster [OF that(2) members(2) [OF that(1)] previous] reconciled_summary [OF that(2)] by blast
  have "list_all2 (\<lambda>c e. entry_wf e \<and> ay_cluster e = c \<and> (\<forall>t. ay_summary e = Some t \<longrightarrow> carried previous e t \<or> quoted rs e t)) cs es"
    using es unfolding mapS_list_all2 by (rule list.rel_mono_strong) (rule entry)
  then have all: "list_all entry_wf es" "map ay_cluster es = cs" "\<forall>e \<in> set es. \<forall>t. ay_summary e = Some t \<longrightarrow> carried previous e t \<or> quoted rs e t"
    by (induction rule: list_all2_induct) auto
  have [simp]: "s = es" using constructed(4) [OF s] .
  show "snapshot_wf s" using s all(1) by (simp add: snapshot_wf_def)
  have "snapshot_members s = concat (map cu_record_ids (map ay_cluster es))" by (simp add: snapshot_members_def comp_def)
  also have "\<dots> = map af_record_id (sort_key (feature_key (ae_lib env)) fs)" unfolding all(2) by (rule members(1))
  finally have "set (snapshot_members s) = set (map af_record_id fs)" by simp
  moreover have "distinct (snapshot_members s)" using s by (auto simp: mk_ActivitySnapshot_def bindS_Inr ensure_Inr)
  ultimately show "grounded previous rs s" using all(3) unfolding features_ids [OF fs] by (simp add: grounded_def)
qed

lemma wp_reconcile_grounded:
  assumes ok: "activity_lib_ok env" and nonce: "length (dw_nonce dr) = NONCE_BYTES" and previous: "activity_stored env d = Inr previous"
  shows "wp (activity_reconcile env dr rs) (\<lambda>s d'. activity_stored env d' = Inr (Some s) \<and> grounded previous rs s)
    (\<lambda>_ d'. activity_stored env d' = Inr previous \<or> (\<exists>s. activity_stored env d' = Inr (Some s) \<and> grounded previous rs s)) d"
    (is "wp _ ?Q ?E d")
proof -
  have replace: "wp (seqE (activity_replace env dr s) (ret s)) ?Q ?E d" if "snapshot_wf s" "grounded previous rs s" for s
    unfolding wp_seqE wp_ret by (rule wp_mono [OF wp_activity_replace [OF ok that(1) nonce]]) (use that(2) previous in auto)
  have "snapshot_wf old" if "previous = Some old" for old using that previous activity_stored_wf by simp
  note entries = entries_grounded [OF this]
  have "wp (seqE (activity_replace env dr s) (ret s)) ?Q ?E d"
    if "extract_features (ae_utf8 env) (ae_embedding env) rs = Inr fs" "segment (ae_lib env) (ae_sqrt env) (ae_policy env) fs = Inr cs"
      "mapS (reconcile_cluster env previous rs) cs = Inr es" "mk_ActivitySnapshot es = Inr s" for fs cs es s
    by (rule replace [OF entries [OF _ that]]) auto
  moreover have "wp (seqE (activity_replace env dr []) (ret [])) ?Q ?E d" if "rs = []"
    using that by (intro replace) (simp_all add: snapshot_wf_def mk_ActivitySnapshot_def snapshot_members_def grounded_def)
  ultimately show ?thesis unfolding activity_reconcile_def using previous
    by (auto simp: wp_bindE wp_seqE wp_lift wp_require wp_activity_load mk_ActivitySnapshot_def snapshot_members_def split: sum.split)
qed

definition reconciled :: "activity_env \<Rightarrow> redacted_record list \<Rightarrow> directory \<Rightarrow> bool" where
  "reconciled env rs d \<longleftrightarrow> (\<exists>s. activity_stored env d = Inr (Some s) \<and> set (snapshot_members s) = set (map xr_record_id rs))"

lemma wp_activity_reconcile:
  assumes ok: "activity_lib_ok env" and nonce: "length (dw_nonce dr) = NONCE_BYTES"
  shows "wp (activity_reconcile env dr rs) (\<lambda>_. reconciled env rs)
    (\<lambda>_ d'. activity_stored env d' = activity_stored env d \<or> reconciled env rs d') d"
proof (cases "activity_stored env d")
  case (Inl e)
  then show ?thesis by (simp add: activity_reconcile_def wp_bindE wp_activity_load)
next
  case (Inr previous)
  show ?thesis by (rule wp_mono [OF wp_reconcile_grounded [OF ok nonce Inr]]) (auto simp: reconciled_def grounded_def Inr)
qed

section \<open>A concrete activity\<close>

definition desk_record :: redacted_record where
  "desk_record = \<lparr>xr_record_id = 5, xr_frame = \<lparr>xf_frame_id = 1, xf_generation = CaptureGeneration 1, xf_captured_at = Aware 0,
     xf_width = 2, xf_height = 1, xf_stride = 6, xf_format = RGB8, xf_pixels = [9, 9, 9, 0, 0, 0],
     xf_metadata = \<lparr>md_observed_at = Aware 0, md_fields = []\<rparr>, xf_ocr_text = [''Hello''], xf_findings = [],
     xf_policy_revision = ''r1'', xf_allowlist = []\<rparr>, xr_created_at = Aware 0\<rparr>"

definition desk_model :: provider_capabilities where
  "desk_model = \<lparr>pc_provider_id = ''p'', pc_location = LOCAL, pc_capabilities = {EMBEDDING, GENERATION}, pc_accepted = {REDACTED_CONTENT},
     pc_max_input_bytes = 4096, pc_supports_vision = False, pc_max_context_tokens = None, pc_structured_output = True, pc_available = True\<rparr>"

definition desk_summary :: activity_summary where
  "desk_summary = \<lparr>su_text = ''ell'', su_record_ids = [5], su_provider_id = ''p'', su_model_id = ''m''\<rparr>"

definition desk_entry :: activity_entry where
  "desk_entry = \<lparr>ay_cluster = \<lparr>cu_record_ids = [5], cu_started_at = Aware 0, cu_ended_at = Aware 0\<rparr>, ay_summary = Some desk_summary,
     ay_policy_revisions = [''r1''], ay_fingerprint = replicate 64 (CHR ''0'')\<rparr>"

definition desk_nonce :: "byte list" where
  "desk_nonce = replicate 24 0"

definition desk_draw :: draw where
  "desk_draw = \<lparr>dw_data_key = [], dw_nonce = desk_nonce, dw_fault = WRITE_DONE\<rparr>"

definition desk_table :: "json list" where
  "desk_table = [encode_activity (tally_lib JNull) [desk_entry], sealed_json sample_seal sample_key [0] desk_nonce []]"

definition desk_env :: activity_env where
  "desk_env = \<lparr>ae_lib = table_lib desk_table, ae_seal = sample_seal, ae_sqrt = id, ae_utf8 = map (\<lambda>c. of_nat (of_char c)),
     ae_parse = \<lambda>_. Some (JObj [(''evidence'', JArr [JObj [(''source_id'', JStr ''11111''), (''excerpt'', JStr ''ell'')]])]),
     ae_dump_value = \<lambda>_. [], ae_hex = \<lambda>_. replicate 64 (CHR ''0''), ae_pid = ''1'',
     ae_policy = \<lparr>cp_max_gap = 60, cp_strong_gap = 10, cp_minimum_score = 1, cp_minimum_semantic = 1\<rparr>,
     ae_embedding = \<lparr>bp_capabilities = Inr desk_model, bp_embed = sample_embedder\<rparr>,
     ae_summaries = \<lparr>gp_capabilities = Inr desk_model,
       gp_generate = \<lambda>_. Inr \<lparr>ge_text = [], ge_provider_id = ''p'', ge_model_id = ''m'', ge_input_tokens = None, ge_output_tokens = None\<rparr>\<rparr>\<rparr>"

definition desk_feature :: activity_features where
  "desk_feature = \<lparr>af_record_id = 5, af_captured_at = Aware 0, af_policy_revision = ''r1'', af_application = None, af_workspace = None,
     af_hash = Some 9259542123273814144, af_vector = Some [Fin 1]\<rparr>"

lemma desk_features: "extract_features (ae_utf8 desk_env) (ae_embedding desk_env) [desk_record] = Inr [desk_feature]"
proof -
  have "extract_features (map (\<lambda>c. of_nat (of_char c))) \<lparr>bp_capabilities = Inr desk_model, bp_embed = sample_embedder\<rparr> [desk_record] = Inr [desk_feature]"
    by code_simp
  then show ?thesis by (simp add: desk_env_def)
qed

lemma desk_cluster: "segment (ae_lib desk_env) (ae_sqrt desk_env) (ae_policy desk_env) [desk_feature] = Inr [ay_cluster desk_entry]"
proof -
  have "cluster_of [desk_feature] = Inr (ay_cluster desk_entry)"
    by (simp add: cluster_of_def mk_ActivityCluster_def desk_feature_def desk_entry_def)
  then show ?thesis by (simp add: segment_def)
qed

lemma desk_evidence: "validate_evidence desk_env t [desk_record] = Inr [(5, ''ell'')]"
  by (simp add: validate_evidence_def desk_env_def MAX_EXCERPTS_def check_excerpt_def table_lib_def tally_lib_def record_with_def MAX_EXCERPT_LENGTH_def
      desk_record_def record_text_def join_lines_def insert_commute)

lemma desk_prompt: "nonempty (summary_prompt lib ids)"
proof (rule nonempty_hd)
  have "\<not> is_space (CHR ''U'')" by code_simp
  then show "\<not> is_space (hd (summary_prompt lib ids))" by (simp add: summary_prompt_def)
qed (simp add: summary_prompt_def)

lemma desk_summarized: "summarize desk_env (ay_cluster desk_entry) [desk_record] = Inr desk_summary"
proof -
  have "validate_membership (ay_cluster desk_entry) [desk_record] = Inr ()" "require_generation desk_model = Inr ()"
    "map record_text (List.map_filter (record_with [desk_record]) (cu_record_ids (ay_cluster desk_entry))) = [''Hello'']"
    "mk_ActivitySummary desk_summary = Inr desk_summary" by code_simp+
  moreover have "\<lparr>su_text = join_lines (map snd [(5, ''ell'')]), su_record_ids = map fst [(5 :: record_uuid, ''ell'')], su_provider_id = ''p'', su_model_id = ''m''\<rparr> = desk_summary"
    by (simp add: desk_summary_def join_lines_def)
  moreover have "gp_capabilities (ae_summaries desk_env) = Inr desk_model" "pc_provider_id desk_model = ''p''" "pc_max_input_bytes desk_model = 4096"
    "gp_generate (ae_summaries desk_env) q = Inr \<lparr>ge_text = [], ge_provider_id = ''p'', ge_model_id = ''m'', ge_input_tokens = None, ge_output_tokens = None\<rparr>"
    "ae_utf8 desk_env t = map (\<lambda>c. of_nat (of_char c)) t" for q t
    by (simp_all add: desk_env_def desk_model_def)
  ultimately show ?thesis
    by (simp add: summarize_def desk_evidence mk_GenerationRequest_def desk_prompt MAX_SUMMARY_TOKENS_def)
qed

lemma desk_reconciled: "reconcile_cluster desk_env None [desk_record] (ay_cluster desk_entry) = Inr desk_entry"
proof -
  have "List.map_filter (record_with [desk_record]) (cu_record_ids (ay_cluster desk_entry)) = [desk_record]" "policy_revisions [desk_record] = [''r1'']"
    "mk_ActivityEntry desk_entry = Inr desk_entry" by code_simp+
  moreover have "source_fingerprint desk_env rs = replicate 64 (CHR ''0'')" for rs by (simp add: source_fingerprint_def desk_env_def)
  moreover have "\<lparr>ay_cluster = ay_cluster desk_entry, ay_summary = Some desk_summary, ay_policy_revisions = [''r1''], ay_fingerprint = replicate 64 (CHR ''0'')\<rparr> = desk_entry"
    by (simp add: desk_entry_def)
  ultimately show ?thesis by (simp add: reconcile_cluster_def prior_entry_def desk_summarized optional_summary_def Let_def)
qed

lemma desk_sealed: "sealed_activity desk_env desk_draw [desk_entry] = Inr [0, 0]"
proof -
  let ?x = "encode_activity (tally_lib JNull) [desk_entry]" and ?y = "sealed_json sample_seal sample_key [0] desk_nonce []"
  have "encode_activity (ae_lib desk_env) [desk_entry] = ?x"
    by (simp add: desk_env_def table_lib_def encode_activity_def encode_activity_entry_def encode_cluster_def encode_ids_def encode_summary_def split: option.split)
  moreover have "?y \<noteq> ?x" by (simp add: sealed_json_def encode_activity_def)
  moreover have "ae_lib desk_env = table_lib desk_table" "ae_seal desk_env = sample_seal" "dw_nonce desk_draw = desk_nonce" "dw_data_key desk_draw = []"
    by (simp_all add: desk_env_def desk_draw_def)
  ultimately show ?thesis by (simp add: sealed_activity_def encrypt_snapshot_def desk_table_def)
qed

lemma desk_lib_ok: "activity_lib_ok desk_env"
proof -
  have "is_aware t \<Longrightarrow> Aware (instant t) = t" for t by (cases t) simp_all
  then show ?thesis by (simp add: activity_lib_ok_def desk_env_def sample_seal_ok) (auto simp: table_lib_def tally_lib_def)
qed

lemma desk_replaced: "activity_replace desk_env desk_draw [desk_entry] Map.empty = (Inr (), [ACTIVITY_NAME \<mapsto> [0, 0]])"
proof -
  have "dw_fault desk_draw = WRITE_DONE" by (simp add: desk_draw_def)
  then show ?thesis unfolding activity_replace_def sealed_activity_def [symmetric] desk_sealed
    by (simp add: bindE_def seqE_def lift_def require_def reads_def modifies_def ret_def MAX_ACTIVITY_BYTES_def atomic_write_def)
qed

lemma desk_written: "activity_reconcile desk_env desk_draw [desk_record] Map.empty = (Inr [desk_entry], [ACTIVITY_NAME \<mapsto> [0, 0]])"
proof -
  have one: "mk_ActivitySnapshot [desk_entry] = Inr [desk_entry]"
    by (simp add: mk_ActivitySnapshot_def snapshot_members_def MAX_ACTIVITY_ENTRIES_def desk_entry_def)
  have "mapS (reconcile_cluster desk_env None [desk_record]) [ay_cluster desk_entry] = Inr [desk_entry]" by (simp add: desk_reconciled)
  then show ?thesis
    by (simp only: activity_reconcile_def bindE_def seqE_def lift_def require_def ret_def activity_load_stored desk_features desk_cluster one desk_replaced
        activity_stored_none prod.case sum.case if_True if_False list.distinct simp_thms distinct.simps list.map list.set empty_iff)
qed

section \<open>Properties\<close>



text \<open>
  C32. Reconciled activities are grounded in records. When reconciliation returns, the snapshot it returns is
  the one a later load gives; it names exactly the given records, each once; and the text of every summary
  is either made of verbatim excerpts of records of its own activity, cited one by one, or carried over from
  an entry for the same records with the same fingerprint. When it raises, the snapshot is the old one or
  such a new one.
\<close>

theorem activities_are_grounded:
  assumes "activity_lib_ok env" and "length (dw_nonce dr) = NONCE_BYTES" and "activity_load env d = (Inr previous, d)"
    and "activity_reconcile env dr rs d = (r, d')"
  shows "case r of Inr s \<Rightarrow> activity_load env d' = (Inr (Some s), d') \<and> grounded previous rs s
    | Inl _ \<Rightarrow> activity_load env d' = (Inr previous, d') \<or> (\<exists>s. activity_load env d' = (Inr (Some s), d') \<and> grounded previous rs s)"
proof -
  have "activity_stored env d = Inr previous" using assms(3) by (simp add: activity_load_stored)
  from wp_reconcile_grounded [OF assms(1,2) this, of rs] assms(4) show ?thesis
    by (simp add: wp_def activity_load_stored split: sum.splits)
qed

theorem activities_are_grounded_witness:
  "\<exists>d. activity_reconcile desk_env desk_draw [desk_record] Map.empty = (Inr [desk_entry], d) \<and>
    activity_load desk_env d = (Inr (Some [desk_entry]), d) \<and> grounded None [desk_record] [desk_entry]"
proof -
  have "activity_load desk_env Map.empty = (Inr None, Map.empty)" "length (dw_nonce desk_draw) = NONCE_BYTES"
    by (simp_all add: activity_load_stored desk_draw_def desk_nonce_def NONCE_BYTES_def)
  from activities_are_grounded [OF desk_lib_ok this(2,1) desk_written] desk_written show ?thesis by simp
qed

end
