(* ===== verification/Deletion_Safety.thy ===== *)
theory Deletion_Safety
  imports Selective_Deletion Activity_Safety Storage_Safety Retention_Safety
begin

text \<open>
  What deletion promises across the components. The store, the semantic index and the activities share the
  contract of an eraser (locale \<open>eraser\<close>); the coordinator that drives them is durable through its journal,
  over every history of the whole memory; garbage collection leaves no orphans and purge leaves nothing.
\<close>

section \<open>The journal\<close>

definition journal_lib_ok :: "blob_lib \<Rightarrow> bool" where
  "journal_lib_ok lib \<longleftrightarrow> (\<forall>st. bl_dumps lib (journal_json lib st) \<noteq> [] \<and>
      bl_loads lib (bl_dumps lib (journal_json lib st)) = Some (journal_json lib st)) \<and>
    (\<forall>u. bl_uuid lib (bl_uuid_str lib u) = Some u)"

definition deletion_wf :: "deletion_state \<Rightarrow> bool" where
  "deletion_wf st \<longleftrightarrow> mk_DeletionState (dn_request_id st) (dn_record_ids st) (dn_phase st) = Inr st"

lemma made_state:
  assumes "mk_DeletionState request ids p = Inr st"
  shows "deletion_wf st" "dn_record_ids st = ids" "dn_request_id st = request" "dn_phase st = p"
  using assms by (auto simp: deletion_wf_def mk_DeletionState_def bindS_Inr)

lemma remade_state:
  assumes "deletion_wf st"
  shows "mk_DeletionState (dn_request_id st) (dn_record_ids st) p = Inr (st\<lparr>dn_phase := p\<rparr>)" "deletion_wf (st\<lparr>dn_phase := p\<rparr>)"
  using assms by (auto simp: deletion_wf_def mk_DeletionState_def bindS_Inr)

lemma phase_of_value: "phase_of (phase_value p) = Some p"
  by (cases p) (simp_all add: phase_of_def)

lemma parse_journal_json:
  assumes "journal_lib_ok lib" "deletion_wf st"
  shows "parse_journal lib (bl_dumps lib (journal_json lib st)) = Some st"
proof -
  have "bl_loads lib (bl_dumps lib (journal_json lib st)) = Some (journal_json lib st)" and uuid: "\<And>u. bl_uuid lib (bl_uuid_str lib u) = Some u"
    using assms(1) by (simp_all add: journal_lib_ok_def)
  moreover have "all_some json_str (map (\<lambda>u. JStr (bl_uuid_str lib u)) ids) = Some (map (bl_uuid_str lib) ids)" for ids
    by (induction ids) simp_all
  moreover have "all_some (bl_uuid lib) (map (bl_uuid_str lib) ids) = Some ids" for ids
    using uuid by (induction ids) simp_all
  ultimately show ?thesis using assms(2) unfolding parse_journal_def
    by (simp add: journal_json_def arr_at_def str_at_def phase_of_value deletion_wf_def insert_commute)
qed

definition journal_stored :: "blob_lib \<Rightarrow> directory \<Rightarrow> exn + deletion_state option" where
  "journal_stored lib d = fst (journal_load lib d)"

lemma journal_load_stored: "journal_load lib d = (journal_stored lib d, d)"
  by (simp add: prod_eq_iff journal_stored_def journal_load_def comp_defs split: option.split)

lemma wp_journal_load [wp_rules]:
  "wp (journal_load lib) Q E = (\<lambda>d. case journal_stored lib d of Inl e \<Rightarrow> E e d | Inr s \<Rightarrow> Q s d)"
  by (rule ext) (simp add: wp_def journal_load_stored split: sum.split)

lemma journal_stored_cong: "d JOURNAL_NAME = d' JOURNAL_NAME \<Longrightarrow> journal_stored lib d = journal_stored lib d'"
  by (simp add: journal_stored_def journal_load_def comp_defs split: option.split)

lemma journal_stored_none [simp]: "d JOURNAL_NAME = None \<Longrightarrow> journal_stored lib d = Inr None"
  by (simp add: journal_stored_def journal_load_def comp_defs)

lemma journal_stored_wf: "journal_stored lib d = Inr (Some st) \<Longrightarrow> deletion_wf st"
  by (auto simp: journal_stored_def journal_load_def comp_defs parse_journal_def Option.bind_eq_Some_conv built_Some dest!: made_state(1)
    split: option.splits if_splits json.splits)

lemma wp_journal_write:
  assumes ok: "journal_lib_ok lib" and st: "deletion_wf st"
  shows "wp (journal_write lib fault st) (\<lambda>_ d'. journal_stored lib d' = Inr (Some st))
    (\<lambda>e d'. journal_stored lib d' = journal_stored lib d \<or> journal_stored lib d' = Inr (Some st)) d"
proof -
  let ?payload = "bl_dumps lib (journal_json lib st)" and ?d = "d(JOURNAL_TEMPORARY := None)"
  have names: "JOURNAL_TEMPORARY \<noteq> JOURNAL_NAME" by (simp add: JOURNAL_TEMPORARY_def JOURNAL_NAME_def)
  have new: "journal_stored lib d' = Inr (Some st)" if "d' JOURNAL_NAME = Some ?payload" "length ?payload \<le> MAX_JOURNAL_BYTES" for d'
  proof -
    have "?payload \<noteq> []" using ok by (simp add: journal_lib_ok_def)
    then show ?thesis using that parse_journal_json [OF ok st] by (simp add: journal_stored_def journal_load_def comp_defs)
  qed
  have old: "journal_stored lib d' = journal_stored lib d" if "d' JOURNAL_NAME = d JOURNAL_NAME" for d'
    using that by (rule journal_stored_cong)
  have "wp (atomic_write JOURNAL_TEMPORARY JOURNAL_NAME fault ?payload) (\<lambda>_ d'. journal_stored lib d' = Inr (Some st))
    (\<lambda>e d'. journal_stored lib d' = journal_stored lib d \<or> journal_stored lib d' = Inr (Some st)) ?d"
    if size: "length ?payload \<le> MAX_JOURNAL_BYTES"
  proof (rule wp_mono [OF wp_atomic_write [of JOURNAL_TEMPORARY JOURNAL_NAME ?d, OF names]], goal_cases)
    case (2 x d')
    then show ?case using new [of d', OF _ size] by simp
  next
    case (3 e d')
    then have "d' JOURNAL_NAME = d JOURNAL_NAME \<or> d' JOURNAL_NAME = Some ?payload" using names by simp
    then show ?case using new [of d', OF _ size] old [of d'] by blast
  qed simp
  then show ?thesis unfolding journal_write_def Let_def by (simp add: wp_rules)
qed

section \<open>The contract of an eraser\<close>

text \<open>
  What the coordinator expects of the three components it deletes from: an erasure that returns leaves none
  of the records, one that raises leaves none that was not there before, and neither touches the rest.
\<close>

locale eraser =
  fixes erase :: "record_uuid list \<Rightarrow> ('s, 'r) comp" and inv :: "'s \<Rightarrow> bool"
    and present :: "'s \<Rightarrow> record_uuid set" and source :: "'s \<Rightarrow> record_uuid set" and others :: "'s \<Rightarrow> 'b"
  assumes erases: "inv s \<Longrightarrow> wp (erase ids)
    (\<lambda>_ s'. inv s' \<and> others s' = others s \<and> present s' \<subseteq> present s \<union> source s - set ids)
    (\<lambda>_ s'. inv s' \<and> others s' = others s \<and> present s' \<subseteq> present s \<union> source s) s"
begin

lemma wp_erase:
  assumes "inv s"
    and "\<And>x s'. inv s' \<Longrightarrow> others s' = others s \<Longrightarrow> present s' \<subseteq> present s \<union> source s - set ids \<Longrightarrow> Q x s'"
    and "\<And>e s'. inv s' \<Longrightarrow> others s' = others s \<Longrightarrow> present s' \<subseteq> present s \<union> source s \<Longrightarrow> E e s'"
  shows "wp (erase ids) Q E s"
  by (rule wp_mono [OF erases [OF assms(1)]]) (use assms(2,3) in auto)

lemma nothing_returns:
  assumes "inv s" "erase ids s = (r, s')" "(present s \<union> source s) \<inter> X = {}"
  shows "present s' \<inter> X = {}"
  using erases [OF assms(1), of ids] assms(2,3) by (cases r) (auto simp: wp_def)

end

definition parts_ok :: "recall_env \<Rightarrow> recall \<Rightarrow> bool" where
  "parts_ok env s \<longleftrightarrow> store_ok (rn_lib env) (rn_cfg env) (rc_store s) \<and> index_ok (rn_index env) (rc_index s) \<and>
    (\<exists>a. activity_stored (rn_activity env) (rc_activity s) = Inr a)"

definition env_ok :: "recall_env \<Rightarrow> bool" where
  "env_ok env \<longleftrightarrow> index_lib_ok (rn_index env) \<and> activity_lib_ok (rn_activity env) \<and> journal_lib_ok (rn_lib env)"

definition held :: "recall_env \<Rightarrow> recall \<Rightarrow> record_uuid set" where
  "held env s = dom (holdings (rn_lib env) (rn_cfg env) (rc_store s))"

definition unfinished :: "recall_env \<Rightarrow> recall \<Rightarrow> record_uuid set" where
  "unfinished env s = dom (interrupted (rn_lib env) (rn_cfg env) (rc_store s))"

definition indexed :: "recall_env \<Rightarrow> recall \<Rightarrow> record_uuid set" where
  "indexed env s = dom (view (rn_index env) (rc_index s))"

definition in_activities :: "recall_env \<Rightarrow> recall \<Rightarrow> record_uuid set" where
  "in_activities env s = (case activity_stored (rn_activity env) (rc_activity s) of Inr (Some a) \<Rightarrow> set (snapshot_members a) | _ \<Rightarrow> {})"

definition draw_ok :: "draw \<Rightarrow> bool" where
  "draw_ok d \<longleftrightarrow> length (dw_nonce d) = NONCE_BYTES"

lemmas part_defs = held_def unfinished_def indexed_def in_activities_def parts_ok_def

lemma delete_records_effect:
  assumes "store_ok lib cfg s"
  shows "wp (delete_records io ids)
    (\<lambda>_ s'. store_ok lib cfg s' \<and> interrupted lib cfg s' = interrupted lib cfg s \<and> holdings lib cfg s' = holdings lib cfg s |` (- set ids))
    (\<lambda>_ s'. store_ok lib cfg s' \<and> interrupted lib cfg s' = interrupted lib cfg s \<and> dom (holdings lib cfg s') \<subseteq> dom (holdings lib cfg s)) s"
  using assms
proof (induction ids arbitrary: s)
  case Nil
  then show ?case by (simp add: wp_rules)
next
  case (Cons u us)
  obtain r t where d: "delete_sync (fst (di_delete io u)) (snd (di_delete io u)) u s = (r, t)" by force
  note eff = delete_effect [OF Cons.prems d]
  have less: "dom (holdings lib cfg t) \<subseteq> dom (holdings lib cfg s)" unfolding eff(2) by auto
  show ?case
  proof (cases r)
    case (Inl e)
    then show ?thesis using d eff less by (simp add: wp_rules wp_def)
  next
    case (Inr x)
    have "wp (delete_records io us)
      (\<lambda>_ s'. store_ok lib cfg s' \<and> interrupted lib cfg s' = interrupted lib cfg s \<and> holdings lib cfg s' = holdings lib cfg s |` (- set (u # us)))
      (\<lambda>_ s'. store_ok lib cfg s' \<and> interrupted lib cfg s' = interrupted lib cfg s \<and> dom (holdings lib cfg s') \<subseteq> dom (holdings lib cfg s)) t"
    proof (rule wp_mono [OF Cons.IH [OF eff(1)]], goal_cases)
      case (1 x t')
      then show ?case using eff(3) by (auto simp: eff(2) restrict_map_def fun_eq_iff)
    next
      case (2 e t')
      then show ?case using eff(3) less by (simp, blast)
    qed
    then show ?thesis using d Inr by (simp add: wp_rules wp_def)
  qed
qed

interpretation store_eraser: eraser "\<lambda>ids. on_store (delete_records io ids)" "parts_ok env" "held env" "\<lambda>_. {}"
  "\<lambda>s. (rc_index s, rc_activity s, rc_journal s, unfinished env s)" for env io
proof
  fix s ids assume "parts_ok env s"
  then have "store_ok (rn_lib env) (rn_cfg env) (rc_store s)" and rest: "index_ok (rn_index env) (rc_index s)"
    "\<exists>a. activity_stored (rn_activity env) (rc_activity s) = Inr a" by (simp_all add: parts_ok_def)
  note eff = delete_records_effect [OF this(1), of io ids]
  show "wp (on_store (delete_records io ids))
     (\<lambda>_ s'. parts_ok env s' \<and> (rc_index s', rc_activity s', rc_journal s', unfinished env s') = (rc_index s, rc_activity s, rc_journal s, unfinished env s) \<and> held env s' \<subseteq> held env s \<union> {} - set ids)
     (\<lambda>_ s'. parts_ok env s' \<and> (rc_index s', rc_activity s', rc_journal s', unfinished env s') = (rc_index s, rc_activity s, rc_journal s, unfinished env s) \<and> held env s' \<subseteq> held env s \<union> {}) s"
    unfolding wp_on_field
    by (rule wp_mono [OF eff]) (use rest in \<open>auto simp: part_defs restrict_map_def map_le_def dom_def split: if_splits\<close>)
qed

interpretation index_eraser: eraser "\<lambda>ids. on_index (index_remove (rn_index env) d ids)" "\<lambda>s. env_ok env \<and> parts_ok env s" "indexed env" "\<lambda>_. {}"
  "\<lambda>s. (rc_store s, rc_activity s, rc_journal s)" for env d
proof
  fix s ids assume "env_ok env \<and> parts_ok env s"
  then have ok: "env_ok env" "parts_ok env s" and ix: "index_lib_ok (rn_index env)" "index_ok (rn_index env) (rc_index s)"
    by (simp_all add: parts_ok_def env_ok_def)
  show "wp (on_index (index_remove (rn_index env) d ids))
     (\<lambda>_ s'. (env_ok env \<and> parts_ok env s') \<and> (rc_store s', rc_activity s', rc_journal s') = (rc_store s, rc_activity s, rc_journal s) \<and> indexed env s' \<subseteq> indexed env s \<union> {} - set ids)
     (\<lambda>_ s'. (env_ok env \<and> parts_ok env s') \<and> (rc_store s', rc_activity s', rc_journal s') = (rc_store s, rc_activity s, rc_journal s) \<and> indexed env s' \<subseteq> indexed env s \<union> {}) s"
    unfolding wp_on_field
    by (rule wp_mono [OF wp_index_remove [OF ix]]) (use ok in \<open>auto simp: saved_as_def part_defs restrict_map_def split: if_splits\<close>)
qed


section \<open>Activities without the deleted records\<close>

definition survivor :: "recall_env \<Rightarrow> record_uuid set \<Rightarrow> store \<Rightarrow> redacted_record \<Rightarrow> bool" where
  "survivor env deleted s r \<longleftrightarrow> xr_record_id r \<notin> deleted \<and> xr_record_id r \<in> dom (holdings (rn_lib env) (rn_cfg env) s)"

lemma wp_day_survivors:
  assumes "store_ok (rn_lib env) (rn_cfg env) s" "list_all (survivor env deleted s) rs"
  shows "wp (day_survivors env deleted cs rs) (\<lambda>rs' s'. s' = s \<and> list_all (survivor env deleted s) rs') (\<lambda>_ s'. s' = s) s"
  using assms(2)
proof (induction cs arbitrary: rs)
  case (Cons c cs)
  have load: "wp (load_survivor env u) (\<lambda>r s'. s' = s \<and> (\<forall>x. r = Some x \<longrightarrow> u \<notin> deleted \<longrightarrow> survivor env deleted s x)) (\<lambda>_ s'. s' = s) s" for u
    using get_held [OF assms(1), of u] unfolding load_survivor_def
    by (auto simp: wp_rules wp_def [of "get_sync _ _ _"] survivor_def split: option.split sum.split)
  show ?case
    by (auto simp: wp_rules intro!: Cons.IH Cons.prems wp_mono [OF load] split: option.split)
qed (simp add: wp_rules)

lemma wp_survivors:
  assumes "store_ok (rn_lib env) (rn_cfg env) s" "list_all (survivor env deleted s) rs"
  shows "wp (survivors_of env deleted days rs) (\<lambda>rs' s'. s' = s \<and> list_all (survivor env deleted s) rs') (\<lambda>_ s'. s' = s) s"
  using assms(2)
proof (induction days arbitrary: rs)
  case (Cons day days)
  show ?case
    by (auto simp: wp_rules list_candidates_sync_def Let_def intro!: wp_mono [OF wp_day_survivors [OF assms(1) Cons.prems]] Cons.IH split: sum.split)
qed (simp add: wp_rules)

interpretation activity_eraser: eraser "reconcile_deleted env d" "\<lambda>s. env_ok env \<and> draw_ok d \<and> parts_ok env s" "in_activities env" "held env"
  "\<lambda>s. (rc_store s, rc_index s, rc_journal s)" for env d
proof
  fix s ids assume "env_ok env \<and> draw_ok d \<and> parts_ok env s"
  then have ok: "env_ok env" "draw_ok d" "parts_ok env s" and act: "activity_lib_ok (rn_activity env)" "length (dw_nonce d) = NONCE_BYTES"
    and st: "store_ok (rn_lib env) (rn_cfg env) (rc_store s)" by (simp_all add: parts_ok_def env_ok_def draw_ok_def)
  let ?E = "\<lambda>_ s'. (env_ok env \<and> draw_ok d \<and> parts_ok env s') \<and> (rc_store s', rc_index s', rc_journal s') = (rc_store s, rc_index s, rc_journal s) \<and> in_activities env s' \<subseteq> in_activities env s \<union> held env s"
  let ?Q = "\<lambda>_ s'. (env_ok env \<and> draw_ok d \<and> parts_ok env s') \<and> (rc_store s', rc_index s', rc_journal s') = (rc_store s, rc_index s, rc_journal s) \<and> in_activities env s' \<subseteq> in_activities env s \<union> held env s - set ids"
  have same: "?E e s" for e :: exn using ok by simp
  have reconcile: "wp (on_activity (activity_reconcile (rn_activity env) d rs)) ?Q ?E s"
    if rs: "list_all (survivor env (set ids) (rc_store s)) rs" for rs
  proof -
    have gone: "parts_ok env (s\<lparr>rc_activity := a\<rparr>) \<and> in_activities env (s\<lparr>rc_activity := a\<rparr>) \<subseteq> held env s - set ids" if "reconciled (rn_activity env) rs a" for a
      using that rs ok(3) by (auto simp: reconciled_def part_defs survivor_def list_all_iff)
    have kept: "parts_ok env (s\<lparr>rc_activity := a\<rparr>) \<and> in_activities env (s\<lparr>rc_activity := a\<rparr>) = in_activities env s"
      if "activity_stored (rn_activity env) a = activity_stored (rn_activity env) (rc_activity s)" for a
      using that ok(3) by (simp add: part_defs)
    show ?thesis unfolding wp_on_field
    proof (rule wp_mono [OF wp_activity_reconcile [OF act]], goal_cases)
      case (1 x a)
      then show ?case using gone [of a] ok by (simp, blast)
    next
      case (2 e a)
      then show ?case using gone [of a] kept [of a] ok by auto
    qed
  qed
  have none: "?Q () s" if "activity_stored (rn_activity env) (rc_activity s) = Inr None \<or> activity_stored (rn_activity env) (rc_activity s) = Inr (Some [])"
    using that ok by (auto simp: part_defs snapshot_members_def)
  have rebuild: "wp (bindE (on_store (survivors_of env (set ids) days [])) (\<lambda>rs. bindE (on_activity (activity_reconcile (rn_activity env) d rs)) (\<lambda>_. ret ()))) ?Q ?E s" for days
    unfolding wp_bindE wp_on_field wp_ret
    by (rule wp_mono [OF wp_survivors [OF st]]) (use reconcile same in \<open>auto simp: wp_on_field\<close>)
  have load: "wp (on_activity (activity_load (rn_activity env))) Q E s = (case activity_stored (rn_activity env) (rc_activity s) of Inl e \<Rightarrow> E e s | Inr a \<Rightarrow> Q a s)"
    for Q :: "activity_snapshot option \<Rightarrow> recall \<Rightarrow> bool" and E by (simp add: wp_on_field wp_activity_load split: sum.split)
  have window: "wp (bindE (lift (snapshot_window x)) (\<lambda>(first_day, last_day). bindE (on_store (survivors_of env (set ids) [first_day..last_day] []))
      (\<lambda>rs. bindE (on_activity (activity_reconcile (rn_activity env) d rs)) (\<lambda>_. ret ())))) ?Q ?E s" for x
    unfolding wp_bindE [of "lift _"] wp_lift using rebuild same by (simp split: sum.split prod.split)
  obtain a where "activity_stored (rn_activity env) (rc_activity s) = Inr a" using ok(3) by (auto simp: parts_ok_def)
  then show "wp (reconcile_deleted env d ids) ?Q ?E s"
    unfolding reconcile_deleted_def wp_seqE wp_lift wp_bindE [of "on_activity (activity_load (rn_activity env))"] load
    using none same window by (cases a) (simp_all add: load wp_ret wp_if split: sum.split)
qed


section \<open>The transaction\<close>

definition journal_of :: "recall_env \<Rightarrow> recall \<Rightarrow> exn + deletion_state option" where
  "journal_of env s = journal_stored (rn_lib env) (rc_journal s)"

definition phase_facts :: "recall_env \<Rightarrow> recall \<Rightarrow> deletion_state \<Rightarrow> bool" where
  "phase_facts env s st \<longleftrightarrow> unfinished env s \<inter> set (dn_record_ids st) = {} \<and>
    (dn_phase st \<noteq> PHASE_PLANNED \<longrightarrow> held env s \<inter> set (dn_record_ids st) = {}) \<and>
    (dn_phase st = DERIVED_RECONCILED \<longrightarrow> (indexed env s \<union> in_activities env s) \<inter> set (dn_record_ids st) = {})"

definition recall_ok :: "recall_env \<Rightarrow> recall \<Rightarrow> bool" where
  "recall_ok env s \<longleftrightarrow> parts_ok env s \<and> (case journal_of env s of Inl _ \<Rightarrow> False | Inr None \<Rightarrow> True | Inr (Some st) \<Rightarrow> phase_facts env s st)"

definition erased :: "recall_env \<Rightarrow> recall \<Rightarrow> record_uuid list \<Rightarrow> bool" where
  "erased env s ids \<longleftrightarrow> (held env s \<union> unfinished env s \<union> indexed env s \<union> in_activities env s) \<inter> set ids = {}"

definition io_ok :: "deletion_io \<Rightarrow> bool" where
  "io_ok io \<longleftrightarrow> draw_ok (di_activity io)"

lemma journal_update [simp]:
  "parts_ok env (s\<lparr>rc_journal := j\<rparr>) = parts_ok env s" "held env (s\<lparr>rc_journal := j\<rparr>) = held env s"
  "unfinished env (s\<lparr>rc_journal := j\<rparr>) = unfinished env s" "indexed env (s\<lparr>rc_journal := j\<rparr>) = indexed env s"
  "in_activities env (s\<lparr>rc_journal := j\<rparr>) = in_activities env s" "phase_facts env (s\<lparr>rc_journal := j\<rparr>) st = phase_facts env s st"
  by (simp_all add: part_defs phase_facts_def)

lemma wp_advance:
  assumes env: "env_ok env" and ok: "recall_ok env s" and cur: "journal_of env s = Inr (Some st)"
    and ranks: "phase_rank p = phase_rank (dn_phase st) + 1" and facts: "phase_facts env s (st\<lparr>dn_phase := p\<rparr>)"
  shows "wp (on_journal (journal_advance (rn_lib env) fault p))
    (\<lambda>st' s'. st' = st\<lparr>dn_phase := p\<rparr> \<and> s' = s\<lparr>rc_journal := rc_journal s'\<rparr> \<and> journal_of env s' = Inr (Some st') \<and> recall_ok env s')
    (\<lambda>_ s'. recall_ok env s' \<and> (\<exists>st'. journal_of env s' = Inr (Some st') \<and> dn_record_ids st' = dn_record_ids st)) s"
proof -
  have wf: "deletion_wf st" using journal_stored_wf cur by (simp add: journal_of_def)
  have lib: "journal_lib_ok (rn_lib env)" using env by (simp add: env_ok_def)
  show ?thesis unfolding wp_on_field journal_advance_def
    apply (simp add: wp_bindE wp_seqE wp_journal_load cur [unfolded journal_of_def] wp_require ranks wp_lift remade_state(1) [OF wf] wp_ret)
    apply (rule wp_mono [OF wp_journal_write [OF lib remade_state(2) [OF wf]]])
    using ok facts cur by (auto simp: recall_ok_def journal_of_def)
qed

lemma wp_clear:
  assumes ok: "recall_ok env s" and cur: "journal_of env s = Inr (Some st)" and facts: "dn_phase st = DERIVED_RECONCILED"
  shows "wp (on_journal (journal_clear fails))
    (\<lambda>_ s'. recall_ok env s' \<and> journal_of env s' = Inr None \<and> erased env s' (dn_record_ids st))
    (\<lambda>_ s'. s' = s) s"
proof -
  have "erased env s (dn_record_ids st)" using ok cur facts by (auto simp: recall_ok_def phase_facts_def erased_def)
  moreover have "rc_journal s JOURNAL_NAME \<noteq> None" by (rule notI) (use cur in \<open>simp add: journal_of_def\<close>)
  ultimately show ?thesis using ok
    by (cases s) (auto simp: wp_on_field journal_clear_def wp_rules recall_ok_def journal_of_def erased_def part_defs)
qed


definition in_progress :: "recall_env \<Rightarrow> record_uuid list \<Rightarrow> recall \<Rightarrow> bool" where
  "in_progress env ids s \<longleftrightarrow> recall_ok env s \<and> (\<exists>st. journal_of env s = Inr (Some st) \<and> dn_record_ids st = ids)"

definition finished :: "recall_env \<Rightarrow> record_uuid list \<Rightarrow> recall \<Rightarrow> bool" where
  "finished env ids s \<longleftrightarrow> recall_ok env s \<and> journal_of env s = Inr None \<and> erased env s ids"

lemma wp_resume_records:
  assumes env: "env_ok env" and ok: "recall_ok env s" and cur: "journal_of env s = Inr (Some st)"
  shows "wp (resume_records env io st)
    (\<lambda>st' s'. recall_ok env s' \<and> journal_of env s' = Inr (Some st') \<and> dn_record_ids st' = dn_record_ids st \<and> dn_phase st' \<noteq> PHASE_PLANNED)
    (\<lambda>_. in_progress env (dn_record_ids st)) s"
proof (cases "dn_phase st = PHASE_PLANNED")
  case True
  have parts: "parts_ok env s" and facts: "phase_facts env s st" using ok cur by (simp_all add: recall_ok_def)
  have still: "recall_ok env t \<and> journal_of env t = Inr (Some st)"
    if "parts_ok env t" "(rc_index t, rc_activity t, rc_journal t, unfinished env t) = (rc_index s, rc_activity s, rc_journal s, unfinished env s)" for t
    using that cur facts True by (simp add: recall_ok_def journal_of_def phase_facts_def)
  have "wp (on_journal (journal_advance (rn_lib env) (di_deleted io) RECORDS_DELETED))
    (\<lambda>st' s'. recall_ok env s' \<and> journal_of env s' = Inr (Some st') \<and> dn_record_ids st' = dn_record_ids st \<and> dn_phase st' \<noteq> PHASE_PLANNED)
    (\<lambda>_. in_progress env (dn_record_ids st)) t"
    if t: "recall_ok env t \<and> journal_of env t = Inr (Some st)" "held env t \<subseteq> held env s \<union> {} - set (dn_record_ids st)" for t
    by (rule wp_mono [OF wp_advance [OF env _ _ , where st = st]])
      (use t True in \<open>auto simp: in_progress_def phase_facts_def recall_ok_def\<close>)
  then show ?thesis unfolding resume_records_def using True still parts
    by (auto simp: wp_seqE in_progress_def intro!: store_eraser.wp_erase [where env = env])
qed (use assms in \<open>simp add: resume_records_def wp_ret\<close>)

lemma wp_resume_derived:
  assumes env: "env_ok env" and io: "io_ok io" and ok: "recall_ok env s" and cur: "journal_of env s = Inr (Some st)" and phase: "dn_phase st \<noteq> PHASE_PLANNED"
  shows "wp (resume_derived env io st)
    (\<lambda>st' s'. recall_ok env s' \<and> journal_of env s' = Inr (Some st') \<and> dn_record_ids st' = dn_record_ids st \<and> dn_phase st' = DERIVED_RECONCILED)
    (\<lambda>_. in_progress env (dn_record_ids st)) s"
proof (cases "dn_phase st = RECORDS_DELETED")
  case True
  let ?Q = "\<lambda>st' s'. recall_ok env s' \<and> journal_of env s' = Inr (Some st') \<and> dn_record_ids st' = dn_record_ids st \<and> dn_phase st' = DERIVED_RECONCILED"
  let ?E = "\<lambda>_ :: exn. in_progress env (dn_record_ids st)"
  let ?X = "set (dn_record_ids st)"
  have parts: "parts_ok env s" and facts: "phase_facts env s st" using ok cur by (simp_all add: recall_ok_def)
  have still: "recall_ok env t \<and> journal_of env t = Inr (Some st)" if "parts_ok env t" "rc_store t = rc_store s" "rc_journal t = rc_journal s" for t
    using that cur facts True by (simp add: recall_ok_def journal_of_def phase_facts_def held_def unfinished_def)
  have advance: "wp (on_journal (journal_advance (rn_lib env) (di_reconciled io) DERIVED_RECONCILED)) ?Q ?E t"
    if t: "recall_ok env t" "journal_of env t = Inr (Some st)" "indexed env t \<inter> ?X = {}" "in_activities env t \<inter> ?X = {}" for t
    by (rule wp_mono [OF wp_advance [OF env t(1,2)]])
      (use t True in \<open>auto simp: in_progress_def phase_facts_def recall_ok_def\<close>)
  have activity: "wp (seqE (reconcile_deleted env (di_activity io) (dn_record_ids st)) (on_journal (journal_advance (rn_lib env) (di_reconciled io) DERIVED_RECONCILED))) ?Q ?E t"
    if t: "parts_ok env t" "rc_store t = rc_store s" "rc_journal t = rc_journal s" "indexed env t \<inter> ?X = {}" for t
    unfolding wp_seqE
  proof (rule activity_eraser.wp_erase [where env = env], goal_cases)
    case (2 x t')
    then have "in_activities env t' \<inter> ?X = {}" by blast
    then show ?case using 2 advance [of t'] still [of t'] t by (simp add: indexed_def)
  qed (use env io t still in \<open>auto simp: io_ok_def in_progress_def\<close>)
  show ?thesis unfolding resume_derived_def using True
    by (simp add: wp_bindE) (rule index_eraser.wp_erase [where env = env]; use env parts activity still in \<open>auto simp: in_progress_def\<close>)
next
  case False
  then have "dn_phase st = DERIVED_RECONCILED" using phase by (cases "dn_phase st") auto
  then show ?thesis using assms by (simp add: resume_derived_def wp_ret)
qed

lemma wp_resume_deletion:
  assumes env: "env_ok env" and io: "io_ok io" and ok: "recall_ok env s" and cur: "journal_of env s = Inr (Some st)"
  shows "wp (resume_deletion env io b st) (\<lambda>_. finished env (dn_record_ids st)) (\<lambda>_. in_progress env (dn_record_ids st)) s"
  unfolding resume_deletion_def wp_bindE
proof (rule wp_mono [OF wp_resume_records [OF env ok cur]], goal_cases)
  case (1 st1 s1)
  then have one: "recall_ok env s1" "journal_of env s1 = Inr (Some st1)" "dn_phase st1 \<noteq> PHASE_PLANNED" "dn_record_ids st1 = dn_record_ids st" by simp_all
  show ?case
  proof (rule wp_mono [OF wp_resume_derived [OF env io one(1-3)]], goal_cases)
    case (1 st2 s2)
    then have two: "recall_ok env s2" "journal_of env s2 = Inr (Some st2)" "dn_phase st2 = DERIVED_RECONCILED" "dn_record_ids st2 = dn_record_ids st"
      using one(4) by simp_all
    show ?case unfolding wp_seqE wp_ret using two(3)
      by (simp) (rule wp_mono [OF wp_clear [OF two(1-3)]]; use two in \<open>auto simp: finished_def in_progress_def\<close>)
  qed (simp add: one(4))
qed simp


lemma wp_coordinator_delete:
  assumes env: "env_ok env" and io: "io_ok io" and ok: "recall_ok env s" and ids: "unfinished env s \<inter> set ids = {}"
  shows "wp (coordinator_delete env io request ids) (\<lambda>_. finished env ids)
    (\<lambda>_ s'. in_progress env ids s' \<or> (recall_ok env s' \<and> journal_of env s' = journal_of env s \<and> s' = s\<lparr>rc_journal := rc_journal s'\<rparr>)) s"
    (is "wp _ ?Q ?E s")
proof -
  have lib: "journal_lib_ok (rn_lib env)" using env by (simp add: env_ok_def)
  have same: "?E e s" for e :: exn using ok by simp
  have resume: "wp (resume_deletion env io False st) ?Q ?E t" if "recall_ok env t" "journal_of env t = Inr (Some st)" "dn_record_ids st = ids" for st t
    by (rule wp_mono [OF wp_resume_deletion [OF env io that(1,2)]]) (simp_all add: that(3))
  have fresh: "wp (bindE (on_journal (seqE (journal_write (rn_lib env) (di_begin io) st) (ret st))) (resume_deletion env io False)) ?Q ?E s"
    if st: "mk_DeletionState request ids PHASE_PLANNED = Inr st" for st
  proof -
    note made = made_state [OF st]
    have "phase_facts env s st" using ids made by (simp add: phase_facts_def)
    then have new: "recall_ok env (s\<lparr>rc_journal := j\<rparr>)" "journal_of env (s\<lparr>rc_journal := j\<rparr>) = Inr (Some st)"
      if "journal_stored (rn_lib env) j = Inr (Some st)" for j
      using ok that by (simp_all add: recall_ok_def journal_of_def)
    have old: "recall_ok env (s\<lparr>rc_journal := j\<rparr>)" "journal_of env (s\<lparr>rc_journal := j\<rparr>) = journal_of env s"
      if "journal_stored (rn_lib env) j = journal_stored (rn_lib env) (rc_journal s)" for j
      using ok that by (simp_all add: recall_ok_def journal_of_def split: sum.splits option.splits)
    show ?thesis unfolding wp_bindE wp_on_field wp_seqE wp_ret
    proof (rule wp_mono [OF wp_journal_write [OF lib made(1)]], goal_cases)
      case (1 x j)
      then show ?case using resume [OF new made(2)] by simp
    next
      case (2 e j)
      then show ?case using new [of j] old [of j] made(2) by (auto simp: in_progress_def)
    qed
  qed
  have "wp (bindE (on_journal (journal_begin (rn_lib env) (di_begin io) request ids)) (resume_deletion env io False)) ?Q ?E s"
  proof (cases "mk_DeletionState request ids PHASE_PLANNED")
    case (Inl e)
    then show ?thesis using same by (simp add: journal_begin_def wp_rules)
  next
    case (Inr st)
    show ?thesis
    proof (cases "journal_of env s")
      case (Inl e)
      then show ?thesis using ok by (simp add: recall_ok_def)
    next
      case stored: (Inr cur)
      show ?thesis
      proof (cases cur)
        case None
        then show ?thesis using fresh [OF Inr] Inr stored by (simp add: journal_begin_def journal_of_def wp_rules)
      next
        case (Some c)
        then show ?thesis using resume [of s c] ok same Inr stored by (simp add: journal_begin_def journal_of_def wp_rules)
      qed
    qed
  qed
  then show ?thesis unfolding coordinator_delete_def wp_seqE wp_lift using same by (simp split: sum.split)
qed

lemma wp_coordinator_recover:
  assumes env: "env_ok env" and io: "io_ok io" and ok: "recall_ok env s"
  shows "wp (coordinator_recover env io)
    (\<lambda>_ s'. recall_ok env s' \<and> journal_of env s' = Inr None \<and> (\<forall>st. journal_of env s = Inr (Some st) \<longrightarrow> erased env s' (dn_record_ids st)))
    (\<lambda>_ s'. \<exists>st. journal_of env s = Inr (Some st) \<and> in_progress env (dn_record_ids st) s') s"
    (is "wp _ ?Q ?E s")
proof -
  have "wp (resume_deletion env io True st) (\<lambda>r. ?Q (Some r)) ?E s" if "journal_of env s = Inr (Some st)" for st
    by (rule wp_mono [OF wp_resume_deletion [OF env io ok that]]) (auto simp: finished_def that)
  moreover obtain cur where "journal_of env s = Inr cur" using ok by (auto simp: recall_ok_def split: sum.splits)
  ultimately show ?thesis using ok unfolding coordinator_recover_def
    by (cases cur) (auto simp: wp_bindE wp_ret wp_on_field wp_journal_load journal_of_def)
qed

section \<open>Garbage collection\<close>

lemma wp_prune_index:
  assumes env: "env_ok env" and ok: "parts_ok env s" and c: "held env s = canonical"
  shows "wp (prune_index env d canonical)
    (\<lambda>_ s'. parts_ok env s' \<and> (rc_store s', rc_activity s', rc_journal s') = (rc_store s, rc_activity s, rc_journal s) \<and> indexed env s' \<subseteq> indexed env s \<inter> canonical)
    (\<lambda>_ s'. parts_ok env s' \<and> (rc_store s', rc_activity s', rc_journal s') = (rc_store s, rc_activity s, rc_journal s) \<and> indexed env s' \<subseteq> indexed env s) s"
    (is "wp _ ?Q ?E s")
proof -
  obtain found where found: "stored (rn_index env) (rc_index s) ACTIVE_NAME = Inr found"
    using ok by (auto simp: parts_ok_def index_ok_def file_ok_def split: sum.splits)
  define ids where "ids = (case found of None \<Rightarrow> [] | Some x \<Rightarrow> map xe_record_id (xs_entries x))"
  have ids: "set ids = indexed env s"
    using found by (auto simp: ids_def indexed_def view_def entry_map_def dom_map_of_conv_image_fst image_image split: option.split)
  let ?stale = "filter (\<lambda>u. u \<notin> canonical) ids"
  have "wp (bindE (on_index (index_remove (rn_index env) d ?stale)) (\<lambda>_. ret (length ?stale))) ?Q ?E s"
    unfolding wp_bindE wp_ret by (rule index_eraser.wp_erase [where env = env]; use env ok ids in auto)
  moreover have "?Q 0 s" if "?stale = []" using that ok ids by (auto simp: filter_empty_conv)
  ultimately show ?thesis unfolding prune_index_def index_record_ids_def ids_def
    by (simp add: wp_bindE wp_on_field wp_index_load found wp_ret Let_def wp_if)
qed

lemma wp_rebuild_activity:
  assumes env: "env_ok env" and d: "draw_ok d" and ok: "parts_ok env s" and c: "held env s = canonical"
  shows "wp (rebuild_activity env d canonical)
    (\<lambda>_ s'. parts_ok env s' \<and> (rc_store s', rc_index s', rc_journal s') = (rc_store s, rc_index s, rc_journal s) \<and> in_activities env s' \<subseteq> canonical)
    (\<lambda>_ s'. parts_ok env s' \<and> (rc_store s', rc_index s', rc_journal s') = (rc_store s, rc_index s, rc_journal s) \<and> in_activities env s' \<subseteq> in_activities env s \<union> canonical) s"
    (is "wp _ ?Q ?E s")
proof -
  obtain found where found: "activity_stored (rn_activity env) (rc_activity s) = Inr found" using ok by (auto simp: parts_ok_def)
  have "wp (seqE (reconcile_deleted env d (filter (\<lambda>u. u \<notin> canonical) (remdups (snapshot_members x)))) (ret True)) ?Q ?E s"
    if x: "found = Some x" for x
  proof -
    have "in_activities env s = set (snapshot_members x)" using found x by (simp add: in_activities_def)
    then show ?thesis
      unfolding wp_seqE wp_ret by (intro activity_eraser.wp_erase [where env = env]) (use env d ok c in auto)
  qed
  moreover have "?Q b s" if "found = None \<or> in_activities env s \<subseteq> canonical" for b :: bool using that ok found by (auto simp: in_activities_def)
  moreover have "in_activities env s = set (snapshot_members x)" if "found = Some x" for x using that found by (simp add: in_activities_def)
  ultimately show ?thesis unfolding rebuild_activity_def
    by (cases found) (auto simp: wp_bindE [of "on_activity _"] wp_on_field [of _ _ "activity_load _"] wp_activity_load found wp_ret Let_def wp_if filter_empty_conv)
qed

definition collected :: "recall_env \<Rightarrow> recall \<Rightarrow> recall \<Rightarrow> bool" where
  "collected env s s' \<longleftrightarrow> parts_ok env s' \<and> rc_journal s' = rc_journal s \<and> held env s' = held env s \<union> unfinished env s \<and>
    unfinished env s' = {} \<and> indexed env s' \<subseteq> indexed env s \<and> in_activities env s' \<subseteq> in_activities env s \<union> held env s'"

lemma gc_collects:
  assumes env: "env_ok env" and d: "draw_ok d2" and ok: "parts_ok env s"
  shows "\<exists>r s'. gc_collect env [] d1 d2 s = Some (r, s') \<and> collected env s s' \<and>
    (\<not> isl r \<longrightarrow> indexed env s' \<subseteq> held env s' \<and> in_activities env s' \<subseteq> held env s')"
proof -
  have "store_ok (rn_lib env) (rn_cfg env) (rc_store s)" using ok by (simp add: parts_ok_def)
  then obtain rep t where t: "recover_sync (rn_lib env) (rn_cfg env) [] (rc_store s) = (Inr rep, t)" "store_settled (rn_lib env) (rn_cfg env) t"
    "holdings (rn_lib env) (rn_cfg env) t = holdings (rn_lib env) (rn_cfg env) (rc_store s) ++ interrupted (rn_lib env) (rn_cfg env) (rc_store s)"
    by (rule recover_holdings)
  let ?s = "s\<lparr>rc_store := t\<rparr>" and ?canonical = "dom (holdings (rn_lib env) (rn_cfg env) t)"
  have st: "store_ok (rn_lib env) (rn_cfg env) t" by (rule settled_ok [OF t(2)])
  then have ids: "canonical_ids t = Some (Inr ?canonical, t)" using canonical_ids_eq [of t] ready_rows_holdings [OF st] by (simp add: store_ok_def)
  have ok1: "parts_ok env ?s" "held env ?s = ?canonical" using ok st by (simp_all add: part_defs)
  have base: "collected env s ?s" using ok1 t(3) settled_not_interrupted [OF t(2)] by (auto simp: collected_def part_defs)
  let ?body = "bindE (prune_index env d1 ?canonical) (\<lambda>pruned. bindE (rebuild_activity env d2 ?canonical) (\<lambda>rebuilt.
       ret \<lparr>gr_pruned_index_entries = pruned, gr_rebuilt_activity = rebuilt\<rparr>))"
  have "wp ?body (\<lambda>_ s'. collected env s s' \<and> indexed env s' \<subseteq> held env s' \<and> in_activities env s' \<subseteq> held env s') (\<lambda>_. collected env s) ?s"
    unfolding wp_bindE wp_ret
  proof (rule wp_mono [OF wp_prune_index [OF env ok1]], goal_cases)
    case (1 n s1)
    then have s1: "parts_ok env s1" "held env s1 = ?canonical" by (simp_all add: held_def)
    show ?case
    proof (rule wp_mono [OF wp_rebuild_activity [OF env d s1]], goal_cases)
      case (1 b s2)
      then show ?case using \<open>parts_ok env s1 \<and> _\<close> base by (auto simp: collected_def part_defs)
    next
      case (2 e s2)
      then show ?case using \<open>parts_ok env s1 \<and> _\<close> base by (auto simp: collected_def part_defs)
    qed
  next
    case (2 e s1)
    then show ?case using base by (auto simp: collected_def part_defs)
  qed
  moreover have "gc_collect env [] d1 d2 s = Some (?body ?s)"
    using t(1) ids by (simp add: gc_collect_def on_field_def loop_then_def)
  ultimately show ?thesis by (cases "?body ?s") (auto simp: wp_def split: sum.splits)
qed

section \<open>Histories\<close>

definition pending :: "recall_env \<Rightarrow> recall \<Rightarrow> record_uuid set" where
  "pending env s = (case journal_of env s of Inr (Some st) \<Rightarrow> set (dn_record_ids st) | _ \<Rightarrow> {})"

lemma kept_ok:
  assumes "recall_ok env s" "parts_ok env s'" "rc_journal s' = rc_journal s"
    and "held env s' \<inter> pending env s \<subseteq> held env s \<union> unfinished env s" "unfinished env s' \<inter> pending env s \<subseteq> unfinished env s"
    and "indexed env s' \<inter> pending env s \<subseteq> indexed env s" "in_activities env s' \<inter> pending env s \<subseteq> in_activities env s \<union> held env s \<union> unfinished env s"
  shows "recall_ok env s'"
  using assms unfolding recall_ok_def phase_facts_def pending_def journal_of_def
  by (cases "dn_phase (the (projr (journal_stored (rn_lib env) (rc_journal s))))") (auto split: sum.splits option.splits)


text \<open>
  A history of the whole memory: records are stored, indexed and grouped under identifiers that are not
  being deleted, deletions are requested, interrupted and recovered, and the store recovers.
\<close>

inductive recall_step :: "recall_env \<Rightarrow> recall \<Rightarrow> recall \<Rightarrow> bool" for env where
  recall_delete: "io_ok io \<Longrightarrow> unfinished env s \<inter> set ids = {} \<Longrightarrow> coordinator_delete env io request ids s = (r, s') \<Longrightarrow> recall_step env s s'"
| recall_resume: "io_ok io \<Longrightarrow> coordinator_recover env io s = (r, s') \<Longrightarrow> recall_step env s s'"
| recall_put: "envelope_ok e \<Longrightarrow> ev_record_id e \<notin> pending env s \<Longrightarrow>
    on_store (put_sync (rn_lib env) (rn_cfg env) faults e) s = (r, s') \<Longrightarrow> recall_step env s s'"
| recall_repair: "on_store (recover_sync (rn_lib env) (rn_cfg env) []) s = (r, s') \<Longrightarrow> recall_step env s s'"
| recall_index: "provider_ok p \<Longrightarrow> \<forall>x \<in> set ds. is_aware (xd_captured_at x) \<and> xd_record_id x \<notin> pending env s \<Longrightarrow>
    on_index (index_add (rn_index env) p d ds) s = (r, s') \<Longrightarrow> recall_step env s s'"
| recall_reindex: "(\<And>i. provider_ok (q i)) \<Longrightarrow> \<forall>x \<in> set ds. is_aware (xd_captured_at x) \<and> xd_record_id x \<notin> pending env s \<Longrightarrow>
    on_index (index_rebuild (rn_index env) q draws ds n) s = (r, s') \<Longrightarrow> recall_step env s s'"
| recall_group: "draw_ok d \<Longrightarrow> \<forall>x \<in> set rs. xr_record_id x \<notin> pending env s \<Longrightarrow>
    on_activity (activity_reconcile (rn_activity env) d rs) s = (r, s') \<Longrightarrow> recall_step env s s'"
| recall_collect: "draw_ok d' \<Longrightarrow> gc_collect env [] d d' s = Some (r, s') \<Longrightarrow> recall_step env s s'"

definition empty_recall :: recall where
  "empty_recall = \<lparr>rc_store = empty_store, rc_index = Map.empty, rc_activity = Map.empty, rc_journal = Map.empty\<rparr>"

lemma empty_recall_ok: "recall_ok env empty_recall"
  using settled_ok [OF empty_store_settled]
  by (simp add: recall_ok_def parts_ok_def empty_recall_def journal_of_def index_ok_def file_ok_def)

lemma put_keeps:
  assumes "blob_lib_ok (rn_lib env)" "envelope_ok e" "parts_ok env s" "on_store (put_sync (rn_lib env) (rn_cfg env) faults e) s = (r, s')"
  shows "parts_ok env s' \<and> (rc_index s', rc_activity s', rc_journal s') = (rc_index s, rc_activity s, rc_journal s) \<and>
    held env s' \<subseteq> insert (ev_record_id e) (held env s) \<and> unfinished env s' \<subseteq> insert (ev_record_id e) (unfinished env s)"
proof -
  obtain t where t: "put_sync (rn_lib env) (rn_cfg env) faults e (rc_store s) = (r, t)" "s' = s\<lparr>rc_store := t\<rparr>"
    using assms(4) by (auto simp: on_field_def split: prod.splits)
  have "store_ok (rn_lib env) (rn_cfg env) (rc_store s)" using assms(3) by (simp add: parts_ok_def)
  note eff = put_effect [OF assms(1,2) this t(1)]
  have "dom (holdings (rn_lib env) (rn_cfg env) t) \<subseteq> insert (ev_record_id e) (held env s) \<and>
      dom (interrupted (rn_lib env) (rn_cfg env) t) \<subseteq> insert (ev_record_id e) (unfinished env s)"
  proof (cases "isl r")
    case True
    then show ?thesis using eff(2) by (auto simp: held_def unfinished_def)
  next
    case False
    then show ?thesis using eff(3,4) by (cases "map_of (st_records (rc_store s)) (ev_record_id e)") (auto simp: held_def unfinished_def)
  qed
  then show ?thesis using eff(1) assms(3) t(2) by (auto simp: part_defs)
qed


lemma index_keeps:
  assumes ok: "recall_ok env s" and d: "s' = s\<lparr>rc_index := d\<rparr>" "index_ok (rn_index env) d"
    and new: "dom (view (rn_index env) d) \<inter> pending env s \<subseteq> indexed env s"
  shows "recall_ok env s'"
proof (rule kept_ok [OF ok])
  show "parts_ok env s'" using ok d by (simp add: recall_ok_def parts_ok_def)
qed (use d new in \<open>auto simp: part_defs\<close>)

lemma dom_entry_map: "dom (entry_map es) = set (map xe_record_id es)"
  by (simp add: entry_map_def dom_map_of_conv_image_fst image_image)

lemma added_within: "index_added env ds d d' \<Longrightarrow> index_ok env d' \<and> dom (view env d') \<subseteq> dom (view env d) \<union> set (map xd_record_id ds)"
  unfolding index_added_def saved_as_def entries_for_def by (metis dom_entry_map dom_map_add order_refl sup_commute)

lemma rebuilt_within: "rebuilt env ds d' \<Longrightarrow> index_ok env d' \<and> dom (view env d') \<subseteq> set (map xd_record_id ds)"
  unfolding rebuilt_def by (elim conjE exE) (simp add: view_def dom_entry_map del: set_map)

lemma recall_step_ok:
  assumes env: "env_ok env" "blob_lib_ok (rn_lib env)" and "recall_step env s s'" and ok: "recall_ok env s"
  shows "recall_ok env s'"
proof -
  have ix: "index_lib_ok (rn_index env)" "index_ok (rn_index env) (rc_index s)" and parts: "parts_ok env s"
    using env ok by (simp_all add: recall_ok_def parts_ok_def env_ok_def)
  from assms(3) show ?thesis
  proof cases
    case (recall_delete io ids request r)
    from wp_outcome [OF wp_coordinator_delete [OF env(1) recall_delete(1) ok recall_delete(2)] recall_delete(3)] show ?thesis
      by (auto simp: finished_def in_progress_def)
  next
    case (recall_resume io r)
    from wp_outcome [OF wp_coordinator_recover [OF env(1) recall_resume(1) ok] recall_resume(2)] show ?thesis by (auto simp: in_progress_def)
  next
    case (recall_put e faults r)
    note kept = put_keeps [OF env(2) recall_put(1) parts recall_put(3)]
    have "indexed env s' = indexed env s" "in_activities env s' = in_activities env s" using kept by (simp_all add: indexed_def in_activities_def)
    then show ?thesis using recall_put(2) kept by (intro kept_ok [OF ok]) auto
  next
    case (recall_repair r)
    then obtain t where t: "recover_sync (rn_lib env) (rn_cfg env) [] (rc_store s) = (r, t)" "s' = s\<lparr>rc_store := t\<rparr>"
      by (auto simp: on_field_def split: prod.splits)
    have "store_ok (rn_lib env) (rn_cfg env) (rc_store s)" using parts by (simp add: parts_ok_def)
    then have "store_ok (rn_lib env) (rn_cfg env) t" "holdings (rn_lib env) (rn_cfg env) t = holdings (rn_lib env) (rn_cfg env) (rc_store s) ++ interrupted (rn_lib env) (rn_cfg env) (rc_store s)"
      "interrupted (rn_lib env) (rn_cfg env) t = Map.empty"
      using recover_holdings t(1) settled_ok settled_not_interrupted by (metis snd_conv)+
    then show ?thesis using parts t(2) by (intro kept_ok [OF ok]) (auto simp: part_defs)
  next
    case (recall_index p ds d r)
    then obtain t where t: "index_add (rn_index env) p d ds (rc_index s) = (r, t)" "s' = s\<lparr>rc_index := t\<rparr>"
      by (auto simp: on_field_def split: prod.splits)
    have "\<forall>x \<in> set ds. is_aware (xd_captured_at x)" using recall_index(2) by blast
    from wp_outcome [OF wp_index_add [OF ix recall_index(1) this] t(1)]
    have "saved_as (rn_index env) (rc_index s) (view (rn_index env) (rc_index s)) t \<or> index_added (rn_index env) ds (rc_index s) t" by blast
    then have "index_ok (rn_index env) t \<and> dom (view (rn_index env) t) \<subseteq> indexed env s \<union> set (map xd_record_id ds)"
      unfolding saved_as_def indexed_def using added_within [of "rn_index env" ds "rc_index s" t] by auto
    then show ?thesis using recall_index(2) by (intro index_keeps [OF ok t(2)]) auto
  next
    case (recall_reindex q ds draws n r)
    then obtain t where t: "index_rebuild (rn_index env) q draws ds n (rc_index s) = (r, t)" "s' = s\<lparr>rc_index := t\<rparr>"
      by (auto simp: on_field_def split: prod.splits)
    have "\<forall>x \<in> set ds. is_aware (xd_captured_at x)" using recall_reindex(2) by blast
    from wp_outcome [OF wp_index_rebuild [OF ix recall_reindex(1) this] t(1)]
    have "active_kept (rn_index env) (rc_index s) t \<or> rebuilt (rn_index env) ds t" by blast
    then have "index_ok (rn_index env) t \<and> dom (view (rn_index env) t) \<subseteq> indexed env s \<union> set (map xd_record_id ds)"
      unfolding active_kept_def indexed_def using rebuilt_within [of "rn_index env" ds t] by (auto simp: view_def [of _ t] view_def [of _ "rc_index s"])
    then show ?thesis using recall_reindex(2) by (intro index_keeps [OF ok t(2)]) auto
  next
    case (recall_group d rs r)
    then obtain t where t: "activity_reconcile (rn_activity env) d rs (rc_activity s) = (r, t)" "s' = s\<lparr>rc_activity := t\<rparr>"
      by (auto simp: on_field_def split: prod.splits)
    have act: "activity_lib_ok (rn_activity env)" "length (dw_nonce d) = NONCE_BYTES" using env recall_group(1) by (simp_all add: env_ok_def draw_ok_def)
    from wp_outcome [OF wp_activity_reconcile [OF act] t(1)]
    have "activity_stored (rn_activity env) t = activity_stored (rn_activity env) (rc_activity s) \<or> reconciled (rn_activity env) rs t" by blast
    then show ?thesis using parts t(2) recall_group(2) by (intro kept_ok [OF ok]) (auto simp: part_defs reconciled_def)
  next
    case (recall_collect d' d r)
    then show ?thesis using gc_collects [OF env(1) recall_collect(1) parts, of d] by (intro kept_ok [OF ok]) (auto simp: collected_def)
  qed
qed

interpretation recall_history: invariant_system "recall_step env" empty_recall
  "\<lambda>s. env_ok env \<and> blob_lib_ok (rn_lib env) \<longrightarrow> recall_ok env s" for env
  by unfold_locales (auto intro: empty_recall_ok recall_step_ok)

lemma reachable_recall_ok:
  "env_ok env \<Longrightarrow> blob_lib_ok (rn_lib env) \<Longrightarrow> run (recall_step env) empty_recall s \<Longrightarrow> recall_ok env s"
  using recall_history.inv_reachable by blast


section \<open>Purge\<close>

definition purged :: "recall_env \<Rightarrow> recall \<Rightarrow> recall \<Rightarrow> bool" where
  "purged env s s' \<longleftrightarrow> parts_ok env s' \<and> held env s' = {} \<and> indexed env s' = {} \<and> rc_journal s' = rc_journal s \<and>
    stored (rn_index env) (rc_index s') CHECKPOINT_NAME = stored (rn_index env) (rc_index s) CHECKPOINT_NAME"

lemma wp_forget_activities:
  assumes env: "env_ok env" and d: "draw_ok d" and s: "purged env s0 s"
  shows "wp (bindE (lift (mk_ActivitySnapshot [])) (\<lambda>empty. seqE (on_activity (activity_replace (rn_activity env) d empty))
      (bindE (lift (destroy_active_key k)) (\<lambda>destroyed. ret (f destroyed)))))
    (\<lambda>_ s'. purged env s0 s' \<and> in_activities env s' = {}) (\<lambda>_. purged env s0) s"
proof -
  have act: "activity_lib_ok (rn_activity env)" "length (dw_nonce d) = NONCE_BYTES" using env d by (simp_all add: env_ok_def draw_ok_def)
  have wf: "snapshot_wf []" and made: "mk_ActivitySnapshot [] = Inr []" by (simp_all add: snapshot_wf_def mk_ActivitySnapshot_def snapshot_members_def)
  have "wp (on_activity (activity_replace (rn_activity env) d [])) (\<lambda>_ s'. purged env s0 s' \<and> in_activities env s' = {}) (\<lambda>_. purged env s0) s"
    unfolding wp_on_field
    by (rule wp_mono [OF wp_activity_replace [OF act(1) wf act(2)]]) (use s in \<open>auto simp: purged_def part_defs snapshot_members_def\<close>)
  then show ?thesis unfolding made wp_bindE wp_seqE wp_lift sum.case
    by (rule wp_mono) (auto simp: wp_ret split: sum.split)
qed

lemma purge_erases:
  assumes env: "env_ok env" and d: "draw_ok d" and ok: "parts_ok env s"
  shows "\<exists>r s'. purge_all env k [] d False s = Some (r, s') \<and> purged env s s' \<and> (\<not> isl r \<longrightarrow> in_activities env s' = {})"
proof -
  let ?lib = "rn_lib env" and ?cfg = "rn_cfg env"
  define ids where "ids = map ce_record_id (ready_entries (rc_store s))"
  have st: "store_ok ?lib ?cfg (rc_store s)" using ok by (simp add: parts_ok_def)
  then have wf: "catalog_wf (rc_store s)" by (simp add: store_ok_def)
  have held: "set ids = dom (holdings ?lib ?cfg (rc_store s))" using ready_rows_holdings [OF st] by (simp add: ids_def)
  have none: "holdings ?lib ?cfg (rc_store s) |` (- set ids) = Map.empty" unfolding held by (auto simp: restrict_map_def domIff)
  obtain t where t: "delete_all [] ids 0 (rc_store s) = (Inr (length ids), t)" "store_ok ?lib ?cfg t" "holdings ?lib ?cfg t = Map.empty"
    using delete_all_held [OF st ready_ids_distinct [OF wf, folded ids_def], of 0] held none by auto
  define s1 where "s1 = s\<lparr>rc_store := t, rc_index := (rc_index s)(ACTIVE_NAME := None)\<rparr>"
  have s1: "purged env s s1"
    using ok t(2,3) by (auto simp: s1_def purged_def part_defs index_ok_def file_ok_def stored_delete view_def)
  let ?rest = "bindE (lift (mk_ActivitySnapshot [])) (\<lambda>empty. seqE (on_activity (activity_replace (rn_activity env) d empty))
    (bindE (lift (destroy_active_key k)) (\<lambda>destroyed. ret \<lparr>pu_planned_count = length ids, pu_deleted_count = length ids, pu_key_destroyed = destroyed, pu_dry_run = False\<rparr>)))"
  have "purge_all env k [] d False s = Some (?rest s1)"
    using t(1) all_record_ids_eq [OF wf, folded ids_def]
    by (simp add: purge_all_def loop_then_def s1_def bindE_def seqE_def on_field_def index_clear_def modifies_def)
  moreover have "wp ?rest (\<lambda>_ s'. purged env s s' \<and> in_activities env s' = {}) (\<lambda>_. purged env s) s1"
    by (rule wp_forget_activities [OF env d s1])
  ultimately show ?thesis by (cases "?rest s1") (auto simp: wp_def split: sum.splits)
qed

section \<open>A concrete memory\<close>

definition sample_table :: "json list" where
  "sample_table = blob_header (tally_lib JNull) sample_envelope # map (\<lambda>p. journal_json (tally_lib JNull)
     \<lparr>dn_request_id = ''r'', dn_record_ids = [ev_record_id sample_envelope], dn_phase = p\<rparr>) [PHASE_PLANNED, RECORDS_DELETED, DERIVED_RECONCILED]"

definition sample_memory :: recall_env where
  "sample_memory = \<lparr>rn_cfg = sample_storage,
     rn_index = \<lparr>ix_lib = table_lib sample_table, ix_seal = sample_seal, ix_sqrt = id\<rparr>,
     rn_activity = \<lparr>ae_lib = table_lib sample_table, ae_seal = sample_seal, ae_sqrt = id, ae_utf8 = map (\<lambda>c. of_nat (of_char c)),
       ae_parse = \<lambda>_. None, ae_dump_value = \<lambda>_. [], ae_hex = \<lambda>_. [], ae_pid = ''1'',
       ae_policy = \<lparr>cp_max_gap = 60, cp_strong_gap = 10, cp_minimum_score = 1, cp_minimum_semantic = 1\<rparr>,
       ae_embedding = \<lparr>bp_capabilities = Inl (RuntimeError ''off''), bp_embed = \<lambda>_. Inl (RuntimeError ''off'')\<rparr>,
       ae_summaries = \<lparr>gp_capabilities = Inl (RuntimeError ''off''), gp_generate = \<lambda>_. Inl (RuntimeError ''off'')\<rparr>\<rparr>,
     rn_decrypt = \<lambda>_ _. Inl (RuntimeError ''off''), rn_candidate_limit = 10\<rparr>"

definition sample_io :: deletion_io where
  "sample_io = \<lparr>di_begin = WRITE_DONE, di_delete = \<lambda>_. ([], []), di_deleted = WRITE_DONE,
     di_index = \<lparr>dw_data_key = [], dw_nonce = replicate 24 0, dw_fault = WRITE_DONE\<rparr>,
     di_activity = \<lparr>dw_data_key = [], dw_nonce = replicate 24 0, dw_fault = WRITE_DONE\<rparr>,
     di_reconciled = WRITE_DONE, di_clear = False\<rparr>"

lemma table_blob_ok: "blob_lib_ok (table_lib xs)"
  using tally_lib_ok [of JNull] by (simp add: blob_lib_ok_def table_lib_def)

lemma table_journal_ok: "journal_lib_ok (table_lib xs)"
  using tally_lib_ok [of JNull] by (simp add: journal_lib_ok_def blob_lib_ok_def table_lib_def)

lemma sample_memory_ok: "env_ok sample_memory" "blob_lib_ok (rn_lib sample_memory)" "io_ok sample_io"
proof -
  have "activity_lib_ok (rn_activity sample_memory)"
    using sample_seal_ok [of sample_table] table_blob_ok [of sample_table]
    by (simp add: activity_lib_ok_def sample_memory_def blob_lib_ok_def, simp add: table_lib_def)
  then show "env_ok sample_memory" using table_index_ok table_journal_ok by (simp add: env_ok_def sample_memory_def)
qed (simp_all add: sample_memory_def table_blob_ok sample_io_def io_ok_def draw_ok_def NONCE_BYTES_def)

lemma wp_write_undisturbed:
  assumes "journal_lib_ok lib" "deletion_wf st" "length (bl_dumps lib (journal_json lib st)) \<le> MAX_JOURNAL_BYTES"
  shows "wp (journal_write lib WRITE_DONE st) (\<lambda>_ d'. journal_stored lib d' = Inr (Some st)) (\<lambda>_ _. False) d"
proof -
  have "wp (journal_write lib WRITE_DONE st) (\<lambda>_ _. True) (\<lambda>_ _. False) d"
    using assms(3) by (simp add: journal_write_def Let_def atomic_write_def wp_rules)
  from wp_conj [OF this wp_journal_write [OF assms(1,2)]] show ?thesis by (rule wp_mono) auto
qed


lemma sample_journal:
  assumes "dn_request_id st = ''r''" "dn_record_ids st = [ev_record_id sample_envelope]"
  shows "deletion_wf st" "length (bl_dumps (rn_lib sample_memory) (journal_json (rn_lib sample_memory) st)) \<le> MAX_JOURNAL_BYTES"
proof -
  have letter: "request_char (CHR ''r'')" by code_simp
  have "mk_DeletionState ''r'' [ev_record_id sample_envelope] (dn_phase st) = Inr \<lparr>dn_request_id = ''r'', dn_record_ids = [ev_record_id sample_envelope], dn_phase = dn_phase st\<rparr>"
    using letter by (simp add: mk_DeletionState_def validate_request_id_def validate_record_ids_def)
  then show "deletion_wf st" using assms by (cases st) (simp add: deletion_wf_def)
  have j: "journal_json (rn_lib sample_memory) st = journal_json (tally_lib JNull) \<lparr>dn_request_id = ''r'', dn_record_ids = [ev_record_id sample_envelope], dn_phase = dn_phase st\<rparr>"
    using assms by (simp add: sample_memory_def journal_json_def table_lib_def)
  have "code_of sample_table (journal_json (rn_lib sample_memory) st) \<le> 3"
    unfolding j by (cases "dn_phase st") (simp_all add: sample_table_def)
  then show "length (bl_dumps (rn_lib sample_memory) (journal_json (rn_lib sample_memory) st)) \<le> MAX_JOURNAL_BYTES"
    by (simp add: sample_memory_def MAX_JOURNAL_BYTES_def)
qed


lemma wp_advance_undisturbed:
  assumes lib: "journal_lib_ok lib" and cur: "journal_stored lib d = Inr (Some st)" and rank: "phase_rank p = phase_rank (dn_phase st) + 1"
    and size: "length (bl_dumps lib (journal_json lib (st\<lparr>dn_phase := p\<rparr>))) \<le> MAX_JOURNAL_BYTES"
  shows "wp (journal_advance lib WRITE_DONE p) (\<lambda>st' d'. st' = st\<lparr>dn_phase := p\<rparr> \<and> journal_stored lib d' = Inr (Some st')) (\<lambda>_ _. False) d"
proof -
  note remade = remade_state [OF journal_stored_wf [OF cur], of p]
  have "wp (journal_write lib WRITE_DONE (st\<lparr>dn_phase := p\<rparr>)) (\<lambda>_ d'. journal_stored lib d' = Inr (Some (st\<lparr>dn_phase := p\<rparr>))) (\<lambda>_ _. False) d"
    by (rule wp_write_undisturbed [OF lib remade(2) size])
  then show ?thesis unfolding journal_advance_def
    by (simp add: wp_bindE wp_seqE wp_journal_load cur wp_require rank wp_lift remade(1) wp_ret)
qed

lemma sample_deletion:
  assumes st: "store_ok (rn_lib sample_memory) sample_storage (rc_store s)" and u: "ev_record_id sample_envelope \<in> held sample_memory s"
    and empty: "rc_index s = Map.empty" "rc_activity s = Map.empty" "rc_journal s = Map.empty"
  shows "\<exists>r s'. coordinator_delete sample_memory sample_io ''r'' [ev_record_id sample_envelope] s = (Inr r, s')"
proof -
  let ?env = sample_memory and ?io = sample_io and ?u = "ev_record_id sample_envelope" and ?lib = "rn_lib sample_memory"
  let ?st = "\<lambda>p. \<lparr>dn_request_id = ''r'', dn_record_ids = [?u], dn_phase = p\<rparr>"
  have lib: "journal_lib_ok ?lib" using sample_memory_ok(1) by (simp add: env_ok_def)
  have wf: "deletion_wf (?st p)" "length (bl_dumps ?lib (journal_json ?lib (?st p))) \<le> MAX_JOURNAL_BYTES" for p
    by (rule sample_journal; simp)+
  then have made: "mk_DeletionState ''r'' [?u] p = Inr (?st p)" for p by (simp add: deletion_wf_def)
  have io: "di_begin ?io = WRITE_DONE" "di_deleted ?io = WRITE_DONE" "di_reconciled ?io = WRITE_DONE" "di_delete ?io v = ([], [])" "di_clear ?io = False" for v
    by (simp_all add: sample_io_def)
  let ?F = "\<lambda>_ :: exn. \<lambda>_ :: recall. False" and ?at = "\<lambda>p t. journal_stored ?lib (rc_journal t) = Inr (Some (?st p))"
  have advance: "wp (on_journal (journal_advance ?lib WRITE_DONE p)) (\<lambda>st t'. st = ?st p \<and> ?at p t' \<and> rc_index t' = rc_index t \<and> rc_activity t' = rc_activity t) ?F t"
    if "?at q t" "phase_rank p = phase_rank q + 1" for p q t
    unfolding wp_on_field using wp_advance_undisturbed [OF lib that(1), of p] that(2) wf(2) [of p] by (simp cong: conj_cong)
  have derived: "wp (resume_derived ?env ?io (?st RECORDS_DELETED)) (\<lambda>st _. dn_phase st = DERIVED_RECONCILED) ?F t"
    if t: "rc_index t = Map.empty" "rc_activity t = Map.empty" "?at RECORDS_DELETED t" for t
  proof -
    have "wp (on_journal (journal_advance ?lib WRITE_DONE DERIVED_RECONCILED)) (\<lambda>st _. dn_phase st = DERIVED_RECONCILED) ?F t"
      by (rule wp_mono [OF advance [OF t(3)]]) auto
    then show ?thesis using t(1,2)
      by (simp add: resume_derived_def wp_bindE wp_seqE reconcile_deleted_def validate_scope_def index_remove_def io wp_rules)
  qed
  have records: "wp (resume_records ?env ?io (?st PHASE_PLANNED)) (\<lambda>st t'. st = ?st RECORDS_DELETED \<and> ?at RECORDS_DELETED t' \<and> rc_index t' = Map.empty \<and> rc_activity t' = Map.empty) ?F
      (s\<lparr>rc_journal := j\<rparr>)" if j: "journal_stored ?lib j = Inr (Some (?st PHASE_PLANNED))" for j
  proof -
    have "delete_sync [] [] ?u (rc_store s) = (Inr \<lparr>dr_record_id = ?u, dr_deleted = True, dr_material_destroyed = False\<rparr>, cleared_store ?u (rc_store s))"
      using delete_held [OF st] u by (simp add: held_def sample_memory_def)
    then have "wp (on_store (delete_records ?io [?u])) (\<lambda>_ t. ?at PHASE_PLANNED t \<and> rc_index t = Map.empty \<and> rc_activity t = Map.empty) ?F (s\<lparr>rc_journal := j\<rparr>)"
      using j empty by (simp add: io wp_on_field wp_bindE wp_ret wp_def)
    then show ?thesis unfolding resume_records_def
      by (simp add: wp_seqE io) (rule wp_mono, assumption, rule wp_mono [OF advance], auto)
  qed
  have resume: "wp (resume_deletion ?env ?io False (?st PHASE_PLANNED)) (\<lambda>_ _. True) ?F (s\<lparr>rc_journal := j\<rparr>)"
    if j: "journal_stored ?lib j = Inr (Some (?st PHASE_PLANNED))" for j
    unfolding resume_deletion_def wp_bindE wp_seqE wp_ret
  proof (rule wp_mono [OF records [OF j]], goal_cases)
    case (1 st1 t1)
    then have "wp (resume_derived ?env ?io st1) (\<lambda>st _. dn_phase st = DERIVED_RECONCILED) ?F t1" using derived by simp
    then show ?case by (rule wp_mono) (simp_all add: journal_clear_def io wp_rules)
  qed
  have "validate_request_id ''r'' = Inr ()" "validate_record_ids [?u] = Inr ()"
    using made [of PHASE_PLANNED] by (auto simp: mk_DeletionState_def bindS_Inr)
  moreover have "wp (on_journal (seqE (journal_write ?lib WRITE_DONE (?st PHASE_PLANNED)) (ret (?st PHASE_PLANNED))))
      (\<lambda>x. wp (resume_deletion ?env ?io False x) (\<lambda>_ _. True) ?F) ?F s"
    unfolding wp_on_field wp_seqE wp_ret by (rule wp_mono [OF wp_write_undisturbed [OF lib wf]]) (use resume in auto)
  ultimately have "wp (coordinator_delete ?env ?io ''r'' [?u]) (\<lambda>_ _. True) ?F s"
    using made [of PHASE_PLANNED] empty(3)
    by (simp add: coordinator_delete_def journal_begin_def wp_bindE wp_seqE wp_lift wp_on_field wp_journal_load io wp_ret)
  then show ?thesis by (auto simp: wp_def split: sum.splits prod.splits)
qed


lemma sample_held:
  "\<exists>s. run (recall_step sample_memory) empty_recall s \<and> ev_record_id sample_envelope \<in> held sample_memory s \<and> unfinished sample_memory s = {} \<and>
    store_ok (rn_lib sample_memory) sample_storage (rc_store s) \<and> rc_index s = Map.empty \<and> rc_activity s = Map.empty \<and> rc_journal s = Map.empty"
proof -
  let ?lib = "rn_lib sample_memory"
  have "blob_header ?lib sample_envelope = blob_header (tally_lib JNull) sample_envelope"
    by (simp add: sample_memory_def blob_header_def table_lib_def)
  then have "bl_dumps ?lib (blob_header ?lib sample_envelope) = [0]" by (simp add: sample_memory_def sample_table_def)
  from sample_stored [OF sample_memory_ok(2) this] obtain ref t where
    t: "put_sync ?lib sample_storage [] sample_envelope empty_store = (Inr ref, t)" "store_ok ?lib sample_storage t"
      "holdings ?lib sample_storage t (ev_record_id sample_envelope) = Some sample_envelope" by blast
  let ?s = "empty_recall\<lparr>rc_store := t\<rparr>"
  have "on_store (put_sync ?lib (rn_cfg sample_memory) [] sample_envelope) empty_recall = (Inr ref, ?s)"
    using t(1) by (simp add: on_field_def empty_recall_def sample_memory_def)
  moreover have "pending sample_memory empty_recall = {}" by (simp add: pending_def journal_of_def empty_recall_def)
  ultimately have "run (recall_step sample_memory) empty_recall ?s"
    by (intro run_one recall_put [OF sample_encoded(1)]) auto
  moreover have "interrupted ?lib sample_storage t = Map.empty"
    using put_effect(3) [OF sample_memory_ok(2) sample_encoded(1) settled_ok [OF empty_store_settled] t(1)]
      settled_not_interrupted [OF empty_store_settled] by (simp add: empty_store_def)
  ultimately show ?thesis using t(2,3) by (intro exI [of _ ?s]) (auto simp: held_def unfinished_def sample_memory_def empty_recall_def)
qed

section \<open>Properties\<close>





text \<open>
  Purging everything: it always ends; the store, the active index and, when it returns, the activities are
  empty. The checkpoint of an interrupted rebuild of the index stays as it was.
\<close>

theorem purge_empties_the_memory:
  assumes "env_ok env" and "blob_lib_ok (rn_lib env)" and "run (recall_step env) empty_recall s" and "draw_ok d"
  shows "\<exists>r s'. purge_all env k [] d False s = Some (r, s') \<and> held env s' = {} \<and> indexed env s' = {} \<and> (\<not> isl r \<longrightarrow> in_activities env s' = {}) \<and>
    stored (rn_index env) (rc_index s') CHECKPOINT_NAME = stored (rn_index env) (rc_index s) CHECKPOINT_NAME"
proof -
  have "parts_ok env s" using reachable_recall_ok [OF assms(1-3)] by (simp add: recall_ok_def)
  from purge_erases [OF assms(1,4) this, of k] show ?thesis by (auto simp: purged_def)
qed

end
