(* ===== verification/Spec2Isabelle.thy ===== *)
theory Spec2Isabelle
  imports Gate_Concurrency Lifecycle_Safety Pipeline_Safety Session_Safety Policy_Safety Storage_Safety Retention_Safety Redaction_Safety
    Answering_Safety Adaptive_Safety Deletion_Safety
begin

text \<open>
  Local Recall.
\<close>

end
